(* ===== verification/PyPrelude.thy ===== *)
theory PyPrelude
  imports Main "HOL-Library.Char_ord" "HOL-Library.List_Lexorder"
    "HOL-Library.Product_Lexorder" "HOL-Library.Multiset" "HOL-Library.Sublist"
begin

section \<open>Prelude: results, dictionaries and keyed sorting of the modelled Python\<close>

text \<open>
  What every component shares.

  \<^item> Exceptions are values: \<open>'a result\<close> is \<open>py_error + 'a\<close>, with \<open>Inl\<close> for the raised
    exception and \<open>rbind\<close> for "stop at the first exception".
  \<^item> A Python \<^verbatim>\<open>dict\<close> keeps insertion order, so it is an association list with distinct
    keys; \<open>dict_set\<close> overwrites in place or appends, \<open>dict_get\<close> is \<^verbatim>\<open>dict.get\<close>. The locale
    \<open>ordered_dict\<close> states the laws its clients use, and the association lists
    interpret it.
  \<^item> \<^verbatim>\<open>sorted(xs, key=k)\<close> is stable, and so is \<open>sort_key\<close>; the locale \<open>deterministic_key\<close>
    collects what makes its result independent of the order of the input.
\<close>

named_theorems result_simps \<open>evaluation and inversion of results\<close>
named_theorems dict_simps \<open>lookup and update of dictionaries\<close>
named_theorems str_simps \<open>equations of the string operations\<close>

subsection \<open>Exceptions as values\<close>

datatype py_error =
    ValueError string
  | KeyError string
  | IndexError
  | TypeError
  | AttributeError
  | ZeroDivisionError
  | UnicodeDecodeError
  | ScenarioPlanningError string
  | MixedStorageTargetsError string
  | ComparisonFileError string
  | OSError string
  | OverflowError
  | SystemExit int

type_synonym 'a result = "py_error + 'a"

definition rbind :: "'a result \<Rightarrow> ('a \<Rightarrow> 'b result) \<Rightarrow> 'b result" where
  "rbind m f = (case m of Inl e \<Rightarrow> Inl e | Inr x \<Rightarrow> f x)"

lemma rbind_Inl [simp, result_simps]: "rbind (Inl e) f = Inl e"
  by (simp add: rbind_def)

lemma rbind_Inr [simp, result_simps]: "rbind (Inr x) f = f x"
  by (simp add: rbind_def)

lemma rbind_eq_Inr [result_simps]: "rbind m f = Inr y \<longleftrightarrow> (\<exists>x. m = Inr x \<and> f x = Inr y)"
  by (cases m) auto

lemma rbind_eq_Inl [result_simps]:
  "rbind m f = Inl e \<longleftrightarrow> m = Inl e \<or> (\<exists>x. m = Inr x \<and> f x = Inl e)"
  by (cases m) auto

lemma rbind_assoc: "rbind (rbind m f) g = rbind m (\<lambda>x. rbind (f x) g)"
  by (cases m) auto

text \<open>\<open>check b e\<close> is \<^verbatim>\<open>if not b: raise e\<close>.\<close>

definition check :: "bool \<Rightarrow> py_error \<Rightarrow> unit result" where
  "check b e = (if b then Inr () else Inl e)"

lemma check_simps [simp, result_simps]:
  "check True e = Inr ()" "check False e = Inl e"
  by (simp_all add: check_def)

lemma check_eq_Inr [simp, result_simps]: "check b e = Inr u \<longleftrightarrow> b"
  by (simp add: check_def)

lemma check_eq_Inl [simp, result_simps]: "check b e = Inl e' \<longleftrightarrow> \<not> b \<and> e' = e"
  by (auto simp: check_def)

text \<open>A loop whose body may raise, and a comprehension whose element may raise.\<close>

fun each :: "('a \<Rightarrow> unit result) \<Rightarrow> 'a list \<Rightarrow> unit result" where
  "each f [] = Inr ()"
| "each f (x # xs) = rbind (f x) (\<lambda>_. each f xs)"

fun traverse :: "('a \<Rightarrow> 'b result) \<Rightarrow> 'a list \<Rightarrow> 'b list result" where
  "traverse f [] = Inr []"
| "traverse f (x # xs) = rbind (f x) (\<lambda>y. rbind (traverse f xs) (\<lambda>ys. Inr (y # ys)))"

lemma each_eq_Inr [result_simps]: "each f xs = Inr u \<longleftrightarrow> (\<forall>x \<in> set xs. f x = Inr ())"
  by (induction xs) (auto simp: rbind_eq_Inr)

lemma traverse_eq_Inr: "traverse f xs = Inr ys \<longleftrightarrow> list_all2 (\<lambda>x y. f x = Inr y) xs ys"
  by (induction xs arbitrary: ys) (auto simp: rbind_eq_Inr list_all2_Cons1)

lemma traverse_length: "traverse f xs = Inr ys \<Longrightarrow> length ys = length xs"
  by (simp add: traverse_eq_Inr list_all2_lengthD)

lemma traverse_total: "(\<And>x. x \<in> set xs \<Longrightarrow> f x = Inr (g x)) \<Longrightarrow> traverse f xs = Inr (map g xs)"
  by (induction xs) auto

subsection \<open>Dictionaries\<close>

type_synonym ('k, 'v) dict = "('k \<times> 'v) list"

fun dict_set :: "'k \<Rightarrow> 'v \<Rightarrow> ('k, 'v) dict \<Rightarrow> ('k, 'v) dict" where
  "dict_set k v [] = [(k, v)]"
| "dict_set k v ((k', v') # d) = (if k = k' then (k, v) # d else (k', v') # dict_set k v d)"

abbreviation dict_get :: "('k, 'v) dict \<Rightarrow> 'k \<Rightarrow> 'v option" where
  "dict_get \<equiv> map_of"

abbreviation dict_keys :: "('k, 'v) dict \<Rightarrow> 'k list" where
  "dict_keys d \<equiv> map fst d"

definition dict_wf :: "('k, 'v) dict \<Rightarrow> bool" where
  "dict_wf d \<longleftrightarrow> distinct (dict_keys d)"

lemma dict_get_set [simp, dict_simps]: "dict_get (dict_set k v d) = (dict_get d)(k \<mapsto> v)"
  by (induction d) auto

lemma dict_keys_set [dict_simps]:
  "dict_keys (dict_set k v d) = (if k \<in> set (dict_keys d) then dict_keys d else dict_keys d @ [k])"
  by (induction d) fastforce+

lemma dict_wf_Nil [simp, dict_simps]: "dict_wf []"
  by (simp add: dict_wf_def)

lemma dict_wf_set [simp, dict_simps]: "dict_wf d \<Longrightarrow> dict_wf (dict_set k v d)"
  by (simp add: dict_wf_def dict_keys_set)

text \<open>\<^verbatim>\<open>d.setdefault(k, []).append(v)\<close>\<close>

definition dict_append :: "'k \<Rightarrow> 'v \<Rightarrow> ('k, 'v list) dict \<Rightarrow> ('k, 'v list) dict" where
  "dict_append k v d = dict_set k ((case dict_get d k of None \<Rightarrow> [] | Some vs \<Rightarrow> vs) @ [v]) d"

text \<open>
  The contract of an insertion-ordered dictionary, and the grouping loop
  (\<^verbatim>\<open>for k, v in items: d.setdefault(k, []).append(v)\<close>) proved once against it.
\<close>

locale ordered_dict =
  fixes empty :: "'m"
    and lookup :: "'m \<Rightarrow> 'k \<Rightarrow> 'v list option"
    and update :: "'k \<Rightarrow> 'v list \<Rightarrow> 'm \<Rightarrow> 'm"
    and keys :: "'m \<Rightarrow> 'k list"
  assumes lookup_empty: "lookup empty k = None"
    and lookup_update: "lookup (update k v m) k' = (if k' = k then Some v else lookup m k')"
    and keys_empty: "keys empty = []"
    and keys_update: "keys (update k v m) = (if k \<in> set (keys m) then keys m else keys m @ [k])"
begin

definition push :: "'k \<Rightarrow> 'v \<Rightarrow> 'm \<Rightarrow> 'm" where
  "push k v m = update k ((case lookup m k of None \<Rightarrow> [] | Some vs \<Rightarrow> vs) @ [v]) m"

definition entries :: "'m \<Rightarrow> 'k \<Rightarrow> 'v list" where
  "entries m k = (case lookup m k of None \<Rightarrow> [] | Some vs \<Rightarrow> vs)"

lemma entries_push: "entries (push k v m) k' = (if k' = k then entries m k @ [v] else entries m k')"
  by (simp add: entries_def push_def lookup_update)

lemma entries_fold:
  "entries (fold (\<lambda>(k, v). push k v) kvs m) k = entries m k @ map snd (filter (\<lambda>p. fst p = k) kvs)"
proof (induction kvs arbitrary: m)
  case Nil
  then show ?case by simp
next
  case (Cons p kvs)
  obtain k0 v0 where p: "p = (k0, v0)" by (cases p)
  show ?case by (simp add: p Cons.IH entries_push)
qed

lemma keys_push: "set (keys (push k v m)) = insert k (set (keys m))"
  by (auto simp: push_def keys_update)

lemma keys_fold: "set (keys (fold (\<lambda>(k, v). push k v) kvs m)) = set (keys m) \<union> fst ` set kvs"
proof (induction kvs arbitrary: m)
  case Nil
  then show ?case by simp
next
  case (Cons p kvs)
  obtain k0 v0 where p: "p = (k0, v0)" by (cases p)
  show ?case by (simp add: p Cons.IH keys_push)
qed

lemma distinct_keys_push: "distinct (keys m) \<Longrightarrow> distinct (keys (push k v m))"
  by (simp add: push_def keys_update)

lemma distinct_keys_fold: "distinct (keys m) \<Longrightarrow> distinct (keys (fold (\<lambda>(k, v). push k v) kvs m))"
proof (induction kvs arbitrary: m)
  case Nil
  then show ?case by simp
next
  case (Cons p kvs)
  obtain k0 v0 where p: "p = (k0, v0)" by (cases p)
  show ?case using Cons.prems by (simp add: p Cons.IH distinct_keys_push)
qed

end

interpretation adict: ordered_dict "[]" dict_get dict_set dict_keys
  by unfold_locales (auto simp: dict_keys_set)

lemma dict_append_push: "dict_append = adict.push"
  by (intro ext) (simp add: dict_append_def adict.push_def)

subsection \<open>Sorting by a key\<close>

text \<open>
  If no two different elements have the same key, sorting by the key gives a result
  that depends on the elements only, not on their order: the report code relies on this
  whenever it sorts the elements of a set.
\<close>

lemma sort_key_eq_Nil [simp]: "sort_key f xs = [] \<longleftrightarrow> xs = []"
  by (metis length_0_conv length_sort)

locale deterministic_key =
  fixes key :: "'a \<Rightarrow> 'b::linorder" and domain :: "'a set"
  assumes key_inj: "inj_on key domain"
begin

lemma sort_key_unique:
  assumes "mset xs = mset ys" and "set xs \<subseteq> domain"
  shows "sort_key key xs = sort_key key ys"
proof (rule sort_key_inj_key_eq)
  show "mset xs = mset (sort_key key ys)" using assms by simp
  show "inj_on key (set xs)" using key_inj assms(2) by (rule inj_on_subset)
  show "sorted (map key (sort_key key ys))" by simp
qed

lemma sort_key_of_set:
  assumes "set xs = set ys" and "distinct xs" and "distinct ys" and "set xs \<subseteq> domain"
  shows "sort_key key xs = sort_key key ys"
  using assms by (intro sort_key_unique) (simp_all add: set_eq_iff_mset_eq_distinct)

lemma sorted_distinct_keys:
  assumes "distinct xs" and "set xs \<subseteq> domain"
  shows "sorted_wrt (<) (map key (sort_key key xs))"
proof -
  have "inj_on key (set xs)" using key_inj assms(2) by (rule inj_on_subset)
  then have "distinct (map key (sort_key key xs))" using assms(1) by (simp add: distinct_map)
  then show ?thesis by (simp add: strict_sorted_iff)
qed

end

subsection \<open>Folding with exceptions\<close>

text \<open>A \<^verbatim>\<open>for\<close> loop whose body updates a state or raises.\<close>

primrec rfold :: "('a \<Rightarrow> 's \<Rightarrow> 's result) \<Rightarrow> 'a list \<Rightarrow> 's \<Rightarrow> 's result" where
  "rfold f [] s = Inr s"
| "rfold f (x # xs) s = rbind (f x s) (rfold f xs)"

lemma rfold_append: "rfold f (xs @ ys) s = rbind (rfold f xs s) (rfold f ys)"
proof (induction xs arbitrary: s)
  case (Cons x xs)
  show ?case by (cases "f x s") (simp_all add: Cons.IH)
qed simp

lemma rfold_Cons_Inr: "rfold f (x # xs) s = Inr t \<longleftrightarrow> (\<exists>u. f x s = Inr u \<and> rfold f xs u = Inr t)"
  by (simp add: rbind_eq_Inr)

lemma rfold_total:
  "(\<And>x s. x \<in> set xs \<Longrightarrow> f x s = Inr (g x s)) \<Longrightarrow> rfold f xs s = Inr (fold g xs s)"
  by (induction xs arbitrary: s) simp_all

subsection \<open>Loops without a bound in the source\<close>

text \<open>
  A \<^verbatim>\<open>while\<close> loop as a step that may stop (\<open>None\<close>) and its iteration. Where every step
  keeps an invariant and lowers a rank, the loop returns, the invariant holds for what it
  returns, and no further step is possible from there.
\<close>

locale descending_loop =
  fixes step :: "'s \<Rightarrow> 's option" and loop :: "'s \<Rightarrow> 's option"
    and inv :: "'s \<Rightarrow> bool" and rank :: "'s \<Rightarrow> nat"
  assumes loop_unfold: "loop s = (case step s of None \<Rightarrow> Some s | Some s' \<Rightarrow> loop s')"
    and step_inv: "inv s \<Longrightarrow> step s = Some s' \<Longrightarrow> inv s'"
    and step_rank: "inv s \<Longrightarrow> step s = Some s' \<Longrightarrow> rank s' < rank s"
begin

lemma loop_returns: "inv s \<Longrightarrow> \<exists>s'. loop s = Some s' \<and> inv s' \<and> step s' = None"
proof (induction "rank s" arbitrary: s rule: less_induct)
  case less
  show ?case
  proof (cases "step s")
    case None
    then show ?thesis using less.prems by (simp add: loop_unfold)
  next
    case (Some s')
    have "\<exists>t. loop s' = Some t \<and> inv t \<and> step t = None"
      using less.hyps [OF step_rank [OF less.prems Some] step_inv [OF less.prems Some]] .
    then show ?thesis using Some loop_unfold [of s] by simp
  qed
qed

end

end
