(* ===== verification/PyStrings.thy ===== *)
theory PyStrings
  imports PyPrelude
begin

section \<open>The string operations of Python that the program uses\<close>

text \<open>
  A Python \<^verbatim>\<open>str\<close> is modelled as \<open>string\<close>, a list of \<open>char\<close> read as the code points below
  256. On that range the definitions below are the documented behaviour of Python 3:
  the whitespace of \<^verbatim>\<open>str.strip\<close>, the line boundaries of \<^verbatim>\<open>str.splitlines\<close>, \<^verbatim>\<open>\d\<close> of
  \<^verbatim>\<open>re\<close>, and comparison by code point, which is also the order of the UTF-8 encodings
  (\<open>(<)\<close> on \<open>string\<close> from \<open>List_Lexorder\<close> and \<open>Char_ord\<close>).
  The lemmas are the round trips the components use: split and join, decimal
  printing and reading.
\<close>

subsection \<open>Character classes\<close>

abbreviation code :: "char \<Rightarrow> nat" where
  "code c \<equiv> of_char c"

lemma char_of_numeral [simp]:
  "char_of (numeral k :: nat) =
     Char (odd (numeral k :: nat)) (odd ((numeral k :: nat) div 2)) (odd ((numeral k :: nat) div 4))
       (odd ((numeral k :: nat) div 8)) (odd ((numeral k :: nat) div 16)) (odd ((numeral k :: nat) div 32))
       (odd ((numeral k :: nat) div 64)) (odd ((numeral k :: nat) div 128))"
  by (simp add: char_of_def bit_iff_odd)

lemma code_eq_iff: "code c = n \<longleftrightarrow> n < 256 \<and> c = char_of n"
  by (auto simp: nat_of_char_less_256 of_char_of)

definition py_space :: "char \<Rightarrow> bool" where
  "py_space c \<longleftrightarrow> (9 \<le> code c \<and> code c \<le> 13) \<or> (28 \<le> code c \<and> code c \<le> 32) \<or>
     code c = 133 \<or> code c = 160"

definition is_digit :: "char \<Rightarrow> bool" where
  "is_digit c \<longleftrightarrow> 48 \<le> code c \<and> code c \<le> 57"

definition is_lower :: "char \<Rightarrow> bool" where
  "is_lower c \<longleftrightarrow> 97 \<le> code c \<and> code c \<le> 122"

definition is_upper :: "char \<Rightarrow> bool" where
  "is_upper c \<longleftrightarrow> 65 \<le> code c \<and> code c \<le> 90"

abbreviation LF :: char where
  "LF \<equiv> CHR 0x0A"

abbreviation CR :: char where
  "CR \<equiv> CHR 0x0D"

abbreviation TAB :: char where
  "TAB \<equiv> CHR 0x09"

definition line_boundary :: "char \<Rightarrow> bool" where
  "line_boundary c \<longleftrightarrow> (10 \<le> code c \<and> code c \<le> 13) \<or> (28 \<le> code c \<and> code c \<le> 30) \<or> code c = 133"

text \<open>\<^verbatim>\<open>str.lower\<close>: the letters with a lower-case partner below 256.\<close>

definition lower_char :: "char \<Rightarrow> char" where
  "lower_char c = (if is_upper c \<or> (192 \<le> code c \<and> code c \<le> 222 \<and> code c \<noteq> 215)
     then char_of (code c + 32) else c)"

definition py_lower :: "string \<Rightarrow> string" where
  "py_lower s = map lower_char s"

text \<open>\<^verbatim>\<open>str.upper\<close> on ASCII text, the only text the program upper-cases.\<close>

definition upper_ascii :: "string \<Rightarrow> string" where
  "upper_ascii s = map (\<lambda>c. if is_lower c then char_of (code c - 32) else c) s"

subsection \<open>Stripping, splitting, joining\<close>

definition rdrop :: "(char \<Rightarrow> bool) \<Rightarrow> string \<Rightarrow> string" where
  "rdrop p s = rev (dropWhile p (rev s))"

definition py_strip :: "string \<Rightarrow> string" where
  "py_strip s = rdrop py_space (dropWhile py_space s)"

definition rstrip_char :: "char \<Rightarrow> string \<Rightarrow> string" where
  "rstrip_char c s = rdrop (\<lambda>x. x = c) s"

definition startswith :: "string \<Rightarrow> string \<Rightarrow> bool" where
  "startswith s p \<longleftrightarrow> take (length p) s = p"

definition removeprefix :: "string \<Rightarrow> string \<Rightarrow> string" where
  "removeprefix s p = (if startswith s p then drop (length p) s else s)"

fun split_on :: "char \<Rightarrow> string \<Rightarrow> string list" where
  "split_on c [] = [[]]"
| "split_on c (x # xs) =
     (if x = c then [] # split_on c xs
      else (case split_on c xs of [] \<Rightarrow> [[x]] | w # ws \<Rightarrow> (x # w) # ws))"

definition before :: "char \<Rightarrow> string \<Rightarrow> string" where
  "before c s = takeWhile (\<lambda>x. x \<noteq> c) s"

definition after :: "char \<Rightarrow> string \<Rightarrow> string" where
  "after c s = tl (dropWhile (\<lambda>x. x \<noteq> c) s)"

fun join :: "string \<Rightarrow> string list \<Rightarrow> string" where
  "join sep [] = []"
| "join sep [w] = w"
| "join sep (w # v # ws) = w @ sep @ join sep (v # ws)"

text \<open>\<^verbatim>\<open>str.splitlines()\<close>; the first argument is the line read so far, reversed.\<close>

fun lines_from :: "string \<Rightarrow> string \<Rightarrow> string list" where
  "lines_from cur [] = (if cur = [] then [] else [rev cur])"
| "lines_from cur [c] = (if line_boundary c then [rev cur] else [rev (c # cur)])"
| "lines_from cur (c # d # cs) =
     (if c = CR \<and> d = LF then rev cur # lines_from [] cs
      else if line_boundary c then rev cur # lines_from [] (d # cs)
      else lines_from (c # cur) (d # cs))"

definition splitlines :: "string \<Rightarrow> string list" where
  "splitlines s = lines_from [] s"

subsection \<open>Numbers\<close>

definition digit_char :: "nat \<Rightarrow> char" where
  "digit_char d = char_of (48 + d)"

fun dec :: "nat \<Rightarrow> string" where
  "dec n = (if n < 10 then [digit_char n] else dec (n div 10) @ [digit_char (n mod 10)])"

declare dec.simps [simp del]

definition str_int :: "int \<Rightarrow> string" where
  "str_int i = (if i < 0 then CHR ''-'' # dec (nat (- i)) else dec (nat i))"

text \<open>\<^verbatim>\<open>int(s)\<close> of a string of ASCII digits.\<close>

definition undec :: "string \<Rightarrow> nat" where
  "undec s = foldl (\<lambda>a c. 10 * a + (code c - 48)) 0 s"

text \<open>\<^verbatim>\<open>f"{n:0wd}"\<close> for a natural number.\<close>

definition pad0 :: "nat \<Rightarrow> nat \<Rightarrow> string" where
  "pad0 w n = replicate (w - length (dec n)) (CHR ''0'') @ dec n"

subsection \<open>Laws of splitting and joining\<close>

lemma split_on_nonempty [simp]: "split_on c s \<noteq> []"
  by (induction s) (auto split: list.splits)

lemma split_on_free: "c \<notin> set s \<Longrightarrow> split_on c s = [s]"
  by (induction s) auto

lemma split_on_parts_free: "w \<in> set (split_on c s) \<Longrightarrow> c \<notin> set w"
  by (induction s arbitrary: w) (auto split: if_splits list.splits)

lemma split_on_subset: "w \<in> set (split_on c s) \<Longrightarrow> set w \<subseteq> set s"
  by (induction s arbitrary: w) (fastforce split: if_splits list.splits)+

lemma split_on_append:
  "c \<notin> set w \<Longrightarrow> split_on c (w @ c # s) = w # split_on c s"
  by (induction w) auto

lemma join_Cons: "ws \<noteq> [] \<Longrightarrow> join sep (w # ws) = w @ sep @ join sep ws"
  by (cases ws) auto

lemma split_on_join:
  assumes "ws \<noteq> []" and "\<forall>w \<in> set ws. c \<notin> set w"
  shows "split_on c (join [c] ws) = ws"
  using assms
proof (induction ws)
  case Nil
  then show ?case by simp
next
  case (Cons w ws)
  then show ?case
    by (cases ws) (auto simp: split_on_free split_on_append)
qed

lemma join_split_on: "join [c] (split_on c s) = s"
proof (induction s)
  case Nil
  then show ?case by simp
next
  case (Cons x xs)
  obtain w ws where sp: "split_on c xs = w # ws"
    by (metis neq_Nil_conv split_on_nonempty)
  with Cons show ?case by (cases ws) auto
qed

lemma set_join: "set (join sep ws) \<subseteq> set sep \<union> \<Union> (set ` set ws)"
  by (induction sep ws rule: join.induct) auto

lemma length_split_on: "length (split_on c s) = Suc (count_list s c)"
  by (induction s) (auto split: list.splits)

lemma before_after: "c \<in> set s \<Longrightarrow> before c s @ c # after c s = s"
  by (induction s) (auto simp: before_def after_def)

lemma before_free [simp]: "c \<notin> set (before c s)"
  by (auto simp: before_def dest: set_takeWhileD)

lemma before_append: "c \<notin> set w \<Longrightarrow> before c (w @ c # s) = w"
  by (induction w) (auto simp: before_def)

lemma after_append: "c \<notin> set w \<Longrightarrow> after c (w @ c # s) = s"
  by (induction w) (auto simp: after_def)

lemma set_after: "set (after c s) \<subseteq> set s"
  by (auto simp: after_def dest!: set_dropWhileD list.set_sel(2) intro: ccontr)
     (metis list.sel(2) set_dropWhileD list.set_sel(2))

lemma startswith_append [simp]: "startswith (p @ s) p"
  by (simp add: startswith_def)

lemma startswith_iff: "startswith s p \<longleftrightarrow> (\<exists>t. s = p @ t)"
  by (metis append_take_drop_id append_eq_conv_conj startswith_def)

lemma removeprefix_append [simp]: "removeprefix (p @ s) p = s"
  by (simp add: removeprefix_def)

lemma lines_from_line:
  assumes "\<forall>c \<in> set l. \<not> line_boundary c"
  shows "lines_from cur (l @ LF # s) = (rev cur @ l) # lines_from [] s"
  using assms
proof (induction l arbitrary: cur)
  case Nil
  have "line_boundary LF" "LF \<noteq> CR" by (simp_all add: line_boundary_def)
  then show ?case by (cases s) auto
next
  case (Cons c l)
  have "\<not> line_boundary c" "c \<noteq> CR" using Cons.prems by (auto simp: line_boundary_def)
  moreover obtain d t where "l @ LF # s = d # t" by (cases l) auto
  ultimately show ?case using Cons by (metis append_Cons append_assoc append_Nil list.set_intros(2)
        lines_from.simps(3) rev.simps(2))
qed

lemma splitlines_lines:
  "\<forall>l \<in> set ls. \<forall>c \<in> set l. \<not> line_boundary c \<Longrightarrow>
   splitlines (concat (map (\<lambda>l. l @ [LF]) ls)) = ls"
  by (induction ls) (simp_all add: splitlines_def lines_from_line)

subsection \<open>Laws of decimal printing\<close>

lemma code_digit_char: "d < 10 \<Longrightarrow> code (digit_char d) = 48 + d"
  by (simp add: digit_char_def of_char_of)

lemma is_digit_digit_char: "d < 10 \<Longrightarrow> is_digit (digit_char d)"
  by (simp add: is_digit_def code_digit_char)

lemma dec_digits: "list_all is_digit (dec n)"
proof (induction n rule: dec.induct)
  case (1 n)
  then show ?case
    by (subst dec.simps) (auto simp: is_digit_digit_char)
qed

lemma dec_nonempty [simp]: "dec n \<noteq> []"
  by (subst dec.simps) simp

lemma undec_append: "undec (s @ [c]) = 10 * undec s + (code c - 48)"
  by (simp add: undec_def)

lemma undec_dec [simp]: "undec (dec n) = n"
proof (induction n rule: dec.induct)
  case (1 n)
  show ?case
  proof (cases "n < 10")
    case True
    then show ?thesis by (subst dec.simps) (simp add: undec_def code_digit_char)
  next
    case False
    with 1 have "undec (dec (n div 10)) = n div 10" by simp
    with False show ?thesis
      by (subst dec.simps) (simp add: undec_append code_digit_char)
  qed
qed

lemma dec_inj [simp]: "dec m = dec n \<longleftrightarrow> m = n"
  by (metis undec_dec)

lemma undec_zeros: "undec (replicate k (CHR ''0'') @ s) = undec s"
  by (induction k) (simp_all add: undec_def)

lemma undec_pad0 [simp]: "undec (pad0 w n) = n"
  by (simp add: pad0_def undec_zeros)

lemma pad0_inj [simp]: "pad0 w m = pad0 w n \<longleftrightarrow> m = n"
  by (metis undec_pad0)

lemma pad0_digits: "list_all is_digit (pad0 w n)"
  using dec_digits by (auto simp: pad0_def list_all_iff is_digit_def)

lemma pad0_nonempty [simp]: "pad0 w n \<noteq> []"
  by (simp add: pad0_def)

lemma length_pad0: "w \<le> length (pad0 w n)"
  by (simp add: pad0_def)

end
