(* ===== verification/PyValues.thy ===== *)
theory PyValues
  imports PyStrings
begin

section \<open>Dynamically typed values\<close>

text \<open>
  Snapshots (\<^verbatim>\<open>env_used.yaml\<close>) and results documents are loaded as plain Python data.
  \<open>pyval\<close> is that data; a float carries the text Python prints for it, since the
  modelled code only prints such values. \<open>py_str\<close> is \<^verbatim>\<open>str(value)\<close>, \<open>truthy\<close> is
  \<^verbatim>\<open>bool(value)\<close>, \<open>val_get\<close> is \<^verbatim>\<open>mapping.get(key)\<close> for a string key.
\<close>

datatype pyval =
    PNone
  | PBool bool
  | PInt int
  | PFloat string
  | PStr string
  | PList "pyval list"
  | PDict "(pyval \<times> pyval) list"

type_synonym settings = "(string, pyval) dict"

definition hex_digit :: "nat \<Rightarrow> char" where
  "hex_digit d = (if d < 10 then char_of (48 + d) else char_of (87 + d))"

definition hex2 :: "nat \<Rightarrow> string" where
  "hex2 n = [hex_digit (n div 16), hex_digit (n mod 16)]"

definition repr_char :: "char \<Rightarrow> char \<Rightarrow> string" where
  "repr_char q c =
     (if c = q \<or> c = CHR 0x5C then [CHR 0x5C, c]
      else if c = TAB then [CHR 0x5C, CHR ''t'']
      else if c = LF then [CHR 0x5C, CHR ''n'']
      else if c = CR then [CHR 0x5C, CHR ''r'']
      else if code c < 32 \<or> (127 \<le> code c \<and> code c \<le> 160) \<or> code c = 173
        then [CHR 0x5C, CHR ''x''] @ hex2 (code c)
      else [c])"

definition repr_str :: "string \<Rightarrow> string" where
  "repr_str s =
     (let q = (if CHR 0x27 \<in> set s \<and> CHR 0x22 \<notin> set s then CHR 0x22 else CHR 0x27)
      in q # concat (map (repr_char q) s) @ [q])"

function (sequential) py_repr :: "pyval \<Rightarrow> string"
  and py_reprs :: "pyval list \<Rightarrow> string list"
  and py_repr_items :: "(pyval \<times> pyval) list \<Rightarrow> string list" where
  "py_repr PNone = ''None''"
| "py_repr (PBool b) = (if b then ''True'' else ''False'')"
| "py_repr (PInt i) = str_int i"
| "py_repr (PFloat t) = t"
| "py_repr (PStr s) = repr_str s"
| "py_repr (PList xs) = ''['' @ join '', '' (py_reprs xs) @ '']''"
| "py_repr (PDict d) = ''{'' @ join '', '' (py_repr_items d) @ ''}''"
| "py_reprs [] = []"
| "py_reprs (x # xs) = py_repr x # py_reprs xs"
| "py_repr_items [] = []"
| "py_repr_items ((k, v) # d) = (py_repr k @ '': '' @ py_repr v) # py_repr_items d"
  by pat_completeness auto
termination
  by (relation "measure (case_sum size (case_sum (size_list size) (size_list (size_prod size size))))")
    auto

definition py_str :: "pyval \<Rightarrow> string" where
  "py_str v = (case v of PStr s \<Rightarrow> s | _ \<Rightarrow> py_repr v)"

definition zero_text :: "string \<Rightarrow> bool" where
  "zero_text t \<longleftrightarrow> t = ''0.0'' \<or> t = ''-0.0''"

definition truthy :: "pyval \<Rightarrow> bool" where
  "truthy v = (case v of
       PNone \<Rightarrow> False
     | PBool b \<Rightarrow> b
     | PInt i \<Rightarrow> i \<noteq> 0
     | PFloat t \<Rightarrow> \<not> zero_text t
     | PStr s \<Rightarrow> s \<noteq> []
     | PList xs \<Rightarrow> xs \<noteq> []
     | PDict d \<Rightarrow> d \<noteq> [])"

text \<open>\<^verbatim>\<open>env.get(key)\<close>, with \<^verbatim>\<open>None\<close> for an absent key.\<close>

definition val_get :: "settings \<Rightarrow> string \<Rightarrow> pyval" where
  "val_get env k = (case dict_get env k of None \<Rightarrow> PNone | Some v \<Rightarrow> v)"

lemma py_str_PStr [simp]: "py_str (PStr s) = s"
  by (simp add: py_str_def)

lemma py_str_PInt [simp]: "py_str (PInt i) = str_int i"
  by (simp add: py_str_def)

lemma truthy_simps [simp]:
  "\<not> truthy PNone" "truthy (PBool b) = b" "truthy (PStr s) \<longleftrightarrow> s \<noteq> []" "truthy (PInt i) \<longleftrightarrow> i \<noteq> 0"
  by (simp_all add: truthy_def)

lemma val_get_simps [simp]:
  "val_get [] k = PNone"
  "val_get ((k', v) # env) k = (if k = k' then v else val_get env k)"
  by (simp_all add: val_get_def)

text \<open>\<^verbatim>\<open>value == n\<close> for an \<^verbatim>\<open>int\<close>: booleans are the numbers 0 and 1, and a float equals an
  integer of moderate size when its text is that integer with a zero fraction.\<close>

definition eq_int :: "pyval \<Rightarrow> int \<Rightarrow> bool" where
  "eq_int v n = (case v of
       PInt i \<Rightarrow> i = n
     | PBool b \<Rightarrow> of_bool b = n
     | PFloat t \<Rightarrow> t = str_int n @ ''.0'' \<or> (n = 0 \<and> zero_text t)
     | _ \<Rightarrow> False)"

lemma eq_int_PInt [simp]: "eq_int (PInt i) n \<longleftrightarrow> i = n"
  by (simp add: eq_int_def)

text \<open>\<^verbatim>\<open>int(text)\<close>: surrounding white space, one sign, digits with single underscores
  between them.\<close>

definition digit_groups :: "string \<Rightarrow> nat option" where
  "digit_groups s = (let groups = split_on (CHR ''_'') s in
     if list_all (\<lambda>g. g \<noteq> [] \<and> list_all is_digit g) groups then Some (undec (concat groups)) else None)"

definition py_int :: "string \<Rightarrow> int result" where
  "py_int s =
     (let t = py_strip s;
          signed = t \<noteq> [] \<and> (hd t = CHR ''-'' \<or> hd t = CHR ''+'')
      in case digit_groups (if signed then tl t else t) of
           None \<Rightarrow> Inl (ValueError (''invalid literal for int() with base 10: '' @ repr_str s))
         | Some n \<Rightarrow> Inr (if t \<noteq> [] \<and> hd t = CHR ''-'' then - int n else int n))"

lemma py_strip_id:
  assumes "s \<noteq> []" and "\<not> py_space (hd s)" and "\<not> py_space (last s)"
  shows "py_strip s = s"
proof -
  have "dropWhile py_space s = s" using assms by (cases s) auto
  moreover have "dropWhile py_space (rev s) = rev s"
    using assms by (cases "rev s") (auto simp: rev_swap)
  ultimately show ?thesis by (simp add: py_strip_def rdrop_def)
qed

lemma digit_not_space: "is_digit c \<Longrightarrow> \<not> py_space c"
  by (auto simp: is_digit_def py_space_def)

lemma digit_groups_dec: "digit_groups (dec n) = Some n"
proof -
  have "CHR ''_'' \<notin> set (dec n)" using dec_digits [of n] by (auto simp: list_all_iff is_digit_def)
  then show ?thesis using dec_digits [of n] by (simp add: digit_groups_def split_on_free)
qed

lemma hd_dec: "is_digit (hd (dec n))"
  using dec_digits [of n] by (cases "dec n") auto

text \<open>Printing a number and reading it back.\<close>

lemma py_int_str_int [simp]: "py_int (str_int i) = Inr i"
proof -
  have "\<forall>c \<in> set (dec n). \<not> py_space c" for n
    using dec_digits [of n] digit_not_space by (auto simp: list_all_iff)
  then have "\<not> py_space (hd (dec n))" "\<not> py_space (last (dec n))" for n
    using dec_nonempty [of n] hd_in_set [of "dec n"] last_in_set [of "dec n"] by blast+
  moreover have "\<not> py_space (CHR ''-'')" by (simp add: py_space_def)
  ultimately have sp: "py_strip (dec n) = dec n" "py_strip (CHR ''-'' # dec n) = CHR ''-'' # dec n" for n
    by (simp_all add: py_strip_id)
  have "hd (dec n) \<noteq> CHR ''-''" "hd (dec n) \<noteq> CHR ''+''" for n
    using hd_dec [of n] by (auto simp: is_digit_def)
  then show ?thesis by (simp add: py_int_def str_int_def sp digit_groups_dec)
qed

end
