(* ===== verification/PyRegex.thy ===== *)
theory PyRegex
  imports PyStrings
begin

section \<open>The part of Python's \<^verbatim>\<open>re\<close> that validates text\<close>

text \<open>
  The program validates identifiers, digests and sizes with anchored regular
  expressions. \<open>rx\<close> is their syntax, \<open>lang\<close> what they denote, and \<open>fullmatch\<close> an
  executable matcher by derivatives, proved equal to the denotation. A pattern written
  \<^verbatim>\<open>^...$\<close> and used with \<^verbatim>\<open>match\<close> is \<open>match_dollar\<close>: Python's \<^verbatim>\<open>$\<close> also matches before a
  final line feed, so that such a check accepts one trailing line feed.
\<close>

datatype (dead 'c) rx_of =
    RNone
  | REps
  | RCls "'c \<Rightarrow> bool"
  | RSeq "'c rx_of" "'c rx_of"
  | RAlt "'c rx_of" "'c rx_of"
  | RStar "'c rx_of"

type_synonym rx = "char rx_of"

subsection \<open>Denotation\<close>

inductive_set star_of :: "'c list set \<Rightarrow> 'c list set" for A where
  star_Nil: "[] \<in> star_of A"
| star_app: "u \<in> A \<Longrightarrow> v \<in> star_of A \<Longrightarrow> u @ v \<in> star_of A"

primrec lang :: "'c rx_of \<Rightarrow> 'c list set" where
  "lang RNone = {}"
| "lang REps = {[]}"
| "lang (RCls p) = {[c] | c. p c}"
| "lang (RSeq r s) = {u @ v | u v. u \<in> lang r \<and> v \<in> lang s}"
| "lang (RAlt r s) = lang r \<union> lang s"
| "lang (RStar r) = star_of (lang r)"

subsection \<open>Matching by derivatives\<close>

primrec nullable :: "'c rx_of \<Rightarrow> bool" where
  "nullable RNone = False"
| "nullable REps = True"
| "nullable (RCls p) = False"
| "nullable (RSeq r s) = (nullable r \<and> nullable s)"
| "nullable (RAlt r s) = (nullable r \<or> nullable s)"
| "nullable (RStar r) = True"

definition mk_seq :: "'c rx_of \<Rightarrow> 'c rx_of \<Rightarrow> 'c rx_of" where
  "mk_seq r s = (case r of RNone \<Rightarrow> RNone | REps \<Rightarrow> s | _ \<Rightarrow> RSeq r s)"

definition mk_alt :: "'c rx_of \<Rightarrow> 'c rx_of \<Rightarrow> 'c rx_of" where
  "mk_alt r s = (case r of RNone \<Rightarrow> s | _ \<Rightarrow> (case s of RNone \<Rightarrow> r | _ \<Rightarrow> RAlt r s))"

primrec deriv :: "'c \<Rightarrow> 'c rx_of \<Rightarrow> 'c rx_of" where
  "deriv c RNone = RNone"
| "deriv c REps = RNone"
| "deriv c (RCls p) = (if p c then REps else RNone)"
| "deriv c (RSeq r s) =
     (if nullable r then mk_alt (mk_seq (deriv c r) s) (deriv c s) else mk_seq (deriv c r) s)"
| "deriv c (RAlt r s) = mk_alt (deriv c r) (deriv c s)"
| "deriv c (RStar r) = mk_seq (deriv c r) (RStar r)"

fun fullmatch :: "'c rx_of \<Rightarrow> 'c list \<Rightarrow> bool" where
  "fullmatch r [] = nullable r"
| "fullmatch r (c # cs) = fullmatch (deriv c r) cs"

lemma lang_mk_seq [simp]: "lang (mk_seq r s) = lang (RSeq r s)"
  by (auto simp: mk_seq_def split: rx_of.splits)

lemma lang_mk_alt [simp]: "lang (mk_alt r s) = lang r \<union> lang s"
  by (auto simp: mk_alt_def split: rx_of.splits)

lemma nullable_lang: "nullable r \<longleftrightarrow> [] \<in> lang r"
  by (induction r) (auto intro: star_of.intros)

lemma star_of_Cons: "c # w \<in> star_of A \<longleftrightarrow> (\<exists>u v. w = u @ v \<and> c # u \<in> A \<and> v \<in> star_of A)"
proof
  assume "c # w \<in> star_of A"
  then show "\<exists>u v. w = u @ v \<and> c # u \<in> A \<and> v \<in> star_of A"
  proof (induction "c # w" arbitrary: w rule: star_of.induct)
    case (star_app u v)
    then show ?case by (cases u) auto
  qed
next
  assume "\<exists>u v. w = u @ v \<and> c # u \<in> A \<and> v \<in> star_of A"
  then show "c # w \<in> star_of A" by (metis append_Cons star_of.star_app)
qed

lemma seq_Cons:
  "c # w \<in> {u @ v | u v. u \<in> A \<and> v \<in> B} \<longleftrightarrow>
     (\<exists>u v. w = u @ v \<and> c # u \<in> A \<and> v \<in> B) \<or> ([] \<in> A \<and> c # w \<in> B)"
  by (auto simp: Cons_eq_append_conv)

lemma deriv_lang: "w \<in> lang (deriv c r) \<longleftrightarrow> c # w \<in> lang r"
proof (induction r arbitrary: w)
  case (RSeq r s)
  show ?case
    unfolding lang.simps(4) seq_Cons by (auto simp: RSeq nullable_lang)
next
  case (RStar r)
  then show ?case by (auto simp: star_of_Cons)
qed auto

theorem fullmatch_lang: "fullmatch r w \<longleftrightarrow> w \<in> lang r"
  by (induction r w rule: fullmatch.induct) (auto simp: nullable_lang deriv_lang)

subsection \<open>Derived forms and their meaning\<close>

definition RPlus :: "'c rx_of \<Rightarrow> 'c rx_of" where
  "RPlus r = RSeq r (RStar r)"

definition ROpt :: "'c rx_of \<Rightarrow> 'c rx_of" where
  "ROpt r = RAlt REps r"

definition RChr :: "char \<Rightarrow> rx" where
  "RChr c = RCls (\<lambda>x. x = c)"

primrec RRep :: "nat \<Rightarrow> 'c rx_of \<Rightarrow> 'c rx_of" where
  "RRep 0 r = REps"
| "RRep (Suc n) r = RSeq r (RRep n r)"

definition match_dollar :: "rx \<Rightarrow> string \<Rightarrow> bool" where
  "match_dollar r s \<longleftrightarrow> fullmatch r s \<or> (s \<noteq> [] \<and> last s = LF \<and> fullmatch r (butlast s))"

lemma lang_star_cls: "w \<in> lang (RStar (RCls p)) \<longleftrightarrow> list_all p w"
proof (induction w)
  case Nil
  then show ?case by (simp add: star_of.intros)
next
  case (Cons c w)
  have "c # w \<in> star_of {[c] |c. p c} \<longleftrightarrow> p c \<and> w \<in> star_of {[c] |c. p c}"
    by (auto simp: star_of_Cons)
  with Cons show ?case by simp
qed

lemma fullmatch_star_cls [simp]: "fullmatch (RStar (RCls p)) w \<longleftrightarrow> list_all p w"
  by (simp only: fullmatch_lang lang_star_cls)

lemma fullmatch_seq:
  "fullmatch (RSeq r s) w \<longleftrightarrow> (\<exists>u v. w = u @ v \<and> fullmatch r u \<and> fullmatch s v)"
  by (auto simp: fullmatch_lang)

lemma fullmatch_alt: "fullmatch (RAlt r s) w \<longleftrightarrow> fullmatch r w \<or> fullmatch s w"
  by (simp add: fullmatch_lang)

lemma fullmatch_eps: "fullmatch REps w \<longleftrightarrow> w = []"
  by (simp add: fullmatch_lang)

lemma fullmatch_cls: "fullmatch (RCls p) w \<longleftrightarrow> (\<exists>c. w = [c] \<and> p c)"
  by (simp add: fullmatch_lang)

lemma fullmatch_opt: "fullmatch (ROpt r) w \<longleftrightarrow> w = [] \<or> fullmatch r w"
  by (simp add: ROpt_def fullmatch_alt fullmatch_eps)

lemma fullmatch_none [simp]: "\<not> fullmatch RNone w"
  by (simp add: fullmatch_lang)

lemma fullmatch_cls_seq:
  "fullmatch (RSeq (RCls p) r) w \<longleftrightarrow> (\<exists>c v. w = c # v \<and> p c \<and> fullmatch r v)"
  by (cases w) (auto simp: mk_seq_def)

lemma fullmatch_plus_cls: "fullmatch (RPlus (RCls p)) w \<longleftrightarrow> w \<noteq> [] \<and> list_all p w"
  by (cases w) (auto simp del: fullmatch.simps simp: RPlus_def fullmatch_cls_seq)

lemma fullmatch_rep_cls: "fullmatch (RRep n (RCls p)) w \<longleftrightarrow> length w = n \<and> list_all p w"
proof (induction n arbitrary: w)
  case 0
  then show ?case by (auto simp: fullmatch_eps)
next
  case (Suc n)
  then show ?case
    by (cases w) (auto simp del: fullmatch.simps simp: fullmatch_cls_seq)
qed

lemmas fullmatch_simps =
  fullmatch_seq fullmatch_alt fullmatch_eps fullmatch_cls fullmatch_opt
  fullmatch_plus_cls fullmatch_rep_cls

lemma match_dollar_no_LF: "LF \<notin> set s \<Longrightarrow> match_dollar r s \<longleftrightarrow> fullmatch r s"
  by (metis last_in_set match_dollar_def)

text \<open>Every character of a match satisfies what all classes of the pattern require.\<close>

primrec rx_over :: "('c \<Rightarrow> bool) \<Rightarrow> 'c rx_of \<Rightarrow> bool" where
  "rx_over p RNone = True"
| "rx_over p REps = True"
| "rx_over p (RCls q) = (\<forall>c. q c \<longrightarrow> p c)"
| "rx_over p (RSeq r s) = (rx_over p r \<and> rx_over p s)"
| "rx_over p (RAlt r s) = (rx_over p r \<and> rx_over p s)"
| "rx_over p (RStar r) = rx_over p r"

lemma star_over: "w \<in> star_of A \<Longrightarrow> \<forall>u \<in> A. list_all p u \<Longrightarrow> list_all p w"
  by (induction rule: star_of.induct) auto

lemma lang_over: "rx_over p r \<Longrightarrow> w \<in> lang r \<Longrightarrow> list_all p w"
  by (induction r arbitrary: w) (auto intro: star_over)

lemma fullmatch_over: "rx_over p r \<Longrightarrow> fullmatch r w \<Longrightarrow> c \<in> set w \<Longrightarrow> p c"
  using lang_over by (fastforce simp: fullmatch_lang list_all_iff)

lemma match_dollar_over: "rx_over p r \<Longrightarrow> match_dollar r s \<Longrightarrow> c \<in> set s \<Longrightarrow> p c \<or> c = LF"
  by (cases s rule: rev_cases) (auto simp: match_dollar_def dest: fullmatch_over)

end
