(* ===== verification/PyShlex.thy ===== *)
theory PyShlex
  imports PyStrings
begin

section \<open>\<^verbatim>\<open>shlex.split\<close>\<close>

text \<open>
  Execution definitions (\<^verbatim>\<open>executions/NNNN.sh\<close>) hold shell \<^verbatim>\<open>export NAME=value\<close> lines whose
  values are read with \<^verbatim>\<open>shlex.split(raw)\<close>: POSIX mode, whitespace splitting, no comments.
  \<open>shlex_run\<close> is the lexer's state machine over the rest of the input; its token and
  \<open>quoted\<close> flag are those of \<^verbatim>\<open>shlex.read_token\<close>. Unbalanced quotes and a dangling
  escape raise \<^verbatim>\<open>ValueError\<close>.
  The interface \<open>shell_words\<close> is what the readers of definitions need from it: a value
  quoted by the writer is read back as one word.
\<close>

datatype lex_state = LSpace | LWord | LQuote char | LEscape lex_state

abbreviation squote :: char where
  "squote \<equiv> CHR 0x27"

abbreviation dquote :: char where
  "dquote \<equiv> CHR 0x22"

abbreviation backslash :: char where
  "backslash \<equiv> CHR 0x5C"

definition shlex_space :: "char \<Rightarrow> bool" where
  "shlex_space c \<longleftrightarrow> c = CHR '' '' \<or> c = TAB \<or> c = CR \<or> c = LF"

definition shlex_quote_char :: "char \<Rightarrow> bool" where
  "shlex_quote_char c \<longleftrightarrow> c = squote \<or> c = dquote"

fun shlex_run :: "lex_state \<Rightarrow> string \<Rightarrow> bool \<Rightarrow> string \<Rightarrow> string list result" where
  "shlex_run LSpace tok quoted [] = Inr []"
| "shlex_run LSpace tok quoted (c # cs) =
     (if shlex_space c then shlex_run LSpace [] False cs
      else if c = backslash then shlex_run (LEscape LWord) [] False cs
      else if shlex_quote_char c then shlex_run (LQuote c) [] False cs
      else shlex_run LWord [c] False cs)"
| "shlex_run LWord tok quoted [] = Inr (if tok \<noteq> [] \<or> quoted then [tok] else [])"
| "shlex_run LWord tok quoted (c # cs) =
     (if shlex_space c then
        (if tok \<noteq> [] \<or> quoted
         then rbind (shlex_run LSpace [] False cs) (\<lambda>ws. Inr (tok # ws))
         else shlex_run LSpace [] False cs)
      else if shlex_quote_char c then shlex_run (LQuote c) tok quoted cs
      else if c = backslash then shlex_run (LEscape LWord) tok quoted cs
      else shlex_run LWord (tok @ [c]) quoted cs)"
| "shlex_run (LQuote q) tok quoted [] = Inl (ValueError ''No closing quotation'')"
| "shlex_run (LQuote q) tok quoted (c # cs) =
     (if c = q then shlex_run LWord tok True cs
      else if c = backslash \<and> q = dquote then shlex_run (LEscape (LQuote q)) tok True cs
      else shlex_run (LQuote q) (tok @ [c]) True cs)"
| "shlex_run (LEscape st) tok quoted [] = Inl (ValueError ''No escaped character'')"
| "shlex_run (LEscape st) tok quoted (c # cs) =
     (case st of
        LQuote q \<Rightarrow>
          (if c \<noteq> backslash \<and> c \<noteq> q then shlex_run st (tok @ [backslash, c]) quoted cs
           else shlex_run st (tok @ [c]) quoted cs)
      | _ \<Rightarrow> shlex_run st (tok @ [c]) quoted cs)"

definition shlex_split :: "string \<Rightarrow> string list result" where
  "shlex_split s = shlex_run LSpace [] False s"

subsection \<open>Words the lexer reads back\<close>

definition shlex_plain :: "char \<Rightarrow> bool" where
  "shlex_plain c \<longleftrightarrow> \<not> shlex_space c \<and> \<not> shlex_quote_char c \<and> c \<noteq> backslash"

lemma run_plain:
  "\<forall>c \<in> set w. shlex_plain c \<Longrightarrow> shlex_run LWord tok qd (w @ s) = shlex_run LWord (tok @ w) qd s"
  by (induction w arbitrary: tok) (simp_all add: shlex_plain_def)

lemma shlex_split_plain:
  assumes "w \<noteq> []" and "\<forall>c \<in> set w. shlex_plain c"
  shows "shlex_split w = Inr [w]"
proof -
  obtain c cs where w: "w = c # cs" using assms(1) by (cases w) auto
  have "shlex_run LWord [c] False (cs @ []) = shlex_run LWord ([c] @ cs) False []"
    using assms(2) w by (intro run_plain) auto
  then show ?thesis using assms(2) by (simp add: shlex_split_def w shlex_plain_def)
qed

lemma run_squoted:
  "squote \<notin> set w \<Longrightarrow>
   shlex_run (LQuote squote) tok qd (w @ squote # s) = shlex_run LWord (tok @ w) True s"
  by (induction w arbitrary: tok qd) auto

lemma shlex_split_squoted:
  "squote \<notin> set w \<Longrightarrow> shlex_split (squote # w @ [squote]) = Inr [w]"
  by (simp add: shlex_split_def shlex_space_def shlex_quote_char_def run_squoted)

text \<open>
  Backslash quoting, as \<^verbatim>\<open>printf '%q'\<close> of the shell writes a non-empty value of printable
  characters.
\<close>

fun backslash_quote :: "(char \<Rightarrow> bool) \<Rightarrow> string \<Rightarrow> string" where
  "backslash_quote safe [] = []"
| "backslash_quote safe (c # cs) =
     (if safe c then c # backslash_quote safe cs else backslash # c # backslash_quote safe cs)"

lemma run_backslash_quote:
  assumes "\<And>c. safe c \<Longrightarrow> shlex_plain c"
  shows "shlex_run LWord tok qd (backslash_quote safe w @ s) = shlex_run LWord (tok @ w) qd s"
proof (induction w arbitrary: tok)
  case Nil
  then show ?case by simp
next
  case (Cons c w)
  have "\<not> shlex_space backslash" "\<not> shlex_quote_char backslash"
    by (simp_all add: shlex_space_def shlex_quote_char_def)
  with Cons assms[of c] show ?case by (simp add: shlex_plain_def)
qed

lemma shlex_split_backslash_quote:
  assumes safe: "\<And>c. safe c \<Longrightarrow> shlex_plain c" and "w \<noteq> []"
  shows "shlex_split (backslash_quote safe w) = Inr [w]"
proof -
  obtain c cs where w: "w = c # cs" using assms(2) by (cases w) auto
  have "shlex_split (backslash_quote safe w) = shlex_run LWord [c] False (backslash_quote safe cs @ [])"
    using safe[of c]
    by (auto simp: shlex_split_def w shlex_plain_def shlex_space_def shlex_quote_char_def)
  also have "\<dots> = shlex_run LWord ([c] @ cs) False []"
    by (rule run_backslash_quote [OF safe])
  finally show ?thesis by (simp add: w)
qed

subsection \<open>Quoting\<close>

definition ascii_alnum :: "char \<Rightarrow> bool" where
  "ascii_alnum c \<longleftrightarrow> is_digit c \<or> is_lower c \<or> is_upper c"

text \<open>\<^verbatim>\<open>shlex.quote\<close>\<close>

definition shell_safe :: "char \<Rightarrow> bool" where
  "shell_safe c \<longleftrightarrow> ascii_alnum c \<or> c \<in> set ''_@%+=:,./-''"

definition quote_escape :: "char \<Rightarrow> string" where
  "quote_escape c = (if c = squote then [squote, dquote, squote, dquote, squote] else [c])"

definition shlex_quote :: "string \<Rightarrow> string" where
  "shlex_quote s = (if s = [] then [squote, squote] else if list_all shell_safe s then s
     else squote # concat (map quote_escape s) @ [squote])"

lemma run_quote_escape:
  "shlex_run (LQuote squote) tok qd (concat (map quote_escape w) @ squote # rest) = shlex_run LWord (tok @ w) True rest"
proof (induction w arbitrary: tok qd)
  case (Cons c w)
  show ?case
  proof (cases "c = squote")
    case True
    then show ?thesis using Cons.IH by (simp add: quote_escape_def shlex_space_def shlex_quote_char_def)
  next
    case False
    then show ?thesis using Cons.IH by (simp add: quote_escape_def)
  qed
qed simp

lemma shell_safe_plain: "shell_safe c \<Longrightarrow> shlex_plain c"
  by (auto simp: shell_safe_def ascii_alnum_def is_digit_def is_lower_def is_upper_def shlex_plain_def shlex_space_def
      shlex_quote_char_def)

text \<open>A quoted value begins a word, which then has characters or was quoted.\<close>

lemma run_shlex_quote_word:
  "shlex_run LSpace [] False (shlex_quote w @ s) = shlex_run LWord w (w = [] \<or> \<not> list_all shell_safe w) s"
proof -
  consider (empty) "w = []" | (safe) c cs where "w = c # cs" "list_all shell_safe w" | (other) "w \<noteq> []" "\<not> list_all shell_safe w"
    by (cases w) auto
  then show ?thesis
  proof cases
    case empty
    then show ?thesis by (simp add: shlex_quote_def shlex_space_def shlex_quote_char_def)
  next
    case safe
    then have plain: "shlex_plain c" "\<forall>c \<in> set cs. shlex_plain c" using shell_safe_plain by (auto simp: list_all_iff)
    then have "shlex_run LSpace [] False (w @ s) = shlex_run LWord [c] False (cs @ s)"
      using safe by (simp add: shlex_plain_def)
    also have "\<dots> = shlex_run LWord w False s" using run_plain [OF plain(2), of "[c]" False s] safe by simp
    finally show ?thesis using safe by (simp add: shlex_quote_def)
  next
    case other
    then show ?thesis using run_quote_escape [of "[]" False w s]
      by (simp add: shlex_quote_def shlex_space_def shlex_quote_char_def)
  qed
qed

text \<open>\<^verbatim>\<open>shlex.join\<close> writes what \<^verbatim>\<open>shlex.split\<close> reads.\<close>

definition shlex_join :: "string list \<Rightarrow> string" where
  "shlex_join words = join '' '' (map shlex_quote words)"

lemma shlex_split_join: "shlex_split (shlex_join words) = Inr words"
  unfolding shlex_split_def shlex_join_def
proof (induction words)
  case (Cons w words)
  note run = run_shlex_quote_word [of w]
  show ?case
  proof (cases "words = []")
    case True
    then show ?thesis using run [of "[]"] by auto
  next
    case False
    then show ?thesis using run [of "'' '' @ join '' '' (map shlex_quote words)"] Cons.IH
      by (auto simp: join_Cons shlex_space_def)
  qed
qed simp

subsection \<open>The interface of the readers\<close>

locale shell_words =
  fixes quote :: "string \<Rightarrow> string"
    and split :: "string \<Rightarrow> string list result"
    and ok :: "string \<Rightarrow> bool"
  assumes split_quote: "ok w \<Longrightarrow> split (quote w) = Inr [w]"
begin

lemma quote_inj: "ok v \<Longrightarrow> ok w \<Longrightarrow> quote v = quote w \<Longrightarrow> v = w"
  by (metis split_quote list.inject sum.inject(2))

lemma split_quote_join: "ok w \<Longrightarrow> map_sum id (join '' '') (split (quote w)) = Inr w"
  by (simp add: split_quote)

end

interpretation sq: shell_words "\<lambda>w. squote # w @ [squote]" shlex_split "\<lambda>w. squote \<notin> set w"
  by unfold_locales (rule shlex_split_squoted)

interpretation bq: shell_words "backslash_quote shlex_plain" shlex_split "\<lambda>w. w \<noteq> []"
  by unfold_locales (rule shlex_split_backslash_quote)

interpretation plainw: shell_words "\<lambda>w. w" shlex_split "\<lambda>w. w \<noteq> [] \<and> (\<forall>c \<in> set w. shlex_plain c)"
  by unfold_locales (auto intro: shlex_split_plain)

interpretation quoted: shell_words shlex_quote shlex_split "\<lambda>_. True"
  using shlex_split_join [of "[_]"] by unfold_locales (simp add: shlex_join_def)

end
