(* ===== verification/Coordinates.thy ===== *)
theory Coordinates
  imports PyValues PyRegex PyShlex
begin

section \<open>Execution coordinates (lib/filesystem\_coordinates.py)\<close>

text \<open>
  One execution definition is the text of \<^verbatim>\<open>executions/NNNN.sh\<close>. The functions here turn
  it into the \<open>coordinates\<close> object and the \<open>coordinate_key\<close> of the results document. The
  multi-line patterns of the module (\<^verbatim>\<open>^...$\<close> with \<^verbatim>\<open>re.MULTILINE\<close>, none of which can match
  a line feed) are recognisers of one line, searched over the lines of the text.
  The theorems: the parsers read back what the shell writes, sizes are powers of 1024,
  every plan runs a phase, and the coordinate key determines the coordinates it names.
\<close>

subsection \<open>Constants\<close>

definition KIND_IO :: string where "KIND_IO = ''io''"
definition KIND_MDTEST :: string where "KIND_MDTEST = ''mdtest''"
definition PHASE_WRITE :: string where "PHASE_WRITE = ''write''"
definition PHASE_READ :: string where "PHASE_READ = ''read''"
definition PLAN_WRITE_READ :: string where "PLAN_WRITE_READ = ''write_read''"
definition PLAN_WRITE_ONLY :: string where "PLAN_WRITE_ONLY = ''write_only''"
definition PLAN_WRITE_NO_READ :: string where "PLAN_WRITE_NO_READ = ''write_no_read''"
definition PLAN_READ_FROM :: string where "PLAN_READ_FROM = ''read_from''"
definition ACCESS_RANDOM :: string where "ACCESS_RANDOM = ''random''"
definition ACCESS_SEQUENTIAL :: string where "ACCESS_SEQUENTIAL = ''sequential''"
definition LAYOUT_DEFAULT :: string where "LAYOUT_DEFAULT = ''worker-directories''"
definition ENV_SWEEP_READ_FROM :: string where "ENV_SWEEP_READ_FROM = ''ELBENCHO_SWEEP_READ_FROM''"

lemmas coordinate_constants =
  KIND_IO_def KIND_MDTEST_def PHASE_WRITE_def PHASE_READ_def PLAN_WRITE_READ_def
  PLAN_WRITE_ONLY_def PLAN_WRITE_NO_READ_def PLAN_READ_FROM_def ACCESS_RANDOM_def
  ACCESS_SEQUENTIAL_def LAYOUT_DEFAULT_def ENV_SWEEP_READ_FROM_def

subsection \<open>The definitions a text holds\<close>

record io_definition =
  io_nodes :: nat
  io_size :: string
  io_threads :: nat
  io_depth :: nat
  io_configured_layout :: string
  io_exports :: "(string, string) dict"

record mdtest_definition =
  md_nodes :: nat
  md_tasks :: nat
  md_iterations :: "nat option"
  md_branch_factor :: "nat option"
  md_items_per_dir :: "nat option"

text \<open>Recognisers of a literal and of a non-empty run of characters.\<close>

definition eat :: "string \<Rightarrow> string \<Rightarrow> string option" where
  "eat p s = (if startswith s p then Some (drop (length p) s) else None)"

definition eat_run :: "(char \<Rightarrow> bool) \<Rightarrow> string \<Rightarrow> (string \<times> string) option" where
  "eat_run p s = (let w = takeWhile p s in if w = [] then None else Some (w, dropWhile p s))"

text \<open>\<^verbatim>\<open>_COORDS_RE\<close> on one line: nodes, io size, threads, io depth.\<close>

definition coords_re :: "string \<Rightarrow> (string \<times> string \<times> string \<times> string) option" where
  "coords_re line =
     Option.bind (eat ''# Auto-generated; do not edit. Coords: nodes='' line) (\<lambda>r1.
     Option.bind (eat_run is_digit r1) (\<lambda>(n, r2).
     Option.bind (eat '' io_size='' r2) (\<lambda>r3.
     Option.bind (eat_run (\<lambda>c. \<not> py_space c) r3) (\<lambda>(sz, r4).
     Option.bind (eat '' thread_count='' r4) (\<lambda>r5.
     Option.bind (eat_run is_digit r5) (\<lambda>(t, r6).
     Option.bind (eat '' io_depth='' r6) (\<lambda>r7.
     Option.bind (eat_run is_digit r7) (\<lambda>(d, r8).
     if r8 = [] then Some (n, sz, t, d) else None))))))))"

text \<open>\<^verbatim>\<open>_LAYOUT_RE\<close> on one line: the layout, in matching quotes or none.\<close>

definition layout_re :: "string \<Rightarrow> string option" where
  "layout_re line =
     Option.bind (eat ''export ELBENCHO_FILE_LAYOUT='' line) (\<lambda>r.
     let q = takeWhile (\<lambda>c. c = squote \<or> c = dquote) (take 1 r)
     in Option.bind (eat_run (\<lambda>c. is_lower c \<or> c = CHR ''-'') (drop (length q) r)) (\<lambda>(v, rest).
        if rest = q then Some v else None))"

definition name_start :: "char \<Rightarrow> bool" where
  "name_start c \<longleftrightarrow> is_upper c \<or> is_lower c \<or> c = CHR ''_''"

definition name_char :: "char \<Rightarrow> bool" where
  "name_char c \<longleftrightarrow> name_start c \<or> is_digit c"

text \<open>\<^verbatim>\<open>_EXPORT_LINE_RE\<close> on one line: the exported name and its raw value.\<close>

definition export_line_re :: "string \<Rightarrow> (string \<times> string) option" where
  "export_line_re line =
     Option.bind (eat ''export '' line) (\<lambda>r.
     Option.bind (eat_run name_char r) (\<lambda>(n, rest).
     if name_start (hd n) then
       (case rest of c # v \<Rightarrow> if c = CHR ''='' then Some (n, v) else None | [] \<Rightarrow> None)
     else None))"

definition mdtest_kind_re :: "string \<Rightarrow> bool" where
  "mdtest_kind_re line \<longleftrightarrow> line = ''export ELBENCHO_EXECUTION_KIND=mdtest''"

definition text_lines :: "string \<Rightarrow> string list" where
  "text_lines content = split_on LF content"

definition first_line :: "(string \<Rightarrow> 'a option) \<Rightarrow> string \<Rightarrow> 'a option" where
  "first_line f content =
     (case List.map_filter f (text_lines content) of [] \<Rightarrow> None | x # _ \<Rightarrow> Some x)"

definition all_lines :: "(string \<Rightarrow> 'a option) \<Rightarrow> string \<Rightarrow> 'a list" where
  "all_lines f content = List.map_filter f (text_lines content)"

text \<open>\<^verbatim>\<open>ledger_exports\<close>: a later line overwrites, a line the shell lexer refuses is skipped.\<close>

definition ledger_exports :: "string \<Rightarrow> (string, string) dict" where
  "ledger_exports content =
     fold (\<lambda>(name, raw) exports.
             case shlex_split raw of Inl _ \<Rightarrow> exports
             | Inr parsed \<Rightarrow> dict_set name (join '' '' parsed) exports)
          (all_lines export_line_re content) []"

definition parse_io_definition :: "string \<Rightarrow> io_definition option" where
  "parse_io_definition content =
     (case first_line coords_re content of
        None \<Rightarrow> None
      | Some (n, sz, t, d) \<Rightarrow>
          Some \<lparr> io_nodes = undec n, io_size = sz, io_threads = undec t, io_depth = undec d,
                 io_configured_layout =
                   (case first_line layout_re content of None \<Rightarrow> [] | Some l \<Rightarrow> l),
                 io_exports = ledger_exports content \<rparr>)"

subsection \<open>Sizes, plans and IO coordinates\<close>

definition size_unit_shift :: "char \<Rightarrow> nat option" where
  "size_unit_shift u =
     (if u = CHR ''K'' then Some 10 else if u = CHR ''M'' then Some 20
      else if u = CHR ''G'' then Some 30 else if u = CHR ''T'' then Some 40
      else if u = CHR ''P'' then Some 50 else if u = CHR ''E'' then Some 60 else None)"

definition elbencho_size_bytes :: "string \<Rightarrow> nat option" where
  "elbencho_size_bytes token =
     (let t = py_strip token; ds = takeWhile is_digit t; rest = dropWhile is_digit t
      in if ds = [] then None
         else (case rest of
                 [] \<Rightarrow> Some (undec ds)
               | [u] \<Rightarrow> (case size_unit_shift (hd (upper_ascii [u])) of
                           None \<Rightarrow> None | Some k \<Rightarrow> Some (undec ds * 2 ^ k))
               | _ \<Rightarrow> None))"

definition split_size_spec :: "string \<Rightarrow> bool \<Rightarrow> (string \<times> bool) \<times> (string \<times> bool)" where
  "split_size_spec io_sz use_random =
     (let write_part = before (CHR '','') io_sz;
          read0 = after (CHR '','') io_sz;
          read_part = (if read0 = [] then write_part else read0);
          side = (\<lambda>part. (removeprefix part ''r'', use_random \<or> startswith part ''r''))
      in (side write_part, side read_part))"

definition export_flag :: "(string, string) dict \<Rightarrow> string \<Rightarrow> bool" where
  "export_flag exports name \<longleftrightarrow>
     (case dict_get exports name of None \<Rightarrow> ''0'' | Some v \<Rightarrow> v) = ''1''"

definition phase_plan :: "(string, string) dict \<Rightarrow> string" where
  "phase_plan exports =
     (if export_flag exports ''ELBENCHO_SWEEP_WRITE_ONLY'' then PLAN_WRITE_ONLY
      else if export_flag exports ''ELBENCHO_SWEEP_WRITE_NO_READ'' then PLAN_WRITE_NO_READ
      else if (case dict_get exports ENV_SWEEP_READ_FROM of None \<Rightarrow> False | Some v \<Rightarrow> v \<noteq> [])
        then PLAN_READ_FROM
      else PLAN_WRITE_READ)"

definition plan_runs_phase :: "string \<Rightarrow> string \<Rightarrow> bool" where
  "plan_runs_phase plan phase \<longleftrightarrow>
     (if phase = PHASE_WRITE then plan \<noteq> PLAN_READ_FROM
      else plan = PLAN_WRITE_READ \<or> plan = PLAN_READ_FROM)"

record io_coords =
  c_nodes :: nat
  c_threads_per_node :: nat
  c_io_depth :: nat
  c_io_size_spec :: string
  c_phase_plan :: string
  c_write_block_size_bytes :: "nat option"
  c_write_access :: "string option"
  c_read_block_size_bytes :: "nat option"
  c_read_access :: "string option"
  c_direct_io :: bool
  c_run_to_completion :: bool
  c_file_layout :: string
  c_single_big_file :: bool
  c_all_nodes_all_data :: bool

text \<open>One iteration of the loop over the sides: block size, access and key part.\<close>

definition io_side :: "string \<Rightarrow> string \<Rightarrow> string \<times> bool \<Rightarrow> nat option \<times> string option \<times> string" where
  "io_side plan phase side =
     (if plan_runs_phase plan phase then
        (elbencho_size_bytes (fst side),
         Some (if snd side then ACCESS_RANDOM else ACCESS_SEQUENTIAL),
         fst side @ ''-'' @ (if snd side then ''rand'' else ''seq''))
      else (None, None, ''none''))"

definition io_direct :: "(string, string) dict \<Rightarrow> bool" where
  "io_direct exports \<longleftrightarrow>
     (case dict_get exports ''dio_or_bio'' of None \<Rightarrow> ''dio'' | Some v \<Rightarrow> v) = ''dio''"

definition io_key :: "nat \<Rightarrow> nat \<Rightarrow> nat \<Rightarrow> string \<Rightarrow> string \<Rightarrow> bool \<Rightarrow> string" where
  "io_key nodes threads depth w r direct =
     ''io/c'' @ pad0 3 nodes @ ''/s'' @ pad0 3 threads @ ''/d'' @ pad0 3 depth @
     ''/w'' @ w @ ''/r'' @ r @ ''/'' @ (if direct then ''dio'' else ''bio'')"

definition io_coordinates :: "io_definition \<Rightarrow> io_coords \<times> string" where
  "io_coordinates d =
     (let exports = io_exports d;
          plan = phase_plan exports;
          direct = io_direct exports;
          (ws, rs) = split_size_spec (io_size d) (export_flag exports ''use_random'');
          (wb, wa, wk) = io_side plan PHASE_WRITE ws;
          (rb, ra, rk) = io_side plan PHASE_READ rs;
          layout = (case dict_get exports ''ELBENCHO_FILE_LAYOUT'' of
                      Some v \<Rightarrow> if v \<noteq> [] then v else io_configured_layout d
                    | None \<Rightarrow> io_configured_layout d)
      in (\<lparr> c_nodes = io_nodes d, c_threads_per_node = io_threads d, c_io_depth = io_depth d,
            c_io_size_spec = io_size d, c_phase_plan = plan,
            c_write_block_size_bytes = wb, c_write_access = wa,
            c_read_block_size_bytes = rb, c_read_access = ra,
            c_direct_io = direct,
            c_run_to_completion = export_flag exports ''run_to_completion'',
            c_file_layout = (if layout = [] then LAYOUT_DEFAULT else layout),
            c_single_big_file = export_flag exports ''ELBENCHO_SINGLE_BIG_FILE'',
            c_all_nodes_all_data = export_flag exports ''ELBENCHO_ALL_NODES_ACCESS_ALL_DATA'' \<rparr>,
          io_key (io_nodes d) (io_threads d) (io_depth d) wk rk direct))"

subsection \<open>Metadata definitions\<close>

definition optional_int :: "pyval \<Rightarrow> nat option" where
  "optional_int v =
     (let text = (if v = PNone then [] else py_strip (py_str v))
      in if fullmatch (RPlus (RCls is_digit)) text then Some (undec text) else None)"

definition shell_export :: "string \<Rightarrow> string \<Rightarrow> string option" where
  "shell_export content name =
     (let values = all_lines (eat (''export '' @ name @ ''='')) content
      in if values = [] then None
         else (case shlex_split (last values) of Inr [v] \<Rightarrow> Some v | _ \<Rightarrow> None))"

definition of_optional :: "string option \<Rightarrow> pyval" where
  "of_optional v = (case v of None \<Rightarrow> PNone | Some s \<Rightarrow> PStr s)"

definition first_int :: "string \<Rightarrow> settings \<Rightarrow> string \<Rightarrow> nat option" where
  "first_int content env name =
     (case optional_int (of_optional (shell_export content name)) of
        Some n \<Rightarrow> Some n
      | None \<Rightarrow> optional_int (val_get env name))"

definition is_mdtest_definition :: "string \<Rightarrow> bool" where
  "is_mdtest_definition content \<longleftrightarrow> list_ex mdtest_kind_re (text_lines content)"

definition parse_mdtest_definition :: "string \<Rightarrow> settings \<Rightarrow> mdtest_definition option" where
  "parse_mdtest_definition content env =
     (case (optional_int (of_optional (shell_export content ''nodes'')),
            optional_int (of_optional (shell_export content ''tasks_per_node''))) of
        (Some nodes, Some tasks) \<Rightarrow>
          Some \<lparr> md_nodes = nodes, md_tasks = tasks,
                 md_iterations = first_int content env ''MDTEST_ITERATIONS'',
                 md_branch_factor = first_int content env ''MDTEST_BRANCH_FACTOR'',
                 md_items_per_dir = first_int content env ''MDTEST_ITEMS_PER_DIR'' \<rparr>
      | _ \<Rightarrow> None)"

record md_coords =
  m_nodes :: nat
  m_tasks_per_node :: nat
  m_branch_factor :: "nat option"
  m_items_per_dir :: "nat option"
  m_iterations :: nat

definition none_or_dec :: "nat option \<Rightarrow> string" where
  "none_or_dec v = (case v of None \<Rightarrow> ''none'' | Some n \<Rightarrow> dec n)"

definition mdtest_coordinates :: "mdtest_definition \<Rightarrow> nat \<Rightarrow> md_coords \<times> string" where
  "mdtest_coordinates d found_iterations =
     (\<lparr> m_nodes = md_nodes d, m_tasks_per_node = md_tasks d,
        m_branch_factor = md_branch_factor d, m_items_per_dir = md_items_per_dir d,
        m_iterations = (case md_iterations d of
                          None \<Rightarrow> found_iterations
                        | Some n \<Rightarrow> if n = 0 then found_iterations else n) \<rparr>,
      ''md/c'' @ pad0 3 (md_nodes d) @ ''/t'' @ pad0 3 (md_tasks d) @
      ''/b'' @ none_or_dec (md_branch_factor d) @ ''/i'' @ none_or_dec (md_items_per_dir d))"

datatype coordinates = IoCoordinates io_coords | MdCoordinates md_coords

definition definition_coordinates ::
  "string \<Rightarrow> string \<Rightarrow> settings \<Rightarrow> (coordinates \<times> string) option" where
  "definition_coordinates kind content env =
     (if kind = KIND_MDTEST then
        map_option (\<lambda>d. map_prod MdCoordinates id (mdtest_coordinates d 0))
          (parse_mdtest_definition content env)
      else map_option (\<lambda>d. map_prod IoCoordinates id (io_coordinates d))
          (parse_io_definition content))"

subsection \<open>The recognisers read what the shell writes\<close>

lemma eat_append [simp]: "eat p (p @ s) = Some s"
  by (simp add: eat_def)

lemma eat_Some: "eat p s = Some t \<longleftrightarrow> s = p @ t"
  by (auto simp: eat_def startswith_iff)

lemma eat_run_append:
  "w \<noteq> [] \<Longrightarrow> list_all p w \<Longrightarrow> s = [] \<or> \<not> p (hd s) \<Longrightarrow> eat_run p (w @ s) = Some (w, s)"
  by (cases s) (auto simp: eat_run_def Let_def list_all_iff takeWhile_append dropWhile_append
      takeWhile_eq_all_conv [THEN iffD2] dropWhile_eq_Nil_conv [THEN iffD2])

lemmas eat_run_dec = eat_run_append [OF dec_nonempty dec_digits]

text \<open>The coordinates comment that \<^verbatim>\<open>lib/_elbencho_functions.sh\<close> prints.\<close>

definition coords_line :: "nat \<Rightarrow> string \<Rightarrow> nat \<Rightarrow> nat \<Rightarrow> string" where
  "coords_line n sz t d =
     ''# Auto-generated; do not edit. Coords: nodes='' @ dec n @ '' io_size='' @ sz @
     '' thread_count='' @ dec t @ '' io_depth='' @ dec d"

lemma coords_re_coords_line:
  assumes "sz \<noteq> []" and "list_all (\<lambda>c. \<not> py_space c) sz"
  shows "coords_re (coords_line n sz t d) = Some (dec n, sz, dec t, dec d)"
proof -
  have sp: "py_space (CHR '' '')" "\<not> is_digit (CHR '' '')"
    by (simp_all add: py_space_def is_digit_def)
  have "eat_run is_digit (dec d) = Some (dec d, [])"
    using eat_run_dec [of "[]" d] by simp
  then show ?thesis
    unfolding coords_re_def coords_line_def
    by (simp only: eat_append Option.bind.simps split)
       (simp add: eat_run_dec eat_run_append [OF assms] sp eat_def startswith_def)
qed

lemma first_line_join:
  assumes free: "\<forall>l \<in> set (pre @ line # post). LF \<notin> set l"
    and none: "\<forall>l \<in> set pre. f l = None" and hit: "f line = Some x"
  shows "first_line f (join [LF] (pre @ line # post)) = Some x"
proof -
  have "text_lines (join [LF] (pre @ line # post)) = pre @ line # post"
    using free by (simp add: text_lines_def split_on_join)
  moreover have "List.map_filter f pre = []"
    using none by (simp add: List.map_filter_def filter_empty_conv)
  ultimately show ?thesis
    using hit by (simp add: first_line_def List.map_filter_def)
qed

lemma all_lines_join:
  assumes "ls \<noteq> []" and "\<forall>l \<in> set ls. LF \<notin> set l"
  shows "all_lines f (join [LF] ls) = List.map_filter f ls"
  using assms by (simp add: all_lines_def text_lines_def split_on_join)

text \<open>Whatever lines surround it, the first coordinates comment is read back exactly:
  the node count, the size specification, the thread count and the IO depth that the shell
  wrote are those of the parsed definition, together with the exports of the text.\<close>

theorem parse_io_definition_reads_coords:
  assumes "\<forall>l \<in> set (pre @ coords_line n sz t d # post). LF \<notin> set l"
    and "\<forall>l \<in> set pre. coords_re l = None"
    and "sz \<noteq> []" and "list_all (\<lambda>c. \<not> py_space c) sz"
    and content: "content = join [LF] (pre @ coords_line n sz t d # post)"
  shows "parse_io_definition content =
    Some \<lparr> io_nodes = n, io_size = sz, io_threads = t, io_depth = d,
           io_configured_layout = (case first_line layout_re content of None \<Rightarrow> [] | Some l \<Rightarrow> l),
           io_exports = ledger_exports content \<rparr>"
  using first_line_join [OF assms(1,2) coords_re_coords_line [OF assms(3,4)]]
  by (simp add: parse_io_definition_def content)

subsection \<open>Exports\<close>

definition valid_name :: "string \<Rightarrow> bool" where
  "valid_name n \<longleftrightarrow> n \<noteq> [] \<and> name_start (hd n) \<and> list_all name_char n"

lemma export_line_re_line:
  assumes "valid_name n"
  shows "export_line_re (''export '' @ n @ ''='' @ raw) = Some (n, raw)"
proof -
  have "\<not> name_char (CHR ''='')"
    by (simp add: name_char_def name_start_def is_digit_def is_upper_def is_lower_def)
  then have "eat_run name_char (n @ CHR ''='' # raw) = Some (n, CHR ''='' # raw)"
    using assms by (intro eat_run_append) (auto simp: valid_name_def)
  then show ?thesis
    using assms eat_append [of "''export ''" "n @ ''='' @ raw"]
    by (simp add: export_line_re_def valid_name_def)
qed

definition put_export :: "string \<times> string \<Rightarrow> (string, string) dict \<Rightarrow> (string, string) dict" where
  "put_export = (\<lambda>(name, raw) exports.
     case shlex_split raw of Inl _ \<Rightarrow> exports
     | Inr parsed \<Rightarrow> dict_set name (join '' '' parsed) exports)"

lemma ledger_exports_put: "ledger_exports content = fold put_export (all_lines export_line_re content) []"
  by (simp add: ledger_exports_def put_export_def)

lemma put_export_other: "fst p \<noteq> k \<Longrightarrow> dict_get (put_export p d) k = dict_get d k"
  by (cases p) (auto simp: put_export_def split: sum.splits)

lemma fold_put_export_other:
  "\<forall>p \<in> set ps. fst p \<noteq> k \<Longrightarrow> dict_get (fold put_export ps d) k = dict_get d k"
  by (induction ps arbitrary: d) (auto simp: put_export_other)

lemma fold_put_export_last:
  assumes "\<forall>p \<in> set post. fst p \<noteq> k" and "shlex_split raw = Inr ws"
  shows "dict_get (fold put_export (pre @ (k, raw) # post) d) k = Some (join '' '' ws)"
proof -
  have "dict_get (put_export (k, raw) e) k = Some (join '' '' ws)" for e
    using assms(2) by (simp add: put_export_def)
  then show ?thesis using assms(1) by (simp add: fold_put_export_other)
qed

lemma map_filter_snoc_split:
  "List.map_filter f (pre @ x # post) =
   List.map_filter f pre @ (case f x of None \<Rightarrow> [] | Some y \<Rightarrow> [y]) @ List.map_filter f post"
  by (simp add: List.map_filter_def split: option.splits)

lemma mem_map_filter: "y \<in> set (List.map_filter f xs) \<longleftrightarrow> (\<exists>x \<in> set xs. f x = Some y)"
  by (auto simp: List.map_filter_def image_iff)

text \<open>The last export of a name wins, and it is read as the value the shell
  quoted: with a line \<^verbatim>\<open>export NAME=raw\<close> whose raw text the shell lexer reads as the one word
  \<open>v\<close>, and no later export of that name, both readers of the module
  (\<open>ledger_exports\<close> and \<open>_shell_export\<close>) give exactly \<open>v\<close>, whatever comes before.\<close>

theorem last_export_wins:
  assumes name: "valid_name k"
    and free: "\<forall>l \<in> set (pre @ (''export '' @ k @ ''='' @ raw) # post). LF \<notin> set l"
    and last: "\<forall>l \<in> set post. \<not> startswith l (''export '' @ k @ ''='')"
    and word: "shlex_split raw = Inr [v]"
    and content: "content = join [LF] (pre @ (''export '' @ k @ ''='' @ raw) # post)"
  shows "dict_get (ledger_exports content) k = Some v \<and> shell_export content k = Some v"
proof
  have other: "export_line_re l = Some (k, r) \<Longrightarrow> startswith l (''export '' @ k @ ''='')" for l r
    by (auto simp: export_line_re_def eat_Some eat_run_def Let_def bind_eq_Some_conv startswith_iff
        split: if_splits list.splits)
       (metis append.assoc append_Cons append_Nil takeWhile_dropWhile_id)
  have "all_lines export_line_re content =
      List.map_filter export_line_re pre @ (k, raw) # List.map_filter export_line_re post"
    using free unfolding content
    by (subst all_lines_join) (simp_all add: map_filter_snoc_split export_line_re_line [OF name, simplified])
  moreover have "\<forall>p \<in> set (List.map_filter export_line_re post). fst p \<noteq> k"
    using last other by (auto simp: mem_map_filter) blast
  ultimately show "dict_get (ledger_exports content) k = Some v"
    by (simp add: ledger_exports_put fold_put_export_last [OF _ word] del: fold_append)
  have "List.map_filter (eat (''export '' @ k @ ''='')) post = []"
    using last by (auto simp: List.map_filter_def filter_empty_conv eat_def)
  then have "all_lines (eat (''export '' @ k @ ''='')) content =
      List.map_filter (eat (''export '' @ k @ ''='')) pre @ [raw]"
    using free eat_append [of "''export '' @ k @ ''=''" raw] unfolding content
    by (subst all_lines_join) (simp_all add: map_filter_snoc_split)
  then show "shell_export content k = Some v"
    by (simp add: shell_export_def word)
qed

theorem last_export_wins_witness:
  "dict_get (ledger_exports (join [LF] [''export nodes=1'', ''export nodes=4'', ''echo''])) ''nodes'' = Some ''4''
   \<and> shell_export (join [LF] [''export nodes=1'', ''export nodes=4'', ''echo'']) ''nodes'' = Some ''4''"
  by (rule last_export_wins [where pre = "[''export nodes=1'']" and post = "[''echo'']" and raw = "''4''"])
     (simp_all add: valid_name_def name_start_def name_char_def is_lower_def is_upper_def
       startswith_def shlex_split_def shlex_space_def shlex_quote_char_def)

theorem parse_io_definition_reads_coords_witness:
  "map_option io_nodes (parse_io_definition (join [LF] [''#!/bin/bash'', coords_line 2 ''1M'' 8 4, ''export a=1''])) = Some 2"
proof -
  have "coords_line 2 ''1M'' 8 4 =
      ''# Auto-generated; do not edit. Coords: nodes=2 io_size=1M thread_count=8 io_depth=4''"
    by (simp add: coords_line_def dec.simps digit_char_def)
  then have "parse_io_definition (join [LF] ([''#!/bin/bash''] @ coords_line 2 ''1M'' 8 4 # [''export a=1''])) =
      Some \<lparr> io_nodes = 2, io_size = ''1M'', io_threads = 8, io_depth = 4,
           io_configured_layout = (case first_line layout_re
               (join [LF] ([''#!/bin/bash''] @ coords_line 2 ''1M'' 8 4 # [''export a=1''])) of None \<Rightarrow> [] | Some l \<Rightarrow> l),
           io_exports = ledger_exports (join [LF] ([''#!/bin/bash''] @ coords_line 2 ''1M'' 8 4 # [''export a=1''])) \<rparr>"
    by (intro parse_io_definition_reads_coords
          [where pre = "[''#!/bin/bash'']" and post = "[''export a=1'']"])
       (simp_all add: coords_re_def eat_def startswith_def py_space_def)
  then show ?thesis by simp
qed

subsection \<open>Sizes\<close>

lemma takeWhile_dec: "takeWhile is_digit (dec n @ s) = dec n @ takeWhile is_digit s"
  using dec_digits [of n] by (simp add: takeWhile_append list_all_iff takeWhile_eq_all_conv [THEN iffD2])

lemma dropWhile_dec: "dropWhile is_digit (dec n @ s) = dropWhile is_digit s"
  using dec_digits [of n] by (simp add: dropWhile_append list_all_iff dropWhile_eq_Nil_conv [THEN iffD2])

lemma takeWhile_dec_all [simp]: "takeWhile is_digit (dec n) = dec n"
  using takeWhile_dec [of n "[]"] by (simp only: append_Nil2 takeWhile.simps)

lemma dropWhile_dec_all [simp]: "dropWhile is_digit (dec n) = []"
  using dropWhile_dec [of n "[]"] by (simp only: append_Nil2 dropWhile.simps)

lemma hd_dec_digit: "is_digit (hd (dec n))"
  using dec_digits [of n] dec_nonempty [of n] by (simp add: list_all_iff)

lemma last_dec_digit: "is_digit (last (dec n))"
  using dec_digits [of n] dec_nonempty [of n] by (simp add: list_all_iff)

lemma lower_shift_eq:
  assumes "is_lower u"
  shows "char_of (code u - 32) = c \<longleftrightarrow> code u = code c + 32"
proof
  assume "char_of (code u - 32) = c"
  then have "code c = (code u - 32) mod 256" by (metis of_char_of)
  moreover have "(code u - 32) mod 256 = code u - 32"
    using assms by (intro mod_less) (auto simp: is_lower_def)
  ultimately show "code u = code c + 32" using assms by (auto simp: is_lower_def)
next
  assume "code u = code c + 32"
  then show "char_of (code u - 32) = c" by simp
qed

definition unit_suffixes :: "(char \<times> nat) list" where
  "unit_suffixes = zip ''KMGTPEkmgtpe'' [1, 2, 3, 4, 5, 6, 1, 2, 3, 4, 5, 6]"

lemma unit_suffix_Some:
  assumes "map_of unit_suffixes u = Some k"
  shows "u \<in> set ''KMGTPEkmgtpe'' \<and> size_unit_shift (hd (upper_ascii [u])) = Some (10 * k)"
proof -
  have "(u, k) \<in> set unit_suffixes" using assms by (rule map_of_SomeD)
  then show ?thesis
    by (simp add: unit_suffixes_def upper_ascii_def is_lower_def)
       (elim disjE conjE; simp add: size_unit_shift_def)
qed

lemma size_unit_shift_Some: "size_unit_shift v = Some j \<Longrightarrow> v \<in> set ''KMGTPE''"
  by (simp add: size_unit_shift_def split: if_splits)

lemma unit_suffix_None:
  assumes "map_of unit_suffixes u = None"
  shows "size_unit_shift (hd (upper_ascii [u])) = None"
proof (rule ccontr)
  define v where "v = hd (upper_ascii [u])"
  assume "size_unit_shift (hd (upper_ascii [u])) \<noteq> None"
  then have v: "v \<in> set ''KMGTPE''" by (auto simp: v_def dest: size_unit_shift_Some)
  have "u \<in> set ''KMGTPEkmgtpe''"
  proof (cases "is_lower u")
    case True
    then have "code u = code v + 32"
      by (subst lower_shift_eq [symmetric]) (simp_all add: v_def upper_ascii_def)
    then have "u = char_of (code v + 32)" by (simp add: code_eq_iff)
    with v show ?thesis by (simp, elim disjE; simp)
  next
    case False
    with v show ?thesis by (auto simp: v_def upper_ascii_def)
  qed
  then show False using assms by (simp add: unit_suffixes_def split: if_splits)
qed

text \<open>Block sizes are binary: a decimal count with one of the suffixes K, M, G, T, P, E
  in either case is that count times the power of 1024 the suffix stands for, and without
  a suffix it is plain bytes; any other single character after the digits is refused.\<close>

theorem elbencho_size_bytes_spec:
  "elbencho_size_bytes (dec n) = Some n \<and>
   (\<forall>u k. map_of unit_suffixes u = Some k \<longrightarrow> elbencho_size_bytes (dec n @ [u]) = Some (n * 1024 ^ k)) \<and>
   (\<forall>u. map_of unit_suffixes u = None \<and> \<not> is_digit u \<and> \<not> py_space u \<longrightarrow>
        elbencho_size_bytes (dec n @ [u]) = None)"
proof (intro conjI allI impI)
  have "py_strip (dec n) = dec n"
    by (intro py_strip_id) (auto simp: digit_not_space hd_dec_digit last_dec_digit)
  then show "elbencho_size_bytes (dec n) = Some n"
    by (simp add: elbencho_size_bytes_def Let_def)
next
  fix u k
  assume u: "map_of unit_suffixes u = Some k"
  then have ns: "\<not> py_space u" "\<not> is_digit u"
    using unit_suffix_Some [OF u] by (auto simp: py_space_def is_digit_def)
  have "py_strip (dec n @ [u]) = dec n @ [u]"
    using ns hd_dec_digit [of n] by (intro py_strip_id) (auto simp: digit_not_space)
  then show "elbencho_size_bytes (dec n @ [u]) = Some (n * 1024 ^ k)"
    using unit_suffix_Some [OF u] ns
    by (simp add: elbencho_size_bytes_def Let_def takeWhile_dec dropWhile_dec power_mult)
next
  fix u
  assume u: "map_of unit_suffixes u = None \<and> \<not> is_digit u \<and> \<not> py_space u"
  have "py_strip (dec n @ [u]) = dec n @ [u]"
    using u hd_dec_digit [of n] by (intro py_strip_id) (auto simp: digit_not_space)
  moreover have "size_unit_shift (hd (upper_ascii [u])) = None"
    using u by (simp add: unit_suffix_None)
  ultimately show "elbencho_size_bytes (dec n @ [u]) = None"
    using u by (simp add: elbencho_size_bytes_def Let_def takeWhile_dec dropWhile_dec)
qed

theorem elbencho_size_bytes_spec_witness:
  "elbencho_size_bytes (dec 4 @ ''K'') = Some 4096 \<and> elbencho_size_bytes (dec 4 @ ''x'') = None"
proof -
  have "map_of unit_suffixes (CHR ''K'') = Some 1" by (simp add: unit_suffixes_def)
  moreover have "map_of unit_suffixes (CHR ''x'') = None \<and> \<not> is_digit (CHR ''x'') \<and> \<not> py_space (CHR ''x'')"
    by (simp add: unit_suffixes_def is_digit_def py_space_def)
  ultimately show ?thesis using elbencho_size_bytes_spec [of 4] by fastforce
qed

subsection \<open>Plans and phases\<close>

lemma plan_names_distinct:
  "PLAN_READ_FROM \<noteq> PLAN_WRITE_READ" "PLAN_READ_FROM \<noteq> PLAN_WRITE_ONLY"
  "PLAN_READ_FROM \<noteq> PLAN_WRITE_NO_READ" "PLAN_WRITE_ONLY \<noteq> PLAN_WRITE_READ"
  "PLAN_WRITE_NO_READ \<noteq> PLAN_WRITE_READ" "PHASE_READ \<noteq> PHASE_WRITE"
  by (simp_all add: coordinate_constants)

lemma io_coordinates_fields:
  defines "sz d \<equiv> split_size_spec (io_size d) (export_flag (io_exports d) ''use_random'')"
  shows "c_nodes (fst (io_coordinates d)) = io_nodes d"
    and "c_threads_per_node (fst (io_coordinates d)) = io_threads d"
    and "c_io_depth (fst (io_coordinates d)) = io_depth d"
    and "c_phase_plan (fst (io_coordinates d)) = phase_plan (io_exports d)"
    and "c_direct_io (fst (io_coordinates d)) = io_direct (io_exports d)"
    and "c_write_block_size_bytes (fst (io_coordinates d)) =
           fst (io_side (phase_plan (io_exports d)) PHASE_WRITE (fst (sz d)))"
    and "c_write_access (fst (io_coordinates d)) =
           fst (snd (io_side (phase_plan (io_exports d)) PHASE_WRITE (fst (sz d))))"
    and "c_read_block_size_bytes (fst (io_coordinates d)) =
           fst (io_side (phase_plan (io_exports d)) PHASE_READ (snd (sz d)))"
    and "c_read_access (fst (io_coordinates d)) =
           fst (snd (io_side (phase_plan (io_exports d)) PHASE_READ (snd (sz d))))"
    and "snd (io_coordinates d) = io_key (io_nodes d) (io_threads d) (io_depth d)
           (snd (snd (io_side (phase_plan (io_exports d)) PHASE_WRITE (fst (sz d)))))
           (snd (snd (io_side (phase_plan (io_exports d)) PHASE_READ (snd (sz d)))))
           (io_direct (io_exports d))"
  by (simp_all add: io_coordinates_def sz_def Let_def split: prod.splits)

text \<open>Every execution runs a phase, and the coordinates record an access mode for exactly
  the phases its plan runs: a read-from plan has no write side, the two write plans have no
  read side.\<close>

theorem access_recorded_iff_phase_runs:
  "(c_write_access (fst (io_coordinates d)) \<noteq> None \<longleftrightarrow> c_phase_plan (fst (io_coordinates d)) \<noteq> PLAN_READ_FROM) \<and>
   (c_read_access (fst (io_coordinates d)) \<noteq> None \<longleftrightarrow>
      c_phase_plan (fst (io_coordinates d)) \<in> {PLAN_WRITE_READ, PLAN_READ_FROM}) \<and>
   \<not> (c_write_access (fst (io_coordinates d)) = None \<and> c_read_access (fst (io_coordinates d)) = None)"
  using plan_names_distinct
  by (auto simp: io_coordinates_fields io_side_def plan_runs_phase_def)

subsection \<open>The coordinate key determines what it names\<close>

lemma io_side_key_inj:
  assumes "snd (snd (io_side p ph s)) = snd (snd (io_side p' ph s'))"
  shows "io_side p ph s = io_side p' ph s'"
proof -
  have last: "last (fst q @ ''-'' @ (if snd q then ''rand'' else ''seq'')) = (if snd q then CHR ''d'' else CHR ''q'')"
    for q :: "string \<times> bool" by simp
  have "plan_runs_phase p ph = plan_runs_phase p' ph"
    using assms arg_cong [OF assms, where f = last] last [of s] last [of s']
    by (auto simp: io_side_def split: if_splits)
  moreover have "plan_runs_phase p ph \<Longrightarrow> plan_runs_phase p' ph \<Longrightarrow> snd s = snd s'"
    using assms arg_cong [OF assms, where f = last] last [of s] last [of s']
    by (auto simp: io_side_def split: if_splits)
  ultimately show ?thesis using assms by (auto simp: io_side_def)
qed

abbreviation slash :: char where
  "slash \<equiv> CHR 0x2F"

lemma digits_no_slash: "list_all is_digit s \<Longrightarrow> slash \<notin> set s"
  by (auto simp: list_all_iff is_digit_def)

lemma pad0_no_slash: "slash \<notin> set (pad0 w n)"
  by (rule digits_no_slash [OF pad0_digits])

definition io_key_parts :: "nat \<Rightarrow> nat \<Rightarrow> nat \<Rightarrow> string \<Rightarrow> string \<Rightarrow> bool \<Rightarrow> string list" where
  "io_key_parts n t d w r b =
     [''io'', CHR ''c'' # pad0 3 n, CHR ''s'' # pad0 3 t, CHR ''d'' # pad0 3 d,
      CHR ''w'' # w, CHR ''r'' # r, if b then ''dio'' else ''bio'']"

lemma split_io_key:
  assumes "slash \<notin> set w" and "slash \<notin> set r"
  shows "split_on slash (io_key n t d w r b) = io_key_parts n t d w r b"
proof -
  have "io_key n t d w r b = join [slash] (io_key_parts n t d w r b)"
    by (simp add: io_key_def io_key_parts_def)
  then show ?thesis
    using assms pad0_no_slash by (simp only:) (rule split_on_join, auto simp: io_key_parts_def)
qed

lemma io_side_no_slash:
  "slash \<notin> set (fst s) \<Longrightarrow> slash \<notin> set (snd (snd (io_side p ph s)))"
  by (simp add: io_side_def)

lemma split_size_spec_no_slash:
  assumes "slash \<notin> set sz"
  shows "slash \<notin> set (fst (fst (split_size_spec sz b)))"
    and "slash \<notin> set (fst (snd (split_size_spec sz b)))"
proof -
  have rp: "set (removeprefix s p) \<subseteq> set s" for s p :: string
    by (auto simp: removeprefix_def dest: in_set_dropD)
  have bf: "set (before c s) \<subseteq> set s" for c and s :: string
    by (auto simp: before_def dest: set_takeWhileD)
  show "slash \<notin> set (fst (fst (split_size_spec sz b)))"
    using assms rp bf by (auto simp: split_size_spec_def Let_def) blast
  show "slash \<notin> set (fst (snd (split_size_spec sz b)))"
    using assms rp bf set_after by (auto simp: split_size_spec_def Let_def) (blast+)
qed

text \<open>Two IO executions with the same coordinate key have the same node count, threads per
  node, IO depth, direct-IO flag, and the same block size and access mode on each side, provided
  the size specification holds no slash: results are never filed under another execution's
  coordinates.\<close>

theorem io_coordinate_key_determines:
  assumes "slash \<notin> set (io_size d1)" and "slash \<notin> set (io_size d2)"
    and key: "snd (io_coordinates d1) = snd (io_coordinates d2)"
  shows "c_nodes (fst (io_coordinates d1)) = c_nodes (fst (io_coordinates d2)) \<and>
    c_threads_per_node (fst (io_coordinates d1)) = c_threads_per_node (fst (io_coordinates d2)) \<and>
    c_io_depth (fst (io_coordinates d1)) = c_io_depth (fst (io_coordinates d2)) \<and>
    c_write_block_size_bytes (fst (io_coordinates d1)) = c_write_block_size_bytes (fst (io_coordinates d2)) \<and>
    c_write_access (fst (io_coordinates d1)) = c_write_access (fst (io_coordinates d2)) \<and>
    c_read_block_size_bytes (fst (io_coordinates d1)) = c_read_block_size_bytes (fst (io_coordinates d2)) \<and>
    c_read_access (fst (io_coordinates d1)) = c_read_access (fst (io_coordinates d2)) \<and>
    c_direct_io (fst (io_coordinates d1)) = c_direct_io (fst (io_coordinates d2))"
proof -
  define W where "W d = io_side (phase_plan (io_exports d)) PHASE_WRITE
    (fst (split_size_spec (io_size d) (export_flag (io_exports d) ''use_random'')))" for d :: io_definition
  define R where "R d = io_side (phase_plan (io_exports d)) PHASE_READ
    (snd (split_size_spec (io_size d) (export_flag (io_exports d) ''use_random'')))" for d :: io_definition
  have parts: "split_on slash (snd (io_coordinates d)) =
      io_key_parts (io_nodes d) (io_threads d) (io_depth d) (snd (snd (W d))) (snd (snd (R d)))
        (io_direct (io_exports d))"
    if "slash \<notin> set (io_size d)" for d
    unfolding io_coordinates_fields(10) W_def R_def
    by (intro split_io_key io_side_no_slash split_size_spec_no_slash that)
  have eq: "io_key_parts (io_nodes d1) (io_threads d1) (io_depth d1) (snd (snd (W d1))) (snd (snd (R d1)))
        (io_direct (io_exports d1)) =
      io_key_parts (io_nodes d2) (io_threads d2) (io_depth d2) (snd (snd (W d2))) (snd (snd (R d2)))
        (io_direct (io_exports d2))"
    using parts [OF assms(1)] parts [OF assms(2)] key by simp
  then have "W d1 = W d2" "R d1 = R d2"
    unfolding W_def R_def by (auto intro!: io_side_key_inj simp: io_key_parts_def)
  with eq show ?thesis
    by (simp add: io_coordinates_fields W_def [symmetric] R_def [symmetric] io_key_parts_def
        split: if_splits)
qed

theorem io_coordinate_key_determines_witness:
  "let d = (\<lambda>sz. \<lparr> io_nodes = 2, io_size = sz, io_threads = 8, io_depth = 4,
              io_configured_layout = [], io_exports = [] \<rparr>)
   in snd (io_coordinates (d ''1M'')) = snd (io_coordinates (d ''1M,1M'')) \<and>
      c_write_block_size_bytes (fst (io_coordinates (d ''1M''))) =
        c_write_block_size_bytes (fst (io_coordinates (d ''1M,1M'')))"
proof -
  define d where "d = (\<lambda>sz. \<lparr> io_nodes = 2, io_size = sz, io_threads = 8, io_depth = 4,
              io_configured_layout = [], io_exports = [] \<rparr>)"
  have key: "snd (io_coordinates (d ''1M'')) = snd (io_coordinates (d ''1M,1M''))"
    by (simp add: io_coordinates_fields d_def split_size_spec_def before_def after_def removeprefix_def
        startswith_def Let_def)
  have "slash \<notin> set (io_size (d ''1M''))" "slash \<notin> set (io_size (d ''1M,1M''))"
    by (simp_all add: d_def)
  from io_coordinate_key_determines [OF this key] key show ?thesis
    by (simp add: d_def)
qed

lemma none_or_dec_inj [simp]: "none_or_dec a = none_or_dec b \<longleftrightarrow> a = b"
proof -
  have "dec n \<noteq> ''none''" for n
    using dec_digits [of n] by (auto simp: is_digit_def)
  then show ?thesis by (auto simp: none_or_dec_def split: option.splits dest: sym)
qed

lemma none_or_dec_no_slash: "slash \<notin> set (none_or_dec a)"
  using digits_no_slash [OF dec_digits] by (auto simp: none_or_dec_def split: option.splits)

text \<open>The metadata key is a faithful name of the metadata coordinates: equal keys have
  equal node counts, tasks per node, branch factors and items per directory, and
  conversely, with no condition on the definitions.\<close>

theorem mdtest_coordinate_key_iff:
  "snd (mdtest_coordinates d1 k1) = snd (mdtest_coordinates d2 k2) \<longleftrightarrow>
     md_nodes d1 = md_nodes d2 \<and> md_tasks d1 = md_tasks d2 \<and>
     md_branch_factor d1 = md_branch_factor d2 \<and> md_items_per_dir d1 = md_items_per_dir d2"
proof -
  define parts where "parts d = [''md'', CHR ''c'' # pad0 3 (md_nodes d), CHR ''t'' # pad0 3 (md_tasks d),
    CHR ''b'' # none_or_dec (md_branch_factor d), CHR ''i'' # none_or_dec (md_items_per_dir d)]"
    for d :: mdtest_definition
  have "snd (mdtest_coordinates d k) = join [slash] (parts d)" for d k
    by (simp add: mdtest_coordinates_def parts_def)
  moreover have "split_on slash (join [slash] (parts d)) = parts d" for d
    by (rule split_on_join) (auto simp: parts_def pad0_no_slash none_or_dec_no_slash)
  ultimately have "snd (mdtest_coordinates d1 k1) = snd (mdtest_coordinates d2 k2) \<longleftrightarrow> parts d1 = parts d2"
    by metis
  then show ?thesis by (simp add: parts_def)
qed

end
