(* ===== verification/StorageTarget.thy ===== *)
theory StorageTarget
  imports PyValues PyRegex
begin

section \<open>Storage target identity and the mixed-target guard (lib/storage\_target.py)\<close>

text \<open>
  A saved snapshot (\<^verbatim>\<open>env_used.yaml\<close>) names the storage it measured: explicitly, or by a rule
  over its \<^verbatim>\<open>TEST_DIRS\<close> keys. A report over several inputs is refused when they come from
  more than one known target. \<open>settings\<close> is a loaded snapshot, \<open>None\<close> where the code is
  handed something that is not a mapping; the warnings passed to the \<^verbatim>\<open>warn\<close> callback are
  returned as a list beside the result.
\<close>

subsection \<open>State and constants\<close>

record storage_target =
  st_name :: "string option"
  st_recorded :: bool

text \<open>What a report source may carry: a target, a bare name, or nothing.\<close>

datatype source_value = STarget storage_target | SName string | SNone

definition STORAGE_TARGET_KEY :: string where "STORAGE_TARGET_KEY = ''STORAGE_TARGET_NAME''"
definition UNKNOWN_TARGET :: string where "UNKNOWN_TARGET = ''unknown''"
definition ALLOW_MIXED_TARGETS_FLAG :: string where "ALLOW_MIXED_TARGETS_FLAG = ''--allow-mixed-targets''"
definition MIXED_PREFIX :: string where "MIXED_PREFIX = ''mixed: ''"
definition RESERVED_COMPONENT :: string where "RESERVED_COMPONENT = ''.storage-scale-test''"

definition alnum :: "char \<Rightarrow> bool" where
  "alnum c \<longleftrightarrow> is_lower c \<or> is_digit c"

definition namespace_re :: rx where
  "namespace_re = RSeq (RCls alnum)
     (ROpt (RSeq (RStar (RCls (\<lambda>c. alnum c \<or> c = CHR ''-''))) (RCls alnum)))"

definition claim_re :: rx where
  "claim_re = RSeq (RCls alnum)
     (ROpt (RSeq (RStar (RCls (\<lambda>c. alnum c \<or> c = CHR ''.'' \<or> c = CHR ''-''))) (RCls alnum)))"

definition label_re :: rx where
  "label_re = RSeq (RCls alnum)
     (ROpt (RSeq (RStar (RCls (\<lambda>c. alnum c \<or> c = CHR ''-''))) (RCls alnum)))"

definition component_char :: "char \<Rightarrow> bool" where
  "component_char c \<longleftrightarrow> is_upper c \<or> is_lower c \<or> is_digit c \<or> c = CHR ''.'' \<or> c = CHR ''_'' \<or> c = CHR ''-''"

definition component_re :: rx where
  "component_re = RPlus (RCls component_char)"

subsection \<open>Names from a snapshot\<close>

definition env_text :: "settings \<Rightarrow> string \<Rightarrow> string" where
  "env_text env key = (let v = val_get env key in if v = PNone then [] else py_str v)"

text \<open>\<^verbatim>\<open>sorted\<close> of a set of strings.\<close>

definition sorted_set :: "string list \<Rightarrow> string list" where
  "sorted_set xs = sort (remdups xs)"

definition root_text :: "string \<Rightarrow> string" where
  "root_text path = (let r = rstrip_char (CHR ''/'') path in if r = [] then ''/'' else r)"

definition test_dirs_target_name :: "settings \<Rightarrow> string option" where
  "test_dirs_target_name env =
     (case val_get env ''TEST_DIRS'' of
        PDict items \<Rightarrow>
          (let roots = map root_text (filter (\<lambda>p. p \<noteq> []) (map (\<lambda>kv. py_str (fst kv)) items))
           in if roots = [] then None else Some (join '','' (sorted_set roots)))
      | _ \<Rightarrow> None)"

definition valid_claim :: "string \<Rightarrow> bool" where
  "valid_claim claim \<longleftrightarrow>
     claim \<noteq> [] \<and> length claim \<le> 253 \<and> match_dollar claim_re claim \<and>
     list_all (\<lambda>label. label \<noteq> [] \<and> length label \<le> 63 \<and> match_dollar label_re label)
       (split_on (CHR ''.'') claim)"

definition bad_component :: "string \<Rightarrow> bool" where
  "bad_component c \<longleftrightarrow>
     c = ''.'' \<or> c = ''..'' \<or> c = RESERVED_COMPONENT \<or> \<not> match_dollar component_re c"

definition claim_path :: "string \<Rightarrow> string option" where
  "claim_path value =
     (if value = [] \<or> list_ex (\<lambda>c. c = LF \<or> c = CR \<or> c = TAB) value then None
      else
        (let components = filter (\<lambda>c. c \<noteq> []) (split_on (CHR ''/'') value)
         in if list_ex bad_component components then None
            else (let p = join ''/'' components in if p = [] then None else Some p)))"

definition qualified_root :: "string \<Rightarrow> string \<Rightarrow> string option" where
  "qualified_root key default_namespace =
     (if CHR '':'' \<notin> set key then None
      else
        (let qualifier = before (CHR '':'') key;
             rest = after (CHR '':'') key;
             (namespace, claim) =
               (if CHR ''/'' \<in> set qualifier
                then (before (CHR ''/'') qualifier, after (CHR ''/'') qualifier)
                else (default_namespace, qualifier))
         in if namespace = [] \<or> length namespace > 63 \<or> \<not> match_dollar namespace_re namespace
            then None
            else if CHR ''/'' \<in> set claim \<or> \<not> valid_claim claim then None
            else (case claim_path rest of
                    None \<Rightarrow> None
                  | Some path \<Rightarrow> Some (namespace @ ''/'' @ claim @ '':'' @ path))))"

definition qualified_roots_name :: "settings \<Rightarrow> string option" where
  "qualified_roots_name env =
     (case val_get env ''TEST_DIRS'' of
        PDict items \<Rightarrow>
          (if items = [] then None
           else
             (let namespace = env_text env ''KUBECTL_NAMESPACE'';
                  roots = map (\<lambda>kv. qualified_root (py_str (fst kv)) namespace) items
              in if None \<in> set roots then None
                 else Some (join '','' (sorted_set (map the roots)))))
      | _ \<Rightarrow> None)"

definition default_storage_target_name :: "settings option \<Rightarrow> string option" where
  "default_storage_target_name env =
     (case env of
        None \<Rightarrow> None
      | Some e \<Rightarrow>
          (if env_text e ''EXECUTION_SUBSTRATE'' = ''kubectl'' then
             (case qualified_roots_name e of
                Some q \<Rightarrow> Some q
              | None \<Rightarrow> test_dirs_target_name e)
           else test_dirs_target_name e))"

definition storage_target_from_env :: "settings option \<Rightarrow> storage_target" where
  "storage_target_from_env env =
     (case env of
        None \<Rightarrow> \<lparr> st_name = None, st_recorded = False \<rparr>
      | Some e \<Rightarrow>
          (let explicit = env_text e STORAGE_TARGET_KEY
           in if explicit \<noteq> [] then \<lparr> st_name = Some explicit, st_recorded = True \<rparr>
              else \<lparr> st_name = default_storage_target_name (Some e), st_recorded = False \<rparr>))"

definition describe_storage_target :: "storage_target \<Rightarrow> string" where
  "describe_storage_target target =
     (case st_name target of
        None \<Rightarrow> UNKNOWN_TARGET
      | Some n \<Rightarrow> if st_recorded target then n else n @ '' (derived)'')"

subsection \<open>Labels\<close>

definition known_name :: "source_value \<Rightarrow> string option" where
  "known_name value =
     (let name = (case value of STarget t \<Rightarrow> st_name t | SName n \<Rightarrow> Some n | SNone \<Rightarrow> None)
      in (case name of Some [] \<Rightarrow> None | _ \<Rightarrow> name))"

text \<open>\<^verbatim>\<open>json.dumps(name, ensure_ascii=False)\<close>.\<close>

definition json_char :: "char \<Rightarrow> string" where
  "json_char c =
     (if c = CHR 0x22 \<or> c = CHR 0x5C then [CHR 0x5C, c]
      else if c = LF then [CHR 0x5C, CHR ''n'']
      else if c = CR then [CHR 0x5C, CHR ''r'']
      else if c = TAB then [CHR 0x5C, CHR ''t'']
      else if c = CHR 0x08 then [CHR 0x5C, CHR ''b'']
      else if c = CHR 0x0C then [CHR 0x5C, CHR ''f'']
      else if code c < 32 then [CHR 0x5C, CHR ''u'', CHR ''0'', CHR ''0''] @ hex2 (code c)
      else [c])"

definition quote_target_name :: "string \<Rightarrow> string" where
  "quote_target_name name = CHR 0x22 # concat (map json_char name) @ [CHR 0x22]"

definition mixed_target_label :: "string list \<Rightarrow> string" where
  "mixed_target_label names = MIXED_PREFIX @ join '', '' (map quote_target_name names)"

definition mixed_error :: "(string, string list) dict \<Rightarrow> string list \<Rightarrow> py_error" where
  "mixed_error by_name derived =
     MixedStorageTargetsError (join [LF]
       ([''inputs come from different storage targets:''] @
        map (\<lambda>(name, labels). ''  '' @ quote_target_name name @
               (if name \<in> set derived then '' (derived)'' else []) @ '': '' @ join '', '' labels)
          by_name @
        (if derived \<noteq> [] then
           [''(derived: results saved before v2.0.0 have no STORAGE_TARGET_NAME; '' @
            ''the name comes from their TEST_DIRS)''] else []) @
        [''report each target separately or pass '' @ ALLOW_MIXED_TARGETS_FLAG]))"

subsection \<open>The guard\<close>

record sources_seen =
  by_name :: "(string, string list) dict"
  unknown :: "string list"
  derived :: "string list"

definition see_source :: "string \<times> source_value \<Rightarrow> sources_seen \<Rightarrow> sources_seen" where
  "see_source src s =
     (case known_name (snd src) of
        None \<Rightarrow> s\<lparr> unknown := unknown s @ [fst src] \<rparr>
      | Some name \<Rightarrow>
          s\<lparr> by_name := dict_append name (fst src) (by_name s),
             derived := (case snd src of
                           STarget t \<Rightarrow> if st_recorded t then derived s else List.insert name (derived s)
                         | _ \<Rightarrow> derived s) \<rparr>)"

definition see_sources :: "(string \<times> source_value) list \<Rightarrow> sources_seen" where
  "see_sources sources = fold see_source sources \<lparr> by_name = [], unknown = [], derived = [] \<rparr>"

definition resolve_report_target ::
  "(string \<times> source_value) list \<Rightarrow> bool \<Rightarrow> string list \<times> string result" where
  "resolve_report_target sources allow_mixed =
     (let seen = see_sources sources;
          names = sort (dict_keys (by_name seen));
          ordered = map (\<lambda>n. (n, the (dict_get (by_name seen) n))) names;
          unknown_warning =
            (if unknown seen = [] then []
             else [''cannot verify storage target of '' @ dec (length (unknown seen)) @
                   '' input(s): '' @ join '', '' (unknown seen)])
      in if length names > 1 then
           (if \<not> allow_mixed then ([], Inl (mixed_error ordered (derived seen)))
            else ([''report mixes storage targets: '' @
                    join '', '' (map (\<lambda>(name, labels). quote_target_name name @ '' ('' @
                       join '', '' labels @ '')'') ordered)] @ unknown_warning,
                  Inr (mixed_target_label names)))
         else (case names of
                 [] \<Rightarrow> ([], Inr UNKNOWN_TARGET)
               | n # _ \<Rightarrow> (unknown_warning, Inr n)))"

text \<open>\<^verbatim>\<open>guarded_report_target\<close>: the lines written to standard error, and the label or the
  exit status.\<close>

definition guarded_report_target ::
  "(string \<times> source_value) list \<Rightarrow> bool \<Rightarrow> string list \<times> (nat + string)" where
  "guarded_report_target sources allow_mixed =
     (case resolve_report_target sources allow_mixed of
        (warnings, Inr label) \<Rightarrow> (map (\<lambda>t. ''WARNING: '' @ t) warnings, Inr label)
      | (warnings, Inl (MixedStorageTargetsError m)) \<Rightarrow>
          (map (\<lambda>t. ''WARNING: '' @ t) warnings @ [''ERROR: '' @ m], Inl 1)
      | (warnings, Inl _) \<Rightarrow> (map (\<lambda>t. ''WARNING: '' @ t) warnings, Inl 1))"

text \<open>A group of a results document, as far as the guard reads it.\<close>

record target_group =
  tg_source :: "string option"
  tg_group_id :: string
  tg_target :: storage_target

definition guarded_document_target :: "target_group list \<Rightarrow> bool \<Rightarrow> string list \<times> (nat + string)" where
  "guarded_document_target groups allow_mixed =
     guarded_report_target
       (map (\<lambda>g. ((case tg_source g of Some s \<Rightarrow> if s = [] then tg_group_id g else s
                   | None \<Rightarrow> tg_group_id g), STarget (tg_target g))) groups) allow_mixed"

subsection \<open>What the loop over the sources collects\<close>

definition known_names :: "(string \<times> source_value) list \<Rightarrow> string set" where
  "known_names sources = {n. \<exists>src \<in> set sources. known_name (snd src) = Some n}"

definition named_labels :: "(string \<times> source_value) list \<Rightarrow> (string \<times> string) list" where
  "named_labels sources =
     List.map_filter (\<lambda>src. map_option (\<lambda>n. (n, fst src)) (known_name (snd src))) sources"

lemma map_filter_Cons:
  "List.map_filter f (x # xs) = (case f x of None \<Rightarrow> [] | Some y \<Rightarrow> [y]) @ List.map_filter f xs"
  by (simp add: List.map_filter_def split: option.splits)

lemma by_name_fold:
  "by_name (fold see_source sources s) =
     fold (\<lambda>(k, v). adict.push k v) (named_labels sources) (by_name s)"
  by (induction sources arbitrary: s)
     (auto simp: named_labels_def map_filter_Cons see_source_def dict_append_push List.map_filter_def
       split: option.splits)

lemma unknown_fold:
  "unknown (fold see_source sources s) =
     unknown s @ map fst (filter (\<lambda>src. known_name (snd src) = None) sources)"
  by (induction sources arbitrary: s) (auto simp: see_source_def split: option.splits)

lemma fst_named_labels: "fst ` set (named_labels sources) = known_names sources"
  by (force simp: named_labels_def known_names_def List.map_filter_def image_iff)

lemma seen_names:
  "set (dict_keys (by_name (see_sources sources))) = known_names sources"
  "distinct (dict_keys (by_name (see_sources sources)))"
  using adict.keys_fold [of "named_labels sources" "[]"] adict.distinct_keys_fold [of "[]" "named_labels sources"]
  by (simp_all add: see_sources_def by_name_fold fst_named_labels)

lemma finite_known_names [simp]: "finite (known_names sources)"
  by (metis seen_names(1) List.finite_set)

lemma sort_seen_names:
  "sort (dict_keys (by_name (see_sources sources))) = sorted_list_of_set (known_names sources)"
  using seen_names [of sources]
  by (metis sorted_list_of_set_sort_remdups distinct_remdups_id)

lemma length_by_name [simp]: "length (by_name (see_sources sources)) = card (known_names sources)"
  using seen_names [of sources] by (metis distinct_card length_map)

subsection \<open>The guard against its specification\<close>

text \<open>
  What the guard promises, as a function of the set of known names alone: no name gives
  the unknown label, one name is the label, several are refused (\<open>None\<close>) or shown as a
  mixed label of the sorted names.
\<close>

definition guard_spec :: "string set \<Rightarrow> bool \<Rightarrow> string option" where
  "guard_spec K allow_mixed =
     (if K = {} then Some UNKNOWN_TARGET
      else if card K = 1 then Some (the_elem K)
      else if allow_mixed then Some (mixed_target_label (sorted_list_of_set K))
      else None)"

definition label_of :: "string result \<Rightarrow> string option" where
  "label_of r = (case r of Inl _ \<Rightarrow> None | Inr l \<Rightarrow> Some l)"

lemma resolve_label:
  "label_of (snd (resolve_report_target sources allow_mixed)) = guard_spec (known_names sources) allow_mixed"
proof -
  let ?K = "known_names sources"
  have len: "length (sorted_list_of_set ?K) = card ?K" by simp
  show ?thesis
  proof (cases "card ?K \<le> 1")
    case False
    then have "?K \<noteq> {}" "card ?K \<noteq> 1" by auto
    with False show ?thesis
      by (simp add: resolve_report_target_def Let_def sort_seen_names guard_spec_def label_of_def)
  next
    case True
    then consider "?K = {}" | n where "?K = {n}"
      by (metis card_1_singletonE card_0_eq finite_known_names le_less less_one)
    then show ?thesis
      by cases (simp_all add: resolve_report_target_def Let_def sort_seen_names guard_spec_def
          label_of_def)
  qed
qed

text \<open>C11. The mixed-target guard refines its specification: the label of a report, and whether it
  is refused, depend only on the set of distinct known target names of its inputs (not on
  their order, their number, or which inputs are unknown). Several known names are refused
  unless mixing is allowed.\<close>

theorem resolve_report_target_refines:
  "label_of (snd (resolve_report_target sources allow_mixed)) = guard_spec (known_names sources) allow_mixed"
  by (rule resolve_label)

lemma mixed_refused_error:
  "snd (resolve_report_target sources allow_mixed) = Inl e \<Longrightarrow> \<exists>m. e = MixedStorageTargetsError m"
  by (auto simp: resolve_report_target_def Let_def mixed_error_def split: if_splits list.splits)

text \<open>The command-line guard exits with status 1 exactly when two or more known targets meet
  without the permission to mix them, and it is then that an error line is written; in every
  other case the report gets the label of the specification.\<close>

theorem guarded_report_target_exit:
  "snd (guarded_report_target sources allow_mixed) =
     (if 1 < card (known_names sources) \<and> \<not> allow_mixed then Inl 1
      else Inr (the (guard_spec (known_names sources) allow_mixed)))"
proof -
  have none: "guard_spec (known_names sources) allow_mixed = None \<longleftrightarrow>
      1 < card (known_names sources) \<and> \<not> allow_mixed"
    using card_gt_0_iff [of "known_names sources"] by (auto simp: guard_spec_def)
  show ?thesis
    using resolve_label [of sources allow_mixed] none mixed_refused_error [of sources allow_mixed]
    by (cases "resolve_report_target sources allow_mixed")
       (auto simp: guarded_report_target_def label_of_def split: sum.splits)
qed

subsection \<open>Claim-qualified roots are in normal form\<close>

lemma namespace_over: "rx_over (\<lambda>c. alnum c \<or> c = CHR ''-'') namespace_re"
  by (simp add: namespace_re_def ROpt_def)

lemma claim_over: "rx_over (\<lambda>c. alnum c \<or> c = CHR ''.'' \<or> c = CHR ''-'') claim_re"
  by (simp add: claim_re_def ROpt_def)

lemma alnum_plain: "alnum c \<Longrightarrow> c \<notin> {CHR 0x2F, CHR '':'', CHR ''-'', CHR ''.'', LF}"
  by (auto simp: alnum_def is_lower_def is_digit_def)

lemma namespace_chars:
  assumes "match_dollar namespace_re ns"
  shows "CHR 0x2F \<notin> set ns" and "CHR '':'' \<notin> set ns"
  using match_dollar_over [OF namespace_over assms] alnum_plain by fastforce+

lemma claim_chars:
  assumes "valid_claim cl"
  shows "CHR '':'' \<notin> set cl"
proof -
  have "match_dollar claim_re cl" using assms by (simp add: valid_claim_def)
  from match_dollar_over [OF claim_over this] alnum_plain show ?thesis by fastforce
qed

lemma claim_path_Some:
  assumes "claim_path v = Some p"
  obtains cs where "p = join ''/'' cs" "cs \<noteq> []"
    "\<forall>c \<in> set cs. c \<noteq> [] \<and> CHR 0x2F \<notin> set c \<and> \<not> bad_component c \<and> set c \<subseteq> set v"
    "LF \<notin> set v" "CR \<notin> set v" "TAB \<notin> set v"
proof -
  define cs where "cs = filter (\<lambda>c. c \<noteq> []) (split_on (CHR 0x2F) v)"
  have "p = join ''/'' cs" "\<not> list_ex bad_component cs" "p \<noteq> []"
      "LF \<notin> set v" "CR \<notin> set v" "TAB \<notin> set v"
    using assms by (auto simp: claim_path_def Let_def cs_def list_ex_iff split: if_splits)
  moreover from \<open>p \<noteq> []\<close> \<open>p = join ''/'' cs\<close> have "cs \<noteq> []" by auto
  moreover have "\<forall>c \<in> set cs. c \<noteq> [] \<and> CHR 0x2F \<notin> set c \<and> set c \<subseteq> set v"
    using split_on_parts_free split_on_subset by (fastforce simp: cs_def)
  ultimately show thesis using that by (auto simp: list_ex_iff)
qed

lemma claim_path_idem: "claim_path v = Some p \<Longrightarrow> claim_path p = Some p"
proof -
  assume "claim_path v = Some p"
  then obtain cs where cs: "p = join ''/'' cs" "cs \<noteq> []"
    "\<forall>c \<in> set cs. c \<noteq> [] \<and> CHR 0x2F \<notin> set c \<and> \<not> bad_component c \<and> set c \<subseteq> set v"
    and ctrl: "LF \<notin> set v" "CR \<notin> set v" "TAB \<notin> set v" by (rule claim_path_Some)
  have "split_on (CHR 0x2F) p = cs" using cs by (simp add: split_on_join)
  moreover have "filter (\<lambda>c. c \<noteq> []) cs = cs" using cs(3) by (simp add: filter_id_conv)
  moreover have "set p \<subseteq> insert (CHR 0x2F) (set v)"
    using set_join [of "''/''" cs] cs(1,3) by fastforce
  moreover have "p \<noteq> []" using cs by (cases cs; cases "tl cs") auto
  ultimately show ?thesis
    using cs(1,3) ctrl by (auto simp: claim_path_def list_ex_iff)
qed

lemma qualified_root_Some:
  assumes "qualified_root key dflt = Some r"
  obtains ns cl path v where "r = ns @ ''/'' @ cl @ '':'' @ path"
    "ns \<noteq> []" "length ns \<le> 63" "match_dollar namespace_re ns"
    "CHR 0x2F \<notin> set cl" "valid_claim cl" "claim_path v = Some path"
  using assms
  by (auto simp: qualified_root_def Let_def split: if_splits option.splits prod.splits)

text \<open>A normalised claim-qualified root is a fixed point: normalising
  \<^verbatim>\<open><namespace>/<claim>:<path>\<close> again, under whatever default namespace, gives it back. So a
  target named by normalised roots keeps its name.\<close>

theorem qualified_root_idempotent:
  assumes "qualified_root key dflt = Some r"
  shows "qualified_root r dflt' = Some r"
proof -
  from assms obtain ns cl path v where r: "r = ns @ ''/'' @ cl @ '':'' @ path"
    and ns: "ns \<noteq> []" "length ns \<le> 63" "match_dollar namespace_re ns"
    and cl: "CHR 0x2F \<notin> set cl" "valid_claim cl" and path: "claim_path v = Some path"
    by (rule qualified_root_Some)
  have free: "CHR '':'' \<notin> set (ns @ ''/'' @ cl)"
    using namespace_chars [OF ns(3)] claim_chars [OF cl(2)] by simp
  have rr: "r = (ns @ ''/'' @ cl) @ CHR '':'' # path" using r by simp
  have q: "before (CHR '':'') r = ns @ CHR 0x2F # cl" "after (CHR '':'') r = path"
    using before_append [OF free, of path] after_append [OF free, of path] rr by simp_all
  have n: "before (CHR 0x2F) (ns @ CHR 0x2F # cl) = ns" "after (CHR 0x2F) (ns @ CHR 0x2F # cl) = cl"
    using namespace_chars(1) [OF ns(3)] by (simp_all add: before_append after_append)
  show ?thesis
    using q n ns cl r by (simp add: qualified_root_def claim_path_idem [OF path])
qed

theorem qualified_root_idempotent_witness:
  "qualified_root ''ns/claim:a/b'' ''other'' = Some ''ns/claim:a/b''"
  by (rule qualified_root_idempotent [where key = "''claim:/a//b/''" and dflt = "''ns''"]) code_simp

text \<open>The anchors \<^verbatim>\<open>^...$\<close> of the name checks let one trailing line feed through: a claim
  name ending in a line feed is accepted as a DNS-1123 subdomain and kept in the normalised
  root.\<close>

theorem claim_trailing_newline_accepted:
  "valid_claim (''claim'' @ [LF]) \<and>
   qualified_root (''claim'' @ [LF] @ '':data'') ''ns'' = Some (''ns/claim'' @ [LF] @ '':data'')"
  by code_simp

subsection \<open>Labels can be read back\<close>

lemma hex_digit_inj:
  assumes "a < 16" and "b < 16" and "hex_digit a = hex_digit b"
  shows "a = b"
proof -
  have h: "code (hex_digit a) = (if a < 10 then 48 + a else 87 + a)" if "a < 16" for a
    using that by (simp add: hex_digit_def of_char_of)
  have "(if a < 10 then 48 + a else 87 + a) = (if b < 10 then 48 + b else 87 + b)"
    using h [OF assms(1)] h [OF assms(2)] assms(3) by metis
  then show ?thesis using assms(1,2) by (auto split: if_splits)
qed

lemma hex2_inj:
  assumes "a < 256" and "b < 256" and "hex2 a = hex2 b"
  shows "a = b"
proof -
  have "a div 16 = b div 16" "a mod 16 = b mod 16"
    using assms by (simp_all add: hex2_def hex_digit_inj)
  then show ?thesis by (metis div_mult_mod_eq)
qed

definition json_escape_letter :: "char \<Rightarrow> char" where
  "json_escape_letter c =
     (if c = LF then CHR ''n'' else if c = CR then CHR ''r'' else if c = TAB then CHR ''t''
      else if c = CHR 0x08 then CHR ''b'' else if c = CHR 0x0C then CHR ''f''
      else if c = CHR 0x22 \<or> c = CHR 0x5C then c else CHR ''u'')"

lemma json_char_cases:
  obtains (plain) "json_char c = [c]" "c \<noteq> CHR 0x22" "c \<noteq> CHR 0x5C"
  | (letter) "json_char c = [CHR 0x5C, json_escape_letter c]" "json_escape_letter c \<noteq> CHR ''u''"
  | (hex) "json_char c = [CHR 0x5C, CHR ''u'', CHR ''0'', CHR ''0''] @ hex2 (code c)"
proof -
  show thesis
  proof (cases "c \<in> {LF, CR, TAB, CHR 0x08, CHR 0x0C, CHR 0x22, CHR 0x5C}")
    case True
    then show thesis using letter by (auto simp: json_char_def json_escape_letter_def)
  next
    case False
    then show thesis using plain hex by (cases "code c < 32") (auto simp: json_char_def)
  qed
qed

lemma json_escape_letter_inj:
  assumes "json_escape_letter c = json_escape_letter d" and "json_escape_letter c \<noteq> CHR ''u''"
  shows "c = d"
  using assms unfolding json_escape_letter_def by (auto split: if_splits)

lemma json_char_prefix_free:
  assumes "json_char c @ x = json_char d @ y"
  shows "c = d \<and> x = y"
proof (cases c rule: json_char_cases)
  case plain
  with assms show ?thesis by (cases d rule: json_char_cases) auto
next
  case c: letter
  then show ?thesis using assms
    by (cases d rule: json_char_cases) (auto intro: json_escape_letter_inj)
next
  case c: hex
  have len: "length (hex2 n) = 2" for n by (simp add: hex2_def)
  show ?thesis
  proof (cases d rule: json_char_cases)
    case hex
    with assms c have "hex2 (code c) = hex2 (code d) \<and> x = y"
      using append_eq_append_conv [of "hex2 (code c)" "hex2 (code d)"] len by simp
    then show ?thesis using hex2_inj [of "code c" "code d"] nat_of_char_less_256 by simp
  qed (use assms c in auto)
qed

lemma json_char_start: "\<exists>a as. json_char c = a # as \<and> a \<noteq> CHR 0x22"
  by (cases c rule: json_char_cases) auto

lemma json_body_prefix_free:
  "concat (map json_char a) @ CHR 0x22 # x = concat (map json_char b) @ CHR 0x22 # y \<Longrightarrow> a = b \<and> x = y"
proof (induction a arbitrary: b)
  case Nil
  then show ?case using json_char_start by (cases b) (auto, metis append_Cons list.inject)
next
  case (Cons c a)
  show ?case
  proof (cases b)
    case Nil
    then show ?thesis using Cons.prems json_char_start [of c] by auto
  next
    case (Cons d b')
    with Cons.prems have "json_char c @ (concat (map json_char a) @ CHR 0x22 # x) =
        json_char d @ (concat (map json_char b') @ CHR 0x22 # y)" by simp
    from json_char_prefix_free [OF this] show ?thesis using Cons.IH \<open>b = d # b'\<close> by auto
  qed
qed

lemma quote_prefix_free: "quote_target_name a @ x = quote_target_name b @ y \<Longrightarrow> a = b \<and> x = y"
  by (rule json_body_prefix_free) (simp add: quote_target_name_def)

definition quoted_rest :: "string list \<Rightarrow> string" where
  "quoted_rest xs = (if xs = [] then [] else '', '' @ join '', '' (map quote_target_name xs))"

lemma join_quoted_Cons:
  "join '', '' (map quote_target_name (x # xs)) = quote_target_name x @ quoted_rest xs"
  by (cases xs) (simp_all add: quoted_rest_def)

lemma quote_nonempty: "quote_target_name a @ x \<noteq> []"
  by (simp add: quote_target_name_def)

lemma join_quoted_inj:
  "join '', '' (map quote_target_name as) = join '', '' (map quote_target_name bs) \<Longrightarrow> as = bs"
proof (induction as arbitrary: bs)
  case Nil
  then have "join '', '' (map quote_target_name bs) = []" by simp
  then show ?case by (cases bs) (simp_all only: join_quoted_Cons quote_nonempty)
next
  case (Cons a as)
  have "join '', '' (map quote_target_name bs) \<noteq> []"
    using Cons.prems quote_nonempty [of a "quoted_rest as"] by (metis join_quoted_Cons)
  then obtain b bs' where bs: "bs = b # bs'" by (cases bs) auto
  with Cons.prems have "quote_target_name a @ quoted_rest as = quote_target_name b @ quoted_rest bs'"
    by (simp only: join_quoted_Cons)
  then have "a = b" "quoted_rest as = quoted_rest bs'" using quote_prefix_free by blast+
  with Cons.IH bs show ?case by (auto simp: quoted_rest_def split: if_splits)
qed

text \<open>The label of a mixed report names its targets unambiguously: two name lists with the
  same label are the same list, whatever quotes, separators or control characters the names
  hold.\<close>

theorem mixed_target_label_injective:
  "mixed_target_label names = mixed_target_label names' \<longleftrightarrow> names = names'"
  using join_quoted_inj by (auto simp: mixed_target_label_def)

subsection \<open>The identity rule\<close>

lemma sorted_set_eq: "sorted_set xs = sorted_list_of_set (set xs)"
  by (simp add: sorted_set_def sorted_list_of_set_sort_remdups)

definition test_dirs_keys :: "settings \<Rightarrow> string list option" where
  "test_dirs_keys env = (case val_get env ''TEST_DIRS'' of
     PDict items \<Rightarrow> Some (map (\<lambda>kv. py_str (fst kv)) items) | _ \<Rightarrow> None)"

text \<open>The identity of a snapshot's target depends only on its explicit name, its substrate and
  namespace, and the set of its \<^verbatim>\<open>TEST_DIRS\<close> roots: weights, order and duplicates of the roots
  do not matter.\<close>

theorem storage_target_identity:
  assumes "\<And>k. k \<in> {STORAGE_TARGET_KEY, ''EXECUTION_SUBSTRATE'', ''KUBECTL_NAMESPACE''} \<Longrightarrow>
             env_text e k = env_text e' k"
    and "test_dirs_keys e = Some ks" and "test_dirs_keys e' = Some ks'" and "set ks = set ks'"
  shows "storage_target_from_env (Some e) = storage_target_from_env (Some e')"
proof -
  obtain i where i: "val_get e ''TEST_DIRS'' = PDict i" "ks = map (\<lambda>kv. py_str (fst kv)) i"
    using assms(2) by (auto simp: test_dirs_keys_def split: pyval.splits)
  obtain i' where i': "val_get e' ''TEST_DIRS'' = PDict i'" "ks' = map (\<lambda>kv. py_str (fst kv)) i'"
    using assms(3) by (auto simp: test_dirs_keys_def split: pyval.splits)
  have t: "test_dirs_target_name e = test_dirs_target_name e'"
    unfolding test_dirs_target_name_def i(1) i'(1) pyval.case i(2) [symmetric] i'(2) [symmetric]
    using assms(4) by (simp add: Let_def sorted_set_eq filter_empty_conv)
  define ns where "ns = env_text e ''KUBECTL_NAMESPACE''"
  have img: "(\<lambda>kv. qualified_root (py_str (fst kv)) ns) ` set i = (\<lambda>kv. qualified_root (py_str (fst kv)) ns) ` set i'"
  proof -
    have "(\<lambda>kv. qualified_root (py_str (fst kv)) ns) ` set j = (\<lambda>k. qualified_root k ns) ` set (map (\<lambda>kv. py_str (fst kv)) j)"
      for j :: "(pyval \<times> pyval) list" by (simp add: image_image)
    then show ?thesis using assms(4) i(2) i'(2) by metis
  qed
  have "i = [] \<longleftrightarrow> i' = []" using assms(4) i(2) i'(2) by auto
  moreover have "env_text e' ''KUBECTL_NAMESPACE'' = ns" using assms(1) by (simp add: ns_def)
  moreover have "(\<lambda>x. the (qualified_root (py_str (fst x)) ns)) ` set i = (\<lambda>x. the (qualified_root (py_str (fst x)) ns)) ` set i'"
    using arg_cong [OF img, where f = "image the"] by (simp add: image_image)
  ultimately have q: "qualified_roots_name e = qualified_roots_name e'"
    unfolding qualified_roots_name_def i(1) i'(1) pyval.case ns_def [symmetric]
    using img by (simp add: Let_def sorted_set_eq)
  have "default_storage_target_name (Some e) = default_storage_target_name (Some e')"
    using assms(1) by (simp add: default_storage_target_name_def t q cong: option.case_cong)
  then show ?thesis using assms(1) by (simp add: storage_target_from_env_def Let_def)
qed

theorem storage_target_identity_witness:
  "storage_target_from_env (Some [(''TEST_DIRS'', PDict [(PStr ''/b'', PInt 1), (PStr ''/a'', PInt 2)])]) =
   storage_target_from_env (Some [(''TEST_DIRS'', PDict [(PStr ''/a'', PInt 1), (PStr ''/b'', PInt 1)])])"
  by (rule storage_target_identity [where ks = "[''/b'', ''/a'']" and ks' = "[''/a'', ''/b'']"])
     (auto simp: test_dirs_keys_def env_text_def STORAGE_TARGET_KEY_def)

end
