(* ===== verification/Planner.thy ===== *)
theory Planner
  imports PyValues
begin

section \<open>Scheduling integration scenarios (integration-tests/lib/scenario\_planner.py)\<close>

text \<open>
  The planner validates a scenario registry, selects scenarios, expands them over the
  concrete substrates and orders the work around one batch that runs with a shared SSH
  home. The worker pool's home mode is the state the plan moves through: \<open>home_step\<close> is
  what one plan step may do in a mode, and the main theorem is that every plan runs
  from the separate mode back to it, with each SSH item in the mode it declares.
\<close>

subsection \<open>Enumerations\<close>

datatype substrate = SUB_ALL | SSH | SLURM | KUBECTL

fun substrate_value :: "substrate \<Rightarrow> string" where
  "substrate_value SUB_ALL = ''all''"
| "substrate_value SSH = ''ssh''"
| "substrate_value SLURM = ''slurm''"
| "substrate_value KUBECTL = ''kubectl''"

definition substrates :: "substrate list" where
  "substrates = [SUB_ALL, SSH, SLURM, KUBECTL]"

text \<open>\<^verbatim>\<open>Substrate(text)\<close>\<close>

definition substrate_of :: "string \<Rightarrow> substrate option" where
  "substrate_of s = map_of (map (\<lambda>x. (substrate_value x, x)) substrates) s"

datatype ssh_home_mode = SEPARATE | SHARED

fun ssh_home_mode_value :: "ssh_home_mode \<Rightarrow> string" where
  "ssh_home_mode_value SEPARATE = ''separate''"
| "ssh_home_mode_value SHARED = ''shared''"

datatype schedule_phase = BEFORE_SHARED_HOME | SHARED_HOME | KUBECTL_PHASE | AFTER_SHARED_HOME

fun phase_value :: "schedule_phase \<Rightarrow> nat" where
  "phase_value BEFORE_SHARED_HOME = 10"
| "phase_value SHARED_HOME = 20"
| "phase_value KUBECTL_PHASE = 25"
| "phase_value AFTER_SHARED_HOME = 30"

fun phase_name :: "schedule_phase \<Rightarrow> string" where
  "phase_name BEFORE_SHARED_HOME = ''before_shared_home''"
| "phase_name SHARED_HOME = ''shared_home''"
| "phase_name KUBECTL_PHASE = ''kubectl''"
| "phase_name AFTER_SHARED_HOME = ''after_shared_home''"

lemma phase_value_inj: "phase_value a = phase_value b \<Longrightarrow> a = b"
  by (cases a; cases b) simp_all

text \<open>\<^verbatim>\<open>IntEnum\<close>: phases compare by value.\<close>

instantiation schedule_phase :: linorder
begin

definition less_eq_schedule_phase :: "schedule_phase \<Rightarrow> schedule_phase \<Rightarrow> bool" where
  "less_eq_schedule_phase a b \<longleftrightarrow> phase_value a \<le> phase_value b"

definition less_schedule_phase :: "schedule_phase \<Rightarrow> schedule_phase \<Rightarrow> bool" where
  "less_schedule_phase a b \<longleftrightarrow> phase_value a < phase_value b"

instance
  by standard (auto simp: less_eq_schedule_phase_def less_schedule_phase_def phase_value_inj)

end

subsection \<open>Scenarios, work items, plans\<close>

record scenario =
  sc_name :: string
  sc_description :: string
  sc_substrates :: "substrate set"
  sc_order :: int
  sc_phase :: schedule_phase
  sc_ssh_home_mode :: "ssh_home_mode option"

record work_item =
  wi_scenario :: scenario
  wi_substrate :: substrate

datatype plan_step = Work work_item | SshHomeTransition ssh_home_mode

record scenario_metadata_row =
  sm_name :: string
  sm_substrates :: "string list"
  sm_ssh_home_mode :: "string option"
  sm_schedule_phase :: string
  sm_order :: int

text \<open>The members of a substrate set, in a fixed order; every use sorts them again.\<close>

definition members :: "substrate set \<Rightarrow> substrate list" where
  "members S = filter (\<lambda>x. x \<in> S) substrates"

definition metadata :: "scenario \<Rightarrow> scenario_metadata_row" where
  "metadata s =
     \<lparr> sm_name = sc_name s,
       sm_substrates = sort (map substrate_value (members (sc_substrates s))),
       sm_ssh_home_mode = map_option ssh_home_mode_value (sc_ssh_home_mode s),
       sm_schedule_phase = phase_name (sc_phase s),
       sm_order = sc_order s \<rparr>"

definition every_substrate :: "substrate set" where
  "every_substrate = {SSH, SLURM, KUBECTL}"

definition separate_scenario :: "string \<Rightarrow> string \<Rightarrow> substrate set \<Rightarrow> int \<Rightarrow> scenario" where
  "separate_scenario name description subs order =
     \<lparr> sc_name = name, sc_description = description, sc_substrates = subs, sc_order = order,
       sc_phase = BEFORE_SHARED_HOME, sc_ssh_home_mode = Some SEPARATE \<rparr>"

definition plain_scenario :: "string \<Rightarrow> string \<Rightarrow> substrate \<Rightarrow> int \<Rightarrow> schedule_phase \<Rightarrow> scenario" where
  "plain_scenario name description sub order phase =
     \<lparr> sc_name = name, sc_description = description, sc_substrates = {sub}, sc_order = order,
       sc_phase = phase, sc_ssh_home_mode = None \<rparr>"

definition SCENARIO_CATALOG :: "scenario list" where
  "SCENARIO_CATALOG =
    [separate_scenario ''baseline''
       ''Shared-directory buffered-I/O baseline and report extraction'' every_substrate 10,
     separate_scenario ''mdtest-sweep''
       ''Bounded mdtest-Elbencho metadata sweep'' every_substrate 15,
     separate_scenario ''default-dio''
       ''Default worker-directory direct-I/O lifecycle'' every_substrate 20,
     separate_scenario ''failure-resume''
       ''Real failure, cleanup, and resume lifecycle'' every_substrate 30,
     separate_scenario ''mixed-batch''
       ''Prepared mixed filesystem batch, failure, resume, and separate reports'' every_substrate 35,
     separate_scenario ''retained-lifecycle''
       ''Write-only, repeated read-from, and delete-only lifecycle'' {SSH, SLURM} 40,
     separate_scenario ''live-capture''
       ''Extended live-data collection and reporting'' every_substrate 50,
     plain_scenario ''slurm-cartesian''
       ''Representative multidimensional Slurm sweep'' SLURM 60 BEFORE_SHARED_HOME,
     separate_scenario ''ssh-single-big-file''
       ''Cooperative and staged single-file SSH workloads'' {SSH} 70,
     separate_scenario ''ssh-weighted-roots''
       ''Weighted-root SSH workload with active sizing'' {SSH} 80,
     \<lparr> sc_name = ''ssh-shared-home'',
       sc_description = ''SSH deployment and sweep using a shared worker home'',
       sc_substrates = {SSH}, sc_order = 90, sc_phase = SHARED_HOME,
       sc_ssh_home_mode = Some SHARED \<rparr>,
     plain_scenario ''slurm-scheduling''
       ''Slurm allocation, include/exclude, and exclusive-user behavior'' SLURM 100 AFTER_SHARED_HOME,
     plain_scenario ''kubectl-retained-read''
       ''Kubernetes write, collected read-from, and retained data lifecycle'' KUBECTL 110 KUBECTL_PHASE,
     plain_scenario ''kubectl-cancel''
       ''Kubernetes cancellation and repeated collection lifecycle'' KUBECTL 120 KUBECTL_PHASE,
     plain_scenario ''kubectl-coordinator-loss''
       ''Kubernetes coordinator loss, collection, and resume lifecycle'' KUBECTL 130 KUBECTL_PHASE,
     plain_scenario ''kubectl-endpoint-drift''
       ''Kubernetes worker endpoint replacement and health handling'' KUBECTL 140 KUBECTL_PHASE,
     plain_scenario ''kubectl-multi-target''
       ''Two Kubernetes storage targets run by one sequenced attempt'' KUBECTL 150 KUBECTL_PHASE,
     plain_scenario ''kubectl-multi-target-unbound''
       ''Kubernetes start rejected and rolled back when a target claim is unbound'' KUBECTL 160 KUBECTL_PHASE,
     plain_scenario ''kubectl-same-namespace-targets''
       ''Two storage targets in one Kubernetes namespace share one coordinator Job'' KUBECTL 170 KUBECTL_PHASE]"

subsection \<open>Validation and selection\<close>

definition concrete_substrates :: "substrate \<Rightarrow> substrate set" where
  "concrete_substrates s = (if s = SUB_ALL then {SSH, SLURM, KUBECTL} else {s})"

definition validate_scenario :: "scenario \<Rightarrow> unit result" where
  "validate_scenario s =
     (let quoted = repr_str (sc_name s);
          supports_ssh = (SSH \<in> sc_substrates s)
      in if sc_name s = [] \<or> py_strip (sc_name s) \<noteq> sc_name s
           then Inl (ScenarioPlanningError (''invalid scenario name: '' @ quoted))
         else if sc_substrates s = {} \<or> SUB_ALL \<in> sc_substrates s
           then Inl (ScenarioPlanningError (''scenario '' @ quoted @ '' must declare concrete substrates''))
         else if supports_ssh \<noteq> (sc_ssh_home_mode s \<noteq> None)
           then Inl (ScenarioPlanningError (''scenario '' @ quoted @
             '' must declare an SSH home mode exactly when it supports SSH''))
         else if sc_ssh_home_mode s = Some SHARED then
           (if sc_substrates s \<noteq> {SSH}
              then Inl (ScenarioPlanningError (''shared-home scenario '' @ quoted @ '' must be SSH-only''))
            else if sc_phase s \<noteq> SHARED_HOME
              then Inl (ScenarioPlanningError (''shared-home scenario '' @ quoted @ '' must use the shared phase''))
            else Inr ())
         else if supports_ssh \<and> sc_phase s \<noteq> BEFORE_SHARED_HOME
           then Inl (ScenarioPlanningError (''separate-home scenario '' @ quoted @ '' must run before shared home''))
         else if sc_phase s = SHARED_HOME
           then Inl (ScenarioPlanningError (''scenario '' @ quoted @ '' cannot enter the shared phase''))
         else Inr ())"

fun index_registry :: "(string, scenario) dict \<Rightarrow> scenario list \<Rightarrow> (string, scenario) dict result" where
  "index_registry indexed [] = Inr indexed"
| "index_registry indexed (s # ss) =
     rbind (validate_scenario s) (\<lambda>_.
     rbind (check (dict_get indexed (sc_name s) = None)
              (ScenarioPlanningError (''duplicate scenario in registry: '' @ repr_str (sc_name s)))) (\<lambda>_.
     index_registry (dict_set (sc_name s) s indexed) ss))"

definition registry_by_name :: "scenario list \<Rightarrow> (string, scenario) dict result" where
  "registry_by_name registry = index_registry [] registry"

definition requested_names :: "string list \<Rightarrow> string list result" where
  "requested_names names =
     (let duplicates = sort (remdups (filter (\<lambda>n. count_list names n > 1) names))
      in if duplicates \<noteq> []
         then Inl (ScenarioPlanningError (''duplicate requested scenario(s): '' @ join '', '' duplicates))
         else Inr names)"

definition scenario_key :: "scenario \<Rightarrow> schedule_phase \<times> int \<times> string" where
  "scenario_key s = (sc_phase s, sc_order s, sc_name s)"

definition unknown_names :: "(string, scenario) dict \<Rightarrow> string list \<Rightarrow> string list" where
  "unknown_names indexed names = remdups (filter (\<lambda>n. n \<notin> set (dict_keys indexed)) names)"

definition candidates_of :: "(string, scenario) dict \<Rightarrow> string list \<Rightarrow> scenario list" where
  "candidates_of indexed names =
     (if names \<noteq> [] then map (\<lambda>n. the (dict_get indexed n)) names else map snd indexed)"

definition runs_on :: "substrate \<Rightarrow> scenario \<Rightarrow> bool" where
  "runs_on sub s \<longleftrightarrow> sc_substrates s \<inter> concrete_substrates sub \<noteq> {}"

definition incompatible_names :: "(string, scenario) dict \<Rightarrow> string list \<Rightarrow> substrate \<Rightarrow> string list" where
  "incompatible_names indexed names sub =
     map sc_name (filter (\<lambda>s. names \<noteq> [] \<and> \<not> runs_on sub s) (candidates_of indexed names))"

definition select_scenarios :: "string \<Rightarrow> string list \<Rightarrow> scenario list \<Rightarrow> scenario list result" where
  "select_scenarios substrate requested registry =
     (case substrate_of substrate of
        None \<Rightarrow> Inl (ScenarioPlanningError (''unknown substrate '' @ repr_str substrate @
                  ''; choose one of: '' @ join '', '' (map substrate_value substrates)))
      | Some selected_substrate \<Rightarrow>
          rbind (registry_by_name registry) (\<lambda>indexed.
          rbind (requested_names requested) (\<lambda>names.
          rbind (check (unknown_names indexed names = [])
                   (ScenarioPlanningError (''unknown scenario(s): '' @
                      join '', '' (sort (unknown_names indexed names))))) (\<lambda>_.
          rbind (check (incompatible_names indexed names selected_substrate = [])
                   (ScenarioPlanningError (''scenario(s) incompatible with '' @
                      substrate_value selected_substrate @ '': '' @
                      join '', '' (sort (incompatible_names indexed names selected_substrate))))) (\<lambda>_.
          Inr (sort_key scenario_key
                 (filter (runs_on selected_substrate) (candidates_of indexed names))))))))"

subsection \<open>Plans\<close>

definition item_key :: "work_item \<Rightarrow> schedule_phase \<times> int \<times> string \<times> string" where
  "item_key i = (sc_phase (wi_scenario i), sc_order (wi_scenario i), sc_name (wi_scenario i),
     substrate_value (wi_substrate i))"

definition work_items :: "scenario list \<Rightarrow> substrate \<Rightarrow> work_item list" where
  "work_items scenarios substrate =
     sort_key item_key
       (concat (map (\<lambda>s. map (\<lambda>c. \<lparr> wi_scenario = s, wi_substrate = c \<rparr>)
                   (members (sc_substrates s \<inter> concrete_substrates substrate))) scenarios))"

definition schedule_phase_of :: "work_item \<Rightarrow> schedule_phase" where
  "schedule_phase_of i = (if wi_substrate i = KUBECTL then KUBECTL_PHASE else sc_phase (wi_scenario i))"

definition plan_of_items :: "work_item list \<Rightarrow> plan_step list" where
  "plan_of_items items =
     (let before = filter (\<lambda>i. schedule_phase_of i = BEFORE_SHARED_HOME) items;
          shared = filter (\<lambda>i. schedule_phase_of i = SHARED_HOME) items;
          kubectl = filter (\<lambda>i. schedule_phase_of i = KUBECTL_PHASE) items;
          after = filter (\<lambda>i. schedule_phase_of i = AFTER_SHARED_HOME) items
      in map Work before @
         (if shared \<noteq> [] then [SshHomeTransition SHARED] @ map Work shared @ [SshHomeTransition SEPARATE]
          else []) @
         map Work kubectl @ map Work after)"

definition plan_scenarios :: "string \<Rightarrow> string list \<Rightarrow> scenario list \<Rightarrow> plan_step list result" where
  "plan_scenarios substrate requested registry =
     rbind (select_scenarios substrate requested registry) (\<lambda>scenarios.
       Inr (plan_of_items (work_items scenarios (the (substrate_of substrate)))))"

definition scenario_metadata :: "scenario list \<Rightarrow> scenario_metadata_row list result" where
  "scenario_metadata registry =
     rbind (registry_by_name registry) (\<lambda>indexed.
       Inr (map metadata (sort_key scenario_key (map snd indexed))))"

definition format_scenario_listing :: "scenario list \<Rightarrow> string result" where
  "format_scenario_listing registry =
     rbind (registry_by_name registry) (\<lambda>indexed.
       Inr (join [LF] (map (\<lambda>s. sc_name s @ [TAB] @
              join '','' (sort (map substrate_value (members (sc_substrates s)))) @ [TAB] @ sc_description s)
            (sort_key scenario_key (map snd indexed)))))"

subsection \<open>What validation and selection establish\<close>

abbreviation valid_scenario :: "scenario \<Rightarrow> bool" where
  "valid_scenario s \<equiv> validate_scenario s = Inr ()"

lemma valid_ssh:
  "valid_scenario s \<Longrightarrow> SSH \<in> sc_substrates s \<Longrightarrow>
     sc_phase s = BEFORE_SHARED_HOME \<and> sc_ssh_home_mode s = Some SEPARATE \<or>
     sc_phase s = SHARED_HOME \<and> sc_ssh_home_mode s = Some SHARED"
  by (cases "sc_ssh_home_mode s"; cases "the (sc_ssh_home_mode s)")
     (auto simp: validate_scenario_def Let_def split: if_splits)

lemma valid_shared_phase:
  "valid_scenario s \<Longrightarrow> sc_phase s = SHARED_HOME \<Longrightarrow>
     sc_substrates s = {SSH} \<and> sc_ssh_home_mode s = Some SHARED"
  by (auto simp: validate_scenario_def Let_def split: if_splits)

lemma valid_concrete: "valid_scenario s \<Longrightarrow> SUB_ALL \<notin> sc_substrates s"
  by (auto simp: validate_scenario_def Let_def split: if_splits)

lemma dict_set_new: "k \<notin> set (dict_keys d) \<Longrightarrow> dict_set k v d = d @ [(k, v)]"
  by (induction d) auto

lemma index_registry_Inr:
  "index_registry ind ss = Inr d \<longleftrightarrow>
     (\<forall>s \<in> set ss. valid_scenario s) \<and> distinct (map sc_name ss) \<and>
     set (map sc_name ss) \<inter> set (dict_keys ind) = {} \<and> d = ind @ map (\<lambda>s. (sc_name s, s)) ss"
proof (induction ss arbitrary: ind)
  case Nil
  then show ?case by auto
next
  case (Cons s ss)
  have "dict_get ind (sc_name s) = None \<longleftrightarrow> sc_name s \<notin> set (dict_keys ind)"
    by (simp add: map_of_eq_None_iff)
  then show ?case
    by (cases "sc_name s \<in> set (dict_keys ind)")
       (simp_all add: rbind_eq_Inr Cons.IH dict_set_new, blast)
qed

lemma registry_by_name_Inr:
  "registry_by_name registry = Inr d \<longleftrightarrow>
     (\<forall>s \<in> set registry. valid_scenario s) \<and> distinct (map sc_name registry) \<and>
     d = map (\<lambda>s. (sc_name s, s)) registry"
  by (simp add: registry_by_name_def index_registry_Inr)

lemma count_list_distinct: "distinct xs \<longleftrightarrow> (\<forall>x \<in> set xs. count_list xs x \<le> 1)"
  by (induction xs) (auto simp: count_list_0_iff Suc_le_eq)

lemma requested_names_Inr: "requested_names names = Inr ns \<longleftrightarrow> distinct names \<and> ns = names"
  by (auto simp: requested_names_def Let_def count_list_distinct filter_empty_conv not_less)

lemma dict_get_registry:
  "distinct (map sc_name registry) \<Longrightarrow> s \<in> set registry \<Longrightarrow>
     dict_get (map (\<lambda>s. (sc_name s, s)) registry) (sc_name s) = Some s"
  by (intro map_of_is_SomeI) (auto simp: comp_def)

lemma registry_lookup_image:
  assumes "distinct (map sc_name registry)" and "set names \<subseteq> sc_name ` set registry"
  shows "(\<lambda>n. the (dict_get (map (\<lambda>s. (sc_name s, s)) registry) n)) ` set names =
     {s \<in> set registry. sc_name s \<in> set names}"
  using assms dict_get_registry [OF assms(1)] by (force simp: image_iff subset_iff)

lemma registry_lookup_name:
  assumes "distinct (map sc_name registry)" and "n \<in> sc_name ` set registry"
  shows "sc_name (the (dict_get (map (\<lambda>s. (sc_name s, s)) registry) n)) = n"
  using assms dict_get_registry [OF assms(1)] by force

definition is_selected :: "string list \<Rightarrow> substrate \<Rightarrow> scenario \<Rightarrow> bool" where
  "is_selected requested sub s \<longleftrightarrow>
     (requested \<noteq> [] \<longrightarrow> sc_name s \<in> set requested) \<and> runs_on sub s"

lemma scenario_key_deterministic:
  "distinct (map sc_name registry) \<Longrightarrow> deterministic_key scenario_key (set registry)"
  by unfold_locales (auto simp: inj_on_def scenario_key_def distinct_map)

lemma candidates_of_registry:
  assumes reg: "distinct (map sc_name registry)" and req: "distinct requested"
    and sub: "set requested \<subseteq> sc_name ` set registry"
  shows "set (candidates_of (map (\<lambda>s. (sc_name s, s)) registry) requested) =
      {s \<in> set registry. requested \<noteq> [] \<longrightarrow> sc_name s \<in> set requested}"
    and "distinct (candidates_of (map (\<lambda>s. (sc_name s, s)) registry) requested)"
proof -
  let ?d = "map (\<lambda>s. (sc_name s, s)) registry"
  show "set (candidates_of ?d requested) =
      {s \<in> set registry. requested \<noteq> [] \<longrightarrow> sc_name s \<in> set requested}"
    using registry_lookup_image [OF reg sub] by (auto simp: candidates_of_def image_image)
  have "map sc_name (map (\<lambda>n. the (dict_get ?d n)) requested) = requested"
    unfolding map_map comp_def using registry_lookup_name [OF reg] sub by (intro map_idI) auto
  then have "distinct (map sc_name (candidates_of ?d requested))"
    using reg req by (simp add: candidates_of_def comp_def)
  then show "distinct (candidates_of ?d requested)" by (simp add: distinct_map)
qed

lemma unknown_names_Nil:
  "unknown_names (map (\<lambda>s. (sc_name s, s)) registry) requested = [] \<longleftrightarrow>
     set requested \<subseteq> sc_name ` set registry"
  by (auto simp: unknown_names_def filter_empty_conv image_image)

text \<open>Selection as one equivalence: when it succeeds, and with which scenarios.\<close>

definition selectable :: "substrate \<Rightarrow> string list \<Rightarrow> scenario list \<Rightarrow> bool" where
  "selectable s0 requested registry \<longleftrightarrow>
     (\<forall>s \<in> set registry. valid_scenario s) \<and> distinct (map sc_name registry) \<and>
     distinct requested \<and> set requested \<subseteq> sc_name ` set registry \<and>
     (\<forall>s \<in> set registry. sc_name s \<in> set requested \<longrightarrow> runs_on s0 s)"

lemma select_scenarios_iff:
  "select_scenarios sub requested registry = Inr sel \<longleftrightarrow>
     (\<exists>s0. substrate_of sub = Some s0 \<and> selectable s0 requested registry \<and>
       sel = sort_key scenario_key (filter (is_selected requested s0) registry))"
proof -
  let ?d = "map (\<lambda>s. (sc_name s, s)) registry"
  let ?pre = "(\<forall>s \<in> set registry. valid_scenario s) \<and> distinct (map sc_name registry) \<and>
    distinct requested \<and> set requested \<subseteq> sc_name ` set registry"
  have inc: "incompatible_names ?d requested s0 = [] \<longleftrightarrow>
      (\<forall>s \<in> set registry. sc_name s \<in> set requested \<longrightarrow> runs_on s0 s)" if ?pre for s0
    using candidates_of_registry(1) [of registry requested] that
    by (auto simp: incompatible_names_def filter_empty_conv)
  have srt: "sort_key scenario_key (filter (runs_on s0) (candidates_of ?d requested)) =
      sort_key scenario_key (filter (is_selected requested s0) registry)" if ?pre for s0
    using that candidates_of_registry [of registry requested]
    by (intro deterministic_key.sort_key_of_set [OF scenario_key_deterministic [of registry]])
       (auto simp: is_selected_def distinct_map)
  show ?thesis
    unfolding select_scenarios_def selectable_def
    by (cases "substrate_of sub")
       (use inc srt in \<open>auto simp: rbind_eq_Inr registry_by_name_Inr requested_names_Inr unknown_names_Nil\<close>)
qed

lemma select_scenarios_Inr:
  assumes "select_scenarios sub requested registry = Inr sel"
  obtains s0 where "substrate_of sub = Some s0" "selectable s0 requested registry"
    "set sel = {s \<in> set registry. is_selected requested s0 s}" "distinct sel"
  using assms by (auto simp: select_scenarios_iff selectable_def distinct_map)

subsection \<open>The work items of a selection\<close>

lemma set_members [simp]: "set (members S) = S"
proof -
  have "x \<in> set substrates" for x by (cases x) (simp_all add: substrates_def)
  then show ?thesis by (auto simp: members_def)
qed

lemma distinct_members [simp]: "distinct (members S)"
  by (simp add: members_def substrates_def)

lemma set_work_items:
  "set (work_items scenarios sub) =
     {i. wi_scenario i \<in> set scenarios \<and>
         wi_substrate i \<in> sc_substrates (wi_scenario i) \<inter> concrete_substrates sub}"
proof -
  have "i = \<lparr> wi_scenario = s, wi_substrate = c \<rparr> \<longleftrightarrow> wi_scenario i = s \<and> wi_substrate i = c"
    for i :: work_item and s c by (cases i) auto
  then show ?thesis by (auto simp: work_items_def image_iff)
qed

lemma distinct_work_items:
  assumes "distinct scenarios"
  shows "distinct (work_items scenarios sub)"
proof -
  have "distinct (concat (map (\<lambda>s. map (\<lambda>c. \<lparr> wi_scenario = s, wi_substrate = c \<rparr>)
      (members (sc_substrates s \<inter> concrete_substrates sub))) scenarios))"
    using assms by (induction scenarios) (auto simp: distinct_map inj_on_def)
  then show ?thesis by (simp add: work_items_def)
qed

fun works :: "plan_step list \<Rightarrow> work_item list" where
  "works [] = []"
| "works (Work i # steps) = i # works steps"
| "works (SshHomeTransition m # steps) = works steps"

lemma works_append [simp]: "works (xs @ ys) = works xs @ works ys"
  by (induction xs rule: works.induct) auto

lemma works_map_Work [simp]: "works (map Work xs) = xs"
  by (induction xs) auto

lemma mset_plan_of_items: "mset (works (plan_of_items items)) = mset items"
proof -
  have "mset items = mset (filter (\<lambda>i. schedule_phase_of i = BEFORE_SHARED_HOME) items) +
      mset (filter (\<lambda>i. schedule_phase_of i = SHARED_HOME) items) +
      mset (filter (\<lambda>i. schedule_phase_of i = KUBECTL_PHASE) items) +
      mset (filter (\<lambda>i. schedule_phase_of i = AFTER_SHARED_HOME) items)"
  proof (induction items)
    case (Cons i items)
    then show ?case by (cases "schedule_phase_of i") auto
  qed simp
  moreover have "works (plan_of_items items) =
      filter (\<lambda>i. schedule_phase_of i = BEFORE_SHARED_HOME) items @
      filter (\<lambda>i. schedule_phase_of i = SHARED_HOME) items @
      filter (\<lambda>i. schedule_phase_of i = KUBECTL_PHASE) items @
      filter (\<lambda>i. schedule_phase_of i = AFTER_SHARED_HOME) items"
    by (cases "filter (\<lambda>i. schedule_phase_of i = SHARED_HOME) items = []")
       (simp_all add: plan_of_items_def Let_def del: filter_empty_conv)
  ultimately show ?thesis by (metis mset_append add.assoc)
qed

lemma plan_scenarios_Inr:
  assumes "plan_scenarios sub requested registry = Inr steps"
  obtains s0 sel where "substrate_of sub = Some s0" "select_scenarios sub requested registry = Inr sel"
    "steps = plan_of_items (work_items sel s0)"
proof -
  from assms obtain sel where sel: "select_scenarios sub requested registry = Inr sel"
    and steps: "steps = plan_of_items (work_items sel (the (substrate_of sub)))"
    by (auto simp: plan_scenarios_def rbind_eq_Inr)
  from sel obtain s0 where "substrate_of sub = Some s0" by (rule select_scenarios_Inr)
  then show thesis using that sel steps by simp
qed

lemma works_of_plan:
  assumes "plan_scenarios sub requested registry = Inr steps" and "substrate_of sub = Some s0"
  shows "distinct (works steps)"
    and "set (works steps) =
      {i. wi_scenario i \<in> set registry \<and> is_selected requested s0 (wi_scenario i) \<and>
          wi_substrate i \<in> sc_substrates (wi_scenario i) \<inter> concrete_substrates s0}"
proof -
  from assms obtain sel where sel: "select_scenarios sub requested registry = Inr sel"
    and steps: "steps = plan_of_items (work_items sel s0)"
    by (metis plan_scenarios_Inr option.inject)
  from sel assms(2) have set: "set sel = {s \<in> set registry. is_selected requested s0 s}"
    and dist: "distinct sel"
    by (metis select_scenarios_Inr option.inject)+
  have m: "mset (works steps) = mset (work_items sel s0)"
    using mset_plan_of_items steps by simp
  then show "distinct (works steps)"
    using distinct_work_items [OF dist] by (metis mset_eq_imp_distinct_iff)
  show "set (works steps) =
      {i. wi_scenario i \<in> set registry \<and> is_selected requested s0 (wi_scenario i) \<and>
          wi_substrate i \<in> sc_substrates (wi_scenario i) \<inter> concrete_substrates s0}"
    using mset_eq_setD [OF m] by (auto simp: set_work_items set)
qed

text \<open>C9. A plan runs exactly the selected work, each item once: the work items of a plan are
  without repetition the pairs of a requested (or, with no request, any) registered
  scenario and a concrete substrate of the selector that the scenario supports.\<close>

theorem plan_runs_each_selected_item_once:
  assumes "plan_scenarios sub requested registry = Inr steps"
  shows "\<exists>s0. substrate_of sub = Some s0 \<and> distinct (works steps) \<and>
    set (works steps) =
      {i. wi_scenario i \<in> set registry \<and>
          (requested \<noteq> [] \<longrightarrow> sc_name (wi_scenario i) \<in> set requested) \<and>
          wi_substrate i \<in> sc_substrates (wi_scenario i) \<inter> concrete_substrates s0}"
proof -
  from assms obtain s0 where s0: "substrate_of sub = Some s0" by (rule plan_scenarios_Inr)
  then show ?thesis
    using works_of_plan [OF assms s0] by (auto simp: is_selected_def runs_on_def)
qed

theorem plan_runs_each_selected_item_once_witness:
  "plan_scenarios ''ssh'' [''ssh-shared-home''] SCENARIO_CATALOG =
     Inr [SshHomeTransition SHARED, Work \<lparr> wi_scenario = SCENARIO_CATALOG ! 10, wi_substrate = SSH \<rparr>,
          SshHomeTransition SEPARATE] \<and>
   (\<exists>s0. substrate_of ''ssh'' = Some s0 \<and>
      {\<lparr> wi_scenario = SCENARIO_CATALOG ! 10, wi_substrate = SSH \<rparr>} =
      {i. wi_scenario i \<in> set SCENARIO_CATALOG \<and> sc_name (wi_scenario i) = ''ssh-shared-home'' \<and>
          wi_substrate i \<in> sc_substrates (wi_scenario i) \<inter> concrete_substrates s0})"
proof -
  have plan: "plan_scenarios ''ssh'' [''ssh-shared-home''] SCENARIO_CATALOG =
     Inr [SshHomeTransition SHARED, Work \<lparr> wi_scenario = SCENARIO_CATALOG ! 10, wi_substrate = SSH \<rparr>,
          SshHomeTransition SEPARATE]"
    by code_simp
  show ?thesis using plan plan_runs_each_selected_item_once [OF plan] by simp
qed

subsection \<open>The SSH home mode along a plan\<close>

text \<open>
  What one step may do in a home mode: an SSH item runs in the mode its scenario
  declares, every other item runs while the homes are separate, and a transition
  changes the mode.
\<close>

inductive home_step :: "ssh_home_mode \<Rightarrow> plan_step \<Rightarrow> ssh_home_mode \<Rightarrow> bool" where
  run_ssh: "wi_substrate i = SSH \<Longrightarrow> sc_ssh_home_mode (wi_scenario i) = Some m \<Longrightarrow>
    home_step m (Work i) m"
| run_other: "wi_substrate i \<noteq> SSH \<Longrightarrow> home_step SEPARATE (Work i) SEPARATE"
| switch_home: "m \<noteq> m' \<Longrightarrow> home_step m (SshHomeTransition m') m'"

inductive home_run :: "ssh_home_mode \<Rightarrow> plan_step list \<Rightarrow> ssh_home_mode \<Rightarrow> bool" where
  home_done: "home_run m [] m"
| home_more: "home_step m s m' \<Longrightarrow> home_run m' ss m'' \<Longrightarrow> home_run m (s # ss) m''"

inductive_simps home_step_simps: "home_step m (Work i) m'" "home_step m (SshHomeTransition n) m'"
inductive_simps home_run_simps: "home_run m [] m'" "home_run m (s # ss) m'"

lemma home_run_append:
  "home_run m ss m' \<Longrightarrow> home_run m' ts m'' \<Longrightarrow> home_run m (ss @ ts) m''"
  by (induction rule: home_run.induct) (auto intro: home_run.intros)

lemma home_run_works:
  "(\<And>i. i \<in> set items \<Longrightarrow> home_step m (Work i) m) \<Longrightarrow> home_run m (map Work items) m"
  by (induction items) (auto intro: home_run.intros)

definition transitions :: "plan_step list \<Rightarrow> ssh_home_mode list" where
  "transitions steps = List.map_filter (\<lambda>s. case s of SshHomeTransition m \<Rightarrow> Some m | _ \<Rightarrow> None) steps"

lemma transitions_simps [simp]:
  "transitions [] = []" "transitions (Work i # ss) = transitions ss"
  "transitions (SshHomeTransition m # ss) = m # transitions ss"
  by (simp_all add: transitions_def map_filter_simps)

lemma transitions_append [simp]: "transitions (ss @ ts) = transitions ss @ transitions ts"
  by (induction ss rule: works.induct) simp_all

lemma transitions_works [simp]: "transitions (map Work items) = []"
  by (induction items) simp_all

lemma separate_phase_step:
  assumes "valid_scenario (wi_scenario i)" and "wi_substrate i \<in> sc_substrates (wi_scenario i)"
    and "schedule_phase_of i \<noteq> SHARED_HOME"
  shows "home_step SEPARATE (Work i) SEPARATE"
  using valid_ssh [OF assms(1)] assms
  by (cases "wi_substrate i = SSH") (auto simp: home_step_simps schedule_phase_of_def)

lemma shared_phase_step:
  assumes "valid_scenario (wi_scenario i)" and "wi_substrate i \<in> sc_substrates (wi_scenario i)"
    and "schedule_phase_of i = SHARED_HOME"
  shows "home_step SHARED (Work i) SHARED"
  using valid_shared_phase [OF assms(1)] assms
  by (auto simp: home_step_simps schedule_phase_of_def split: if_splits)

lemma plan_of_items_home_run:
  assumes "\<forall>i \<in> set items. valid_scenario (wi_scenario i) \<and>
      wi_substrate i \<in> sc_substrates (wi_scenario i)"
  shows "home_run SEPARATE (plan_of_items items) SEPARATE"
proof -
  let ?in = "\<lambda>p. filter (\<lambda>i. schedule_phase_of i = p) items"
  have sep: "home_run SEPARATE (map Work (?in p)) SEPARATE" if "p \<noteq> SHARED_HOME" for p
    using that assms by (intro home_run_works separate_phase_step) auto
  have "home_run SHARED (map Work (?in SHARED_HOME)) SHARED"
    using assms by (intro home_run_works shared_phase_step) auto
  then have "home_run SHARED (map Work (?in SHARED_HOME) @ [SshHomeTransition SEPARATE]) SEPARATE"
    by (rule home_run_append) (simp add: home_run_simps home_step_simps)
  then have "home_run SEPARATE
      (SshHomeTransition SHARED # map Work (?in SHARED_HOME) @ [SshHomeTransition SEPARATE]) SEPARATE"
    by (rule home_more [rotated]) (simp add: home_step_simps)
  then have mid: "home_run SEPARATE
      (if ?in SHARED_HOME \<noteq> []
       then [SshHomeTransition SHARED] @ map Work (?in SHARED_HOME) @ [SshHomeTransition SEPARATE]
       else []) SEPARATE" (is "home_run _ ?mid _")
    by (simp add: home_done)
  show ?thesis unfolding plan_of_items_def Let_def
    by (intro home_run_append [where m' = SEPARATE] mid sep) simp_all
qed

lemma transitions_plan_of_items:
  "transitions (plan_of_items items) \<in> {[], [SHARED, SEPARATE]}"
  by (simp add: plan_of_items_def Let_def)

lemma planned_home_run:
  assumes "plan_scenarios sub requested registry = Inr steps"
  shows "home_run SEPARATE steps SEPARATE \<and> transitions steps \<in> {[], [SHARED, SEPARATE]}"
proof -
  from assms obtain s0 sel where s0: "substrate_of sub = Some s0"
    and sel: "select_scenarios sub requested registry = Inr sel"
    and steps: "steps = plan_of_items (work_items sel s0)" by (rule plan_scenarios_Inr)
  from sel have "\<forall>s \<in> set sel. valid_scenario s"
    by (auto simp: select_scenarios_iff selectable_def)
  then have "\<forall>i \<in> set (work_items sel s0). valid_scenario (wi_scenario i) \<and>
      wi_substrate i \<in> sc_substrates (wi_scenario i)"
    by (simp add: set_work_items)
  then show ?thesis using plan_of_items_home_run transitions_plan_of_items by (simp add: steps)
qed

text \<open>C3. Home modes are respected: every plan runs from separate worker homes back to
  separate worker homes, with each SSH item in the home mode its scenario declares, no
  Slurm or Kubernetes item while the home is shared, and either no transition at all
  or exactly one into the shared mode and one out of it.\<close>

theorem plan_respects_home_modes:
  assumes "plan_scenarios sub requested registry = Inr steps"
  shows "home_run SEPARATE steps SEPARATE \<and> transitions steps \<in> {[], [SHARED, SEPARATE]}"
  using assms by (rule planned_home_run)

theorem plan_respects_home_modes_witness:
  "\<exists>steps. plan_scenarios ''all'' [''baseline'', ''ssh-shared-home''] SCENARIO_CATALOG = Inr steps \<and>
     home_run SEPARATE steps SEPARATE \<and> transitions steps = [SHARED, SEPARATE]"
proof -
  have "map_sum id transitions
      (plan_scenarios ''all'' [''baseline'', ''ssh-shared-home''] SCENARIO_CATALOG) = Inr [SHARED, SEPARATE]"
    by code_simp
  then obtain steps
    where plan: "plan_scenarios ''all'' [''baseline'', ''ssh-shared-home''] SCENARIO_CATALOG = Inr steps"
    and tr: "transitions steps = [SHARED, SEPARATE]"
    by (cases "plan_scenarios ''all'' [''baseline'', ''ssh-shared-home''] SCENARIO_CATALOG") auto
  show ?thesis using plan tr plan_respects_home_modes [OF plan] by blast
qed

subsection \<open>Sharding and determinism\<close>

lemma substrate_value_inj: "substrate_value a = substrate_value b \<longleftrightarrow> a = b"
  by (cases a; cases b) simp_all

lemma catalog_names_distinct: "distinct (map sc_name SCENARIO_CATALOG)"
  by code_simp

interpretation catalog_key: deterministic_key scenario_key "set SCENARIO_CATALOG"
  by (rule scenario_key_deterministic) (rule catalog_names_distinct)

lemma catalog_indexed: "registry_by_name SCENARIO_CATALOG = Inr (map (\<lambda>s. (sc_name s, s)) SCENARIO_CATALOG)"
proof -
  have "\<forall>s \<in> set SCENARIO_CATALOG. valid_scenario s" by code_simp
  then show ?thesis by (simp only: registry_by_name_Inr catalog_names_distinct)
qed

lemma selectable_perm:
  assumes "mset requested = mset requested'" and "mset registry = mset registry'"
  shows "selectable s0 requested registry = selectable s0 requested' registry'"
proof -
  have "distinct (map sc_name registry) = distinct (map sc_name registry')"
    using assms(2) by (metis mset_map mset_eq_imp_distinct_iff)
  then show ?thesis
    using mset_eq_setD [OF assms(1)] mset_eq_setD [OF assms(2)] mset_eq_imp_distinct_iff [OF assms(1)]
    by (simp add: selectable_def)
qed

lemma is_selected_perm:
  "mset requested = mset requested' \<Longrightarrow> is_selected requested s0 = is_selected requested' s0"
  by (intro ext) (auto simp: is_selected_def dest: mset_eq_setD)

text \<open>Plans are deterministic: a plan depends on which scenarios are requested and
  registered, not on the order in which the request or the registry lists them.\<close>

theorem plan_order_independent:
  assumes "plan_scenarios sub requested registry = Inr steps"
    and "mset requested = mset requested'" and "mset registry = mset registry'"
  shows "plan_scenarios sub requested' registry' = Inr steps"
proof -
  from assms(1) obtain s0 sel where s0: "substrate_of sub = Some s0"
    and sel: "select_scenarios sub requested registry = Inr sel"
    and steps: "steps = plan_of_items (work_items sel s0)" by (rule plan_scenarios_Inr)
  then have ok: "selectable s0 requested registry"
    and sel_eq: "sel = sort_key scenario_key (filter (is_selected requested s0) registry)"
    by (auto simp: select_scenarios_iff)
  have "sel = sort_key scenario_key (filter (is_selected requested' s0) registry')"
    unfolding sel_eq is_selected_perm [OF assms(2)] using ok assms(3)
    by (intro deterministic_key.sort_key_unique [OF scenario_key_deterministic [of registry]])
       (auto simp: selectable_def mset_filter)
  then have "select_scenarios sub requested' registry' = Inr sel"
    using s0 ok selectable_perm [OF assms(2,3)] by (auto simp: select_scenarios_iff)
  then show ?thesis by (simp add: plan_scenarios_def steps s0)
qed

theorem plan_order_independent_witness:
  "\<exists>steps. plan_scenarios ''slurm'' [''baseline'', ''slurm-scheduling''] SCENARIO_CATALOG = Inr steps \<and>
     plan_scenarios ''slurm'' [''slurm-scheduling'', ''baseline''] (rev SCENARIO_CATALOG) = Inr steps"
proof -
  have "isl (plan_scenarios ''slurm'' [''baseline'', ''slurm-scheduling''] SCENARIO_CATALOG) = False"
    by code_simp
  then obtain steps
    where plan: "plan_scenarios ''slurm'' [''baseline'', ''slurm-scheduling''] SCENARIO_CATALOG = Inr steps"
    by (cases "plan_scenarios ''slurm'' [''baseline'', ''slurm-scheduling''] SCENARIO_CATALOG") auto
  show ?thesis
    using plan plan_order_independent [OF plan, of "[''slurm-scheduling'', ''baseline'']"
        "rev SCENARIO_CATALOG"] by simp
qed

lemma select_all_iff:
  "select_scenarios sub [] registry = Inr sel \<longleftrightarrow>
     (\<exists>s0. substrate_of sub = Some s0 \<and> (\<forall>s \<in> set registry. valid_scenario s) \<and>
       distinct (map sc_name registry) \<and> sel = sort_key scenario_key (filter (runs_on s0) registry))"
  by (simp add: select_scenarios_iff selectable_def is_selected_def [abs_def])

lemma substrate_of_value [simp]: "substrate_of (substrate_value s) = Some s"
  by (cases s) (simp_all add: substrate_of_def substrates_def)

definition items_on :: "scenario list \<Rightarrow> substrate \<Rightarrow> work_item set" where
  "items_on registry s0 = {i. wi_scenario i \<in> set registry \<and>
     wi_substrate i \<in> sc_substrates (wi_scenario i) \<inter> concrete_substrates s0}"

lemma works_of_full_plan:
  assumes "plan_scenarios (substrate_value s0) [] registry = Inr steps"
  shows "distinct (works steps) \<and> set (works steps) = items_on registry s0"
  using works_of_plan [OF assms, of s0] by (auto simp: items_on_def is_selected_def runs_on_def)

lemma items_on_shards:
  assumes "\<forall>s \<in> set registry. valid_scenario s"
  shows "items_on registry SUB_ALL = items_on registry SSH \<union> items_on registry SLURM \<union> items_on registry KUBECTL"
    and "items_on registry SSH \<inter> items_on registry SLURM = {}"
    and "(items_on registry SSH \<union> items_on registry SLURM) \<inter> items_on registry KUBECTL = {}"
  by (auto simp: items_on_def concrete_substrates_def)

lemma shard_plans:
  assumes "registry_by_name registry = Inr d"
  shows "\<exists>all ssh slurm kubectl.
    plan_scenarios ''all'' [] registry = Inr all \<and> plan_scenarios ''ssh'' [] registry = Inr ssh \<and>
    plan_scenarios ''slurm'' [] registry = Inr slurm \<and> plan_scenarios ''kubectl'' [] registry = Inr kubectl \<and>
    mset (works all) = mset (works ssh) + mset (works slurm) + mset (works kubectl)"
proof -
  have plan: "\<exists>steps. plan_scenarios (substrate_value s0) [] registry = Inr steps" for s0
    using assms by (simp add: plan_scenarios_def rbind_eq_Inr select_all_iff registry_by_name_Inr)
  obtain all ssh slurm kubectl where p:
    "plan_scenarios (substrate_value SUB_ALL) [] registry = Inr all"
    "plan_scenarios (substrate_value SSH) [] registry = Inr ssh"
    "plan_scenarios (substrate_value SLURM) [] registry = Inr slurm"
    "plan_scenarios (substrate_value KUBECTL) [] registry = Inr kubectl" using plan by metis
  have valid: "\<forall>s \<in> set registry. valid_scenario s" using assms by (simp add: registry_by_name_Inr)
  note w = p [THEN works_of_full_plan]
  have "distinct (works ssh @ works slurm @ works kubectl)"
    using w items_on_shards [OF valid] by auto
  moreover have "set (works all) = set (works ssh @ works slurm @ works kubectl)"
    using w items_on_shards(1) [OF valid] by auto
  ultimately have "mset (works all) = mset (works ssh @ works slurm @ works kubectl)"
    using w(1) set_eq_iff_mset_eq_distinct by blast
  then show ?thesis using p by (auto simp: add.assoc)
qed

text \<open>C10. Sharding loses and repeats nothing: for a registry that can be planned at all, the
  unsharded plan and the plan of every shard exist, and the work items of the unsharded
  plan are, as a multiset, those of the SSH, Slurm and Kubernetes shards together.\<close>

theorem shards_partition_the_plan:
  assumes "registry_by_name registry = Inr d"
  shows "\<exists>all ssh slurm kubectl.
    plan_scenarios ''all'' [] registry = Inr all \<and> plan_scenarios ''ssh'' [] registry = Inr ssh \<and>
    plan_scenarios ''slurm'' [] registry = Inr slurm \<and> plan_scenarios ''kubectl'' [] registry = Inr kubectl \<and>
    mset (works all) = mset (works ssh) + mset (works slurm) + mset (works kubectl)"
  using assms by (rule shard_plans)

theorem shards_partition_the_plan_witness:
  "\<exists>all ssh slurm kubectl. plan_scenarios ''all'' [] SCENARIO_CATALOG = Inr all \<and>
     plan_scenarios ''ssh'' [] SCENARIO_CATALOG = Inr ssh \<and>
     plan_scenarios ''slurm'' [] SCENARIO_CATALOG = Inr slurm \<and>
     plan_scenarios ''kubectl'' [] SCENARIO_CATALOG = Inr kubectl \<and>
     mset (works all) = mset (works ssh) + mset (works slurm) + mset (works kubectl)"
  by (rule shards_partition_the_plan [OF catalog_indexed])

end
