(* ===== verification/Shards.thy ===== *)
theory Shards
  imports Planner
begin

section \<open>Shard manifests of the integration workflow (integration-tests/lib/shard\_manifest.py)\<close>

text \<open>
  One run of the integration tests is split over shards, one per architecture and
  substrate. A recorder notes each finished work item, \<open>write_manifest\<close> turns the notes
  into a manifest, and \<open>verify_manifests\<close> decides whether a set of manifests is one
  complete and successful run. A manifest's text fields and work lists are \<open>None\<close> when the
  JSON object lacks them. The boot id and the elapsed seconds of an item come from the
  machine and are arguments.
\<close>

subsection \<open>Data\<close>

definition MANIFEST_SCHEMA :: int where "MANIFEST_SCHEMA = 1"

definition SHARD_SUBSTRATES :: "string list" where
  "SHARD_SUBSTRATES = map substrate_value (filter (\<lambda>s. s \<noteq> SUB_ALL) substrates)"

record item_note =
  in_work_item :: string
  in_outcome :: string
  in_seconds :: string

record work_item_recorder =
  r_planned :: "string list"
  r_items :: "item_note list"

record timing =
  t_step :: string
  t_seconds :: int
  t_exit_code :: int

record shard =
  sh_schema :: pyval
  sh_source_sha :: "string option"
  sh_architecture :: "string option"
  sh_backend :: "string option"
  sh_substrate :: "string option"
  sh_boot_id :: "string option"
  sh_exit_code :: pyval
  sh_planned :: "string list option"
  sh_completed :: "string list option"
  sh_timings :: "timing list"

subsection \<open>Planned and recorded work\<close>

definition label :: "work_item \<Rightarrow> string" where
  "label i = sc_name (wi_scenario i) @ ''/'' @ substrate_value (wi_substrate i)"

definition planned_work :: "string \<Rightarrow> string list result" where
  "planned_work substrate =
     rbind (plan_scenarios substrate [] SCENARIO_CATALOG) (\<lambda>plan. Inr (map label (works plan)))"

definition new_recorder :: "work_item list \<Rightarrow> work_item_recorder" where
  "new_recorder planned = \<lparr> r_planned = map label planned, r_items = [] \<rparr>"

definition record_item :: "work_item \<Rightarrow> string \<Rightarrow> string \<Rightarrow> work_item_recorder \<Rightarrow> work_item_recorder" where
  "record_item item outcome seconds r =
     r \<lparr> r_items := r_items r @
       [\<lparr> in_work_item = label item, in_outcome = outcome, in_seconds = seconds \<rparr>] \<rparr>"

text \<open>The argument is the text of the timings file, \<open>None\<close> when there is no such file.\<close>

definition read_timing :: "string \<Rightarrow> timing result" where
  "read_timing line = (case split_on TAB line of
     [step, seconds, exit_code] \<Rightarrow>
       rbind (py_int seconds) (\<lambda>n. rbind (py_int exit_code) (\<lambda>e.
       Inr \<lparr> t_step = step, t_seconds = n, t_exit_code = e \<rparr>))
   | _ \<Rightarrow> Inl (ValueError ''unpack''))"

definition read_timings :: "string option \<Rightarrow> timing list result" where
  "read_timings text = (case text of None \<Rightarrow> Inr [] | Some t \<Rightarrow> traverse read_timing (splitlines t))"

definition completed_work :: "work_item_recorder option \<Rightarrow> string list" where
  "completed_work notes = (case notes of None \<Rightarrow> []
   | Some r \<Rightarrow> map in_work_item (filter (\<lambda>n. in_outcome n = ''passed'') (r_items r)))"

record shard_arguments =
  a_source_sha :: string
  a_architecture :: string
  a_backend :: string
  a_substrate :: string
  a_exit_code :: int
  a_timings :: "string option"
  a_work_items :: "work_item_recorder option"

definition write_manifest :: "string \<Rightarrow> shard_arguments \<Rightarrow> shard result" where
  "write_manifest boot_id a =
     rbind (planned_work (a_substrate a)) (\<lambda>planned.
     rbind (read_timings (a_timings a)) (\<lambda>timings.
     Inr \<lparr> sh_schema = PInt MANIFEST_SCHEMA, sh_source_sha = Some (a_source_sha a),
           sh_architecture = Some (a_architecture a), sh_backend = Some (a_backend a),
           sh_substrate = Some (a_substrate a), sh_boot_id = Some boot_id,
           sh_exit_code = PInt (a_exit_code a), sh_planned = Some planned,
           sh_completed = Some (completed_work (a_work_items a)), sh_timings = timings \<rparr>))"

subsection \<open>Verification\<close>

text \<open>\<^verbatim>\<open>str(shard.get(...))\<close> and \<^verbatim>\<open>shard.get(...) or []\<close>\<close>

definition text_of :: "string option \<Rightarrow> string" where
  "text_of v = (case v of None \<Rightarrow> ''None'' | Some s \<Rightarrow> s)"

definition list_of :: "string list option \<Rightarrow> string list" where
  "list_of v = (case v of None \<Rightarrow> [] | Some xs \<Rightarrow> xs)"

definition shard_errors :: "shard \<Rightarrow> string \<Rightarrow> string \<Rightarrow> string list result" where
  "shard_errors sh expected_sha backend =
     rbind (planned_work (text_of (sh_substrate sh))) (\<lambda>plan.
     let name = text_of (sh_architecture sh) @ ''/'' @ text_of (sh_substrate sh) in
     Inr
       ((if \<not> eq_int (sh_schema sh) MANIFEST_SCHEMA then [name @ '': unknown manifest schema''] else []) @
        (if sh_source_sha sh \<noteq> Some expected_sha
         then [name @ '': tested '' @ text_of (sh_source_sha sh) @ '', not '' @ expected_sha] else []) @
        (if sh_backend sh \<noteq> Some backend
         then [name @ '': used backend '' @ text_of (sh_backend sh) @ '', not '' @ backend] else []) @
        (if \<not> eq_int (sh_exit_code sh) 0
         then [name @ '': lifecycle exit code '' @ py_str (sh_exit_code sh)] else []) @
        (if sh_planned sh \<noteq> Some plan
         then [name @ '': planned work differs from the scenario catalog''] else []) @
        (if mset (list_of (sh_completed sh)) \<noteq> mset (list_of (sh_planned sh))
         then [name @ '': completed work differs from planned work''] else [])))"

definition shard_identity :: "shard \<Rightarrow> string option \<times> string option" where
  "shard_identity sh = (sh_architecture sh, sh_substrate sh)"

definition expected_shards :: "string list \<Rightarrow> (string \<times> string) list" where
  "expected_shards architectures =
     sort (remdups (concat (map (\<lambda>arch. map (\<lambda>sub. (arch, sub)) SHARD_SUBSTRATES) architectures)))"

definition repr_option :: "string option \<Rightarrow> string" where
  "repr_option v = (case v of None \<Rightarrow> ''None'' | Some s \<Rightarrow> repr_str s)"

definition repr_identity :: "string option \<times> string option \<Rightarrow> string" where
  "repr_identity k = ''('' @ repr_option (fst k) @ '', '' @ repr_option (snd k) @ '')''"

definition some_pair :: "string \<times> string \<Rightarrow> string option \<times> string option" where
  "some_pair k = (Some (fst k), Some (snd k))"

definition covered_work :: "shard list \<Rightarrow> string \<Rightarrow> string multiset" where
  "covered_work shards architecture =
     \<Sum>\<^sub># (mset (map (\<lambda>sh. mset (list_of (sh_completed sh)))
       (filter (\<lambda>sh. sh_architecture sh = Some architecture) shards)))"

text \<open>The messages about unexpected manifests come from iterating over a set; their order here
  is the order of the shards.\<close>

definition verify_manifests ::
    "shard list \<Rightarrow> string \<Rightarrow> string \<Rightarrow> string list \<Rightarrow> string list result" where
  "verify_manifests shards expected_sha backend architectures =
     (let expected = expected_shards architectures;
          keys = map shard_identity shards;
          identities = rev (remdups (rev keys));
          duplicates = map (\<lambda>k. ''duplicate manifest: '' @ repr_identity k)
                         (filter (\<lambda>k. count_list keys k > 1) identities);
          missing = map (\<lambda>k. ''missing manifest: '' @ repr_identity (some_pair k))
                      (filter (\<lambda>k. some_pair k \<notin> set keys) expected);
          unexpected = map (\<lambda>k. ''unexpected manifest: '' @ repr_identity k)
                         (filter (\<lambda>k. k \<notin> some_pair ` set expected) identities)
      in rbind (traverse (\<lambda>sh. shard_errors sh expected_sha backend) shards) (\<lambda>per_shard.
         rbind (planned_work ''all'') (\<lambda>full_plan.
         Inr (duplicates @ missing @ unexpected @ concat per_shard @
           map (\<lambda>a. a @ '': shards do not cover the full plan once'')
             (filter (\<lambda>a. covered_work shards a \<noteq> mset full_plan) (sort (remdups (map fst expected))))))))"

subsection \<open>When a set of manifests is accepted\<close>

lemma planned_work_shards:
  obtains full ssh slurm kubectl where
    "planned_work ''all'' = Inr full" "planned_work ''ssh'' = Inr ssh"
    "planned_work ''slurm'' = Inr slurm" "planned_work ''kubectl'' = Inr kubectl"
    "mset full = mset ssh + mset slurm + mset kubectl"
proof -
  obtain all ssh slurm kubectl where p:
    "plan_scenarios ''all'' [] SCENARIO_CATALOG = Inr all" "plan_scenarios ''ssh'' [] SCENARIO_CATALOG = Inr ssh"
    "plan_scenarios ''slurm'' [] SCENARIO_CATALOG = Inr slurm"
    "plan_scenarios ''kubectl'' [] SCENARIO_CATALOG = Inr kubectl"
    "mset (works all) = mset (works ssh) + mset (works slurm) + mset (works kubectl)"
    using shard_plans [OF catalog_indexed] by blast
  have "mset (map label (works all)) = mset (map label (works ssh)) + mset (map label (works slurm)) +
      mset (map label (works kubectl))"
    using p(5) by simp
  then show thesis using that p by (simp add: planned_work_def)
qed

definition shard_ok :: "string \<Rightarrow> string \<Rightarrow> shard \<Rightarrow> bool" where
  "shard_ok expected_sha backend sh \<longleftrightarrow>
     eq_int (sh_schema sh) MANIFEST_SCHEMA \<and> sh_source_sha sh = Some expected_sha \<and>
     sh_backend sh = Some backend \<and> eq_int (sh_exit_code sh) 0 \<and>
     (case planned_work (text_of (sh_substrate sh)) of
        Inl _ \<Rightarrow> False
      | Inr plan \<Rightarrow> sh_planned sh = Some plan \<and> mset (list_of (sh_completed sh)) = mset plan)"

lemma shard_errors_Nil: "shard_errors sh sha backend = Inr [] \<longleftrightarrow> shard_ok sha backend sh"
  by (auto simp: shard_errors_def shard_ok_def rbind_eq_Inr Let_def list_of_def split: sum.splits)

lemma SHARD_SUBSTRATES_eq: "SHARD_SUBSTRATES = [''ssh'', ''slurm'', ''kubectl'']"
  by (simp add: SHARD_SUBSTRATES_def substrates_def)

lemma set_expected_shards: "set (expected_shards archs) = set archs \<times> set SHARD_SUBSTRATES"
  by (auto simp: expected_shards_def)

lemma distinct_expected_shards: "distinct (expected_shards archs)"
  by (simp add: expected_shards_def)

lemma some_pair_inj: "inj some_pair"
  by (auto simp: inj_on_def some_pair_def)

lemma traverse_concat_Nil:
  "(\<exists>yss. traverse f xs = Inr yss \<and> concat yss = []) \<longleftrightarrow> list_all (\<lambda>x. f x = Inr []) xs"
proof (induction xs)
  case (Cons x xs)
  have "(\<exists>yss. traverse f (x # xs) = Inr yss \<and> concat yss = []) \<longleftrightarrow>
      f x = Inr [] \<and> (\<exists>yss. traverse f xs = Inr yss \<and> concat yss = [])"
    by (auto simp: rbind_eq_Inr)
  then show ?case by (simp only: Cons.IH list.pred_inject)
qed simp

lemma identities_exact:
  "(filter (\<lambda>k. count_list keys k > 1) (rev (remdups (rev keys))) = [] \<and>
    filter (\<lambda>k. some_pair k \<notin> set keys) expected = [] \<and>
    filter (\<lambda>k. k \<notin> some_pair ` set expected) (rev (remdups (rev keys))) = []) \<longleftrightarrow>
   mset keys = mset_set (some_pair ` set expected)"
proof
  assume l: "filter (\<lambda>k. count_list keys k > 1) (rev (remdups (rev keys))) = [] \<and>
    filter (\<lambda>k. some_pair k \<notin> set keys) expected = [] \<and>
    filter (\<lambda>k. k \<notin> some_pair ` set expected) (rev (remdups (rev keys))) = []"
  then have "distinct keys" by (simp add: count_list_distinct filter_empty_conv not_less)
  moreover have "set keys = some_pair ` set expected" using l by (auto simp: filter_empty_conv)
  ultimately show "mset keys = mset_set (some_pair ` set expected)" by (metis mset_set_set)
next
  assume r: "mset keys = mset_set (some_pair ` set expected)"
  then have s: "set keys = some_pair ` set expected"
    by (metis List.finite_set finite_imageI finite_set_mset_mset_set set_mset_mset)
  then have "distinct keys" using r by (simp add: distinct_count_atmost_1)
  then show "filter (\<lambda>k. count_list keys k > 1) (rev (remdups (rev keys))) = [] \<and>
    filter (\<lambda>k. some_pair k \<notin> set keys) expected = [] \<and>
    filter (\<lambda>k. k \<notin> some_pair ` set expected) (rev (remdups (rev keys))) = []"
    using s by (auto simp: filter_empty_conv count_list_distinct not_less)
qed

text \<open>The last loop of the verification adds nothing: matching shards cover the full plan.\<close>

definition planned_mset :: "string option \<Rightarrow> string multiset" where
  "planned_mset sub = (case planned_work (text_of sub) of Inl _ \<Rightarrow> {#} | Inr plan \<Rightarrow> mset plan)"

lemma shard_ok_completed: "shard_ok sha backend sh \<Longrightarrow> mset (list_of (sh_completed sh)) = planned_mset (sh_substrate sh)"
  by (auto simp: shard_ok_def planned_mset_def split: sum.splits)

lemma covered_work_identities:
  assumes "list_all (shard_ok sha backend) shards"
  shows "covered_work shards a =
    \<Sum>\<^sub># (image_mset (planned_mset \<circ> snd) (filter_mset (\<lambda>k. fst k = Some a) (mset (map shard_identity shards))))"
  using assms
  by (induction shards) (auto simp: covered_work_def shard_identity_def shard_ok_completed)

lemma covered_work_full:
  assumes ok: "list_all (shard_ok sha backend) shards" and a: "a \<in> set archs"
    and ids: "mset (map shard_identity shards) = mset_set (some_pair ` set (expected_shards archs))"
    and full: "planned_work ''all'' = Inr full"
  shows "covered_work shards a = mset full"
proof -
  have "{k \<in> some_pair ` set (expected_shards archs). fst k = Some a} =
      {(Some a, Some ''ssh''), (Some a, Some ''slurm''), (Some a, Some ''kubectl'')}"
    using a by (auto simp: set_expected_shards SHARD_SUBSTRATES_eq some_pair_def image_iff)
  then have "filter_mset (\<lambda>k. fst k = Some a) (mset (map shard_identity shards)) =
      mset_set {(Some a, Some ''ssh''), (Some a, Some ''slurm''), (Some a, Some ''kubectl'')}"
    unfolding ids by (simp only: filter_mset_mset_set [OF finite_imageI [OF List.finite_set]])
  also have "\<dots> = {#(Some a, Some ''ssh''), (Some a, Some ''slurm''), (Some a, Some ''kubectl'')#}" by simp
  finally have "covered_work shards a =
      planned_mset (Some ''ssh'') + planned_mset (Some ''slurm'') + planned_mset (Some ''kubectl'')"
    by (simp add: covered_work_identities [OF ok])
  also have "\<dots> = mset full"
  proof (rule planned_work_shards)
    fix all ssh slurm kubectl
    assume "planned_work ''all'' = Inr all" "planned_work ''ssh'' = Inr ssh"
      "planned_work ''slurm'' = Inr slurm" "planned_work ''kubectl'' = Inr kubectl"
      "mset all = mset ssh + mset slurm + mset kubectl"
    then show ?thesis using full by (simp add: planned_mset_def text_of_def)
  qed
  finally show ?thesis .
qed

lemma verify_manifests_Nil:
  "verify_manifests shards expected_sha backend architectures = Inr [] \<longleftrightarrow>
     mset (map shard_identity shards) = mset_set (some_pair ` (set architectures \<times> {''ssh'', ''slurm'', ''kubectl''})) \<and>
     list_all (shard_ok expected_sha backend) shards"
proof -
  obtain full where full: "planned_work ''all'' = Inr full" by (rule planned_work_shards)
  let ?exp = "expected_shards architectures"
  let ?keys = "map shard_identity shards"
  have cov: "filter (\<lambda>a. covered_work shards a \<noteq> mset full) (sort (remdups (map fst ?exp))) = []"
    if "mset ?keys = mset_set (some_pair ` set ?exp)" "list_all (shard_ok expected_sha backend) shards"
    using covered_work_full [OF that(2) _ that(1) full] by (auto simp: filter_empty_conv set_expected_shards)
  have "verify_manifests shards expected_sha backend architectures = Inr [] \<longleftrightarrow>
      mset ?keys = mset_set (some_pair ` set ?exp) \<and>
      (\<exists>ess. traverse (\<lambda>sh. shard_errors sh expected_sha backend) shards = Inr ess \<and> concat ess = []) \<and>
      filter (\<lambda>a. covered_work shards a \<noteq> mset full) (sort (remdups (map fst ?exp))) = []"
    unfolding verify_manifests_def Let_def rbind_eq_Inr full identities_exact [symmetric]
    by (simp only: sum.inject append_is_Nil_conv map_is_Nil_conv ex_simps simp_thms) blast
  then show ?thesis
    unfolding traverse_concat_Nil shard_errors_Nil using cov
    by (auto simp: set_expected_shards SHARD_SUBSTRATES_eq)
qed

text \<open>C5. A set of manifests is accepted exactly when it is one complete and successful run:
  the manifests are, each once, those of the required architectures on every
  concrete substrate, and each names the right commit and backend, exited with 0,
  planned what the catalog plans for its substrate and completed exactly that work.
  (The final coverage check of the full plan follows from the rest.)\<close>

theorem verify_manifests_accepts_iff:
  "verify_manifests shards expected_sha backend architectures = Inr [] \<longleftrightarrow>
     mset (map shard_identity shards) = mset_set (some_pair ` (set architectures \<times> {''ssh'', ''slurm'', ''kubectl''})) \<and>
     list_all (shard_ok expected_sha backend) shards"
  by (rule verify_manifests_Nil)

subsection \<open>A run that passes is accepted\<close>

text \<open>The manifest of a shard whose planned items all pass, in order.\<close>

definition passing_notes :: "string \<Rightarrow> work_item list \<Rightarrow> work_item_recorder" where
  "passing_notes seconds items = fold (\<lambda>i. record_item i ''passed'' seconds) items (new_recorder items)"

definition passing_shard :: "string \<Rightarrow> string \<Rightarrow> string \<Rightarrow> string \<Rightarrow> string \<times> string \<Rightarrow> shard result" where
  "passing_shard boot_id seconds sha backend k =
     rbind (plan_scenarios (snd k) [] SCENARIO_CATALOG) (\<lambda>plan.
     write_manifest boot_id
       \<lparr> a_source_sha = sha, a_architecture = fst k, a_backend = backend, a_substrate = snd k,
         a_exit_code = 0, a_timings = None, a_work_items = Some (passing_notes seconds (works plan)) \<rparr>)"

lemma completed_passing_notes: "completed_work (Some (passing_notes seconds items)) = map label items"
proof -
  have "map in_work_item (filter (\<lambda>n. in_outcome n = ''passed'')
      (r_items (fold (\<lambda>i. record_item i ''passed'' seconds) items r))) =
      map in_work_item (filter (\<lambda>n. in_outcome n = ''passed'') (r_items r)) @ map label items" for r
    by (induction items arbitrary: r) (simp_all add: record_item_def)
  then show ?thesis by (simp add: completed_work_def passing_notes_def new_recorder_def)
qed

lemma shard_plan_exists: "sub \<in> set SHARD_SUBSTRATES \<Longrightarrow> \<exists>plan. plan_scenarios sub [] SCENARIO_CATALOG = Inr plan"
  using shard_plans [OF catalog_indexed] by (auto simp: SHARD_SUBSTRATES_eq)

lemma passing_shard_ok:
  assumes "snd k \<in> set SHARD_SUBSTRATES"
  shows "\<exists>sh. passing_shard boot secs sha backend k = Inr sh \<and> shard_identity sh = some_pair k \<and>
    shard_ok sha backend sh"
proof -
  obtain plan where plan: "plan_scenarios (snd k) [] SCENARIO_CATALOG = Inr plan"
    using shard_plan_exists [OF assms] by blast
  then show ?thesis
    by (simp add: passing_shard_def write_manifest_def planned_work_def read_timings_def
        shard_identity_def some_pair_def shard_ok_def text_of_def list_of_def completed_passing_notes)
qed

lemma traverse_passing:
  assumes "\<forall>k \<in> set ks. snd k \<in> set SHARD_SUBSTRATES"
  shows "\<exists>shs. traverse (passing_shard boot secs sha backend) ks = Inr shs \<and>
    map shard_identity shs = map some_pair ks \<and> list_all (shard_ok sha backend) shs"
  using assms
proof (induction ks)
  case (Cons k ks)
  then obtain shs where "traverse (passing_shard boot secs sha backend) ks = Inr shs"
    "map shard_identity shs = map some_pair ks" "list_all (shard_ok sha backend) shs" by auto
  moreover obtain sh where "passing_shard boot secs sha backend k = Inr sh" "shard_identity sh = some_pair k"
    "shard_ok sha backend sh" using passing_shard_ok Cons.prems by (metis list.set_intros(1))
  ultimately show ?case by simp
qed simp

text \<open>A run in which every planned item passes is accepted: for whatever architectures, the
  shards write manifests, and the verification of these manifests reports no error.\<close>

theorem passing_run_accepted:
  "\<exists>shards. traverse (passing_shard boot_id seconds sha backend) (expected_shards architectures) = Inr shards \<and>
     verify_manifests shards sha backend architectures = Inr []"
proof -
  obtain shards where sh: "traverse (passing_shard boot_id seconds sha backend) (expected_shards architectures) = Inr shards"
    and ids: "map shard_identity shards = map some_pair (expected_shards architectures)"
    and ok: "list_all (shard_ok sha backend) shards"
    using traverse_passing [of "expected_shards architectures"] set_expected_shards by fastforce
  have "mset (map shard_identity shards) = mset_set (some_pair ` set (expected_shards architectures))"
    unfolding ids using distinct_expected_shards some_pair_inj
    by (metis mset_set_set distinct_map inj_on_subset subset_UNIV list.set_map)
  then show ?thesis using sh ok
    by (auto simp: verify_manifests_Nil set_expected_shards SHARD_SUBSTRATES_eq)
qed

end
