(* ===== verification/Bins.thy ===== *)
theory Bins
  imports PyValues
begin

section \<open>Balanced node groups (utils/slurm/group\_into\_bins.py)\<close>

text \<open>
  Nodes with a bandwidth weight are dealt to bins in snake order, and then single nodes
  are swapped between the heaviest and the lightest bin as long as a swap brings their
  sums closer. The swap loop has no bound in the source; \<open>improve\<close> is its transcription
  as a partial function, and the theorems show that it returns, because every
  swap lowers the sum of the squared bin sums.

  A node is a name with its Gbps. \<open>compute_target\<close> rounds the exact quotient half to
  even, which is what Python's \<^verbatim>\<open>round(total / n)\<close> gives for totals below \<open>2^52\<close>, where the
  quotient's double is never a tie unless the exact quotient is one.
\<close>

type_synonym node = "string \<times> int"

subsection \<open>The operations\<close>

definition bin_sum :: "node list \<Rightarrow> int" where
  "bin_sum b = sum_list (map snd b)"

definition snake_index :: "nat \<Rightarrow> nat \<Rightarrow> nat" where
  "snake_index n_bins i =
     (let cycle = i div n_bins; pos = i mod n_bins
      in if cycle mod 2 = 0 then pos else n_bins - 1 - pos)"

fun deal :: "nat \<Rightarrow> nat \<Rightarrow> node list \<Rightarrow> node list list \<Rightarrow> node list list" where
  "deal n_bins i [] bins = bins"
| "deal n_bins i (node # nodes) bins =
     deal n_bins (Suc i) nodes
       (let k = snake_index n_bins i in bins[k := bins ! k @ [node]])"

definition build_snake_bins :: "node list \<Rightarrow> nat \<Rightarrow> node list list" where
  "build_snake_bins sorted_nodes n_bins = deal n_bins 0 sorted_nodes (replicate n_bins [])"

text \<open>The gain of one candidate swap, and the scan that keeps the first best one.\<close>

definition swap_gain :: "node \<Rightarrow> node \<Rightarrow> int \<Rightarrow> int \<Rightarrow> int" where
  "swap_gain node_a node_b sum_a sum_b =
     (let delta = snd node_a - snd node_b;
          new_max = sum_a - delta;
          new_min = sum_b + delta;
          old_range = sum_a - sum_b;
          new_range = \<bar>new_max - new_min\<bar>
      in old_range - new_range)"

type_synonym best = "int \<times> (nat \<times> nat) option"

definition better :: "int \<Rightarrow> nat \<times> nat \<Rightarrow> best \<Rightarrow> best" where
  "better gain pair best = (if gain > fst best then (gain, Some pair) else best)"

definition find_best_swap :: "node list \<Rightarrow> node list \<Rightarrow> int \<Rightarrow> int \<Rightarrow> (nat \<times> nat) option" where
  "find_best_swap bin_a bin_b sum_a sum_b =
     snd (fold (\<lambda>(ai, bi). better (swap_gain (bin_a ! ai) (bin_b ! bi) sum_a sum_b) (ai, bi))
           (List.product [0..<length bin_a] [0..<length bin_b]) (0, None))"

text \<open>\<^verbatim>\<open>max(xs, key=f)\<close> and \<^verbatim>\<open>min(xs, key=f)\<close>: the first extremal element of a non-empty list.\<close>

definition first_max :: "('a \<Rightarrow> int) \<Rightarrow> 'a list \<Rightarrow> 'a" where
  "first_max f xs = foldl (\<lambda>m x. if f x > f m then x else m) (hd xs) (tl xs)"

definition first_min :: "('a \<Rightarrow> int) \<Rightarrow> 'a list \<Rightarrow> 'a" where
  "first_min f xs = foldl (\<lambda>m x. if f x < f m then x else m) (hd xs) (tl xs)"

definition swap_nodes :: "node list list \<Rightarrow> nat \<Rightarrow> nat \<Rightarrow> nat \<Rightarrow> nat \<Rightarrow> node list list" where
  "swap_nodes bins i ai j bi =
     (let a = bins ! i ! ai; b = bins ! j ! bi;
          bins' = bins[i := (bins ! i)[ai := b]]
      in bins'[j := (bins' ! j)[bi := a]])"

definition heaviest :: "nat list \<Rightarrow> node list list \<Rightarrow> nat" where
  "heaviest full_bins bins = first_max (\<lambda>i. bin_sum (bins ! i)) full_bins"

definition lightest :: "nat list \<Rightarrow> node list list \<Rightarrow> nat" where
  "lightest full_bins bins = first_min (\<lambda>i. bin_sum (bins ! i)) full_bins"

text \<open>One turn of the loop: \<open>None\<close> when it stops, the swapped bins otherwise.\<close>

definition improve_step :: "nat list \<Rightarrow> node list list \<Rightarrow> node list list option" where
  "improve_step full_bins bins =
     (let max_idx = heaviest full_bins bins; min_idx = lightest full_bins bins
      in if max_idx = min_idx then None
         else map_option (\<lambda>(ai, bi). swap_nodes bins max_idx ai min_idx bi)
                (find_best_swap (bins ! max_idx) (bins ! min_idx)
                   (bin_sum (bins ! max_idx)) (bin_sum (bins ! min_idx))))"

partial_function (option) improve :: "nat list \<Rightarrow> node list list \<Rightarrow> node list list option" where
  "improve full_bins bins =
     (case improve_step full_bins bins of None \<Rightarrow> Some bins | Some bins' \<Rightarrow> improve full_bins bins')"

declare improve.simps [code]

text \<open>The result is \<open>None\<close> if the loop does not end, and otherwise the bins or the exception.\<close>

definition partition_nodes :: "node list \<Rightarrow> int \<Rightarrow> node list list result option" where
  "partition_nodes nodes bin_size =
     (if bin_size = 0 then Some (Inl ZeroDivisionError)
      else let n_bins = (int (length nodes) + bin_size - 1) div bin_size;
               sorted_nodes = sort_key (\<lambda>x. - snd x) nodes;
               full_bins = [0..<nat (if int (length nodes) mod bin_size \<noteq> 0 then n_bins - 1 else n_bins)]
           in if nodes \<noteq> [] \<and> n_bins = 0 then Some (Inl ZeroDivisionError)
              else if nodes \<noteq> [] \<and> n_bins < 0 then Some (Inl IndexError)
              else if full_bins = [] then Some (Inl (ValueError ''max() arg is an empty sequence''))
              else map_option Inr (improve full_bins (build_snake_bins sorted_nodes (nat n_bins))))"

definition round_half_even :: "int \<Rightarrow> int \<Rightarrow> int" where
  "round_half_even p q =
     (let f = p div q; r = 2 * (p mod q)
      in if r < q then f else if r > q then f + 1 else if even f then f else f + 1)"

definition compute_target :: "node list \<Rightarrow> int \<Rightarrow> int result" where
  "compute_target nodes bin_size =
     (if bin_size = 0 \<or> int (length nodes) div bin_size = 0 then Inl ZeroDivisionError
      else let total = sum_list (map snd nodes); n_bins = int (length nodes) div bin_size
           in Inr (if n_bins > 0 then round_half_even total n_bins else round_half_even (- total) (- n_bins)))"

fun place :: "int \<Rightarrow> nat \<Rightarrow> int \<Rightarrow> nat \<Rightarrow> node list list \<Rightarrow> node list list" where
  "place target step cumulative 0 remaining = []"
| "place target step cumulative (Suc k) remaining =
     (let best = first_min (\<lambda>b. \<bar>cumulative + bin_sum b - target * int step\<bar>) remaining
      in best # place target (Suc step) (cumulative + bin_sum best) k (remove1 best remaining))"

definition reorder_bins_for_smooth_cumulative :: "node list list \<Rightarrow> int \<Rightarrow> node list list" where
  "reorder_bins_for_smooth_cumulative bins target =
     (let has_partial = card (length ` set bins) > 1;
          full_bins = (if has_partial then butlast bins else bins);
          partial = (if has_partial then [last bins] else [])
      in place target 1 0 (length full_bins) full_bins @ partial)"

text \<open>The line of node names \<^verbatim>\<open>main\<close> prints; \<^verbatim>\<open>sys.exit(1)\<close> is \<open>Inr None\<close>.\<close>

definition group_nodes :: "node list \<Rightarrow> int \<Rightarrow> string option result option" where
  "group_nodes nodes bin_size =
     (if int (length nodes) < bin_size then Some (Inr None)
      else map_option (\<lambda>r. rbind r (\<lambda>bins. rbind (compute_target nodes bin_size) (\<lambda>target.
             Inr (Some (join '','' (map fst (concat (reorder_bins_for_smooth_cumulative bins target))))))))
           (partition_nodes nodes bin_size))"

subsection \<open>Dealing\<close>

lemma sum_list_update_int:
  "k < length xs \<Longrightarrow> sum_list (map f (xs[k := x])) = sum_list (map f xs) - f (xs ! k) + (f x :: int)"
  by (induction xs arbitrary: k) (auto split: nat.splits)

lemma mset_concat_update:
  "k < length bs \<Longrightarrow> mset (concat (bs[k := b])) + mset (bs ! k) = mset (concat bs) + mset b"
  by (induction bs arbitrary: k) (auto split: nat.splits)

lemma snake_index_less: "0 < n \<Longrightarrow> snake_index n i < n"
  by (auto simp: snake_index_def Let_def)

lemma length_deal [simp]: "length (deal n i nodes bins) = length bins"
  by (induction n i nodes bins rule: deal.induct) (simp_all add: Let_def)

lemma mset_deal:
  "length bins = n \<Longrightarrow> 0 < n \<Longrightarrow> mset (concat (deal n i nodes bins)) = mset (concat bins) + mset nodes"
proof (induction n i nodes bins rule: deal.induct)
  case (2 n i node nodes bins)
  let ?k = "snake_index n i"
  have "?k < length bins" using 2 by (simp add: snake_index_less)
  then have "mset (concat (bins[?k := bins ! ?k @ [node]])) = mset (concat bins) + {#node#}"
    using mset_concat_update [of ?k bins "bins ! ?k @ [node]"] by simp
  then show ?case using 2 by (simp add: Let_def)
qed simp

text \<open>The number of nodes in bin \<open>k\<close> after dealing \<open>m\<close> nodes.\<close>

definition snake_count :: "nat \<Rightarrow> nat \<Rightarrow> nat \<Rightarrow> nat" where
  "snake_count n m k =
     m div n + of_bool ((if even (m div n) then k else n - 1 - k) < m mod n)"

lemma snake_count_Suc:
  assumes "0 < n" and "k < n"
  shows "snake_count n (Suc m) k = snake_count n m k + of_bool (snake_index n m = k)"
proof (cases "Suc (m mod n) = n")
  case True
  then have "Suc m mod n = 0" "Suc m div n = Suc (m div n)" using assms by (simp_all add: mod_Suc div_Suc)
  then show ?thesis using True assms
    by (auto simp: snake_count_def snake_index_def Let_def even_iff_mod_2_eq_zero)
next
  case False
  then have "Suc m mod n = Suc (m mod n)" "Suc m div n = m div n"
    using assms by (simp_all add: mod_Suc div_Suc)
  moreover have "\<not> n - Suc 0 < m mod n" using mod_less_divisor [of n m] assms by linarith
  ultimately show ?thesis using False assms
    by (auto simp: snake_count_def snake_index_def Let_def even_iff_mod_2_eq_zero)
qed

lemma length_deal_nth:
  assumes "length bins = n" and "0 < n" and "\<forall>k < n. length (bins ! k) = snake_count n i k" and "k < n"
  shows "length (deal n i nodes bins ! k) = snake_count n (i + length nodes) k"
  using assms
proof (induction n i nodes bins rule: deal.induct)
  case (2 n i node nodes bins)
  let ?s = "snake_index n i"
  have "\<forall>k < n. length (bins[?s := bins ! ?s @ [node]] ! k) = snake_count n (Suc i) k"
    using 2 snake_index_less [of n i] by (auto simp: snake_count_Suc nth_list_update)
  then show ?case using 2 by (simp add: Let_def)
qed simp

lemma length_build_snake_bins [simp]: "length (build_snake_bins nodes n) = n"
  by (simp add: build_snake_bins_def)

lemma mset_build_snake_bins: "0 < n \<Longrightarrow> mset (concat (build_snake_bins nodes n)) = mset nodes"
  by (simp add: build_snake_bins_def mset_deal)

lemma length_build_snake_bins_nth:
  "k < n \<Longrightarrow> length (build_snake_bins nodes n ! k) = snake_count n (length nodes) k"
  using length_deal_nth [of "replicate n []" n 0 k nodes]
  by (simp add: build_snake_bins_def snake_count_def)

subsection \<open>Choosing\<close>

lemma foldl_max:
  "foldl (\<lambda>m x. if f x > f m then x else m) m xs \<in> insert m (set xs) \<and>
   (\<forall>y \<in> insert m (set xs). f y \<le> (f (foldl (\<lambda>m x. if f x > f m then x else m) m xs) :: int))"
  by (induction xs arbitrary: m) (auto, (smt (verit))+)

lemma first_max_correct:
  assumes "xs \<noteq> []"
  shows "first_max f xs \<in> set xs" and "y \<in> set xs \<Longrightarrow> f y \<le> f (first_max f xs)"
  using foldl_max [of f "hd xs" "tl xs"] assms by (cases xs; auto simp: first_max_def)+

lemma first_min_max: "first_min f xs = first_max (\<lambda>x. - f x) xs"
  by (simp add: first_min_def first_max_def)

lemma first_min_correct:
  assumes "xs \<noteq> []"
  shows "first_min f xs \<in> set xs" and "y \<in> set xs \<Longrightarrow> f (first_min f xs) \<le> f y"
  using first_max_correct [OF assms, where f = "\<lambda>x. - f x"] by (auto simp: first_min_max)

lemma fold_better:
  assumes "fst st = (case snd st of None \<Rightarrow> 0 | Some p \<Rightarrow> f p)" and "0 \<le> fst st"
    and "snd st \<noteq> None \<Longrightarrow> 0 < fst st"
    and "fold (\<lambda>p. better (f p) p) ps st = st'"
  shows "fst st' = (case snd st' of None \<Rightarrow> 0 | Some p \<Rightarrow> f p) \<and> fst st \<le> fst st' \<and>
    (snd st' \<noteq> None \<longrightarrow> 0 < fst st') \<and> set_option (snd st') \<subseteq> set_option (snd st) \<union> set ps \<and>
    (\<forall>p \<in> set ps. f p \<le> fst st')"
  using assms
proof (induction ps arbitrary: st)
  case (Cons p ps)
  let ?s = "better (f p) p st"
  have s: "fst ?s = (case snd ?s of None \<Rightarrow> 0 | Some p \<Rightarrow> f p)" "0 \<le> fst ?s" "snd ?s \<noteq> None \<Longrightarrow> 0 < fst ?s"
    "fst st \<le> fst ?s" "f p \<le> fst ?s" "set_option (snd ?s) \<subseteq> insert p (set_option (snd st))"
    using Cons.prems(1-3) by (auto simp: better_def split: if_splits)
  have f: "fold (\<lambda>p. better (f p) p) ps ?s = st'" using Cons.prems(4) by simp
  have "fst st' = (case snd st' of None \<Rightarrow> 0 | Some p \<Rightarrow> f p) \<and> fst ?s \<le> fst st' \<and>
    (snd st' \<noteq> None \<longrightarrow> 0 < fst st') \<and> set_option (snd st') \<subseteq> set_option (snd ?s) \<union> set ps \<and>
    (\<forall>p \<in> set ps. f p \<le> fst st')"
    using Cons.IH [OF s(1,2,3) f] by blast
  then show ?case using s(4,5,6) by auto
qed auto

definition pair_gain :: "node list \<Rightarrow> node list \<Rightarrow> nat \<times> nat \<Rightarrow> int" where
  "pair_gain a b p = swap_gain (a ! fst p) (b ! snd p) (bin_sum a) (bin_sum b)"

lemma find_best_swap_fold:
  obtains g where "fst g = (case snd g of None \<Rightarrow> 0 | Some p \<Rightarrow> pair_gain a b p)"
    "snd g \<noteq> None \<Longrightarrow> 0 < fst g"
    "set_option (snd g) \<subseteq> {0..<length a} \<times> {0..<length b}"
    "\<forall>p \<in> {0..<length a} \<times> {0..<length b}. pair_gain a b p \<le> fst g"
    "find_best_swap a b (bin_sum a) (bin_sum b) = snd g"
proof -
  let ?ps = "List.product [0..<length a] [0..<length b]"
  let ?s = "(0, None) :: best"
  define g where "g = fold (\<lambda>p. better (pair_gain a b p) p) ?ps ?s"
  have "(\<lambda>(ai, bi). better (swap_gain (a ! ai) (b ! bi) (bin_sum a) (bin_sum b)) (ai, bi)) =
      (\<lambda>p. better (pair_gain a b p) p)" by (auto simp: pair_gain_def)
  then have found: "find_best_swap a b (bin_sum a) (bin_sum b) = snd g"
    by (simp add: find_best_swap_def g_def)
  have "fst g = (case snd g of None \<Rightarrow> 0 | Some p \<Rightarrow> pair_gain a b p) \<and> fst ?s \<le> fst g \<and>
      (snd g \<noteq> None \<longrightarrow> 0 < fst g) \<and> set_option (snd g) \<subseteq> set_option (snd ?s) \<union> set ?ps \<and>
      (\<forall>p \<in> set ?ps. pair_gain a b p \<le> fst g)"
    by (rule fold_better [OF _ _ _ g_def [symmetric]]) simp_all
  then have "fst g = (case snd g of None \<Rightarrow> 0 | Some p \<Rightarrow> pair_gain a b p)" "snd g \<noteq> None \<Longrightarrow> 0 < fst g"
    "set_option (snd g) \<subseteq> {0..<length a} \<times> {0..<length b}"
    "\<forall>p \<in> {0..<length a} \<times> {0..<length b}. pair_gain a b p \<le> fst g"
    unfolding set_product set_upt option.set snd_conv Un_empty_left by blast+
  then show thesis using found by (rule that)
qed

lemma find_best_swap_Some:
  assumes "find_best_swap a b (bin_sum a) (bin_sum b) = Some (ai, bi)"
  shows "ai < length a" and "bi < length b" and "0 < pair_gain a b (ai, bi)"
  using assms by (rule_tac find_best_swap_fold [of a b]; auto)+

lemma find_best_swap_None:
  assumes "find_best_swap a b (bin_sum a) (bin_sum b) = None" and "ai < length a" and "bi < length b"
  shows "pair_gain a b (ai, bi) \<le> 0"
  using assms by (rule_tac find_best_swap_fold [of a b]) auto

subsection \<open>One swap\<close>

lemma bin_sum_update: "k < length b \<Longrightarrow> bin_sum (b[k := x]) = bin_sum b - snd (b ! k) + snd x"
  unfolding bin_sum_def by (rule sum_list_update_int)

lemma mset_update_swap:
  "k < length b \<Longrightarrow> mset (b[k := x]) + {#b ! k#} = mset b + {#x#}"
  by (simp add: mset_update)

definition energy :: "node list list \<Rightarrow> nat" where
  "energy bins = nat (sum_list (map (\<lambda>b. (bin_sum b)\<^sup>2) bins))"

definition swappable :: "node list list \<Rightarrow> nat \<Rightarrow> nat \<Rightarrow> nat \<Rightarrow> nat \<Rightarrow> bool" where
  "swappable bins i ai j bi \<longleftrightarrow>
     i \<noteq> j \<and> i < length bins \<and> j < length bins \<and> ai < length (bins ! i) \<and> bi < length (bins ! j)"

lemma swap_nodes_eq:
  "swappable bins i ai j bi \<Longrightarrow> swap_nodes bins i ai j bi =
     bins[i := (bins ! i)[ai := bins ! j ! bi], j := (bins ! j)[bi := bins ! i ! ai]]"
  by (simp add: swappable_def swap_nodes_def Let_def)

lemma lengths_swap_nodes:
  assumes "swappable bins i ai j bi"
  shows "map length (swap_nodes bins i ai j bi) = map length bins"
  using assms
  by (intro nth_equalityI) (auto simp: swap_nodes_eq swappable_def nth_list_update)

lemma mset_swap_nodes:
  assumes "swappable bins i ai j bi"
  shows "mset (concat (swap_nodes bins i ai j bi)) = mset (concat bins)"
proof (rule multiset_eqI)
  fix x
  let ?bi = "(bins ! i)[ai := bins ! j ! bi]" and ?bj = "(bins ! j)[bi := bins ! i ! ai]"
  have e: "mset (concat (bins[i := ?bi])) + mset (bins ! i) = mset (concat bins) + mset ?bi"
    "mset (concat (bins[i := ?bi, j := ?bj])) + mset (bins ! j) = mset (concat (bins[i := ?bi])) + mset ?bj"
    using assms mset_concat_update [of i bins ?bi] mset_concat_update [of j "bins[i := ?bi]" ?bj]
    by (simp_all add: swappable_def)
  have f: "mset ?bi + {#bins ! i ! ai#} = mset (bins ! i) + {#bins ! j ! bi#}"
    "mset ?bj + {#bins ! j ! bi#} = mset (bins ! j) + {#bins ! i ! ai#}"
    using assms by (simp_all only: mset_update_swap swappable_def)
  note c = arg_cong [where f = "\<lambda>M. count M x"]
  show "count (mset (concat (swap_nodes bins i ai j bi))) x = count (mset (concat bins)) x"
    unfolding swap_nodes_eq [OF assms]
    using e [THEN c] f [THEN c] unfolding count_union by linarith
qed

lemma sums_swap_nodes:
  assumes "swappable bins i ai j bi"
  shows "bin_sum (swap_nodes bins i ai j bi ! k) =
     bin_sum (bins ! k) +
     (if k = i then snd (bins ! j ! bi) - snd (bins ! i ! ai)
      else if k = j then snd (bins ! i ! ai) - snd (bins ! j ! bi) else 0)"
  using assms by (auto simp: swap_nodes_eq swappable_def bin_sum_update nth_list_update)

lemma energy_swap_nodes:
  assumes sw: "swappable bins i ai j bi" and gain: "0 < pair_gain (bins ! i) (bins ! j) (ai, bi)"
  shows "energy (swap_nodes bins i ai j bi) < energy bins"
proof -
  define d where "d = snd (bins ! i ! ai) - snd (bins ! j ! bi)"
  let ?a = "bin_sum (bins ! i)" and ?b = "bin_sum (bins ! j)"
  let ?E = "\<lambda>bs. sum_list (map (\<lambda>b. (bin_sum b)\<^sup>2) bs)"
  have "?E (swap_nodes bins i ai j bi) = ?E bins - ?a\<^sup>2 + (?a - d)\<^sup>2 - ?b\<^sup>2 + (?b + d)\<^sup>2"
    using sw by (simp add: swap_nodes_eq swappable_def sum_list_update_int bin_sum_update d_def algebra_simps)
  also have "\<dots> = ?E bins + 2 * d * (?b - ?a + d)"
    by (simp add: power2_eq_square algebra_simps)
  finally have E: "?E (swap_nodes bins i ai j bi) = ?E bins + 2 * d * (?b - ?a + d)" .
  have g: "\<bar>?a - ?b - 2 * d\<bar> < ?a - ?b"
    using gain by (simp add: pair_gain_def swap_gain_def Let_def d_def algebra_simps)
  then have "0 < d" "?b - ?a + d < 0" by linarith+
  then have "d * (?b - ?a + d) < 0" by (rule mult_pos_neg)
  then have "?E (swap_nodes bins i ai j bi) < ?E bins" using E by simp
  moreover have "0 \<le> ?E (swap_nodes bins i ai j bi)" by (intro sum_list_nonneg) auto
  ultimately show ?thesis by (simp add: energy_def)
qed

subsection \<open>The swap loop\<close>

definition full_ok :: "nat list \<Rightarrow> node list list \<Rightarrow> bool" where
  "full_ok full_bins bins \<longleftrightarrow> full_bins \<noteq> [] \<and> set full_bins \<subseteq> {..<length bins}"

definition within :: "nat list \<Rightarrow> int \<Rightarrow> int \<Rightarrow> node list list \<Rightarrow> bool" where
  "within full_bins lo hi bins \<longleftrightarrow> (\<forall>i \<in> set full_bins. lo \<le> bin_sum (bins ! i) \<and> bin_sum (bins ! i) \<le> hi)"

text \<open>What the loop keeps: the nodes, the size of every bin, and the range of the sums.\<close>

definition rebalances :: "nat list \<Rightarrow> node list list \<Rightarrow> node list list \<Rightarrow> bool" where
  "rebalances full_bins start bins \<longleftrightarrow>
     full_ok full_bins bins \<and> mset (concat bins) = mset (concat start) \<and>
     map length bins = map length start \<and>
     within full_bins (bin_sum (start ! lightest full_bins start)) (bin_sum (start ! heaviest full_bins start)) bins"

lemma heaviest_correct:
  assumes "full_ok full bins"
  shows "heaviest full bins \<in> set full" and "i \<in> set full \<Longrightarrow> bin_sum (bins ! i) \<le> bin_sum (bins ! heaviest full bins)"
  using first_max_correct [of full] assms by (auto simp: heaviest_def full_ok_def)

lemma lightest_correct:
  assumes "full_ok full bins"
  shows "lightest full bins \<in> set full" and "i \<in> set full \<Longrightarrow> bin_sum (bins ! lightest full bins) \<le> bin_sum (bins ! i)"
  using first_min_correct [of full] assms by (auto simp: lightest_def full_ok_def)

lemma improve_step_Some:
  assumes "improve_step full bins = Some bins'" and "full_ok full bins"
  obtains ai bi where "swappable bins (heaviest full bins) ai (lightest full bins) bi"
    "bins' = swap_nodes bins (heaviest full bins) ai (lightest full bins) bi"
    "0 < pair_gain (bins ! heaviest full bins) (bins ! lightest full bins) (ai, bi)"
proof -
  let ?i = "heaviest full bins" and ?j = "lightest full bins"
  from assms(1) obtain ai bi where f: "?i \<noteq> ?j"
    "find_best_swap (bins ! ?i) (bins ! ?j) (bin_sum (bins ! ?i)) (bin_sum (bins ! ?j)) = Some (ai, bi)"
    "bins' = swap_nodes bins ?i ai ?j bi"
    by (auto simp: improve_step_def Let_def split: if_splits)
  have "?i < length bins" "?j < length bins"
    using heaviest_correct(1) [OF assms(2)] lightest_correct(1) [OF assms(2)] assms(2)
    by (auto simp: full_ok_def)
  then show thesis using f find_best_swap_Some [OF f(2)] by (intro that) (auto simp: swappable_def)
qed

lemma improve_step_within:
  assumes "full_ok full bins" and "within full lo hi bins" and "improve_step full bins = Some bins'"
  shows "within full lo hi bins'"
proof -
  let ?i = "heaviest full bins" and ?j = "lightest full bins"
  obtain ai bi where sw: "swappable bins ?i ai ?j bi" and b': "bins' = swap_nodes bins ?i ai ?j bi"
    and gain: "0 < pair_gain (bins ! ?i) (bins ! ?j) (ai, bi)"
    using improve_step_Some [OF assms(3,1)] by metis
  define d where "d = snd (bins ! ?i ! ai) - snd (bins ! ?j ! bi)"
  have "\<bar>bin_sum (bins ! ?i) - bin_sum (bins ! ?j) - 2 * d\<bar> < bin_sum (bins ! ?i) - bin_sum (bins ! ?j)"
    using gain by (simp add: pair_gain_def swap_gain_def Let_def d_def algebra_simps)
  then have d: "0 < d" "d < bin_sum (bins ! ?i) - bin_sum (bins ! ?j)" by linarith+
  have ends: "?i \<in> set full" "?j \<in> set full"
    using heaviest_correct(1) lightest_correct(1) assms(1) by auto
  have new: "bin_sum (bins' ! k) = bin_sum (bins ! k) + (if k = ?i then - d else if k = ?j then d else 0)" for k
    unfolding b' d_def using sums_swap_nodes [OF sw] by auto
  have "lo \<le> bin_sum (bins ! ?j)" "bin_sum (bins ! ?i) \<le> hi" using assms(2) ends by (auto simp: within_def)
  then have "lo \<le> bin_sum (bins' ! k) \<and> bin_sum (bins' ! k) \<le> hi" if "k \<in> set full" for k
    using assms(2) that d sw new [of k] by (auto simp: within_def swappable_def)
  then show ?thesis by (simp add: within_def)
qed

interpretation swaps: descending_loop "improve_step full" "improve full" "rebalances full start" energy
  for full start
proof
  fix bins bins'
  show "improve full bins = (case improve_step full bins of None \<Rightarrow> Some bins | Some bins' \<Rightarrow> improve full bins')"
    by (rule improve.simps)
  assume inv: "rebalances full start bins" and step: "improve_step full bins = Some bins'"
  then have ok: "full_ok full bins" by (simp add: rebalances_def)
  obtain ai bi where sw: "swappable bins (heaviest full bins) ai (lightest full bins) bi"
    and b': "bins' = swap_nodes bins (heaviest full bins) ai (lightest full bins) bi"
    and gain: "0 < pair_gain (bins ! heaviest full bins) (bins ! lightest full bins) (ai, bi)"
    using improve_step_Some [OF step ok] by metis
  show "energy bins' < energy bins" unfolding b' using energy_swap_nodes [OF sw gain] .
  have len: "map length bins' = map length bins" unfolding b' by (rule lengths_swap_nodes [OF sw])
  then have "full_ok full bins'" using ok by (metis full_ok_def length_map)
  then show "rebalances full start bins'"
    using inv len mset_swap_nodes [OF sw] improve_step_within [OF ok _ step] by (simp add: rebalances_def b')
qed

lemma improve_returns:
  assumes "full_ok full bins"
  shows "\<exists>bins'. improve full bins = Some bins' \<and> rebalances full bins bins' \<and> improve_step full bins' = None"
proof -
  have "rebalances full bins bins"
    using assms heaviest_correct(2) lightest_correct(2) by (auto simp: rebalances_def within_def)
  then show ?thesis by (rule swaps.loop_returns)
qed

subsection \<open>The whole grouping\<close>

lemma ceil_div:
  assumes "0 < (b::int)" and "b \<le> L"
  shows "0 < (L + b - 1) div b" and "L mod b \<noteq> 0 \<Longrightarrow> 1 < (L + b - 1) div b"
proof -
  show "0 < (L + b - 1) div b" using assms by (simp add: pos_imp_zdiv_pos_iff)
  assume "L mod b \<noteq> 0"
  then have "b + 1 \<le> L" using assms by (cases "L = b") auto
  then have "2 * b \<le> L + b - 1" by simp
  then have "2 * b div b \<le> (L + b - 1) div b" using assms by (intro zdiv_mono1)
  then show "1 < (L + b - 1) div b" using assms by simp
qed

definition bin_count :: "nat \<Rightarrow> nat \<Rightarrow> nat" where
  "bin_count L b = (L + b - 1) div b"

definition full_indices :: "nat \<Rightarrow> nat \<Rightarrow> nat list" where
  "full_indices L b = [0..<(if L mod b \<noteq> 0 then bin_count L b - 1 else bin_count L b)]"

lemma bin_count_int: "0 < b \<Longrightarrow> (int L + int b - 1) div int b = int (bin_count L b)"
  by (cases b) (simp_all add: bin_count_def zdiv_int)

lemma full_indices_ok:
  assumes "0 < b" and "b \<le> L" and "length bins = bin_count L b"
  shows "full_ok (full_indices L b) bins"
proof -
  have "0 < bin_count L b" "L mod b \<noteq> 0 \<Longrightarrow> 1 < bin_count L b"
    using ceil_div [of "int b" "int L"] assms by (simp_all add: bin_count_int flip: of_nat_mod)
  then show ?thesis using assms(3) by (auto simp: full_ok_def full_indices_def)
qed

lemma partition_nodes_improve:
  assumes "0 < b" and "b \<le> length nodes"
  shows "partition_nodes nodes (int b) = map_option Inr (improve (full_indices (length nodes) b)
      (build_snake_bins (sort_key (\<lambda>x. - snd x) nodes) (bin_count (length nodes) b)))"
proof -
  have n: "0 < bin_count (length nodes) b"
    using ceil_div(1) [of "int b" "int (length nodes)"] assms by (simp add: bin_count_int)
  have f: "full_indices (length nodes) b =
      [0..<nat (if int (length nodes) mod int b \<noteq> 0 then int (bin_count (length nodes) b) - 1
                else int (bin_count (length nodes) b))]"
    using n by (simp add: full_indices_def nat_diff_distrib flip: of_nat_mod)
  have "full_indices (length nodes) b \<noteq> []"
    using full_indices_ok [of b "length nodes" "replicate (bin_count (length nodes) b) []"] assms
    by (simp add: full_ok_def)
  then show ?thesis
    using assms n unfolding partition_nodes_def bin_count_int [OF assms(1)] Let_def f by simp
qed

definition spread :: "nat list \<Rightarrow> node list list \<Rightarrow> int" where
  "spread full bins = bin_sum (bins ! heaviest full bins) - bin_sum (bins ! lightest full bins)"

lemma rebalances_spread:
  assumes "rebalances full start bins"
  shows "spread full bins \<le> spread full start"
proof -
  have "heaviest full bins \<in> set full" "lightest full bins \<in> set full"
    using heaviest_correct(1) lightest_correct(1) assms by (auto simp: rebalances_def)
  then have "bin_sum (start ! lightest full start) \<le> bin_sum (bins ! lightest full bins)"
    "bin_sum (bins ! heaviest full bins) \<le> bin_sum (start ! heaviest full start)"
    using assms by (simp_all add: rebalances_def within_def)
  then show ?thesis by (simp add: spread_def)
qed

lemma improve_step_None:
  assumes "improve_step full bins = None" and "heaviest full bins \<noteq> lightest full bins"
    and "ai < length (bins ! heaviest full bins)" and "bi < length (bins ! lightest full bins)"
  shows "swap_gain (bins ! heaviest full bins ! ai) (bins ! lightest full bins ! bi)
    (bin_sum (bins ! heaviest full bins)) (bin_sum (bins ! lightest full bins)) \<le> 0"
  using find_best_swap_None [of "bins ! heaviest full bins" "bins ! lightest full bins" ai bi] assms
  by (auto simp: improve_step_def Let_def pair_gain_def split: if_splits)

lemma improve_step_sums:
  assumes "improve_step full bins = None"
  shows "let heavy = bins ! heaviest full bins; light = bins ! lightest full bins
     in \<forall>x\<in>set heavy. \<forall>y\<in>set light. bin_sum heavy - bin_sum light
          \<le> \<bar>(bin_sum heavy - snd x + snd y) - (bin_sum light - snd y + snd x)\<bar>"
proof (cases "heaviest full bins = lightest full bins")
  case False
  then show ?thesis
    using improve_step_None [OF assms False] by (fastforce simp: Let_def in_set_conv_nth swap_gain_def algebra_simps)
qed (simp add: Let_def)

lemma partition_nodes_result:
  assumes "0 < b" and "b \<le> length nodes"
  shows "\<exists>bins. partition_nodes nodes (int b) = Some (Inr bins) \<and>
    rebalances (full_indices (length nodes) b)
      (build_snake_bins (sort_key (\<lambda>x. - snd x) nodes) (bin_count (length nodes) b)) bins \<and>
    improve_step (full_indices (length nodes) b) bins = None"
  using improve_returns [OF full_indices_ok [OF assms length_build_snake_bins]]
    partition_nodes_improve [OF assms] by auto

text \<open>C6. Grouping returns groups of the given nodes, balanced among the compared bins: the compared bins are all bins, or all but the last
  when the bin size does not divide the number of nodes. For a bin size between 1 and the number of
  nodes the swap loop returns; the bins hold exactly the given nodes; there are as many
  bins as the bin size asks for, with the sizes of the snake deal, which differ by at
  most one (not groups of the bin size and a smaller last one, as the documentation says); the spread of the compared bins is not larger
  than after the deal; and no swap of a node of the heaviest compared bin with one of the lightest compared bin brings
  their sums closer. A swap with the last bin, or with a bin in between, may.\<close>

theorem partition_nodes_balances:
  assumes "0 < b" and "b \<le> length nodes"
  shows "\<exists>bins. partition_nodes nodes (int b) = Some (Inr bins) \<and>
    mset (concat bins) = mset nodes \<and> length bins = bin_count (length nodes) b \<and>
    list_all (\<lambda>c. length c \<in> {length nodes div length bins, Suc (length nodes div length bins)}) bins \<and>
    spread (full_indices (length nodes) b) bins \<le> spread (full_indices (length nodes) b)
      (build_snake_bins (sort_key (\<lambda>x. - snd x) nodes) (length bins)) \<and>
    improve_step (full_indices (length nodes) b) bins = None \<and>
    (let heavy = bins ! heaviest (full_indices (length nodes) b) bins; light = bins ! lightest (full_indices (length nodes) b) bins
     in \<forall>x\<in>set heavy. \<forall>y\<in>set light. bin_sum heavy - bin_sum light
          \<le> \<bar>(bin_sum heavy - snd x + snd y) - (bin_sum light - snd y + snd x)\<bar>)"
proof -
  let ?L = "length nodes" and ?ns = "sort_key (\<lambda>x. - snd x) nodes"
  let ?start = "build_snake_bins ?ns (bin_count ?L b)"
  obtain bins where p: "partition_nodes nodes (int b) = Some (Inr bins)"
    and r: "rebalances (full_indices ?L b) ?start bins" and s: "improve_step (full_indices ?L b) bins = None"
    using partition_nodes_result [OF assms] by blast
  have n: "0 < bin_count ?L b"
    using ceil_div(1) [of "int b" "int ?L"] assms by (simp add: bin_count_int)
  have lens: "map length bins = map length ?start" using r by (simp add: rebalances_def)
  then have len: "length bins = bin_count ?L b" by (metis length_map length_build_snake_bins)
  have "length (bins ! k) = snake_count (bin_count ?L b) ?L k" if "k < length bins" for k
    using that len lens length_build_snake_bins_nth [of k "bin_count ?L b" ?ns]
    by (metis length_sort nth_map length_build_snake_bins)
  then have "list_all (\<lambda>c. length c \<in> {?L div length bins, Suc (?L div length bins)}) bins"
    by (auto simp: list_all_length snake_count_def len)
  moreover have "mset (concat bins) = mset nodes"
    using r n by (simp add: rebalances_def mset_build_snake_bins)
  ultimately show ?thesis using p len s rebalances_spread [OF r] improve_step_sums [OF s]
    by (intro exI [of _ bins]) simp
qed

definition sample_nodes :: "node list" where
  "sample_nodes = [(''a'', 100), (''b'', 200), (''c'', 200), (''d'', 400), (''e'', 100)]"

theorem partition_nodes_balances_witness:
  "\<exists>bins. partition_nodes sample_nodes 2 = Some (Inr bins) \<and> mset (concat bins) = mset sample_nodes \<and>
     length bins = 3 \<and> improve_step [0, 1] bins = None"
proof -
  have "(0::nat) < 2" "2 \<le> length sample_nodes" by (simp_all add: sample_nodes_def)
  from partition_nodes_balances [OF this] show ?thesis
    by (auto simp: sample_nodes_def bin_count_def full_indices_def upt_rec)
qed

text \<open>The groups need not have the requested size: five nodes in groups of two give groups of one, two and
  two nodes, and the short group is the first one, not the last one that the code treats
  as partial and leaves out of the balancing.\<close>

theorem partial_bin_is_not_last:
  "map_option (map_sum id (map length)) (partition_nodes sample_nodes 2) = Some (Inr [1, 2, 2])"
  by code_simp

lemma place_mset: "k = length remaining \<Longrightarrow> mset (place target step c k remaining) = mset remaining"
proof (induction target step c k remaining rule: place.induct)
  case (2 target step c k remaining)
  let ?best = "first_min (\<lambda>b. \<bar>c + bin_sum b - target * int step\<bar>) remaining"
  have "remaining \<noteq> []" using "2.prems" by auto
  then have best: "?best \<in> set remaining" by (rule first_min_correct(1))
  then have "k = length (remove1 ?best remaining)" using "2.prems" by (simp add: length_remove1)
  then show ?case using "2.IH" [OF refl] best by (simp add: Let_def)
qed simp

lemma mset_reorder: "mset (reorder_bins_for_smooth_cumulative bins target) = mset bins"
proof (cases "bins = []")
  case False
  then have "mset bins = mset (butlast bins) + {#last bins#}"
    by (metis append_butlast_last_id mset_append mset.simps)
  then show ?thesis by (simp add: reorder_bins_for_smooth_cumulative_def Let_def place_mset)
qed (simp add: reorder_bins_for_smooth_cumulative_def Let_def place_mset)

lemma mset_concat_perm: "mset bs = mset cs \<Longrightarrow> mset (concat bs) = mset (concat cs)"
  by (metis mset_concat sum_mset_sum_list mset_map)

text \<open>The printed line lists every node once: for a bin size between 1 and the number of nodes, the
  command prints the node names joined with commas, in an order that is a permutation of
  the input.\<close>

theorem group_nodes_permutation:
  assumes "0 < b" and "b \<le> length nodes"
  shows "\<exists>names. group_nodes nodes (int b) = Some (Inr (Some (join '','' names))) \<and>
    mset names = mset (map fst nodes)"
proof -
  obtain bins where p: "partition_nodes nodes (int b) = Some (Inr bins)"
    and r: "rebalances (full_indices (length nodes) b)
      (build_snake_bins (sort_key (\<lambda>x. - snd x) nodes) (bin_count (length nodes) b)) bins"
    using partition_nodes_result [OF assms] by blast
  have "0 < bin_count (length nodes) b"
    using ceil_div(1) [of "int b" "int (length nodes)"] assms by (simp add: bin_count_int)
  then have m: "mset (concat bins) = mset nodes" using r by (simp add: rebalances_def mset_build_snake_bins)
  have "int (length nodes) div int b \<noteq> 0" using assms by (simp add: zdiv_int [symmetric] div_eq_0_iff)
  then obtain t where t: "compute_target nodes (int b) = Inr t"
    using assms by (auto simp: compute_target_def Let_def)
  let ?names = "map fst (concat (reorder_bins_for_smooth_cumulative bins t))"
  have "mset ?names = mset (map fst nodes)"
    using mset_concat_perm [OF mset_reorder [of bins t]] m by simp
  then show ?thesis using p t assms by (intro exI [of _ ?names]) (simp add: group_nodes_def)
qed

theorem group_nodes_permutation_witness:
  "\<exists>names. group_nodes sample_nodes 2 = Some (Inr (Some (join '','' names))) \<and>
     mset names = {#''a'', ''b'', ''c'', ''d'', ''e''#}"
proof -
  have "(0::nat) < 2" "2 \<le> length sample_nodes" by (simp_all add: sample_nodes_def)
  from group_nodes_permutation [OF this] show ?thesis by (auto simp: sample_nodes_def)
qed

end
