(* ===== verification/PyFiles.thy ===== *)
theory PyFiles
  imports PyValues
begin

section \<open>Files as the modelled code sees them\<close>

text \<open>
  A path is the list of its components below the root directory. \<open>fs_view\<close> is what the code asks
  \<^verbatim>\<open>pathlib\<close> about the file system; every function that reads files takes such a view.
  \<open>regular_files\<close> is the view of a tree of regular files without symbolic links. The locale
  \<open>plain_tree\<close> collects what such trees promise.

  Bytes are characters below 256. \<open>utf8_decode\<close> is \<^verbatim>\<open>bytes.decode("utf-8")\<close> on the text this development
  can represent: an encoded code point above 255 counts as not decodable.
\<close>

type_synonym path = "string list"

record fs_view =
  fs_symlink :: "path \<Rightarrow> bool"
  fs_file :: "path \<Rightarrow> bool"
  fs_dir :: "path \<Rightarrow> bool"
  fs_exists :: "path \<Rightarrow> bool"
  fs_read :: "path \<Rightarrow> string result"
  fs_resolve :: "path \<Rightarrow> path"

definition path_str :: "path \<Rightarrow> string" where
  "path_str p = (if p = [] then ''/'' else concat (map (\<lambda>c. ''/'' @ c) p))"

text \<open>\<^verbatim>\<open>Path(text).parts\<close> of a relative path: empty and dot components vanish.\<close>

definition path_parts :: "string \<Rightarrow> path" where
  "path_parts s = filter (\<lambda>c. c \<noteq> [] \<and> c \<noteq> ''.'') (split_on (CHR ''/'') s)"

definition is_absolute :: "string \<Rightarrow> bool" where
  "is_absolute s = startswith s ''/''"

definition parents :: "path \<Rightarrow> path list" where
  "parents p = map (\<lambda>k. take k p) (rev [0..<length p])"

subsection \<open>UTF-8\<close>

fun utf8_decode :: "string \<Rightarrow> string result" where
  "utf8_decode [] = Inr []"
| "utf8_decode [c] = (if code c < 128 then Inr [c] else Inl UnicodeDecodeError)"
| "utf8_decode (c # d # cs) =
     (if code c < 128 then rbind (utf8_decode (d # cs)) (\<lambda>s. Inr (c # s))
      else if (code c = 194 \<or> code c = 195) \<and> 128 \<le> code d \<and> code d < 192
        then rbind (utf8_decode cs) (\<lambda>s. Inr (char_of (64 * (code c - 192) + (code d - 128)) # s))
      else Inl UnicodeDecodeError)"

text \<open>A text file is read with universal newlines.\<close>

fun universal_newlines :: "string \<Rightarrow> string" where
  "universal_newlines (a # b # s) =
     (if a = CHR 0x0D then CHR 0x0A # (if b = CHR 0x0A then universal_newlines s else universal_newlines (b # s))
      else a # universal_newlines (b # s))"
| "universal_newlines [a] = [if a = CHR 0x0D then CHR 0x0A else a]"
| "universal_newlines [] = []"

definition read_text :: "fs_view \<Rightarrow> path \<Rightarrow> string result" where
  "read_text fs p = rbind (fs_read fs p) (\<lambda>bytes. rbind (utf8_decode bytes) (\<lambda>text. Inr (universal_newlines text)))"

definition utf8_char :: "char \<Rightarrow> string" where
  "utf8_char c = (if code c < 128 then [c] else [char_of (192 + code c div 64), char_of (128 + code c mod 64)])"

definition utf8_encode :: "string \<Rightarrow> string" where
  "utf8_encode s = concat (map utf8_char s)"

lemma utf8_decode_ascii: "code c < 128 \<Longrightarrow> utf8_decode (c # cs) = rbind (utf8_decode cs) (\<lambda>s. Inr (c # s))"
  by (cases cs) simp_all

lemma code_less: "code c < 256"
  by (metis of_char_mod_256 mod_less_divisor zero_less_numeral)

lemma char_of_code: "char_of (code c) = c"
  by simp

lemma utf8_round_trip [simp]: "utf8_decode (utf8_encode s) = Inr s"
proof (induction s)
  case (Cons c s)
  show ?case
  proof (cases "code c < 128")
    case True
    then show ?thesis using Cons by (simp add: utf8_encode_def utf8_char_def utf8_decode_ascii)
  next
    case False
    let ?a = "char_of (192 + code c div 64) :: char" and ?b = "char_of (128 + code c mod 64) :: char"
    have lt: "code c < 256" by (rule code_less)
    have a: "code ?a = 192 + code c div 64" and b: "code ?b = 128 + code c mod 64"
      using lt less_mult_imp_div_less [of "code c" 4 64] by (simp_all add: of_char_of)
    have "code c div 64 = 2 \<or> code c div 64 = 3" 
      using False lt div_le_mono [of 128 "code c" 64] less_mult_imp_div_less [of "code c" 4 64] by force
    moreover have "64 * (code c div 64) + code c mod 64 = code c" by simp
    ultimately show ?thesis using False Cons a b
      by (auto simp: utf8_encode_def utf8_char_def)
  qed
qed (simp add: utf8_encode_def)

lemma utf8_decode_all_ascii: "list_all (\<lambda>c. code c < 128) s \<Longrightarrow> utf8_decode s = Inr s"
  by (induction s) (simp_all add: utf8_decode_ascii)

subsection \<open>Trees of regular files\<close>

definition regular_files :: "(path \<times> string) list \<Rightarrow> fs_view" where
  "regular_files files =
     \<lparr> fs_symlink = (\<lambda>_. False),
       fs_file = (\<lambda>p. map_of files p \<noteq> None),
       fs_dir = (\<lambda>p. list_ex (\<lambda>f. strict_prefix p (fst f)) files),
       fs_exists = (\<lambda>p. map_of files p \<noteq> None \<or> list_ex (\<lambda>f. strict_prefix p (fst f)) files),
       fs_read = (\<lambda>p. case map_of files p of None \<Rightarrow> Inl (OSError (path_str p)) | Some b \<Rightarrow> Inr b),
       fs_resolve = (\<lambda>p. p) \<rparr>"

locale plain_tree =
  fixes fs :: fs_view
  assumes no_symlink: "\<not> fs_symlink fs p"
    and resolve_id: "fs_resolve fs p = p"
    and file_readable: "fs_file fs p \<Longrightarrow> \<exists>b. fs_read fs p = Inr b"
    and file_exists: "fs_file fs p \<Longrightarrow> fs_exists fs p"
begin

lemma readable: "fs_file fs p \<Longrightarrow> \<not> fs_symlink fs p \<and> (\<exists>b. fs_read fs p = Inr b)"
  using no_symlink file_readable by blast

lemma prefix_resolved: "prefix root p \<Longrightarrow> prefix root (fs_resolve fs p)"
  by (simp add: resolve_id)

end

interpretation regular: plain_tree "regular_files files" for files
  by unfold_locales (auto simp: regular_files_def split: option.splits)

end
