(* ===== verification/BatchManifest.thy ===== *)
theory BatchManifest
  imports PyFiles Coordinates
begin

section \<open>Prepared batches: the committed manifest (lib/filesystem\_batch.py)\<close>

text \<open>
  A prepared batch is a directory with a manifest of groups and executions, each bound to
  files by SHA-256 digests. \<open>read_batch_manifest\<close> reads and validates all of it or raises. The digest
  function and the view of the file system are arguments of the readers.

  The theorems say what every manifest that was read satisfies (\<open>manifest_wf\<close> and the digests of its
  files), and that the text of a manifest is read back as what it records.
\<close>

subsection \<open>Data\<close>

definition MANIFEST_FILENAME :: string where "MANIFEST_FILENAME = ''batch-manifest.tsv''"
definition SEAL_FILENAME :: string where "SEAL_FILENAME = ''batch-sealed.sha256''"
definition ENV_SHELL :: string where "ENV_SHELL = ''env_used.sh''"
definition ENV_YAML :: string where "ENV_YAML = ''env_used.yaml''"
definition SUCCESS :: string where "SUCCESS = ''SUCCESS''"
definition GROUPS_DIRNAME :: string where "GROUPS_DIRNAME = ''groups''"

definition BATCH_MARKERS :: "string list" where
  "BATCH_MARKERS = [MANIFEST_FILENAME, ''batch-profile.tsv'', SEAL_FILENAME, ''batch-sealed-environment.sha256'']"

definition KINDS :: "string list" where "KINDS = [''all'', ''io'', ''mdtest'']"

definition hex_lower :: "char \<Rightarrow> bool" where
  "hex_lower c \<longleftrightarrow> is_digit c \<or> (97 \<le> code c \<and> code c \<le> 102)"

definition digest_re :: rx where "digest_re = RRep 64 (RCls hex_lower)"

definition datestamp_re :: rx where
  "datestamp_re = RSeq (RRep 8 (RCls is_digit)) (RSeq (RChr (CHR ''Z'')) (RRep 6 (RCls is_digit)))"

definition positive_re :: rx where
  "positive_re = RSeq (RCls (\<lambda>c. is_digit c \<and> c \<noteq> CHR ''0'')) (RStar (RCls is_digit))"

record batch_group =
  group_id :: string
  group_kind :: string
  output_relative :: string
  shell_digest :: string
  yaml_digest :: string

record batch_execution =
  execution_id :: string
  execution_group :: string
  definition_digest :: string

record batch_manifest =
  mf_root :: path
  mf_revision :: nat
  mf_datestamp :: string
  mf_groups :: "batch_group list"
  mf_executions :: "batch_execution list"
  mf_digest :: string

subsection \<open>Paths and files of a batch\<close>

definition contained_path :: "fs_view \<Rightarrow> path \<Rightarrow> string \<Rightarrow> path result" where
  "contained_path fs root relative =
     (let parts = path_parts relative;
          candidate = root @ parts;
          links = filter (fs_symlink fs) (map (\<lambda>k. root @ take (Suc k) parts) [0..<length parts])
      in if parts = [] \<or> is_absolute relative \<or> list_ex (\<lambda>p. p = ''.'' \<or> p = ''..'') parts
           then Inl (ValueError (''Invalid batch-relative path: '' @ relative))
         else if links \<noteq> [] then Inl (ValueError (''Symlink in batch-owned path: '' @ path_str (hd links)))
         else if \<not> prefix root (fs_resolve fs candidate)
           then Inl (ValueError (''Path escapes batch root: '' @ relative))
         else Inr candidate)"

definition group_path :: "fs_view \<Rightarrow> batch_manifest \<Rightarrow> batch_group \<Rightarrow> path result" where
  "group_path fs m g = contained_path fs (mf_root m) (output_relative g)"

definition group_executions :: "batch_manifest \<Rightarrow> string \<Rightarrow> batch_execution list" where
  "group_executions m gid = filter (\<lambda>e. execution_group e = gid) (mf_executions m)"

definition is_batch_directory :: "fs_view \<Rightarrow> path \<Rightarrow> bool" where
  "is_batch_directory fs root \<longleftrightarrow>
     list_ex (\<lambda>marker. fs_exists fs (root @ [marker]) \<or> fs_symlink fs (root @ [marker])) BATCH_MARKERS"

text \<open>The loop over the ancestors of one input raises at the first batch directory.\<close>

definition group_option :: "path \<Rightarrow> string" where
  "group_option relative = (case relative of
     first # identifier # _ \<Rightarrow>
       if first = GROUPS_DIRNAME \<and> fullmatch (RRep 4 (RCls is_digit)) identifier
       then '' --groups '' @ identifier else []
   | _ \<Rightarrow> [])"

definition reject_batch_descendant_input :: "fs_view \<Rightarrow> string \<times> path \<Rightarrow> unit result" where
  "reject_batch_descendant_input fs input =
     (let candidate = fs_resolve fs (snd input)
      in case filter (is_batch_directory fs) (parents candidate) of
           [] \<Rightarrow> Inr ()
         | ancestor # _ \<Rightarrow>
             Inl (ValueError (''Batch descendants cannot be raw reporting inputs: '' @ fst input @
               ''. Report the batch root '' @ path_str ancestor @
               group_option (drop (length ancestor) candidate) @
               '' to use its authoritative execution ledger.'')))"

definition reject_batch_descendant_inputs :: "fs_view \<Rightarrow> (string \<times> path) list \<Rightarrow> unit result" where
  "reject_batch_descendant_inputs fs inputs = each (reject_batch_descendant_input fs) inputs"

definition read_regular :: "fs_view \<Rightarrow> path \<Rightarrow> string result" where
  "read_regular fs p =
     (if fs_symlink fs p \<or> \<not> fs_file fs p
      then Inl (ValueError (''Expected nonsymlink batch file: '' @ path_str p))
      else fs_read fs p)"

definition verify_digest :: "fs_view \<Rightarrow> (string \<Rightarrow> string) \<Rightarrow> path \<Rightarrow> string \<Rightarrow> string result" where
  "verify_digest fs sha p expected =
     rbind (check (fullmatch digest_re expected) (ValueError (''Invalid SHA256 digest for '' @ path_str p))) (\<lambda>_.
     rbind (read_regular fs p) (\<lambda>data.
     rbind (check (sha data = expected) (ValueError (''Batch digest mismatch: '' @ path_str p))) (\<lambda>_.
     Inr data)))"

subsection \<open>Records of a manifest\<close>

type_synonym records = "(string, string) dict \<times> batch_group list \<times> batch_execution list"

definition parse_record :: "string \<Rightarrow> records \<Rightarrow> records result" where
  "parse_record line st =
     (case st of (headers, groups, executions) \<Rightarrow>
      case split_on TAB line of
        [tag, a] \<Rightarrow>
          if tag \<in> {''version'', ''revision'', ''datestamp''} then
            if dict_get headers tag \<noteq> None then Inl (ValueError (''Duplicate batch header: '' @ tag))
            else Inr (dict_set tag a headers, groups, executions)
          else Inl (ValueError (''Invalid batch manifest record: '' @ line))
      | [tag, a, b, c] \<Rightarrow>
          if tag = ''execution'' then Inr (headers, groups, executions @
            [\<lparr> execution_id = a, execution_group = b, definition_digest = c \<rparr>])
          else Inl (ValueError (''Invalid batch manifest record: '' @ line))
      | [tag, a, b, c, d, e] \<Rightarrow>
          if tag = ''group'' then Inr (headers, groups @
            [\<lparr> group_id = a, group_kind = b, output_relative = c, shell_digest = d, yaml_digest = e \<rparr>],
            executions)
          else Inl (ValueError (''Invalid batch manifest record: '' @ line))
      | _ \<Rightarrow> Inl (ValueError (''Invalid batch manifest record: '' @ line)))"

definition parse_records :: "string \<Rightarrow> records result" where
  "parse_records data = rbind (utf8_decode data) (\<lambda>text. rfold parse_record (splitlines text) ([], [], []))"

definition validate_headers :: "(string, string) dict \<Rightarrow> nat \<Rightarrow> (nat \<times> string) result" where
  "validate_headers headers group_count =
     (if set (dict_keys headers) \<noteq> {''version'', ''revision'', ''datestamp''} \<or>
         dict_get headers ''version'' \<noteq> Some ''1''
      then Inl (ValueError ''Unsupported or incomplete batch manifest headers'')
      else let revision = the (dict_get headers ''revision''); datestamp = the (dict_get headers ''datestamp'')
           in if \<not> fullmatch positive_re revision \<or> undec revision \<noteq> group_count
              then Inl (ValueError ''Batch revision must equal the committed group count'')
              else if \<not> fullmatch datestamp_re datestamp then Inl (ValueError ''Invalid batch datestamp'')
              else Inr (undec revision, datestamp))"

definition export_value :: "string \<Rightarrow> string \<Rightarrow> string result" where
  "export_value content name =
     (let values = all_lines (eat (''export '' @ name @ ''='')) content
      in if values = [] then Inl (ValueError (''Missing execution field: '' @ name))
         else rbind (shlex_split (last values)) (\<lambda>parsed.
           case parsed of [v] \<Rightarrow> Inr v | _ \<Rightarrow> Inl (ValueError (''Invalid execution field: '' @ name))))"

subsection \<open>Validation against the files\<close>

definition expected_output :: "string \<Rightarrow> batch_group \<Rightarrow> string" where
  "expected_output datestamp g =
     ''groups/'' @ group_id g @ ''/'' @
     (if group_kind g = ''io'' then ''elbencho'' else ''mdtest-elbencho'') @ ''-'' @ datestamp"

definition validate_group ::
    "fs_view \<Rightarrow> (string \<Rightarrow> string) \<Rightarrow> path \<Rightarrow> string \<Rightarrow> nat \<Rightarrow> batch_group \<Rightarrow> unit result" where
  "validate_group fs sha root datestamp n g =
     rbind (check (group_id g = pad0 4 n \<and> group_kind g \<in> {''io'', ''mdtest''})
       (ValueError ''Invalid or unordered batch group membership'')) (\<lambda>_.
     rbind (check (output_relative g = expected_output datestamp g)
       (ValueError (''Invalid group output path: '' @ output_relative g))) (\<lambda>_.
     rbind (contained_path fs root (output_relative g)) (\<lambda>output.
     rbind (contained_path fs root (output_relative g @ ''/'' @ ENV_SHELL)) (\<lambda>shell.
     rbind (verify_digest fs sha shell (shell_digest g)) (\<lambda>_.
     rbind (contained_path fs root (output_relative g @ ''/'' @ ENV_YAML)) (\<lambda>yaml.
     rbind (verify_digest fs sha yaml (yaml_digest g)) (\<lambda>_.
     check (fs_dir fs output) (ValueError (''Missing group output directory: '' @ path_str output)))))))))"

fun validate_groups_from ::
    "fs_view \<Rightarrow> (string \<Rightarrow> string) \<Rightarrow> path \<Rightarrow> string \<Rightarrow> nat \<Rightarrow> batch_group list \<Rightarrow> unit result" where
  "validate_groups_from fs sha root datestamp n [] = Inr ()"
| "validate_groups_from fs sha root datestamp n (g # gs) =
     rbind (validate_group fs sha root datestamp n g) (\<lambda>_.
       validate_groups_from fs sha root datestamp (Suc n) gs)"

definition validate_groups ::
    "fs_view \<Rightarrow> (string \<Rightarrow> string) \<Rightarrow> path \<Rightarrow> batch_group list \<Rightarrow> string \<Rightarrow> unit result" where
  "validate_groups fs sha root groups datestamp = validate_groups_from fs sha root datestamp 1 groups"

definition group_map :: "batch_group list \<Rightarrow> (string, batch_group) dict" where
  "group_map groups = fold (\<lambda>g. dict_set (group_id g) g) groups []"

definition validate_definition ::
    "fs_view \<Rightarrow> (string \<Rightarrow> string) \<Rightarrow> path \<Rightarrow> batch_group \<Rightarrow> batch_execution \<Rightarrow> unit result" where
  "validate_definition fs sha root g e =
     rbind (contained_path fs root (''executions/'' @ execution_id e @ ''.sh'')) (\<lambda>p.
     rbind (verify_digest fs sha p (definition_digest e)) (\<lambda>data.
     rbind (utf8_decode data) (\<lambda>content.
     each (\<lambda>(name, val).
         rbind (export_value content name) (\<lambda>v.
         check (v = val) (ValueError (''Execution '' @ execution_id e @ '' has incorrect '' @ name))))
       [(''ELBENCHO_EXECUTION_KIND'', group_kind g),
        (''ELBENCHO_BATCH_GROUP_ID'', group_id g),
        (''ELBENCHO_BATCH_OUTPUT_RELATIVE'', output_relative g)])))"

fun validate_executions_from ::
    "fs_view \<Rightarrow> (string \<Rightarrow> string) \<Rightarrow> path \<Rightarrow> (string, batch_group) dict \<Rightarrow> nat \<Rightarrow> string \<Rightarrow> string set \<Rightarrow>
     batch_execution list \<Rightarrow> string set result" where
  "validate_executions_from fs sha root gm n previous membership [] = Inr membership"
| "validate_executions_from fs sha root gm n previous membership (e # es) =
     rbind (check (n \<le> 9999 \<and> execution_id e = pad0 4 n)
       (ValueError ''Invalid or unordered global execution IDs'')) (\<lambda>_.
     rbind (check (dict_get gm (execution_group e) \<noteq> None \<and> \<not> execution_group e < previous)
       (ValueError ''Invalid or unordered execution group membership'')) (\<lambda>_.
     rbind (validate_definition fs sha root (the (dict_get gm (execution_group e))) e) (\<lambda>_.
     validate_executions_from fs sha root gm (Suc n) (execution_group e)
       (insert (execution_group e) membership) es)))"

definition validate_executions ::
    "fs_view \<Rightarrow> (string \<Rightarrow> string) \<Rightarrow> path \<Rightarrow> batch_group list \<Rightarrow> batch_execution list \<Rightarrow> unit result" where
  "validate_executions fs sha root groups executions =
     rbind (validate_executions_from fs sha root (group_map groups) 1 [] {} executions) (\<lambda>membership.
     check (membership = set (dict_keys (group_map groups)))
       (ValueError ''Every committed batch group must contain executions''))"

definition check_seal :: "fs_view \<Rightarrow> path \<Rightarrow> string \<Rightarrow> unit result" where
  "check_seal fs root digest =
     (let seal = root @ [SEAL_FILENAME]
      in if fs_exists fs seal \<or> fs_symlink fs seal then
           rbind (read_regular fs seal) (\<lambda>data. rbind (utf8_decode data) (\<lambda>text.
           check (py_strip text = digest)
             (ValueError (''Sealed batch manifest digest mismatch: '' @ path_str root))))
         else Inr ())"

definition read_batch_manifest :: "fs_view \<Rightarrow> (string \<Rightarrow> string) \<Rightarrow> path \<Rightarrow> batch_manifest result" where
  "read_batch_manifest fs sha p =
     (let resolved = fs_resolve fs p;
          root = (if fs_file fs resolved then butlast resolved else resolved)
      in rbind (read_regular fs (root @ [MANIFEST_FILENAME])) (\<lambda>data.
         rbind (parse_records data) (\<lambda>(headers, groups, executions).
         rbind (validate_headers headers (length groups)) (\<lambda>(revision, datestamp).
         rbind (validate_groups fs sha root groups datestamp) (\<lambda>_.
         rbind (validate_executions fs sha root groups executions) (\<lambda>_.
         rbind (check_seal fs root (sha data)) (\<lambda>_.
         Inr \<lparr> mf_root = root, mf_revision = revision, mf_datestamp = datestamp, mf_groups = groups,
               mf_executions = executions, mf_digest = sha data \<rparr>)))))))"

definition statuses :: "string list" where
  "statuses = [''PENDING'', ''RUNNING'', SUCCESS, ''FAILED'', ''CANCELLED'', ''INTERRUPTED'']"

definition execution_status :: "fs_view \<Rightarrow> batch_manifest \<Rightarrow> batch_execution \<Rightarrow> string result" where
  "execution_status fs m e =
     rbind (contained_path fs (mf_root m) (''executions/'' @ execution_id e @ ''.status'')) (\<lambda>p.
     if \<not> fs_exists fs p then Inr ''UNKNOWN''
     else rbind (read_regular fs p) (\<lambda>data. rbind (utf8_decode data) (\<lambda>text.
       Inr (if py_strip text \<in> set statuses then py_strip text else ''UNKNOWN''))))"

subsection \<open>Numbers with leading zeros are ordered as text\<close>

lemma undec_Cons: "undec (c # s) = (code c - 48) * 10 ^ length s + undec s"
proof (induction s rule: rev_induct)
  case (snoc x s)
  have "undec (c # s @ [x]) = 10 * undec (c # s) + (code x - 48)"
    using undec_append [of "c # s" x] by simp
  then show ?case using snoc by (simp add: undec_append algebra_simps)
qed (simp add: undec_def)

lemma undec_less: "list_all is_digit s \<Longrightarrow> undec s < 10 ^ length s"
proof (induction s)
  case (Cons c s)
  then have "code c - 48 \<le> 9" "undec s < 10 ^ length s" by (auto simp: is_digit_def)
  then have "(code c - 48) * 10 ^ length s + undec s < 9 * 10 ^ length s + 10 ^ length s"
    by (intro add_le_less_mono mult_right_mono) auto
  then show ?case by (simp add: undec_Cons)
qed (simp add: undec_def)

lemma digits_less:
  assumes "length s = length t" and "list_all is_digit s" and "list_all is_digit t" and "undec s < undec t"
  shows "s < t"
  using assms
proof (induction s t rule: list_induct2)
  case (Cons c s d t)
  have b: "undec s < 10 ^ length s" "undec t < 10 ^ length s" 
    using Cons.prems Cons.hyps undec_less [of s] undec_less [of t] by simp_all
  have cd: "48 \<le> code c" "48 \<le> code d" using Cons.prems by (auto simp: is_digit_def)
  show ?case
  proof (cases "code c = code d")
    case True
    then show ?thesis using Cons by (simp add: undec_Cons code_eq_iff)
  next
    case False
    have "\<not> code d < code c"
    proof
      assume "code d < code c"
      then have "(code d - 48 + 1) * 10 ^ length s \<le> (code c - 48) * 10 ^ length s"
        using cd by (intro mult_right_mono) auto
      then show False using Cons b by (simp add: undec_Cons)
    qed
    then have "code c < code d" using False by linarith
    then have "c < d" by (simp add: less_char_def)
    then show ?thesis by simp
  qed
qed simp

lemma length_dec: "0 < w \<Longrightarrow> n < 10 ^ w \<Longrightarrow> length (dec n) \<le> w"
proof (induction w arbitrary: n)
  case (Suc w)
  show ?case
  proof (cases "n < 10")
    case True
    then show ?thesis by (subst dec.simps) simp
  next
    case False
    then have "0 < w" "n div 10 < 10 ^ w" using Suc.prems by (cases w; simp add: less_mult_imp_div_less)+
    then show ?thesis using Suc.IH False by (subst dec.simps) simp
  qed
qed simp

lemma length_pad0_eq: "0 < w \<Longrightarrow> n < 10 ^ w \<Longrightarrow> length (pad0 w n) = w"
  using length_dec [of w n] by (simp add: pad0_def)

lemma pad0_less: "0 < w \<Longrightarrow> m < n \<Longrightarrow> n < 10 ^ w \<Longrightarrow> pad0 w m < pad0 w n"
  by (rule digits_less) (simp_all add: length_pad0_eq pad0_digits)

lemma sorted_pad0: "k < 10 ^ w \<Longrightarrow> 0 < w \<Longrightarrow> sorted_wrt (<) (map (pad0 w) [1..<Suc k])"
  unfolding sorted_wrt_map
  by (rule sorted_wrt_mono_rel [OF _ sorted_wrt_upt]) (auto intro: pad0_less)

text \<open>Executions sorted by group are the concatenation of the groups' executions.\<close>

lemma concat_by_key:
  assumes "sorted_wrt (<) gs" and "sorted (map f xs)" and "f ` set xs \<subseteq> set gs"
  shows "concat (map (\<lambda>g. filter (\<lambda>x. f x = g) xs) gs) = (xs :: 'a list)"
  using assms
proof (induction gs arbitrary: xs)
  case (Cons g gs)
  have least: "\<forall>x \<in> set xs. g \<le> f x" using Cons.prems by fastforce
  have split: "filter (\<lambda>x. f x = g) xs @ filter (\<lambda>x. f x \<noteq> g) xs = xs"
    using Cons.prems(2) least
  proof (induction xs)
    case (Cons a xs)
    show ?case
    proof (cases "f a = g")
      case False
      then have "\<forall>x \<in> set xs. f x \<noteq> g" using Cons.prems by (auto dest: antisym)
      then show ?thesis using False by (simp add: filter_empty_conv filter_id_conv)
    qed (use Cons in simp)
  qed simp
  let ?ys = "filter (\<lambda>x. f x \<noteq> g) xs"
  have "filter (\<lambda>x. f x = h) xs = filter (\<lambda>x. f x = h) ?ys" if "h \<in> set gs" for h
    using that Cons.prems(1) by (auto intro!: filter_cong)
  then have "concat (map (\<lambda>h. filter (\<lambda>x. f x = h) xs) gs) = concat (map (\<lambda>h. filter (\<lambda>x. f x = h) ?ys) gs)"
    by (metis (mono_tags, lifting) map_eq_conv)
  also have "\<dots> = ?ys"
    using Cons.prems by (intro Cons.IH) (auto intro: sorted_filter)
  finally show ?case using split by simp
qed simp

subsection \<open>What a manifest that was read satisfies\<close>

definition manifest_wf :: "batch_manifest \<Rightarrow> bool" where
  "manifest_wf m \<longleftrightarrow>
     mf_groups m \<noteq> [] \<and> mf_revision m = length (mf_groups m) \<and> fullmatch datestamp_re (mf_datestamp m) \<and>
     map group_id (mf_groups m) = map (pad0 4) [1..<Suc (length (mf_groups m))] \<and>
     list_all (\<lambda>g. group_kind g \<in> {''io'', ''mdtest''} \<and>
       output_relative g = expected_output (mf_datestamp m) g) (mf_groups m) \<and>
     length (mf_executions m) \<le> 9999 \<and>
     map execution_id (mf_executions m) = map (pad0 4) [1..<Suc (length (mf_executions m))] \<and>
     sorted (map execution_group (mf_executions m)) \<and>
     set (map execution_group (mf_executions m)) = set (map group_id (mf_groups m))"

text \<open>A file of the batch has the recorded digest: its path stays inside the batch, without
  symbolic links, and its bytes hash to it.\<close>

definition digest_ok :: "fs_view \<Rightarrow> (string \<Rightarrow> string) \<Rightarrow> path \<Rightarrow> string \<Rightarrow> string \<Rightarrow> bool" where
  "digest_ok fs sha root relative digest =
     (case rbind (contained_path fs root relative) (read_regular fs) of
        Inl _ \<Rightarrow> False | Inr data \<Rightarrow> sha data = digest)"

definition exports_ok :: "fs_view \<Rightarrow> path \<Rightarrow> batch_group \<Rightarrow> batch_execution \<Rightarrow> bool" where
  "exports_ok fs root g e =
     (case rbind (contained_path fs root (''executions/'' @ execution_id e @ ''.sh''))
             (\<lambda>p. rbind (read_regular fs p) utf8_decode) of
        Inl _ \<Rightarrow> False
      | Inr content \<Rightarrow>
          export_value content ''ELBENCHO_EXECUTION_KIND'' = Inr (group_kind g) \<and>
          export_value content ''ELBENCHO_BATCH_GROUP_ID'' = Inr (group_id g) \<and>
          export_value content ''ELBENCHO_BATCH_OUTPUT_RELATIVE'' = Inr (output_relative g))"

definition files_ok :: "fs_view \<Rightarrow> (string \<Rightarrow> string) \<Rightarrow> batch_manifest \<Rightarrow> bool" where
  "files_ok fs sha m \<longleftrightarrow>
     list_all (\<lambda>g. digest_ok fs sha (mf_root m) (output_relative g @ ''/'' @ ENV_SHELL) (shell_digest g) \<and>
       digest_ok fs sha (mf_root m) (output_relative g @ ''/'' @ ENV_YAML) (yaml_digest g)) (mf_groups m) \<and>
     list_all (\<lambda>e. digest_ok fs sha (mf_root m) (''executions/'' @ execution_id e @ ''.sh'') (definition_digest e) \<and>
       list_ex (\<lambda>g. group_id g = execution_group e \<and> exports_ok fs (mf_root m) g e) (mf_groups m))
       (mf_executions m)"

lemma verify_digest_Inr:
  "verify_digest fs sha p d = Inr data \<longleftrightarrow> fullmatch digest_re d \<and> read_regular fs p = Inr data \<and> sha data = d"
  by (auto simp: verify_digest_def rbind_eq_Inr)

lemma digest_okI:
  "contained_path fs root rel = Inr p \<Longrightarrow> verify_digest fs sha p d = Inr data \<Longrightarrow> digest_ok fs sha root rel d"
  by (simp add: digest_ok_def verify_digest_Inr)

lemma validate_group_Inr:
  assumes "validate_group fs sha root ds n g = Inr ()"
  shows "group_id g = pad0 4 n \<and> group_kind g \<in> {''io'', ''mdtest''} \<and> output_relative g = expected_output ds g \<and>
    digest_ok fs sha root (output_relative g @ ''/'' @ ENV_SHELL) (shell_digest g) \<and>
    digest_ok fs sha root (output_relative g @ ''/'' @ ENV_YAML) (yaml_digest g)"
  using assms unfolding validate_group_def rbind_eq_Inr check_eq_Inr by (blast intro: digest_okI)

lemma validate_groups_from_Inr:
  assumes "validate_groups_from fs sha root ds n gs = Inr ()"
  shows "map group_id gs = map (pad0 4) [n..<n + length gs] \<and>
    list_all (\<lambda>g. group_kind g \<in> {''io'', ''mdtest''} \<and> output_relative g = expected_output ds g) gs \<and>
    list_all (\<lambda>g. digest_ok fs sha root (output_relative g @ ''/'' @ ENV_SHELL) (shell_digest g) \<and>
       digest_ok fs sha root (output_relative g @ ''/'' @ ENV_YAML) (yaml_digest g)) gs"
  using assms
proof (induction gs arbitrary: n)
  case (Cons g gs)
  then have g: "validate_group fs sha root ds n g = Inr ()"
    and gs: "validate_groups_from fs sha root ds (Suc n) gs = Inr ()" by (auto simp: rbind_eq_Inr)
  have u: "[n..<n + length (g # gs)] = n # [Suc n..<Suc n + length gs]" by (simp add: upt_rec)
  show ?case unfolding u list.map list.pred_inject list.inject
    using Cons.IH [OF gs] validate_group_Inr [OF g] by blast
qed simp

lemma dict_set_dom: "fst ` set (dict_set k v d) = insert k (fst ` set d)"
proof -
  have "set (dict_keys (dict_set k v d)) = insert k (set (dict_keys d))" by (auto simp only: dict_keys_set split: if_splits) auto
  then show ?thesis by simp
qed

lemma group_map_keys: "set (dict_keys (group_map gs)) = group_id ` set gs"
proof -
  have "set (dict_keys (fold (\<lambda>g. dict_set (group_id g) g) gs d)) = set (dict_keys d) \<union> group_id ` set gs" for d
    by (induction gs arbitrary: d) (auto simp: dict_set_dom)
  then show ?thesis by (simp add: group_map_def)
qed

lemma group_map_get:
  assumes "dict_get (group_map gs) k = Some g"
  shows "g \<in> set gs \<and> group_id g = k"
proof -
  have "dict_get (fold (\<lambda>g. dict_set (group_id g) g) gs d) k = Some g \<Longrightarrow>
      dict_get d k = Some g \<or> g \<in> set gs \<and> group_id g = k" for d
  proof (induction gs arbitrary: d)
    case (Cons a gs)
    then have "dict_get (dict_set (group_id a) a d) k = Some g \<or> g \<in> set gs \<and> group_id g = k"
      by (simp only: fold.simps comp_apply)
    then show ?case by (auto split: if_splits)
  qed simp
  from this [of "[]"] show ?thesis using assms by (simp add: group_map_def)
qed

lemma validate_definition_Inr:
  assumes "validate_definition fs sha root g e = Inr ()"
  shows "digest_ok fs sha root (''executions/'' @ execution_id e @ ''.sh'') (definition_digest e)"
    and "exports_ok fs root g e"
proof -
  obtain p data content where p: "contained_path fs root (''executions/'' @ execution_id e @ ''.sh'') = Inr p"
    and d: "verify_digest fs sha p (definition_digest e) = Inr data" and c: "utf8_decode data = Inr content"
    and x: "each (\<lambda>(name, val). rbind (export_value content name) (\<lambda>v.
         check (v = val) (ValueError (''Execution '' @ execution_id e @ '' has incorrect '' @ name))))
       [(''ELBENCHO_EXECUTION_KIND'', group_kind g), (''ELBENCHO_BATCH_GROUP_ID'', group_id g),
        (''ELBENCHO_BATCH_OUTPUT_RELATIVE'', output_relative g)] = Inr ()"
    using assms unfolding validate_definition_def rbind_eq_Inr by blast
  show "digest_ok fs sha root (''executions/'' @ execution_id e @ ''.sh'') (definition_digest e)"
    using p d by (rule digest_okI)
  show "exports_ok fs root g e"
    using x d c unfolding exports_ok_def p verify_digest_Inr by (auto simp: each_eq_Inr rbind_eq_Inr)
qed

lemma validate_executions_from_Inr:
  assumes "validate_executions_from fs sha root gm n prev mem es = Inr mem'"
  shows "map execution_id es = map (pad0 4) [n..<n + length es] \<and> (es \<noteq> [] \<longrightarrow> n + length es \<le> 10000) \<and>
    sorted (prev # map execution_group es) \<and> mem' = mem \<union> execution_group ` set es \<and>
    list_all (\<lambda>e. \<exists>g. dict_get gm (execution_group e) = Some g \<and> validate_definition fs sha root g e = Inr ()) es"
  using assms
proof (induction es arbitrary: n prev mem)
  case (Cons e es)
  then obtain g where e: "n \<le> 9999" "execution_id e = pad0 4 n" "dict_get gm (execution_group e) = Some g"
    "prev \<le> execution_group e" "validate_definition fs sha root g e = Inr ()"
    and rest: "validate_executions_from fs sha root gm (Suc n) (execution_group e)
       (insert (execution_group e) mem) es = Inr mem'"
    by (auto simp: rbind_eq_Inr not_less)
  have "[n..<n + length (e # es)] = n # [Suc n..<Suc n + length es]" by (simp add: upt_rec)
  then show ?case using Cons.IH [OF rest] e by (cases es) auto
qed simp

lemma validate_headers_Inr:
  assumes "validate_headers headers n = Inr (revision, ds)"
  shows "revision = n \<and> 0 < n \<and> fullmatch datestamp_re ds"
proof -
  have pos: "0 < undec r" if "fullmatch positive_re r" for r
  proof -
    from that obtain c u where "r = c # u" "is_digit c" "c \<noteq> CHR ''0''"
      by (auto simp: positive_re_def fullmatch_cls_seq)
    moreover have "code c \<noteq> 48" using calculation(3) by (auto simp: code_eq_iff)
    moreover from calculation have "0 < code c - 48" by (simp add: is_digit_def)
    ultimately show ?thesis by (simp add: undec_Cons)
  qed
  show ?thesis using assms pos by (auto simp: validate_headers_def Let_def split: if_splits)
qed

lemma read_batch_manifest_Inr:
  assumes "read_batch_manifest fs sha p = Inr m"
  obtains headers data where "parse_records data = Inr (headers, mf_groups m, mf_executions m)"
    "validate_headers headers (length (mf_groups m)) = Inr (mf_revision m, mf_datestamp m)"
    "validate_groups fs sha (mf_root m) (mf_groups m) (mf_datestamp m) = Inr ()"
    "validate_executions fs sha (mf_root m) (mf_groups m) (mf_executions m) = Inr ()"
    "read_regular fs (mf_root m @ [MANIFEST_FILENAME]) = Inr data" "mf_digest m = sha data"
    "check_seal fs (mf_root m) (mf_digest m) = Inr ()"
  using assms unfolding read_batch_manifest_def Let_def rbind_eq_Inr
  by (auto split: prod.splits if_splits simp: rbind_eq_Inr)

lemma read_manifest_wf:
  assumes "read_batch_manifest fs sha p = Inr m"
  shows "manifest_wf m" and "files_ok fs sha m"
proof -
  obtain headers where h: "validate_headers headers (length (mf_groups m)) = Inr (mf_revision m, mf_datestamp m)"
    and g: "validate_groups_from fs sha (mf_root m) (mf_datestamp m) 1 (mf_groups m) = Inr ()"
    and e: "validate_executions fs sha (mf_root m) (mf_groups m) (mf_executions m) = Inr ()"
    using read_batch_manifest_Inr [OF assms] unfolding validate_groups_def by metis
  obtain mem where mem: "validate_executions_from fs sha (mf_root m) (group_map (mf_groups m)) 1 [] {} (mf_executions m) = Inr mem"
    and all: "mem = set (dict_keys (group_map (mf_groups m)))"
    using e by (auto simp: validate_executions_def rbind_eq_Inr)
  note hs = validate_headers_Inr [OF h] and gs = validate_groups_from_Inr [OF g]
    and es = validate_executions_from_Inr [OF mem]
  have "set (map execution_group (mf_executions m)) = set (map group_id (mf_groups m))"
    using es all group_map_keys [of "mf_groups m"] by auto
  moreover have "length (mf_executions m) \<le> 9999" using es by (cases "mf_executions m = []") auto
  ultimately show "manifest_wf m"
    using hs gs es unfolding manifest_wf_def by (cases "mf_groups m = []") (simp_all del: upt_Suc set_map)
  have "digest_ok fs sha (mf_root m) (''executions/'' @ execution_id e @ ''.sh'') (definition_digest e) \<and>
       list_ex (\<lambda>g. group_id g = execution_group e \<and> exports_ok fs (mf_root m) g e) (mf_groups m)"
    if e_in: "e \<in> set (mf_executions m)" for e
  proof -
    obtain g where g: "dict_get (group_map (mf_groups m)) (execution_group e) = Some g"
      and v: "validate_definition fs sha (mf_root m) g e = Inr ()" using es e_in by (auto simp: list_all_iff)
    show ?thesis using group_map_get [OF g] validate_definition_Inr [OF v] by (auto simp: list_ex_iff)
  qed
  then have "list_all (\<lambda>e. digest_ok fs sha (mf_root m) (''executions/'' @ execution_id e @ ''.sh'') (definition_digest e) \<and>
       list_ex (\<lambda>g. group_id g = execution_group e \<and> exports_ok fs (mf_root m) g e) (mf_groups m))
       (mf_executions m)" by (simp add: list_all_iff)
  then show "files_ok fs sha m" using gs by (simp add: files_ok_def)
qed

lemma manifest_wfD:
  assumes "manifest_wf m"
  shows "map group_id (mf_groups m) = map (pad0 4) [1..<Suc (length (mf_groups m))]"
    and "length (mf_executions m) \<le> 9999" and "sorted (map execution_group (mf_executions m))"
    and "execution_group ` set (mf_executions m) = group_id ` set (mf_groups m)"
  using assms unfolding manifest_wf_def set_map by blast+

lemma wf_groups_bound:
  assumes "manifest_wf m"
  shows "length (mf_groups m) \<le> 9999"
proof -
  note wf = manifest_wfD [OF assms]
  have "distinct (map group_id (mf_groups m))"
    unfolding wf(1) by (rule distinct_map [THEN iffD2]) (simp add: inj_on_def del: upt_Suc)
  then have "length (mf_groups m) = card (group_id ` set (mf_groups m))"
    by (metis distinct_card length_map list.set_map)
  also have "\<dots> \<le> length (mf_executions m)"
    unfolding wf(4) [symmetric] using card_image_le [OF List.finite_set] card_length le_trans by blast
  finally show ?thesis using wf(2) by simp
qed

lemma wf_executions_by_group:
  assumes "manifest_wf m"
  shows "concat (map (\<lambda>g. group_executions m (group_id g)) (mf_groups m)) = mf_executions m"
proof -
  note wf = manifest_wfD [OF assms]
  have "sorted_wrt (<) (map group_id (mf_groups m))"
    unfolding wf(1) using wf_groups_bound [OF assms] by (intro sorted_pad0) simp_all
  then show ?thesis
    using concat_by_key [of "map group_id (mf_groups m)" execution_group "mf_executions m"] wf(3,4)
    by (simp add: group_executions_def comp_def)
qed

text \<open>C4. Reading a batch establishes its integrity: in every manifest that is read, the groups
  and the executions are numbered consecutively from 0001, kinds and output paths are
  the expected ones, the executions come group by group and reach every group; and
  every snapshot and every definition lies inside the batch, hashes to its recorded
  digest, and each definition exports the kind, id and output path of its group.\<close>

theorem read_batch_manifest_sound:
  assumes "read_batch_manifest fs sha p = Inr m"
  shows "manifest_wf m \<and> files_ok fs sha m"
  using read_manifest_wf [OF assms] by blast

text \<open>The executions of a batch are exactly its groups' executions, in order: concatenating
  the executions of the groups gives the global execution list, and no group is empty.\<close>

theorem group_executions_partition:
  assumes "read_batch_manifest fs sha p = Inr m"
  shows "concat (map (\<lambda>g. group_executions m (group_id g)) (mf_groups m)) = mf_executions m \<and>
    list_all (\<lambda>g. group_executions m (group_id g) \<noteq> []) (mf_groups m)"
proof -
  have wf: "manifest_wf m" by (rule read_manifest_wf [OF assms])
  have "\<exists>e \<in> set (mf_executions m). execution_group e = group_id g" if "g \<in> set (mf_groups m)" for g
    using manifest_wfD(4) [OF wf] that by (metis imageE imageI)
  then have "list_all (\<lambda>g. group_executions m (group_id g) \<noteq> []) (mf_groups m)"
    by (simp add: list_all_iff group_executions_def filter_empty_conv)
  then show ?thesis using wf_executions_by_group [OF wf] by blast
qed

text \<open>Batch paths stay inside the batch: a path the batch code accepts is below the root,
  without parent components, no component below the root is a symbolic link, and it
  still is below the root after resolving.\<close>

theorem contained_path_safe:
  assumes "contained_path fs root relative = Inr p"
  shows "strict_prefix root p \<and> ''..'' \<notin> set (drop (length root) p) \<and> prefix root (fs_resolve fs p) \<and>
    (\<forall>q. prefix q p \<and> strict_prefix root q \<longrightarrow> \<not> fs_symlink fs q)"
proof -
  let ?parts = "path_parts relative"
  have p: "p = root @ ?parts" "?parts \<noteq> []" "''..'' \<notin> set ?parts" "prefix root (fs_resolve fs p)"
    and links: "filter (fs_symlink fs) (map (\<lambda>k. root @ take (Suc k) ?parts) [0..<length ?parts]) = []"
    using assms by (auto simp: contained_path_def Let_def list_ex_iff simp del: filter_empty_conv split: if_splits)
  have "\<not> fs_symlink fs q" if qp: "prefix q p" and qr: "strict_prefix root q" for q
  proof -
    obtain r where q: "q = root @ r" "r \<noteq> []" using qr by (auto simp: strict_prefix_def prefix_def)
    then have "prefix r ?parts" using qp p(1) by simp
    then have "r = take (length r) ?parts" "length r \<le> length ?parts"
      by (auto simp: prefix_def)
    moreover obtain n where "length r = Suc n" using q by (cases r) auto
    ultimately have "q \<in> set (map (\<lambda>k. root @ take (Suc k) ?parts) [0..<length ?parts])"
      using q by (auto simp: image_iff intro!: bexI [of _ n])
    then show ?thesis using links by (metis (mono_tags, lifting) filter_empty_conv)
  qed
  then show ?thesis using p by (auto simp: strict_prefix_def)
qed

subsection \<open>Reading back the text of a manifest\<close>

definition field_ok :: "string \<Rightarrow> bool" where
  "field_ok f \<longleftrightarrow> list_all (\<lambda>c. c \<noteq> TAB \<and> \<not> line_boundary c) f"

definition group_fields :: "batch_group \<Rightarrow> string list" where
  "group_fields g = [''group'', group_id g, group_kind g, output_relative g, shell_digest g, yaml_digest g]"

definition execution_fields :: "batch_execution \<Rightarrow> string list" where
  "execution_fields e = [''execution'', execution_id e, execution_group e, definition_digest e]"

definition manifest_lines :: "string \<Rightarrow> string \<Rightarrow> batch_group list \<Rightarrow> batch_execution list \<Rightarrow> string list" where
  "manifest_lines revision datestamp groups executions =
     map (join [TAB]) ([[''version'', ''1''], [''revision'', revision], [''datestamp'', datestamp]] @
       map group_fields groups @ map execution_fields executions)"

definition manifest_text :: "string \<Rightarrow> string \<Rightarrow> batch_group list \<Rightarrow> batch_execution list \<Rightarrow> string" where
  "manifest_text revision datestamp groups executions =
     concat (map (\<lambda>l. l @ [LF]) (manifest_lines revision datestamp groups executions))"

lemma field_ok_join:
  "\<forall>f \<in> set fs. field_ok f \<Longrightarrow> c \<in> set (join [TAB] fs) \<Longrightarrow> \<not> line_boundary c"
proof (induction "[TAB]" fs rule: join.induct)
  case (3 w v ws)
  have "\<not> line_boundary TAB" by (simp add: line_boundary_def)
  then show ?case using 3 by (auto simp: field_ok_def list_all_iff)
qed (auto simp: field_ok_def list_all_iff)

lemma split_fields: "fs \<noteq> [] \<Longrightarrow> \<forall>f \<in> set fs. field_ok f \<Longrightarrow> split_on TAB (join [TAB] fs) = fs"
  by (rule split_on_join) (auto simp: field_ok_def list_all_iff)

definition group_ok :: "batch_group \<Rightarrow> bool" where
  "group_ok g \<longleftrightarrow> list_all field_ok (group_fields g)"

definition execution_ok :: "batch_execution \<Rightarrow> bool" where
  "execution_ok e \<longleftrightarrow> list_all field_ok (execution_fields e)"

lemma parse_group_record:
  "group_ok g \<Longrightarrow> parse_record (join [TAB] (group_fields g)) (hs, gs, es) = Inr (hs, gs @ [g], es)"
  unfolding parse_record_def by (subst split_fields) (simp_all add: group_ok_def group_fields_def list_all_iff)

lemma parse_execution_record:
  "execution_ok e \<Longrightarrow> parse_record (join [TAB] (execution_fields e)) (hs, gs, es) = Inr (hs, gs, es @ [e])"
  unfolding parse_record_def by (subst split_fields) (simp_all add: execution_ok_def execution_fields_def list_all_iff)

lemma parse_header_record:
  assumes "field_ok v" and "tag \<in> {''version'', ''revision'', ''datestamp''}" and "dict_get hs tag = None"
  shows "parse_record (join [TAB] [tag, v]) (hs, gs, es) = Inr (dict_set tag v hs, gs, es)"
proof -
  have "field_ok tag" using assms(2) by (auto simp: field_ok_def line_boundary_def)
  then have "split_on TAB (join [TAB] [tag, v]) = [tag, v]" using assms(1) by (intro split_fields) auto
  then show ?thesis using assms(2,3) by (simp add: parse_record_def)
qed

lemma rfold_groups:
  "list_all group_ok groups \<Longrightarrow>
   rfold parse_record (map (\<lambda>g. join [TAB] (group_fields g)) groups) (hs, gs, es) = Inr (hs, gs @ groups, es)"
  by (induction groups arbitrary: gs) (simp_all add: parse_group_record)

lemma rfold_executions:
  "list_all execution_ok executions \<Longrightarrow>
   rfold parse_record (map (\<lambda>e. join [TAB] (execution_fields e)) executions) (hs, gs, es) =
     Inr (hs, gs, es @ executions)"
  by (induction executions arbitrary: es) (simp_all add: parse_execution_record)

lemma manifest_lines_boundary:
  assumes "field_ok revision" and "field_ok datestamp" and "list_all group_ok groups" and "list_all execution_ok executions"
    and "l \<in> set (manifest_lines revision datestamp groups executions)" and "c \<in> set l"
  shows "\<not> line_boundary c"
proof -
  have tags: "field_ok ''version''" "field_ok ''1''" "field_ok ''revision''" "field_ok ''datestamp''"
    by (simp_all add: field_ok_def line_boundary_def)
  obtain fs where l: "l = join [TAB] fs"
    and "fs \<in> set ([[''version'', ''1''], [''revision'', revision], [''datestamp'', datestamp]] @
       map group_fields groups @ map execution_fields executions)"
    using assms(5) unfolding manifest_lines_def set_map by blast
  then have "\<forall>f \<in> set fs. field_ok f"
    using assms(1-4) tags by (auto simp: group_ok_def execution_ok_def list_all_iff)
  then show ?thesis using field_ok_join assms(6) l by blast
qed

text \<open>C12. The text of a manifest is read back exactly: for fields without tabs and line boundaries,
  parsing the encoded text yields the three headers, the groups and the executions,
  in the order in which they were written.\<close>

theorem parse_records_round_trip:
  assumes "field_ok revision" and "field_ok datestamp" and "list_all group_ok groups" and "list_all execution_ok executions"
  shows "parse_records (utf8_encode (manifest_text revision datestamp groups executions)) =
    Inr ([(''version'', ''1''), (''revision'', revision), (''datestamp'', datestamp)], groups, executions)"
proof -
  have v: "field_ok ''1''" by (simp add: field_ok_def line_boundary_def)
  have lines: "splitlines (manifest_text revision datestamp groups executions) =
      manifest_lines revision datestamp groups executions"
    unfolding manifest_text_def using manifest_lines_boundary [OF assms] by (intro splitlines_lines) blast
  have "rfold parse_record (map (join [TAB]) [[''version'', ''1''], [''revision'', revision], [''datestamp'', datestamp]])
      ([], [], []) = Inr ([(''version'', ''1''), (''revision'', revision), (''datestamp'', datestamp)], [], [])"
    using parse_header_record [OF v, of "''version''" "[]" "[]" "[]"]
      parse_header_record [OF assms(1), of "''revision''" "[(''version'', ''1'')]" "[]" "[]"]
      parse_header_record [OF assms(2), of "''datestamp''" "[(''version'', ''1''), (''revision'', revision)]" "[]" "[]"]
    by simp
  then have "rfold parse_record (manifest_lines revision datestamp groups executions) ([], [], []) =
      Inr ([(''version'', ''1''), (''revision'', revision), (''datestamp'', datestamp)], groups, executions)"
    unfolding manifest_lines_def map_append rfold_append using assms(3,4)
    by (simp add: rfold_groups rfold_executions comp_def del: list.map rfold.simps)
  then show ?thesis by (simp add: parse_records_def lines)
qed

subsection \<open>A concrete batch\<close>

text \<open>A digest function for examples: the length, in 64 hexadecimal digits.\<close>

definition length_digest :: "string \<Rightarrow> string" where
  "length_digest s = pad0 64 (length s)"

definition sample_definition :: string where
  "sample_definition = ''export ELBENCHO_EXECUTION_KIND=io'' @ [LF] @ ''export ELBENCHO_BATCH_GROUP_ID=0001'' @ [LF] @
     ''export ELBENCHO_BATCH_OUTPUT_RELATIVE=groups/0001/elbencho-20260101Z000000'' @ [LF] @
     ''export nodes=2'' @ [LF] @ ''export io_size=4K'' @ [LF] @ ''export thread_count=8'' @ [LF] @ ''export io_depth=1'' @ [LF]"

definition sample_group :: batch_group where
  "sample_group = \<lparr> group_id = ''0001'', group_kind = ''io'',
     output_relative = ''groups/0001/elbencho-20260101Z000000'',
     shell_digest = length_digest ''a'', yaml_digest = length_digest ''b: 1'' \<rparr>"

definition sample_execution :: batch_execution where
  "sample_execution = \<lparr> execution_id = ''0001'', execution_group = ''0001'',
     definition_digest = length_digest sample_definition \<rparr>"

definition sample_root :: path where "sample_root = [''data'', ''batch'']"

definition sample_output :: path where
  "sample_output = sample_root @ [''groups'', ''0001'', ''elbencho-20260101Z000000'']"

definition sample_text :: string where
  "sample_text = manifest_text ''1'' ''20260101Z000000'' [sample_group] [sample_execution]"

definition sample_files :: "(path \<times> string) list" where
  "sample_files =
     [(sample_root @ [''batch-manifest.tsv''], sample_text),
      (sample_output @ [''env_used.sh''], ''a''),
      (sample_output @ [''env_used.yaml''], ''b: 1''),
      (sample_output @ [''elbencho-4K-c_002-s_008-d_001_20260101Z000000.csv''], ''x''),
      (sample_output @ [''elbencho-4K-c_002-s_008-d_001_20260101Z000000.out''], ''y''),
      (sample_root @ [''executions'', ''0001.sh''], sample_definition),
      (sample_root @ [''executions'', ''0001.status''], ''SUCCESS'' @ [LF])]"

definition sample_manifest :: batch_manifest where
  "sample_manifest = \<lparr> mf_root = sample_root, mf_revision = 1, mf_datestamp = ''20260101Z000000'',
     mf_groups = [sample_group], mf_executions = [sample_execution], mf_digest = length_digest sample_text \<rparr>"

lemma read_sample: "read_batch_manifest (regular_files sample_files) length_digest sample_root = Inr sample_manifest"
  by code_simp

theorem read_batch_manifest_sound_witness:
  "read_batch_manifest (regular_files sample_files) length_digest sample_root = Inr sample_manifest \<and>
   manifest_wf sample_manifest \<and> files_ok (regular_files sample_files) length_digest sample_manifest"
  using read_sample read_batch_manifest_sound [OF read_sample] by blast

theorem group_executions_partition_witness:
  "concat (map (\<lambda>g. group_executions sample_manifest (group_id g)) (mf_groups sample_manifest)) = [sample_execution]"
  using group_executions_partition [OF read_sample] by (simp add: sample_manifest_def)

theorem contained_path_safe_witness:
  "strict_prefix sample_root sample_output"
  by (rule contained_path_safe [of "regular_files sample_files" sample_root
        "''groups/0001//elbencho-20260101Z000000''" sample_output, THEN conjunct1]) code_simp

theorem parse_records_round_trip_witness:
  "parse_records (utf8_encode sample_text) =
     Inr ([(''version'', ''1''), (''revision'', ''1''), (''datestamp'', ''20260101Z000000'')],
          [sample_group], [sample_execution])"
proof -
  have "field_ok ''1''" "field_ok ''20260101Z000000''" "list_all group_ok [sample_group]"
    "list_all execution_ok [sample_execution]" by code_simp+
  then show ?thesis unfolding sample_text_def by (rule parse_records_round_trip)
qed

end
