(* ===== verification/PyNumbers.thy ===== *)
theory PyNumbers
  imports PyValues PyRegex
begin

section \<open>Numeric comparisons of dynamically typed values\<close>

text \<open>
  A float is kept as the text Python prints for it. That text is the shortest decimal
  number that rounds to the float, so comparing it with an integer below \<open>2^53\<close> gives the
  answer of comparing the float, and two floats are equal when their texts denote the
  same number. \<open>decimal\<close> reads such a text as mantissa and power of ten; \<^verbatim>\<open>inf\<close> and \<^verbatim>\<open>nan\<close>
  denote none.
\<close>

definition decimal_unsigned :: "string \<Rightarrow> (int \<times> int) option" where
  "decimal_unsigned s =
     (let whole = takeWhile is_digit s; r1 = dropWhile is_digit s;
          dotted = r1 \<noteq> [] \<and> hd r1 = CHR ''.'';
          frac = (if dotted then takeWhile is_digit (tl r1) else []);
          r2 = (if dotted then dropWhile is_digit (tl r1) else r1);
          mantissa = int (undec (whole @ frac));
          shift = - int (length frac)
      in if whole = [] then None
         else if r2 = [] then Some (mantissa, shift)
         else if hd r2 = CHR ''e'' then
           (case py_int (tl r2) of Inr e \<Rightarrow> Some (mantissa, shift + e) | Inl _ \<Rightarrow> None)
         else None)"

definition decimal :: "string \<Rightarrow> (int \<times> int) option" where
  "decimal s =
     (if s \<noteq> [] \<and> hd s = CHR ''-'' then map_option (\<lambda>(m, e). (- m, e)) (decimal_unsigned (tl s))
      else decimal_unsigned s)"

definition number_of :: "pyval \<Rightarrow> (int \<times> int) option" where
  "number_of v = (case v of
       PInt i \<Rightarrow> Some (i, 0)
     | PBool b \<Rightarrow> Some (of_bool b, 0)
     | PFloat t \<Rightarrow> decimal t
     | _ \<Rightarrow> None)"

text \<open>Comparing \<open>m * 10 ^ e\<close> with \<open>n * 10 ^ f\<close>.\<close>

definition scaled_le :: "int \<times> int \<Rightarrow> int \<times> int \<Rightarrow> bool" where
  "scaled_le p q =
     (let k = min (snd p) (snd q) in fst p * 10 ^ nat (snd p - k) \<le> fst q * 10 ^ nat (snd q - k))"

definition is_float :: "pyval \<Rightarrow> bool" where
  "is_float v = (case v of PFloat _ \<Rightarrow> True | _ \<Rightarrow> False)"

text \<open>\<^verbatim>\<open>math.isfinite\<close> of a float\<close>

definition finite_float :: "pyval \<Rightarrow> bool" where
  "finite_float v = (number_of v \<noteq> None)"

definition num_le :: "pyval \<Rightarrow> pyval \<Rightarrow> bool" where
  "num_le v w = (case (number_of v, number_of w) of
       (Some p, Some q) \<Rightarrow> scaled_le p q
     | (None, Some _) \<Rightarrow> v = PFloat ''-inf''
     | (Some _, None) \<Rightarrow> w = PFloat ''inf''
     | (None, None) \<Rightarrow> v = w \<and> v \<noteq> PFloat ''nan'' \<or> v = PFloat ''-inf'' \<and> w = PFloat ''inf'')"

text \<open>\<^verbatim>\<open>v == w\<close> of scalars: numbers by value, everything else by structure.\<close>

definition py_eq :: "pyval \<Rightarrow> pyval \<Rightarrow> bool" where
  "py_eq v w = (case (number_of v, number_of w) of
       (Some p, Some q) \<Rightarrow> scaled_le p q \<and> scaled_le q p
     | _ \<Rightarrow> v = w \<and> v \<noteq> PFloat ''nan'')"

lemma scaled_le_refl [simp]: "scaled_le p p"
  by (simp add: scaled_le_def)

lemma scaled_le_int [simp]: "scaled_le (i, 0) (j, 0) \<longleftrightarrow> i \<le> j"
  by (simp add: scaled_le_def)

lemma py_eq_refl: "v \<noteq> PFloat ''nan'' \<Longrightarrow> py_eq v v"
  by (auto simp: py_eq_def split: option.splits)

lemma py_eq_PStr [simp]: "py_eq (PStr s) v \<longleftrightarrow> v = PStr s" "py_eq v (PStr s) \<longleftrightarrow> v = PStr s"
  by (auto simp: py_eq_def number_of_def split: option.splits)

lemma py_eq_PInt [simp]: "py_eq (PInt i) (PInt j) \<longleftrightarrow> i = j"
  by (auto simp: py_eq_def number_of_def)

end
