(* ===== verification/ReportOptions.thy ===== *)
theory ReportOptions
  imports PyNumbers StorageTarget
begin

section \<open>Report options and input checks (lib/filesystem\_report\_options.py)\<close>

text \<open>
  The options every filesystem reporter accepts, the values they take when a saved document is
  rendered again, the integer filters, the checks of input and output directories,
  and the forwarding of options to the reporters of the selected kinds.

  A parsed argument namespace is a dictionary from destinations to values; a missing
  destination is \<open>PNone\<close> for \<^verbatim>\<open>getattr(args, name, None)\<close>. \<^verbatim>\<open>os.path.realpath\<close>, \<^verbatim>\<open>isdir\<close> and \<^verbatim>\<open>isfile\<close> are arguments
  of the checks that call them.
\<close>

subsection \<open>The option table\<close>

record report_option =
  ro_flag :: string
  ro_scope :: string
  ro_help :: string
  ro_action :: "string option"
  ro_type :: "string option"
  ro_default :: "pyval option"
  ro_choices :: "string list"
  ro_metavar :: "string option"
  ro_recorded :: "string option"
  ro_fixed :: bool

definition REQUIRE_COMPLETE_FLAG :: string where "REQUIRE_COMPLETE_FLAG = ''--require-complete''"
definition LIVE_DETAIL_FLAG :: string where "LIVE_DETAIL_FLAG = ''--live-detail''"
definition SHORTFALL_FLAG :: string where "SHORTFALL_FLAG = ''--client-shortfall-percent''"
definition SHORTFALL_LIMIT_PERCENT :: int where "SHORTFALL_LIMIT_PERCENT = 50"
definition RESULTS_FRAGMENT_FLAG :: string where "RESULTS_FRAGMENT_FLAG = ''--results-fragment''"
definition RESULTS_LIVE_DIR_FLAG :: string where "RESULTS_LIVE_DIR_FLAG = ''--results-live-dir''"
definition BATCH_GROUP_FLAG :: string where "BATCH_GROUP_FLAG = ''--batch-group''"
definition FROM_JSON_FLAG :: string where "FROM_JSON_FLAG = ''--from-json''"
definition COMPARISONS_FLAG :: string where "COMPARISONS_FLAG = ''--comparisons''"
definition DOCUMENT_DIR_PREFIX :: string where "DOCUMENT_DIR_PREFIX = ''d''"
definition LIVE_DETAIL_LEVELS :: "string list" where
  "LIVE_DETAIL_LEVELS = [''none'', ''summary'', ''selected'', ''full'']"
definition BATCH_CONSUMED_FLAGS :: "string list" where "BATCH_CONSUMED_FLAGS = [REQUIRE_COMPLETE_FLAG]"

definition flag_option :: "string \<Rightarrow> string \<Rightarrow> string \<Rightarrow> report_option" where
  "flag_option flag scope text =
     \<lparr> ro_flag = flag, ro_scope = scope, ro_help = text, ro_action = Some ''store_true'', ro_type = None,
       ro_default = None, ro_choices = [], ro_metavar = None, ro_recorded = None, ro_fixed = False \<rparr>"

definition value_option :: "string \<Rightarrow> string \<Rightarrow> string \<Rightarrow> string \<Rightarrow> report_option" where
  "value_option flag scope text metavar =
     \<lparr> ro_flag = flag, ro_scope = scope, ro_help = text, ro_action = None, ro_type = None,
       ro_default = None, ro_choices = [], ro_metavar = Some metavar, ro_recorded = None, ro_fixed = False \<rparr>"

definition REPORT_OPTIONS :: "report_option list" where
  "REPORT_OPTIONS =
    [flag_option ALLOW_MIXED_TARGETS_FLAG ''common''
       (''Combine results from different storage targets in one report, '' @
        ''labelled '' @ [CHR 0x27] @ ''mixed: ...'' @ [CHR 0x27] @ '', instead of refusing them. A batch never needs '' @
        ''this: it reports each group separately.''),
     value_option ''--only-threads'' ''common'' ''Thread counts: comma lists or ranges.'' ''THREADS'',
     value_option ''--only-nodes'' ''common'' ''Node counts: comma lists or ranges.'' ''NODES'',
     value_option ''--test-parse'' ''common'' ''Inspect one raw result without reporting.'' ''FILE'',
     flag_option REQUIRE_COMPLETE_FLAG ''common''
       ''After writing results.json, exit 3 if any execution is not complete.'',
     (value_option ''--only-sizes'' ''io''
       (''IO sizes; repeat or use '' @ [CHR 0x27] @ '';'' @ [CHR 0x27] @ ''. Commas stay within compound sizes.'')
       ''SIZE'') \<lparr> ro_action := Some ''append'' \<rparr>,
     value_option ''--only-iodepths'' ''io'' ''IO depths: comma lists or ranges.'' ''IODEPTHS'',
     (flag_option ''--no-dual-y-axis'' ''io'' ''Use separate throughput/latency axes.'')
       \<lparr> ro_recorded := Some ''no_dual_y_axis'' \<rparr>,
     (value_option SHORTFALL_FLAG ''io'' ''Slow client shortfall below the fleet median, percent.'' ''PCT'')
       \<lparr> ro_type := Some ''float'', ro_default := Some (PFloat ''5.0''),
         ro_recorded := Some ''shortfall_percent'', ro_fixed := True \<rparr>,
     (value_option ''--client-min-slow-windows'' ''io''
       ''Minimum 5 s windows at twice the shortfall for a transient client.'' ''N'')
       \<lparr> ro_type := Some ''int'', ro_default := Some (PInt 3),
         ro_recorded := Some ''min_slow_windows'', ro_fixed := True \<rparr>,
     (value_option ''--client-max-timeseries-lines'' ''io'' ''Maximum client lines per time-series plot.'' ''N'')
       \<lparr> ro_type := Some ''int'', ro_default := Some (PInt 10),
         ro_recorded := Some ''client_max_timeseries_lines'' \<rparr>,
     (value_option ''--client-max-heatmap-rows'' ''io'' ''Maximum clients per heatmap.'' ''N'')
       \<lparr> ro_type := Some ''int'', ro_default := Some (PInt 50),
         ro_recorded := Some ''client_max_heatmap_rows'' \<rparr>,
     (value_option ''--live-detail'' ''io''
       (''Live CSV detail to keep: none, summary, selected, or full (default). '' @
        ''Below full, per-client plots and charts are omitted.'') ''LEVEL'')
       \<lparr> ro_choices := LIVE_DETAIL_LEVELS, ro_default := Some (PStr ''full''), ro_recorded := Some ''live_detail'' \<rparr>,
     (value_option ''--normalize-to'' ''mdtest'' ''Scale metadata rates/stddev to N nodes; not latency.'' ''N'')
       \<lparr> ro_type := Some ''int'', ro_recorded := Some ''normalize_to'' \<rparr>]"

definition INTERNAL_OPTIONS :: "report_option list" where
  "INTERNAL_OPTIONS =
    [value_option RESULTS_FRAGMENT_FLAG ''common'' ''==SUPPRESS=='' ''PATH'',
     value_option RESULTS_LIVE_DIR_FLAG ''io'' ''==SUPPRESS=='' ''DIR'',
     flag_option BATCH_GROUP_FLAG ''common'' ''==SUPPRESS=='']"

definition dest_of :: "string \<Rightarrow> string" where
  "dest_of flag = map (\<lambda>c. if c = CHR ''-'' then CHR ''_'' else c) (drop 2 flag)"

definition destination :: "report_option \<Rightarrow> string" where
  "destination option = dest_of (ro_flag option)"

definition option_default :: "report_option \<Rightarrow> pyval" where
  "option_default option = (case ro_default option of
     Some v \<Rightarrow> v
   | None \<Rightarrow> if ro_action option = Some ''store_true'' then PBool False else PNone)"

text \<open>The declarations registered on an argument parser: title, flag, help text and whether the
  default is suppressed.\<close>

record option_declaration =
  d_title :: string
  d_option :: report_option
  d_help :: string
  d_suppressed :: bool

definition declare_option :: "string \<Rightarrow> bool \<Rightarrow> report_option \<Rightarrow> option_declaration" where
  "declare_option title explicit_only option =
     \<lparr> d_title = title, d_option = option,
       d_help = (if ro_recorded option \<noteq> None \<and> \<not> explicit_only \<and> truthy (option_default option)
                 then ro_help option @ '' (default: '' @ py_str (option_default option) @ '')''
                 else ro_help option),
       d_suppressed = (explicit_only \<or> ro_recorded option \<noteq> None) \<rparr>"

definition add_analysis_arguments :: "string \<Rightarrow> bool \<Rightarrow> option_declaration list" where
  "add_analysis_arguments kind explicit_only =
     concat (map (\<lambda>(scope, title).
         if scope \<notin> {''common'', kind} \<and> kind \<noteq> ''all'' then []
         else map (declare_option title explicit_only)
                (filter (\<lambda>opt. ro_scope opt = scope)
                  (REPORT_OPTIONS @ (if kind \<noteq> ''all'' then INTERNAL_OPTIONS else []))))
       [(''common'', ''Common analysis''), (''io'', ''IO analysis''), (''mdtest'', ''Metadata analysis'')])"

subsection \<open>Replaying recorded options\<close>

definition resolve_option :: "string \<Rightarrow> settings \<Rightarrow> settings \<Rightarrow> report_option \<Rightarrow> settings \<Rightarrow> settings" where
  "resolve_option kind args recorded option resolved =
     (case ro_recorded option of
        None \<Rightarrow> resolved
      | Some key \<Rightarrow>
          if ro_scope option \<notin> {''common'', kind} \<or> dict_get args (destination option) \<noteq> None then resolved
          else dict_set (destination option)
                 (if val_get recorded key = PNone then option_default option else val_get recorded key) resolved)"

definition resolve_report_options :: "settings \<Rightarrow> string \<Rightarrow> settings \<Rightarrow> settings" where
  "resolve_report_options args kind recorded = fold (resolve_option kind args recorded) REPORT_OPTIONS args"

definition check_replay_option :: "settings \<Rightarrow> settings list \<Rightarrow> report_option \<Rightarrow> unit result" where
  "check_replay_option args recorded option =
     (let given = val_get args (destination option)
      in if \<not> ro_fixed option \<or> given = PNone then Inr ()
         else each (\<lambda>options.
           let recorded_value = (case ro_recorded option of None \<Rightarrow> PNone | Some key \<Rightarrow> val_get options key)
           in check (recorded_value = PNone \<or> py_eq recorded_value given)
                (ValueError (ro_flag option @ '' '' @ py_str given @ '': the results document records '' @
                   py_str recorded_value @ ''; re-run from the raw results to change it''))) recorded)"

definition check_replay_options :: "settings \<Rightarrow> settings list \<Rightarrow> unit result" where
  "check_replay_options args recorded = each (check_replay_option args recorded) REPORT_OPTIONS"

subsection \<open>Integer filters\<close>

definition INTEGER_FILTER_FLAGS :: "string list" where
  "INTEGER_FILTER_FLAGS = [''--only-nodes'', ''--only-threads'', ''--only-iodepths'']"

definition integer_item_re :: rx where
  "integer_item_re = RSeq (RPlus (RCls is_digit)) (ROpt (RSeq (RChr (CHR ''-'')) (RPlus (RCls is_digit))))"

definition parse_integer_item :: "string \<Rightarrow> nat set result" where
  "parse_integer_item raw =
     (let item = py_strip raw; start = before (CHR ''-'') item; end = after (CHR ''-'') item
      in if item = [] then Inl (ValueError ''empty filter item'')
         else if \<not> fullmatch integer_item_re item then Inl (ValueError (''invalid integer or range: '' @ item))
         else if end \<noteq> [] \<and> undec start > undec end then Inl (ValueError (''range start exceeds end: '' @ item))
         else Inr {undec start..<Suc (undec (if end \<noteq> [] then end else start))})"

definition parse_integer_filter :: "string \<Rightarrow> nat set result" where
  "parse_integer_filter text =
     (if py_strip text = [] then Inl (ValueError ''filter must not be empty'')
      else rfold (\<lambda>raw result. rbind (parse_integer_item raw) (\<lambda>s. Inr (result \<union> s)))
             (split_on (CHR '','') text) {})"

definition error_text :: "py_error \<Rightarrow> string" where
  "error_text e = (case e of ValueError s \<Rightarrow> s | ScenarioPlanningError s \<Rightarrow> s
     | MixedStorageTargetsError s \<Rightarrow> s | KeyError s \<Rightarrow> s | OSError s \<Rightarrow> s | _ \<Rightarrow> [])"

definition validate_integer_filter :: "string \<Rightarrow> pyval \<Rightarrow> nat set option result" where
  "validate_integer_filter flag v =
     (if \<not> truthy v then Inr None
      else case parse_integer_filter (py_str v) of
             Inl e \<Rightarrow> Inl (ValueError (''invalid '' @ flag @ '' filter: '' @ error_text e))
           | Inr s \<Rightarrow> Inr (Some s))"

definition validate_number :: "settings \<Rightarrow> report_option \<Rightarrow> unit result" where
  "validate_number args option =
     (let v = val_get args (destination option)
      in if ro_type option \<in> {Some ''int'', Some ''float''} \<and> v \<noteq> PNone \<and>
            (num_le v (PInt 0) \<or> (is_float v \<and> \<not> finite_float v))
         then (if ro_flag option = ''--normalize-to''
               then Inl (ValueError ''--normalize-to must be a positive integer'')
               else Inl (ValueError (ro_flag option @ '' must be greater than zero'')))
         else Inr ())"

definition validate_analysis_arguments :: "settings \<Rightarrow> unit result" where
  "validate_analysis_arguments args =
     rbind (each (\<lambda>flag. rbind (validate_integer_filter flag (val_get args (dest_of flag))) (\<lambda>_. Inr ()))
       INTEGER_FILTER_FLAGS) (\<lambda>_.
     rbind (each (validate_number args) REPORT_OPTIONS) (\<lambda>_.
     let shortfall = val_get args (dest_of SHORTFALL_FLAG)
     in check (shortfall = PNone \<or> \<not> num_le (PInt SHORTFALL_LIMIT_PERCENT) shortfall)
          (ValueError (SHORTFALL_FLAG @ '' must be less than '' @ str_int SHORTFALL_LIMIT_PERCENT))))"

subsection \<open>Inputs and outputs\<close>

definition dirname :: "string \<Rightarrow> string" where
  "dirname p = (let h = rdrop (\<lambda>c. c \<noteq> CHR ''/'') p
     in if list_all (\<lambda>c. c = CHR ''/'') h then h else rstrip_char (CHR ''/'') h)"

definition path_join :: "string \<Rightarrow> string \<Rightarrow> string" where
  "path_join a b = (if startswith b ''/'' then b
     else if a = [] \<or> last a = CHR ''/'' then a @ b else a @ ''/'' @ b)"

definition keep_input :: "(string \<Rightarrow> string) \<Rightarrow> string \<Rightarrow> (string, string) dict \<Rightarrow> (string, string) dict" where
  "keep_input realpath dir unique =
     (if dict_get unique (realpath dir) = None then dict_set (realpath dir) dir unique else unique)"

definition unique_inputs :: "(string \<Rightarrow> string) \<Rightarrow> string list \<Rightarrow> string list" where
  "unique_inputs realpath input_dirs = map snd (fold (keep_input realpath) input_dirs [])"

definition document_output_dir :: "string \<Rightarrow> nat \<Rightarrow> nat \<Rightarrow> string" where
  "document_output_dir output_dir number n_docs =
     (if n_docs = 1 then output_dir else path_join output_dir (DOCUMENT_DIR_PREFIX @ dec number))"

definition validate_report_inputs ::
    "(string \<Rightarrow> bool) \<Rightarrow> (string \<Rightarrow> string) \<Rightarrow> string list \<Rightarrow> string option \<Rightarrow> unit result" where
  "validate_report_inputs isdir realpath input_dirs output_dir =
     rbind (each (\<lambda>dir. check (isdir dir) (ValueError (''Input directory not found: '' @ dir))) input_dirs) (\<lambda>_.
     if length (unique_inputs realpath input_dirs) < 2 then Inr ()
     else case output_dir of
            None \<Rightarrow> Inl (ValueError ''--output-dir is required with several input directories'')
          | Some out \<Rightarrow>
              if out = [] then Inl (ValueError ''--output-dir is required with several input directories'')
              else check (\<not> list_ex (\<lambda>dir. realpath dir = realpath out) input_dirs)
                (ValueError (''--output-dir '' @ out @ '' is an input directory; choose a separate directory'')))"

definition validate_from_json ::
    "(string \<Rightarrow> bool) \<Rightarrow> (string \<Rightarrow> bool) \<Rightarrow> (string \<Rightarrow> string) \<Rightarrow> string list \<Rightarrow> string list \<Rightarrow>
     string option \<Rightarrow> unit result" where
  "validate_from_json isdir isfile realpath documents input_dirs output_dir =
     rbind (check (input_dirs = [])
       (ValueError (FROM_JSON_FLAG @ '' replaces input directories; do not combine them''))) (\<lambda>_.
     case output_dir of
       None \<Rightarrow> Inl (ValueError (''--output-dir is required with '' @ FROM_JSON_FLAG))
     | Some out \<Rightarrow>
         rbind (check (out \<noteq> []) (ValueError (''--output-dir is required with '' @ FROM_JSON_FLAG))) (\<lambda>_.
         rbind (each (\<lambda>document.
             rbind (check (\<not> isdir document) (ValueError (FROM_JSON_FLAG @
               '' replaces input directories and takes only results documents: '' @ document @
               '' is a directory''))) (\<lambda>_.
             check (isfile document) (ValueError (''Results document not found: '' @ document)))) documents) (\<lambda>_.
         let sources = map (\<lambda>document. dirname (realpath document)) documents;
             targets = map (\<lambda>number. realpath (document_output_dir out number (length documents)))
                         [1..<Suc (length documents)]
         in check (realpath out \<notin> set sources \<and> set targets \<inter> set sources = {})
              (ValueError (''--output-dir '' @ out @
                 '' is a results document'' @ [CHR 0x27] @ ''s directory; choose a separate directory'')))))"

subsection \<open>Forwarding options to the selected kinds\<close>

definition option_tokens :: "report_option \<Rightarrow> pyval \<Rightarrow> string list" where
  "option_tokens option v =
     (if ro_action option = Some ''store_true'' then (if truthy v then [ro_flag option] else [])
      else map (\<lambda>item. ro_flag option @ ''='' @ py_str item) (case v of PList items \<Rightarrow> items | _ \<Rightarrow> [v]))"

definition matching_kinds :: "string list \<Rightarrow> report_option \<Rightarrow> string list" where
  "matching_kinds kinds option =
     (if ro_scope option = ''common'' then kinds else filter (\<lambda>k. k = ro_scope option) kinds)"

definition route_option ::
    "settings \<Rightarrow> string list \<Rightarrow> report_option \<Rightarrow> (string, string list) dict \<Rightarrow> (string, string list) dict result" where
  "route_option args kinds option routed =
     (let v = val_get args (destination option); matching = matching_kinds kinds option
      in if v = PNone \<or> v = PBool False then Inr routed
         else if matching = [] \<and> (case ro_default option of None \<Rightarrow> False | Some d \<Rightarrow> py_eq v d) then Inr routed
         else if matching = []
           then Inl (ValueError (ro_flag option @ '' applies to no selected '' @ ro_scope option @ '' group''))
         else Inr (fold (\<lambda>kind d. dict_set kind (the (dict_get d kind) @ option_tokens option v) d) matching routed))"

definition options_by_kind :: "settings \<Rightarrow> string list \<Rightarrow> (string, string list) dict result" where
  "options_by_kind args kinds =
     rbind (validate_analysis_arguments args) (\<lambda>_.
     rfold (route_option args kinds) REPORT_OPTIONS (map (\<lambda>k. (k, [])) kinds))"

subsection \<open>The integers of a filter\<close>

text \<open>A filter item is a number or a range, and its text.\<close>

datatype filter_item = Single nat | Range nat nat

fun item_text :: "filter_item \<Rightarrow> string" where
  "item_text (Single n) = dec n"
| "item_text (Range a b) = dec a @ ''-'' @ dec b"

fun item_set :: "filter_item \<Rightarrow> nat set" where
  "item_set (Single n) = {n}"
| "item_set (Range a b) = {a..b}"

fun item_ok :: "filter_item \<Rightarrow> bool" where
  "item_ok (Single n) = True"
| "item_ok (Range a b) = (a \<le> b)"

lemma dec_no_dash: "CHR ''-'' \<notin> set (dec n)" "CHR '','' \<notin> set (dec n)"
  using dec_digits [of n] by (auto simp: list_all_iff is_digit_def)

lemma dec_ends: "\<not> py_space (hd (dec n))" "\<not> py_space (last (dec n))"
proof -
  have "\<forall>c \<in> set (dec n). \<not> py_space c" using dec_digits [of n] digit_not_space by (auto simp: list_all_iff)
  then show "\<not> py_space (hd (dec n))" "\<not> py_space (last (dec n))"
    using dec_nonempty [of n] hd_in_set [of "dec n"] last_in_set [of "dec n"] by blast+
qed

lemma strip_item: "py_strip (item_text i) = item_text i"
  by (cases i) (auto intro!: py_strip_id simp: dec_ends)

lemma before_all: "c \<notin> set s \<Longrightarrow> before c s = s"
  by (induction s) (auto simp: before_def)

lemma after_free: "c \<notin> set s \<Longrightarrow> after c s = []"
  by (induction s) (auto simp: after_def)

lemma plus_dec: "fullmatch (RPlus (RCls is_digit)) (dec n)"
  using dec_digits [of n] by (simp add: fullmatch_plus_cls)

lemma item_matches: "fullmatch integer_item_re (item_text i)"
proof (cases i)
  case (Single n)
  have "fullmatch (ROpt r) []" for r :: rx by (simp only: fullmatch_opt simp_thms)
  then show ?thesis using plus_dec [of n] Single
    unfolding integer_item_re_def fullmatch_seq by (metis append_Nil2 item_text.simps(1))
next
  case (Range a b)
  have "fullmatch (RSeq (RChr (CHR ''-'')) (RPlus (RCls is_digit))) (''-'' @ dec b)"
    unfolding RChr_def fullmatch_cls_seq using plus_dec [of b] by simp
  then have "fullmatch (ROpt (RSeq (RChr (CHR ''-'')) (RPlus (RCls is_digit)))) (''-'' @ dec b)"
    unfolding fullmatch_opt by blast
  then show ?thesis using plus_dec [of a] Range
    unfolding integer_item_re_def fullmatch_seq by (metis item_text.simps(2))
qed

lemma parse_item_text: "item_ok i \<Longrightarrow> parse_integer_item (item_text i) = Inr (item_set i)"
proof (cases i)
  case (Single n)
  have "before (CHR ''-'') (dec n) = dec n" "after (CHR ''-'') (dec n) = []"
    using dec_no_dash(1) [of n] by (simp_all add: before_all after_free)
  then show ?thesis using Single item_matches [of i] strip_item [of i]
    by (auto simp: parse_integer_item_def Let_def)
next
  case (Range a b)
  assume "item_ok i"
  moreover have "before (CHR ''-'') (item_text i) = dec a" "after (CHR ''-'') (item_text i) = dec b"
    using Range dec_no_dash [of a] by (auto simp: before_append after_append)
  ultimately show ?thesis using Range item_matches [of i] strip_item [of i]
    by (auto simp: parse_integer_item_def Let_def)
qed

lemma split_items:
  assumes "items \<noteq> []"
  shows "split_on (CHR '','') (join '','' (map item_text items)) = map item_text items"
proof (rule split_on_join)
  have "CHR '','' \<notin> set (item_text i)" for i by (cases i) (auto simp: dec_no_dash)
  then show "\<forall>w \<in> set (map item_text items). CHR '','' \<notin> set w" by auto
qed (use assms in simp)

lemma rfold_items:
  "list_all item_ok items \<Longrightarrow>
   rfold (\<lambda>raw result. rbind (parse_integer_item raw) (\<lambda>s. Inr (result \<union> s))) (map item_text items) acc =
     Inr (acc \<union> \<Union> (item_set ` set items))"
  by (induction items arbitrary: acc) (simp_all add: parse_item_text Un_assoc)

lemma item_text_nonempty [simp]: "item_text i \<noteq> []"
  by (cases i) auto

lemma join_not_blank:
  assumes "items \<noteq> []"
  shows "py_strip (join '','' (map item_text items)) \<noteq> []"
proof -
  obtain i rest where items: "items = i # rest" using assms by (cases items) auto
  have hd: "hd (join '','' (map item_text items)) = hd (item_text i)" "join '','' (map item_text items) \<noteq> []"
    by (cases rest; simp add: items)+
  have "\<not> py_space (hd (item_text i))" by (cases i) (simp_all add: dec_ends)
  then obtain c r where j: "join '','' (map item_text items) = c # r" "\<not> py_space c" using hd
    by (cases "join '','' (map item_text items)") auto
  then have "dropWhile py_space (rev r @ [c]) \<noteq> []" by (simp add: dropWhile_eq_Nil_conv)
  then show ?thesis using j by (simp add: py_strip_def rdrop_def)
qed

text \<open>A filter selects exactly the integers it names: the comma-joined text of numbers and
  ranges (with no reversed range) is accepted and denotes the union of the ranges.\<close>

theorem parse_integer_filter_exact:
  assumes "items \<noteq> []" and "list_all item_ok items"
  shows "parse_integer_filter (join '','' (map item_text items)) = Inr (\<Union> (item_set ` set items))"
  using join_not_blank [OF assms(1)] rfold_items [OF assms(2), of "{}"]
  by (simp add: parse_integer_filter_def split_items [OF assms(1)])

theorem parse_integer_filter_exact_witness:
  "parse_integer_filter ''1,4-6'' = Inr {1, 4, 5, 6}"
proof -
  have "join '','' (map item_text [Single 1, Range 4 6]) = ''1,4-6''" by code_simp
  moreover have "{4..6} = {4, 5, 6::nat}" by auto
  ultimately show ?thesis
    using parse_integer_filter_exact [of "[Single 1, Range 4 6]"] by (auto simp: insert_commute)
qed

lemma rfold_all_Inr:
  assumes "rfold (\<lambda>raw result. rbind (f raw) (\<lambda>s. Inr (result \<union> s))) xs acc = Inr r"
  shows "\<forall>x \<in> set xs. \<exists>s. f x = Inr s \<and> s \<subseteq> r"
proof -
  have "acc \<subseteq> r \<and> (\<forall>x \<in> set xs. \<exists>s. f x = Inr s \<and> s \<subseteq> r)" using assms
  proof (induction xs arbitrary: acc)
    case (Cons x xs)
    then obtain s where "f x = Inr s"
      "rfold (\<lambda>raw result. rbind (f raw) (\<lambda>s. Inr (result \<union> s))) xs (acc \<union> s) = Inr r"
      by (auto simp: rbind_eq_Inr)
    then show ?case using Cons.IH [of "acc \<union> s"] by auto
  qed simp
  then show ?thesis by blast
qed

lemma parse_integer_item_nonempty: "parse_integer_item raw = Inr s \<Longrightarrow> s \<noteq> {}"
  by (auto simp: parse_integer_item_def Let_def split: if_splits)

text \<open>A filter is never silently widened: when a filter is accepted, every comma-separated item
  matched the number or range pattern and contributes a non-empty set of integers to
  the selection.\<close>

theorem parse_integer_filter_keeps_items:
  assumes "parse_integer_filter text = Inr s"
  shows "\<forall>raw \<in> set (split_on (CHR '','') text). fullmatch integer_item_re (py_strip raw) \<and>
    (\<exists>t. parse_integer_item raw = Inr t \<and> t \<noteq> {} \<and> t \<subseteq> s)"
proof
  fix raw assume raw: "raw \<in> set (split_on (CHR '','') text)"
  have "\<forall>x \<in> set (split_on (CHR '','') text). \<exists>t. parse_integer_item x = Inr t \<and> t \<subseteq> s"
    using assms by (intro rfold_all_Inr [where acc = "{}"]) (auto simp: parse_integer_filter_def split: if_splits)
  then obtain t where t: "parse_integer_item raw = Inr t" "t \<subseteq> s" using raw by blast
  then show "fullmatch integer_item_re (py_strip raw) \<and> (\<exists>t. parse_integer_item raw = Inr t \<and> t \<noteq> {} \<and> t \<subseteq> s)"
    using parse_integer_item_nonempty by (auto simp: parse_integer_item_def Let_def split: if_splits)
qed

theorem parse_integer_filter_keeps_items_witness:
  "fullmatch integer_item_re (py_strip '' 7'')"
proof -
  have p: "parse_integer_filter ''3-3, 7'' = Inr {3, 7}"
    by (simp add: parse_integer_filter_def) code_simp
  have "'' 7'' \<in> set (split_on (CHR '','') ''3-3, 7'')" by code_simp
  then show ?thesis using parse_integer_filter_keeps_items [OF p] by blast
qed

subsection \<open>Replay\<close>

definition resolved_value :: "settings \<Rightarrow> report_option \<Rightarrow> string \<Rightarrow> pyval" where
  "resolved_value recorded option key =
     (if val_get recorded key = PNone then option_default option else val_get recorded key)"

lemma resolve_option_get:
  "dict_get (resolve_option kind args recorded opt d) n =
     (if \<exists>key. ro_recorded opt = Some key \<and> ro_scope opt \<in> {''common'', kind} \<and>
         dict_get args (destination opt) = None \<and> destination opt = n
      then Some (resolved_value recorded opt (the (ro_recorded opt))) else dict_get d n)"
  by (auto simp: resolve_option_def resolved_value_def split: option.splits)

lemma fold_resolve_other:
  "n \<notin> destination ` set opts \<Longrightarrow> dict_get (fold (resolve_option kind args recorded) opts d) n = dict_get d n"
  by (induction opts arbitrary: d) (auto simp: resolve_option_get)

lemma fold_resolve:
  assumes "distinct (map destination opts)" and "opt \<in> set opts"
  shows "dict_get (fold (resolve_option kind args recorded) opts d) (destination opt) =
    dict_get (resolve_option kind args recorded opt d) (destination opt)"
  using assms
proof (induction opts arbitrary: d)
  case (Cons a opts)
  show ?case
  proof (cases "opt = a")
    case True
    then have "destination opt \<notin> destination ` set opts" using Cons.prems by auto
    then show ?thesis using True by (simp add: fold_resolve_other)
  next
    case False
    then have opt: "opt \<in> set opts" "destination a \<noteq> destination opt" using Cons.prems by auto
    then show ?thesis using Cons by (simp add: resolve_option_get)
  qed
qed simp

lemma distinct_destinations: "distinct (map destination REPORT_OPTIONS)"
  by code_simp

text \<open>Rendering a saved document again keeps the recorded choices: an option of the kind that was
  not given takes the value recorded in the document, or its default when none is
  recorded; a given option keeps the given value.\<close>

theorem resolve_report_options_value:
  assumes "opt \<in> set REPORT_OPTIONS" and "ro_recorded opt = Some key" and "ro_scope opt \<in> {''common'', kind}"
  shows "dict_get (resolve_report_options args kind recorded) (destination opt) =
    Some (case dict_get args (destination opt) of
            Some v \<Rightarrow> v
          | None \<Rightarrow> if val_get recorded key = PNone then option_default opt else val_get recorded key)"
  using fold_resolve [OF distinct_destinations assms(1), of kind args recorded args] assms(2,3)
  by (simp add: resolve_report_options_def resolve_option_get resolved_value_def split: option.splits)

theorem resolve_report_options_value_witness:
  "dict_get (resolve_report_options [] ''io'' [(''live_detail'', PStr ''summary'')]) ''live_detail'' =
     Some (PStr ''summary'')"
proof -
  have o: "REPORT_OPTIONS ! 12 \<in> set REPORT_OPTIONS" by (rule nth_mem) code_simp
  have "ro_recorded (REPORT_OPTIONS ! 12) = Some ''live_detail''"
    "ro_scope (REPORT_OPTIONS ! 12) \<in> {''common'', ''io''}" "destination (REPORT_OPTIONS ! 12) = ''live_detail''"
    by code_simp+
  then show ?thesis
    using resolve_report_options_value [OF o, where kind = "''io''" and args = "[]" and
        recorded = "[(''live_detail'', PStr ''summary'')]"] by simp
qed

subsection \<open>Inputs, outputs and routing\<close>

text \<open>Rendering documents never overwrites a source: when the check of \<^verbatim>\<open>--from-json\<close> passes, no directory
  that a document is rendered into, and not the output directory itself, is the
  directory of any of the documents.\<close>

theorem validate_from_json_separate:
  assumes "validate_from_json isdir isfile realpath documents input_dirs output_dir = Inr ()"
  shows "\<exists>out. output_dir = Some out \<and> out \<noteq> [] \<and> input_dirs = [] \<and> list_all isfile documents \<and>
    (\<forall>document \<in> set documents. dirname (realpath document) \<noteq> realpath out \<and>
      (\<forall>number. 1 \<le> number \<and> number \<le> length documents \<longrightarrow>
        realpath (document_output_dir out number (length documents)) \<noteq> dirname (realpath document)))"
proof -
  obtain out where out: "output_dir = Some out" "out \<noteq> []" "input_dirs = []"
    and files: "list_all isfile documents"
    and sep: "realpath out \<notin> (\<lambda>d. dirname (realpath d)) ` set documents"
      "(\<lambda>n. realpath (document_output_dir out n (length documents))) ` set [1..<Suc (length documents)] \<inter>
        (\<lambda>d. dirname (realpath d)) ` set documents = {}"
    using assms
    by (auto simp: validate_from_json_def rbind_eq_Inr Let_def each_eq_Inr list_all_iff split: option.splits
        simp del: upt_Suc set_upt)
  have "realpath (document_output_dir out number (length documents)) \<noteq> dirname (realpath d)"
    if "1 \<le> number" "number \<le> length documents" "d \<in> set documents" for number d
  proof -
    have "number \<in> set [1..<Suc (length documents)]" using that by (simp del: upt_Suc)
    then show ?thesis using sep(2) that(3) by blast
  qed
  moreover have "dirname (realpath d) \<noteq> realpath out" if "d \<in> set documents" for d
    using sep(1) that by (metis imageI)
  ultimately show ?thesis using out files by blast
qed

theorem validate_from_json_separate_witness:
  "validate_from_json (\<lambda>_. False) (\<lambda>_. True) id [''/a/results.json'', ''/b/results.json''] [] (Some ''/out'') = Inr () \<and>
   dirname ''/b/results.json'' \<noteq> ''/out/d1''"
proof -
  have v: "validate_from_json (\<lambda>_. False) (\<lambda>_. True) id [''/a/results.json'', ''/b/results.json''] [] (Some ''/out'') = Inr ()"
    by code_simp
  obtain out where out: "Some ''/out'' = Some out"
    and sep: "\<forall>document \<in> set [''/a/results.json'', ''/b/results.json'']. dirname (id document) \<noteq> id out \<and>
      (\<forall>number. 1 \<le> number \<and> number \<le> length [''/a/results.json'', ''/b/results.json''] \<longrightarrow>
        id (document_output_dir out number (length [''/a/results.json'', ''/b/results.json''])) \<noteq> dirname (id document))"
    using validate_from_json_separate [OF v] by blast
  have "document_output_dir ''/out'' 1 (length [''/a/results.json'', ''/b/results.json'']) = ''/out/d1''" by code_simp
  moreover have "id (document_output_dir out 1 (length [''/a/results.json'', ''/b/results.json''])) \<noteq>
      dirname (id ''/b/results.json'')"
    using sep [THEN bspec, of "''/b/results.json''", THEN conjunct2, THEN spec, of 1] by simp
  ultimately show ?thesis using v out by simp
qed

definition inputs_ok :: "(string \<Rightarrow> string) \<Rightarrow> (string, string) dict \<Rightarrow> bool" where
  "inputs_ok realpath d \<longleftrightarrow> dict_wf d \<and> map fst d = map (\<lambda>p. realpath (snd p)) d"

lemma keep_input_ok:
  assumes "inputs_ok realpath d"
  shows "inputs_ok realpath (keep_input realpath dir d) \<and>
    fst ` set (keep_input realpath dir d) = insert (realpath dir) (fst ` set d)"
proof (cases "realpath dir \<in> set (dict_keys d)")
  case True
  then have "keep_input realpath dir d = d" by (simp add: keep_input_def map_of_eq_None_iff)
  then show ?thesis using True assms by auto
next
  case False
  then have "dict_set (realpath dir) dir d = d @ [(realpath dir, dir)]" by (induction d) auto
  then have "keep_input realpath dir d = d @ [(realpath dir, dir)]"
    using False by (simp add: keep_input_def map_of_eq_None_iff)
  then show ?thesis using False assms by (auto simp: inputs_ok_def dict_wf_def)
qed

lemma unique_inputs_fold:
  "inputs_ok realpath d \<Longrightarrow> inputs_ok realpath (fold (keep_input realpath) dirs d) \<and>
     fst ` set (fold (keep_input realpath) dirs d) = fst ` set d \<union> realpath ` set dirs"
proof (induction dirs arbitrary: d)
  case (Cons dir dirs)
  note k = keep_input_ok [OF Cons.prems, of dir]
  show ?case using Cons.IH [of "keep_input realpath dir d"] k by simp
qed simp

text \<open>Repeated inputs count once: the kept directories have pairwise different real paths, and
  every input has the real path of a kept one.\<close>

theorem unique_inputs_by_realpath:
  "distinct (map realpath (unique_inputs realpath dirs)) \<and>
   realpath ` set (unique_inputs realpath dirs) = realpath ` set dirs"
proof -
  define u where "u = fold (keep_input realpath) dirs []"
  have u: "inputs_ok realpath u" "fst ` set u = realpath ` set dirs"
    unfolding u_def using unique_inputs_fold [of realpath "[]" dirs]
    by (simp_all only: inputs_ok_def dict_wf_Nil list.map list.set image_empty Un_empty_left simp_thms)
  then have keys: "map realpath (map snd u) = map fst u" by (simp add: inputs_ok_def comp_def)
  have "unique_inputs realpath dirs = map snd u" by (simp add: unique_inputs_def u_def)
  then show ?thesis using keys u by (metis inputs_ok_def dict_wf_def list.set_map)
qed

definition given :: "settings \<Rightarrow> report_option \<Rightarrow> bool" where
  "given args opt \<longleftrightarrow> val_get args (destination opt) \<noteq> PNone \<and> val_get args (destination opt) \<noteq> PBool False"

definition tokens_for :: "settings \<Rightarrow> string \<Rightarrow> report_option \<Rightarrow> string list" where
  "tokens_for args kind opt =
     (if given args opt \<and> ro_scope opt \<in> {''common'', kind}
      then option_tokens opt (val_get args (destination opt)) else [])"

lemma fold_extend:
  "distinct ks \<Longrightarrow>
   dict_get (fold (\<lambda>kind d. dict_set kind (the (dict_get d kind) @ toks) d) ks d) k =
    (if k \<in> set ks then Some (the (dict_get d k) @ toks) else dict_get d k)"
  by (induction ks arbitrary: d) auto

lemma matching_kinds_set: "set (matching_kinds kinds opt) = {k \<in> set kinds. ro_scope opt \<in> {''common'', k}}"
  by (auto simp: matching_kinds_def)

lemma distinct_matching_kinds: "distinct kinds \<Longrightarrow> distinct (matching_kinds kinds opt)"
  by (simp add: matching_kinds_def)

lemma route_option_get:
  assumes "route_option args kinds opt d = Inr d'" and "distinct kinds" and "k \<in> set kinds"
    and "dict_get d k = Some ts"
  shows "dict_get d' k = Some (ts @ tokens_for args k opt)"
proof -
  let ?v = "val_get args (destination opt)" and ?m = "matching_kinds kinds opt"
  have m: "k \<in> set ?m \<longleftrightarrow> ro_scope opt \<in> {''common'', k}" using assms(3) by (simp add: matching_kinds_set)
  show ?thesis
  proof (cases "given args opt")
    case False
    then have "d' = d" using assms(1) by (auto simp: route_option_def given_def Let_def)
    then show ?thesis using False assms(4) by (simp add: tokens_for_def)
  next
    case given: True
    show ?thesis
    proof (cases "?m = []")
      case True
      then have "d' = d" using assms(1) given
        by (auto simp: route_option_def given_def Let_def split: if_splits)
      moreover have "k \<notin> set ?m" using True by simp
      ultimately show ?thesis using m assms(4) by (simp add: tokens_for_def)
    next
      case False
      then have "d' = fold (\<lambda>kind d. dict_set kind (the (dict_get d kind) @ option_tokens opt ?v) d) ?m d"
        using assms(1) given by (simp add: route_option_def given_def Let_def)
      then show ?thesis
        using fold_extend [OF distinct_matching_kinds [OF assms(2), of opt], where toks = "option_tokens opt ?v" and d = d and k = k] m given assms(4)
        by (simp add: tokens_for_def)
    qed
  qed
qed

lemma rfold_route:
  assumes "rfold (route_option args kinds) opts d = Inr d'" and "distinct kinds" and "k \<in> set kinds"
    and "dict_get d k = Some ts"
  shows "dict_get d' k = Some (ts @ concat (map (tokens_for args k) opts))"
  using assms
proof (induction opts arbitrary: d ts)
  case (Cons opt opts)
  then obtain e where e: "route_option args kinds opt d = Inr e" "rfold (route_option args kinds) opts e = Inr d'"
    by (auto simp: rbind_eq_Inr)
  show ?case
    using Cons.IH [OF e(2) Cons.prems(2,3) route_option_get [OF e(1) Cons.prems(2,3,4)]] by simp
qed simp

text \<open>Options reach exactly the reporters they apply to: after successful routing, each
  selected kind receives, in table order, the tokens of the given options whose scope is
  common or that kind, and nothing else.\<close>

theorem options_by_kind_exact:
  assumes "options_by_kind args kinds = Inr routed" and "distinct kinds" and "kind \<in> set kinds"
  shows "dict_get routed kind = Some (concat (map (tokens_for args kind) REPORT_OPTIONS))"
proof -
  have r: "rfold (route_option args kinds) REPORT_OPTIONS (map (\<lambda>k. (k, [])) kinds) = Inr routed"
    using assms(1) by (auto simp: options_by_kind_def rbind_eq_Inr)
  have "dict_get (map (\<lambda>k. (k, [])) kinds) kind = Some []"
    using assms(3) by (simp add: map_of_map_restrict)
  from rfold_route [OF r assms(2,3) this] show ?thesis by simp
qed

theorem options_by_kind_exact_witness:
  "\<exists>routed. options_by_kind [(''only_sizes'', PList [PStr ''4K'', PStr ''1M,r64K'']), (''only_nodes'', PStr ''1-4'')]
      [''io'', ''mdtest''] = Inr routed \<and>
    dict_get routed ''io'' = Some [''--only-nodes=1-4'', ''--only-sizes=4K'', ''--only-sizes=1M,r64K''] \<and>
    dict_get routed ''mdtest'' = Some [''--only-nodes=1-4'']"
proof -
  let ?args = "[(''only_sizes'', PList [PStr ''4K'', PStr ''1M,r64K'']), (''only_nodes'', PStr ''1-4'')]"
  have "\<not> isl (options_by_kind ?args [''io'', ''mdtest''])" by code_simp
  then obtain routed where r: "options_by_kind ?args [''io'', ''mdtest''] = Inr routed"
    by (cases "options_by_kind ?args [''io'', ''mdtest'']") auto
  have t: "concat (map (tokens_for ?args ''io'') REPORT_OPTIONS) =
      [''--only-nodes=1-4'', ''--only-sizes=4K'', ''--only-sizes=1M,r64K'']"
    "concat (map (tokens_for ?args ''mdtest'') REPORT_OPTIONS) = [''--only-nodes=1-4'']" by code_simp+
  have "distinct [''io'', ''mdtest'']" by simp
  note k = options_by_kind_exact [OF r this]
  show ?thesis using r k [of "''io''"] k [of "''mdtest''"] t by simp
qed

end
