(* ===== verification/ReportCommon.thy ===== *)
theory ReportCommon
  imports ReportOptions PyShlex
begin

section \<open>Shared helpers of the reports\<close>

text \<open>
  lib/reporting\_common.py: the natural sort key, the pairing of result files, histograms, and the
  two lenient parsers; lib/parse\_only\_sizes.py: the size filters; lib/join\_datestamps.py: titles and file
  names from run datestamps; lib/results\_document.py: the checks of a saved results
  document. Warnings are collected in a list, in the order in which they are issued.
\<close>

text \<open>\<^verbatim>\<open>str.isdigit()\<close> of one character: also the superscript digits of Latin-1.\<close>

definition unicode_digit :: "char \<Rightarrow> bool" where
  "unicode_digit c \<longleftrightarrow> is_digit c \<or> code c \<in> {178, 179, 185}"

definition isdigit :: "string \<Rightarrow> bool" where
  "isdigit s \<longleftrightarrow> s \<noteq> [] \<and> list_all unicode_digit s"

subsection \<open>Natural order\<close>

datatype key_part = KText string | KNum int

fun is_text :: "key_part \<Rightarrow> bool" where
  "is_text (KText _) = True"
| "is_text (KNum _) = False"

text \<open>Keys compare part by part. In keys of texts a number never meets a text at the same position,
  so how the two compare does not matter.\<close>

instantiation key_part :: linorder
begin

fun less_eq_key_part :: "key_part \<Rightarrow> key_part \<Rightarrow> bool" where
  "less_eq_key_part (KNum m) (KNum n) = (m \<le> n)"
| "less_eq_key_part (KNum m) (KText t) = True"
| "less_eq_key_part (KText s) (KNum n) = False"
| "less_eq_key_part (KText s) (KText t) = (s \<le> t)"

definition less_key_part :: "key_part \<Rightarrow> key_part \<Rightarrow> bool" where
  "less_key_part a b \<longleftrightarrow> a \<le> b \<and> \<not> b \<le> a"

instance
proof
  fix a b c :: key_part
  show "a \<le> a" by (cases a) auto
  show "a < b \<longleftrightarrow> a \<le> b \<and> \<not> b \<le> a" by (simp add: less_key_part_def)
  show "a \<le> b \<Longrightarrow> b \<le> c \<Longrightarrow> a \<le> c" by (cases a; cases b; cases c) auto
  show "a \<le> b \<Longrightarrow> b \<le> a \<Longrightarrow> a = b" by (cases a; cases b) auto
  show "a \<le> b \<or> b \<le> a" by (cases a; cases b) auto
qed

end

text \<open>\<^verbatim>\<open>re.split(r"(\d+)", text)\<close>: text and digit runs alternate, beginning and ending with text.\<close>

function digit_split :: "string \<Rightarrow> string list" where
  "digit_split s =
     (let t = takeWhile (\<lambda>c. \<not> is_digit c) s; r = dropWhile (\<lambda>c. \<not> is_digit c) s
      in if r = [] then [t] else t # takeWhile is_digit r # digit_split (dropWhile is_digit r))"
  by pat_completeness auto
termination
proof (relation "measure length")
  fix s :: string and t r
  assume "t = takeWhile (\<lambda>c. \<not> is_digit c) s" and r: "r = dropWhile (\<lambda>c. \<not> is_digit c) s" and "r \<noteq> []"
  then have "is_digit (hd r)" by (metis hd_dropWhile)
  then have "length (dropWhile is_digit r) < length r"
    using \<open>r \<noteq> []\<close> by (cases r) (auto simp: length_dropWhile_le less_Suc_eq_le)
  also have "\<dots> \<le> length s" by (simp add: r length_dropWhile_le)
  finally show "(dropWhile is_digit r, s) \<in> measure length" by simp
qed simp

declare digit_split.simps [simp del]

definition natural_part :: "string \<Rightarrow> key_part result" where
  "natural_part part = (if isdigit part then rbind (py_int part) (\<lambda>n. Inr (KNum n)) else Inr (KText part))"

definition natural_key :: "string \<Rightarrow> (key_part list \<times> string) result" where
  "natural_key text = rbind (traverse natural_part (digit_split text)) (\<lambda>parts. Inr (parts, text))"

subsection \<open>Pairs of result files\<close>

datatype 'k pair_warning =
    NotADirectory string
  | DuplicateArtifact string 'k string
  | DuplicatePair 'k string string
  | MissingOut string
  | MissingCsv string

record 'k found =
  fp_pairs :: "(string \<times> 'k, (string, string) dict) dict"
  fp_duplicates :: "(string \<times> 'k) list"
  fp_warnings :: "'k pair_warning list"

definition note_file ::
    "(string \<Rightarrow> ('k \<times> string) option) \<Rightarrow> string \<Rightarrow> string \<Rightarrow> 'k found \<Rightarrow> 'k found" where
  "note_file match_file input_dir filename st =
     (case match_file filename of
        None \<Rightarrow> st
      | Some (key, extension) \<Rightarrow>
          let source_key = (input_dir, key);
              paths = (case dict_get (fp_pairs st) source_key of None \<Rightarrow> [] | Some d \<Rightarrow> d)
          in if dict_get paths extension \<noteq> None
             then st \<lparr> fp_warnings := fp_warnings st @ [DuplicateArtifact extension key input_dir],
                       fp_duplicates := fp_duplicates st @ [source_key] \<rparr>
             else st \<lparr> fp_pairs := dict_set source_key
                         (dict_set extension (path_join input_dir filename) paths) (fp_pairs st) \<rparr>)"

definition note_directory ::
    "(string \<Rightarrow> ('k \<times> string) option) \<Rightarrow> (string \<Rightarrow> string list option) \<Rightarrow> string \<Rightarrow> 'k found \<Rightarrow> 'k found" where
  "note_directory match_file listdir input_dir st =
     (case listdir input_dir of
        None \<Rightarrow> st \<lparr> fp_warnings := fp_warnings st @ [NotADirectory input_dir] \<rparr>
      | Some names \<Rightarrow> fold (note_file match_file input_dir) names st)"

record 'k pairing =
  pr_result :: "('k, string \<times> string) dict"
  pr_ambiguous :: "'k list"
  pr_warnings :: "'k pair_warning list"

definition pair_source ::
    "(string \<times> 'k) list \<Rightarrow> (string \<times> 'k) \<times> (string, string) dict \<Rightarrow> 'k pairing \<Rightarrow> 'k pairing" where
  "pair_source duplicates entry st =
     (case entry of ((input_dir, key), paths) \<Rightarrow>
        if (input_dir, key) \<in> set duplicates then st
        else case (dict_get paths ''csv'', dict_get paths ''out'') of
               (Some csv, Some out) \<Rightarrow>
                 (case dict_get (pr_result st) key of
                    Some (csv0, _) \<Rightarrow>
                      st \<lparr> pr_warnings := pr_warnings st @ [DuplicatePair key (dirname csv0) (dirname csv)],
                           pr_ambiguous := pr_ambiguous st @ [key] \<rparr>
                  | None \<Rightarrow> st \<lparr> pr_result := dict_set key (csv, out) (pr_result st) \<rparr>)
             | (Some csv, None) \<Rightarrow> st \<lparr> pr_warnings := pr_warnings st @ [MissingOut csv] \<rparr>
             | (None, Some out) \<Rightarrow> st \<lparr> pr_warnings := pr_warnings st @ [MissingCsv out] \<rparr>
             | (None, None) \<Rightarrow> st)"

definition discover_result_pairs ::
    "(string \<Rightarrow> string) \<Rightarrow> (string \<Rightarrow> string list option) \<Rightarrow> (string \<Rightarrow> ('k \<times> string) option) \<Rightarrow> string list \<Rightarrow>
     ('k, string \<times> string) dict \<times> 'k pair_warning list" where
  "discover_result_pairs realpath listdir match_file input_dirs =
     (let dirs = rev (remdups (rev (map realpath input_dirs)));
          found = fold (note_directory match_file listdir) dirs
                    \<lparr> fp_pairs = [], fp_duplicates = [], fp_warnings = [] \<rparr>;
          paired = fold (pair_source (fp_duplicates found)) (fp_pairs found)
                     \<lparr> pr_result = [], pr_ambiguous = [], pr_warnings = fp_warnings found \<rparr>
      in (filter (\<lambda>(key, _). key \<notin> set (pr_ambiguous paired)) (pr_result paired), pr_warnings paired))"

subsection \<open>Histograms and lenient parsers\<close>

definition histogram_entry :: "string \<Rightarrow> (int \<times> int) option" where
  "histogram_entry item = (case split_on (CHR '':'') (py_strip item) of
     [b, c] \<Rightarrow> (case (py_int (py_strip b), py_int (py_strip c)) of
                 (Inr bucket, Inr n) \<Rightarrow> Some (bucket, n) | _ \<Rightarrow> None)
   | _ \<Rightarrow> None)"

definition add_entry :: "int \<times> int \<Rightarrow> (int, int) dict \<Rightarrow> (int, int) dict" where
  "add_entry e h = dict_set (fst e) ((case dict_get h (fst e) of None \<Rightarrow> 0 | Some n \<Rightarrow> n) + snd e) h"

definition parse_integer_histogram :: "string \<Rightarrow> (int, int) dict" where
  "parse_integer_histogram text =
     fold add_entry (List.map_filter histogram_entry (split_on (CHR '','') text)) []"

definition ws_words :: "string \<Rightarrow> string list" where
  "ws_words s = filter (\<lambda>w. w \<noteq> []) (split_on (CHR '' '') (map (\<lambda>c. if py_space c then CHR '' '' else c) s))"

fun strip_parts :: "string list \<Rightarrow> bool \<Rightarrow> string list \<Rightarrow> string list" where
  "strip_parts options skip_next [] = []"
| "strip_parts options skip_next (part # parts) =
     (if skip_next then strip_parts options False parts
      else if before (CHR ''='') part \<in> set options
        then strip_parts options (CHR ''='' \<notin> set part) parts
      else if \<not> startswith part ''/'' then part # strip_parts options False parts
      else strip_parts options False parts)"

definition strip_command_options :: "string \<Rightarrow> string list \<Rightarrow> string" where
  "strip_command_options command options =
     (if command = [] then []
      else join '' '' (strip_parts options False
        (case shlex_split command of Inr parts \<Rightarrow> parts | Inl _ \<Rightarrow> ws_words command)))"

definition parse_int_part :: "string \<Rightarrow> int set \<times> string list \<Rightarrow> int set \<times> string list" where
  "parse_int_part raw st =
     (let part = py_strip raw
      in if CHR ''-'' \<in> set part then
           (case (py_int (before (CHR ''-'') part), py_int (after (CHR ''-'') part)) of
              (Inr start, Inr end) \<Rightarrow> (fst st \<union> {start..<end + 1}, snd st)
            | _ \<Rightarrow> (fst st, snd st @ [''Warning: Invalid range format: '' @ part]))
         else (case py_int part of
                 Inr n \<Rightarrow> (insert n (fst st), snd st)
               | Inl _ \<Rightarrow> (fst st, snd st @ [''Warning: Invalid integer: '' @ part])))"

definition parse_int_values_with_ranges :: "string \<Rightarrow> int set \<times> string list" where
  "parse_int_values_with_ranges text =
     (if text = [] then ({}, []) else fold parse_int_part (split_on (CHR '','') text) ({}, []))"

record metric =
  node_count :: int
  thread_count :: int

definition filter_metrics_by_scale :: "'a metric_scheme list \<Rightarrow> int set \<Rightarrow> int set \<Rightarrow> 'a metric_scheme list" where
  "filter_metrics_by_scale metrics only_nodes only_threads =
     (let kept = (if only_nodes \<noteq> {} then filter (\<lambda>m. node_count m \<in> only_nodes) metrics else metrics)
      in if only_threads \<noteq> {} then filter (\<lambda>m. thread_count m \<in> only_threads) kept else kept)"

subsection \<open>Size filters\<close>

definition size_atom :: rx where
  "size_atom = RSeq (ROpt (RChr (CHR ''r''))) (RSeq (RPlus (RCls is_digit)) (RCls (\<lambda>c. c \<in> {CHR ''K'', CHR ''M'', CHR ''G''})))"

definition size_filter_re :: rx where
  "size_filter_re = RSeq size_atom (ROpt (RSeq (RChr (CHR '','')) size_atom))"

definition parts_from_append_token :: "string \<Rightarrow> string list" where
  "parts_from_append_token token =
     (let stripped = py_strip token
      in if stripped = [] then []
         else if CHR '';'' \<in> set stripped
           then filter (\<lambda>p. p \<noteq> []) (map py_strip (split_on (CHR '';'') stripped))
         else [stripped])"

definition parse_only_sizes_arg :: "string list option \<Rightarrow> string set option" where
  "parse_only_sizes_arg values = (case values of None \<Rightarrow> None
   | Some vs \<Rightarrow> let result = set (concat (map parts_from_append_token vs))
                in if result = {} then None else Some result)"

definition parse_size :: "string \<Rightarrow> string result" where
  "parse_size part =
     (let size = py_strip part
      in if fullmatch size_filter_re size then Inr size else Inl (ValueError (''invalid IO size: '' @ size)))"

definition parse_size_value :: "string \<Rightarrow> string set \<Rightarrow> string set result" where
  "parse_size_value raw result =
     (let parts = split_on (CHR '';'') raw
      in if list_ex (\<lambda>p. py_strip p = []) parts then Inl (ValueError ''size filter contains an empty item'')
         else rbind (traverse parse_size parts) (\<lambda>sizes. Inr (result \<union> set sizes)))"

definition parse_only_sizes_filter :: "string list option \<Rightarrow> string set option result" where
  "parse_only_sizes_filter values = (case values of None \<Rightarrow> Inr None
   | Some vs \<Rightarrow> if vs = [] then Inr None
                else rbind (rfold parse_size_value vs {}) (\<lambda>s. Inr (Some s)))"

subsection \<open>Datestamps in titles and file names\<close>

definition MAX_FILENAME_LEN :: nat where "MAX_FILENAME_LEN = 255"

definition plot_suffix :: string where "plot_suffix = ''.png''"

definition join_datestamps :: "string list \<Rightarrow> string \<Rightarrow> nat option \<Rightarrow> string" where
  "join_datestamps datestamps sep max_len =
     (let ordered = sort (remdups datestamps);
          joined = join sep ordered;
          abbreviated = hd ordered @ ''-to-'' @ last ordered @ ''-n'' @ dec (length ordered)
      in if datestamps = [] then []
         else case max_len of
                None \<Rightarrow> joined
              | Some limit \<Rightarrow>
                  if length joined \<le> limit then joined
                  else if length abbreviated \<le> limit then abbreviated
                  else take limit (''n'' @ dec (length ordered)))"

definition join_datestamps_for_filename :: "string list \<Rightarrow> string \<Rightarrow> string \<Rightarrow> nat \<Rightarrow> string result" where
  "join_datestamps_for_filename datestamps pre sep max_filename_len =
     (if max_filename_len < length pre + length plot_suffix + 1
      then Inl (ValueError (''prefix '' @ repr_str pre @ '' and '' @ repr_str plot_suffix @
             '' leave no room for datestamps within '' @ dec max_filename_len @ '' characters''))
      else Inr (join_datestamps datestamps sep (Some (max_filename_len - length pre - length plot_suffix))))"

subsection \<open>Results documents\<close>

definition DOCUMENT_SCHEMA :: string where "DOCUMENT_SCHEMA = ''storage-scale-test/filesystem-batch-results''"
definition SIDECAR_SCHEMA :: string where "SIDECAR_SCHEMA = ''storage-scale-test/live-client-series''"
definition SUPPORTED_MAJOR :: int where "SUPPORTED_MAJOR = 1"

definition doc_get :: "(pyval \<times> pyval) list \<Rightarrow> string \<Rightarrow> pyval" where
  "doc_get d k = (case map_of d (PStr k) of None \<Rightarrow> PNone | Some v \<Rightarrow> v)"

definition major :: "pyval \<Rightarrow> int option result" where
  "major version = (case version of
     PStr s \<Rightarrow> let head = before (CHR ''.'') s
               in if isdigit head then rbind (py_int head) (\<lambda>n. Inr (Some n)) else Inr None
   | _ \<Rightarrow> Inr None)"

definition check_schema :: "pyval \<Rightarrow> string \<Rightarrow> string \<Rightarrow> unit result" where
  "check_schema data schema source = (case data of
     PDict d \<Rightarrow>
       if doc_get d ''schema'' \<noteq> PStr schema
       then Inl (ValueError (source @ '': not a '' @ schema @ '' document''))
       else rbind (major (doc_get d ''schema_version'')) (\<lambda>m.
         check (m = Some SUPPORTED_MAJOR)
           (ValueError (source @ '': schema_version '' @ py_repr (doc_get d ''schema_version'') @
              '' is not supported (this tool reads '' @ str_int SUPPORTED_MAJOR @ ''.x)'')))
   | _ \<Rightarrow> Inl (ValueError (source @ '': not a '' @ schema @ '' document'')))"

text \<open>\<^verbatim>\<open>(x or {}).get(key)\<close>\<close>

definition get_or_empty :: "pyval \<Rightarrow> string \<Rightarrow> pyval result" where
  "get_or_empty v key = (if \<not> truthy v then Inr PNone
     else case v of PDict d \<Rightarrow> Inr (doc_get d key) | _ \<Rightarrow> Inl AttributeError)"

definition recorded_options :: "(pyval \<times> pyval) list \<Rightarrow> pyval result" where
  "recorded_options data = rbind (get_or_empty (doc_get data ''generator'') ''options'') (\<lambda>v.
     Inr (if truthy v then v else PDict []))"

definition level_index :: "pyval \<Rightarrow> nat option" where
  "level_index level = (case level of
     PStr s \<Rightarrow> if s \<in> set LIVE_DETAIL_LEVELS then Some (length (takeWhile (\<lambda>l. l \<noteq> s) LIVE_DETAIL_LEVELS)) else None
   | _ \<Rightarrow> None)"

definition effective_live_detail :: "(pyval \<times> pyval) list \<Rightarrow> pyval \<Rightarrow> string result" where
  "effective_live_detail data requested =
     rbind (recorded_options data) (\<lambda>options.
     rbind (get_or_empty options ''live_detail'') (\<lambda>recorded.
     let known = List.map_filter level_index [recorded, requested]
     in Inr (LIVE_DETAIL_LEVELS ! (if known = [] then length LIVE_DETAIL_LEVELS - 1 else Min (set known)))))"

definition posix_parts :: "string \<Rightarrow> string list" where
  "posix_parts s = filter (\<lambda>c. c \<noteq> [] \<and> c \<noteq> ''.'') (split_on (CHR ''/'') s)"

definition sidecar_path :: "string list \<Rightarrow> pyval \<Rightarrow> string list result" where
  "sidecar_path base_dir ref =
     (case (case ref of PDict d \<Rightarrow> doc_get d ''path'' | _ \<Rightarrow> PNone) of
        PStr relative \<Rightarrow>
          if relative = [] then Inl (ValueError ''client_series has no sidecar path'')
          else if startswith relative ''/'' \<or> ''..'' \<in> set (posix_parts relative)
            then Inl (ValueError (''sidecar path must stay relative: '' @ relative))
          else Inr (base_dir @ posix_parts relative)
      | _ \<Rightarrow> Inl (ValueError ''client_series has no sidecar path''))"

subsection \<open>Bounds and agreement\<close>

lemma join_datestamps_length: "length (join_datestamps ds sep (Some limit)) \<le> limit"
  by (simp add: join_datestamps_def Let_def)

text \<open>Plot names fit a path component: whenever a name is produced, prefix, datestamps and suffix together
  have at most the given number of characters, whatever the number of runs; and it is
  refused exactly when the prefix leaves no room for one character.\<close>

theorem plot_name_fits:
  "case join_datestamps_for_filename ds pre sep limit of
     Inr name \<Rightarrow> length (pre @ name @ plot_suffix) \<le> limit
   | Inl _ \<Rightarrow> limit \<le> length pre + length plot_suffix"
  using join_datestamps_length [of ds sep "limit - length pre - length plot_suffix"]
  by (auto simp: join_datestamps_for_filename_def split: sum.splits if_splits)

text \<open>The live detail of a rendered document is never finer than the document records or the caller
  asks for: its level is at most every known level among the two, and it is one of them,
  or full detail when neither is known.\<close>

theorem effective_live_detail_is_lower:
  assumes "effective_live_detail data requested = Inr level"
    and "recorded_options data = Inr options" and "get_or_empty options ''live_detail'' = Inr recorded"
  shows "\<exists>n. level_index (PStr level) = Some n \<and>
    (\<forall>k. level_index recorded = Some k \<or> level_index requested = Some k \<longrightarrow> n \<le> k) \<and>
    (if level_index recorded = None \<and> level_index requested = None then level = ''full''
     else level_index recorded = Some n \<or> level_index requested = Some n)"
proof -
  let ?known = "List.map_filter level_index [recorded, requested]"
  have bound: "k < length LIVE_DETAIL_LEVELS" if lk: "level_index v = Some k" for v k
  proof -
    obtain t where "t \<in> set LIVE_DETAIL_LEVELS" "k = length (takeWhile (\<lambda>l. l \<noteq> t) LIVE_DETAIL_LEVELS)"
      using lk by (auto simp: level_index_def split: pyval.splits if_splits)
    then show ?thesis by (auto simp: LIVE_DETAIL_LEVELS_def)
  qed
  have self: "level_index (PStr (LIVE_DETAIL_LEVELS ! k)) = Some k" if "k < length LIVE_DETAIL_LEVELS" for k
  proof -
    have "k \<in> {0, 1, 2, 3}" using that by (auto simp: LIVE_DETAIL_LEVELS_def)
    then show ?thesis by (auto simp: level_index_def LIVE_DETAIL_LEVELS_def)
  qed
  have lv: "level = LIVE_DETAIL_LEVELS ! (if ?known = [] then length LIVE_DETAIL_LEVELS - 1 else Min (set ?known))"
    using assms(1) unfolding effective_live_detail_def assms(2,3) rbind_Inr Let_def by (simp only: sum.inject)
  have known: "set ?known = {k. level_index recorded = Some k \<or> level_index requested = Some k}"
    by (auto simp: List.map_filter_def split: option.splits)
  show ?thesis
  proof (cases "?known = []")
    case True
    then have "{k. level_index recorded = Some k \<or> level_index requested = Some k} = {}"
      using known by (simp only: list.set)
    then have "level_index recorded = None" "level_index requested = None"
      by (cases "level_index recorded"; cases "level_index requested"; auto)+
    moreover have "level = ''full''" using lv True by (simp add: LIVE_DETAIL_LEVELS_def)
    ultimately show ?thesis by (simp add: level_index_def LIVE_DETAIL_LEVELS_def)
  next
    case False
    then have m: "Min (set ?known) \<in> set ?known" by (intro Min_in) auto
    then have "level_index (PStr level) = Some (Min (set ?known))"
      using lv False known bound self by auto
    moreover have "\<forall>k \<in> set ?known. Min (set ?known) \<le> k" by simp
    ultimately show ?thesis using m known by (auto simp del: Min_le)
  qed
qed

theorem effective_live_detail_is_lower_witness:
  "\<exists>n. level_index (PStr ''selected'') = Some n \<and>
     (\<forall>k. level_index (PStr ''full'') = Some k \<or> level_index (PStr ''selected'') = Some k \<longrightarrow> n \<le> k)"
proof -
  let ?data = "[(PStr ''generator'', PDict [(PStr ''options'', PDict [(PStr ''live_detail'', PStr ''full'')])])]"
  have e: "effective_live_detail ?data (PStr ''selected'') = Inr ''selected''"
    "recorded_options ?data = Inr (PDict [(PStr ''live_detail'', PStr ''full'')])"
    "get_or_empty (PDict [(PStr ''live_detail'', PStr ''full'')]) ''live_detail'' = Inr (PStr ''full'')" by code_simp+
  show ?thesis using effective_live_detail_is_lower [OF e] by blast
qed

lemma natural_key_superscript: "\<exists>e. natural_key [CHR ''5'', CHR 0xB2] = Inl e"
proof -
  have "isl (natural_key [CHR ''5'', CHR 0xB2])" by code_simp
  then show ?thesis by (cases "natural_key [CHR ''5'', CHR 0xB2]") auto
qed

end
