(* ===== verification/BatchReports.thy ===== *)
theory BatchReports
  imports BatchManifest ReportCommon
begin

section \<open>Reporting a prepared batch (lib/filesystem\_batch.py)\<close>

text \<open>
  From a validated manifest to reports: the private snapshot of a group's published
  results, the selection of groups, the options engines receive, the identity that
  binds a report to its batch, the selection of saved documents and the exit status.
  The snapshot is a dictionary from paths below the snapshot directory to bytes. What
  an engine writes is outside this model; the functions below take the outcomes of
  the engines as arguments.
\<close>

subsection \<open>Staging the results of a group\<close>

definition positive_coordinate :: "string \<Rightarrow> string \<Rightarrow> nat result" where
  "positive_coordinate content name =
     rbind (export_value content name) (\<lambda>v.
     if fullmatch positive_re v then Inr (undec v)
     else Inl (ValueError (''Invalid positive execution coordinate: '' @ name)))"

definition io_size_re :: rx where
  "io_size_re = RPlus (RCls (\<lambda>c. is_digit c \<or> is_lower c \<or> is_upper c \<or> c = CHR '',''))"

definition execution_stems :: "fs_view \<Rightarrow> batch_manifest \<Rightarrow> batch_group \<Rightarrow> batch_execution \<Rightarrow> string list result" where
  "execution_stems fs m g e =
     rbind (contained_path fs (mf_root m) (''executions/'' @ execution_id e @ ''.sh'')) (\<lambda>p.
     rbind (read_regular fs p) (\<lambda>data.
     rbind (utf8_decode data) (\<lambda>content.
     rbind (positive_coordinate content ''nodes'') (\<lambda>nodes.
     if group_kind g = ''mdtest'' then
       rbind (positive_coordinate content ''tasks_per_node'') (\<lambda>tasks.
       rbind (positive_coordinate content ''MDTEST_ITERATIONS'') (\<lambda>iterations.
       Inr (map (\<lambda>i. ''mdtest-elbencho-c_'' @ pad0 3 nodes @ ''-t_'' @ pad0 3 tasks @ ''_'' @ mf_datestamp m @
              ''_iter'' @ dec i) [1..<Suc iterations])))
     else
       rbind (export_value content ''io_size'') (\<lambda>size.
       rbind (check (fullmatch io_size_re size) (ValueError ''Invalid IO size in batch execution'')) (\<lambda>_.
       rbind (positive_coordinate content ''thread_count'') (\<lambda>threads.
       rbind (positive_coordinate content ''io_depth'') (\<lambda>depth.
       Inr [''elbencho-'' @ size @ ''-c_'' @ pad0 3 nodes @ ''-s_'' @ pad0 3 threads @ ''-d_'' @ pad0 3 depth @
            ''_'' @ mf_datestamp m]))))))))"

type_synonym snapshot = "(path, string) dict"

definition copy_published :: "fs_view \<Rightarrow> path \<Rightarrow> path \<Rightarrow> snapshot \<Rightarrow> snapshot result" where
  "copy_published fs source dest st =
     rbind (read_regular fs source) (\<lambda>data.
     rbind (check (data \<noteq> []) (ValueError (''Empty published batch artifact: '' @ path_str source))) (\<lambda>_.
     Inr (dict_set dest data st)))"

definition copy_existing :: "fs_view \<Rightarrow> path \<Rightarrow> path \<Rightarrow> snapshot \<Rightarrow> snapshot result" where
  "copy_existing fs source dest st = (if fs_exists fs source then copy_published fs source dest st else Inr st)"

definition VERSION_SUFFIX :: string where "VERSION_SUFFIX = ''.project-version''"

text \<open>The files of one stem: csv and out, the live csv if there is one, the version if readable.\<close>

definition stage_stem :: "fs_view \<Rightarrow> path \<Rightarrow> string \<Rightarrow> snapshot \<Rightarrow> snapshot result" where
  "stage_stem fs source stem st0 =
     rbind (copy_published fs (source @ [stem @ ''.csv'']) [stem @ ''.csv''] st0) (\<lambda>st1.
     rbind (copy_published fs (source @ [stem @ ''.out'']) [stem @ ''.out''] st1) (\<lambda>st2.
     rbind (copy_existing fs (source @ [stem @ ''.live.csv'']) [stem @ ''.live.csv''] st2) (\<lambda>st3.
     let version = source @ [stem @ ''.out'' @ VERSION_SUFFIX]
     in if fs_file fs version \<and> \<not> fs_symlink fs version
        then rbind (fs_read fs version) (\<lambda>data. Inr (dict_set [stem @ ''.out'' @ VERSION_SUFFIX] data st3))
        else Inr st3)))"

definition stage_ledger_file :: "fs_view \<Rightarrow> batch_manifest \<Rightarrow> batch_group \<Rightarrow> string \<Rightarrow> snapshot \<Rightarrow> snapshot result" where
  "stage_ledger_file fs m g name st =
     rbind (contained_path fs (mf_root m) (''executions/'' @ name)) (\<lambda>p.
     if fs_exists fs p then copy_published fs p [''executions'', name] st
     else rbind (contained_path fs (mf_root m) (output_relative g @ ''/executions/'' @ name)) (\<lambda>q.
       copy_existing fs q [''executions'', name] st))"

definition stage_execution ::
    "fs_view \<Rightarrow> batch_manifest \<Rightarrow> batch_group \<Rightarrow> batch_execution \<Rightarrow> string list \<Rightarrow> snapshot \<Rightarrow> snapshot result" where
  "stage_execution fs m g e stems st0 =
     rbind (group_path fs m g) (\<lambda>source.
     rbind (rfold (stage_stem fs source) stems st0) (\<lambda>st1.
     rbind (copy_published fs (mf_root m @ [''executions'', execution_id e @ ''.sh''])
              [''executions'', execution_id e @ ''.sh''] st1) (\<lambda>st2.
     rbind (Inr (dict_set [''executions'', execution_id e @ ''.status''] SUCCESS st2)) (\<lambda>st3.
     rbind (contained_path fs (mf_root m)
              (output_relative g @ ''/executions/'' @ execution_id e @ ''.workload.tsv'')) (\<lambda>workload.
     rbind (copy_existing fs workload [''executions'', execution_id e @ ''.workload.tsv''] st3) (\<lambda>st4.
     rbind (stage_ledger_file fs m g (execution_id e @ ''.log'') st4) (\<lambda>st5.
     stage_ledger_file fs m g (execution_id e @ ''.workers.tsv'') st5)))))))"

definition stage_next ::
    "fs_view \<Rightarrow> batch_manifest \<Rightarrow> batch_group \<Rightarrow> batch_execution \<Rightarrow> string list \<times> snapshot \<Rightarrow>
     (string list \<times> snapshot) result" where
  "stage_next fs m g e acc =
     (case acc of (seen, st) \<Rightarrow>
      rbind (check (e \<in> set (group_executions m (group_id g)))
        (ValueError ''Reporting input execution belongs to another group'')) (\<lambda>_.
      rbind (execution_stems fs m g e) (\<lambda>stems.
      rbind (check (set seen \<inter> set stems = {})
        (ValueError (''Repeated coordinates within batch group '' @ group_id g))) (\<lambda>_.
      rbind (stage_execution fs m g e stems st) (\<lambda>st'.
      Inr (seen @ remdups stems, st'))))))"

definition stage_group_inputs ::
    "fs_view \<Rightarrow> batch_manifest \<Rightarrow> batch_group \<Rightarrow> batch_execution list \<Rightarrow> (nat \<times> snapshot) result" where
  "stage_group_inputs fs m g successful =
     rbind (group_path fs m g) (\<lambda>source.
     rbind (copy_published fs (source @ [ENV_SHELL]) [ENV_SHELL] []) (\<lambda>st1.
     rbind (copy_published fs (source @ [ENV_YAML]) [ENV_YAML] st1) (\<lambda>st2.
     rbind (rfold (stage_next fs m g) successful ([], st2)) (\<lambda>(seen, st).
     Inr (length seen, st)))))"

subsection \<open>Selection and options\<close>

definition EXIT_INCOMPLETE :: int where "EXIT_INCOMPLETE = 3"
definition REPORTED :: string where "REPORTED = ''Reported''"

definition selected_ids :: "string option \<Rightarrow> string list option" where
  "selected_ids groups = map_option (split_on (CHR '','')) groups"

definition selected_groups :: "batch_manifest \<Rightarrow> string \<Rightarrow> string option \<Rightarrow> batch_group list result" where
  "selected_groups m kind groups =
     (if kind \<notin> set KINDS then Inl (ValueError (''Unknown filesystem workload kind: '' @ kind))
      else case selected_ids groups of
        None \<Rightarrow> Inr (filter (\<lambda>g. kind = ''all'' \<or> group_kind g = kind) (mf_groups m))
      | Some ids \<Rightarrow>
          if \<not> set ids \<subseteq> set (map group_id (mf_groups m))
          then Inl (ValueError (''Unknown batch groups: '' @ the groups))
          else Inr (filter (\<lambda>g. (kind = ''all'' \<or> group_kind g = kind) \<and> group_id g \<in> set ids) (mf_groups m)))"

definition without_consumed :: "string list \<Rightarrow> string list" where
  "without_consumed options = filter (\<lambda>item. before (CHR ''='') item \<notin> set BATCH_CONSUMED_FLAGS) options"

definition engine_results_options :: "string \<Rightarrow> string \<Rightarrow> string \<Rightarrow> string list" where
  "engine_results_options report_dir live_dir kind =
     [RESULTS_FRAGMENT_FLAG @ ''='' @ report_dir @ ''/results.fragment.json''] @
     (if kind = ''io'' then [RESULTS_LIVE_DIR_FLAG @ ''='' @ live_dir] else [])"

definition routed_options ::
    "settings option \<Rightarrow> string list \<Rightarrow> (string, string list) dict option \<Rightarrow> (string, string list) dict result" where
  "routed_options analysis_args kinds routed = (case analysis_args of
     None \<Rightarrow> Inr []
   | Some args \<Rightarrow> rbind (case routed of Some r \<Rightarrow> Inr r | None \<Rightarrow> options_by_kind args kinds) (\<lambda>r.
       Inr (map (\<lambda>(kind, options). (kind, without_consumed options)) r)))"

text \<open>What the reports of a batch produced. A finished group is its outcome, whether a report
  was generated and whether the group failed; its fragment is \<open>None\<close> or the fragment
  with a flag that says it was owed but unusable.\<close>

record group_reports =
  gr_outcomes :: "(string, string) dict"
  gr_fragments :: "(string, pyval option) dict"
  gr_report_failed :: "string set"
  gr_failed :: bool

definition record_group ::
    "string \<Rightarrow> string \<times> bool \<times> bool \<Rightarrow> pyval option \<times> bool \<Rightarrow> group_reports \<Rightarrow> group_reports" where
  "record_group gid finished collected r =
     (case finished of (outcome, generated, group_failed) \<Rightarrow>
      case (if generated then collected else (None, False)) of (fragment, broken) \<Rightarrow>
        r \<lparr> gr_outcomes := dict_set gid outcome (gr_outcomes r),
            gr_fragments := dict_set gid fragment (gr_fragments r),
            gr_report_failed := (if group_failed \<or> broken then insert gid (gr_report_failed r) else gr_report_failed r),
            gr_failed := (gr_failed r \<or> group_failed \<or> broken) \<rparr>)"

definition report_batch_status :: "bool \<Rightarrow> bool option \<Rightarrow> bool \<Rightarrow> int" where
  "report_batch_status failed complete require_complete =
     (if failed then 1
      else case complete of None \<Rightarrow> 1
           | Some c \<Rightarrow> if require_complete \<and> \<not> c then EXIT_INCOMPLETE else 0)"

subsection \<open>Documents\<close>

record doc_group =
  dg_group_id :: string
  dg_kind :: string

type_synonym document = "doc_group list"

definition document_groups :: "document \<Rightarrow> string \<Rightarrow> string option \<Rightarrow> doc_group list result" where
  "document_groups doc kind groups =
     (if kind \<notin> set KINDS then Inl (ValueError (''Unknown filesystem workload kind: '' @ kind))
      else rbind (case selected_ids groups of
          None \<Rightarrow> Inr (filter (\<lambda>g. kind = ''all'' \<or> dg_kind g = kind) doc)
        | Some ids \<Rightarrow>
            if \<not> set ids \<subseteq> set (map dg_group_id doc)
            then Inl (ValueError (''Unknown document groups: '' @ the groups))
            else Inr (filter (\<lambda>g. (kind = ''all'' \<or> dg_kind g = kind) \<and> dg_group_id g \<in> set ids) doc))
        (\<lambda>selected. if selected = [] then Inl (ValueError ''No document groups match --kind and --groups'')
                     else Inr selected))"

definition selected_document_ids :: "document \<Rightarrow> string \<Rightarrow> string list option \<Rightarrow> string list" where
  "selected_document_ids doc kind wanted =
     map dg_group_id (filter (\<lambda>g. (kind = ''all'' \<or> kind = dg_kind g) \<and>
       (case wanted of None \<Rightarrow> True | Some ids \<Rightarrow> dg_group_id g \<in> set ids)) doc)"

definition wanted_ids :: "string option \<Rightarrow> string list option" where
  "wanted_ids groups = (case groups of None \<Rightarrow> None | Some g \<Rightarrow> if g = [] then None else Some (split_on (CHR '','') g))"

definition document_selections ::
    "document list \<Rightarrow> string \<Rightarrow> string option \<Rightarrow> (nat \<times> document \<times> string option) list result" where
  "document_selections documents kind groups =
     (let wanted = wanted_ids groups;
          known = set (map dg_group_id (concat documents));
          unknown = (case wanted of None \<Rightarrow> [] | Some ids \<Rightarrow> sort (remdups (filter (\<lambda>i. i \<notin> known) ids)))
      in rbind (check (unknown = []) (ValueError (''Unknown document groups: '' @ join '','' unknown))) (\<lambda>_.
         let selections = List.map_filter (\<lambda>(number, doc).
               let ids = selected_document_ids doc kind wanted
               in if ids = [] then None
                  else Some (number, doc, if wanted = None then None else Some (join '','' ids)))
             (zip [1..<Suc (length documents)] documents)
         in if selections = [] then Inl (ValueError ''No document groups match --kind and --groups'')
            else Inr selections))"

text \<open>Each render is its exit status and whether it wrote text.\<close>

definition combined_status :: "(int \<times> bool) list \<Rightarrow> int" where
  "combined_status rendered =
     (let statuses = map fst rendered;
          produced = list_ex snd rendered;
          failures = filter (\<lambda>s. s \<noteq> 0 \<and> s \<noteq> EXIT_INCOMPLETE) statuses
      in if failures \<noteq> [] then hd failures
         else if \<not> produced then (if EXIT_INCOMPLETE \<in> set statuses then EXIT_INCOMPLETE else 1)
         else Max (set statuses))"

text \<open>References of comparisons between mixed directories. A candidate is a document name with its
  number; names are tried longest first.\<close>

definition reference_names :: "(string \<times> string) list \<Rightarrow> (string \<times> nat) list" where
  "reference_names paths =
     sort_key (\<lambda>item. - int (length (fst item)))
       (remdups (concat (map (\<lambda>(number, path, resolved). [(dec number, number), (path, number), (resolved, number)])
         (zip [1..<Suc (length paths)] paths))))"

definition mixed_reference :: "string \<Rightarrow> (string \<times> nat) list \<Rightarrow> string list list \<Rightarrow> nat result" where
  "mixed_reference reference names groups =
     (case filter (\<lambda>(name, _). startswith reference (name @ '':'')) names of
        [] \<Rightarrow> Inl (ValueError (''section '' @ repr_str reference @
               '': no such document; IO directories are document 1 and metadata directories document 2''))
      | (name, number) # _ \<Rightarrow>
          let group = before (CHR '':'') (drop (length name + 1) reference)
          in rbind (if isdigit group then py_int group else Inr (- 1)) (\<lambda>n.
             if n < 0 \<or> pad0 4 (nat n) \<notin> set (groups ! (number - 1))
             then Inl (ValueError (''section '' @ repr_str reference @ '': document '' @ dec number @ '' has groups '' @
                    join '', '' (sort (remdups (groups ! (number - 1))))))
             else Inr number))"

definition directory_groups :: "string list \<Rightarrow> string list" where
  "directory_groups inputs =
     (if length inputs = 1 then [''0000''] else map (pad0 4) [1..<Suc (length inputs)])"

definition check_mixed_references ::
    "(string \<times> string list) list \<Rightarrow> (string, string list) dict \<Rightarrow> (string \<times> string) list \<Rightarrow> unit result" where
  "check_mixed_references comparisons directories paths =
     (let names = reference_names paths; groups = map (\<lambda>d. directory_groups (snd d)) directories
      in each (\<lambda>(title, sections).
           rbind (traverse (\<lambda>r. mixed_reference r names groups) sections) (\<lambda>documents.
           check (length (remdups documents) \<le> 1)
             (ValueError (''comparison '' @ repr_str title @ '' compares IO with metadata'')))) comparisons)"

subsection \<open>The identity of a report and the combined report\<close>

definition identity_fields :: "batch_manifest \<Rightarrow> batch_group \<Rightarrow> string list" where
  "identity_fields m g =
     [path_str (mf_root m), group_id g, group_kind g, output_relative g, shell_digest g, yaml_digest g] @
     concat (map (\<lambda>e. [execution_id e, definition_digest e]) (group_executions m (group_id g)))"

definition NUL :: char where "NUL = CHR 0x00"

definition report_identity :: "fs_view \<Rightarrow> (string \<Rightarrow> string) \<Rightarrow> batch_manifest \<Rightarrow> batch_group \<Rightarrow> path \<Rightarrow> string result" where
  "report_identity fs sha m g report =
     rbind (read_regular fs report) (\<lambda>data.
     Inr (sha (utf8_encode (join [NUL] (identity_fields m g))) @ [LF] @ sha data @ [LF]))"

text \<open>Every exception here is a \<^verbatim>\<open>ValueError\<close> or an \<^verbatim>\<open>OSError\<close>, which the source catches.\<close>

definition has_owned_report :: "fs_view \<Rightarrow> (string \<Rightarrow> string) \<Rightarrow> batch_manifest \<Rightarrow> batch_group \<Rightarrow> path \<Rightarrow> bool" where
  "has_owned_report fs sha m g report =
     (case read_regular fs (butlast report @ [''.report-identity'']) of
        Inl _ \<Rightarrow> False
      | Inr saved \<Rightarrow> list_all (\<lambda>c. code c < 128) saved \<and> report_identity fs sha m g report = Inr saved)"

definition single_line :: "string \<Rightarrow> string" where
  "single_line text = map (\<lambda>c. if c = CR \<or> c = LF then CHR '' '' else c) text"

definition quoted_target_label :: "storage_target \<Rightarrow> string" where
  "quoted_target_label t = (case st_name t of
     None \<Rightarrow> [CHR 0x22] @ UNKNOWN_TARGET @ [CHR 0x22]
   | Some n \<Rightarrow> [CHR 0x22] @ single_line n @ [CHR 0x22] @ (if st_recorded t then [] else '' (derived)''))"

text \<open>The groups whose reports the combined report may use.\<close>

definition eligible_groups ::
    "fs_view \<Rightarrow> (string \<Rightarrow> string) \<Rightarrow> batch_manifest \<Rightarrow> path \<Rightarrow> (string, string) dict \<Rightarrow> batch_group list" where
  "eligible_groups fs sha m output outcomes =
     filter (\<lambda>g. (case dict_get outcomes (group_id g) of None \<Rightarrow> True | Some r \<Rightarrow> r = REPORTED) \<and>
        has_owned_report fs sha m g (output @ [GROUPS_DIRNAME, group_id g, ''report.txt''])) (mf_groups m)"

fun longest_run :: "char \<Rightarrow> nat \<Rightarrow> nat \<Rightarrow> string \<Rightarrow> nat" where
  "longest_run q cur best [] = max cur best"
| "longest_run q cur best (c # cs) =
     (if c = q then longest_run q (Suc cur) best cs else longest_run q 0 (max cur best) cs)"

abbreviation backtick :: char where "backtick \<equiv> CHR 0x60"

definition yaml_fence :: "string \<Rightarrow> string" where
  "yaml_fence environment = replicate (max 3 (longest_run backtick 0 0 environment + 1)) backtick"

definition report_settings_block :: "string \<Rightarrow> string \<Rightarrow> string" where
  "report_settings_block environment settings_label =
     [LF, LF] @ replicate 80 (CHR ''-'') @ [LF] @
     (if settings_label \<noteq> [] then settings_label else ''Saved settings ('' @ ENV_YAML @ ''):'') @ [LF] @
     yaml_fence environment @ ''yaml'' @ [LF] @ environment @
     (if environment \<noteq> [] \<and> last environment = LF then [] else [LF]) @ yaml_fence environment @ [LF, LF]"

subsection \<open>Routing a reporter's command line\<close>

fun forwarded_options :: "string \<Rightarrow> string list \<Rightarrow> string list" where
  "forwarded_options batch [] = []"
| "forwarded_options batch (a # rest) =
     (if a \<in> {''--groups'', ''--output-dir'', COMPARISONS_FLAG} then forwarded_options batch (drop 1 rest)
      else if startswith a ''--groups='' \<or> startswith a ''--output-dir='' \<or> startswith a (COMPARISONS_FLAG @ ''='') \<or>
              a \<in> set BATCH_CONSUMED_FLAGS \<or> a = batch
        then forwarded_options batch rest
      else a # forwarded_options batch rest)"

datatype batch_route = NotABatch | Batch string "string list"

definition route_batch_report ::
    "fs_view \<Rightarrow> (string \<Rightarrow> path) \<Rightarrow> string list \<Rightarrow> string option \<Rightarrow> bool \<Rightarrow> string list \<Rightarrow> batch_route result" where
  "route_batch_report fs to_path input_dirs groups test_parse argv =
     rbind (reject_batch_descendant_inputs fs (map (\<lambda>d. (d, to_path d)) input_dirs)) (\<lambda>_.
     case filter (\<lambda>d. is_batch_directory fs (to_path d)) input_dirs of
       [] \<Rightarrow> if groups \<noteq> None \<and> groups \<noteq> Some [] then Inl (ValueError ''--groups requires a prepared batch input'')
             else Inr NotABatch
     | batch # _ \<Rightarrow>
         rbind (check (length input_dirs = 1)
           (ValueError ''A prepared batch must be the sole raw reporting input'')) (\<lambda>_.
         rbind (check (\<not> test_parse) (ValueError ''--test-parse cannot report a prepared batch'')) (\<lambda>_.
         Inr (Batch batch (forwarded_options batch argv)))))"

subsection \<open>Exit status\<close>

lemma Max_zero_three: "S \<subseteq> {0, 3} \<Longrightarrow> S \<noteq> {} \<Longrightarrow> Max S = (if 3 \<in> S then 3 else (0::int))"
proof -
  assume "S \<subseteq> {0, 3}" "S \<noteq> {}"
  then have "S = {0} \<or> S = {3} \<or> S = {0, 3}" by auto
  then show ?thesis by auto
qed

text \<open>Several renders succeed together exactly when each succeeded and at least one wrote text;
  the incomplete status is returned exactly when nothing failed and some render was
  incomplete. So a failure is never masked by another render.\<close>

theorem combined_status_priority:
  "(combined_status rendered = 0 \<longleftrightarrow> list_all (\<lambda>r. fst r = 0) rendered \<and> list_ex snd rendered) \<and>
   (combined_status rendered = EXIT_INCOMPLETE \<longleftrightarrow>
      list_all (\<lambda>r. fst r \<in> {0, EXIT_INCOMPLETE}) rendered \<and> list_ex (\<lambda>r. fst r = EXIT_INCOMPLETE) rendered)"
proof -
  let ?st = "map fst rendered"
  let ?fail = "filter (\<lambda>s. s \<noteq> 0 \<and> s \<noteq> EXIT_INCOMPLETE) ?st"
  show ?thesis
  proof (cases "?fail = []")
    case False
    then have c: "combined_status rendered = hd ?fail" by (simp add: combined_status_def Let_def)
    have h: "hd ?fail \<in> set ?fail" using False by (rule hd_in_set)
    then have "hd ?fail \<noteq> 0" "hd ?fail \<noteq> EXIT_INCOMPLETE" "hd ?fail \<in> set ?st" by auto
    then show ?thesis unfolding c list_all_iff by fastforce
  next
    case True
    then have in3: "\<forall>s \<in> set ?st. s = 0 \<or> s = 3" by (auto simp: filter_empty_conv EXIT_INCOMPLETE_def)
    show ?thesis
    proof (cases "list_ex snd rendered")
      case False
      then show ?thesis using True in3
        by (auto simp: combined_status_def Let_def EXIT_INCOMPLETE_def list_all_iff list_ex_iff image_iff)
    next
      case produced: True
      then have ne: "set ?st \<noteq> {}" by (auto simp: list_ex_iff)
      have "Max (set ?st) = (if 3 \<in> set ?st then 3 else 0)"
        using in3 ne by (intro Max_zero_three) auto
      then have c: "combined_status rendered = (if 3 \<in> set ?st then 3 else 0)"
        using True produced by (simp add: combined_status_def Let_def)
      have zero: "list_all (\<lambda>r. fst r = 0) rendered \<longleftrightarrow> 3 \<notin> set ?st" using in3 by (force simp: list_all_iff)
      have three: "list_ex (\<lambda>r. fst r = 3) rendered \<longleftrightarrow> 3 \<in> set ?st" by (auto simp: list_ex_iff image_iff)
      have "list_all (\<lambda>r. fst r \<in> {0, 3}) rendered" using in3 by (auto simp: list_all_iff)
      then show ?thesis unfolding c zero EXIT_INCOMPLETE_def three using produced by simp
    qed
  qed
qed

subsection \<open>The staged snapshot\<close>

text \<open>Every file at the top of the snapshot is a copy of the group's published file.\<close>

definition copies :: "fs_view \<Rightarrow> path \<Rightarrow> snapshot \<Rightarrow> bool" where
  "copies fs source st \<longleftrightarrow> (\<forall>f data. dict_get st [f] = Some data \<longrightarrow> fs_read fs (source @ [f]) = Inr data)"

definition grows :: "snapshot \<Rightarrow> snapshot \<Rightarrow> bool" where
  "grows st st' \<longleftrightarrow> (\<forall>p. dict_get st p \<noteq> None \<longrightarrow> dict_get st' p \<noteq> None)"

lemma read_regular_Inr: "read_regular fs p = Inr data \<Longrightarrow> fs_read fs p = Inr data"
  by (simp add: read_regular_def split: if_splits)

lemma grows_set: "grows st (dict_set k v st)"
  by (simp add: grows_def)

lemma grows_refl [simp]: "grows st st"
  by (simp add: grows_def)

lemma grows_trans: "grows a b \<Longrightarrow> grows b c \<Longrightarrow> grows a c"
  by (simp add: grows_def)

lemma copies_set:
  "copies fs source st \<Longrightarrow> (\<And>f. k = [f] \<Longrightarrow> fs_read fs (source @ [f]) = Inr v) \<Longrightarrow> copies fs source (dict_set k v st)"
  by (auto simp: copies_def)

lemma copy_published_Inr:
  assumes "copy_published fs src dest st = Inr st'"
  obtains data where "fs_read fs src = Inr data" "data \<noteq> []" "st' = dict_set dest data st"
  using assms by (auto simp: copy_published_def rbind_eq_Inr dest: read_regular_Inr)

text \<open>A copy to the same name keeps both facts, and so does a copy below the ledger.\<close>

definition keeps :: "fs_view \<Rightarrow> path \<Rightarrow> snapshot \<Rightarrow> snapshot \<Rightarrow> bool" where
  "keeps fs source st st' \<longleftrightarrow> grows st st' \<and> (copies fs source st \<longrightarrow> copies fs source st')"

lemma keeps_refl [simp]: "keeps fs source st st"
  by (simp add: keeps_def)

lemma keeps_trans: "keeps fs source a b \<Longrightarrow> keeps fs source b c \<Longrightarrow> keeps fs source a c"
  by (auto simp: keeps_def intro: grows_trans)

lemma keeps_copy:
  assumes "copy_published fs src dest st = Inr st'" and "\<And>f. dest = [f] \<Longrightarrow> src = source @ [f]"
  shows "keeps fs source st st' \<and> dict_get st' dest \<noteq> None"
  using assms by (auto elim!: copy_published_Inr simp: keeps_def grows_set intro!: copies_set)

lemma keeps_copy_existing:
  assumes "copy_existing fs src dest st = Inr st'" and "\<And>f. dest = [f] \<Longrightarrow> src = source @ [f]"
  shows "keeps fs source st st'"
  using assms keeps_copy by (fastforce simp: copy_existing_def split: if_splits)

lemma keeps_stage_stem:
  assumes "stage_stem fs source stem st = Inr st'"
  shows "keeps fs source st st' \<and> dict_get st' [stem @ ''.csv''] \<noteq> None \<and> dict_get st' [stem @ ''.out''] \<noteq> None"
proof -
  let ?v = "source @ [stem @ ''.out'' @ VERSION_SUFFIX]"
  obtain st1 st2 st3 where c1: "copy_published fs (source @ [stem @ ''.csv'']) [stem @ ''.csv''] st = Inr st1"
    and c2: "copy_published fs (source @ [stem @ ''.out'']) [stem @ ''.out''] st1 = Inr st2"
    and c3: "copy_existing fs (source @ [stem @ ''.live.csv'']) [stem @ ''.live.csv''] st2 = Inr st3"
    and c4: "(if fs_file fs ?v \<and> \<not> fs_symlink fs ?v
        then rbind (fs_read fs ?v) (\<lambda>data. Inr (dict_set [stem @ ''.out'' @ VERSION_SUFFIX] data st3)) else Inr st3) = Inr st'"
    using assms unfolding stage_stem_def rbind_eq_Inr Let_def by blast
  have k1: "keeps fs source st st1 \<and> dict_get st1 [stem @ ''.csv''] \<noteq> None" by (rule keeps_copy [OF c1]) simp
  have k2: "keeps fs source st1 st2 \<and> dict_get st2 [stem @ ''.out''] \<noteq> None" by (rule keeps_copy [OF c2]) simp
  have k3: "keeps fs source st2 st3" by (rule keeps_copy_existing [OF c3]) simp
  have k4: "keeps fs source st3 st'"
    using c4 by (auto simp: rbind_eq_Inr keeps_def grows_set intro!: copies_set split: if_splits)
  show ?thesis using k1 k2 k3 k4 unfolding keeps_def grows_def by blast
qed

lemma keeps_stage_stems:
  assumes "rfold (stage_stem fs source) stems st = Inr st'"
  shows "keeps fs source st st' \<and>
    (\<forall>stem \<in> set stems. dict_get st' [stem @ ''.csv''] \<noteq> None \<and> dict_get st' [stem @ ''.out''] \<noteq> None)"
  using assms
proof (induction stems arbitrary: st)
  case (Cons stem stems)
  then obtain st1 where s: "stage_stem fs source stem st = Inr st1" and r: "rfold (stage_stem fs source) stems st1 = Inr st'"
    by (auto simp: rbind_eq_Inr)
  show ?case using keeps_stage_stem [OF s] Cons.IH [OF r] unfolding keeps_def grows_def by (auto simp del: split_paired_All)
qed simp

lemma keeps_ledger_file: "stage_ledger_file fs m g n st = Inr st' \<Longrightarrow> keeps fs source st st'"
  using keeps_copy [of fs _ "[''executions'', n]"] keeps_copy_existing [of fs _ "[''executions'', n]"]
  by (fastforce simp: stage_ledger_file_def rbind_eq_Inr split: if_splits)

lemma keeps_stage_execution:
  assumes "stage_execution fs m g e stems st = Inr st'" and src: "group_path fs m g = Inr source"
  shows "keeps fs source st st' \<and>
    (\<forall>stem \<in> set stems. dict_get st' [stem @ ''.csv''] \<noteq> None \<and> dict_get st' [stem @ ''.out''] \<noteq> None)"
proof -
  obtain st1 st2 st4 st5 workload where s1: "rfold (stage_stem fs source) stems st = Inr st1"
    and s2: "copy_published fs (mf_root m @ [''executions'', execution_id e @ ''.sh''])
              [''executions'', execution_id e @ ''.sh''] st1 = Inr st2"
    and s4: "copy_existing fs workload [''executions'', execution_id e @ ''.workload.tsv'']
        (dict_set [''executions'', execution_id e @ ''.status''] SUCCESS st2) = Inr st4"
    and s5: "stage_ledger_file fs m g (execution_id e @ ''.log'') st4 = Inr st5"
    and s6: "stage_ledger_file fs m g (execution_id e @ ''.workers.tsv'') st5 = Inr st'"
    using assms(1) unfolding stage_execution_def rbind_eq_Inr src by blast
  have k2: "keeps fs source st1 st2" using keeps_copy [OF s2] by simp
  have k3: "keeps fs source st2 (dict_set [''executions'', execution_id e @ ''.status''] SUCCESS st2)"
    by (auto simp: keeps_def grows_set intro!: copies_set)
  have k4: "keeps fs source (dict_set [''executions'', execution_id e @ ''.status''] SUCCESS st2) st4"
    by (rule keeps_copy_existing [OF s4]) simp
  have k: "keeps fs source st1 st'"
    by (rule keeps_trans [OF k2 keeps_trans [OF k3 keeps_trans [OF k4
          keeps_trans [OF keeps_ledger_file [OF s5] keeps_ledger_file [OF s6]]]]])
  note s = keeps_stage_stems [OF s1]
  have "grows st1 st'" using k by (simp add: keeps_def)
  then have "\<forall>stem \<in> set stems. dict_get st' [stem @ ''.csv''] \<noteq> None \<and> dict_get st' [stem @ ''.out''] \<noteq> None"
    using s by (simp add: grows_def del: not_None_eq)
  then show ?thesis using s keeps_trans [OF _ k] by blast
qed

lemma stage_next_Inr:
  assumes "stage_next fs m g e (seen, st) = Inr acc'"
  obtains stems st' where "e \<in> set (group_executions m (group_id g))" "execution_stems fs m g e = Inr stems"
    "set seen \<inter> set stems = {}" "stage_execution fs m g e stems st = Inr st'" "acc' = (seen @ remdups stems, st')"
  using assms by (auto simp: stage_next_def rbind_eq_Inr)

lemma rfold_stage_next:
  assumes "rfold (stage_next fs m g) es (seen, st) = Inr (seen', st')" and src: "group_path fs m g = Inr source"
    and "distinct seen"
  shows "keeps fs source st st' \<and> distinct seen' \<and> set seen \<subseteq> set seen' \<and>
    (\<forall>e \<in> set es. e \<in> set (group_executions m (group_id g)) \<and> (\<exists>stems. execution_stems fs m g e = Inr stems \<and>
      set stems \<subseteq> set seen' \<and>
      (\<forall>stem \<in> set stems. dict_get st' [stem @ ''.csv''] \<noteq> None \<and> dict_get st' [stem @ ''.out''] \<noteq> None)))"
  using assms(1,3)
proof (induction es arbitrary: seen st)
  case (Cons e es)
  obtain acc where n: "stage_next fs m g e (seen, st) = Inr acc" and r: "rfold (stage_next fs m g) es acc = Inr (seen', st')"
    using Cons.prems(1) by (auto simp: rbind_eq_Inr)
  obtain stems st1 where e: "e \<in> set (group_executions m (group_id g))" "execution_stems fs m g e = Inr stems"
    "set seen \<inter> set stems = {}" "stage_execution fs m g e stems st = Inr st1" "acc = (seen @ remdups stems, st1)"
    using n by (rule stage_next_Inr)
  have d: "distinct (seen @ remdups stems)" using e(3) Cons.prems(2) by auto
  note ih = Cons.IH [OF r [unfolded e(5)] d] and k = keeps_stage_execution [OF e(4) src]
  have g: "grows st1 st'" using ih by (simp add: keeps_def)
  have "\<forall>stem \<in> set stems. dict_get st' [stem @ ''.csv''] \<noteq> None \<and> dict_get st' [stem @ ''.out''] \<noteq> None"
    using k g by (simp add: grows_def del: not_None_eq)
  moreover have "set stems \<subseteq> set seen'" "set seen \<subseteq> set seen'" using ih by auto
  moreover have "keeps fs source st st'" using keeps_trans k ih by blast
  ultimately show ?case using ih e(1,2) by auto
qed simp

text \<open>C13. The snapshot a report reads is faithful: when staging succeeds, every staged top-level file is a
  byte-for-byte copy of the published file of that name in the group's output, the
  staged executions belong to the group, each of their result stems has its csv and
  its out file staged, and the returned number counts pairwise different stems.\<close>

theorem staged_snapshot_faithful:
  assumes "stage_group_inputs fs m g successful = Inr (n, st)"
  shows "\<exists>source stems. group_path fs m g = Inr source \<and> distinct stems \<and> length stems = n \<and>
    (\<forall>f data. dict_get st [f] = Some data \<longrightarrow> fs_read fs (source @ [f]) = Inr data) \<and>
    (\<forall>e \<in> set successful. e \<in> set (group_executions m (group_id g)) \<and>
      (\<exists>own. execution_stems fs m g e = Inr own \<and> set own \<subseteq> set stems \<and>
        (\<forall>stem \<in> set own. dict_get st [stem @ ''.csv''] \<noteq> None \<and> dict_get st [stem @ ''.out''] \<noteq> None)))"
proof -
  obtain source st1 st2 seen where src: "group_path fs m g = Inr source"
    and c1: "copy_published fs (source @ [ENV_SHELL]) [ENV_SHELL] [] = Inr st1"
    and c2: "copy_published fs (source @ [ENV_YAML]) [ENV_YAML] st1 = Inr st2"
    and r: "rfold (stage_next fs m g) successful ([], st2) = Inr (seen, st)" and n: "n = length seen"
    using assms by (auto simp: stage_group_inputs_def rbind_eq_Inr)
  note s = rfold_stage_next [OF r src]
  have "keeps fs source [] st1" using keeps_copy [OF c1] by simp
  moreover have "keeps fs source st1 st2" using keeps_copy [OF c2] by simp
  ultimately have "keeps fs source [] st" using s keeps_trans by (metis distinct.simps(1))
  then have "copies fs source st" by (simp add: keeps_def copies_def)
  then show ?thesis using src n s unfolding copies_def by (intro exI [of _ source] exI [of _ seen]) auto
qed

lemma stage_sample:
  "\<exists>st. stage_group_inputs (regular_files sample_files) sample_manifest sample_group [sample_execution] = Inr (1, st)"
proof -
  have "map_sum id fst (stage_group_inputs (regular_files sample_files) sample_manifest sample_group [sample_execution]) = Inr 1"
    by code_simp
  then show ?thesis
    by (cases "stage_group_inputs (regular_files sample_files) sample_manifest sample_group [sample_execution]") auto
qed

theorem staged_snapshot_faithful_witness:
  "\<exists>st source. stage_group_inputs (regular_files sample_files) sample_manifest sample_group [sample_execution] = Inr (1, st) \<and>
     group_path (regular_files sample_files) sample_manifest sample_group = Inr source \<and>
     (\<forall>f data. dict_get st [f] = Some data \<longrightarrow> fs_read (regular_files sample_files) (source @ [f]) = Inr data)"
proof -
  obtain st where st: "stage_group_inputs (regular_files sample_files) sample_manifest sample_group [sample_execution] = Inr (1, st)"
    using stage_sample by blast
  show ?thesis using st staged_snapshot_faithful [OF st] by blast
qed

end
