(* ===== verification/Relevance.thy ===== *)
theory Relevance
  imports Coordinates
begin

section \<open>Which settings apply to a run (lib/setting\_relevance.py)\<close>

text \<open>
  A run's context is derived from its settings and, where recorded, its execution
  coordinates; a setting is hidden when it cannot affect a run in that context. The
  theorems state that hiding is stable: the context computed from the remaining
  settings is the same one, and hiding again removes nothing more.
\<close>

record run_context =
  rc_kind :: string
  rc_substrate :: string
  rc_phase_plan :: pyval
  rc_single_big_file :: bool
  rc_run_to_completion :: bool
  rc_swept :: "string option"

definition flag :: "pyval \<Rightarrow> bool" where
  "flag v \<longleftrightarrow> py_lower (py_strip (py_str v)) \<in> {''1'', ''true'', ''yes''}"

text \<open>\<^verbatim>\<open>str(settings.get(key) or "").strip()\<close>\<close>

definition stripped :: "settings \<Rightarrow> string \<Rightarrow> string" where
  "stripped settings key = (let v = val_get settings key in if truthy v then py_strip (py_str v) else [])"

definition plan_of :: "settings \<Rightarrow> string" where
  "plan_of settings =
     (if flag (val_get settings ''sweep_write_only'') then PLAN_WRITE_ONLY
      else if flag (val_get settings ''sweep_write_no_read'') then PLAN_WRITE_NO_READ
      else if stripped settings ''sweep_read_from'' \<noteq> [] then PLAN_READ_FROM
      else PLAN_WRITE_READ)"

definition coordinate :: "settings list \<Rightarrow> string \<Rightarrow> pyval" where
  "coordinate coordinates name =
     (case filter (\<lambda>c. val_get c name \<noteq> PNone) coordinates of [] \<Rightarrow> PNone | c # _ \<Rightarrow> val_get c name)"

definition run_context_of :: "string option \<Rightarrow> settings \<Rightarrow> settings list \<Rightarrow> string option \<Rightarrow> run_context" where
  "run_context_of kind settings coordinates swept =
     (let coords = filter (\<lambda>c. c \<noteq> []) coordinates;
          recorded_plan = coordinate coords ''phase_plan'';
          big = coordinate coords ''single_big_file'';
          complete = coordinate coords ''run_to_completion''
      in \<lparr> rc_kind = (if kind = Some KIND_MDTEST then KIND_MDTEST else KIND_IO),
           rc_substrate = stripped settings ''EXECUTION_SUBSTRATE'',
           rc_phase_plan = (if truthy recorded_plan then recorded_plan else PStr (plan_of settings)),
           rc_single_big_file =
             (if big = PNone then flag (val_get settings ''ELBENCHO_SINGLE_BIG_FILE'') else truthy big),
           rc_run_to_completion =
             (if complete = PNone then flag (val_get settings ''run_to_completion_option'') else truthy complete),
           rc_swept = swept \<rparr>)"

subsection \<open>Conditions\<close>

definition generates_data :: "run_context \<Rightarrow> settings \<Rightarrow> bool" where
  "generates_data c s \<longleftrightarrow> rc_kind c = KIND_IO \<and> rc_phase_plan c \<noteq> PStr PLAN_READ_FROM"

definition single_big_file :: "run_context \<Rightarrow> settings \<Rightarrow> bool" where
  "single_big_file c s \<longleftrightarrow> rc_single_big_file c"

definition many_files :: "run_context \<Rightarrow> settings \<Rightarrow> bool" where
  "many_files c s \<longleftrightarrow> \<not> rc_single_big_file c"

definition no_explicit_size :: "run_context \<Rightarrow> settings \<Rightarrow> bool" where
  "no_explicit_size c s \<longleftrightarrow> stripped s ''ELBENCHO_FILE_SIZE'' = []"

definition writes_then_reads :: "run_context \<Rightarrow> settings \<Rightarrow> bool" where
  "writes_then_reads c s \<longleftrightarrow> rc_kind c = KIND_MDTEST \<or> rc_phase_plan c = PStr PLAN_WRITE_READ"

definition reads_from :: "run_context \<Rightarrow> settings \<Rightarrow> bool" where
  "reads_from c s \<longleftrightarrow> rc_phase_plan c = PStr PLAN_READ_FROM"

definition time_limited :: "run_context \<Rightarrow> settings \<Rightarrow> bool" where
  "time_limited c s \<longleftrightarrow> rc_kind c = KIND_IO \<and> \<not> rc_run_to_completion c"

definition on_kubectl :: "run_context \<Rightarrow> settings \<Rightarrow> bool" where
  "on_kubectl c s \<longleftrightarrow> rc_substrate c = ''kubectl''"

definition IGNORED :: "string list" where
  "IGNORED = [''batch'', ''env_override'', ''target_file'', ''treefile_cache'', ''FS_MAX_AGG_THROUGHPUT'',
     ''FS_MAX_NODE_THROUGHPUT_GBPS'', ''FS_MAX_NODE_IOPS'', ''ELBENCHO_LIVEINT'', ''ELBENCHO_LIVE_CSV_EXTENDED'',
     ''KUBECTL_IMAGE_PULL_POLICY'']"

type_synonym condition = "run_context \<Rightarrow> settings \<Rightarrow> bool"

definition GENERATED_FILES :: "condition list" where
  "GENERATED_FILES = [generates_data, many_files]"

definition GENERATED_BIG_FILE :: "condition list" where
  "GENERATED_BIG_FILE = [generates_data, single_big_file]"

definition CONDITIONS :: "(string, condition list) dict" where
  "CONDITIONS =
    [(''ELBENCHO_FILE_SIZE'', GENERATED_FILES),
     (''ELBENCHO_FILE_SIZE_MULTIPLIER'', GENERATED_FILES @ [no_explicit_size]),
     (''ELBENCHO_FILES_PER_NODE'', GENERATED_FILES),
     (''ELBENCHO_SINGLE_BIG_FILE_SIZE'', GENERATED_BIG_FILE),
     (''ELBENCHO_SINGLE_BIG_FILE_BASENAME'', GENERATED_BIG_FILE),
     (''ELBENCHO_READ_AFTER_WRITE_PAUSE'', [writes_then_reads]),
     (''ELBENCHO_SCALE_READ_WRITE_DURATION'', [time_limited]),
     (''KUBECTL_NAMESPACE'', [on_kubectl]),
     (''KUBECTL_NODE_SELECTOR'', [on_kubectl]),
     (''KUBECTL_ELBENCHO_IMAGE'', [on_kubectl]),
     (''KUBECTL_RUN_AS_USER'', [on_kubectl]),
     (''KUBECTL_RUN_AS_GROUP'', [on_kubectl]),
     (''KUBECTL_MAPPED_TEST_DIRS'', [on_kubectl]),
     (''KUBECTL_MAPPED_READ_FROM'', [on_kubectl, reads_from])]"

definition SWEPT_LISTS :: "(string, string) dict" where
  "SWEPT_LISTS =
    [(''nodes'', ''nodes_spec''),
     (''threads_per_node'', ''ELBENCHO_SCALE_THREAD_LIST''),
     (''io_depth'', ''ELBENCHO_IODEPTH_LIST''),
     (''tasks_per_node'', ''tasks_spec'')]"

definition is_relevant :: "string \<Rightarrow> settings \<Rightarrow> run_context \<Rightarrow> bool" where
  "is_relevant key settings c =
     (if key \<in> set IGNORED \<or> Some key = dict_get SWEPT_LISTS (case rc_swept c of None \<Rightarrow> [] | Some s \<Rightarrow> s)
      then False
      else list_all (\<lambda>applies. applies c settings)
             (case dict_get CONDITIONS key of None \<Rightarrow> [] | Some cs \<Rightarrow> cs))"

definition relevant_settings :: "settings \<Rightarrow> run_context \<Rightarrow> settings" where
  "relevant_settings settings c = filter (\<lambda>(key, _). is_relevant key settings c) settings"

subsection \<open>Hiding settings is stable\<close>

definition mode_keys :: "string list" where
  "mode_keys = [''sweep_write_only'', ''sweep_write_no_read'', ''sweep_read_from'', ''ELBENCHO_SINGLE_BIG_FILE'',
     ''run_to_completion_option'', ''EXECUTION_SUBSTRATE'']"

lemma mode_keys_unconditional:
  assumes "key \<in> set mode_keys"
  shows "key \<notin> set IGNORED" and "dict_get CONDITIONS key = None" and "key \<notin> snd ` set SWEPT_LISTS"
proof -
  have "list_all (\<lambda>key. key \<notin> set IGNORED \<and> key \<notin> fst ` set CONDITIONS \<and> key \<notin> snd ` set SWEPT_LISTS) mode_keys"
    by code_simp
  then show "key \<notin> set IGNORED" "dict_get CONDITIONS key = None" "key \<notin> snd ` set SWEPT_LISTS"
    using assms by (auto simp: list_all_iff map_of_eq_None_iff)
qed

lemma swept_in: "dict_get SWEPT_LISTS s = Some key \<Longrightarrow> key \<in> snd ` set SWEPT_LISTS"
  by (metis map_of_SomeD image_eqI snd_conv)

lemma mode_key_relevant: "key \<in> set mode_keys \<Longrightarrow> is_relevant key settings c"
  using mode_keys_unconditional swept_in by (fastforce simp: is_relevant_def)

lemma val_get_filter:
  "(\<And>v. P (key, v)) \<Longrightarrow> val_get (filter P settings) key = val_get settings key"
  by (induction settings) auto

lemma val_get_relevant:
  "is_relevant key settings c \<Longrightarrow> val_get (relevant_settings settings c) key = val_get settings key"
  unfolding relevant_settings_def by (rule val_get_filter) simp

lemma val_get_hidden:
  "\<not> is_relevant key settings c \<Longrightarrow> val_get (relevant_settings settings c) key = PNone"
  unfolding relevant_settings_def val_get_def
  by (auto split: option.splits dest!: map_of_SomeD)

lemma val_get_mode: "key \<in> set mode_keys \<Longrightarrow> val_get (relevant_settings settings c) key = val_get settings key"
  by (rule val_get_relevant) (rule mode_key_relevant)

lemma context_of_relevant:
  "run_context_of kind (relevant_settings settings c) coords swept = run_context_of kind settings coords swept"
proof -
  have "val_get (relevant_settings settings c) ''sweep_write_only'' = val_get settings ''sweep_write_only''"
    "val_get (relevant_settings settings c) ''sweep_write_no_read'' = val_get settings ''sweep_write_no_read''"
    "val_get (relevant_settings settings c) ''sweep_read_from'' = val_get settings ''sweep_read_from''"
    "val_get (relevant_settings settings c) ''ELBENCHO_SINGLE_BIG_FILE'' = val_get settings ''ELBENCHO_SINGLE_BIG_FILE''"
    "val_get (relevant_settings settings c) ''run_to_completion_option'' = val_get settings ''run_to_completion_option''"
    "val_get (relevant_settings settings c) ''EXECUTION_SUBSTRATE'' = val_get settings ''EXECUTION_SUBSTRATE''"
    by (intro val_get_mode; simp add: mode_keys_def)+
  then show ?thesis by (simp only: run_context_of_def plan_of_def stripped_def)
qed

lemmas condition_defs = generates_data_def many_files_def single_big_file_def no_explicit_size_def
  writes_then_reads_def reads_from_def time_limited_def on_kubectl_def

definition conditions_of :: "string \<Rightarrow> condition list" where
  "conditions_of key = (case dict_get CONDITIONS key of None \<Rightarrow> [] | Some cs \<Rightarrow> cs)"

text \<open>Only the multiplier of the file size looks at another setting.\<close>

lemma conditions_ignore_settings:
  assumes "key \<noteq> ''ELBENCHO_FILE_SIZE_MULTIPLIER''"
  shows "list_all (\<lambda>applies. applies c s) (conditions_of key) = list_all (\<lambda>applies. applies c t) (conditions_of key)"
proof -
  have "list_all (\<lambda>(k, cs). k = ''ELBENCHO_FILE_SIZE_MULTIPLIER'' \<or>
      list_all (\<lambda>applies. applies c s) cs = list_all (\<lambda>applies. applies c t) cs) CONDITIONS"
    by (simp add: CONDITIONS_def GENERATED_FILES_def GENERATED_BIG_FILE_def condition_defs)
  then have "list_all (\<lambda>applies. applies c s) cs = list_all (\<lambda>applies. applies c t) cs"
    if "dict_get CONDITIONS key = Some cs" for cs
    using map_of_SomeD [OF that] assms by (fastforce simp: list_all_iff [of _ CONDITIONS])
  then show ?thesis by (cases "dict_get CONDITIONS key") (simp_all add: conditions_of_def)
qed

lemma is_relevant_conditions:
  "is_relevant key s c \<longleftrightarrow> key \<notin> set IGNORED \<and>
     Some key \<noteq> dict_get SWEPT_LISTS (case rc_swept c of None \<Rightarrow> [] | Some w \<Rightarrow> w) \<and>
     list_all (\<lambda>applies. applies c s) (conditions_of key)"
  by (simp add: is_relevant_def conditions_of_def)

lemma size_conditions:
  "conditions_of ''ELBENCHO_FILE_SIZE'' = [generates_data, many_files]"
  "conditions_of ''ELBENCHO_FILE_SIZE_MULTIPLIER'' = [generates_data, many_files, no_explicit_size]"
  by (simp_all add: conditions_of_def CONDITIONS_def GENERATED_FILES_def)

lemma file_size_hidden:
  assumes "\<not> is_relevant ''ELBENCHO_FILE_SIZE'' s c"
  shows "\<not> is_relevant ''ELBENCHO_FILE_SIZE_MULTIPLIER'' t c"
proof -
  have "''ELBENCHO_FILE_SIZE'' \<notin> set IGNORED" "''ELBENCHO_FILE_SIZE'' \<notin> snd ` set SWEPT_LISTS" by code_simp+
  then have "\<not> (generates_data c s \<and> many_files c s)"
    using assms swept_in by (fastforce simp: is_relevant_conditions size_conditions)
  then show ?thesis by (auto simp: is_relevant_conditions size_conditions condition_defs)
qed

lemma is_relevant_hidden: "is_relevant key (relevant_settings s c) c = is_relevant key s c"
proof (cases "key = ''ELBENCHO_FILE_SIZE_MULTIPLIER''")
  case False
  then show ?thesis unfolding is_relevant_conditions
    using conditions_ignore_settings [OF False, of c s "relevant_settings s c"] by simp
next
  case True
  show ?thesis
  proof (cases "is_relevant ''ELBENCHO_FILE_SIZE'' s c")
    case False
    then show ?thesis using True file_size_hidden by simp
  next
    case rel: True
    have "no_explicit_size c (relevant_settings s c) = no_explicit_size c s"
      using val_get_relevant [OF rel] by (simp add: no_explicit_size_def stripped_def)
    then show ?thesis
      unfolding is_relevant_conditions True size_conditions
      by (simp add: generates_data_def many_files_def)
  qed
qed

text \<open>Hiding inapplicable settings is stable: the context computed from the remaining settings is the
  same for every kind, coordinates and swept dimension, and hiding once more removes
  nothing.\<close>

theorem relevant_settings_stable:
  "run_context_of kind (relevant_settings settings c) coords swept = run_context_of kind settings coords swept \<and>
   relevant_settings (relevant_settings settings c) c = relevant_settings settings c"
  using context_of_relevant is_relevant_hidden
  by (simp add: relevant_settings_def [of "relevant_settings settings c"])
    (simp add: relevant_settings_def case_prod_unfold)

text \<open>The writer's file settings apply exactly to the runs that use them: in a context that generates
  no data none of the file sizes applies; with a single big file only its own size and
  name do; and the size multiplier applies only without an explicit file size.\<close>

theorem file_size_relevance:
  assumes "rc_swept c = None"
  shows "(is_relevant ''ELBENCHO_SINGLE_BIG_FILE_SIZE'' s c \<longleftrightarrow>
      rc_kind c = KIND_IO \<and> rc_phase_plan c \<noteq> PStr PLAN_READ_FROM \<and> rc_single_big_file c) \<and>
    (is_relevant ''ELBENCHO_FILE_SIZE'' s c \<longleftrightarrow>
      rc_kind c = KIND_IO \<and> rc_phase_plan c \<noteq> PStr PLAN_READ_FROM \<and> \<not> rc_single_big_file c) \<and>
    (is_relevant ''ELBENCHO_FILE_SIZE_MULTIPLIER'' s c \<longleftrightarrow>
      is_relevant ''ELBENCHO_FILE_SIZE'' s c \<and> stripped s ''ELBENCHO_FILE_SIZE'' = [])"
proof -
  have "''ELBENCHO_SINGLE_BIG_FILE_SIZE'' \<notin> set IGNORED" "''ELBENCHO_FILE_SIZE'' \<notin> set IGNORED"
    "''ELBENCHO_FILE_SIZE_MULTIPLIER'' \<notin> set IGNORED" by code_simp+
  moreover have "conditions_of ''ELBENCHO_SINGLE_BIG_FILE_SIZE'' = [generates_data, single_big_file]"
    by (simp add: conditions_of_def CONDITIONS_def GENERATED_BIG_FILE_def)
  moreover have "dict_get SWEPT_LISTS [] = None" by code_simp
  ultimately show ?thesis
    using assms by (auto simp: is_relevant_conditions size_conditions condition_defs)
qed

theorem file_size_relevance_witness:
  "is_relevant ''ELBENCHO_FILE_SIZE_MULTIPLIER'' [] (run_context_of (Some ''io'') [] [] None)"
proof -
  let ?c = "run_context_of (Some ''io'') [] [] None"
  have "rc_swept ?c = None" "rc_kind ?c = KIND_IO" "rc_phase_plan ?c \<noteq> PStr PLAN_READ_FROM"
    "\<not> rc_single_big_file ?c" "stripped [] ''ELBENCHO_FILE_SIZE'' = []" by code_simp+
  then show ?thesis using file_size_relevance [of ?c "[]"] by blast
qed

end
