(* ===== verification/Pairing.thy ===== *)
theory Pairing
  imports ReportCommon
begin

section \<open>Which report sections are compared (lib/report\_html/pairing.py)\<close>

text \<open>
  Every section of the loaded documents is a candidate. Automatic sets collect
  candidates that match and differ in one compared setting; a comparison file forces
  sets by reference. The readers that compute a candidate's values and match key from
  a results document are not part of this theory: a candidate carries, per compared
  setting, the canonical key, the label and the sort order of its value, and its
  remaining settings as canonical text.
\<close>

subsection \<open>Candidates and sets\<close>

datatype dimension = IO_MODE | READ_FROM | TARGET | TEST_DIR | FILE_SIZE | FILE_LAYOUT

definition DIMENSIONS :: "dimension list" where
  "DIMENSIONS = [IO_MODE, READ_FROM, TARGET, TEST_DIR, FILE_SIZE, FILE_LAYOUT]"

definition IMPLIED :: "dimension \<Rightarrow> dimension list" where
  "IMPLIED d = (if d = TARGET then [TEST_DIR, READ_FROM] else [])"

definition MAX_SERIES :: nat where "MAX_SERIES = 8"

record pvalue =
  v_key :: string
  v_label :: string
  v_order :: "nat \<times> int \<times> key_part list \<times> string"

definition value_of :: "string \<Rightarrow> string \<Rightarrow> int option \<Rightarrow> pvalue result" where
  "value_of key text number = (case number of
     Some n \<Rightarrow> Inr \<lparr> v_key = key, v_label = text, v_order = (0, n, [], []) \<rparr>
   | None \<Rightarrow> rbind (natural_key text) (\<lambda>(parts, t). Inr \<lparr> v_key = key, v_label = text, v_order = (1, 0, parts, t) \<rparr>))"

text \<open>
  What sections must share: kind, swept dimension and shape settings; the value combinations of the
  other dimensions (a \<^verbatim>\<open>frozenset\<close>); the normalization basis. The shape order is the sort key of the
  section's shape, padded for metadata shapes.
\<close>

type_synonym match_key = "(string \<times> string option \<times> pyval list) \<times> pyval list set \<times> nat option"
type_synonym shape_order = "int \<times> int \<times> string \<times> string \<times> bool"

record candidate =
  c_document :: nat
  c_group_id :: string
  c_slug :: string
  c_anchor :: string
  c_kind :: string
  c_x :: "string option"
  c_normalize_to :: "nat option"
  c_match :: match_key
  c_shape_order :: shape_order
  c_values :: "dimension \<Rightarrow> pvalue"
  c_settings :: "(string, string) dict"

record compare_set =
  cs_members :: "candidate list"
  cs_dimension :: "dimension option"
  cs_title :: "string option"
  cs_part :: "nat \<times> nat"

text \<open>\<^verbatim>\<open>_duration_seconds\<close>\<close>

definition duration_seconds :: "pyval \<Rightarrow> nat option" where
  "duration_seconds v =
     (let t = py_strip (if v = PNone then [] else py_str v);
          digits = takeWhile is_digit t;
          unit = py_strip (dropWhile is_digit t)
      in if digits = [] then None
         else if unit = [] \<or> unit = ''s'' then Some (undec digits)
         else if unit = ''m'' then Some (undec digits * 60)
         else if unit = ''h'' then Some (undec digits * 3600)
         else None)"

definition clean_path :: "pyval \<Rightarrow> string" where
  "clean_path v = (let text = (if v = PNone then [] else py_strip (py_str v));
       bare = rstrip_char (CHR ''/'') text in if bare \<noteq> [] then bare else text)"

text \<open>\<^verbatim>\<open>sweep_axes\<close> and the fixed coordinates of a section (lib/report\_html/common.py).\<close>

definition sweep_axes :: "settings list \<Rightarrow> string list \<Rightarrow> string option \<times> string list" where
  "sweep_axes coordinates dims =
     (let varying = filter (\<lambda>name. card ((\<lambda>c. val_get c name) ` set coordinates) > 1) dims
      in (if varying = [] then None else Some (hd varying), tl varying))"

definition fixed_coordinates :: "settings list \<Rightarrow> string list \<Rightarrow> string option \<Rightarrow> pyval list set" where
  "fixed_coordinates coords dims x =
     (let names = filter (\<lambda>name. Some name \<noteq> x) dims in (\<lambda>c. map (val_get c) names) ` set coords)"

subsection \<open>Automatic sets\<close>

definition compatible :: "candidate \<Rightarrow> candidate \<Rightarrow> bool" where
  "compatible a b =
     list_all (\<lambda>k. dict_get (c_settings b) k = None \<or> dict_get (c_settings a) k = dict_get (c_settings b) k)
       (dict_keys (c_settings a))"

fun add_member :: "candidate \<Rightarrow> candidate list list \<Rightarrow> candidate list list" where
  "add_member member [] = [[member]]"
| "add_member member (cluster # clusters) =
     (if list_all (compatible member) cluster then (cluster @ [member]) # clusters
      else cluster # add_member member clusters)"

definition clusters :: "candidate list \<Rightarrow> candidate list list" where
  "clusters members = fold add_member members []"

definition member_order ::
    "dimension \<Rightarrow> candidate \<Rightarrow> (nat \<times> int \<times> key_part list \<times> string) \<times> nat \<times> string \<times> shape_order" where
  "member_order d c = (v_order (c_values c d), c_document c, c_group_id c, c_shape_order c)"

definition ceil_div :: "nat \<Rightarrow> nat \<Rightarrow> nat" where
  "ceil_div n d = (n + d - 1) div d"

text \<open>\<^verbatim>\<open>[ordered[i : i + size] for i in range(0, len(ordered), size)]\<close>\<close>

definition chunks :: "nat \<Rightarrow> 'a list \<Rightarrow> 'a list list" where
  "chunks width xs = map (\<lambda>i. take width (drop (i * width) xs)) [0..<ceil_div (length xs) width]"

definition split_set :: "candidate list \<Rightarrow> dimension option \<Rightarrow> string option \<Rightarrow> compare_set list result" where
  "split_set members dim title =
     (let ordered = (case dim of None \<Rightarrow> members | Some d \<Rightarrow> sort_key (member_order d) members);
          parts = ceil_div (length ordered) MAX_SERIES
      in if parts = 0 then Inl ZeroDivisionError
         else let width = ceil_div (length ordered) parts; cs = chunks width ordered
              in Inr (map (\<lambda>(index, chunk). \<lparr> cs_members = chunk, cs_dimension = dim, cs_title = title,
                        cs_part = (index, length cs) \<rparr>) (zip [1..<Suc (length cs)] cs)))"

definition kept_dimensions :: "dimension \<Rightarrow> dimension list" where
  "kept_dimensions d = filter (\<lambda>n. n \<notin> set (d # IMPLIED d)) DIMENSIONS"

definition kept_key :: "dimension \<Rightarrow> candidate \<Rightarrow> string list" where
  "kept_key d c = map (\<lambda>n. v_key (c_values c n)) (kept_dimensions d)"

definition partition_by :: "('a \<Rightarrow> 'k) \<Rightarrow> 'a list \<Rightarrow> ('k, 'a list) dict" where
  "partition_by key xs = fold (\<lambda>x. dict_append (key x) x) xs []"

definition dimension_sets :: "candidate list \<Rightarrow> dimension \<Rightarrow> compare_set list result" where
  "dimension_sets members d =
     rbind (traverse (\<lambda>cluster. split_set cluster (Some d) None)
              (filter (\<lambda>cluster. card ((\<lambda>m. v_key (c_values m d)) ` set cluster) > 1)
                (concat (map (\<lambda>p. clusters (snd p)) (partition_by (kept_key d) members)))))
       (\<lambda>sets. Inr (concat sets))"

definition automatic_sets :: "candidate list \<Rightarrow> compare_set list result" where
  "automatic_sets found =
     rbind (traverse (\<lambda>(members, d). dimension_sets members d)
              (concat (map (\<lambda>p. map (\<lambda>d. (snd p, d)) DIMENSIONS)
                (filter (\<lambda>p. length (snd p) > 1) (partition_by c_match found)))))
       (\<lambda>sets. Inr (concat sets))"

subsection \<open>Comparison files\<close>

definition fail_entry :: "nat \<Rightarrow> string \<Rightarrow> py_error" where
  "fail_entry index message = ComparisonFileError (''comparison file entry '' @ dec index @ '': '' @ message)"

definition check_reference :: "nat \<Rightarrow> pyval \<Rightarrow> string result" where
  "check_reference index reference = (case reference of
     PStr r \<Rightarrow> if CHR '':'' \<in> set r then Inr r
               else Inl (fail_entry index (''section '' @ py_repr reference @ '' is not '' @
                      [CHR 0x27] @ ''<doc>:<group>[:<shape>]'' @ [CHR 0x27]))
   | _ \<Rightarrow> Inl (fail_entry index (''section '' @ py_repr reference @
       '' is not a string; quote section references, e.g. '' @ [CHR 0x27] @ ''1:0003'' @ [CHR 0x27] @
       '' (YAML reads unquoted 1:3 as 63)'')))"

definition entry_get :: "(pyval \<times> pyval) list \<Rightarrow> string \<Rightarrow> pyval" where
  "entry_get d k = (case map_of d (PStr k) of None \<Rightarrow> PNone | Some v \<Rightarrow> v)"

definition check_entry :: "nat \<Rightarrow> pyval \<Rightarrow> (string \<times> string list) result" where
  "check_entry index entry = (case entry of
     PDict d \<Rightarrow>
       let unknown = sort (map py_str (filter (\<lambda>k. k \<notin> {PStr ''title'', PStr ''sections''}) (map fst d)))
       in rbind (check (unknown = []) (fail_entry index (''unknown key(s): '' @ join '', '' unknown))) (\<lambda>_.
          rbind (case entry_get d ''title'' of
              PStr t \<Rightarrow> if py_strip t \<noteq> [] then Inr t
                        else Inl (fail_entry index ([CHR 0x27] @ ''title'' @ [CHR 0x27] @ '' must be a non-empty string''))
            | _ \<Rightarrow> Inl (fail_entry index ([CHR 0x27] @ ''title'' @ [CHR 0x27] @ '' must be a non-empty string''))) (\<lambda>title.
          rbind (case entry_get d ''sections'' of
              PList xs \<Rightarrow> if length xs \<ge> 2 then Inr xs
                else Inl (fail_entry index ([CHR 0x27] @ ''sections'' @ [CHR 0x27] @ '' must list at least two sections''))
            | _ \<Rightarrow> Inl (fail_entry index ([CHR 0x27] @ ''sections'' @ [CHR 0x27] @ '' must list at least two sections''))) (\<lambda>sections.
          rbind (traverse (check_reference index) sections) (\<lambda>refs.
          rbind (check (distinct refs)
            (fail_entry index ([CHR 0x27] @ ''sections'' @ [CHR 0x27] @ '' lists a section twice''))) (\<lambda>_.
          Inr (title, refs))))))
   | _ \<Rightarrow> Inl (fail_entry index (''expected a mapping with '' @ [CHR 0x27] @ ''title'' @ [CHR 0x27] @ '' and '' @
       [CHR 0x27] @ ''sections'' @ [CHR 0x27])))"

definition check_comparisons :: "pyval \<Rightarrow> (string \<times> string list) list result" where
  "check_comparisons data = (case data of
     PNone \<Rightarrow> Inr []
   | PList entries \<Rightarrow> traverse (\<lambda>(index, entry). check_entry index entry) (zip [1..<Suc (length entries)] entries)
   | _ \<Rightarrow> Inl (ComparisonFileError ''comparison file: expected a list of {title, sections} entries''))"

text \<open>A loaded document is its path and resolved path, if it was read from a file.\<close>

type_synonym loaded = "(string \<times> string) option"

definition document_names :: "loaded list \<Rightarrow> (string \<times> nat) list" where
  "document_names documents =
     sort_key (\<lambda>item. (- int (length (fst item)), snd item))
       (remdups (concat (map (\<lambda>(index, doc). (dec index, index) #
            (case doc of None \<Rightarrow> [] | Some (path, resolved) \<Rightarrow> [(path, index), (resolved, index)]))
         (zip [1..<Suc (length documents)] documents))))"

definition split_reference :: "string \<Rightarrow> (string \<times> nat) list \<Rightarrow> (nat \<times> string list) option" where
  "split_reference reference names =
     (case filter (\<lambda>(name, _). startswith reference (name @ '':'')) names of
        [] \<Rightarrow> None
      | (name, index) # _ \<Rightarrow> Some (index, split_on (CHR '':'') (drop (length name + 1) reference)))"

definition same_group :: "string \<Rightarrow> string \<Rightarrow> bool result" where
  "same_group wanted gid =
     (if isdigit wanted \<and> isdigit gid
      then rbind (py_int wanted) (\<lambda>a. rbind (py_int gid) (\<lambda>b. Inr (a = b)))
      else Inr (wanted = gid))"

definition pick_shape :: "candidate list \<Rightarrow> string option \<Rightarrow> string \<Rightarrow> candidate result" where
  "pick_shape found shape place =
     (let shapes = map c_slug found
      in case shape of
           None \<Rightarrow> if length found = 1 then Inr (hd found)
                   else Inl (ComparisonFileError (place @ '' has several sections; add one of: '' @ join '', '' shapes))
         | Some s \<Rightarrow>
             (case filter (\<lambda>c. c_slug c = s) found of
                c # _ \<Rightarrow> Inr c
              | [] \<Rightarrow> Inl (ComparisonFileError (place @ '' has no section '' @ repr_str s @ ''; available: '' @ join '', '' shapes))))"

definition filter_result :: "('a \<Rightarrow> bool result) \<Rightarrow> 'a list \<Rightarrow> 'a list result" where
  "filter_result p xs = rbind (traverse p xs) (\<lambda>bs. Inr (map fst (filter snd (zip xs bs))))"

definition resolve_reference :: "string \<Rightarrow> loaded list \<Rightarrow> candidate list \<Rightarrow> candidate result" where
  "resolve_reference reference documents found =
     (case split_reference reference (document_names documents) of
        None \<Rightarrow> Inl (ComparisonFileError (''section '' @ repr_str reference @ '': no such document ('' @
                  dec (length documents) @ '' loaded; use a 1-based index or the exact path)''))
      | Some (document, rest) \<Rightarrow>
          if length rest > 2 \<or> hd rest = []
          then Inl (ComparisonFileError (''section '' @ repr_str reference @ '' is not '' @
                 [CHR 0x27] @ ''<doc>:<group>[:<shape>]'' @ [CHR 0x27]))
          else let place = ''section '' @ repr_str reference @ '': group '' @ hd rest @ '' of document '' @ dec document
               in rbind (filter_result (\<lambda>c. if c_document c = document then same_group (hd rest) (c_group_id c) else Inr False)
                           found) (\<lambda>in_group.
                  if in_group = [] then Inl (ComparisonFileError (place @ '' has no reported sections''))
                  else pick_shape in_group (if length rest > 1 then Some (rest ! 1) else None) place))"

definition check_forced :: "string \<Rightarrow> candidate list \<Rightarrow> unit result" where
  "check_forced title members =
     (let quoted = repr_str title;
          several = (\<lambda>f. length (remdups (map f members)) > 1)
      in if several c_kind then Inl (ComparisonFileError (quoted @ '': mixes IO and metadata sections''))
         else if length (remdups (map c_x members)) > 1
           then Inl (ComparisonFileError (quoted @ '': sections sweep different dimensions ('' @
                  join '', '' (sort (map (\<lambda>x. case x of None \<Rightarrow> ''single point'' | Some n \<Rightarrow> n)
                    (remdups (map c_x members)))) @ '')''))
         else if length (remdups (map c_normalize_to members)) > 1
           then Inl (ComparisonFileError (quoted @ '': sections are normalized to different node counts''))
         else if length (remdups (map c_anchor members)) < length members
           then Inl (ComparisonFileError (quoted @ '': lists one section twice''))
         else Inr ())"

definition forced_entry :: "loaded list \<Rightarrow> candidate list \<Rightarrow> nat \<times> string \<times> string list \<Rightarrow> compare_set list result" where
  "forced_entry documents found item =
     (case item of (index, title, sections) \<Rightarrow>
      case rbind (traverse (\<lambda>r. resolve_reference r documents found) sections) (\<lambda>members.
             rbind (check_forced (py_strip title) members) (\<lambda>_. Inr members)) of
        Inl (ComparisonFileError message) \<Rightarrow> Inl (fail_entry index message)
      | Inl e \<Rightarrow> Inl e
      | Inr members \<Rightarrow> split_set members None (Some (py_strip title)))"

definition forced_sets :: "(string \<times> string list) list \<Rightarrow> loaded list \<Rightarrow> candidate list \<Rightarrow> compare_set list result" where
  "forced_sets entries documents found =
     rbind (traverse (forced_entry documents found) (zip [1..<Suc (length entries)] entries)) (\<lambda>sets. Inr (concat sets))"

definition set_anchors :: "compare_set \<Rightarrow> string set" where
  "set_anchors s = c_anchor ` set (cs_members s)"

definition comparison_sets :: "loaded list \<Rightarrow> candidate list \<Rightarrow> pyval \<Rightarrow> compare_set list result" where
  "comparison_sets documents found comparisons =
     rbind (check_comparisons comparisons) (\<lambda>entries.
     rbind (forced_sets entries documents found) (\<lambda>forced.
     rbind (automatic_sets found) (\<lambda>automatic.
     Inr (forced @ filter (\<lambda>s. set_anchors s \<notin> set_anchors ` set forced) automatic))))"

subsection \<open>Charts hold every member, at most eight each\<close>

lemma ceil_div_bounds:
  assumes "0 < d"
  shows "n \<le> ceil_div n d * d" and "0 < n \<Longrightarrow> (ceil_div n d - 1) * d < n"
proof -
  let ?q = "(n + d - 1) div d"
  have q: "?q * d + (n + d - 1) mod d = n + d - 1" by simp
  have m: "(n + d - 1) mod d < d" using assms by simp
  show "n \<le> ceil_div n d * d" using q m unfolding ceil_div_def by linarith
  show "(ceil_div n d - 1) * d < n" if "0 < n"
  proof -
    have "(?q - 1) * d = ?q * d - d" by (simp add: diff_mult_distrib)
    moreover have "d \<le> ?q * d" using that assms by (simp add: Suc_leI div_greater_zero_iff)
    ultimately show ?thesis using q assms that unfolding ceil_div_def by linarith
  qed
qed

lemma ceil_div_pos: "0 < n \<Longrightarrow> 0 < d \<Longrightarrow> 0 < ceil_div n d"
  by (simp add: ceil_div_def div_greater_zero_iff)

lemma ceil_div_least:
  assumes "0 < d" and "n \<le> k * d"
  shows "ceil_div n d \<le> k"
proof (cases "n = 0")
  case True
  then show ?thesis using assms(1) by (simp add: ceil_div_def)
next
  case False
  then have "(ceil_div n d - 1) * d < n" using ceil_div_bounds(2) [of d n] assms(1) by blast
  from less_le_trans [OF this assms(2)] have "ceil_div n d - 1 < k" using mult_less_cancel2 by blast
  then show ?thesis by linarith
qed

lemma concat_slices: "concat (map (\<lambda>i. take k (drop (i * k) xs)) [0..<n]) = take (n * k) xs"
proof (induction n)
  case (Suc n)
  then show ?case by (simp add: take_add add.commute [of k])
qed simp

lemma chunks_concat: "0 < k \<Longrightarrow> concat (chunks k xs) = xs"
  using ceil_div_bounds(1) [of k "length xs"] by (simp add: chunks_def concat_slices)

lemma length_chunks [simp]: "length (chunks k xs) = ceil_div (length xs) k"
  by (simp add: chunks_def)

lemma chunk_length:
  assumes "0 < k" and "c \<in> set (chunks k xs)"
  shows "0 < length c" and "length c \<le> k"
proof -
  obtain i where i: "i < ceil_div (length xs) k" and c: "c = take k (drop (i * k) xs)"
    using assms(2) by (auto simp: chunks_def)
  then have "xs \<noteq> []" using assms(1) by (auto simp: ceil_div_def)
  moreover have "i * k \<le> (ceil_div (length xs) k - 1) * k" using i by (intro mult_le_mono1) simp
  ultimately have "i * k < length xs"
    using ceil_div_bounds(2) [OF assms(1), of "length xs"] le_less_trans length_greater_0_conv by blast
  then show "0 < length c" and "length c \<le> k" using assms(1) c by auto
qed

definition ordered_members :: "dimension option \<Rightarrow> candidate list \<Rightarrow> candidate list" where
  "ordered_members dim members = (case dim of None \<Rightarrow> members | Some d \<Rightarrow> sort_key (member_order d) members)"

lemma mset_ordered_members [simp]: "mset (ordered_members dim members) = mset members"
  by (simp add: ordered_members_def split: option.splits)

lemma set_ordered_members [simp]: "set (ordered_members dim members) = set members"
  by (simp add: ordered_members_def split: option.splits)

lemma length_ordered_members [simp]: "length (ordered_members dim members) = length members"
  by (simp add: ordered_members_def split: option.splits)

definition chart_width :: "candidate list \<Rightarrow> nat" where
  "chart_width members = ceil_div (length members) (ceil_div (length members) MAX_SERIES)"

lemma chart_width_bounds:
  assumes "members \<noteq> []"
  shows "0 < chart_width members" and "chart_width members \<le> MAX_SERIES"
proof -
  have n: "0 < length members" using assms by simp
  have parts: "0 < ceil_div (length members) MAX_SERIES" using n by (intro ceil_div_pos) (simp_all add: MAX_SERIES_def)
  show "0 < chart_width members" using n parts unfolding chart_width_def by (rule ceil_div_pos)
  have "length members \<le> ceil_div (length members) MAX_SERIES * MAX_SERIES"
    by (rule ceil_div_bounds(1)) (simp add: MAX_SERIES_def)
  then show "chart_width members \<le> MAX_SERIES"
    unfolding chart_width_def by (intro ceil_div_least [OF parts]) (simp add: mult.commute)
qed

lemma split_set_eq:
  assumes "members \<noteq> []"
  shows "split_set members dim title = Inr (map (\<lambda>(index, chunk). \<lparr> cs_members = chunk, cs_dimension = dim,
           cs_title = title, cs_part = (index, length (chunks (chart_width members) (ordered_members dim members))) \<rparr>)
         (zip [1..<Suc (length (chunks (chart_width members) (ordered_members dim members)))]
              (chunks (chart_width members) (ordered_members dim members))))"
proof -
  have parts: "ceil_div (length members) MAX_SERIES \<noteq> 0"
    using ceil_div_pos [of "length members" MAX_SERIES] assms by (simp add: MAX_SERIES_def)
  have ord: "(case dim of None \<Rightarrow> members | Some d \<Rightarrow> sort_key (member_order d) members) = ordered_members dim members"
    by (simp add: ordered_members_def)
  show ?thesis unfolding split_set_def Let_def ord length_ordered_members chart_width_def if_not_P [OF parts] by (rule refl)
qed

lemma zip_upt_members:
  "map cs_members (map (\<lambda>(index, chunk). \<lparr> cs_members = chunk, cs_dimension = dim, cs_title = title,
     cs_part = (index, n) \<rparr>) (zip [1..<Suc (length cs)] cs)) = cs"
proof (rule nth_equalityI)
qed (simp_all del: upt_Suc)

lemma zip_upt_parts:
  "map cs_part (map (\<lambda>(index, chunk). \<lparr> cs_members = chunk, cs_dimension = dim, cs_title = title,
     cs_part = (index, n) \<rparr>) (zip [1..<Suc (length cs)] cs)) = map (\<lambda>i. (i, n)) [1..<Suc (length cs)]"
proof (rule nth_equalityI)
qed (simp_all del: upt_Suc)

lemma split_set_total: "members \<noteq> [] \<Longrightarrow> \<exists>sets. split_set members dim title = Inr sets"
  by (simp add: split_set_eq)

lemma split_set_charts:
  assumes "split_set members dim title = Inr sets" and "members \<noteq> []"
  shows "map cs_members sets = chunks (chart_width members) (ordered_members dim members)"
    and "map cs_part sets = map (\<lambda>i. (i, length sets)) [1..<Suc (length sets)]"
    and "s \<in> set sets \<Longrightarrow> cs_dimension s = dim \<and> cs_title s = title"
proof -
  let ?cs = "chunks (chart_width members) (ordered_members dim members)"
  have sets: "sets = map (\<lambda>(index, chunk). \<lparr> cs_members = chunk, cs_dimension = dim, cs_title = title,
         cs_part = (index, length ?cs) \<rparr>) (zip [1..<Suc (length ?cs)] ?cs)"
    using split_set_eq [OF assms(2), of dim title] assms(1) by (metis sum.inject(2))
  show "map cs_members sets = ?cs" unfolding sets by (rule zip_upt_members)
  have len: "length sets = length ?cs" unfolding sets by (simp del: upt_Suc)
  show "map cs_part sets = map (\<lambda>i. (i, length sets)) [1..<Suc (length sets)]"
    unfolding len unfolding sets by (rule zip_upt_parts)
  show "s \<in> set sets \<Longrightarrow> cs_dimension s = dim \<and> cs_title s = title"
    unfolding sets by (auto simp del: upt_Suc)
qed

lemma split_set_sound:
  assumes "split_set members dim title = Inr sets" and "members \<noteq> []"
  shows "concat (map cs_members sets) = ordered_members dim members"
    and "s \<in> set sets \<Longrightarrow> cs_members s \<noteq> [] \<and> length (cs_members s) \<le> MAX_SERIES \<and> set (cs_members s) \<subseteq> set members"
proof -
  note w = chart_width_bounds [OF assms(2)] and charts = split_set_charts(1) [OF assms]
  show cat: "concat (map cs_members sets) = ordered_members dim members"
    unfolding charts using w(1) by (rule chunks_concat)
  show "cs_members s \<noteq> [] \<and> length (cs_members s) \<le> MAX_SERIES \<and> set (cs_members s) \<subseteq> set members" if "s \<in> set sets"
  proof -
    have "cs_members s \<in> set (chunks (chart_width members) (ordered_members dim members))"
      using that charts by (metis imageI list.set_map)
    from chunk_length [OF w(1) this] have "0 < length (cs_members s)" "length (cs_members s) \<le> chart_width members" .
    moreover have "set (cs_members s) \<subseteq> set (concat (map cs_members sets))" using that by auto
    ultimately show ?thesis using w(2) unfolding cat by auto
  qed
qed

subsection \<open>Automatic sets compare like with like\<close>

lemma compatible_iff:
  "compatible a b \<longleftrightarrow> (\<forall>k v w. dict_get (c_settings a) k = Some v \<longrightarrow> dict_get (c_settings b) k = Some w \<longrightarrow> v = w)"
proof
  assume c: "compatible a b"
  show "\<forall>k v w. dict_get (c_settings a) k = Some v \<longrightarrow> dict_get (c_settings b) k = Some w \<longrightarrow> v = w"
  proof (intro allI impI)
    fix k v w
    assume a: "dict_get (c_settings a) k = Some v" and b: "dict_get (c_settings b) k = Some w"
    from a have "k \<in> set (dict_keys (c_settings a))" by (metis map_of_eq_None_iff image_set option.distinct(1))
    then have "dict_get (c_settings b) k = None \<or> dict_get (c_settings a) k = dict_get (c_settings b) k"
      using c unfolding compatible_def list_all_iff by blast
    then show "v = w" using a b by simp
  qed
next
  assume r: "\<forall>k v w. dict_get (c_settings a) k = Some v \<longrightarrow> dict_get (c_settings b) k = Some w \<longrightarrow> v = w"
  show "compatible a b"
    unfolding compatible_def list_all_iff
  proof (intro ballI)
    fix k
    assume "k \<in> set (dict_keys (c_settings a))"
    then obtain v where a: "dict_get (c_settings a) k = Some v" by (metis map_of_eq_None_iff image_set not_None_eq)
    show "dict_get (c_settings b) k = None \<or> dict_get (c_settings a) k = dict_get (c_settings b) k"
      using r a by (cases "dict_get (c_settings b) k") auto
  qed
qed

lemma compatible_refl: "compatible a a"
  by (simp add: compatible_iff)

lemma compatible_sym: "compatible a b \<Longrightarrow> compatible b a"
  unfolding compatible_iff by blast

definition agreeing :: "candidate list \<Rightarrow> bool" where
  "agreeing cluster \<longleftrightarrow> cluster \<noteq> [] \<and> (\<forall>a \<in> set cluster. \<forall>b \<in> set cluster. compatible a b)"

lemma agreeing_snoc:
  assumes "agreeing cluster" and "list_all (compatible m) cluster"
  shows "agreeing (cluster @ [m])"
proof -
  have "\<forall>b \<in> set cluster. compatible m b \<and> compatible b m"
    using assms(2) compatible_sym by (auto simp: list_all_iff)
  then show ?thesis using assms(1) compatible_refl by (auto simp: agreeing_def)
qed

lemma add_member_agreeing: "list_all agreeing cs \<Longrightarrow> list_all agreeing (add_member m cs)"
proof (induction cs)
  case Nil
  then show ?case by (simp add: agreeing_def compatible_refl)
next
  case (Cons c cs)
  then show ?case using agreeing_snoc by simp
qed

lemma add_member_mset: "mset (concat (add_member m cs)) = add_mset m (mset (concat cs))"
  by (induction cs) (simp_all add: ac_simps)

lemma clusters_fold:
  "list_all agreeing cs \<Longrightarrow> list_all agreeing (fold add_member ms cs)
     \<and> mset (concat (fold add_member ms cs)) = mset (concat cs) + mset ms"
proof (induction ms arbitrary: cs)
  case (Cons m ms)
  from Cons.IH [OF add_member_agreeing [OF Cons.prems, of m]] show ?case by (simp add: add_member_mset)
qed simp

lemma clusters_sound: "c \<in> set (clusters ms) \<Longrightarrow> agreeing c"
  and clusters_mset: "mset (concat (clusters ms)) = mset ms"
  using clusters_fold [of "[]" ms] by (simp_all add: clusters_def list_all_iff)

lemma clusters_subset: "c \<in> set (clusters ms) \<Longrightarrow> set c \<subseteq> set ms"
proof -
  assume "c \<in> set (clusters ms)"
  then have "set c \<subseteq> set (concat (clusters ms))" by auto
  also have "\<dots> = set ms" using clusters_mset [of ms] by (metis set_mset_mset)
  finally show ?thesis .
qed

lemma partition_by_fold: "partition_by key xs = fold (\<lambda>(k, v). adict.push k v) (map (\<lambda>x. (key x, x)) xs) []"
  unfolding partition_by_def dict_append_push fold_map by (simp add: comp_def)

lemma partition_by_lookup:
  assumes "(k, ms) \<in> set (partition_by key xs)"
  shows "ms = filter (\<lambda>x. key x = k) xs"
proof -
  have "distinct (dict_keys (partition_by key xs))"
    unfolding partition_by_fold by (rule adict.distinct_keys_fold) simp
  then have "dict_get (partition_by key xs) k = Some ms" using assms by (simp add: map_of_is_SomeI)
  then have "ms = adict.entries (partition_by key xs) k" by (simp add: adict.entries_def)
  also have "\<dots> = filter (\<lambda>x. key x = k) xs"
    unfolding partition_by_fold adict.entries_fold
    by (simp add: adict.entries_def filter_map comp_def)
  finally show ?thesis .
qed

text \<open>What the members of one chart of an automatic set share.\<close>

definition like_with_like :: "dimension \<Rightarrow> candidate list \<Rightarrow> bool" where
  "like_with_like d members \<longleftrightarrow> (\<forall>a \<in> set members. \<forall>b \<in> set members.
     c_match a = c_match b \<and> kept_key d a = kept_key d b \<and> compatible a b)"

lemma traverse_choice: "(\<And>x. x \<in> set xs \<Longrightarrow> \<exists>y. f x = Inr y) \<Longrightarrow> \<exists>ys. traverse f xs = Inr ys"
  by (induction xs) (auto simp: rbind_eq_Inr)

lemma dimension_sets_total: "\<exists>sets. dimension_sets members d = Inr sets"
proof -
  let ?cs = "filter (\<lambda>cluster. card ((\<lambda>m. v_key (c_values m d)) ` set cluster) > 1)
     (concat (map (\<lambda>p. clusters (snd p)) (partition_by (kept_key d) members)))"
  have "\<exists>sets. split_set c (Some d) None = Inr sets" if "c \<in> set ?cs" for c
    using that by (intro split_set_total) (auto dest: clusters_sound simp: agreeing_def)
  then have "\<exists>yss. traverse (\<lambda>c. split_set c (Some d) None) ?cs = Inr yss"
    by (rule traverse_choice)
  then obtain yss where "traverse (\<lambda>c. split_set c (Some d) None) ?cs = Inr yss" ..
  then show ?thesis unfolding dimension_sets_def by simp
qed

lemma traverse_member:
  assumes "traverse f xs = Inr ys" and "y \<in> set ys"
  shows "\<exists>x \<in> set xs. f x = Inr y"
  using assms by (induction xs arbitrary: ys) (auto simp: rbind_eq_Inr)

lemma dimension_sets_sound:
  assumes "dimension_sets members d = Inr sets" and "s \<in> set sets"
  shows "cs_dimension s = Some d \<and> cs_members s \<noteq> [] \<and> length (cs_members s) \<le> MAX_SERIES
    \<and> set (cs_members s) \<subseteq> set members
    \<and> (\<forall>a \<in> set (cs_members s). \<forall>b \<in> set (cs_members s). kept_key d a = kept_key d b \<and> compatible a b)"
proof -
  let ?cs = "filter (\<lambda>cluster. card ((\<lambda>m. v_key (c_values m d)) ` set cluster) > 1)
     (concat (map (\<lambda>p. clusters (snd p)) (partition_by (kept_key d) members)))"
  obtain yss where t: "traverse (\<lambda>c. split_set c (Some d) None) ?cs = Inr yss" and "sets = concat yss"
    using assms(1) by (auto simp: dimension_sets_def rbind_eq_Inr)
  then obtain ys where "ys \<in> set yss" and s: "s \<in> set ys" using assms(2) by auto
  from traverse_member [OF t this(1)] obtain c where c: "c \<in> set ?cs" and split: "split_set c (Some d) None = Inr ys"
    by blast
  from c obtain k ms where p: "(k, ms) \<in> set (partition_by (kept_key d) members)" and cl: "c \<in> set (clusters ms)"
    by auto
  have agree: "agreeing c" using cl by (rule clusters_sound)
  then have "c \<noteq> []" by (simp add: agreeing_def)
  from split_set_sound(2) [OF split this s] split_set_charts(3) [OF split this s]
  have "cs_dimension s = Some d" and "cs_members s \<noteq> []" and "length (cs_members s) \<le> MAX_SERIES"
    and sub: "set (cs_members s) \<subseteq> set c" by simp_all
  moreover have "set c \<subseteq> {x \<in> set members. kept_key d x = k}"
    using clusters_subset [OF cl] partition_by_lookup [OF p] by simp
  ultimately show ?thesis using agree unfolding agreeing_def by blast
qed

lemma automatic_sets_total: "\<exists>sets. automatic_sets found = Inr sets"
proof -
  let ?ps = "concat (map (\<lambda>p. map (\<lambda>d. (snd p, d)) DIMENSIONS) (filter (\<lambda>p. length (snd p) > 1) (partition_by c_match found)))"
  have "\<exists>yss. traverse (\<lambda>(members, d). dimension_sets members d) ?ps = Inr yss"
    by (rule traverse_choice) (simp add: dimension_sets_total case_prod_unfold)
  then obtain yss where "traverse (\<lambda>(members, d). dimension_sets members d) ?ps = Inr yss" ..
  then show ?thesis unfolding automatic_sets_def by simp
qed

lemma automatic_sets_member:
  assumes "automatic_sets found = Inr sets" and "s \<in> set sets"
  shows "\<exists>d. cs_dimension s = Some d \<and> like_with_like d (cs_members s)
    \<and> cs_members s \<noteq> [] \<and> length (cs_members s) \<le> MAX_SERIES \<and> set (cs_members s) \<subseteq> set found"
proof -
  let ?ps = "concat (map (\<lambda>p. map (\<lambda>d. (snd p, d)) DIMENSIONS) (filter (\<lambda>p. length (snd p) > 1) (partition_by c_match found)))"
  obtain yss where t: "traverse (\<lambda>(members, d). dimension_sets members d) ?ps = Inr yss" and "sets = concat yss"
    using assms(1) by (auto simp: automatic_sets_def rbind_eq_Inr)
  then obtain ys where "ys \<in> set yss" and s: "s \<in> set ys" using assms(2) by auto
  from traverse_member [OF t this(1)] obtain q where q: "q \<in> set ?ps" "(\<lambda>(members, d). dimension_sets members d) q = Inr ys"
    by blast
  obtain ms d where "q = (ms, d)" by (cases q)
  then have p: "(ms, d) \<in> set ?ps" using q(1) by (rule subst)
  have ds: "dimension_sets ms d = Inr ys" using q(2) \<open>q = (ms, d)\<close> by simp
  from p obtain k where "(k, ms) \<in> set (partition_by c_match found)" by auto
  from partition_by_lookup [OF this] have ms: "ms = filter (\<lambda>c. c_match c = k) found" .
  have same: "c_match c = k \<and> c \<in> set found" if "c \<in> set ms" for c using that unfolding ms by simp
  from dimension_sets_sound [OF ds s] same show ?thesis unfolding like_with_like_def by blast
qed

text \<open>C14. The automatic sets of any list of candidates are computed without an error, and every chart of them
  compares like with like: all members are candidates of the input, share the match key and the values of
  every compared setting but the one of the chart (and, for a target comparison, the settings it implies), and
  no two of them record different values for another setting. A chart has between one and eight members.\<close>

theorem automatic_sets_sound:
  "\<exists>sets. automatic_sets found = Inr sets \<and> list_all (\<lambda>s. \<exists>d. cs_dimension s = Some d
     \<and> like_with_like d (cs_members s) \<and> cs_members s \<noteq> [] \<and> length (cs_members s) \<le> MAX_SERIES
     \<and> set (cs_members s) \<subseteq> set found) sets"
  using automatic_sets_total automatic_sets_member unfolding list_all_iff by blast

subsection \<open>Forced sets are the sections the file names\<close>

lemma filter_result_subset: "filter_result p xs = Inr ys \<Longrightarrow> set ys \<subseteq> {x \<in> set xs. p x = Inr True}"
proof -
  assume "filter_result p xs = Inr ys"
  then obtain bs where bs: "list_all2 (\<lambda>x b. p x = Inr b) xs bs" and ys: "ys = map fst (filter snd (zip xs bs))"
    by (auto simp: filter_result_def rbind_eq_Inr traverse_eq_Inr)
  show ?thesis
  proof
    fix y assume "y \<in> set ys"
    then obtain b where "(y, b) \<in> set (zip xs bs)" and "b" using ys by auto
    moreover from this have "p y = Inr b" using bs by (auto simp: list_all2_iff)
    ultimately show "y \<in> {x \<in> set xs. p x = Inr True}" by (auto dest: set_zip_leftD)
  qed
qed

lemma pick_shape_member:
  assumes "pick_shape found shape place = Inr c" and "found \<noteq> []"
  shows "c \<in> set found \<and> (\<forall>s. shape = Some s \<longrightarrow> c_slug c = s)"
proof (cases shape)
  case None
  then show ?thesis using assms by (auto simp: pick_shape_def Let_def split: if_splits)
next
  case (Some s)
  then obtain cs where "filter (\<lambda>c. c_slug c = s) found = c # cs"
    using assms by (auto simp: pick_shape_def Let_def split: list.splits)
  then have "c \<in> set (filter (\<lambda>c. c_slug c = s) found)" by simp
  then show ?thesis using Some by simp
qed

text \<open>The section a reference names: of the document it names, in the group it names, of the shape it names.\<close>

definition named_by :: "loaded list \<Rightarrow> string \<Rightarrow> candidate \<Rightarrow> bool" where
  "named_by documents reference c \<longleftrightarrow> (\<exists>rest. split_reference reference (document_names documents) = Some (c_document c, rest)
     \<and> same_group (hd rest) (c_group_id c) = Inr True \<and> (1 < length rest \<longrightarrow> c_slug c = rest ! 1))"

lemma resolve_reference_sound:
  assumes "resolve_reference reference documents found = Inr c"
  shows "c \<in> set found \<and> named_by documents reference c"
proof -
  obtain document rest where sr: "split_reference reference (document_names documents) = Some (document, rest)"
    using assms by (cases "split_reference reference (document_names documents)") (auto simp: resolve_reference_def)
  let ?p = "\<lambda>c. if c_document c = document then same_group (hd rest) (c_group_id c) else Inr False"
  obtain place in_group where f: "filter_result ?p found = Inr in_group" and ne: "in_group \<noteq> []"
    and pick: "pick_shape in_group (if length rest > 1 then Some (rest ! 1) else None) place = Inr c"
    using assms by (auto simp: resolve_reference_def sr Let_def rbind_eq_Inr split: if_splits)
  from pick_shape_member [OF pick ne] have c: "c \<in> set in_group" and slug: "1 < length rest \<longrightarrow> c_slug c = rest ! 1"
    by simp_all
  from c filter_result_subset [OF f] have "c \<in> set found" and "?p c = Inr True" by blast+
  then show ?thesis using sr slug by (auto simp: named_by_def split: if_splits)
qed

lemma forced_entry_members:
  assumes "forced_entry documents found (index, title, refs) = Inr sets" and "refs \<noteq> []"
  obtains members where "list_all2 (\<lambda>r c. resolve_reference r documents found = Inr c) refs members"
    and "check_forced (py_strip title) members = Inr ()"
    and "split_set members None (Some (py_strip title)) = Inr sets" and "members \<noteq> []"
proof -
  let ?r = "rbind (traverse (\<lambda>r. resolve_reference r documents found) refs) (\<lambda>members.
             rbind (check_forced (py_strip title) members) (\<lambda>_. Inr members))"
  obtain members where m: "?r = Inr members" and s: "split_set members None (Some (py_strip title)) = Inr sets"
    using assms(1) by (cases ?r) (auto simp: forced_entry_def split: py_error.splits)
  from m have t: "traverse (\<lambda>r. resolve_reference r documents found) refs = Inr members"
    and c: "check_forced (py_strip title) members = Inr ()" by (auto simp: rbind_eq_Inr)
  moreover have "members \<noteq> []" using t assms(2) traverse_length by fastforce
  ultimately show ?thesis using that s by (simp add: traverse_eq_Inr)
qed

lemma all_equal_remdups: "\<not> 1 < length (remdups xs) \<Longrightarrow> x \<in> set xs \<Longrightarrow> y \<in> set xs \<Longrightarrow> x = y"
proof -
  assume "\<not> 1 < length (remdups xs)" and "x \<in> set xs" and "y \<in> set xs"
  then have "length (remdups xs) = 1" by (metis length_0_conv less_one linorder_neqE_nat remdups_eq_nil_iff empty_iff list.set(1))
  then obtain z where "remdups xs = [z]" by (metis One_nat_def length_0_conv length_Suc_conv)
  then have "set xs = {z}" by (metis set_remdups list.set(1) list.set(2))
  then show "x = y" using \<open>x \<in> set xs\<close> \<open>y \<in> set xs\<close> by simp
qed

lemma check_forced_sound:
  assumes "check_forced title members = Inr ()" and "a \<in> set members" and "b \<in> set members"
  shows "c_kind a = c_kind b \<and> c_x a = c_x b \<and> c_normalize_to a = c_normalize_to b"
    and "distinct (map c_anchor members)"
proof -
  have n: "\<not> 1 < length (remdups (map c_kind members))" "\<not> 1 < length (remdups (map c_x members))"
    "\<not> 1 < length (remdups (map c_normalize_to members))" "\<not> length (remdups (map c_anchor members)) < length members"
    using assms(1) by (auto simp: check_forced_def Let_def split: if_splits)
  show "c_kind a = c_kind b \<and> c_x a = c_x b \<and> c_normalize_to a = c_normalize_to b"
    using all_equal_remdups [OF n(1)] all_equal_remdups [OF n(2)] all_equal_remdups [OF n(3)] assms(2,3) by simp
  show "distinct (map c_anchor members)"
    using n(4) length_remdups_leq [of "map c_anchor members"] length_remdups_eq [of "map c_anchor members"]
    by (simp add: length_remdups_card_conv)
qed

text \<open>C15. The charts of an entry of a comparison file show, in file order and in charts of at most eight, exactly
  one candidate per listed reference; each is the section its reference names, no section appears twice, and all
  have one kind, one swept dimension and one normalization.\<close>

theorem forced_entry_sound:
  assumes "forced_entry documents found (index, title, refs) = Inr sets" and "refs \<noteq> []"
  shows "list_all2 (named_by documents) refs (concat (map cs_members sets))
    \<and> distinct (map c_anchor (concat (map cs_members sets)))
    \<and> list_all (\<lambda>s. length (cs_members s) \<le> MAX_SERIES \<and> cs_title s = Some (py_strip title)) sets
    \<and> (\<forall>a \<in> set (concat (map cs_members sets)). \<forall>b \<in> set (concat (map cs_members sets)).
         c_kind a = c_kind b \<and> c_x a = c_x b \<and> c_normalize_to a = c_normalize_to b)"
proof -
  from forced_entry_members [OF assms] obtain members
    where r: "list_all2 (\<lambda>r c. resolve_reference r documents found = Inr c) refs members"
      and c: "check_forced (py_strip title) members = Inr ()"
      and s: "split_set members None (Some (py_strip title)) = Inr sets" and ne: "members \<noteq> []" .
  have cat: "concat (map cs_members sets) = members"
    using split_set_sound(1) [OF s ne] by (simp add: ordered_members_def)
  have "list_all2 (named_by documents) refs members"
    using r by (rule list_all2_mono) (auto dest: resolve_reference_sound)
  moreover have "distinct (map c_anchor members)"
    using check_forced_sound(2) [OF c] ne by (meson list.set_sel(1))
  moreover have "list_all (\<lambda>s. length (cs_members s) \<le> MAX_SERIES \<and> cs_title s = Some (py_strip title)) sets"
    using split_set_sound(2) [OF s ne] split_set_charts(3) [OF s ne] by (simp add: list_all_iff)
  ultimately show ?thesis unfolding cat using check_forced_sound(1) [OF c] by blast
qed

text \<open>Two sections of one document, and a comparison entry naming both.\<close>

definition sample_section :: "string \<Rightarrow> string \<Rightarrow> candidate" where
  "sample_section gid mode = \<lparr> c_document = 1, c_group_id = gid, c_slug = ''1m-seq-'' @ mode, c_anchor = gid @ ''-'' @ mode,
     c_kind = ''io'', c_x = Some ''nodes'', c_normalize_to = None,
     c_match = ((''io'', Some ''nodes'', [PInt 1048576]), {[PInt 8]}, None), c_shape_order = (1048576, 0, [], [], False),
     c_values = (\<lambda>d. \<lparr> v_key = (if d = IO_MODE then mode else []), v_label = mode, v_order = (1, 0, [], mode) \<rparr>),
     c_settings = [] \<rparr>"

definition sample_sections :: "candidate list" where
  "sample_sections = [sample_section ''0001'' ''dio'', sample_section ''0002'' ''bio'']"

theorem forced_entry_sound_witness:
  "\<exists>sets. forced_entry [None] sample_sections (1, ''modes'', [''1:1'', ''1:0002:1m-seq-bio'']) = Inr sets
     \<and> list_all2 (named_by [None]) [''1:1'', ''1:0002:1m-seq-bio''] (concat (map cs_members sets))"
proof -
  have "isl (forced_entry [None] sample_sections (1, ''modes'', [''1:1'', ''1:0002:1m-seq-bio''])) = False"
    by code_simp
  then obtain sets where "forced_entry [None] sample_sections (1, ''modes'', [''1:1'', ''1:0002:1m-seq-bio'']) = Inr sets"
    by (metis isl_def obj_sumE)
  from this forced_entry_sound [OF this] show ?thesis by auto
qed

text \<open>The chunks of a split are not balanced: 57 members give seven charts of eight and one of a single
  member.\<close>

theorem split_leaves_single_member:
  "rbind (split_set (replicate 57 (sample_section ''0001'' ''dio'')) None None) (\<lambda>sets. Inr (map (\<lambda>s. length (cs_members s)) sets))
     = Inr [8, 8, 8, 8, 8, 8, 8, 1]"
  by code_simp

end
