(* ===== verification/PyEffects.thy ===== *)
theory PyEffects
  imports PyValues
begin

section \<open>Code with effects and exceptions\<close>

text \<open>
  Methods that change files or a cluster and may raise on the way. An effect maps the state before to an
  outcome, an exception or a value, and the state after: an exception keeps the changes made before it.
  \<open>etry\<close> is \<^verbatim>\<open>try: ... except Exception as error: ...\<close>. An exception is its class name and its text.

  \<open>triple P m Q E\<close> says what an effect does from every state with \<open>P\<close>: \<open>Q\<close> holds of a returned value and the state
  after, \<open>E\<close> of an exception and the state after. Its rules are in the collection \<open>triple_rules\<close>.
\<close>

named_theorems triple_rules \<open>proof rules for effects\<close>

datatype raised = Raised (raised_class: string) (raised_text: string)

type_synonym ('s, 'a) eff = "'s \<Rightarrow> (raised + 'a) \<times> 's"

definition eret :: "'a \<Rightarrow> ('s, 'a) eff" where
  "eret x = (\<lambda>s. (Inr x, s))"

definition eraise :: "raised \<Rightarrow> ('s, 'a) eff" where
  "eraise e = (\<lambda>s. (Inl e, s))"

definition ebind :: "('s, 'a) eff \<Rightarrow> ('a \<Rightarrow> ('s, 'b) eff) \<Rightarrow> ('s, 'b) eff" where
  "ebind m f = (\<lambda>s. case m s of (Inl e, t) \<Rightarrow> (Inl e, t) | (Inr x, t) \<Rightarrow> f x t)"

definition etry :: "('s, 'a) eff \<Rightarrow> (raised \<Rightarrow> ('s, 'a) eff) \<Rightarrow> ('s, 'a) eff" where
  "etry m h = (\<lambda>s. case m s of (Inl e, t) \<Rightarrow> h e t | (Inr x, t) \<Rightarrow> (Inr x, t))"

definition eguard :: "bool \<Rightarrow> raised \<Rightarrow> ('s, unit) eff" where
  "eguard b e = (if b then eret () else eraise e)"

definition eget :: "('s \<Rightarrow> 'a) \<Rightarrow> ('s, 'a) eff" where
  "eget f = (\<lambda>s. (Inr (f s), s))"

definition emodify :: "('s \<Rightarrow> 's) \<Rightarrow> ('s, unit) eff" where
  "emodify f = (\<lambda>s. (Inr (), f s))"

text \<open>A loop over the elements of a list that stops at the first exception.\<close>

primrec efor :: "'x list \<Rightarrow> ('x \<Rightarrow> ('s, unit) eff) \<Rightarrow> ('s, unit) eff" where
  "efor [] f = eret ()"
| "efor (x # xs) f = ebind (f x) (\<lambda>_. efor xs f)"

lemma eff_simps [simp]:
  "eret x s = (Inr x, s)" "eraise e s = (Inl e, s)" "eget f s = (Inr (f s), s)" "emodify g s = (Inr (), g s)"
  by (simp_all add: eret_def eraise_def eget_def emodify_def)

lemma eguard_simps [simp]: "eguard True e = eret ()" "eguard False e = eraise e"
  by (simp_all add: eguard_def)

lemma ebind_Inr: "m s = (Inr x, t) \<Longrightarrow> ebind m f s = f x t"
  by (simp add: ebind_def)

lemma ebind_Inl: "m s = (Inl e, t) \<Longrightarrow> ebind m f s = (Inl e, t)"
  by (simp add: ebind_def)

lemma ebind_unit [simp]: "ebind (eret x) f = f x" "ebind (eraise e) f = eraise e"
  by (simp_all add: ebind_def fun_eq_iff)

lemma ebind_eq_Inr: "ebind m f s = (Inr y, u) \<longleftrightarrow> (\<exists>x t. m s = (Inr x, t) \<and> f x t = (Inr y, u))"
  by (auto simp: ebind_def split: prod.splits sum.splits)

lemma ebind_eq_Inl: "ebind m f s = (Inl e, u) \<longleftrightarrow> m s = (Inl e, u) \<or> (\<exists>x t. m s = (Inr x, t) \<and> f x t = (Inl e, u))"
  by (auto simp: ebind_def split: prod.splits sum.splits)

lemma etry_eq_Inr: "etry m h s = (Inr y, u) \<longleftrightarrow> m s = (Inr y, u) \<or> (\<exists>e t. m s = (Inl e, t) \<and> h e t = (Inr y, u))"
  by (auto simp: etry_def split: prod.splits sum.splits)

definition triple ::
    "('s \<Rightarrow> bool) \<Rightarrow> ('s, 'a) eff \<Rightarrow> ('a \<Rightarrow> 's \<Rightarrow> bool) \<Rightarrow> (raised \<Rightarrow> 's \<Rightarrow> bool) \<Rightarrow> bool" where
  "triple P m Q E \<longleftrightarrow> (\<forall>s. P s \<longrightarrow> (case m s of (Inl e, t) \<Rightarrow> E e t | (Inr x, t) \<Rightarrow> Q x t))"

lemma tripleI: "(\<And>s. P s \<Longrightarrow> case m s of (Inl e, t) \<Rightarrow> E e t | (Inr x, t) \<Rightarrow> Q x t) \<Longrightarrow> triple P m Q E"
  by (simp add: triple_def)

lemma triple_returned: "triple P m Q E \<Longrightarrow> P s \<Longrightarrow> m s = (Inr x, t) \<Longrightarrow> Q x t"
  by (fastforce simp: triple_def)

lemma triple_raised: "triple P m Q E \<Longrightarrow> P s \<Longrightarrow> m s = (Inl e, t) \<Longrightarrow> E e t"
  by (fastforce simp: triple_def)

lemma triple_conseq:
  "triple P m Q E \<Longrightarrow> (\<And>s. P' s \<Longrightarrow> P s) \<Longrightarrow> (\<And>x s. Q x s \<Longrightarrow> Q' x s) \<Longrightarrow> (\<And>e s. E e s \<Longrightarrow> E' e s)
   \<Longrightarrow> triple P' m Q' E'"
  by (fastforce simp: triple_def split: prod.splits sum.splits)

lemma triple_pre: "triple P m Q E \<Longrightarrow> (\<And>s. P' s \<Longrightarrow> P s) \<Longrightarrow> triple P' m Q E"
  by (simp add: triple_def)

lemma triple_ret [triple_rules]: "(\<And>s. P s \<Longrightarrow> Q x s) \<Longrightarrow> triple P (eret x) Q E"
  by (simp add: triple_def)

lemma triple_raise [triple_rules]: "(\<And>s. P s \<Longrightarrow> E e s) \<Longrightarrow> triple P (eraise e) Q E"
  by (simp add: triple_def)

lemma triple_guard [triple_rules]:
  "(\<And>s. P s \<Longrightarrow> b \<Longrightarrow> Q () s) \<Longrightarrow> (\<And>s. P s \<Longrightarrow> \<not> b \<Longrightarrow> E e s) \<Longrightarrow> triple P (eguard b e) Q E"
  by (simp add: triple_def eguard_def)

lemma triple_get [triple_rules]: "(\<And>s. P s \<Longrightarrow> Q (f s) s) \<Longrightarrow> triple P (eget f) Q E"
  by (simp add: triple_def)

lemma triple_modify [triple_rules]: "(\<And>s. P s \<Longrightarrow> Q () (f s)) \<Longrightarrow> triple P (emodify f) Q E"
  by (simp add: triple_def)

lemma triple_bind:
  assumes "triple P m R E" and "\<And>x. triple (R x) (f x) Q E"
  shows "triple P (ebind m f) Q E"
proof (rule tripleI)
  fix s assume "P s"
  with assms show "case ebind m f s of (Inl e, t) \<Rightarrow> E e t | (Inr x, t) \<Rightarrow> Q x t"
    by (cases "m s"; cases "fst (m s)") (fastforce simp: triple_def ebind_def)+
qed

lemma triple_seq:
  assumes "triple P m R E0" and "\<And>e s. E0 e s \<Longrightarrow> E e s" and "\<And>x. triple (R x) (f x) Q E"
  shows "triple P (ebind m f) Q E"
proof -
  have "triple P m R E" by (rule triple_conseq [OF assms(1)]) (use assms(2) in auto)
  then show ?thesis using assms(3) by (rule triple_bind)
qed

lemma triple_fact: "(F \<Longrightarrow> triple P m Q E) \<Longrightarrow> triple (\<lambda>s. P s \<and> F) m Q E"
  by (auto simp: triple_def)

lemma triple_ex:
  assumes "\<And>x. triple (P x) m Q E"
  shows "triple (\<lambda>s. \<exists>x. P x s) m Q E"
  unfolding triple_def
proof (intro allI impI)
  fix s assume "\<exists>x. P x s"
  then obtain x where "P x s" ..
  then show "case m s of (Inl e, t) \<Rightarrow> E e t | (Inr x, t) \<Rightarrow> Q x t" using assms [of x] by (simp add: triple_def)
qed

lemma triple_try:
  assumes "triple P m Q R" and "\<And>e. triple (R e) (h e) Q E"
  shows "triple P (etry m h) Q E"
proof (rule tripleI)
  fix s assume "P s"
  with assms show "case etry m h s of (Inl e, t) \<Rightarrow> E e t | (Inr x, t) \<Rightarrow> Q x t"
    by (cases "m s"; cases "fst (m s)") (fastforce simp: triple_def etry_def)+
qed

lemma triple_for:
  assumes "\<And>x. x \<in> set xs \<Longrightarrow> triple I (f x) (\<lambda>_. I) E"
  shows "triple I (efor xs f) (\<lambda>_. I) E"
  using assms
proof (induction xs)
  case Nil
  show ?case unfolding efor.simps by (rule triple_ret)
next
  case (Cons x xs)
  then have "triple I (f x) (\<lambda>_. I) E" and "triple I (efor xs f) (\<lambda>_. I) E" by simp_all
  then show ?case by (auto intro: triple_bind)
qed

end
