(* ===== verification/HomeTransition.thy ===== *)
theory HomeTransition
  imports PyEffects PyFiles
begin

section \<open>Temporary shared-home transitions of the SSH pool (integration-tests/lib/ssh\_home\_transition.py)\<close>

text \<open>
  The SSH scenarios normally run with separate homes; one batch runs with a shared home. A transition
  record in the state directory says that the pool may not be in its canonical form, so that an
  interrupted run is recovered by the next one.

  The state of the model is the record file, whether the state directory exists, and the pool, an
  arbitrary value that only the hooks of the manager (\<^verbatim>\<open>inspect_pool\<close>, \<^verbatim>\<open>reconcile_pool\<close>, \<^verbatim>\<open>clock\<close>) and the
  operating system calls behind a write and an unlink look at: they are parameters, and each may fail in any
  state. The file is kept as the JSON value read from it. \<open>trace\<close> lists the durable writes and the calls of
  the hooks in the order in which they happen; a run killed at any point has done a prefix of it.
\<close>

subsection \<open>Observations and transition records\<close>

definition CANONICAL_HOME_MODE :: string where "CANONICAL_HOME_MODE = ''separate''"
definition SHARED_HOME_MODE :: string where "SHARED_HOME_MODE = ''shared''"
definition UNKNOWN_HOME_MODE :: string where "UNKNOWN_HOME_MODE = ''unknown''"
definition STATE_FILENAME :: string where "STATE_FILENAME = ''ssh-home-transition.json''"
definition STATE_SCHEMA :: int where "STATE_SCHEMA = 1"
definition EXPECTED_POD_COUNT :: int where "EXPECTED_POD_COUNT = 2"
definition MAX_FAILURE_DIAGNOSTICS :: nat where "MAX_FAILURE_DIAGNOSTICS = 8000"

definition PHASES :: "string list" where
  "PHASES = [''applying-shared'', ''shared-ready'', ''restoring-separate'', ''unhealthy'']"

definition HOME_MODES :: "string list" where "HOME_MODES = [CANONICAL_HOME_MODE, SHARED_HOME_MODE]"
definition POOL_MODES :: "string list" where "POOL_MODES = HOME_MODES @ [UNKNOWN_HOME_MODE]"

lemmas mode_defs = CANONICAL_HOME_MODE_def SHARED_HOME_MODE_def UNKNOWN_HOME_MODE_def HOME_MODES_def
  POOL_MODES_def PHASES_def

record pool_observation =
  home_mode :: string
  configuration_checksum :: string
  ready_nonterminating_pods :: int
  terminating_pods :: int
  diagnostics :: string

definition obs_matches :: "pool_observation \<Rightarrow> string \<Rightarrow> string \<Rightarrow> bool" where
  "obs_matches obs mode checksum \<longleftrightarrow>
     home_mode obs = mode \<and> configuration_checksum obs = checksum
     \<and> ready_nonterminating_pods obs = EXPECTED_POD_COUNT \<and> terminating_pods obs = 0"

text \<open>A decoded record may hold any JSON value in any field.\<close>

record transition_state =
  ts_schema :: pyval
  ts_run_id :: pyval
  ts_scenario_id :: pyval
  ts_prior_mode :: pyval
  ts_requested_mode :: pyval
  ts_checksum :: pyval
  ts_phase :: pyval
  ts_updated_at :: pyval
  ts_diagnostics :: pyval

definition transition_error :: "string \<Rightarrow> raised" where
  "transition_error message = Raised ''SshHomeTransitionError'' message"

definition valid_text :: "pyval \<Rightarrow> bool" where
  "valid_text v = (case v of PStr s \<Rightarrow> py_strip s \<noteq> [] | _ \<Rightarrow> False)"

text \<open>\<^verbatim>\<open>value in names\<close> for a set of strings: unhashable values raise.\<close>

definition in_names :: "string list \<Rightarrow> pyval \<Rightarrow> ('s, bool) eff" where
  "in_names names v = (case v of
     PStr s \<Rightarrow> eret (s \<in> set names)
   | PList _ \<Rightarrow> eraise (Raised ''TypeError'' (''unhashable type: '' @ [CHR 0x27] @ ''list'' @ [CHR 0x27]))
   | PDict _ \<Rightarrow> eraise (Raised ''TypeError'' (''unhashable type: '' @ [CHR 0x27] @ ''dict'' @ [CHR 0x27]))
   | _ \<Rightarrow> eret False)"

definition text_fields :: "transition_state \<Rightarrow> (string \<times> pyval) list" where
  "text_fields st = [(''run_id'', ts_run_id st), (''scenario_id'', ts_scenario_id st),
     (''expected_statefulset_checksum'', ts_checksum st), (''updated_at'', ts_updated_at st)]"

definition validate :: "transition_state \<Rightarrow> ('s, unit) eff" where
  "validate st =
     ebind (eguard (eq_int (ts_schema st) STATE_SCHEMA)
       (transition_error (''unsupported SSH home transition schema: '' @ py_repr (ts_schema st)))) (\<lambda>_.
     ebind (in_names POOL_MODES (ts_prior_mode st)) (\<lambda>prior_known.
     ebind (if prior_known then in_names HOME_MODES (ts_requested_mode st) else eret False) (\<lambda>modes_known.
     ebind (eguard modes_known (transition_error ''invalid SSH home mode in transition state'')) (\<lambda>_.
     ebind (in_names PHASES (ts_phase st)) (\<lambda>phase_known.
     ebind (eguard phase_known
       (transition_error (''invalid SSH home transition phase: '' @ py_repr (ts_phase st)))) (\<lambda>_.
     let empty = map fst (filter (\<lambda>p. \<not> valid_text (snd p)) (text_fields st))
     in eguard (empty = [])
          (transition_error (''empty or invalid SSH home transition fields: '' @ join '', '' empty))))))))"

definition required_fields :: "string list" where
  "required_fields = [''schema'', ''run_id'', ''scenario_id'', ''prior_mode'', ''requested_mode'',
     ''expected_statefulset_checksum'', ''phase'', ''updated_at'', ''failure_diagnostics'']"

text \<open>A JSON object is a dictionary with string keys.\<close>

definition from_document :: "settings \<Rightarrow> ('s, transition_state) eff" where
  "from_document document =
     ebind (eguard (set (dict_keys document) = set required_fields)
       (transition_error (''invalid SSH home transition state fields: expected '' @
          py_repr (PList (map PStr (sort required_fields))) @ '', found '' @
          py_repr (PList (map PStr (sort (dict_keys document))))))) (\<lambda>_.
     let st = \<lparr> ts_schema = val_get document ''schema'', ts_run_id = val_get document ''run_id'',
           ts_scenario_id = val_get document ''scenario_id'', ts_prior_mode = val_get document ''prior_mode'',
           ts_requested_mode = val_get document ''requested_mode'',
           ts_checksum = val_get document ''expected_statefulset_checksum'', ts_phase = val_get document ''phase'',
           ts_updated_at = val_get document ''updated_at'',
           ts_diagnostics = val_get document ''failure_diagnostics'' \<rparr>
     in ebind (validate st) (\<lambda>_. eret st))"

text \<open>\<^verbatim>\<open>asdict(state)\<close>, with the keys sorted as they are written\<close>

definition asdict :: "transition_state \<Rightarrow> settings" where
  "asdict st = [(''expected_statefulset_checksum'', ts_checksum st), (''failure_diagnostics'', ts_diagnostics st),
     (''phase'', ts_phase st), (''prior_mode'', ts_prior_mode st), (''requested_mode'', ts_requested_mode st),
     (''run_id'', ts_run_id st), (''scenario_id'', ts_scenario_id st), (''schema'', ts_schema st),
     (''updated_at'', ts_updated_at st)]"

subsection \<open>The record file\<close>

text \<open>What reading the record file gives: an error of the operating system or the JSON decoder, bytes that
  are not UTF-8, or a JSON value, which may or may not be an object.\<close>

datatype stored = Unreadable string | NotUtf8 string | JsonObject settings | OtherJson pyval

datatype event =
    Saved transition_state
  | Cleared
  | Reconciled string string
  | Inspected "pool_observation option"

record 'w fixture =
  state_dir_exists :: bool
  record_file :: "stored option"
  pool :: 'w
  trace :: "event list"

record 'w hooks =
  hk_inspect :: "'w \<Rightarrow> (raised + pool_observation) \<times> 'w"
  hk_reconcile :: "string \<Rightarrow> string \<Rightarrow> 'w \<Rightarrow> (raised + unit) \<times> 'w"
  hk_clock :: "'w \<Rightarrow> string \<times> 'w"
  hk_write :: "'w \<Rightarrow> (raised + unit) \<times> 'w"
  hk_unlink :: "'w \<Rightarrow> (raised + unit) \<times> 'w"
  hk_state_dir :: string

definition store_path :: "'w hooks \<Rightarrow> string" where
  "store_path h = hk_state_dir h @ ''/'' @ STATE_FILENAME"

definition inspect_pool :: "'w hooks \<Rightarrow> ('w fixture, pool_observation) eff" where
  "inspect_pool h = (\<lambda>s. case hk_inspect h (pool s) of (r, w) \<Rightarrow>
     (r, s \<lparr> pool := w, trace := trace s @ [Inspected (case r of Inl _ \<Rightarrow> None | Inr obs \<Rightarrow> Some obs)] \<rparr>))"

definition reconcile_pool :: "'w hooks \<Rightarrow> string \<Rightarrow> string \<Rightarrow> ('w fixture, unit) eff" where
  "reconcile_pool h mode checksum = (\<lambda>s. case hk_reconcile h mode checksum (pool s) of (r, w) \<Rightarrow>
     (r, s \<lparr> pool := w, trace := trace s @ [Reconciled mode checksum] \<rparr>))"

definition read_clock :: "'w hooks \<Rightarrow> ('w fixture, string) eff" where
  "read_clock h = (\<lambda>s. case hk_clock h (pool s) of (t, w) \<Rightarrow> (Inr t, s \<lparr> pool := w \<rparr>))"

definition os_call :: "('w \<Rightarrow> (raised + unit) \<times> 'w) \<Rightarrow> ('w fixture, unit) eff" where
  "os_call f = (\<lambda>s. case f (pool s) of (r, w) \<Rightarrow> (r, s \<lparr> pool := w \<rparr>))"

definition store_load :: "'w hooks \<Rightarrow> ('w fixture, transition_state option) eff" where
  "store_load h = ebind (eget record_file) (\<lambda>file. case file of
     None \<Rightarrow> eret None
   | Some (Unreadable e) \<Rightarrow>
       eraise (transition_error (''cannot read SSH home transition state '' @ store_path h @ '': '' @ e))
   | Some (NotUtf8 e) \<Rightarrow> eraise (Raised ''UnicodeDecodeError'' e)
   | Some (OtherJson _) \<Rightarrow>
       eraise (transition_error (''invalid SSH home transition state in '' @ store_path h @ '': expected object''))
   | Some (JsonObject document) \<Rightarrow>
       etry (ebind (from_document document) (\<lambda>st. eret (Some st)))
         (\<lambda>e. eraise (transition_error
            (''invalid SSH home transition state in '' @ store_path h @ '': '' @ raised_text e))))"

definition require_state_dir :: "'w hooks \<Rightarrow> ('w fixture, unit) eff" where
  "require_state_dir h = ebind (eget state_dir_exists) (\<lambda>present.
     eguard present (transition_error (''integration state directory is absent: '' @ hk_state_dir h)))"

text \<open>The temporary file is written, synced and moved over the record, so a failing write leaves the old record.\<close>

definition store_save :: "'w hooks \<Rightarrow> transition_state \<Rightarrow> ('w fixture, unit) eff" where
  "store_save h st =
     ebind (validate st) (\<lambda>_.
     ebind (require_state_dir h) (\<lambda>_.
     ebind (os_call (hk_write h)) (\<lambda>_.
     emodify (\<lambda>s. s \<lparr> record_file := Some (JsonObject (asdict st)), trace := trace s @ [Saved st] \<rparr>))))"

definition store_clear :: "'w hooks \<Rightarrow> ('w fixture, unit) eff" where
  "store_clear h = ebind (eget record_file) (\<lambda>file.
     if file = None then eret ()
     else ebind (os_call (hk_unlink h)) (\<lambda>_.
          emodify (\<lambda>s. s \<lparr> record_file := None, trace := trace s @ [Cleared] \<rparr>)))"

subsection \<open>The transition manager\<close>

definition failure_text :: "raised \<Rightarrow> string" where
  "failure_text e =
     (let text = py_strip (raised_class e @ '': '' @ raised_text e)
      in drop (length text - MAX_FAILURE_DIAGNOSTICS) text)"

lemma failure_text_code [code]:
  "failure_text e = (let text = py_strip (raised_class e @ '': '' @ raised_text e)
     in if int (length text) \<le> 8000 then text else drop (length text - MAX_FAILURE_DIAGNOSTICS) text)"
  by (simp add: failure_text_def MAX_FAILURE_DIAGNOSTICS_def Let_def)

definition known_mode :: "string \<Rightarrow> string" where
  "known_mode v = (if v = CANONICAL_HOME_MODE then CANONICAL_HOME_MODE
     else if v = SHARED_HOME_MODE then SHARED_HOME_MODE else UNKNOWN_HOME_MODE)"

definition new_state :: "string \<Rightarrow> string \<Rightarrow> string \<Rightarrow> string \<Rightarrow> string \<Rightarrow> string \<Rightarrow> string \<Rightarrow> ('s, transition_state) eff" where
  "new_state run_id scenario_id prior_mode requested_mode checksum phase updated_at =
     (let st = \<lparr> ts_schema = PInt STATE_SCHEMA, ts_run_id = PStr run_id, ts_scenario_id = PStr scenario_id,
           ts_prior_mode = PStr prior_mode, ts_requested_mode = PStr requested_mode, ts_checksum = PStr checksum,
           ts_phase = PStr phase, ts_updated_at = PStr updated_at, ts_diagnostics = PStr [] \<rparr>
      in ebind (validate st) (\<lambda>_. eret st))"

definition require_observation :: "pool_observation \<Rightarrow> string \<Rightarrow> string \<Rightarrow> ('s, unit) eff" where
  "require_observation obs mode checksum =
     eguard (obs_matches obs mode checksum)
       (transition_error (''SSH worker pool did not reach the requested state: mode='' @ repr_str (home_mode obs) @
          '', checksum='' @ repr_str (configuration_checksum obs) @ '', ready='' @
          str_int (ready_nonterminating_pods obs) @ '', terminating='' @ str_int (terminating_pods obs) @
          (if diagnostics obs \<noteq> [] then ''; '' @ diagnostics obs else [])))"

definition blocked_error :: "'w hooks \<Rightarrow> raised \<Rightarrow> raised" where
  "blocked_error h e = transition_error
     (''SSH worker pool reconciliation failed; further SSH scenarios are blocked. Retry setup to reconcile separate-home mode or teardown the fixture. State and diagnostics: ''
      @ store_path h @ '': '' @ raised_text e)"

definition save_unhealthy_from_state :: "'w hooks \<Rightarrow> transition_state \<Rightarrow> raised \<Rightarrow> ('w fixture, unit) eff" where
  "save_unhealthy_from_state h st e =
     ebind (read_clock h) (\<lambda>now.
     store_save h (st \<lparr> ts_phase := PStr ''unhealthy'', ts_updated_at := PStr now,
       ts_diagnostics := PStr (failure_text e) \<rparr>))"

definition save_unhealthy ::
    "'w hooks \<Rightarrow> transition_state option \<Rightarrow> string \<Rightarrow> string \<Rightarrow> string \<Rightarrow> string \<Rightarrow> string \<Rightarrow> raised \<Rightarrow> ('w fixture, unit) eff" where
  "save_unhealthy h retained run_id scenario_id prior_mode requested_mode checksum e =
     ebind (case retained of
         Some st \<Rightarrow> eret (st \<lparr> ts_requested_mode := PStr requested_mode, ts_checksum := PStr checksum \<rparr>)
       | None \<Rightarrow> ebind (read_clock h) (\<lambda>now.
           new_state run_id scenario_id prior_mode requested_mode checksum ''unhealthy'' now)) (\<lambda>st.
     save_unhealthy_from_state h st e)"

definition reconcile_separate :: "'w hooks \<Rightarrow> transition_state \<Rightarrow> string \<Rightarrow> ('w fixture, pool_observation) eff" where
  "reconcile_separate h identity checksum =
     ebind (read_clock h) (\<lambda>now.
     let st = identity \<lparr> ts_requested_mode := PStr CANONICAL_HOME_MODE, ts_checksum := PStr checksum,
           ts_phase := PStr ''restoring-separate'', ts_updated_at := PStr now, ts_diagnostics := PStr [] \<rparr>
     in ebind (store_save h st) (\<lambda>_.
        ebind (etry (ebind (reconcile_pool h CANONICAL_HOME_MODE checksum) (\<lambda>_.
                     ebind (inspect_pool h) (\<lambda>observed.
                     ebind (require_observation observed CANONICAL_HOME_MODE checksum) (\<lambda>_. eret observed))))
               (\<lambda>e. ebind (save_unhealthy_from_state h st e) (\<lambda>_. eraise (blocked_error h e)))) (\<lambda>observed.
        ebind (store_clear h) (\<lambda>_. eret observed))))"

definition preflight :: "'w hooks \<Rightarrow> string \<Rightarrow> string \<Rightarrow> string \<Rightarrow> ('w fixture, pool_observation) eff" where
  "preflight h separate_checksum run_id scenario_id =
     ebind (store_load h) (\<lambda>retained.
     ebind (etry (inspect_pool h)
              (\<lambda>e. ebind (save_unhealthy h retained run_id scenario_id UNKNOWN_HOME_MODE CANONICAL_HOME_MODE
                            separate_checksum e) (\<lambda>_. eraise (blocked_error h e)))) (\<lambda>observed.
     if retained = None \<and> obs_matches observed CANONICAL_HOME_MODE separate_checksum then eret observed
     else ebind (case retained of
              Some st \<Rightarrow> eret st
            | None \<Rightarrow> ebind (read_clock h) (\<lambda>now. new_state run_id scenario_id (known_mode (home_mode observed))
                CANONICAL_HOME_MODE separate_checksum ''restoring-separate'' now)) (\<lambda>identity.
          reconcile_separate h identity separate_checksum)))"

definition enter_shared :: "'w hooks \<Rightarrow> string \<Rightarrow> string \<Rightarrow> string \<Rightarrow> string \<Rightarrow> ('w fixture, pool_observation) eff" where
  "enter_shared h run_id scenario_id separate_checksum shared_checksum =
     ebind (preflight h separate_checksum run_id scenario_id) (\<lambda>_.
     ebind (read_clock h) (\<lambda>now.
     ebind (new_state run_id scenario_id CANONICAL_HOME_MODE SHARED_HOME_MODE shared_checksum ''applying-shared'' now) (\<lambda>st.
     ebind (store_save h st) (\<lambda>_.
     ebind (etry (ebind (reconcile_pool h SHARED_HOME_MODE shared_checksum) (\<lambda>_.
                  ebind (inspect_pool h) (\<lambda>observed.
                  ebind (require_observation observed SHARED_HOME_MODE shared_checksum) (\<lambda>_. eret observed))))
            (\<lambda>e. ebind (save_unhealthy_from_state h st e) (\<lambda>_. eraise (blocked_error h e)))) (\<lambda>observed.
     ebind (read_clock h) (\<lambda>later.
     ebind (store_save h (st \<lparr> ts_phase := PStr ''shared-ready'', ts_updated_at := PStr later \<rparr>)) (\<lambda>_.
     eret observed)))))))"

definition restore_separate :: "'w hooks \<Rightarrow> string \<Rightarrow> string \<Rightarrow> string \<Rightarrow> ('w fixture, pool_observation) eff" where
  "restore_separate h separate_checksum run_id scenario_id =
     ebind (store_load h) (\<lambda>retained.
     ebind (case retained of
         Some st \<Rightarrow> eret st
       | None \<Rightarrow> ebind (read_clock h) (\<lambda>now. new_state run_id scenario_id SHARED_HOME_MODE CANONICAL_HOME_MODE
           separate_checksum ''restoring-separate'' now)) (\<lambda>identity.
     reconcile_separate h identity separate_checksum))"

text \<open>\<^verbatim>\<open>sha256\<close> is a parameter.\<close>

definition statefulset_checksum :: "(string \<Rightarrow> string) \<Rightarrow> string + string \<Rightarrow> string" where
  "statefulset_checksum sha256 manifest = sha256 (case manifest of Inl text \<Rightarrow> utf8_encode text | Inr data \<Rightarrow> data)"

subsection \<open>Records that can be read back\<close>

definition text_in :: "string list \<Rightarrow> pyval \<Rightarrow> bool" where
  "text_in names v \<longleftrightarrow> (\<exists>s. v = PStr s \<and> s \<in> set names)"

definition state_ok :: "transition_state \<Rightarrow> bool" where
  "state_ok st \<longleftrightarrow> eq_int (ts_schema st) STATE_SCHEMA \<and> text_in POOL_MODES (ts_prior_mode st)
     \<and> text_in HOME_MODES (ts_requested_mode st) \<and> text_in PHASES (ts_phase st)
     \<and> list_all (\<lambda>p. valid_text (snd p)) (text_fields st)"

lemma in_names_state: "in_names names v s = (r, t) \<Longrightarrow> t = s"
  by (auto simp: in_names_def split: pyval.splits)

lemma in_names_True: "in_names names v s = (Inr True, t) \<longleftrightarrow> text_in names v \<and> t = s"
  by (auto simp: in_names_def text_in_def split: pyval.splits)

lemma in_names_text: "text_in names v \<Longrightarrow> in_names names v = eret True"
  by (auto simp: in_names_def text_in_def)

lemma validate_state: "validate st s = (r, t) \<Longrightarrow> t = s"
  by (auto simp: validate_def ebind_def eguard_def Let_def dest!: in_names_state split: prod.splits sum.splits if_splits)

lemma validate_ok: "state_ok st \<Longrightarrow> validate st s = (Inr (), s)"
  unfolding state_ok_def validate_def Let_def
  by (simp add: in_names_text list_all_iff filter_empty_conv)

lemma validate_accepts: "validate st s = (Inr u, t) \<Longrightarrow> state_ok st"
  unfolding state_ok_def validate_def Let_def
  by (auto simp: ebind_eq_Inr eguard_def in_names_True list_all_iff filter_empty_conv split: if_splits)

lemma triple_validate: "triple P (validate st) (\<lambda>_ s. P s \<and> state_ok st) (\<lambda>_ s. P s \<and> \<not> state_ok st)"
proof (rule tripleI)
  fix s assume P: "P s"
  obtain r t where v: "validate st s = (r, t)" by (cases "validate st s")
  have "t = s" using v by (rule validate_state)
  then show "case validate st s of (Inl e, t) \<Rightarrow> P t \<and> \<not> state_ok st | (Inr x, t) \<Rightarrow> P t \<and> state_ok st"
    using P v validate_ok [of st s] validate_accepts [of st s] by (cases r) auto
qed

lemma from_document_asdict: "state_ok st \<Longrightarrow> from_document (asdict st) s = (Inr st, s)"
proof -
  assume ok: "state_ok st"
  have keys: "set (dict_keys (asdict st)) = set required_fields"
    by (simp add: asdict_def required_fields_def insert_commute)
  show ?thesis
    unfolding from_document_def keys
    using validate_ok [OF ok, of s] by (cases st) (simp add: asdict_def Let_def ebind_def)
qed

subsection \<open>What a trace leaves on disk\<close>

definition durable_step :: "event \<Rightarrow> transition_state option \<Rightarrow> transition_state option" where
  "durable_step ev r = (case ev of Saved st \<Rightarrow> Some st | Cleared \<Rightarrow> None | _ \<Rightarrow> r)"

definition durable :: "event list \<Rightarrow> transition_state option" where
  "durable tr = fold durable_step tr None"

lemma durable_Nil [simp]: "durable [] = None"
  by (simp add: durable_def)

lemma durable_append [simp]: "durable (p @ q) = fold durable_step q (durable p)"
  by (simp add: durable_def)

lemma durable_step_simps [simp]:
  "durable_step (Saved st) r = Some st" "durable_step Cleared r = None"
  "durable_step (Reconciled m c) r = r" "durable_step (Inspected obs) r = r"
  by (simp_all add: durable_step_def)

text \<open>The pool may differ from the last confirmed canonical form.\<close>

definition unsettled_step :: "event \<Rightarrow> bool \<Rightarrow> bool" where
  "unsettled_step ev b = (case ev of Reconciled _ _ \<Rightarrow> True | Cleared \<Rightarrow> False | _ \<Rightarrow> b)"

definition unsettled :: "event list \<Rightarrow> bool" where
  "unsettled tr = fold unsettled_step tr False"

lemma unsettled_Nil [simp]: "\<not> unsettled []"
  by (simp add: unsettled_def)

lemma unsettled_append [simp]: "unsettled (p @ q) = fold unsettled_step q (unsettled p)"
  by (simp add: unsettled_def)

lemma unsettled_step_simps [simp]:
  "unsettled_step (Saved st) b = b" "\<not> unsettled_step Cleared b"
  "unsettled_step (Reconciled m c) b" "unsettled_step (Inspected obs) b = b"
  by (simp_all add: unsettled_step_def)

text \<open>
  The order the code keeps: only valid records are written; the pool is reconciled only towards the form
  that the record on disk names; the record is removed only right after the pool was reconciled to separate
  homes and observed in that form.
\<close>

inductive recoverable :: "event list \<Rightarrow> bool" where
  rec_start: "recoverable []"
| rec_save: "recoverable tr \<Longrightarrow> state_ok st \<Longrightarrow> recoverable (tr @ [Saved st])"
| rec_reconcile: "recoverable tr \<Longrightarrow> durable tr = Some st \<Longrightarrow> ts_requested_mode st = PStr mode
    \<Longrightarrow> ts_checksum st = PStr checksum \<Longrightarrow> recoverable (tr @ [Reconciled mode checksum])"
| rec_inspect: "recoverable tr \<Longrightarrow> recoverable (tr @ [Inspected obs])"
| rec_clear: "recoverable tr \<Longrightarrow> tr = pre @ [Reconciled CANONICAL_HOME_MODE checksum, Inspected (Some obs)]
    \<Longrightarrow> obs_matches obs CANONICAL_HOME_MODE checksum \<Longrightarrow> recoverable (tr @ [Cleared])"

lemma recoverable_init: "recoverable (tr @ [ev]) \<Longrightarrow> recoverable tr"
  by (erule recoverable.cases) auto

lemma recoverable_prefix: "recoverable (p @ q) \<Longrightarrow> recoverable p"
proof (induction q rule: rev_induct)
  case (snoc ev q)
  then show ?case using recoverable_init [of "p @ q" ev] by simp
qed simp

lemma recoverable_durable_ok: "recoverable tr \<Longrightarrow> durable tr = Some st \<Longrightarrow> state_ok st"
  by (induction arbitrary: st rule: recoverable.induct) auto

lemma recoverable_unsettled: "recoverable tr \<Longrightarrow> unsettled tr \<Longrightarrow> durable tr \<noteq> None"
  by (induction rule: recoverable.induct) auto

subsection \<open>Every operation keeps the order\<close>

definition stored_of :: "transition_state option \<Rightarrow> stored option" where
  "stored_of r = map_option (\<lambda>st. JsonObject (asdict st)) r"

definition on_disk :: "bool \<Rightarrow> event list \<Rightarrow> 'w fixture \<Rightarrow> bool" where
  "on_disk d tr s \<longleftrightarrow> state_dir_exists s = d \<and> trace s = tr \<and> recoverable tr \<and> record_file s = stored_of (durable tr)"

lemma triple_disk: "(recoverable tr \<Longrightarrow> triple (on_disk d tr) m Q E) \<Longrightarrow> triple (on_disk d tr) m Q E"
  by (auto simp: triple_def on_disk_def)

lemma load_on_disk:
  assumes "on_disk d tr s"
  shows "store_load h s = (Inr (durable tr), s)"
proof (cases "durable tr")
  case None
  then show ?thesis using assms by (simp add: on_disk_def store_load_def stored_of_def ebind_def)
next
  case (Some st)
  have "state_ok st" using assms Some recoverable_durable_ok by (auto simp: on_disk_def)
  from from_document_asdict [OF this, of s] show ?thesis
    using assms Some by (simp add: on_disk_def store_load_def stored_of_def ebind_def etry_def)
qed

lemma triple_load [triple_rules]:
  "triple (on_disk d tr) (store_load h) (\<lambda>r s. on_disk d tr s \<and> r = durable tr) (\<lambda>_ _. False)"
  by (rule tripleI) (simp add: load_on_disk)

text \<open>When saving a record can fail: an invalid record, a missing directory, or a failing write.\<close>

definition writable :: "'w hooks \<Rightarrow> bool" where
  "writable h \<longleftrightarrow> (\<forall>w. \<exists>w'. hk_write h w = (Inr (), w'))"

lemma triple_save [triple_rules]:
  fixes h :: "'w hooks"
  shows "triple (on_disk d tr) (store_save h st) (\<lambda>_ s. on_disk d (tr @ [Saved st]) s \<and> state_ok st)
     (\<lambda>_ s. on_disk d tr s \<and> \<not> (state_ok st \<and> d \<and> writable h))"
proof (rule tripleI)
  fix s :: "'w fixture" assume s: "on_disk d tr s"
  obtain r t where v: "validate st s = (r, t)" by (cases "validate st s")
  have "t = s" using v by (rule validate_state)
  obtain wr w where wr: "hk_write h (pool s) = (wr, w)" by (cases "hk_write h (pool s)")
  show "case store_save h st s of (Inl e, t) \<Rightarrow> on_disk d tr t \<and> \<not> (state_ok st \<and> d \<and> writable h)
      | (Inr x, t) \<Rightarrow> on_disk d (tr @ [Saved st]) t \<and> state_ok st"
  proof (cases r)
    case (Inl e)
    then have "\<not> state_ok st" using v validate_ok [of st s] by auto
    then show ?thesis using Inl v \<open>t = s\<close> s by (simp add: store_save_def ebind_def)
  next
    case (Inr u)
    then have ok: "state_ok st" using v validate_accepts [of st s] by simp
    show ?thesis
    proof (cases "d \<and> (\<exists>u. wr = Inr u)")
      case True
      then show ?thesis using Inr v \<open>t = s\<close> s ok wr
        by (auto simp: store_save_def ebind_def require_state_dir_def os_call_def on_disk_def stored_of_def rec_save)
    next
      case False
      then have "\<not> (d \<and> writable h)" using wr by (auto simp: writable_def) (metis prod.inject)
      then show ?thesis using Inr False v \<open>t = s\<close> s wr
        by (cases wr) (auto simp: store_save_def ebind_def require_state_dir_def os_call_def on_disk_def)
    qed
  qed
qed

lemma triple_inspect [triple_rules]:
  "triple (on_disk d tr) (inspect_pool h) (\<lambda>obs. on_disk d (tr @ [Inspected (Some obs)]))
     (\<lambda>_. on_disk d (tr @ [Inspected None]))"
  by (rule tripleI) (auto simp: inspect_pool_def on_disk_def rec_inspect split: prod.splits sum.splits)

lemma triple_reconcile:
  assumes "durable tr = Some st" and "ts_requested_mode st = PStr mode" and "ts_checksum st = PStr checksum"
  shows "triple (on_disk d tr) (reconcile_pool h mode checksum) (\<lambda>_. on_disk d (tr @ [Reconciled mode checksum]))
     (\<lambda>_. on_disk d (tr @ [Reconciled mode checksum]))"
  using assms by (intro tripleI) (auto simp: reconcile_pool_def on_disk_def rec_reconcile split: prod.splits sum.splits)

lemma triple_clock [triple_rules]:
  fixes h :: "'w hooks"
  shows "triple (on_disk d tr) (read_clock h) (\<lambda>now s. on_disk d tr s \<and> (\<exists>w. now = fst (hk_clock h w))) E"
proof (rule tripleI)
  fix s :: "'w fixture" assume "on_disk d tr s"
  then have "on_disk d tr (s \<lparr> pool := snd (hk_clock h (pool s)) \<rparr>)" by (simp add: on_disk_def)
  then show "case read_clock h s of (Inl e, t) \<Rightarrow> E e t | (Inr now, t) \<Rightarrow> on_disk d tr t \<and> (\<exists>w. now = fst (hk_clock h w))"
    by (auto simp: read_clock_def case_prod_beta)
qed

lemma triple_clear:
  fixes h :: "'w hooks"
  assumes "tr = pre @ [Reconciled CANONICAL_HOME_MODE checksum, Inspected (Some obs)]"
    and "obs_matches obs CANONICAL_HOME_MODE checksum"
  shows "triple (on_disk d tr) (store_clear h)
     (\<lambda>_ s. record_file s = None \<and> (\<exists>tr'. on_disk d tr' s))
     (\<lambda>_ s. on_disk d tr s \<and> \<not> (\<forall>w. \<exists>w'. hk_unlink h w = (Inr (), w')))"
proof (rule tripleI)
  fix s :: "'w fixture" assume s: "on_disk d tr s"
  obtain ur w where ur: "hk_unlink h (pool s) = (ur, w)" by (cases "hk_unlink h (pool s)")
  show "case store_clear h s of (Inl e, t) \<Rightarrow> on_disk d tr t \<and> \<not> (\<forall>w. \<exists>w'. hk_unlink h w = (Inr (), w'))
      | (Inr x, t) \<Rightarrow> record_file t = None \<and> (\<exists>tr'. on_disk d tr' t)"
  proof (cases "record_file s = None")
    case True
    then show ?thesis using s by (auto simp: store_clear_def ebind_def)
  next
    case False
    show ?thesis
    proof (cases ur)
      case (Inl e)
      then have "\<not> (\<forall>w. \<exists>w'. hk_unlink h w = (Inr (), w'))" using ur by (metis prod.inject sum.distinct(1))
      then show ?thesis using Inl False s ur by (auto simp: store_clear_def ebind_def os_call_def on_disk_def)
    next
      case (Inr u)
      have "recoverable tr" using s by (simp add: on_disk_def)
      then have "recoverable (tr @ [Cleared])" using assms by (rule rec_clear)
      then show ?thesis using Inr False s ur
        by (auto simp: store_clear_def ebind_def os_call_def on_disk_def stored_of_def)
    qed
  qed
qed

text \<open>
  How a call fails: the blocked error after the failure was recorded, or an error of the store itself, which
  needs an invalid record, a missing state directory, or a failing write or unlink.
\<close>

definition store_works :: "'w hooks \<Rightarrow> bool" where
  "store_works h \<longleftrightarrow> writable h \<and> (\<forall>w. \<exists>w'. hk_unlink h w = (Inr (), w'))
     \<and> (\<forall>w. py_strip (fst (hk_clock h w)) \<noteq> [])"

definition recorded_failure :: "'w hooks \<Rightarrow> raised \<Rightarrow> 'w fixture \<Rightarrow> bool" where
  "recorded_failure h e s \<longleftrightarrow> (\<exists>cause st. e = blocked_error h cause \<and> record_file s = Some (JsonObject (asdict st))
     \<and> state_ok st \<and> ts_phase st = PStr ''unhealthy'' \<and> ts_diagnostics st = PStr (failure_text cause))"

definition failed :: "'w hooks \<Rightarrow> bool \<Rightarrow> bool \<Rightarrow> raised \<Rightarrow> 'w fixture \<Rightarrow> bool" where
  "failed h args d e s \<longleftrightarrow> (\<exists>tr. on_disk d tr s) \<and> (recorded_failure h e s \<or> \<not> (args \<and> d \<and> store_works h))"

lemma failedI: "on_disk d tr s \<Longrightarrow> \<not> (args \<and> d \<and> store_works h) \<Longrightarrow> failed h args d e s"
  by (auto simp: failed_def)

lemma failed_unlink:
  "on_disk d tr s \<and> \<not> (\<forall>w. \<exists>w'. hk_unlink h w = (Inr (), w')) \<Longrightarrow> failed h args d e s"
  unfolding failed_def store_works_def by blast

lemma clock_text: "store_works h \<Longrightarrow> valid_text (PStr (fst (hk_clock h w)))"
  by (simp add: store_works_def valid_text_def)

lemma triple_save_unhealthy:
  "triple (on_disk d tr) (save_unhealthy_from_state h st e)
     (\<lambda>_ s. (\<exists>tr'. on_disk d tr' s) \<and> recorded_failure h (blocked_error h e) s)
     (\<lambda>_ s. on_disk d tr s \<and> \<not> (state_ok st \<and> d \<and> store_works h))"
  unfolding save_unhealthy_from_state_def
proof (rule triple_bind [OF triple_clock triple_fact])
  fix now
  let ?st = "st \<lparr> ts_phase := PStr ''unhealthy'', ts_updated_at := PStr now, ts_diagnostics := PStr (failure_text e) \<rparr>"
  assume "\<exists>w. now = fst (hk_clock h w)"
  then have ok: "store_works h \<Longrightarrow> state_ok st \<Longrightarrow> state_ok ?st"
    using clock_text [of h] by (auto simp: state_ok_def text_fields_def text_in_def PHASES_def)
  show "triple (on_disk d tr) (store_save h ?st)
     (\<lambda>_ s. (\<exists>tr'. on_disk d tr' s) \<and> recorded_failure h (blocked_error h e) s)
     (\<lambda>_ s. on_disk d tr s \<and> \<not> (state_ok st \<and> d \<and> store_works h))"
  proof (rule triple_conseq [OF triple_save])
    fix s :: "'a fixture"
    assume s: "on_disk d (tr @ [Saved ?st]) s \<and> state_ok ?st"
    then have "record_file s = Some (JsonObject (asdict ?st))" by (simp add: on_disk_def stored_of_def)
    then show "(\<exists>tr'. on_disk d tr' s) \<and> recorded_failure h (blocked_error h e) s"
      using s unfolding recorded_failure_def by (intro conjI exI [of _ e] exI [of _ ?st]) auto
  next
    fix s :: "'a fixture"
    assume "on_disk d tr s \<and> \<not> (state_ok ?st \<and> d \<and> writable h)"
    then show "on_disk d tr s \<and> \<not> (state_ok st \<and> d \<and> store_works h)" using ok by (auto simp: store_works_def)
  qed
qed

lemma triple_unhealthy:
  assumes "state_ok st"
  shows "triple (on_disk d tr) (ebind (save_unhealthy_from_state h st e) (\<lambda>_. eraise (blocked_error h e))) Q
     (failed h args d)"
  by (rule triple_seq [OF triple_save_unhealthy]) (auto simp: failed_def assms intro!: triple_raise)

lemma triple_attempt:
  assumes "durable tr = Some st" and "ts_requested_mode st = PStr mode" and "ts_checksum st = PStr checksum"
    and "state_ok st"
  shows "triple (on_disk d tr)
     (etry (ebind (reconcile_pool h mode checksum) (\<lambda>_. ebind (inspect_pool h) (\<lambda>observed.
              ebind (require_observation observed mode checksum) (\<lambda>_. eret observed))))
        (\<lambda>e. ebind (save_unhealthy_from_state h st e) (\<lambda>_. eraise (blocked_error h e))))
     (\<lambda>obs s. on_disk d (tr @ [Reconciled mode checksum, Inspected (Some obs)]) s \<and> obs_matches obs mode checksum)
     (failed h args d)"
proof (rule triple_try)
  let ?Q = "\<lambda>obs s. on_disk d (tr @ [Reconciled mode checksum, Inspected (Some obs)]) s \<and> obs_matches obs mode checksum"
  let ?E = "\<lambda>_ s. \<exists>tr'. on_disk d tr' s"
  have req: "triple (on_disk d (tr @ [Reconciled mode checksum, Inspected (Some obs)]))
      (ebind (require_observation obs mode checksum) (\<lambda>_. eret obs)) ?Q ?E" for obs
    unfolding require_observation_def by (auto simp: triple_def ebind_def eguard_def)
  have ins: "triple (on_disk d (tr @ [Reconciled mode checksum]))
      (ebind (inspect_pool h) (\<lambda>obs. ebind (require_observation obs mode checksum) (\<lambda>_. eret obs))) ?Q ?E"
    using req by (intro triple_seq [OF triple_inspect]) auto
  show "triple (on_disk d tr) (ebind (reconcile_pool h mode checksum) (\<lambda>_. ebind (inspect_pool h) (\<lambda>observed.
              ebind (require_observation observed mode checksum) (\<lambda>_. eret observed)))) ?Q ?E"
    using ins by (intro triple_seq [OF triple_reconcile [OF assms(1-3)]]) auto
  show "triple (\<lambda>s. \<exists>tr'. on_disk d tr' s)
      (ebind (save_unhealthy_from_state h st e) (\<lambda>_. eraise (blocked_error h e))) ?Q (failed h args d)" for e
    by (intro triple_ex triple_unhealthy assms(4))
qed

lemma triple_reconcile_separate:
  assumes "state_ok identity"
  shows "triple (on_disk d tr) (reconcile_separate h identity checksum)
     (\<lambda>obs s. (\<exists>tr'. on_disk d tr' s) \<and> record_file s = None \<and> obs_matches obs CANONICAL_HOME_MODE checksum)
     (failed h (valid_text (PStr checksum)) d)" (is "triple _ _ ?Q ?E")
  unfolding reconcile_separate_def Let_def
proof (rule triple_bind [OF triple_clock triple_fact])
  fix now
  let ?st = "identity \<lparr> ts_requested_mode := PStr CANONICAL_HOME_MODE, ts_checksum := PStr checksum,
     ts_phase := PStr ''restoring-separate'', ts_updated_at := PStr now, ts_diagnostics := PStr [] \<rparr>"
  let ?attempt = "etry (ebind (reconcile_pool h CANONICAL_HOME_MODE checksum) (\<lambda>_. ebind (inspect_pool h) (\<lambda>observed.
       ebind (require_observation observed CANONICAL_HOME_MODE checksum) (\<lambda>_. eret observed))))
     (\<lambda>e. ebind (save_unhealthy_from_state h ?st e) (\<lambda>_. eraise (blocked_error h e)))"
  assume "\<exists>w. now = fst (hk_clock h w)"
  then have ok: "store_works h \<Longrightarrow> valid_text (PStr checksum) \<Longrightarrow> state_ok ?st"
    using assms clock_text [of h] by (auto simp: state_ok_def text_fields_def text_in_def PHASES_def HOME_MODES_def)
  have clear: "triple (\<lambda>s. on_disk d (tr @ [Saved ?st] @ [Reconciled CANONICAL_HOME_MODE checksum, Inspected (Some obs)]) s
       \<and> obs_matches obs CANONICAL_HOME_MODE checksum)
     (ebind (store_clear h) (\<lambda>_. eret obs)) ?Q ?E" for obs
    by (rule triple_fact, rule triple_seq [OF triple_clear [OF append_assoc [symmetric]] failed_unlink])
      (auto intro: triple_ret)
  have rest: "triple (\<lambda>s. on_disk d (tr @ [Saved ?st]) s \<and> state_ok ?st)
     (ebind ?attempt (\<lambda>observed. ebind (store_clear h) (\<lambda>_. eret observed))) ?Q ?E"
    by (rule triple_fact, rule triple_bind [OF triple_attempt [where st = ?st]])
      (use clear in auto)
  show "triple (on_disk d tr) (ebind (store_save h ?st) (\<lambda>_. ebind ?attempt (\<lambda>observed. ebind (store_clear h) (\<lambda>_. eret observed)))) ?Q ?E"
    by (rule triple_seq [OF triple_save _ rest]) (use ok in \<open>auto simp: store_works_def intro: failedI\<close>)
qed

lemma triple_new_state:
  "triple P (new_state run_id scenario_id prior requested checksum phase now)
     (\<lambda>st s. P s \<and> state_ok st \<and> ts_requested_mode st = PStr requested \<and> ts_checksum st = PStr checksum
        \<and> ts_phase st = PStr phase \<and> ts_run_id st = PStr run_id \<and> ts_prior_mode st = PStr prior)
     (\<lambda>_ s. P s \<and> \<not> (prior \<in> set POOL_MODES \<and> requested \<in> set HOME_MODES \<and> phase \<in> set PHASES
        \<and> list_all (\<lambda>t. valid_text (PStr t)) [run_id, scenario_id, checksum, now]))"
  unfolding new_state_def Let_def
  by (rule triple_seq [OF triple_validate])
    (auto simp: state_ok_def text_fields_def text_in_def STATE_SCHEMA_def intro!: triple_ret)

definition args_ok :: "string list \<Rightarrow> bool" where
  "args_ok args \<longleftrightarrow> list_all (\<lambda>t. valid_text (PStr t)) args"

text \<open>The identity of the transition: the retained record, else a new one.\<close>

lemma triple_identity:
  assumes "\<And>st. retained = Some st \<Longrightarrow> state_ok st" and "prior \<in> set POOL_MODES" and "phase \<in> set PHASES"
  shows "triple (on_disk d tr)
     (case retained of Some st \<Rightarrow> eret st
      | None \<Rightarrow> ebind (read_clock h) (\<lambda>now. new_state run_id scenario_id prior CANONICAL_HOME_MODE checksum phase now))
     (\<lambda>st s. on_disk d tr s \<and> state_ok st)
     (failed h (args_ok [run_id, scenario_id, checksum]) d)"
proof (cases retained)
  case (Some st)
  then show ?thesis using assms(1) by (simp add: triple_ret del: eff_simps)
next
  case None
  have "triple (\<lambda>s. on_disk d tr s \<and> (\<exists>w. now = fst (hk_clock h w)))
      (new_state run_id scenario_id prior CANONICAL_HOME_MODE checksum phase now)
      (\<lambda>st s. on_disk d tr s \<and> state_ok st) (failed h (args_ok [run_id, scenario_id, checksum]) d)" for now
  proof (rule triple_fact, rule triple_conseq [OF triple_new_state])
    assume "\<exists>w. now = fst (hk_clock h w)"
    then have "store_works h \<Longrightarrow> valid_text (PStr now)" using clock_text [of h] by auto
    then show "failed h (args_ok [run_id, scenario_id, checksum]) d e s"
      if "on_disk d tr s \<and> \<not> (prior \<in> set POOL_MODES \<and> CANONICAL_HOME_MODE \<in> set HOME_MODES \<and> phase \<in> set PHASES
        \<and> list_all (\<lambda>t. valid_text (PStr t)) [run_id, scenario_id, checksum, now])" for e s
      using that assms(2,3) by (intro failedI [of d tr]) (auto simp: args_ok_def HOME_MODES_def)
  qed auto
  then show ?thesis using None by (auto intro: triple_bind [OF triple_clock])
qed

lemma failed_mono: "failed h a d e s \<Longrightarrow> (b \<Longrightarrow> a) \<Longrightarrow> failed h b d e s"
  unfolding failed_def by blast

definition settled_separate :: "bool \<Rightarrow> string \<Rightarrow> pool_observation \<Rightarrow> 'w fixture \<Rightarrow> bool" where
  "settled_separate d checksum obs s \<longleftrightarrow>
     (\<exists>tr. on_disk d tr s) \<and> record_file s = None \<and> obs_matches obs CANONICAL_HOME_MODE checksum"

lemma triple_settle:
  assumes "\<And>st. retained = Some st \<Longrightarrow> state_ok st" and "prior \<in> set POOL_MODES" and "phase \<in> set PHASES"
  shows "triple (on_disk d tr)
     (ebind (case retained of Some st \<Rightarrow> eret st
        | None \<Rightarrow> ebind (read_clock h) (\<lambda>now. new_state run_id scenario_id prior CANONICAL_HOME_MODE checksum phase now))
        (\<lambda>identity. reconcile_separate h identity checksum))
     (settled_separate d checksum) (failed h (args_ok [run_id, scenario_id, checksum]) d)"
proof (rule triple_bind [OF triple_identity [OF assms] triple_fact])
  fix identity assume "state_ok identity"
  then show "triple (on_disk d tr) (reconcile_separate h identity checksum) (settled_separate d checksum)
      (failed h (args_ok [run_id, scenario_id, checksum]) d)"
    by (rule triple_conseq [OF triple_reconcile_separate]) (auto simp: settled_separate_def args_ok_def elim: failed_mono)
qed

lemma triple_save_unhealthy_new:
  assumes "\<And>st. retained = Some st \<Longrightarrow> state_ok st"
  shows "triple (on_disk d tr)
     (ebind (save_unhealthy h retained run_id scenario_id UNKNOWN_HOME_MODE CANONICAL_HOME_MODE checksum e)
        (\<lambda>_. eraise (blocked_error h e))) Q (failed h (args_ok [run_id, scenario_id, checksum]) d)"
  (is "triple _ _ _ ?E")
proof -
  have save: "triple (\<lambda>s. on_disk d tr s \<and> (valid_text (PStr checksum) \<longrightarrow> state_ok st))
      (save_unhealthy_from_state h st e)
      (\<lambda>_ s. (\<exists>tr'. on_disk d tr' s) \<and> recorded_failure h (blocked_error h e) s) ?E" for st
    by (rule triple_fact, rule triple_conseq [OF triple_save_unhealthy]) (auto simp: args_ok_def intro: failedI)
  have "triple (on_disk d tr)
      (save_unhealthy h retained run_id scenario_id UNKNOWN_HOME_MODE CANONICAL_HOME_MODE checksum e)
      (\<lambda>_ s. (\<exists>tr'. on_disk d tr' s) \<and> recorded_failure h (blocked_error h e) s) ?E"
    unfolding save_unhealthy_def
  proof (cases retained)
    case (Some st)
    then have "valid_text (PStr checksum) \<longrightarrow>
        state_ok (st \<lparr> ts_requested_mode := PStr CANONICAL_HOME_MODE, ts_checksum := PStr checksum \<rparr>)"
      using assms by (auto simp: state_ok_def text_fields_def text_in_def HOME_MODES_def)
    then show "triple (on_disk d tr) (ebind (case retained of
         Some st \<Rightarrow> eret (st \<lparr> ts_requested_mode := PStr CANONICAL_HOME_MODE, ts_checksum := PStr checksum \<rparr>)
       | None \<Rightarrow> ebind (read_clock h) (\<lambda>now.
           new_state run_id scenario_id UNKNOWN_HOME_MODE CANONICAL_HOME_MODE checksum ''unhealthy'' now)) (\<lambda>st.
         save_unhealthy_from_state h st e))
       (\<lambda>_ s. (\<exists>tr'. on_disk d tr' s) \<and> recorded_failure h (blocked_error h e) s) ?E"
      using Some by (simp add: triple_pre [OF save])
  next
    case None
    have "triple (on_disk d tr) (ebind (read_clock h) (\<lambda>now.
           new_state run_id scenario_id UNKNOWN_HOME_MODE CANONICAL_HOME_MODE checksum ''unhealthy'' now))
         (\<lambda>st s. on_disk d tr s \<and> state_ok st) ?E"
      using triple_identity [of None UNKNOWN_HOME_MODE "''unhealthy''"] by (simp add: POOL_MODES_def PHASES_def)
    then show "triple (on_disk d tr) (ebind (case retained of
         Some st \<Rightarrow> eret (st \<lparr> ts_requested_mode := PStr CANONICAL_HOME_MODE, ts_checksum := PStr checksum \<rparr>)
       | None \<Rightarrow> ebind (read_clock h) (\<lambda>now.
           new_state run_id scenario_id UNKNOWN_HOME_MODE CANONICAL_HOME_MODE checksum ''unhealthy'' now)) (\<lambda>st.
         save_unhealthy_from_state h st e))
       (\<lambda>_ s. (\<exists>tr'. on_disk d tr' s) \<and> recorded_failure h (blocked_error h e) s) ?E"
      unfolding None option.case by (rule triple_bind) (rule triple_pre [OF save], simp)
  qed
  then show ?thesis by (rule triple_bind) (auto simp: failed_def intro!: triple_raise)
qed

lemma triple_preflight:
  "triple (on_disk d tr) (preflight h checksum run_id scenario_id) (settled_separate d checksum)
     (failed h (args_ok [run_id, scenario_id, checksum]) d)" (is "triple _ _ ?Q ?E")
  unfolding preflight_def
proof (rule triple_seq [OF triple_load])
  fix retained
  show "triple (\<lambda>s. on_disk d tr s \<and> retained = durable tr)
     (ebind (etry (inspect_pool h)
              (\<lambda>e. ebind (save_unhealthy h retained run_id scenario_id UNKNOWN_HOME_MODE CANONICAL_HOME_MODE
                            checksum e) (\<lambda>_. eraise (blocked_error h e)))) (\<lambda>observed.
     if retained = None \<and> obs_matches observed CANONICAL_HOME_MODE checksum then eret observed
     else ebind (case retained of
              Some st \<Rightarrow> eret st
            | None \<Rightarrow> ebind (read_clock h) (\<lambda>now. new_state run_id scenario_id (known_mode (home_mode observed))
                CANONICAL_HOME_MODE checksum ''restoring-separate'' now)) (\<lambda>identity.
          reconcile_separate h identity checksum))) ?Q ?E"
  proof (rule triple_fact, rule triple_disk, rule triple_bind)
    assume r: "retained = durable tr" and "recoverable tr"
    then have ok: "\<And>st. retained = Some st \<Longrightarrow> state_ok st" using recoverable_durable_ok [of tr] by simp
    show "triple (on_disk d tr) (etry (inspect_pool h)
         (\<lambda>e. ebind (save_unhealthy h retained run_id scenario_id UNKNOWN_HOME_MODE CANONICAL_HOME_MODE
              checksum e) (\<lambda>_. eraise (blocked_error h e)))) (\<lambda>obs. on_disk d (tr @ [Inspected (Some obs)])) ?E"
      by (rule triple_try [OF triple_inspect triple_save_unhealthy_new [OF ok]])
    fix observed
    show "triple (on_disk d (tr @ [Inspected (Some observed)]))
       (if retained = None \<and> obs_matches observed CANONICAL_HOME_MODE checksum then eret observed
        else ebind (case retained of
              Some st \<Rightarrow> eret st
            | None \<Rightarrow> ebind (read_clock h) (\<lambda>now. new_state run_id scenario_id (known_mode (home_mode observed))
                CANONICAL_HOME_MODE checksum ''restoring-separate'' now)) (\<lambda>identity.
          reconcile_separate h identity checksum)) ?Q ?E"
    proof (cases "retained = None \<and> obs_matches observed CANONICAL_HOME_MODE checksum")
      case True
      then have "triple (on_disk d (tr @ [Inspected (Some observed)])) (eret observed) ?Q ?E"
        using r by (intro triple_ret) (auto simp: settled_separate_def, simp add: on_disk_def stored_of_def)
      then show ?thesis using True by simp
    next
      case False
      have "known_mode (home_mode observed) \<in> set POOL_MODES"
        by (simp add: known_mode_def POOL_MODES_def HOME_MODES_def)
      then have "triple (on_disk d (tr @ [Inspected (Some observed)]))
         (ebind (case retained of
              Some st \<Rightarrow> eret st
            | None \<Rightarrow> ebind (read_clock h) (\<lambda>now. new_state run_id scenario_id (known_mode (home_mode observed))
                CANONICAL_HOME_MODE checksum ''restoring-separate'' now)) (\<lambda>identity.
          reconcile_separate h identity checksum)) ?Q ?E" by (intro triple_settle ok) (simp_all add: PHASES_def)
      then show ?thesis unfolding if_not_P [OF False] .
    qed
  qed
qed simp

lemma triple_restore:
  "triple (on_disk d tr) (restore_separate h checksum run_id scenario_id) (settled_separate d checksum)
     (failed h (args_ok [run_id, scenario_id, checksum]) d)"
  unfolding restore_separate_def
proof (rule triple_seq [OF triple_load], simp, rule triple_fact, rule triple_disk, rule triple_settle)
  show "retained = durable tr \<Longrightarrow> recoverable tr \<Longrightarrow> retained = Some st \<Longrightarrow> state_ok st" for retained st
    using recoverable_durable_ok by simp
qed (simp_all add: POOL_MODES_def HOME_MODES_def PHASES_def)

text \<open>After a shared batch was entered, its record is on disk and the pool was observed in the shared form.\<close>

definition shared_ready :: "bool \<Rightarrow> string \<Rightarrow> string \<Rightarrow> pool_observation \<Rightarrow> 'w fixture \<Rightarrow> bool" where
  "shared_ready d run_id checksum obs s \<longleftrightarrow> (\<exists>tr. on_disk d tr s) \<and> obs_matches obs SHARED_HOME_MODE checksum
     \<and> (\<exists>st. record_file s = Some (JsonObject (asdict st)) \<and> state_ok st \<and> ts_run_id st = PStr run_id
          \<and> ts_prior_mode st = PStr CANONICAL_HOME_MODE \<and> ts_requested_mode st = PStr SHARED_HOME_MODE
          \<and> ts_checksum st = PStr checksum \<and> ts_phase st = PStr ''shared-ready'')"

lemma triple_mark_ready:
  assumes st: "state_ok st" "ts_run_id st = PStr run_id" "ts_prior_mode st = PStr CANONICAL_HOME_MODE"
      "ts_requested_mode st = PStr SHARED_HOME_MODE" "ts_checksum st = PStr checksum"
    and obs: "obs_matches obs SHARED_HOME_MODE checksum"
  shows "triple (on_disk d tr)
     (ebind (read_clock h) (\<lambda>later.
      ebind (store_save h (st \<lparr> ts_phase := PStr ''shared-ready'', ts_updated_at := PStr later \<rparr>)) (\<lambda>_. eret obs)))
     (shared_ready d run_id checksum) (failed h args d)"
proof (rule triple_bind [OF triple_clock triple_fact])
  fix later
  let ?st = "st \<lparr> ts_phase := PStr ''shared-ready'', ts_updated_at := PStr later \<rparr>"
  assume "\<exists>w. later = fst (hk_clock h w)"
  then have ok: "store_works h \<Longrightarrow> state_ok ?st"
    using st(1) clock_text [of h] by (auto simp: state_ok_def text_fields_def text_in_def PHASES_def)
  have ready: "shared_ready d run_id checksum obs s" if "on_disk d (tr @ [Saved ?st]) s \<and> state_ok ?st" for s :: "'a fixture"
    unfolding shared_ready_def using that st obs
    by (auto simp: on_disk_def stored_of_def intro!: exI [of _ ?st])
  show "triple (on_disk d tr) (ebind (store_save h ?st) (\<lambda>_. eret obs)) (shared_ready d run_id checksum) (failed h args d)"
    by (rule triple_seq [OF triple_save]) (use ok ready in \<open>auto simp: store_works_def intro: failedI intro!: triple_ret\<close>)
qed

lemma triple_enter:
  "triple (on_disk d tr) (enter_shared h run_id scenario_id separate_checksum shared_checksum)
     (shared_ready d run_id shared_checksum)
     (failed h (args_ok [run_id, scenario_id, separate_checksum, shared_checksum]) d)" (is "triple _ _ ?Q ?E")
  unfolding enter_shared_def
proof (rule triple_seq [OF triple_preflight])
  show "failed h (args_ok [run_id, scenario_id, separate_checksum]) d e s \<Longrightarrow> ?E e s" for e s
    by (erule failed_mono) (simp add: args_ok_def)
next
  fix observed
  let ?attempt = "\<lambda>st. etry (ebind (reconcile_pool h SHARED_HOME_MODE shared_checksum) (\<lambda>_.
                  ebind (inspect_pool h) (\<lambda>observed.
                  ebind (require_observation observed SHARED_HOME_MODE shared_checksum) (\<lambda>_. eret observed))))
            (\<lambda>e. ebind (save_unhealthy_from_state h st e) (\<lambda>_. eraise (blocked_error h e)))"
  let ?mark = "\<lambda>st observed. ebind (read_clock h) (\<lambda>later.
     ebind (store_save h (st \<lparr> ts_phase := PStr ''shared-ready'', ts_updated_at := PStr later \<rparr>)) (\<lambda>_. eret observed))"
  let ?good = "\<lambda>st. state_ok st \<and> ts_requested_mode st = PStr SHARED_HOME_MODE \<and> ts_checksum st = PStr shared_checksum
     \<and> ts_phase st = PStr ''applying-shared'' \<and> ts_run_id st = PStr run_id \<and> ts_prior_mode st = PStr CANONICAL_HOME_MODE"
  have mark: "triple (\<lambda>s. on_disk d (tr' @ [Saved st] @ [Reconciled SHARED_HOME_MODE shared_checksum, Inspected (Some obs)]) s
        \<and> obs_matches obs SHARED_HOME_MODE shared_checksum) (?mark st obs) ?Q ?E" if "?good st" for st tr' obs
    by (rule triple_fact, rule triple_mark_ready) (use that in auto)
  have try_it: "triple (\<lambda>s. on_disk d (tr' @ [Saved st]) s \<and> state_ok st) (ebind (?attempt st) (?mark st)) ?Q ?E" if "?good st" for st tr'
    by (rule triple_fact, rule triple_bind [OF triple_attempt [where st = st]]) (use that mark in auto)
  have save: "triple (\<lambda>s. on_disk d tr' s \<and> ?good st) (ebind (store_save h st) (\<lambda>_. ebind (?attempt st) (?mark st))) ?Q ?E" for st tr'
    by (rule triple_fact, rule triple_seq [OF triple_save _ try_it]) (auto simp: store_works_def intro: failedI)
  have new: "triple (\<lambda>s. on_disk d tr' s \<and> (\<exists>w. now = fst (hk_clock h w)))
     (ebind (new_state run_id scenario_id CANONICAL_HOME_MODE SHARED_HOME_MODE shared_checksum ''applying-shared'' now) (\<lambda>st.
      ebind (store_save h st) (\<lambda>_. ebind (?attempt st) (?mark st)))) ?Q ?E" for now tr'
  proof (rule triple_fact, rule triple_seq [OF triple_new_state _ save])
    assume "\<exists>w. now = fst (hk_clock h w)"
    then have "store_works h \<Longrightarrow> valid_text (PStr now)" using clock_text [of h] by auto
    then show "?E e s" if "on_disk d tr' s \<and> \<not> (CANONICAL_HOME_MODE \<in> set POOL_MODES \<and> SHARED_HOME_MODE \<in> set HOME_MODES
        \<and> ''applying-shared'' \<in> set PHASES \<and> list_all (\<lambda>t. valid_text (PStr t)) [run_id, scenario_id, shared_checksum, now])" for e s
      using that by (intro failedI [of d tr']) (auto simp: args_ok_def HOME_MODES_def POOL_MODES_def PHASES_def)
  qed
  show "triple (settled_separate d separate_checksum observed)
     (ebind (read_clock h) (\<lambda>now.
      ebind (new_state run_id scenario_id CANONICAL_HOME_MODE SHARED_HOME_MODE shared_checksum ''applying-shared'' now) (\<lambda>st.
      ebind (store_save h st) (\<lambda>_. ebind (?attempt st) (?mark st))))) ?Q ?E"
    by (rule triple_pre [OF triple_ex [OF triple_bind [OF triple_clock new]]]) (auto simp: settled_separate_def)
qed

subsection \<open>Runs, crashes and recovery\<close>

datatype call =
    Preflight string string string
  | EnterShared string string string string
  | RestoreSeparate string string string

fun api :: "'w hooks \<Rightarrow> call \<Rightarrow> ('w fixture, pool_observation) eff" where
  "api h (Preflight checksum run_id scenario_id) = preflight h checksum run_id scenario_id"
| "api h (EnterShared run_id scenario_id separate shared) = enter_shared h run_id scenario_id separate shared"
| "api h (RestoreSeparate checksum run_id scenario_id) = restore_separate h checksum run_id scenario_id"

text \<open>
  The fixtures that runs of the integration tests can leave behind: a new one; one changed by a call, however
  it ends; one whose run was killed during a call, after any part of its effects (the pool is then in any
  condition); and one whose pool changed on its own.
\<close>

inductive reachable :: "'w hooks \<Rightarrow> 'w fixture \<Rightarrow> bool" for h where
  fresh: "reachable h \<lparr> state_dir_exists = d, record_file = None, pool = w, trace = [] \<rparr>"
| called: "reachable h s \<Longrightarrow> reachable h (snd (api h c s))"
| killed: "reachable h s \<Longrightarrow> trace (snd (api h c s)) = trace s @ p @ q
    \<Longrightarrow> reachable h (s \<lparr> record_file := stored_of (durable (trace s @ p)), pool := w, trace := trace s @ p \<rparr>)"
| drifted: "reachable h s \<Longrightarrow> reachable h (s \<lparr> pool := w \<rparr>)"

lemma triple_api:
  "triple (on_disk d tr) (api h c) (\<lambda>_ s. \<exists>tr'. on_disk d tr' s) (\<lambda>_ s. \<exists>tr'. on_disk d tr' s)"
proof (cases c)
  case (Preflight a b c)
  then show ?thesis by (auto intro: triple_conseq [OF triple_preflight] simp: settled_separate_def failed_def)
next
  case (EnterShared a b c d)
  then show ?thesis by (auto intro: triple_conseq [OF triple_enter] simp: shared_ready_def failed_def)
next
  case (RestoreSeparate a b c)
  then show ?thesis by (auto intro: triple_conseq [OF triple_restore] simp: settled_separate_def failed_def)
qed

lemma api_on_disk: "on_disk d tr s \<Longrightarrow> \<exists>tr'. on_disk d tr' (snd (api h c s))"
  using triple_api [of d tr h c] by (cases "api h c s"; cases "fst (api h c s)") (fastforce simp: triple_def)+

lemma reachable_on_disk: "reachable h s \<Longrightarrow> on_disk (state_dir_exists s) (trace s) s"
proof (induction rule: reachable.induct)
  case (fresh d w)
  then show ?case by (simp add: on_disk_def stored_of_def rec_start)
next
  case (called s c)
  from api_on_disk [OF called.IH, of h c] show ?case by (auto simp: on_disk_def)
next
  case (killed s c p q w)
  from api_on_disk [OF killed.IH, of h c] have "recoverable (trace (snd (api h c s)))" by (auto simp: on_disk_def)
  then have "recoverable ((trace s @ p) @ q)" unfolding killed.hyps(2) by simp
  then have "recoverable (trace s @ p)" by (rule recoverable_prefix)
  then show ?case by (simp add: on_disk_def)
next
  case (drifted s w)
  then show ?case by (simp add: on_disk_def)
qed

text \<open>C1. The transition record is written ahead of every change of the pool. Whatever calls were made, failed
  or were killed half-way, in every condition a run can leave behind: if the pool was reconciled since it was
  last confirmed in its separate form, the record file is there; and whenever the file is there, reading it
  gives a valid record.\<close>

theorem transition_is_recoverable:
  assumes "reachable h s"
  shows "(unsettled (trace s) \<longrightarrow> record_file s \<noteq> None)
    \<and> (\<exists>r. store_load h s = (Inr r, s) \<and> record_file s = stored_of r \<and> (\<forall>st. r = Some st \<longrightarrow> state_ok st))"
proof -
  note s = reachable_on_disk [OF assms]
  then have tr: "recoverable (trace s)" and stored: "record_file s = stored_of (durable (trace s))"
    by (simp_all add: on_disk_def)
  have "unsettled (trace s) \<longrightarrow> record_file s \<noteq> None"
    using recoverable_unsettled [OF tr] by (auto simp: stored stored_of_def)
  then show ?thesis using load_on_disk [OF s, of h] stored recoverable_durable_ok [OF tr] by blast
qed

text \<open>A preflight that returns, and likewise a restore, leaves no record and returns an observation of two
  ready pods with separate homes and the requested configuration; entering the shared mode returns an
  observation of the shared form and leaves a record that says so.\<close>

theorem transition_calls_establish:
  assumes "reachable h s"
  shows "(\<forall>obs t. preflight h checksum run_id scenario_id s = (Inr obs, t) \<longrightarrow> settled_separate (state_dir_exists s) checksum obs t)
    \<and> (\<forall>obs t. restore_separate h checksum run_id scenario_id s = (Inr obs, t) \<longrightarrow> settled_separate (state_dir_exists s) checksum obs t)
    \<and> (\<forall>obs t. enter_shared h run_id scenario_id checksum shared s = (Inr obs, t) \<longrightarrow> shared_ready (state_dir_exists s) run_id shared obs t)"
  using triple_returned [OF triple_preflight reachable_on_disk [OF assms]]
    triple_returned [OF triple_restore reachable_on_disk [OF assms]]
    triple_returned [OF triple_enter reachable_on_disk [OF assms]] by blast

lemma failure_text_bounded: "length (failure_text e) \<le> MAX_FAILURE_DIAGNOSTICS"
  by (simp add: failure_text_def Let_def)

text \<open>C16. When the state directory can be written, a call with proper arguments that fails leaves a valid record in
  phase unhealthy, whose diagnostics are the end of the text of the cause, at most 8000 characters of it, and
  raises the error that names the record and the cause.\<close>

theorem failure_is_recorded:
  assumes "reachable h s" and "state_dir_exists s" and "store_works h"
    and "args_ok [run_id, scenario_id, separate, shared]"
    and "preflight h separate run_id scenario_id s = (Inl e, t)
      \<or> restore_separate h separate run_id scenario_id s = (Inl e, t)
      \<or> enter_shared h run_id scenario_id separate shared s = (Inl e, t)"
  shows "\<exists>cause st text. e = blocked_error h cause \<and> record_file t = Some (JsonObject (asdict st)) \<and> state_ok st
    \<and> ts_phase st = PStr ''unhealthy'' \<and> ts_diagnostics st = PStr text
    \<and> suffix text (py_strip (raised_class cause @ '': '' @ raised_text cause)) \<and> length text \<le> MAX_FAILURE_DIAGNOSTICS"
proof -
  note s = reachable_on_disk [OF assms(1)]
  have three: "args_ok [run_id, scenario_id, separate]" using assms(4) by (simp add: args_ok_def)
  have "recorded_failure h e t"
    using assms(5) triple_raised [OF triple_preflight s] triple_raised [OF triple_restore s]
      triple_raised [OF triple_enter s] assms(2-4) three unfolding failed_def by blast
  then obtain cause st where "e = blocked_error h cause" and "record_file t = Some (JsonObject (asdict st))"
    and "state_ok st" and "ts_phase st = PStr ''unhealthy''" and "ts_diagnostics st = PStr (failure_text cause)"
    unfolding recorded_failure_def by blast
  then show ?thesis using failure_text_bounded [of cause]
    by (intro exI [of _ cause] exI [of _ st] exI [of _ "failure_text cause"])
      (auto simp: failure_text_def Let_def suffix_drop)
qed

subsection \<open>A healthy pool is always recovered\<close>

definition heals :: "'w hooks \<Rightarrow> string \<Rightarrow> bool" where
  "heals h checksum \<longleftrightarrow> (\<forall>w. \<exists>obs w'. hk_inspect h w = (Inr obs, w'))
     \<and> (\<forall>w. \<exists>w' obs w''. hk_reconcile h CANONICAL_HOME_MODE checksum w = (Inr (), w')
          \<and> hk_inspect h w' = (Inr obs, w'') \<and> obs_matches obs CANONICAL_HOME_MODE checksum)"

lemma attempt_heals:
  assumes "heals h checksum"
  shows "\<exists>obs t. etry (ebind (reconcile_pool h CANONICAL_HOME_MODE checksum) (\<lambda>_. ebind (inspect_pool h) (\<lambda>observed.
       ebind (require_observation observed CANONICAL_HOME_MODE checksum) (\<lambda>_. eret observed)))) f s = (Inr obs, t)"
proof -
  obtain w' obs w'' where "hk_reconcile h CANONICAL_HOME_MODE checksum (pool s) = (Inr (), w')"
    and "hk_inspect h w' = (Inr obs, w'')" and "obs_matches obs CANONICAL_HOME_MODE checksum"
    using assms unfolding heals_def by blast
  then show ?thesis
    by (simp add: etry_def ebind_def reconcile_pool_def inspect_pool_def require_observation_def)
qed

lemma clear_works: "store_works h \<Longrightarrow> \<exists>t. store_clear h s = (Inr (), t)"
proof -
  assume "store_works h"
  then obtain w' where "hk_unlink h (pool s) = (Inr (), w')" unfolding store_works_def by blast
  then show ?thesis by (simp add: store_clear_def ebind_def os_call_def)
qed

lemma save_works:
  assumes "store_works h" and "state_dir_exists s" and "state_ok st"
  shows "\<exists>t. store_save h st s = (Inr (), t)"
proof -
  obtain w' where "hk_write h (pool s) = (Inr (), w')" using assms(1) unfolding store_works_def writable_def by blast
  then show ?thesis using assms(2) validate_ok [OF assms(3), of s]
    by (simp add: store_save_def ebind_def require_state_dir_def os_call_def)
qed

lemma reconcile_separate_heals:
  assumes "store_works h" and "heals h checksum" and "state_ok identity" and "valid_text (PStr checksum)"
    and "state_dir_exists s"
  shows "\<exists>obs t. reconcile_separate h identity checksum s = (Inr obs, t)"
proof -
  obtain now w where clk: "hk_clock h (pool s) = (now, w)" by (cases "hk_clock h (pool s)")
  let ?s = "s \<lparr> pool := w \<rparr>"
  let ?st = "identity \<lparr> ts_requested_mode := PStr CANONICAL_HOME_MODE, ts_checksum := PStr checksum,
     ts_phase := PStr ''restoring-separate'', ts_updated_at := PStr now, ts_diagnostics := PStr [] \<rparr>"
  have "valid_text (PStr now)" using clock_text [OF assms(1), of "pool s"] clk by simp
  then have "state_ok ?st" using assms(3,4) by (auto simp: state_ok_def text_fields_def text_in_def PHASES_def HOME_MODES_def)
  then obtain t1 where t1: "store_save h ?st ?s = (Inr (), t1)" using save_works [OF assms(1), of ?s] assms(5) by auto
  obtain obs t2 where t2: "etry (ebind (reconcile_pool h CANONICAL_HOME_MODE checksum) (\<lambda>_. ebind (inspect_pool h) (\<lambda>observed.
       ebind (require_observation observed CANONICAL_HOME_MODE checksum) (\<lambda>_. eret observed))))
     (\<lambda>e. ebind (save_unhealthy_from_state h ?st e) (\<lambda>_. eraise (blocked_error h e))) t1 = (Inr obs, t2)"
    using attempt_heals [OF assms(2)] by blast
  obtain t3 where t3: "store_clear h t2 = (Inr (), t3)" using clear_works [OF assms(1)] by blast
  have "read_clock h s = (Inr now, ?s)" by (simp add: read_clock_def clk)
  then show ?thesis unfolding reconcile_separate_def Let_def
    by (simp add: ebind_Inr [of _ s] ebind_Inr [of _ ?s] t1 ebind_Inr [of _ t1] t2 ebind_Inr [of _ t2] t3)
qed

lemma identity_heals:
  assumes "store_works h" and "args_ok [run_id, scenario_id, checksum]" and "\<And>st. retained = Some st \<Longrightarrow> state_ok st"
    and "state_dir_exists s"
  shows "\<exists>st t. (case retained of Some st \<Rightarrow> eret st
       | None \<Rightarrow> ebind (read_clock h) (\<lambda>now. new_state run_id scenario_id (known_mode m)
                CANONICAL_HOME_MODE checksum ''restoring-separate'' now)) s = (Inr st, t) \<and> state_ok st \<and> state_dir_exists t"
proof (cases retained)
  case (Some st)
  then show ?thesis using assms(3,4) by simp
next
  case None
  obtain now w where clk: "hk_clock h (pool s) = (now, w)" by (cases "hk_clock h (pool s)")
  have "valid_text (PStr now)" using clock_text [OF assms(1), of "pool s"] clk by simp
  then have "state_ok \<lparr> ts_schema = PInt STATE_SCHEMA, ts_run_id = PStr run_id, ts_scenario_id = PStr scenario_id,
       ts_prior_mode = PStr (known_mode m), ts_requested_mode = PStr CANONICAL_HOME_MODE, ts_checksum = PStr checksum,
       ts_phase = PStr ''restoring-separate'', ts_updated_at = PStr now, ts_diagnostics = PStr [] \<rparr>"
    using assms(2) by (auto simp: state_ok_def text_fields_def text_in_def args_ok_def known_mode_def POOL_MODES_def
        HOME_MODES_def PHASES_def STATE_SCHEMA_def)
  from this validate_ok [OF this, of "s \<lparr> pool := w \<rparr>"] show ?thesis using None assms(4)
    by (simp add: ebind_def read_clock_def clk new_state_def Let_def)
qed

lemma etry_returns: "m s = (Inr x, t) \<Longrightarrow> etry m f s = (Inr x, t)"
  by (simp add: etry_def)

text \<open>C7. Recovery: from whatever condition earlier runs left behind, a preflight returns and leaves the
  canonical form confirmed and no record, provided the record can be written and removed, the pool can be
  inspected, and reconciling it to separate homes works.\<close>

theorem preflight_recovers:
  assumes "reachable h s" and "state_dir_exists s" and "store_works h" and "heals h checksum"
    and "args_ok [run_id, scenario_id, checksum]"
  shows "\<exists>obs t. preflight h checksum run_id scenario_id s = (Inr obs, t) \<and> settled_separate True checksum obs t"
proof -
  note s = reachable_on_disk [OF assms(1)]
  let ?r = "durable (trace s)"
  have ok: "state_ok st" if "?r = Some st" for st using that s recoverable_durable_ok by (auto simp: on_disk_def)
  obtain obs0 w where ins: "hk_inspect h (pool s) = (Inr obs0, w)" using assms(4) unfolding heals_def by blast
  let ?s = "s \<lparr> pool := w, trace := trace s @ [Inspected (Some obs0)] \<rparr>"
  have i: "inspect_pool h s = (Inr obs0, ?s)" by (simp add: inspect_pool_def ins)
  have "\<exists>obs t. preflight h checksum run_id scenario_id s = (Inr obs, t)"
  proof (cases "?r = None \<and> obs_matches obs0 CANONICAL_HOME_MODE checksum")
    case True
    then show ?thesis by (simp add: preflight_def ebind_def etry_def load_on_disk [OF s] i)
  next
    case False
    let ?id = "case ?r of Some st \<Rightarrow> eret st
       | None \<Rightarrow> ebind (read_clock h) (\<lambda>now. new_state run_id scenario_id (known_mode (home_mode obs0))
                CANONICAL_HOME_MODE checksum ''restoring-separate'' now)"
    from ok have "\<exists>st t. ?id ?s = (Inr st, t) \<and> state_ok st \<and> state_dir_exists t"
      by (rule identity_heals [OF assms(3,5)]) (simp_all add: assms(2))
    then obtain identity t where id: "?id ?s = (Inr identity, t)" and ok_t: "state_ok identity" "state_dir_exists t" by blast
    have "valid_text (PStr checksum)" using assms(5) by (simp add: args_ok_def)
    from reconcile_separate_heals [OF assms(3,4) ok_t(1) this ok_t(2)]
    obtain obs u where "reconcile_separate h identity checksum t = (Inr obs, u)" by blast
    then have "ebind ?id (\<lambda>identity. reconcile_separate h identity checksum) ?s = (Inr obs, u)"
      using ebind_Inr [of ?id, OF id, of "\<lambda>identity. reconcile_separate h identity checksum"] by (rule trans [rotated])
    then have "preflight h checksum run_id scenario_id s = (Inr obs, u)"
      unfolding preflight_def ebind_Inr [of "store_load h", OF load_on_disk [OF s]]
        ebind_Inr [of "etry (inspect_pool h) _", OF etry_returns [of "inspect_pool h", OF i]] if_not_P [OF False] .
    then show ?thesis by blast
  qed
  then show ?thesis using triple_returned [OF triple_preflight s] assms(2) by fastforce
qed

subsection \<open>A small pool\<close>

text \<open>The pool is its home mode; reconciling to the configuration named \<^verbatim>\<open>bad\<close> changes it and then fails.\<close>

definition sample_hooks :: "string hooks" where
  "sample_hooks = \<lparr>
     hk_inspect = (\<lambda>w. (Inr \<lparr> home_mode = w, configuration_checksum = w @ ''-sum'', ready_nonterminating_pods = 2,
        terminating_pods = 0, diagnostics = [] \<rparr>, w)),
     hk_reconcile = (\<lambda>mode checksum w. (if checksum = ''bad'' then Inl (Raised ''OSError'' ''rollout failed'') else Inr (), mode)),
     hk_clock = (\<lambda>w. (''now'', w)), hk_write = (\<lambda>w. (Inr (), w)), hk_unlink = (\<lambda>w. (Inr (), w)),
     hk_state_dir = ''state'' \<rparr>"

definition sample_fixture :: "string fixture" where
  "sample_fixture = \<lparr> state_dir_exists = True, record_file = None, pool = ''separate'', trace = [] \<rparr>"

definition broken_fixture :: "string fixture" where
  "broken_fixture = snd (api sample_hooks (EnterShared ''run'' ''case'' ''separate-sum'' ''bad'') sample_fixture)"

lemma sample_reachable: "reachable sample_hooks sample_fixture"
  unfolding sample_fixture_def by (rule fresh)

lemma broken_reachable: "reachable sample_hooks broken_fixture"
  unfolding broken_fixture_def by (rule called [OF sample_reachable])

lemma sample_store_works: "store_works sample_hooks"
proof -
  have "py_strip ''now'' \<noteq> []" by code_simp
  then show ?thesis by (simp add: store_works_def writable_def sample_hooks_def)
qed

lemma sample_args: "args_ok [''run'', ''case'', ''separate-sum'']" "args_ok [''run'', ''case'', ''separate-sum'', ''bad'']"
  by code_simp+

theorem transition_is_recoverable_witness: "unsettled (trace broken_fixture) \<and> record_file broken_fixture \<noteq> None"
proof -
  have "unsettled (trace broken_fixture)" by code_simp
  then show ?thesis using transition_is_recoverable [OF broken_reachable] by blast
qed

lemma not_isl: "\<not> isl (fst p) \<Longrightarrow> \<exists>x t. p = (Inr x, t)"
  by (cases p; cases "fst p") auto

lemma isl_raised: "isl (fst p) \<Longrightarrow> \<exists>e t. p = (Inl e, t)"
  by (cases p; cases "fst p") auto

theorem transition_calls_establish_witness:
  "\<exists>obs t. enter_shared sample_hooks ''run'' ''case'' ''separate-sum'' ''shared-sum'' sample_fixture = (Inr obs, t)
     \<and> shared_ready True ''run'' ''shared-sum'' obs t"
proof -
  have "\<not> isl (fst (enter_shared sample_hooks ''run'' ''case'' ''separate-sum'' ''shared-sum'' sample_fixture))" by code_simp
  from not_isl [OF this] obtain obs t
    where r: "enter_shared sample_hooks ''run'' ''case'' ''separate-sum'' ''shared-sum'' sample_fixture = (Inr obs, t)" by blast
  have "state_dir_exists sample_fixture" by (simp add: sample_fixture_def)
  then show ?thesis using r transition_calls_establish [OF sample_reachable] by fastforce
qed

theorem failure_is_recorded_witness:
  "\<exists>e t st. enter_shared sample_hooks ''run'' ''case'' ''separate-sum'' ''bad'' sample_fixture = (Inl e, t)
     \<and> record_file t = Some (JsonObject (asdict st)) \<and> ts_phase st = PStr ''unhealthy''"
proof -
  have "isl (fst (enter_shared sample_hooks ''run'' ''case'' ''separate-sum'' ''bad'' sample_fixture))" by code_simp
  from isl_raised [OF this] obtain e t
    where r: "enter_shared sample_hooks ''run'' ''case'' ''separate-sum'' ''bad'' sample_fixture = (Inl e, t)" by blast
  have "state_dir_exists sample_fixture" by (simp add: sample_fixture_def)
  from failure_is_recorded [OF sample_reachable this sample_store_works sample_args(2)] r show ?thesis by blast
qed

theorem preflight_recovers_witness:
  "\<exists>obs t. preflight sample_hooks ''separate-sum'' ''run'' ''case'' broken_fixture = (Inr obs, t)
     \<and> settled_separate True ''separate-sum'' obs t"
proof -
  have "heals sample_hooks ''separate-sum''"
    by (simp add: heals_def sample_hooks_def obs_matches_def CANONICAL_HOME_MODE_def EXPECTED_POD_COUNT_def)
  moreover have "state_dir_exists broken_fixture" by code_simp
  ultimately show ?thesis
    using preflight_recovers [OF broken_reachable _ sample_store_works _ sample_args(1)] by blast
qed

end
