(* ===== verification/SuiteRun.thy ===== *)
theory SuiteRun
  imports Shards HomeTransition
begin

section \<open>Running a plan (integration-tests/lib/filesystem\_integration.py and bin/integration-test.py)\<close>

text \<open>
  The driver runs the steps of a plan in order: it changes the home mode of the SSH pool through the
  transition manager, runs each work item, notes its outcome and cleans up behind it, and restores separate
  homes whatever happened. What an item does on the cluster (preparing its files, running its adapter, collecting
  diagnostics, cleaning up) and the setup before the loop are parameters; each may fail and may change the pool.

  \<open>su_started\<close> lists the items whose run began, with the home mode variable and the record file at that moment;
  \<open>su_secondary\<close> lists the cleanup failures that were kept as diagnostics because another error was raised.
\<close>

subsection \<open>Home modes of the plan on the transition manager\<close>

record 'w suite =
  su_fixture :: "'w fixture"
  su_home_mode :: string
  su_recorder :: work_item_recorder
  su_started :: "(work_item \<times> string \<times> stored option) list"
  su_secondary :: "raised list"

datatype adapter =
    RunMixedBatch | RunKubectlMultiTarget | RunKubectlMultiTargetUnbound | RunKubectlSameNamespaceTargets
  | RunKubectlFailureResume | RunKubectlCancel | RunKubectlCoordinatorLoss | RunKubectlEndpointDrift
  | RunKubectlSuccess | RunFailureResume | RunRegular

record 'w suite_env =
  se_hooks :: "'w hooks"
  se_run_id :: string
  se_separate_checksum :: string
  se_shared_checksum :: string
  se_setup :: "'w \<Rightarrow> (raised + unit) \<times> 'w"
  se_require_fixture :: "string \<Rightarrow> 'w \<Rightarrow> (raised + unit) \<times> 'w"
  se_make_runtime :: "work_item \<Rightarrow> 'w \<Rightarrow> (raised + unit) \<times> 'w"
  se_prepare :: "work_item \<Rightarrow> 'w \<Rightarrow> (raised + unit) \<times> 'w"
  se_run :: "adapter \<Rightarrow> work_item \<Rightarrow> 'w \<Rightarrow> (raised + unit) \<times> 'w"
  se_release_reports :: "'w \<Rightarrow> (raised + unit) \<times> 'w"
  se_diagnose :: "work_item \<Rightarrow> raised \<Rightarrow> 'w \<Rightarrow> (raised + unit) \<times> 'w"
  se_io_error :: "raised \<Rightarrow> bool"
  se_cleanup :: "work_item \<Rightarrow> 'w \<Rightarrow> (raised + unit) \<times> 'w"
  se_seconds :: "'w \<Rightarrow> string"

definition on_pool :: "('w \<Rightarrow> (raised + unit) \<times> 'w) \<Rightarrow> ('w suite, unit) eff" where
  "on_pool f = (\<lambda>s. case f (pool (su_fixture s)) of (r, w) \<Rightarrow> (r, s \<lparr> su_fixture := (su_fixture s) \<lparr> pool := w \<rparr> \<rparr>))"

definition on_fixture :: "('w fixture, 'a) eff \<Rightarrow> ('w suite, unit) eff" where
  "on_fixture m = (\<lambda>s. case m (su_fixture s) of (r, f) \<Rightarrow>
     (case r of Inl e \<Rightarrow> Inl e | Inr _ \<Rightarrow> Inr (), s \<lparr> su_fixture := f \<rparr>))"

definition ensure_ssh_home_mode :: "'w suite_env \<Rightarrow> string \<Rightarrow> string \<Rightarrow> ('w suite, unit) eff" where
  "ensure_ssh_home_mode env mode scenario_id =
     (if mode = CANONICAL_HOME_MODE
      then on_fixture (preflight (se_hooks env) (se_separate_checksum env) (se_run_id env) scenario_id)
      else if mode = SHARED_HOME_MODE
      then on_fixture (enter_shared (se_hooks env) (se_run_id env) scenario_id
             (se_separate_checksum env) (se_shared_checksum env))
      else eraise (Raised ''ProvisionError'' (''unsupported SSH home mode: '' @ mode)))"

definition restore_ssh_home_mode :: "'w suite_env \<Rightarrow> string \<Rightarrow> ('w suite, unit) eff" where
  "restore_ssh_home_mode env scenario_id =
     on_fixture (restore_separate (se_hooks env) (se_separate_checksum env) (se_run_id env) scenario_id)"

definition transition :: "'w suite_env \<Rightarrow> string \<Rightarrow> string \<Rightarrow> ('w suite, unit) eff" where
  "transition env mode scenario_id =
     (if mode = CANONICAL_HOME_MODE \<and> scenario_id \<noteq> ''preflight'' then restore_ssh_home_mode env scenario_id
      else ensure_ssh_home_mode env mode scenario_id)"

subsection \<open>One work item\<close>

definition KUBECTL_MULTI_TARGET_SCENARIOS :: "string list" where
  "KUBECTL_MULTI_TARGET_SCENARIOS =
     [''kubectl-multi-target'', ''kubectl-multi-target-unbound'', ''kubectl-same-namespace-targets'']"

definition KUBECTL_SUPPORTED_SCENARIOS :: "string list" where
  "KUBECTL_SUPPORTED_SCENARIOS = KUBECTL_MULTI_TARGET_SCENARIOS @
     [''baseline'', ''mdtest-sweep'', ''default-dio'', ''failure-resume'', ''mixed-batch'', ''live-capture'',
      ''kubectl-retained-read'', ''kubectl-cancel'', ''kubectl-coordinator-loss'', ''kubectl-endpoint-drift'']"

definition scenario_adapter :: "work_item \<Rightarrow> raised + adapter" where
  "scenario_adapter i =
     (let name = sc_name (wi_scenario i) in
      if name = ''mixed-batch'' then Inr RunMixedBatch
      else if wi_substrate i = KUBECTL then
        (if name \<notin> set KUBECTL_SUPPORTED_SCENARIOS
         then Inl (Raised ''IntegrationTestError'' (''Kubernetes scenario has no explicit adapter: '' @ name))
         else if name = ''kubectl-multi-target'' then Inr RunKubectlMultiTarget
         else if name = ''kubectl-multi-target-unbound'' then Inr RunKubectlMultiTargetUnbound
         else if name = ''kubectl-same-namespace-targets'' then Inr RunKubectlSameNamespaceTargets
         else if name \<in> {''failure-resume'', ''mdtest-sweep''} then Inr RunKubectlFailureResume
         else if name \<in> {''kubectl-cancel'', ''cancel''} then Inr RunKubectlCancel
         else if name \<in> {''kubectl-coordinator-loss'', ''coordinator-loss''} then Inr RunKubectlCoordinatorLoss
         else if name \<in> {''kubectl-endpoint-drift'', ''endpoint-drift''} then Inr RunKubectlEndpointDrift
         else Inr RunKubectlSuccess)
      else if name \<in> {''failure-resume'', ''mdtest-sweep''} then Inr RunFailureResume
      else Inr RunRegular)"

definition RELEASE_SOURCE_SCENARIO :: "string \<times> string" where
  "RELEASE_SOURCE_SCENARIO = (''baseline'', ''ssh'')"

definition is_release :: "work_item \<Rightarrow> bool" where
  "is_release i \<longleftrightarrow> (sc_name (wi_scenario i), substrate_value (wi_substrate i)) = RELEASE_SOURCE_SCENARIO"

definition item_body :: "'w suite_env \<Rightarrow> work_item \<Rightarrow> ('w suite, unit) eff" where
  "item_body env i =
     ebind (on_pool (se_prepare env i)) (\<lambda>_.
     ebind (case scenario_adapter i of Inl e \<Rightarrow> eraise e | Inr a \<Rightarrow> on_pool (se_run env a i)) (\<lambda>_.
     if is_release i then on_pool (se_release_reports env) else eret ()))"

definition note_item :: "'w suite_env \<Rightarrow> work_item \<Rightarrow> string \<Rightarrow> ('w suite, unit) eff" where
  "note_item env i outcome =
     emodify (\<lambda>s. s \<lparr> su_recorder := record_item i outcome (se_seconds env (pool (su_fixture s))) (su_recorder s) \<rparr>)"

definition note_secondary :: "raised \<Rightarrow> ('w suite, unit) eff" where
  "note_secondary e = emodify (\<lambda>s. s \<lparr> su_secondary := su_secondary s @ [e] \<rparr>)"

text \<open>\<^verbatim>\<open>finally\<close>: the last action sees whether an error is on its way; its own error replaces the outcome.\<close>

definition efinally :: "('s, 'a) eff \<Rightarrow> (raised option \<Rightarrow> ('s, unit) eff) \<Rightarrow> ('s, 'a) eff" where
  "efinally m f = (\<lambda>s. case m s of (r, t) \<Rightarrow>
     (case f (case r of Inl e \<Rightarrow> Some e | Inr _ \<Rightarrow> None) t of
        (Inl e, u) \<Rightarrow> (Inl e, u)
      | (Inr _, u) \<Rightarrow> (r, u)))"

definition keep_primary :: "raised option \<Rightarrow> ('w suite, unit) eff \<Rightarrow> ('w suite, unit) eff" where
  "keep_primary primary m = etry m (\<lambda>e. if primary = None then eraise e else note_secondary e)"

definition item_failed :: "'w suite_env \<Rightarrow> work_item \<Rightarrow> raised \<Rightarrow> ('w suite, unit) eff" where
  "item_failed env i e =
     ebind (note_item env i ''failed'') (\<lambda>_.
     ebind (etry (on_pool (se_diagnose env i e)) (\<lambda>d. if se_io_error env d then eret () else eraise d)) (\<lambda>_.
     eraise e))"

definition run_item :: "'w suite_env \<Rightarrow> work_item \<Rightarrow> ('w suite, unit) eff" where
  "run_item env i =
     ebind (on_pool (se_make_runtime env i)) (\<lambda>_.
     ebind (emodify (\<lambda>s. s \<lparr> su_started := su_started s @ [(i, su_home_mode s, record_file (su_fixture s))] \<rparr>)) (\<lambda>_.
     ebind (efinally (etry (item_body env i) (item_failed env i))
              (\<lambda>primary. keep_primary primary (on_pool (se_cleanup env i)))) (\<lambda>_.
     note_item env i ''passed'')))"

subsection \<open>The suite\<close>

definition run_step :: "'w suite_env \<Rightarrow> plan_step \<Rightarrow> ('w suite, unit) eff" where
  "run_step env st = (case st of
     SshHomeTransition m \<Rightarrow>
       ebind (transition env (ssh_home_mode_value m) ''ssh-shared-home'') (\<lambda>_.
       ebind (emodify (\<lambda>s. s \<lparr> su_home_mode := ssh_home_mode_value m \<rparr>)) (\<lambda>_.
       on_pool (se_require_fixture env (ssh_home_mode_value m))))
   | Work i \<Rightarrow> run_item env i)"

definition run_plan :: "'w suite_env \<Rightarrow> plan_step list \<Rightarrow> ('w suite, unit) eff" where
  "run_plan env plan =
     efinally (efor plan (run_step env)) (\<lambda>suite_error.
       ebind (eget su_home_mode) (\<lambda>mode.
       if mode = SHARED_HOME_MODE
       then keep_primary suite_error (transition env CANONICAL_HOME_MODE ''ssh-shared-home-restore'')
       else eret ()))"

definition run_filesystem_tests :: "'w suite_env \<Rightarrow> string \<Rightarrow> string list \<Rightarrow> ('w suite, unit) eff" where
  "run_filesystem_tests env substrate scenarios =
     (case plan_scenarios substrate scenarios SCENARIO_CATALOG of
        Inl (ScenarioPlanningError message) \<Rightarrow> eraise (Raised ''IntegrationTestError'' message)
      | Inl _ \<Rightarrow> eraise (Raised ''Exception'' [])
      | Inr plan \<Rightarrow>
          let work = works plan in
          ebind (if list_ex (\<lambda>i. wi_substrate i = SSH) work
                 then transition env CANONICAL_HOME_MODE ''preflight'' else eret ()) (\<lambda>_.
          ebind (on_pool (se_setup env)) (\<lambda>_.
          ebind (emodify (\<lambda>s. s \<lparr> su_recorder := new_recorder work, su_home_mode := CANONICAL_HOME_MODE \<rparr>)) (\<lambda>_.
          run_plan env plan))))"

subsection \<open>What holds between the steps\<close>

definition home_record :: "ssh_home_mode \<Rightarrow> stored option \<Rightarrow> bool" where
  "home_record m file = (case m of
     SEPARATE \<Rightarrow> file = None
   | SHARED \<Rightarrow> (\<exists>st. file = Some (JsonObject (asdict st)) \<and> ts_requested_mode st = PStr SHARED_HOME_MODE
        \<and> ts_phase st = PStr ''shared-ready''))"

definition started_ok :: "work_item \<times> string \<times> stored option \<Rightarrow> bool" where
  "started_ok p = (case p of (i, mode, file) \<Rightarrow>
     if wi_substrate i = SSH
     then \<exists>m. sc_ssh_home_mode (wi_scenario i) = Some m \<and> mode = ssh_home_mode_value m \<and> home_record m file
     else mode = CANONICAL_HOME_MODE)"

definition outcomes :: "'w suite \<Rightarrow> (string \<times> string) list" where
  "outcomes s = map (\<lambda>n. (in_work_item n, in_outcome n)) (r_items (su_recorder s))"

definition passed :: "work_item list \<Rightarrow> (string \<times> string) list" where
  "passed items = map (\<lambda>i. (label i, ''passed'')) items"

definition consistent :: "'w suite \<Rightarrow> bool" where
  "consistent s \<longleftrightarrow> (\<exists>d tr. on_disk d tr (su_fixture s)) \<and> list_all started_ok (su_started s)"

definition between :: "bool \<Rightarrow> ssh_home_mode \<Rightarrow> work_item list \<Rightarrow> 'w suite \<Rightarrow> bool" where
  "between ssh m finished s \<longleftrightarrow> consistent s \<and> su_home_mode s = ssh_home_mode_value m
     \<and> (ssh \<longrightarrow> home_record m (record_file (su_fixture s))) \<and> outcomes s = passed finished"

text \<open>After an error: some first items passed, and at most the next one is noted as failed.\<close>

definition stopped :: "work_item list \<Rightarrow> 'w suite \<Rightarrow> bool" where
  "stopped items s \<longleftrightarrow> consistent s \<and> (\<exists>finished rest. items = finished @ rest
     \<and> (outcomes s = passed finished \<or> (\<exists>i rest'. rest = i # rest' \<and> outcomes s = passed finished @ [(label i, ''failed'')])))"

lemma between_stopped: "between ssh m finished s \<Longrightarrow> items = finished @ rest \<Longrightarrow> stopped items s"
  by (auto simp: between_def stopped_def)

definition pool_blind :: "('w suite \<Rightarrow> bool) \<Rightarrow> bool" where
  "pool_blind P \<longleftrightarrow> (\<forall>s w e. P s \<longrightarrow> P (s \<lparr> su_fixture := (su_fixture s) \<lparr> pool := w \<rparr> \<rparr>)
     \<and> P (s \<lparr> su_secondary := su_secondary s @ [e] \<rparr>))"

lemma consistent_blind: "consistent s \<Longrightarrow> consistent (s \<lparr> su_fixture := (su_fixture s) \<lparr> pool := w \<rparr> \<rparr>)"
  "consistent s \<Longrightarrow> consistent (s \<lparr> su_secondary := es \<rparr>)"
  by (auto simp: consistent_def on_disk_def)

lemma blind_between [simp]: "pool_blind (between ssh m finished)"
  unfolding pool_blind_def between_def outcomes_def using consistent_blind by auto

lemma blind_stopped [simp]: "pool_blind (stopped items)"
  unfolding pool_blind_def stopped_def outcomes_def using consistent_blind by auto

lemma triple_on_pool: "pool_blind P \<Longrightarrow> triple P (on_pool f) (\<lambda>_. P) (\<lambda>_. P)"
  by (auto simp: triple_def on_pool_def pool_blind_def split: prod.splits sum.splits)

lemma triple_keep_primary:
  "pool_blind P \<Longrightarrow> triple P (keep_primary primary (on_pool f)) (\<lambda>_. P) (\<lambda>_ s. P s \<and> primary = None)"
  unfolding keep_primary_def
  by (rule triple_try [OF triple_on_pool]) (auto simp: note_secondary_def triple_def pool_blind_def)

lemma triple_finally:
  assumes "triple P m Q E0" and "\<And>x. triple (Q x) (f None) (\<lambda>_. Q x) E"
    and "\<And>e. triple (E0 e) (f (Some e)) (\<lambda>_. E e) E"
  shows "triple P (efinally m f) Q E"
proof (rule tripleI)
  fix s assume P: "P s"
  obtain r t where m: "m s = (r, t)" by (cases "m s")
  show "case efinally m f s of (Inl e, t) \<Rightarrow> E e t | (Inr x, t) \<Rightarrow> Q x t"
  proof (cases r)
    case (Inl e)
    then have "E0 e t" using triple_raised [OF assms(1) P] m by blast
    then have "case f (Some e) t of (Inl e', u) \<Rightarrow> E e' u | (Inr _, u) \<Rightarrow> E e u" using assms(3) by (simp add: triple_def)
    then show ?thesis using m Inl by (auto simp: efinally_def split: prod.splits sum.splits)
  next
    case (Inr x)
    then have "Q x t" using triple_returned [OF assms(1) P] m by blast
    then have "case f None t of (Inl e', u) \<Rightarrow> E e' u | (Inr _, u) \<Rightarrow> Q x u" using assms(2) by (simp add: triple_def)
    then show ?thesis using m Inr by (auto simp: efinally_def split: prod.splits sum.splits)
  qed
qed

lemma triple_body: "pool_blind P \<Longrightarrow> triple P (item_body env i) (\<lambda>_. P) (\<lambda>_. P)"
  unfolding item_body_def
  by (intro triple_bind [where R = "\<lambda>_. P"] triple_on_pool)
    (auto intro: triple_on_pool triple_ret triple_raise split: sum.splits)

lemma triple_failed:
  "triple (between ssh m finished) (item_failed env i e) (\<lambda>_ _. False) (\<lambda>_. stopped (finished @ i # rest))"
proof -
  have noted: "triple (between ssh m finished) (note_item env i ''failed'') (\<lambda>_. stopped (finished @ i # rest)) E" for E
    unfolding note_item_def
    by (rule triple_modify) (auto simp: between_def stopped_def consistent_def outcomes_def record_item_def)
  show ?thesis unfolding item_failed_def
    by (rule triple_bind [OF noted], rule triple_bind [where R = "\<lambda>_. stopped (finished @ i # rest)"],
        rule triple_try [OF triple_on_pool]) (auto intro: triple_ret triple_raise)
qed

lemma triple_item:
  assumes "home_step m (Work i) m'" and "wi_substrate i = SSH \<Longrightarrow> ssh"
  shows "triple (between ssh m finished) (run_item env i) (\<lambda>_. between ssh m (finished @ [i]))
     (\<lambda>_. stopped (finished @ i # rest))"
proof -
  let ?A = "between ssh m finished" and ?F = "stopped (finished @ i # rest)"
  have err: "?A s \<Longrightarrow> ?F s" for s by (rule between_stopped) simp_all
  have mode: "wi_substrate i = SSH \<Longrightarrow> sc_ssh_home_mode (wi_scenario i) = Some m"
    "wi_substrate i \<noteq> SSH \<Longrightarrow> m = SEPARATE" using assms(1) by (auto simp: home_step_simps)
  have start: "triple ?A (emodify (\<lambda>s. s \<lparr> su_started := su_started s @ [(i, su_home_mode s, record_file (su_fixture s))] \<rparr>))
      (\<lambda>_. ?A) E" for E
    using mode assms(2)
    by (intro triple_modify) (auto simp: between_def consistent_def started_ok_def outcomes_def CANONICAL_HOME_MODE_def)
  have work: "triple ?A (efinally (etry (item_body env i) (item_failed env i))
      (\<lambda>primary. keep_primary primary (on_pool (se_cleanup env i)))) (\<lambda>_. ?A) (\<lambda>_. ?F)"
  proof (rule triple_finally)
    show "triple ?A (etry (item_body env i) (item_failed env i)) (\<lambda>_. ?A) (\<lambda>_. ?F)"
      by (rule triple_try [OF triple_body]) (auto intro: triple_conseq [OF triple_failed])
    show "triple ?A (keep_primary None (on_pool (se_cleanup env i))) (\<lambda>_. ?A) (\<lambda>_. ?F)"
      by (rule triple_conseq [OF triple_keep_primary [of ?A]]) (auto intro: err)
    show "triple ?F (keep_primary (Some e) (on_pool (se_cleanup env i))) (\<lambda>_. ?F) (\<lambda>_. ?F)" for e
      by (rule triple_conseq [OF triple_keep_primary [of ?F]]) auto
  qed
  have noted: "triple ?A (note_item env i ''passed'') (\<lambda>_. between ssh m (finished @ [i])) E" for E
    unfolding note_item_def
    by (rule triple_modify) (auto simp: between_def consistent_def outcomes_def record_item_def passed_def)
  have make: "triple ?A (on_pool (se_make_runtime env i)) (\<lambda>_. ?A) (\<lambda>_. ?F)"
    by (rule triple_conseq [OF triple_on_pool [of ?A]]) (auto intro: err)
  show ?thesis unfolding run_item_def
    by (rule triple_bind [OF make triple_bind [OF start triple_bind [OF work noted]]])
qed

subsection \<open>Transitions and the whole plan\<close>

lemma home_mode_values [simp]: "ssh_home_mode_value SEPARATE = CANONICAL_HOME_MODE" "ssh_home_mode_value SHARED = SHARED_HOME_MODE"
  by (simp_all add: CANONICAL_HOME_MODE_def SHARED_HOME_MODE_def)

declare ssh_home_mode_value.simps [simp del]

lemma modes_differ [simp]: "CANONICAL_HOME_MODE \<noteq> SHARED_HOME_MODE" "SHARED_HOME_MODE \<noteq> CANONICAL_HOME_MODE"
  by (simp_all add: CANONICAL_HOME_MODE_def SHARED_HOME_MODE_def)

definition fixture_blind :: "('w suite \<Rightarrow> bool) \<Rightarrow> bool" where
  "fixture_blind R \<longleftrightarrow> (\<forall>s f. R s \<longrightarrow> R (s \<lparr> su_fixture := f \<rparr>))"

lemma triple_on_fixture:
  assumes "\<And>d tr. triple (on_disk d tr) m (\<lambda>x f. (\<exists>tr'. on_disk d tr' f) \<and> G f) (\<lambda>_ f. \<exists>tr'. on_disk d tr' f)"
    and "fixture_blind R"
  shows "triple (\<lambda>s. (\<exists>d tr. on_disk d tr (su_fixture s)) \<and> R s) (on_fixture m)
     (\<lambda>_ s. (\<exists>d tr. on_disk d tr (su_fixture s)) \<and> G (su_fixture s) \<and> R s)
     (\<lambda>_ s. (\<exists>d tr. on_disk d tr (su_fixture s)) \<and> R s)"
proof (rule tripleI)
  fix s :: "'a suite" assume s: "(\<exists>d tr. on_disk d tr (su_fixture s)) \<and> R s"
  then obtain d tr where d: "on_disk d tr (su_fixture s)" by blast
  obtain r f where m: "m (su_fixture s) = (r, f)" by (cases "m (su_fixture s)")
  have R: "R (s \<lparr> su_fixture := f \<rparr>)" using s assms(2) by (simp add: fixture_blind_def)
  have "case r of Inl _ \<Rightarrow> (\<exists>tr'. on_disk d tr' f) | Inr _ \<Rightarrow> (\<exists>tr'. on_disk d tr' f) \<and> G f"
    using triple_raised [OF assms(1) d] triple_returned [OF assms(1) d] m by (cases r) auto
  then show "case on_fixture m s of (Inl e, s) \<Rightarrow> (\<exists>d tr. on_disk d tr (su_fixture s)) \<and> R s
      | (Inr x, s) \<Rightarrow> (\<exists>d tr. on_disk d tr (su_fixture s)) \<and> G (su_fixture s) \<and> R s"
    using m R by (cases r) (auto simp: on_fixture_def)
qed

lemma triple_transition:
  assumes "fixture_blind R" and "mode = ssh_home_mode_value m"
  shows "triple (\<lambda>s. (\<exists>d tr. on_disk d tr (su_fixture s)) \<and> R s) (transition env mode scenario_id)
     (\<lambda>_ s. (\<exists>d tr. on_disk d tr (su_fixture s)) \<and> home_record m (record_file (su_fixture s)) \<and> R s)
     (\<lambda>_ s. (\<exists>d tr. on_disk d tr (su_fixture s)) \<and> R s)"
proof (cases m)
  case SEPARATE
  have "triple (on_disk d tr) (restore_separate h c r i) (\<lambda>x f. (\<exists>tr'. on_disk d tr' f) \<and> home_record SEPARATE (record_file f))
      (\<lambda>_ f. \<exists>tr'. on_disk d tr' f)" for d tr r i c and h :: "'a hooks"
    by (rule triple_conseq [OF triple_restore]) (auto simp: settled_separate_def home_record_def failed_def)
  moreover have "triple (on_disk d tr) (preflight h c r i) (\<lambda>x f. (\<exists>tr'. on_disk d tr' f) \<and> home_record SEPARATE (record_file f))
      (\<lambda>_ f. \<exists>tr'. on_disk d tr' f)" for d tr r i c and h :: "'a hooks"
    by (rule triple_conseq [OF triple_preflight]) (auto simp: settled_separate_def home_record_def failed_def)
  ultimately show ?thesis using SEPARATE assms
    by (auto simp: transition_def restore_ssh_home_mode_def ensure_ssh_home_mode_def intro: triple_on_fixture)
next
  case SHARED
  have "triple (on_disk d tr) (enter_shared h r i a b) (\<lambda>x f. (\<exists>tr'. on_disk d tr' f) \<and> home_record SHARED (record_file f))
      (\<lambda>_ f. \<exists>tr'. on_disk d tr' f)" for d tr r i a b and h :: "'a hooks"
    by (rule triple_conseq [OF triple_enter]) (auto simp: shared_ready_def home_record_def failed_def)
  then show ?thesis using SHARED assms
    by (auto simp: transition_def ensure_ssh_home_mode_def intro: triple_on_fixture)
qed

lemma triple_switch:
  "triple (between ssh m finished) (run_step env (SshHomeTransition m')) (\<lambda>_. between ssh m' finished)
     (\<lambda>_. stopped (finished @ rest))"
proof -
  let ?R = "\<lambda>s. list_all started_ok (su_started s) \<and> outcomes s = passed finished"
  have blind: "fixture_blind ?R" by (simp add: fixture_blind_def outcomes_def)
  have stop: "(\<exists>d tr. on_disk d tr (su_fixture s)) \<and> ?R s \<Longrightarrow> stopped (finished @ rest) s" for s
    by (auto simp: stopped_def consistent_def)
  have "triple (between ssh m finished) (transition env (ssh_home_mode_value m') ''ssh-shared-home'')
     (\<lambda>_ s. (\<exists>d tr. on_disk d tr (su_fixture s)) \<and> home_record m' (record_file (su_fixture s)) \<and> ?R s)
     (\<lambda>_. stopped (finished @ rest))"
    by (rule triple_conseq [OF triple_transition [OF blind refl]]) (auto simp: between_def consistent_def stop)
  moreover have "triple (\<lambda>s. (\<exists>d tr. on_disk d tr (su_fixture s)) \<and> home_record m' (record_file (su_fixture s)) \<and> ?R s)
     (emodify (\<lambda>s. s \<lparr> su_home_mode := ssh_home_mode_value m' \<rparr>)) (\<lambda>_. between ssh m' finished) E" for E
    by (rule triple_modify) (auto simp: between_def consistent_def outcomes_def)
  moreover have "triple (between ssh m' finished) (on_pool (se_require_fixture env (ssh_home_mode_value m')))
     (\<lambda>_. between ssh m' finished) (\<lambda>_. stopped (finished @ rest))"
    by (rule triple_conseq [OF triple_on_pool [of "between ssh m' finished"]]) (auto intro: between_stopped)
  ultimately show ?thesis unfolding run_step_def by (auto intro: triple_bind)
qed

lemma triple_steps:
  assumes "home_run m steps m'" and "list_all (\<lambda>i. wi_substrate i = SSH \<longrightarrow> ssh) (works steps)"
  shows "triple (between ssh m finished) (efor steps (run_step env)) (\<lambda>_. between ssh m' (finished @ works steps))
     (\<lambda>_. stopped (finished @ works steps))"
  using assms
proof (induction arbitrary: finished rule: home_run.induct)
  case (home_done m)
  show ?case unfolding efor.simps by (rule triple_ret) simp
next
  case (home_more m st m1 steps m2)
  show ?case
  proof (cases st)
    case (Work i)
    then have w: "works (st # steps) = i # works steps" by simp
    have "m1 = m" using home_more.hyps(1) Work by (auto simp: home_step_simps)
    have "triple (between ssh m finished) (run_item env i) (\<lambda>_. between ssh m (finished @ [i]))
        (\<lambda>_. stopped (finished @ i # works steps))"
      using home_more.hyps(1) home_more.prems Work by (intro triple_item) auto
    moreover have "triple (between ssh m (finished @ [i])) (efor steps (run_step env))
        (\<lambda>_. between ssh m2 (finished @ i # works steps)) (\<lambda>_. stopped (finished @ i # works steps))"
      using home_more.IH [of "finished @ [i]"] home_more.prems Work \<open>m1 = m\<close> by simp
    ultimately show ?thesis unfolding w efor.simps by (auto simp: Work run_step_def intro: triple_bind)
  next
    case (SshHomeTransition m0)
    then have w: "works (st # steps) = works steps" and "m1 = m0"
      using home_more.hyps(1) by (auto simp: home_step_simps)
    have "triple (between ssh m1 finished) (efor steps (run_step env))
        (\<lambda>_. between ssh m2 (finished @ works steps)) (\<lambda>_. stopped (finished @ works steps))"
      using home_more.IH home_more.prems w by simp
    then show ?thesis unfolding w efor.simps SshHomeTransition
      using triple_switch [of ssh m finished env m0 "works steps"] \<open>m1 = m0\<close> by (auto intro: triple_bind)
  qed
qed

lemma triple_run_plan:
  assumes "home_run SEPARATE plan SEPARATE" and "list_all (\<lambda>i. wi_substrate i = SSH \<longrightarrow> ssh) (works plan)"
  shows "triple (between ssh SEPARATE []) (run_plan env plan) (\<lambda>_. between ssh SEPARATE (works plan))
     (\<lambda>_. stopped (works plan))"
  unfolding run_plan_def
proof (rule triple_finally)
  let ?A = "between ssh SEPARATE (works plan)" and ?F = "stopped (works plan)"
  let ?restore = "\<lambda>e. ebind (eget su_home_mode) (\<lambda>mode. if mode = SHARED_HOME_MODE
       then keep_primary e (transition env CANONICAL_HOME_MODE ''ssh-shared-home-restore'') else eret ())"
  show "triple (between ssh SEPARATE []) (efor plan (run_step env)) (\<lambda>_. ?A) (\<lambda>_. ?F)"
    using triple_steps [OF assms, of "[]"] by simp
  show "triple ?A (?restore None) (\<lambda>_. ?A) (\<lambda>_. ?F)"
    by (auto simp: triple_def ebind_def between_def)
  have "triple ?F (keep_primary (Some e) (transition env CANONICAL_HOME_MODE ''ssh-shared-home-restore'')) (\<lambda>_. ?F) (\<lambda>_. ?F)" for e
  proof -
    let ?R = "\<lambda>s. list_all started_ok (su_started s) \<and> (\<exists>finished rest. works plan = finished @ rest
      \<and> (outcomes s = passed finished \<or> (\<exists>i rest'. rest = i # rest' \<and> outcomes s = passed finished @ [(label i, ''failed'')])))"
    have F: "?F s \<longleftrightarrow> (\<exists>d tr. on_disk d tr (su_fixture s)) \<and> ?R s" for s
      by (simp add: stopped_def consistent_def)
    have "triple ?F (transition env CANONICAL_HOME_MODE ''ssh-shared-home-restore'') (\<lambda>_. ?F) (\<lambda>_. ?F)"
      by (rule triple_conseq [OF triple_transition [of ?R CANONICAL_HOME_MODE SEPARATE]])
        (auto simp: F fixture_blind_def outcomes_def)
    then show ?thesis unfolding keep_primary_def
      by (rule triple_try) (auto simp: note_secondary_def stopped_def consistent_def outcomes_def intro!: triple_modify)
  qed
  then show "triple ?F (?restore (Some e)) (\<lambda>_. ?F) (\<lambda>_. ?F)" for e
    by (auto simp: triple_def ebind_def split: prod.splits sum.splits)
qed

definition plan_uses_ssh :: "plan_step list \<Rightarrow> bool" where
  "plan_uses_ssh plan = list_ex (\<lambda>i. wi_substrate i = SSH) (works plan)"

lemma triple_suite:
  assumes plan: "plan_scenarios substrate scenarios SCENARIO_CATALOG = Inr plan"
  shows "triple (\<lambda>s. (\<exists>d tr. on_disk d tr (su_fixture s)) \<and> su_started s = [] \<and> su_recorder s = r0)
     (run_filesystem_tests env substrate scenarios)
     (\<lambda>_. between (plan_uses_ssh plan) SEPARATE (works plan))
     (\<lambda>_ s. consistent s \<and> (su_recorder s = r0 \<or> stopped (works plan) s))"
proof -
  let ?R = "\<lambda>s. su_started s = [] \<and> su_recorder s = r0"
  let ?P = "\<lambda>s. (\<exists>d tr. on_disk d tr (su_fixture s)) \<and> ?R s"
  let ?H = "\<lambda>s. ?P s \<and> (plan_uses_ssh plan \<longrightarrow> home_record SEPARATE (record_file (su_fixture s)))"
  let ?E = "\<lambda>_ s. consistent s \<and> (su_recorder s = r0 \<or> stopped (works plan) s)"
  have blind: "fixture_blind ?R" by (simp add: fixture_blind_def)
  have pre: "triple ?P (if list_ex (\<lambda>i. wi_substrate i = SSH) (works plan)
       then transition env CANONICAL_HOME_MODE ''preflight'' else eret ()) (\<lambda>_. ?H) ?E"
  proof (cases "plan_uses_ssh plan")
    case True
    have "triple ?P (transition env CANONICAL_HOME_MODE ''preflight'') (\<lambda>_. ?H) ?E"
      by (rule triple_conseq [OF triple_transition [OF blind, of CANONICAL_HOME_MODE SEPARATE]]) (auto simp: consistent_def)
    then show ?thesis using True by (simp add: plan_uses_ssh_def)
  next
    case False
    have "triple ?P (eret ()) (\<lambda>_. ?H) ?E" by (rule triple_ret) (simp add: False)
    then show ?thesis using False by (simp add: plan_uses_ssh_def)
  qed
  have ready: "triple ?H (on_pool (se_setup env)) (\<lambda>_. ?H) ?E"
    by (rule triple_conseq [OF triple_on_pool [of ?H]]) (auto simp: pool_blind_def on_disk_def consistent_def)
  have start: "triple ?H (emodify (\<lambda>s. s \<lparr> su_recorder := new_recorder (works plan), su_home_mode := CANONICAL_HOME_MODE \<rparr>))
      (\<lambda>_. between (plan_uses_ssh plan) SEPARATE []) ?E"
    by (rule triple_modify) (auto simp: between_def consistent_def outcomes_def passed_def new_recorder_def)
  have run: "triple (between (plan_uses_ssh plan) SEPARATE []) (run_plan env plan)
      (\<lambda>_. between (plan_uses_ssh plan) SEPARATE (works plan)) ?E"
  proof (rule triple_conseq [OF triple_run_plan])
    show "home_run SEPARATE plan SEPARATE" using planned_home_run [OF plan] ..
    show "list_all (\<lambda>i. wi_substrate i = SSH \<longrightarrow> plan_uses_ssh plan) (works plan)"
      by (auto simp: plan_uses_ssh_def list_all_iff list_ex_iff)
  qed (auto simp: stopped_def)
  show ?thesis unfolding run_filesystem_tests_def plan sum.case Let_def
    by (rule triple_bind [OF pre triple_bind [OF ready triple_bind [OF start run]]])
qed

lemma completed_outcomes: "outcomes s = passed items \<Longrightarrow> completed_work (Some (su_recorder s)) = map label items"
proof -
  assume "outcomes s = passed items"
  then have "map fst (filter (\<lambda>p. snd p = ''passed'') (outcomes s)) = map label items"
    by (simp add: passed_def filter_map comp_def)
  then show ?thesis by (simp add: completed_work_def outcomes_def filter_map comp_def)
qed

text \<open>C2. Every run of the suite, however it ends, starts each SSH item only while the home mode is the one its
  scenario declares, with the transition record saying the same (no record for separate homes, a ready record
  for the shared home), and starts every other item while the home mode is separate, whatever record there is. A run that succeeds has
  recorded every planned item as passed, in plan order, and leaves the home mode separate and, when the plan has an SSH item, no
  transition record; without one, no preflight runs and a record left by an earlier run stays. A run that leaves the pool
  unsettled also leaves a record from which the next preflight can recover.\<close>

theorem suite_respects_home_modes:
  assumes "reachable (se_hooks env) (su_fixture s)" and "su_started s = []"
    and "plan_scenarios substrate scenarios SCENARIO_CATALOG = Inr plan"
    and "run_filesystem_tests env substrate scenarios s = (r, t)"
  shows "list_all started_ok (su_started t)
    \<and> (r = Inr () \<longrightarrow> completed_work (Some (su_recorder t)) = map label (works plan) \<and> su_home_mode t = CANONICAL_HOME_MODE
        \<and> (plan_uses_ssh plan \<longrightarrow> record_file (su_fixture t) = None))
    \<and> (unsettled (trace (su_fixture t)) \<longrightarrow> record_file (su_fixture t) \<noteq> None)"
proof -
  have "on_disk (state_dir_exists (su_fixture s)) (trace (su_fixture s)) (su_fixture s)"
    using assms(1) by (rule reachable_on_disk)
  then have P: "(\<exists>d tr. on_disk d tr (su_fixture s)) \<and> su_started s = [] \<and> su_recorder s = su_recorder s"
    using assms(2) by blast
  note triple = triple_suite [OF assms(3), of "su_recorder s" env]
  have "consistent t \<and> (r = Inr () \<longrightarrow> between (plan_uses_ssh plan) SEPARATE (works plan) t)"
    using triple_raised [OF triple P] triple_returned [OF triple P] assms(4) by (cases r) (auto simp: between_def)
  moreover from this have "unsettled (trace (su_fixture t)) \<longrightarrow> record_file (su_fixture t) \<noteq> None"
    using recoverable_unsettled by (auto simp: consistent_def on_disk_def stored_of_def)
  ultimately show ?thesis by (auto simp: consistent_def between_def completed_outcomes home_record_def)
qed

text \<open>C17. The first error stops the suite: what a failed run has recorded is that some first items of the plan
  passed and that at most the next item failed; before the loop nothing is recorded.\<close>

theorem suite_stops_at_first_failure:
  assumes "reachable (se_hooks env) (su_fixture s)" and "su_started s = []"
    and "plan_scenarios substrate scenarios SCENARIO_CATALOG = Inr plan"
    and "run_filesystem_tests env substrate scenarios s = (Inl e, t)"
  shows "su_recorder t = su_recorder s
    \<or> (\<exists>finished rest. works plan = finished @ rest \<and> (outcomes t = passed finished
         \<or> (\<exists>i rest'. rest = i # rest' \<and> outcomes t = passed finished @ [(label i, ''failed'')])))"
proof -
  have "on_disk (state_dir_exists (su_fixture s)) (trace (su_fixture s)) (su_fixture s)"
    using assms(1) by (rule reachable_on_disk)
  then have P: "(\<exists>d tr. on_disk d tr (su_fixture s)) \<and> su_started s = [] \<and> su_recorder s = su_recorder s"
    using assms(2) by blast
  from triple_raised [OF triple_suite [OF assms(3)] P assms(4)] show ?thesis
    unfolding stopped_def by blast
qed

lemma planned_adapters:
  assumes "plan_scenarios substrate scenarios SCENARIO_CATALOG = Inr plan"
  shows "list_all (\<lambda>i. \<exists>a. scenario_adapter i = Inr a) (works plan)"
proof -
  from assms obtain s0 where s0: "substrate_of substrate = Some s0" by (rule plan_scenarios_Inr)
  have catalog: "list_all (\<lambda>s. KUBECTL \<in> sc_substrates s \<longrightarrow> sc_name s \<in> set KUBECTL_SUPPORTED_SCENARIOS) SCENARIO_CATALOG"
    by code_simp
  have "\<exists>a. scenario_adapter i = Inr a" if "i \<in> set (works plan)" for i
  proof -
    have "wi_scenario i \<in> set SCENARIO_CATALOG" and "wi_substrate i \<in> sc_substrates (wi_scenario i)"
      using that works_of_plan(2) [OF assms s0] by auto
    then have "wi_substrate i = KUBECTL \<longrightarrow> sc_name (wi_scenario i) \<in> set KUBECTL_SUPPORTED_SCENARIOS"
      using catalog unfolding list_all_iff by auto
    then show ?thesis unfolding scenario_adapter_def Let_def by (cases "wi_substrate i = KUBECTL") simp_all
  qed
  then show ?thesis by (simp add: list_all_iff)
qed

text \<open>Every item the planner can schedule has an adapter: running a plan never fails for a Kubernetes scenario
  without an explicit adapter.\<close>

theorem planned_items_have_adapters:
  assumes "plan_scenarios substrate scenarios SCENARIO_CATALOG = Inr plan"
  shows "list_all (\<lambda>i. \<exists>a. scenario_adapter i = Inr a) (works plan)"
  using assms by (rule planned_adapters)

subsection \<open>A run on the small pool\<close>

definition sample_env :: "raised + unit \<Rightarrow> string suite_env" where
  "sample_env outcome = \<lparr> se_hooks = sample_hooks, se_run_id = ''run'', se_separate_checksum = ''separate-sum'',
     se_shared_checksum = ''shared-sum'', se_setup = (\<lambda>w. (outcome, w)), se_require_fixture = (\<lambda>_ w. (Inr (), w)),
     se_make_runtime = (\<lambda>_ w. (Inr (), w)), se_prepare = (\<lambda>_ w. (Inr (), w)), se_run = (\<lambda>_ i w. (Inr (), w)),
     se_release_reports = (\<lambda>w. (Inr (), w)), se_diagnose = (\<lambda>_ _ w. (Inr (), w)), se_io_error = (\<lambda>_. False),
     se_cleanup = (\<lambda>_ w. (Inr (), w)), se_seconds = (\<lambda>_. ''1.0'') \<rparr>"

definition sample_suite :: "string suite" where
  "sample_suite = \<lparr> su_fixture = sample_fixture, su_home_mode = ''separate'',
     su_recorder = \<lparr> r_planned = [], r_items = [] \<rparr>, su_started = [], su_secondary = [] \<rparr>"

lemma sample_suite_ok: "reachable (se_hooks (sample_env b)) (su_fixture sample_suite)" "su_started sample_suite = []"
  using sample_reachable by (simp_all add: sample_env_def sample_suite_def)

lemma sample_plan:
  obtains plan where "plan_scenarios ''slurm'' [''baseline''] SCENARIO_CATALOG = Inr plan"
    and "transitions plan = []" and "\<not> plan_uses_ssh plan"
proof -
  have "map_sum id (\<lambda>plan. (transitions plan, plan_uses_ssh plan)) (plan_scenarios ''slurm'' [''baseline''] SCENARIO_CATALOG)
      = Inr ([], False)" by code_simp
  then show ?thesis using that by (cases "plan_scenarios ''slurm'' [''baseline''] SCENARIO_CATALOG") auto
qed

lemma sample_item:
  assumes "scenario_adapter i = Inr a"
  shows "\<exists>t. run_item (sample_env b) i s = (Inr (), t) \<and> su_home_mode t = su_home_mode s"
  by (simp add: run_item_def item_body_def assms on_pool_def ebind_def etry_def efinally_def keep_primary_def note_item_def sample_env_def)

lemma sample_steps:
  assumes "transitions plan = []" and "list_all (\<lambda>i. \<exists>a. scenario_adapter i = Inr a) (works plan)"
  shows "\<exists>t. efor plan (run_step (sample_env b)) s = (Inr (), t) \<and> su_home_mode t = su_home_mode s"
  using assms
proof (induction plan arbitrary: s)
  case (Cons st plan)
  then obtain i where i: "st = Work i" by (cases st) auto
  then obtain t where t: "run_item (sample_env b) i s = (Inr (), t)" "su_home_mode t = su_home_mode s"
    using Cons.prems sample_item by fastforce
  from Cons.IH [of t] Cons.prems i obtain u where "efor plan (run_step (sample_env b)) t = (Inr (), u)" "su_home_mode u = su_home_mode t"
    by auto
  moreover have "run_step (sample_env b) (Work i) = run_item (sample_env b) i" by (simp add: run_step_def)
  ultimately show ?case using t by (simp add: i ebind_def)
qed simp

lemma ssh_plan:
  obtains plan where "plan_scenarios ''ssh'' [''baseline''] SCENARIO_CATALOG = Inr plan"
    and "transitions plan = []" and "plan_uses_ssh plan"
proof -
  have "map_sum id (\<lambda>plan. (transitions plan, plan_uses_ssh plan)) (plan_scenarios ''ssh'' [''baseline''] SCENARIO_CATALOG)
      = Inr ([], True)" by code_simp
  then show ?thesis using that by (cases "plan_scenarios ''ssh'' [''baseline''] SCENARIO_CATALOG") auto
qed

lemma ssh_run: "\<exists>t. run_filesystem_tests (sample_env (Inr ())) ''ssh'' [''baseline''] sample_suite = (Inr (), t)"
proof -
  obtain plan where p: "plan_scenarios ''ssh'' [''baseline''] SCENARIO_CATALOG = Inr plan" "transitions plan = []"
    "plan_uses_ssh plan" by (rule ssh_plan)
  have "\<not> isl (fst (transition (sample_env (Inr ())) CANONICAL_HOME_MODE ''preflight'' sample_suite))" by code_simp
  then obtain v where v: "transition (sample_env (Inr ())) CANONICAL_HOME_MODE ''preflight'' sample_suite = (Inr (), v)"
    using not_isl by (metis (full_types) unit.exhaust)
  let ?s = "v \<lparr> su_recorder := new_recorder (works plan), su_home_mode := CANONICAL_HOME_MODE \<rparr>"
  obtain t where t: "efor plan (run_step (sample_env (Inr ()))) ?s = (Inr (), t)" "su_home_mode t = CANONICAL_HOME_MODE"
    using sample_steps [OF p(2) planned_adapters [OF p(1)], of "Inr ()" ?s] by auto
  have "on_pool (se_setup (sample_env (Inr ()))) v = (Inr (), v)" by (simp add: on_pool_def sample_env_def)
  then show ?thesis using t p(3) v
    by (simp add: run_filesystem_tests_def p(1) plan_uses_ssh_def run_plan_def efinally_def ebind_def)
qed

theorem suite_respects_home_modes_witness:
  "\<exists>plan t. run_filesystem_tests (sample_env (Inr ())) ''ssh'' [''baseline''] sample_suite = (Inr (), t)
     \<and> plan_uses_ssh plan \<and> list_all started_ok (su_started t) \<and> completed_work (Some (su_recorder t)) = map label (works plan)
     \<and> record_file (su_fixture t) = None"
proof -
  from ssh_run obtain t
    where t: "run_filesystem_tests (sample_env (Inr ())) ''ssh'' [''baseline''] sample_suite = (Inr (), t)" by blast
  obtain plan where plan: "plan_scenarios ''ssh'' [''baseline''] SCENARIO_CATALOG = Inr plan" "plan_uses_ssh plan" by (rule ssh_plan)
  from suite_respects_home_modes [OF sample_suite_ok plan(1)] t plan(2) show ?thesis by blast
qed

theorem suite_stops_at_first_failure_witness:
  "\<exists>plan e t. run_filesystem_tests (sample_env (Inl (Raised ''IntegrationTestError'' ''no setup''))) ''slurm'' [''baseline''] sample_suite = (Inl e, t)
     \<and> plan_scenarios ''slurm'' [''baseline''] SCENARIO_CATALOG = Inr plan
     \<and> (su_recorder t = su_recorder sample_suite
        \<or> (\<exists>finished rest. works plan = finished @ rest \<and> (outcomes t = passed finished
         \<or> (\<exists>i rest'. rest = i # rest' \<and> outcomes t = passed finished @ [(label i, ''failed'')]))))"
proof -
  let ?env = "sample_env (Inl (Raised ''IntegrationTestError'' ''no setup''))"
  obtain plan where p: "plan_scenarios ''slurm'' [''baseline''] SCENARIO_CATALOG = Inr plan" "\<not> plan_uses_ssh plan"
    by (rule sample_plan)
  have "on_pool (se_setup ?env) sample_suite = (Inl (Raised ''IntegrationTestError'' ''no setup''), sample_suite)"
    by (simp add: on_pool_def sample_env_def)
  then have "run_filesystem_tests ?env ''slurm'' [''baseline''] sample_suite
      = (Inl (Raised ''IntegrationTestError'' ''no setup''), sample_suite)"
    using p(2) by (simp add: run_filesystem_tests_def p(1) plan_uses_ssh_def ebind_def)
  from this suite_stops_at_first_failure [OF sample_suite_ok p(1) this] p(1) show ?thesis by blast
qed

theorem planned_items_have_adapters_witness:
  "\<exists>plan. plan_scenarios ''slurm'' [''baseline''] SCENARIO_CATALOG = Inr plan
     \<and> list_all (\<lambda>i. \<exists>a. scenario_adapter i = Inr a) (works plan)"
proof -
  obtain plan where "plan_scenarios ''slurm'' [''baseline''] SCENARIO_CATALOG = Inr plan" by (rule sample_plan)
  with planned_items_have_adapters [OF this] show ?thesis by blast
qed

end
