(* ===== verification/FailureInjection.thy ===== *)
theory FailureInjection
  imports PyShlex PyRegex PyEffects PyFiles
begin

section \<open>Failure injection for the integration tests (integration-tests/lib/failure\_injection.py)\<close>

text \<open>
  A plan stages a wrapper around the real Elbencho binary on one coordinator, with the binary and its
  runtime on every endpoint, and removes all of it afterwards. The staging operations are parameters over an
  arbitrary cluster state; each may fail. \<open>ij_calls\<close> lists the operations in the order in which they were started, and
  \<open>ij_notes\<close> the notes added to the exception on its way out.

  \<open>wrapper_script\<close> is the text of the wrapper; \<open>wrapper_run\<close> is what that text does when no signal
  arrives: which code it exits with, and what it leaves on disk.
\<close>

subsection \<open>POSIX paths\<close>

text \<open>\<^verbatim>\<open>PurePosixPath\<close>: exactly two leading slashes are kept apart from one.\<close>

record posix_path =
  pp_root :: string
  pp_names :: "string list"

definition posix_path_of :: "string \<Rightarrow> posix_path" where
  "posix_path_of s =
     \<lparr> pp_root = (if startswith s ''//'' \<and> \<not> startswith s ''///'' then ''//'' else if startswith s ''/'' then ''/'' else []),
       pp_names = path_parts s \<rparr>"

definition posix_absolute :: "posix_path \<Rightarrow> bool" where
  "posix_absolute p \<longleftrightarrow> pp_root p \<noteq> []"

definition posix_join :: "posix_path \<Rightarrow> string \<Rightarrow> posix_path" where
  "posix_join p name = p \<lparr> pp_names := pp_names p @ [name] \<rparr>"

definition posix_parent :: "posix_path \<Rightarrow> posix_path" where
  "posix_parent p = p \<lparr> pp_names := butlast (pp_names p) \<rparr>"

definition posix_str :: "posix_path \<Rightarrow> string" where
  "posix_str p = (if pp_root p = [] \<and> pp_names p = [] then ''.'' else pp_root p @ join ''/'' (pp_names p))"

definition posix_below :: "posix_path \<Rightarrow> posix_path \<Rightarrow> bool" where
  "posix_below q p \<longleftrightarrow> pp_root q = pp_root p \<and> prefix (pp_names p) (pp_names q)"

subsection \<open>Plans\<close>

definition DEFAULT_INJECTED_EXIT_CODE :: int where "DEFAULT_INJECTED_EXIT_CODE = 97"
definition MAX_SCENARIO_ID_LENGTH :: nat where "MAX_SCENARIO_ID_LENGTH = 64"

definition scenario_id_re :: rx where
  "scenario_id_re = RSeq (RCls ascii_alnum) (RStar (RCls (\<lambda>c. ascii_alnum c \<or> c \<in> {CHR ''_'', CHR ''.'', CHR ''-''})))"

definition injection_error :: "string \<Rightarrow> raised" where
  "injection_error message = Raised ''FailureInjectionError'' message"

record target =
  endpoint :: string
  install_wrapper :: bool

record layout =
  lo_root :: posix_path
  lo_wrapper :: posix_path
  lo_delegate :: posix_path
  lo_runtime :: posix_path
  lo_marker :: posix_path

record plan =
  pl_scenario_id :: string
  pl_source_binary :: path
  pl_source_runtime :: "path option"
  pl_target_argument :: string
  pl_injected_exit_code :: int
  pl_layout :: layout
  pl_targets :: "target list"
  pl_wrapper_script :: string

definition validated_root :: "string \<Rightarrow> string \<Rightarrow> ('s, posix_path) eff" where
  "validated_root root scenario_id =
     ebind (eguard (scenario_id \<noteq> [] \<and> length scenario_id \<le> MAX_SCENARIO_ID_LENGTH \<and> fullmatch scenario_id_re scenario_id)
       (injection_error (''invalid scenario identifier: '' @ repr_str scenario_id))) (\<lambda>_.
     let base = posix_path_of root in
     ebind (eguard (posix_absolute base \<and> base \<noteq> posix_path_of ''/'' \<and> ''..'' \<notin> set (pp_names base))
       (injection_error (''failure-injection root must be a dedicated absolute path: '' @ root))) (\<lambda>_.
     eret (posix_join (posix_join base scenario_id) ''failure-injection'')))"

definition layout_of :: "posix_path \<Rightarrow> layout" where
  "layout_of root =
     (let delegate_root = posix_join root ''delegate''
      in \<lparr> lo_root = root, lo_wrapper = posix_join root ''elbencho-inject'',
           lo_delegate = posix_join delegate_root ''elbencho'', lo_runtime = posix_join delegate_root ''elbencho-runtime'',
           lo_marker = posix_join root ''failure-injected.marker'' \<rparr>)"

definition validate_targets :: "target list \<Rightarrow> ('s, unit) eff" where
  "validate_targets targets =
     (let endpoints = map endpoint targets in
      ebind (eguard (targets \<noteq> []) (injection_error ''failure-injection plan has no staging targets'')) (\<lambda>_.
      ebind (eguard (list_all (\<lambda>e. e \<noteq> [] \<and> LF \<notin> set e) endpoints)
        (injection_error ''failure-injection endpoint is empty or multiline'')) (\<lambda>_.
      ebind (eguard (length (remdups endpoints) = length endpoints)
        (injection_error ''failure-injection endpoints must be unique'')) (\<lambda>_.
      eguard (length (filter install_wrapper targets) = 1)
        (injection_error ''failure-injection plan requires exactly one coordinator wrapper target'')))))"

definition readonly_line :: "string \<Rightarrow> string \<Rightarrow> string" where
  "readonly_line name v = ''readonly '' @ name @ ''='' @ shlex_quote v"

definition wrapper_tail :: "string list" where
  "wrapper_tail =
    [[],
     ''service_mode=0'',
     ''target_invocation=0'',
     ''for argument in '' @ [dquote] @ ''$@'' @ [dquote] @ ''; do'',
     ''    [[ '' @ [dquote] @ ''$argument'' @ [dquote] @ '' == '' @ [dquote] @ ''--service'' @ [dquote] @ '' ]] && service_mode=1'',
     ''    [[ '' @ [dquote] @ ''$argument'' @ [dquote] @ '' == *'' @ [dquote] @ ''$target_argument'' @ [dquote] @ ''* ]] && target_invocation=1'',
     ''done'',
     [],
     ''if (( service_mode )); then'',
     ''    exec '' @ [dquote] @ ''$delegate'' @ [dquote] @ '' '' @ [dquote] @ ''$@'' @ [dquote],
     ''fi'',
     ''printf '' @ [squote] @ ''%q '' @ [squote] @ '' '' @ [dquote] @ ''$@'' @ [dquote] @ '' >>'' @ [dquote] @ ''$trace'' @ [dquote],
     ''printf '' @ [squote],
     [squote] @ '' >>'' @ [dquote] @ ''$trace'' @ [dquote],
     ''if (( ! target_invocation )); then'',
     ''    exec '' @ [dquote] @ ''$delegate'' @ [dquote] @ '' '' @ [dquote] @ ''$@'' @ [dquote],
     ''fi'',
     ''if ! mkdir -- '' @ [dquote] @ ''$marker'' @ [dquote] @ '' 2>/dev/null; then'',
     ''    exec '' @ [dquote] @ ''$delegate'' @ [dquote] @ '' '' @ [dquote] @ ''$@'' @ [dquote],
     ''fi'',
     [],
     ''child_pid='' @ [dquote] @ [dquote],
     ''pending_signal='' @ [dquote] @ [dquote],
     ''wait_interrupted=0'',
     ''forward_signal() {'',
     ''    local signal=$1'',
     ''    wait_interrupted=1'',
     ''    if [[ -z '' @ [dquote] @ ''$child_pid'' @ [dquote] @ '' ]]; then'',
     ''        pending_signal=$signal'',
     ''    else'',
     ''        kill -s '' @ [dquote] @ ''$signal'' @ [dquote] @ '' '' @ [dquote] @ ''$child_pid'' @ [dquote] @ '' 2>/dev/null || true'',
     ''    fi'',
     ''}'',
     ''trap '' @ [squote] @ ''forward_signal HUP'' @ [squote] @ '' HUP'',
     ''trap '' @ [squote] @ ''forward_signal INT'' @ [squote] @ '' INT'',
     ''trap '' @ [squote] @ ''forward_signal TERM'' @ [squote] @ '' TERM'',
     [],
     [dquote] @ ''$delegate'' @ [dquote] @ '' '' @ [dquote] @ ''$@'' @ [dquote] @ '' &'',
     ''child_pid=$!'',
     ''if [[ -n '' @ [dquote] @ ''$pending_signal'' @ [dquote] @ '' ]]; then'',
     ''    kill -s '' @ [dquote] @ ''$pending_signal'' @ [dquote] @ '' '' @ [dquote] @ ''$child_pid'' @ [dquote] @ '' 2>/dev/null || true'',
     ''fi'',
     ''set +e'',
     ''while true; do'',
     ''    wait_interrupted=0'',
     ''    wait '' @ [dquote] @ ''$child_pid'' @ [dquote],
     ''    wait_rc=$?'',
     ''    # A trapped signal interrupts wait before it reports the delegate'' @ [squote] @ ''s'',
     ''    # terminal status. Forward it, then reap again for the authoritative rc.'',
     ''    (( wait_interrupted )) && continue'',
     ''    delegate_rc=$wait_rc'',
     ''    break'',
     ''done'',
     ''set -e'',
     ''trap - HUP INT TERM'',
     [],
     ''if (( delegate_rc != 0 )); then'',
     ''    rm -rf -- '' @ [dquote] @ ''$marker'' @ [dquote],
     ''    exit '' @ [dquote] @ ''$delegate_rc'' @ [dquote],
     ''fi'',
     ''printf '' @ [squote] @ ''%s'',
     [squote] @ '' injected >'' @ [dquote] @ ''$marker/state'' @ [dquote],
     ''exit '' @ [dquote] @ ''$injected_exit_code'' @ [dquote],
     []]"

definition wrapper_script :: "layout \<Rightarrow> string \<Rightarrow> int \<Rightarrow> string" where
  "wrapper_script lo target_argument injected_exit_code =
     join [LF] ([''#!/usr/bin/env bash'', ''set -euo pipefail'', [],
       readonly_line ''delegate'' (posix_str (lo_delegate lo)),
       readonly_line ''marker'' (posix_str (lo_marker lo)),
       ''readonly trace=$(dirname '' @ [dquote] @ ''$marker'' @ [dquote] @ '')/invocations.log'',
       readonly_line ''target_argument'' target_argument,
       ''readonly injected_exit_code='' @ str_int injected_exit_code] @ wrapper_tail)"

definition build_failure_injection_plan ::
    "string \<Rightarrow> string \<Rightarrow> path \<Rightarrow> path option \<Rightarrow> string \<Rightarrow> target list \<Rightarrow> int \<Rightarrow> ('s, plan) eff" where
  "build_failure_injection_plan scenario_id staging_root source_binary source_runtime target_argument targets injected_exit_code =
     ebind (eguard (target_argument \<noteq> [] \<and> char_of (0::nat) \<notin> set target_argument)
       (injection_error ''target argument must be nonempty and contain no NUL'')) (\<lambda>_.
     ebind (eguard (1 \<le> injected_exit_code \<and> injected_exit_code \<le> 255)
       (injection_error ''injected exit code must be between 1 and 255'')) (\<lambda>_.
     ebind (validate_targets targets) (\<lambda>_.
     ebind (validated_root staging_root scenario_id) (\<lambda>root.
     let lo = layout_of root in
     eret \<lparr> pl_scenario_id = scenario_id, pl_source_binary = source_binary, pl_source_runtime = source_runtime,
       pl_target_argument = target_argument, pl_injected_exit_code = injected_exit_code, pl_layout = lo,
       pl_targets = targets, pl_wrapper_script = wrapper_script lo target_argument injected_exit_code \<rparr>))))"

definition build_ssh_failure_injection_plan ::
    "string \<Rightarrow> string \<Rightarrow> path \<Rightarrow> path option \<Rightarrow> string \<Rightarrow> string \<Rightarrow> string list \<Rightarrow> int \<Rightarrow> ('s, plan) eff" where
  "build_ssh_failure_injection_plan scenario_id staging_root source_binary source_runtime target_argument
       coordinator_endpoint worker_endpoints injected_exit_code =
     build_failure_injection_plan scenario_id staging_root source_binary source_runtime target_argument
       (\<lparr> endpoint = coordinator_endpoint, install_wrapper = True \<rparr>
          # map (\<lambda>e. \<lparr> endpoint = e, install_wrapper = False \<rparr>) worker_endpoints) injected_exit_code"

definition build_slurm_failure_injection_plan ::
    "string \<Rightarrow> string \<Rightarrow> path \<Rightarrow> path option \<Rightarrow> string \<Rightarrow> string \<Rightarrow> int \<Rightarrow> ('s, plan) eff" where
  "build_slurm_failure_injection_plan scenario_id staging_root source_binary source_runtime target_argument
       shared_endpoint injected_exit_code =
     build_failure_injection_plan scenario_id staging_root source_binary source_runtime target_argument
       [\<lparr> endpoint = shared_endpoint, install_wrapper = True \<rparr>] injected_exit_code"

subsection \<open>Staging and cleaning up\<close>

datatype staging_call =
    MakeDirectory string posix_path
  | CopyFile path string posix_path nat
  | CopyTree path string posix_path
  | WriteText string posix_path string nat
  | RemoveTree string posix_path

record 'w injection =
  ij_world :: 'w
  ij_calls :: "staging_call list"
  ij_notes :: "string list"

text \<open>What the operations of the caller do, how an exception prints with \<^verbatim>\<open>repr\<close>, and the local files.\<close>

record 'w operations =
  op_call :: "staging_call \<Rightarrow> 'w \<Rightarrow> (raised + unit) \<times> 'w"
  op_repr :: "raised \<Rightarrow> string"
  op_files :: fs_view

definition perform :: "'w operations \<Rightarrow> staging_call \<Rightarrow> ('w injection, unit) eff" where
  "perform ops c = (\<lambda>s. case op_call ops c (ij_world s) of (r, w) \<Rightarrow>
     (r, s \<lparr> ij_world := w, ij_calls := ij_calls s @ [c] \<rparr>))"

definition stage_target :: "plan \<Rightarrow> 'w operations \<Rightarrow> target \<Rightarrow> ('w injection, unit) eff" where
  "stage_target pl ops t =
     ebind (perform ops (MakeDirectory (endpoint t) (lo_root (pl_layout pl)))) (\<lambda>_.
     ebind (perform ops (MakeDirectory (endpoint t) (posix_parent (lo_delegate (pl_layout pl))))) (\<lambda>_.
     ebind (perform ops (CopyFile (pl_source_binary pl) (endpoint t) (lo_delegate (pl_layout pl)) 493)) (\<lambda>_.
     ebind (case pl_source_runtime pl of None \<Rightarrow> eret ()
       | Some runtime \<Rightarrow> perform ops (CopyTree runtime (endpoint t) (lo_runtime (pl_layout pl)))) (\<lambda>_.
     if install_wrapper t
     then perform ops (WriteText (endpoint t) (lo_wrapper (pl_layout pl)) (pl_wrapper_script pl) 493) else eret ()))))"

definition stage_failure_injection :: "plan \<Rightarrow> 'w operations \<Rightarrow> ('w injection, unit) eff" where
  "stage_failure_injection pl ops =
     ebind (eguard (fs_file (op_files ops) (pl_source_binary pl) \<and> \<not> fs_symlink (op_files ops) (pl_source_binary pl))
       (injection_error (''real Elbencho delegate is not a regular file: '' @ path_str (pl_source_binary pl)))) (\<lambda>_.
     ebind (case pl_source_runtime pl of None \<Rightarrow> eret ()
       | Some runtime \<Rightarrow> eguard (fs_dir (op_files ops) runtime \<and> \<not> fs_symlink (op_files ops) runtime)
           (injection_error (''Elbencho runtime is not a directory: '' @ path_str runtime))) (\<lambda>_.
     efor (pl_targets pl) (stage_target pl ops)))"

fun remove_trees :: "plan \<Rightarrow> 'w operations \<Rightarrow> target list \<Rightarrow> string list \<Rightarrow> ('w injection, string list) eff" where
  "remove_trees pl ops [] failures = eret failures"
| "remove_trees pl ops (t # ts) failures =
     ebind (etry (ebind (perform ops (RemoveTree (endpoint t) (lo_root (pl_layout pl)))) (\<lambda>_. eret failures))
              (\<lambda>e. eret (failures @ [endpoint t @ '': '' @ op_repr ops e]))) (remove_trees pl ops ts)"

definition cleanup_failure_injection :: "plan \<Rightarrow> 'w operations \<Rightarrow> ('w injection, unit) eff" where
  "cleanup_failure_injection pl ops =
     ebind (remove_trees pl ops (rev (pl_targets pl)) []) (\<lambda>failures.
     eguard (failures = []) (injection_error (''failure-injection cleanup failed: '' @ join ''; '' failures)))"

text \<open>The context manager around the body of the \<^verbatim>\<open>with\<close> statement.\<close>

definition staged_failure_injection ::
    "plan \<Rightarrow> 'w operations \<Rightarrow> (plan \<Rightarrow> ('w injection, 'a) eff) \<Rightarrow> ('w injection, 'a) eff" where
  "staged_failure_injection pl ops body =
     (\<lambda>s. case ebind (stage_failure_injection pl ops) (\<lambda>_. body pl) s of
        (Inr x, t) \<Rightarrow> ebind (cleanup_failure_injection pl ops) (\<lambda>_. eret x) t
      | (Inl primary, t) \<Rightarrow>
          ebind (etry (cleanup_failure_injection pl ops)
                   (\<lambda>e. emodify (\<lambda>u. u \<lparr> ij_notes := ij_notes u @ [raised_text e] \<rparr>))) (\<lambda>_. eraise primary) t)"

subsection \<open>What the wrapper does\<close>

record wrapper_files =
  wf_marker :: bool
  wf_injected :: bool
  wf_invocations :: "string list list"

fun contains :: "string \<Rightarrow> string \<Rightarrow> bool" where
  "contains part [] = (part = [])"
| "contains part (c # cs) = (startswith (c # cs) part \<or> contains part cs)"

text \<open>\<open>delegate\<close> gives the exit code of the real binary for the arguments.\<close>

definition wrapper_run :: "string \<Rightarrow> int \<Rightarrow> (string list \<Rightarrow> int) \<Rightarrow> string list \<Rightarrow> wrapper_files \<Rightarrow> int \<times> wrapper_files" where
  "wrapper_run target_argument injected_exit_code delegate arguments fs =
     (if ''--service'' \<in> set arguments then (delegate arguments, fs)
      else let fs = fs \<lparr> wf_invocations := wf_invocations fs @ [arguments] \<rparr> in
        if \<not> list_ex (contains target_argument) arguments then (delegate arguments, fs)
        else if wf_marker fs then (delegate arguments, fs)
        else let delegate_rc = delegate arguments in
          if delegate_rc \<noteq> 0 then (delegate_rc, fs \<lparr> wf_marker := False \<rparr>)
          else (injected_exit_code, fs \<lparr> wf_marker := True, wf_injected := True \<rparr>))"

subsection \<open>Plans are safe\<close>

lemma validate_targets_Inr:
  assumes "validate_targets targets s = (Inr u, t)"
  shows "t = s" and "targets \<noteq> []" and "distinct (map endpoint targets)" and "length (filter install_wrapper targets) = 1"
    and "list_all (\<lambda>e. e \<noteq> [] \<and> LF \<notin> set e) (map endpoint targets)"
proof -
  have d: "length (remdups (map endpoint targets)) = length (map endpoint targets) \<longleftrightarrow> distinct (map endpoint targets)"
    by (metis length_remdups_eq distinct_remdups remdups_id_iff_distinct)
  show "t = s" and "targets \<noteq> []" and "distinct (map endpoint targets)" and "length (filter install_wrapper targets) = 1"
    and "list_all (\<lambda>e. e \<noteq> [] \<and> LF \<notin> set e) (map endpoint targets)"
    using assms d by (auto simp: validate_targets_def Let_def ebind_eq_Inr eguard_def split: if_splits)
qed

lemma validated_root_Inr:
  assumes "validated_root root scenario_id s = (Inr p, t)"
  shows "t = s" and "pp_root p = pp_root (posix_path_of root) \<and> pp_root p \<noteq> []"
    and "pp_names p = pp_names (posix_path_of root) @ [scenario_id, ''failure-injection'']"
    and "''..'' \<notin> set (pp_names (posix_path_of root))"
    and "fullmatch scenario_id_re scenario_id \<and> length scenario_id \<le> MAX_SCENARIO_ID_LENGTH"
  using assms by (auto simp: validated_root_def Let_def ebind_eq_Inr eguard_def posix_join_def posix_absolute_def split: if_splits)

definition layout_below :: "layout \<Rightarrow> bool" where
  "layout_below lo \<longleftrightarrow> list_all (\<lambda>p. posix_below p (lo_root lo) \<and> p \<noteq> lo_root lo)
     [lo_wrapper lo, lo_delegate lo, lo_runtime lo, lo_marker lo]
   \<and> distinct [lo_wrapper lo, lo_delegate lo, lo_runtime lo, lo_marker lo]"

lemma layout_of_below: "layout_below (layout_of root)"
  by (cases root) (auto simp: layout_below_def layout_of_def posix_below_def posix_join_def Let_def)

lemma scenario_id_chars:
  assumes "fullmatch scenario_id_re x"
  shows "x \<noteq> [] \<and> ascii_alnum (hd x) \<and> CHR ''/'' \<notin> set x"
proof -
  let ?c = "\<lambda>c. ascii_alnum c \<or> c \<in> {CHR ''_'', CHR ''.'', CHR ''-''}"
  obtain c cs where x: "x = c # cs" and "ascii_alnum c" and "list_all ?c cs"
    using assms unfolding scenario_id_re_def fullmatch_cls_seq fullmatch_star_cls by blast
  moreover have "\<not> ascii_alnum (CHR ''/'')" by (simp add: ascii_alnum_def is_digit_def is_lower_def is_upper_def)
  ultimately show ?thesis by (auto simp: list_all_iff)
qed

text \<open>A plan that is built has distinct endpoints with exactly one wrapper among them, an exit code that a
  shell reports as a failure, and five paths of which four lie strictly below the fifth, the staging root; the
  root is absolute, has no parent step, and ends in the scenario's own directory.\<close>

theorem failure_plan_is_safe:
  assumes "build_failure_injection_plan scenario_id staging_root source_binary source_runtime target_argument targets exit_code s
    = (Inr pl, t)"
  shows "pl_targets pl = targets \<and> distinct (map endpoint targets) \<and> length (filter install_wrapper targets) = 1
    \<and> 1 \<le> pl_injected_exit_code pl \<and> pl_injected_exit_code pl \<le> 255
    \<and> layout_below (pl_layout pl) \<and> pp_root (lo_root (pl_layout pl)) \<noteq> []
    \<and> ''..'' \<notin> set (pp_names (lo_root (pl_layout pl)))
    \<and> suffix [scenario_id, ''failure-injection''] (pp_names (lo_root (pl_layout pl)))"
proof -
  obtain root u v where vt: "validate_targets targets u = (Inr (), v)"
    and vr: "validated_root staging_root scenario_id v = (Inr root, t)"
    and ec: "1 \<le> exit_code" "exit_code \<le> 255"
    and pl: "pl_targets pl = targets" "pl_injected_exit_code pl = exit_code" "pl_layout pl = layout_of root"
    using assms by (auto simp: build_failure_injection_plan_def Let_def ebind_eq_Inr eguard_def split: if_splits)
  have lo: "lo_root (layout_of root) = root" by (simp add: layout_of_def Let_def)
  note r = validated_root_Inr [OF vr]
  have "scenario_id \<noteq> ''..''" using scenario_id_chars [of scenario_id] r(5)
    by (auto simp: ascii_alnum_def is_digit_def is_lower_def is_upper_def)
  then have "''..'' \<notin> set (pp_names root)" using r(3,4) by auto
  then show ?thesis using validate_targets_Inr [OF vt] ec pl layout_of_below [of root] lo r(2,3)
    by (auto simp: suffix_def)
qed

subsection \<open>Staging stays below the root, cleanup reaches every endpoint\<close>

definition call_path :: "staging_call \<Rightarrow> posix_path" where
  "call_path c = (case c of MakeDirectory _ p \<Rightarrow> p | CopyFile _ _ p _ \<Rightarrow> p | CopyTree _ _ p \<Rightarrow> p
     | WriteText _ p _ _ \<Rightarrow> p | RemoveTree _ p \<Rightarrow> p)"

definition calls_below :: "plan \<Rightarrow> staging_call list \<Rightarrow> bool" where
  "calls_below pl calls = list_all (\<lambda>c. posix_below (call_path c) (lo_root (pl_layout pl))) calls"

lemma triple_perform:
  assumes "\<And>s w. P s \<Longrightarrow> P (s \<lparr> ij_world := w, ij_calls := ij_calls s @ [c] \<rparr>)"
  shows "triple P (perform ops c) (\<lambda>_. P) (\<lambda>_. P)"
  using assms by (auto simp: triple_def perform_def split: prod.splits sum.splits)

lemma triple_stage_target:
  fixes ops :: "'w operations"
  assumes "pl_layout pl = layout_of root"
  shows "triple (\<lambda>s. calls_below pl (ij_calls s)) (stage_target pl ops t) (\<lambda>_ s. calls_below pl (ij_calls s))
     (\<lambda>_ s. calls_below pl (ij_calls s))"
proof -
  let ?P = "\<lambda>s :: 'w injection. calls_below pl (ij_calls s)"
  have step: "triple ?P (perform ops c) (\<lambda>_. ?P) (\<lambda>_. ?P)" if "posix_below (call_path c) (lo_root (pl_layout pl))" for c
    by (rule triple_perform) (use that in \<open>simp add: calls_below_def\<close>)
  have below: "posix_below p (lo_root (pl_layout pl))"
    if "p \<in> {lo_root (pl_layout pl), posix_parent (lo_delegate (pl_layout pl)), lo_delegate (pl_layout pl),
       lo_runtime (pl_layout pl), lo_wrapper (pl_layout pl)}" for p
    using that by (auto simp: assms layout_of_def Let_def posix_below_def posix_join_def posix_parent_def butlast_append)
  show ?thesis unfolding stage_target_def
    by (intro triple_bind [where R = "\<lambda>_. ?P"])
      (auto simp: call_path_def intro!: step below triple_ret split: option.splits)
qed

text \<open>The removals of a cleanup, in order.\<close>

definition removals :: "plan \<Rightarrow> staging_call list" where
  "removals pl = map (\<lambda>t. RemoveTree (endpoint t) (lo_root (pl_layout pl))) (rev (pl_targets pl))"

lemma remove_trees_calls:
  "\<exists>failures' u. remove_trees pl ops ts failures s = (Inr failures', u) \<and> ij_notes u = ij_notes s
     \<and> ij_calls u = ij_calls s @ map (\<lambda>t. RemoveTree (endpoint t) (lo_root (pl_layout pl))) ts"
proof (induction ts arbitrary: failures s)
  case (Cons t ts)
  obtain r w where c: "op_call ops (RemoveTree (endpoint t) (lo_root (pl_layout pl))) (ij_world s) = (r, w)"
    by (cases "op_call ops (RemoveTree (endpoint t) (lo_root (pl_layout pl))) (ij_world s)")
  let ?s = "s \<lparr> ij_world := w, ij_calls := ij_calls s @ [RemoveTree (endpoint t) (lo_root (pl_layout pl))] \<rparr>"
  let ?f = "case r of Inl e \<Rightarrow> failures @ [endpoint t @ '': '' @ op_repr ops e] | Inr _ \<Rightarrow> failures"
  have "remove_trees pl ops (t # ts) failures s = remove_trees pl ops ts ?f ?s"
    using c by (cases r) (simp_all add: perform_def ebind_def etry_def)
  then show ?case using Cons.IH [of ?f ?s] by auto
qed simp

lemma cleanup_calls:
  "ij_calls (snd (cleanup_failure_injection pl ops s)) = ij_calls s @ removals pl
   \<and> ij_notes (snd (cleanup_failure_injection pl ops s)) = ij_notes s"
proof -
  obtain failures u where "remove_trees pl ops (rev (pl_targets pl)) [] s = (Inr failures, u)" and "ij_notes u = ij_notes s"
    and "ij_calls u = ij_calls s @ removals pl"
    using remove_trees_calls [of pl ops "rev (pl_targets pl)" "[]" s] unfolding removals_def by blast
  then show ?thesis by (simp add: cleanup_failure_injection_def ebind_def eguard_def)
qed

text \<open>C8. Whatever happens while staging or inside the context, leaving it ends with one removal of the staging root
  on every endpoint, the last staged first, and a failing removal does not keep the others from being tried. An
  error from staging or from the body is the one that leaves the context; failing removals only add a note to
  it.\<close>

theorem injection_is_always_cleaned:
  "\<exists>before. ij_calls (snd (staged_failure_injection pl ops body s)) = before @ removals pl
     \<and> (case ebind (stage_failure_injection pl ops) (\<lambda>_. body pl) s of
          (Inl primary, t) \<Rightarrow> fst (staged_failure_injection pl ops body s) = Inl primary \<and> before = ij_calls t
        | (Inr x, t) \<Rightarrow> before = ij_calls t)"
proof -
  obtain r t where m: "ebind (stage_failure_injection pl ops) (\<lambda>_. body pl) s = (r, t)"
    by (cases "ebind (stage_failure_injection pl ops) (\<lambda>_. body pl) s")
  obtain c u where c: "cleanup_failure_injection pl ops t = (c, u)" by (cases "cleanup_failure_injection pl ops t")
  have "ij_calls u = ij_calls t @ removals pl" using cleanup_calls [of pl ops t] c by simp
  then have "ij_calls (snd (staged_failure_injection pl ops body s)) = ij_calls t @ removals pl
      \<and> (\<forall>primary. r = Inl primary \<longrightarrow> fst (staged_failure_injection pl ops body s) = Inl primary)"
    using m c by (cases r; cases c) (simp_all add: staged_failure_injection_def ebind_def etry_def)
  then show ?thesis using m by (cases r) auto
qed

subsection \<open>Quoted values are read back\<close>

text \<open>Inside a word, a quoted value continues the word with exactly the value.\<close>

lemma run_shlex_quote:
  assumes "tok \<noteq> []"
  shows "shlex_run LWord tok qd (shlex_quote w) = Inr [tok @ w]"
proof -
  consider (empty) "w = []" | (safe) "w \<noteq> []" "list_all shell_safe w" | (other) "w \<noteq> []" "\<not> list_all shell_safe w" by blast
  then show ?thesis
  proof cases
    case empty
    then show ?thesis using assms by (simp add: shlex_quote_def shlex_space_def shlex_quote_char_def)
  next
    case safe
    then have "\<forall>c \<in> set w. shlex_plain c" using shell_safe_plain by (auto simp: list_all_iff)
    from run_plain [OF this, of tok qd "[]"] show ?thesis using safe assms by (simp add: shlex_quote_def)
  next
    case other
    then show ?thesis using run_quote_escape [of tok qd w "[]"]
      by (simp add: shlex_quote_def shlex_space_def shlex_quote_char_def)
  qed
qed

text \<open>The assignments of the wrapper keep their values: a shell splits \<^verbatim>\<open>readonly NAME=\<close> followed by the quoted
  value into exactly the words \<^verbatim>\<open>readonly\<close> and \<^verbatim>\<open>NAME=value\<close>, for any value, quotes, blanks and newlines included.\<close>

theorem readonly_line_read_back:
  assumes "name \<noteq> []" and "list_all shell_safe name"
  shows "shlex_split (readonly_line name v) = Inr [''readonly'', name @ ''='' @ v]"
proof -
  have plain: "\<forall>c \<in> set (name @ ''=''). shlex_plain c"
    using assms(2) shell_safe_plain by (auto simp: list_all_iff shell_safe_def)
  obtain c cs where n: "name = c # cs" using assms(1) by (cases name) auto
  have "\<forall>c \<in> set (cs @ ''=''). shlex_plain c" using plain n by simp
  from run_plain [OF this, of "[c]" False "shlex_quote v"] run_shlex_quote [of "[c] @ cs @ ''=''" False v]
  have "shlex_run LWord [c] False (cs @ ''='' @ shlex_quote v) = Inr [name @ ''='' @ v]" by (simp add: n)
  moreover have "shlex_plain c" using plain n by simp
  ultimately have "shlex_run LSpace [] False (name @ ''='' @ shlex_quote v) = Inr [name @ ''='' @ v]"
    by (simp add: n shlex_plain_def)
  moreover have "shlex_split (''readonly '' @ x) = rbind (shlex_run LSpace [] False x) (\<lambda>ws. Inr (''readonly'' # ws))" for x
    by (simp add: shlex_split_def shlex_space_def shlex_quote_char_def)
  ultimately show ?thesis by (simp add: readonly_line_def)
qed

theorem readonly_line_read_back_witness:
  "shlex_split (readonly_line ''marker'' (''/tmp/it'' @ [squote] @ ''s here'')) = Inr [''readonly'', ''marker=/tmp/it'' @ [squote] @ ''s here'']"
proof -
  have "list_all shell_safe ''marker''" by code_simp
  from readonly_line_read_back [OF _ this, of "''/tmp/it'' @ [squote] @ ''s here''"] show ?thesis by simp
qed

subsection \<open>The failure is injected once\<close>

text \<open>A run is a list of invocations, each with the exit code the real binary gives it.\<close>

fun wrapper_runs :: "string \<Rightarrow> int \<Rightarrow> (string list \<times> int) list \<Rightarrow> wrapper_files \<Rightarrow> int list" where
  "wrapper_runs target_argument injected [] fs = []"
| "wrapper_runs target_argument injected ((args, rc) # runs) fs =
     (case wrapper_run target_argument injected (\<lambda>_. rc) args fs of (exit_code, fs') \<Rightarrow>
        exit_code # wrapper_runs target_argument injected runs fs')"

definition targeted :: "string \<Rightarrow> string list \<times> int \<Rightarrow> bool" where
  "targeted target_argument run \<longleftrightarrow> ''--service'' \<notin> set (fst run) \<and> list_ex (contains target_argument) (fst run) \<and> snd run = 0"

fun inject_first :: "('a \<Rightarrow> bool) \<Rightarrow> 'b \<Rightarrow> ('a \<times> 'b) list \<Rightarrow> 'b list" where
  "inject_first p e [] = []"
| "inject_first p e ((x, y) # xs) = (if p x then e # map snd xs else y # inject_first p e xs)"

lemma wrapper_runs_marked: "wf_marker fs \<Longrightarrow> wrapper_runs target_argument injected runs fs = map snd runs"
proof (induction runs arbitrary: fs)
  case (Cons run runs)
  obtain args rc where "run = (args, rc)" by (cases run)
  then show ?case using Cons by (simp add: wrapper_run_def Let_def)
qed simp

text \<open>The wrapper is transparent except once: over any sequence of invocations, every one exits with the code of
  the real binary, except that the first successful non-service invocation that carries the target argument
  exits with the injected code; failed attempts do not use up the injection.\<close>

theorem wrapper_injects_once:
  assumes "\<not> wf_marker fs"
  shows "wrapper_runs target_argument injected runs fs
    = inject_first (targeted target_argument) injected (map (\<lambda>run. (run, snd run)) runs)"
  using assms
proof (induction runs arbitrary: fs)
  case (Cons run runs)
  obtain args rc where run: "run = (args, rc)" by (cases run)
  show ?case
  proof (cases "targeted target_argument run")
    case True
    then show ?thesis using Cons.prems run
      by (auto simp: targeted_def wrapper_run_def Let_def wrapper_runs_marked comp_def)
  next
    case False
    then show ?thesis using Cons.prems run by (auto simp: targeted_def wrapper_run_def Let_def Cons.IH)
  qed
qed simp

theorem wrapper_injects_once_witness:
  "wrapper_runs ''0007.json'' 97 [([''-w''], 0), ([''--out=0007.json''], 3), ([''--out=0007.json''], 0), ([''--out=0007.json''], 0)]
     \<lparr> wf_marker = False, wf_injected = False, wf_invocations = [] \<rparr> = [0, 3, 97, 0]"
proof -
  have "inject_first (targeted ''0007.json'') 97 (map (\<lambda>run. (run, snd run))
      [([''-w''], 0), ([''--out=0007.json''], 3), ([''--out=0007.json''], 0), ([''--out=0007.json''], 0)]) = [0, 3, 97, 0]"
    by code_simp
  then show ?thesis by (rule trans [OF wrapper_injects_once, rotated]) simp
qed

subsection \<open>A plan for two SSH workers\<close>

definition sample_targets :: "target list" where
  "sample_targets = [\<lparr> endpoint = ''login'', install_wrapper = True \<rparr>, \<lparr> endpoint = ''worker'', install_wrapper = False \<rparr>]"

theorem failure_plan_is_safe_witness:
  "\<exists>pl t. build_failure_injection_plan ''resume-1'' ''/srv/stage'' [''bin'', ''elbencho''] None ''0007.json'' sample_targets 97 ()
      = (Inr pl, t) \<and> layout_below (pl_layout pl) \<and> distinct (map endpoint sample_targets)"
proof -
  have "\<not> isl (fst (build_failure_injection_plan ''resume-1'' ''/srv/stage'' [''bin'', ''elbencho''] None ''0007.json'' sample_targets 97 ()))"
    by code_simp
  then obtain pl t where b: "build_failure_injection_plan ''resume-1'' ''/srv/stage'' [''bin'', ''elbencho''] None ''0007.json''
      sample_targets 97 () = (Inr pl, t)" by (metis isl_def prod.collapse sum.collapse(2) obj_sumE)
  from this failure_plan_is_safe [OF this] show ?thesis by blast
qed

text \<open>A staging root of two slashes passes the check for a dedicated path, although it names the root directory.\<close>

lemma double_slash_root_accepted:
  "fst (validated_root ''//'' ''resume-1'' ()) = Inr \<lparr> pp_root = ''//'', pp_names = [''resume-1'', ''failure-injection''] \<rparr>"
  by code_simp

end
