(* ===== verification/PyDouble.thy ===== *)
theory PyDouble
  imports Complex_Main
begin

section \<open>Floating-point numbers\<close>

text \<open>
  Python's \<^verbatim>\<open>float\<close> is an IEEE double. A finite double is the rational number it stands for, and every
  operation of the source (\<^verbatim>\<open>+\<close>, \<^verbatim>\<open>-\<close>, \<^verbatim>\<open>*\<close>, \<^verbatim>\<open>/\<close>, the division of two integers, the conversion of a decimal
  text) is the exact operation followed by \<open>fl\<close>, which rounds to the nearest number with a significand
  below \<open>2 ^ 53\<close>, ties to even. What the model leaves out is the range of the exponent: overflow to infinity and
  subnormal numbers below \<open>2 ^ -1022\<close>, neither of which counters, rates or times in milliseconds reach, and the sign
  of a zero. \<open>nearest_double\<close> rounds a positive quotient and keeps significand and exponent; \<open>fl_near\<close>, the bound of the
  rounding error, carries most proofs.
\<close>

subsection \<open>Rounding a quotient\<close>

function bit_length :: "int \<Rightarrow> nat" where
  "bit_length n = (if n \<le> 0 then 0 else Suc (bit_length (n div 2)))"
  by pat_completeness auto
termination by (relation "measure nat") auto

declare bit_length.simps [simp del]

text \<open>The double nearest to \<open>p / q\<close>, ties to even: its significand and exponent.\<close>

definition half_even :: "int \<Rightarrow> int \<Rightarrow> int" where
  "half_even p q = (let m = p div q; r = p mod q in
     if 2 * r < q then m else if 2 * r > q then m + 1 else if even m then m else m + 1)"

definition scaled_div :: "int \<Rightarrow> int \<Rightarrow> int \<Rightarrow> int \<times> int" where
  "scaled_div p q e = (if e < 0 then (p * 2 ^ nat (- e), q) else (p, q * 2 ^ nat e))"

definition double_exponent :: "int \<Rightarrow> int \<Rightarrow> int" where
  "double_exponent p q =
     (let e = int (bit_length p) - int (bit_length q) - 53
      in case scaled_div p q e of (a, b) \<Rightarrow> if a div b \<ge> 2 ^ 53 then e + 1 else e)"

definition nearest_double :: "int \<Rightarrow> int \<Rightarrow> int \<times> int" where
  "nearest_double p q =
     (if p = 0 then (0, 0)
      else let e = double_exponent p q in case scaled_div p q e of (a, b) \<Rightarrow> (half_even a b, e))"

text \<open>The number a significand and exponent denote.\<close>

definition dval :: "int \<times> int \<Rightarrow> real" where
  "dval d = real_of_int (fst d) * 2 powr (real_of_int (snd d))"

lemma bit_length_bounds:
  assumes "0 < n"
  shows "2 ^ (bit_length n - 1) \<le> n \<and> n < 2 ^ bit_length n \<and> 0 < bit_length n"
  using assms
proof (induction n rule: bit_length.induct)
  case (1 n)
  show ?case
  proof (cases "n = 1")
    case True
    then show ?thesis by (simp add: bit_length.simps)
  next
    case False
    with 1 have ih: "2 ^ (bit_length (n div 2) - 1) \<le> n div 2" "n div 2 < 2 ^ bit_length (n div 2)" "0 < bit_length (n div 2)"
      by auto
    have "bit_length n = Suc (bit_length (n div 2))" using 1 by (subst bit_length.simps) simp
    moreover have "2 ^ bit_length (n div 2) \<le> n"
      using ih by (cases "bit_length (n div 2)") auto
    ultimately show ?thesis using ih by auto
  qed
qed

lemma scaled_div_value:
  assumes "scaled_div p q e = (a, b)" and "0 < q"
  shows "0 < b \<and> real_of_int a / real_of_int b = real_of_int p / real_of_int q / 2 powr real_of_int e"
proof (cases "e < 0")
  case True
  then have "2 powr real_of_int e = 1 / 2 ^ nat (- e)" by (simp add: powr_real_of_int divide_inverse)
  with True assms show ?thesis by (auto simp: scaled_div_def)
next
  case False
  then have "2 powr real_of_int e = 2 ^ nat e" by (simp add: powr_real_of_int)
  with False assms show ?thesis by (auto simp: scaled_div_def)
qed

lemma half_even_near:
  assumes "0 < q"
  shows "\<bar>real_of_int (half_even p q) - real_of_int p / real_of_int q\<bar> \<le> 1 / 2"
proof -
  define m r where "m = p div q" and "r = p mod q"
  have "p = m * q + r" and r: "0 \<le> r" "r < q" using assms by (auto simp: m_def r_def)
  then have p: "real_of_int p / real_of_int q = real_of_int m + real_of_int r / real_of_int q"
    using assms by (simp add: field_simps)
  have "half_even p q = m \<and> 2 * r \<le> q \<or> half_even p q = m + 1 \<and> q \<le> 2 * r"
    unfolding half_even_def Let_def m_def r_def by auto
  then show ?thesis
  proof
    assume h: "half_even p q = m \<and> 2 * r \<le> q"
    then have "real_of_int r / real_of_int q \<le> 1 / 2" using assms by (simp add: field_simps)
    with h r assms show ?thesis unfolding p by simp
  next
    assume h: "half_even p q = m + 1 \<and> q \<le> 2 * r"
    then have "1 / 2 \<le> real_of_int r / real_of_int q" using assms by (simp add: field_simps)
    moreover have "real_of_int r / real_of_int q \<le> 1" using r assms by simp
    ultimately show ?thesis using h unfolding p by simp
  qed
qed

text \<open>The exponent leaves a quotient of at least \<open>2 ^ 52\<close>, so rounding it is off by at most one part in \<open>2 ^ 53\<close>.\<close>

lemma powr_bit_length:
  assumes "0 < n"
  shows "2 powr (real (bit_length n) - 1) \<le> real_of_int n \<and> real_of_int n < 2 powr real (bit_length n)"
proof -
  have b: "2 ^ (bit_length n - 1) \<le> n" "n < 2 ^ bit_length n" "0 < bit_length n" using bit_length_bounds [OF assms] by auto
  have "2 powr (real (bit_length n) - 1) = 2 ^ (bit_length n - 1)"
    using b(3) powr_realpow [of 2 "bit_length n - 1"] by (simp add: of_nat_diff)
  moreover have "(2::real) ^ (bit_length n - 1) \<le> real_of_int n"
    using b(1) by (metis of_int_le_iff of_int_numeral of_int_power)
  moreover have "real_of_int n < 2 ^ bit_length n" using b(2) by (metis of_int_less_iff of_int_numeral of_int_power)
  ultimately show ?thesis by (simp add: powr_realpow)
qed

lemma double_exponent_scaled:
  assumes "0 < p" and "0 < q" and "scaled_div p q (double_exponent p q) = (a, b)"
  shows "2 ^ 52 \<le> real_of_int a / real_of_int b"
proof -
  define e where "e = int (bit_length p) - int (bit_length q) - 53"
  obtain c d where cd: "scaled_div p q e = (c, d)" by fastforce
  have v: "0 < d" "real_of_int c / real_of_int d = real_of_int p / real_of_int q / 2 powr real_of_int e"
    using scaled_div_value [OF cd assms(2)] by auto
  show ?thesis
  proof (cases "c div d \<ge> 2 ^ 53")
    case True
    then have de: "double_exponent p q = e + 1" by (simp add: double_exponent_def Let_def cd flip: e_def)
    have "2 ^ 53 \<le> real_of_int c / real_of_int d"
      using True v(1) by (metis floor_divide_of_int_eq le_floor_iff of_int_numeral of_int_power)
    moreover have "real_of_int a / real_of_int b = real_of_int c / real_of_int d / 2"
      using scaled_div_value [OF assms(3,2)] v(2) by (simp add: de powr_add)
    ultimately show ?thesis by simp
  next
    case False
    then have "(a, b) = (c, d)" using assms(3) cd by (simp add: double_exponent_def Let_def flip: e_def)
    moreover have "2 ^ 52 \<le> real_of_int c / real_of_int d"
    proof -
      have "2 powr (real (bit_length p) - 1) / 2 powr real (bit_length q) \<le> real_of_int p / real_of_int q"
        using powr_bit_length [OF assms(1)] powr_bit_length [OF assms(2)] assms by (intro frac_le) auto
      moreover have "2 powr (real (bit_length p) - 1) / 2 powr real (bit_length q) = 2 powr 52 * 2 powr real_of_int e"
        unfolding powr_diff [symmetric] powr_add [symmetric] by (simp add: e_def algebra_simps)
      ultimately have "2 ^ 52 * 2 powr real_of_int e \<le> real_of_int p / real_of_int q" by simp
      then show ?thesis unfolding v(2) by (subst pos_le_divide_eq) simp_all
    qed
    ultimately show ?thesis by simp
  qed
qed

lemma nearest_double_near:
  assumes "0 \<le> p" and "0 < q"
  shows "\<bar>dval (nearest_double p q) - real_of_int p / real_of_int q\<bar> \<le> real_of_int p / real_of_int q / 2 ^ 53"
proof (cases "p = 0")
  case True
  then show ?thesis by (simp add: nearest_double_def dval_def)
next
  case False
  then have "0 < p" using assms by simp
  define e where "e = double_exponent p q"
  obtain a b where ab: "scaled_div p q e = (a, b)" by fastforce
  define x where "x = real_of_int a / real_of_int b"
  have b: "0 < b" and x: "real_of_int p / real_of_int q = x * 2 powr real_of_int e"
    using scaled_div_value [OF ab assms(2)] by (auto simp: x_def)
  have "\<bar>real_of_int (half_even a b) - x\<bar> \<le> 1 / 2" unfolding x_def using b by (rule half_even_near)
  also have "\<dots> \<le> x / 2 ^ 53"
    using double_exponent_scaled [OF \<open>0 < p\<close> assms(2) ab [unfolded e_def]] by (simp add: x_def)
  finally have "\<bar>real_of_int (half_even a b) - x\<bar> * 2 powr real_of_int e \<le> x / 2 ^ 53 * 2 powr real_of_int e"
    by (rule mult_right_mono) simp
  moreover have "dval (nearest_double p q) = real_of_int (half_even a b) * 2 powr real_of_int e"
    using False ab by (simp add: nearest_double_def Let_def dval_def flip: e_def)
  ultimately show ?thesis unfolding x by (simp add: abs_mult left_diff_distrib [symmetric])
qed

lemma dval_cases:
  "dval (m, e) = (if e < 0 then real_of_int m / 2 ^ nat (- e) else real_of_int m * 2 ^ nat e)"
  by (simp add: dval_def powr_real_of_int divide_inverse)

lemma fst_nearest_double_nonneg:
  assumes "0 \<le> p" and "0 < q"
  shows "0 \<le> fst (nearest_double p q)"
proof -
  define y where "y = real_of_int p / real_of_int q"
  have "0 \<le> y" using assms by (simp add: y_def)
  then have "y / 2 ^ 53 \<le> y" by simp
  then have "0 \<le> dval (nearest_double p q)"
    using nearest_double_near [OF assms] unfolding y_def [symmetric] by linarith
  then show ?thesis by (simp add: dval_def zero_le_mult_iff)
qed

subsection \<open>Rounding a rational number\<close>

definition dfrac :: "int \<times> int \<Rightarrow> rat" where
  "dfrac d = (case d of (m, e) \<Rightarrow> if e < 0 then of_int m / 2 ^ nat (- e) else of_int m * 2 ^ nat e)"

definition fl :: "rat \<Rightarrow> rat" where
  "fl r = (case quotient_of r of (p, q) \<Rightarrow>
     if p < 0 then - dfrac (nearest_double (- p) q) else dfrac (nearest_double p q))"

text \<open>\<^verbatim>\<open>round(x)\<close>: to the nearest integer, ties to even.\<close>

definition py_round :: "rat \<Rightarrow> int" where
  "py_round r = (case quotient_of r of (p, q) \<Rightarrow> half_even p q)"

lemma of_rat_dfrac: "real_of_rat (dfrac d) = dval d"
proof -
  obtain m e where d: "d = (m, e)" by fastforce
  show ?thesis unfolding d dval_cases by (simp add: dfrac_def of_rat_divide of_rat_mult of_rat_power)
qed

lemma of_rat_quotient:
  assumes "quotient_of r = (p, q)"
  shows "real_of_rat r = real_of_int p / real_of_int q" and "0 < q"
proof -
  show "real_of_rat r = real_of_int p / real_of_int q"
    unfolding quotient_of_div [OF assms] by (simp add: of_rat_divide)
  show "0 < q" using quotient_of_denom_pos [OF assms] .
qed

lemma fl_near_real: "\<bar>real_of_rat (fl r) - real_of_rat r\<bar> \<le> \<bar>real_of_rat r\<bar> / 2 ^ 53"
proof -
  obtain p q where pq: "quotient_of r = (p, q)" by fastforce
  note r = of_rat_quotient [OF pq]
  show ?thesis
  proof (cases "p < 0")
    case True
    define y where "y = real_of_int p / real_of_int q"
    have "y < 0" using True r(2) by (simp add: y_def divide_neg_pos)
    moreover have "\<bar>dval (nearest_double (- p) q) - (- y)\<bar> \<le> - y / 2 ^ 53"
      using nearest_double_near [of "- p" q] True r(2) by (simp add: y_def)
    moreover have "real_of_rat (fl r) = - dval (nearest_double (- p) q)"
      using True by (simp add: fl_def pq of_rat_minus of_rat_dfrac)
    ultimately show ?thesis unfolding r(1) y_def [symmetric] by linarith
  next
    case False
    then show ?thesis
      using nearest_double_near [of p q] r by (simp add: fl_def pq of_rat_dfrac abs_if)
  qed
qed

lemma fl_near: "\<bar>fl r - r\<bar> \<le> \<bar>r\<bar> / 2 ^ 53"
proof -
  have abs: "real_of_rat \<bar>x\<bar> = \<bar>real_of_rat x\<bar>" for x by (simp add: abs_if of_rat_minus)
  have "real_of_rat \<bar>fl r - r\<bar> \<le> real_of_rat (\<bar>r\<bar> / 2 ^ 53)"
    using fl_near_real [of r] by (simp only: abs of_rat_diff of_rat_divide of_rat_power of_rat_numeral_eq)
  then show ?thesis by (simp only: of_rat_less_eq)
qed

lemma fl_0 [simp]: "fl 0 = 0"
  by (simp add: fl_def dfrac_def nearest_double_def)

lemma fl_pos:
  assumes "0 < r"
  shows "0 < fl r"
proof -
  have "\<bar>r\<bar> / 2 ^ 53 < r" using assms by simp
  then show ?thesis using fl_near [of r] by linarith
qed

lemma fl_nonneg: "0 \<le> r \<Longrightarrow> 0 \<le> fl r"
  using fl_pos [of r] by (cases "r = 0") auto

lemma half_even_one [simp]: "half_even n 1 = n"
  by (simp add: half_even_def)

text \<open>Integers below \<open>2 ^ 53\<close> are doubles.\<close>

lemma bit_length_at_most:
  assumes "0 < n" and "n < 2 ^ k"
  shows "bit_length n \<le> k"
proof (rule ccontr)
  assume "\<not> bit_length n \<le> k"
  then have "(2::int) ^ k \<le> 2 ^ (bit_length n - 1)" by (intro power_increasing) auto
  then show False using bit_length_bounds [OF assms(1)] assms(2) by linarith
qed

lemma fl_of_int:
  assumes "\<bar>n\<bar> < 2 ^ 53"
  shows "fl (of_int n) = of_int n"
proof -
  have pos: "dfrac (nearest_double m 1) = of_int m" if "0 < m" "m < 2 ^ 53" for m :: int
  proof -
    have "bit_length m \<le> 53" "bit_length 1 = Suc 0"
      using bit_length_at_most [OF that] by (simp_all add: bit_length.simps)
    then have neg: "int (bit_length m) - int (bit_length 1) - 53 < 0" by simp
    obtain e where e: "double_exponent m 1 = e" "e \<le> 0"
      using neg by (auto simp: double_exponent_def Let_def split: prod.splits)
    then show ?thesis
      using that by (cases "e = 0") (auto simp: nearest_double_def Let_def scaled_div_def dfrac_def)
  qed
  consider "n = 0" | "0 < n" | "n < 0" by linarith
  then show ?thesis
  proof cases
    case 1
    then show ?thesis by simp
  next
    case 2
    then show ?thesis using assms pos [of n] by (simp add: fl_def)
  next
    case 3
    then show ?thesis using assms pos [of "- n"] by (simp add: fl_def)
  qed
qed

lemma py_round_near: "\<bar>of_int (py_round r) - r\<bar> \<le> 1 / 2"
proof -
  obtain p q where pq: "quotient_of r = (p, q)" by fastforce
  note r = of_rat_quotient [OF pq]
  have abs: "real_of_rat \<bar>x\<bar> = \<bar>real_of_rat x\<bar>" for x by (simp add: abs_if of_rat_minus)
  have "\<bar>real_of_int (half_even p q) - real_of_int p / real_of_int q\<bar> \<le> 1 / 2" using r(2) by (rule half_even_near)
  then have "real_of_rat \<bar>of_int (py_round r) - r\<bar> \<le> real_of_rat (1 / 2)"
    by (simp only: py_round_def pq r(1) abs of_rat_diff of_rat_divide prod.case of_rat_of_int_eq of_rat_1 of_rat_numeral_eq)
  then show ?thesis by (simp only: of_rat_less_eq)
qed

lemma py_round_unique:
  assumes "\<bar>of_int n - r\<bar> < 1 / 2"
  shows "py_round r = n"
proof -
  have "\<bar>of_int (py_round r) - of_int n :: rat\<bar> < 1" using py_round_near [of r] assms by linarith
  then have "\<bar>py_round r - n\<bar> < 1" by (simp flip: of_int_diff of_int_abs)
  then show ?thesis by simp
qed

subsection \<open>Rounding is monotone\<close>

lemma half_even_ge:
  assumes "0 < q" and "n * q \<le> p"
  shows "n \<le> half_even p q"
proof -
  have "n \<le> p div q" using assms by (metis zdiv_mono1 nonzero_mult_div_cancel_right less_irrefl)
  then show ?thesis by (auto simp: half_even_def Let_def)
qed

lemma half_even_le:
  assumes "0 < q" and "p \<le> n * q"
  shows "half_even p q \<le> n"
proof -
  have le: "p div q \<le> n" using assms by (metis zdiv_mono1 nonzero_mult_div_cancel_right less_irrefl)
  show ?thesis
  proof (cases "p div q = n")
    case True
    then have "p mod q \<le> 0" using assms(2) mult_div_mod_eq [of q p] by (simp add: mult.commute)
    then have "p mod q = 0" using pos_mod_sign [OF assms(1), of p] by simp
    then show ?thesis using True assms(1) by (simp add: half_even_def)
  next
    case False
    then show ?thesis using le by (auto simp: half_even_def Let_def)
  qed
qed

lemma half_even_mono:
  assumes "0 < q" and "0 < q'" and "p * q' \<le> p' * q"
  shows "half_even p q \<le> half_even p' q'"
proof -
  define m r m' r' where "m = p div q" and "r = p mod q" and "m' = p' div q'" and "r' = p' mod q'"
  have p: "p = m * q + r" "p' = m' * q' + r'" and r: "0 \<le> r" "r < q" "0 \<le> r'" "r' < q'"
    using assms by (auto simp: m_def r_def m'_def r'_def)
  have m: "m \<le> half_even p q" "half_even p q \<le> m + 1" "m' \<le> half_even p' q'"
    by (auto simp: half_even_def Let_def m_def m'_def)
  have "m * q * q' \<le> p * q'" using p(1) r(1) assms(2) by (intro mult_right_mono) auto
  also have "\<dots> < (m' * q' + q') * q" using assms p(2) r(4) by (intro le_less_trans [OF assms(3)] mult_strict_right_mono) auto
  finally have "m * (q * q') < (m' + 1) * (q * q')" by (simp add: algebra_simps)
  then have "m \<le> m'" using assms(1,2) by (simp add: mult_less_cancel_right)
  show ?thesis
  proof (cases "m = m'")
    case False
    then show ?thesis using m \<open>m \<le> m'\<close> by linarith
  next
    case True
    then have rr: "r * q' \<le> r' * q" using assms(3) p by (simp add: algebra_simps)
    have up: "q' < 2 * r'" if "q < 2 * r"
    proof -
      have "q' * q < 2 * r * q'" using that assms(2) by (simp add: mult.commute)
      then have "q' * q < (2 * r') * q" using rr by linarith
      then show ?thesis using assms(1) by (simp add: mult_less_cancel_right)
    qed
    have half: "q' \<le> 2 * r'" if "q = 2 * r"
    proof -
      have "q' * q \<le> (2 * r') * q" using rr that by (simp add: algebra_simps)
      then show ?thesis using assms(1) by (simp add: mult_le_cancel_right)
    qed
    have he: "half_even p q = (if 2 * r < q then m else if 2 * r > q then m + 1 else if even m then m else m + 1)"
      "half_even p' q' = (if 2 * r' < q' then m else if 2 * r' > q' then m + 1 else if even m then m else m + 1)"
      using True by (simp_all add: half_even_def Let_def m_def r_def m'_def r'_def)
    show ?thesis using up half unfolding he by auto
  qed
qed

lemma double_exponent_below:
  assumes "0 < p" and "0 < q" and "scaled_div p q (double_exponent p q) = (a, b)"
  shows "real_of_int a / real_of_int b < 2 ^ 53"
proof -
  define e where "e = int (bit_length p) - int (bit_length q) - 53"
  obtain c d where cd: "scaled_div p q e = (c, d)" by fastforce
  have v: "0 < d" "real_of_int c / real_of_int d = real_of_int p / real_of_int q / 2 powr real_of_int e"
    using scaled_div_value [OF cd assms(2)] by auto
  show ?thesis
  proof (cases "c div d \<ge> 2 ^ 53")
    case True
    then have de: "double_exponent p q = e + 1" by (simp add: double_exponent_def Let_def cd flip: e_def)
    have "real_of_int p / real_of_int q < 2 powr real (bit_length p) / 2 powr (real (bit_length q) - 1)"
      using powr_bit_length [OF assms(1)] powr_bit_length [OF assms(2)] assms by (intro frac_less) auto
    also have "\<dots> = 2 powr 54 * 2 powr real_of_int e"
      unfolding powr_diff [symmetric] powr_add [symmetric] by (simp add: e_def algebra_simps)
    finally have "real_of_int c / real_of_int d < 2 ^ 54" unfolding v(2) by (subst pos_divide_less_eq) simp_all
    moreover have "real_of_int a / real_of_int b = real_of_int c / real_of_int d / 2"
      using scaled_div_value [OF assms(3,2)] v(2) by (simp add: de powr_add)
    ultimately show ?thesis by simp
  next
    case False
    then have "(a, b) = (c, d)" using assms(3) cd by (simp add: double_exponent_def Let_def flip: e_def)
    moreover have "real_of_int c / real_of_int d < 2 ^ 53"
      using False v(1) by (metis floor_divide_of_int_eq le_floor_iff of_int_numeral of_int_power not_le)
    ultimately show ?thesis by simp
  qed
qed

lemma nearest_double_form:
  assumes "0 < p" and "0 < q"
  obtains a b e where "0 < b" and "real_of_int p / real_of_int q = real_of_int a / real_of_int b * 2 powr real_of_int e"
    and "2 ^ 52 * b \<le> a" and "a < 2 ^ 53 * b" and "dval (nearest_double p q) = real_of_int (half_even a b) * 2 powr real_of_int e"
proof -
  define e where "e = double_exponent p q"
  obtain a b where ab: "scaled_div p q e = (a, b)" by fastforce
  note v = scaled_div_value [OF ab assms(2)]
  have ge: "2 ^ 52 \<le> real_of_int a / real_of_int b" and less: "real_of_int a / real_of_int b < 2 ^ 53"
    using double_exponent_scaled [OF assms ab [unfolded e_def]] double_exponent_below [OF assms ab [unfolded e_def]] .
  have b: "0 < real_of_int b" using v by simp
  have "2 ^ 52 * real_of_int b \<le> real_of_int a" using ge unfolding pos_le_divide_eq [OF b] .
  then have ge: "2 ^ 52 * b \<le> a" by (metis of_int_le_iff of_int_mult of_int_numeral of_int_power)
  have "real_of_int a < 2 ^ 53 * real_of_int b" using less unfolding pos_divide_less_eq [OF b] .
  then have less: "a < 2 ^ 53 * b" by (metis of_int_less_iff of_int_mult of_int_numeral of_int_power)
  show ?thesis
  proof (rule that)
    show "0 < b" "real_of_int p / real_of_int q = real_of_int a / real_of_int b * 2 powr real_of_int e" using v by auto
    show "2 ^ 52 * b \<le> a" "a < 2 ^ 53 * b" by fact+
    show "dval (nearest_double p q) = real_of_int (half_even a b) * 2 powr real_of_int e"
      using assms ab by (simp add: nearest_double_def Let_def dval_def flip: e_def)
  qed
qed

lemma nearest_double_mono:
  assumes "0 < p" and "0 < q" and "0 < p'" and "0 < q'" and "real_of_int p / real_of_int q \<le> real_of_int p' / real_of_int q'"
  shows "dval (nearest_double p q) \<le> dval (nearest_double p' q')"
proof -
  obtain a b e where 1: "0 < b" "real_of_int p / real_of_int q = real_of_int a / real_of_int b * 2 powr real_of_int e"
    "2 ^ 52 * b \<le> a" "a < 2 ^ 53 * b" "dval (nearest_double p q) = real_of_int (half_even a b) * 2 powr real_of_int e"
    using nearest_double_form [OF assms(1,2)] by blast
  obtain a' b' e' where 2: "0 < b'" "real_of_int p' / real_of_int q' = real_of_int a' / real_of_int b' * 2 powr real_of_int e'"
    "2 ^ 52 * b' \<le> a'" "a' < 2 ^ 53 * b'" "dval (nearest_double p' q') = real_of_int (half_even a' b') * 2 powr real_of_int e'"
    using nearest_double_form [OF assms(3,4)] by blast
  define x x' where "x = real_of_int a / real_of_int b" and "x' = real_of_int a' / real_of_int b'"
  have xx: "x * 2 powr real_of_int e \<le> x' * 2 powr real_of_int e'" using assms(5) by (simp add: 1(2) 2(2) x_def x'_def)
  have "2 ^ 52 * real_of_int b \<le> real_of_int a" using 1(3) by (metis of_int_le_iff of_int_mult of_int_numeral of_int_power)
  then have x: "2 ^ 52 \<le> x" using 1(1) by (simp add: x_def pos_le_divide_eq)
  have "real_of_int a' < 2 ^ 53 * real_of_int b'" using 2(4) by (metis of_int_less_iff of_int_mult of_int_numeral of_int_power)
  then have x': "x' < 2 ^ 53" using 2(1) by (simp add: x'_def pos_divide_less_eq)
  have "e \<le> e'"
  proof (rule ccontr)
    assume "\<not> e \<le> e'"
    then have "real_of_int e' + 1 \<le> real_of_int e" by linarith
    then have "2 powr (real_of_int e' + 1) \<le> 2 powr real_of_int e" by simp
    then have "2 ^ 52 * (2 * 2 powr real_of_int e') \<le> x * 2 powr real_of_int e"
      using x by (intro mult_mono) (simp_all add: powr_add)
    then have "2 ^ 53 * 2 powr real_of_int e' \<le> x * 2 powr real_of_int e" by simp
    moreover have "x' * 2 powr real_of_int e' < 2 ^ 53 * 2 powr real_of_int e'"
      using x' by (intro mult_strict_right_mono) simp_all
    ultimately show False using xx by (meson leD le_less_trans order_trans)
  qed
  show ?thesis
  proof (cases "e = e'")
    case True
    then have "x \<le> x'" using xx by simp
    then have "real_of_int a * real_of_int b' \<le> real_of_int a' * real_of_int b"
      using 1(1) 2(1) by (simp add: x_def x'_def divide_le_eq le_divide_eq mult.commute)
    then have "a * b' \<le> a' * b" by (simp flip: of_int_mult)
    then show ?thesis using half_even_mono [OF 1(1) 2(1)] by (simp add: 1(5) 2(5) True)
  next
    case False
    then have "real_of_int e + 1 \<le> real_of_int e'" using \<open>e \<le> e'\<close> by linarith
    then have ee: "2 * 2 powr real_of_int e \<le> 2 powr real_of_int e'" by (metis powr_add powr_one mult.commute powr_mono one_le_numeral zero_less_numeral less_imp_le)
    have "half_even a b \<le> 2 ^ 53" using 1 by (intro half_even_le) auto
    then have "real_of_int (half_even a b) \<le> 2 ^ 53" by (metis of_int_le_iff of_int_numeral of_int_power)
    then have "dval (nearest_double p q) \<le> 2 ^ 53 * 2 powr real_of_int e" unfolding 1(5) by (rule mult_right_mono) simp
    also have "\<dots> \<le> 2 ^ 52 * 2 powr real_of_int e'" using ee by simp
    also have "\<dots> \<le> dval (nearest_double p' q')"
    proof -
      have "2 ^ 52 \<le> half_even a' b'" using 2 by (intro half_even_ge) auto
      then have "2 ^ 52 \<le> real_of_int (half_even a' b')" by (metis of_int_le_iff of_int_numeral of_int_power)
      then show ?thesis unfolding 2(5) by (rule mult_right_mono) simp
    qed
    finally show ?thesis .
  qed
qed

lemma fl_uminus: "fl (- r) = - fl r"
proof -
  obtain p q where pq: "quotient_of r = (p, q)" by fastforce
  then have "quotient_of (- r) = (- p, q)" by (simp add: rat_uminus_code)
  then show ?thesis using pq by (simp add: fl_def nearest_double_def dfrac_def)
qed

lemma fl_mono:
  assumes "r \<le> s"
  shows "fl r \<le> fl s"
proof -
  have pos: "fl x \<le> fl y" if "0 < x" "x \<le> y" for x y
  proof -
    obtain p q where pq: "quotient_of x = (p, q)" by fastforce
    obtain p' q' where pq': "quotient_of y = (p', q')" by fastforce
    note v = of_rat_quotient [OF pq] and v' = of_rat_quotient [OF pq']
    have "0 < real_of_rat x" "0 < real_of_rat y" using that by (simp_all only: zero_less_of_rat_iff less_le_trans)
    then have p: "0 < p" "0 < p'" unfolding v(1) v'(1) using v(2) v'(2) by (simp_all add: zero_less_divide_iff)
    have "real_of_rat x \<le> real_of_rat y" using that by (simp only: of_rat_less_eq)
    then have "dval (nearest_double p q) \<le> dval (nearest_double p' q')"
      unfolding v(1) v'(1) by (intro nearest_double_mono p v(2) v'(2))
    then have "real_of_rat (fl x) \<le> real_of_rat (fl y)" using p by (simp add: fl_def pq pq' of_rat_dfrac)
    then show ?thesis by (simp only: of_rat_less_eq)
  qed
  consider "0 < r" | "r \<le> 0" "0 \<le> s" | "s < 0" using assms by linarith
  then show ?thesis
  proof cases
    case 1
    then show ?thesis using pos assms by simp
  next
    case 2
    then have "0 \<le> fl (- r)" "0 \<le> fl s" by (simp_all add: fl_nonneg)
    then show ?thesis by (simp add: fl_uminus)
  next
    case 3
    then have "fl (- s) \<le> fl (- r)" using pos [of "- s" "- r"] assms by simp
    then show ?thesis by (simp add: fl_uminus)
  qed
qed

end
