(* ===== verification/ReportLimits.thy ===== *)
theory ReportLimits
  imports PyDouble "HOL-Library.Sublist" PyFiles PyNumbers
begin

section \<open>Limits of the reports (lib/report\_pool.py and lib/report\_html/reduce.py)\<close>

text \<open>
  How many report processes run at once, from the processors and the memory that is left on the machine and
  in every control group above the process; and how the series and heat maps of the HTML report are cut down.
  Files are read through an \<open>fs_view\<close>. Samples are numbers as loaded, so series are lists of pairs of values. The
  bucket bounds of a decimation are computed in double precision, with the rounding \<open>fl\<close> of PyDouble.
\<close>

subsection \<open>Worker processes\<close>

definition MAX_REPORT_WORKERS :: int where "MAX_REPORT_WORKERS = 8"
definition REPORT_WORKER_BYTES :: int where "REPORT_WORKER_BYTES = 768 * 2 ^ 20"
definition PROC_CGROUP :: path where "PROC_CGROUP = [''proc'', ''self'', ''cgroup'']"
definition CGROUP_ROOT :: path where "CGROUP_ROOT = [''sys'', ''fs'', ''cgroup'']"
definition CGROUP_V1_UNLIMITED :: int where "CGROUP_V1_UNLIMITED = 2 ^ 60"
definition MEMINFO :: path where "MEMINFO = [''proc'', ''meminfo'']"

text \<open>\<^verbatim>\<open>read_text(encoding="ascii")\<close> and \<^verbatim>\<open>str.split()\<close>\<close>

definition read_ascii :: "fs_view \<Rightarrow> path \<Rightarrow> string result" where
  "read_ascii fs p = rbind (fs_read fs p) (\<lambda>data. if list_all (\<lambda>c. code c < 128) data then Inr data else Inl UnicodeDecodeError)"

function py_words :: "string \<Rightarrow> string list" where
  "py_words s = (let r = dropWhile py_space s in
     if r = [] then [] else takeWhile (\<lambda>c. \<not> py_space c) r # py_words (dropWhile (\<lambda>c. \<not> py_space c) r))"
  by pat_completeness auto
termination
proof (relation "measure length")
  fix s r :: string
  assume r: "r = dropWhile py_space s" and "r \<noteq> []"
  then have "\<not> py_space (hd r)" by (metis hd_dropWhile)
  then have "length (dropWhile (\<lambda>c. \<not> py_space c) r) < length r"
    using \<open>r \<noteq> []\<close> by (cases r) (auto simp: length_dropWhile_le less_Suc_eq_le)
  also have "\<dots> \<le> length s" by (simp add: r length_dropWhile_le)
  finally show "(dropWhile (\<lambda>c. \<not> py_space c) r, s) \<in> measure length" by simp
qed simp

declare py_words.simps [simp del]

definition is_value_error :: "py_error \<Rightarrow> bool" where
  "is_value_error e = (case e of ValueError _ \<Rightarrow> True | UnicodeDecodeError \<Rightarrow> True | _ \<Rightarrow> False)"

definition is_os_error :: "py_error \<Rightarrow> bool" where
  "is_os_error e = (case e of OSError _ \<Rightarrow> True | _ \<Rightarrow> False)"

text \<open>\<^verbatim>\<open>try: ... except ...: return None\<close>\<close>

definition or_none :: "(py_error \<Rightarrow> bool) \<Rightarrow> 'a option result \<Rightarrow> 'a option result" where
  "or_none caught m = (case m of Inl e \<Rightarrow> if caught e then Inr None else Inl e | Inr x \<Rightarrow> Inr x)"

definition available_memory_bytes :: "fs_view \<Rightarrow> int option result" where
  "available_memory_bytes fs =
     or_none (\<lambda>e. is_os_error e \<or> is_value_error e \<or> e = IndexError)
       (rbind (read_ascii fs MEMINFO) (\<lambda>text.
        case filter (\<lambda>line. startswith line ''MemAvailable:'') (split_on (CHR 0x0A) (universal_newlines text)) of
          [] \<Rightarrow> Inr None
        | line # _ \<Rightarrow> (case py_words line of
            _ # kib # _ \<Rightarrow> rbind (py_int kib) (\<lambda>n. Inr (Some (n * 1024)))
          | _ \<Rightarrow> Inl IndexError)))"

definition cgroup_headroom :: "fs_view \<Rightarrow> path \<Rightarrow> path \<Rightarrow> int option result" where
  "cgroup_headroom fs limit_file usage_file =
     or_none (\<lambda>e. is_os_error e \<or> is_value_error e)
       (rbind (read_ascii fs limit_file) (\<lambda>text.
        let limit = py_strip text in
        if limit = ''max'' then Inr None
        else rbind (py_int limit) (\<lambda>n.
          if n \<ge> CGROUP_V1_UNLIMITED then Inr None
          else rbind (read_ascii fs usage_file) (\<lambda>usage. rbind (py_int usage) (\<lambda>u. Inr (Some (max 0 (n - u))))))))"

text \<open>\<^verbatim>\<open>line.split(":", 2)\<close>, unpacked into three parts\<close>

definition split_cgroup_line :: "string \<Rightarrow> (string \<times> string \<times> string) result" where
  "split_cgroup_line line = (case split_on (CHR '':'') line of
     a # b # c # rest \<Rightarrow> Inr (a, b, join '':'' (c # rest))
   | _ \<Rightarrow> Inl (ValueError ''not enough values to unpack''))"

definition lstrip_slashes :: "string \<Rightarrow> string" where
  "lstrip_slashes s = dropWhile (\<lambda>c. c = CHR ''/'') s"

text \<open>The directory and its parents up to the root of the hierarchy.\<close>

definition up_to_root :: "path \<Rightarrow> path \<Rightarrow> path list" where
  "up_to_root base p = map (\<lambda>k. base @ take k p) (rev [0..<Suc (length p)])"

definition cgroup_line_headrooms :: "fs_view \<Rightarrow> string \<Rightarrow> int list result" where
  "cgroup_line_headrooms fs line =
     rbind (split_cgroup_line line) (\<lambda>(_, controllers, path).
     let place =
       (if controllers = [] then Some (CGROUP_ROOT, ''memory.max'', ''memory.current'')
        else if ''memory'' \<in> set (split_on (CHR '','') controllers)
        then Some (CGROUP_ROOT @ [''memory''], ''memory.limit_in_bytes'', ''memory.usage_in_bytes'') else None)
     in case place of None \<Rightarrow> Inr []
        | Some (base, limit, usage) \<Rightarrow>
            rbind (traverse (\<lambda>d. cgroup_headroom fs (d @ [limit]) (d @ [usage]))
                     (up_to_root base (path_parts (lstrip_slashes path)))) (\<lambda>rooms. Inr (List.map_filter id rooms)))"

definition cgroup_memory_bytes :: "fs_view \<Rightarrow> int option result" where
  "cgroup_memory_bytes fs =
     (case read_ascii fs PROC_CGROUP of
        Inl e \<Rightarrow> if is_os_error e then Inr None else Inl e
      | Inr text \<Rightarrow>
          rbind (traverse (cgroup_line_headrooms fs) (splitlines text)) (\<lambda>rooms.
          Inr (if concat rooms = [] then None else Some (Min (set (concat rooms))))))"

text \<open>\<open>cpus\<close> is the size of the affinity mask, else \<^verbatim>\<open>os.cpu_count() or 1\<close>: at least one.\<close>

definition report_workers :: "fs_view \<Rightarrow> int \<Rightarrow> int result" where
  "report_workers fs cpus =
     rbind (available_memory_bytes fs) (\<lambda>available.
     rbind (cgroup_memory_bytes fs) (\<lambda>cgroup.
     let workers = min cpus MAX_REPORT_WORKERS;
         known = List.map_filter id [available, cgroup];
         limited = (if known = [] then workers else min workers (Min (set known) div REPORT_WORKER_BYTES))
     in Inr (max 1 limited)))"

subsection \<open>Series and heat maps\<close>

definition MAX_POINTS :: nat where "MAX_POINTS = 300"
definition HEATMAP_MAX_COLS :: nat where "HEATMAP_MAX_COLS = 160"

definition finite_number :: "pyval \<Rightarrow> bool" where
  "finite_number v = (case v of PInt _ \<Rightarrow> True | PFloat _ \<Rightarrow> finite_float v | _ \<Rightarrow> False)"

text \<open>\<^verbatim>\<open>int(bucket * size)\<close> for \<^verbatim>\<open>size = len(points) / buckets\<close>\<close>

definition bucket_start :: "nat \<Rightarrow> nat \<Rightarrow> nat \<Rightarrow> nat" where
  "bucket_start n buckets bucket =
     nat \<lfloor>fl (of_nat bucket * fl (of_nat n / of_nat buckets))\<rfloor>"

text \<open>\<^verbatim>\<open>min(chunk, key=...)\<close> and \<^verbatim>\<open>max(chunk, key=...)\<close>: the first extremal index.\<close>

definition lowest :: "(pyval \<times> pyval) list \<Rightarrow> nat list \<Rightarrow> nat" where
  "lowest points chunk = foldl (\<lambda>m i. if \<not> num_le (snd (points ! m)) (snd (points ! i)) then i else m) (hd chunk) (tl chunk)"

definition highest :: "(pyval \<times> pyval) list \<Rightarrow> nat list \<Rightarrow> nat" where
  "highest points chunk = foldl (\<lambda>m i. if \<not> num_le (snd (points ! i)) (snd (points ! m)) then i else m) (hd chunk) (tl chunk)"

definition bucket_extremes :: "(pyval \<times> pyval) list \<Rightarrow> nat \<Rightarrow> nat \<Rightarrow> (pyval \<times> pyval) list" where
  "bucket_extremes points start finish =
     (let chunk = [start..<finish]; low = lowest points chunk; high = highest points chunk
      in map ((!) points) (sort (remdups [low, high])))"

text \<open>The samples a decimation keeps, before they are rounded for display.\<close>

definition kept_samples :: "pyval list \<Rightarrow> pyval list \<Rightarrow> nat \<Rightarrow> (pyval \<times> pyval) list" where
  "kept_samples xs ys limit =
     (let points = filter (\<lambda>(x, y). finite_number x \<and> finite_number y) (zip xs ys) in
      if limit < 2 then (if points \<noteq> [] \<and> limit > 0 then [points ! highest points [0..<length points]] else [])
      else if length points > limit then
        (let buckets = limit div 2; n = length points in
         concat (map (\<lambda>bucket. let start = bucket_start n buckets bucket; finish = bucket_start n buckets (Suc bucket)
                   in if finish > start then bucket_extremes points start finish else []) [0..<buckets]))
      else points)"

text \<open>
  \<^verbatim>\<open>sig\<close>: a number rounded to four significant figures. An integer below \<open>10 ^ 4\<close> is kept; every other number goes
  through \<^verbatim>\<open>float(f"{value:.4g}")\<close>, which rounds the exact value of the double half to even in decimal and reads the text as
  a double, and becomes an integer when it is one below \<open>10 ^ 15\<close>. The number is the nearest double of the text it is kept as.
\<close>

definition SIG_FIGS :: nat where "SIG_FIGS = 4"

datatype chart_value = Same pyval | Whole int | Rounded rat

definition power_ten :: "int \<Rightarrow> rat" where
  "power_ten k = (if 0 \<le> k then 10 ^ nat k else 1 / 10 ^ nat (- k))"

definition decimal_number :: "int \<times> int \<Rightarrow> rat" where
  "decimal_number d = (case d of (m, e) \<Rightarrow> of_int m * power_ten e)"

definition leading_exponent :: "rat \<Rightarrow> int" where
  "leading_exponent r = (case quotient_of \<bar>r\<bar> of (p, q) \<Rightarrow>
     let k = int (length (dec (nat p))) - int (length (dec (nat q))) in if power_ten k \<le> \<bar>r\<bar> then k else k - 1)"

definition round_figures :: "nat \<Rightarrow> rat \<Rightarrow> rat" where
  "round_figures digits r =
     (let unit_value = power_ten (leading_exponent r - int digits + 1) in fl (of_int (py_round (r / unit_value)) * unit_value))"

definition sig_float :: "rat \<Rightarrow> chart_value" where
  "sig_float x =
     (if x = 0 then Whole 0
      else let rounded = round_figures SIG_FIGS x
           in if of_int \<lfloor>rounded\<rfloor> = rounded \<and> \<bar>rounded\<bar> < 10 ^ 15 then Whole \<lfloor>rounded\<rfloor> else Rounded rounded)"

definition sig :: "pyval \<Rightarrow> chart_value" where
  "sig v = (case v of
     PInt n \<Rightarrow> if \<bar>n\<bar> < 10 ^ SIG_FIGS then Same v else sig_float (fl (of_int n))
   | PFloat t \<Rightarrow> (case number_of v of Some d \<Rightarrow> if finite_float v then sig_float (fl (decimal_number d)) else Same PNone | None \<Rightarrow> Same PNone)
   | _ \<Rightarrow> Same v)"

definition decimate_points :: "pyval list \<Rightarrow> pyval list \<Rightarrow> nat \<Rightarrow> (chart_value \<times> chart_value) list" where
  "decimate_points xs ys limit = map (\<lambda>(x, y). (sig x, sig y)) (kept_samples xs ys limit)"

definition heatmap_step :: "nat \<Rightarrow> nat" where
  "heatmap_step intervals = max 1 ((intervals + HEATMAP_MAX_COLS - 1) div HEATMAP_MAX_COLS)"

text \<open>The windows of a heat map's cells, row by row, and the number of columns; a cell's byte is computed
  from its window.\<close>

definition heatmap_windows :: "'a list list \<Rightarrow> nat \<Rightarrow> 'a list list \<times> nat" where
  "heatmap_windows rows step =
     (let intervals = foldr max (map length rows) 0;
          columns = (if intervals \<noteq> 0 then (intervals + step - 1) div step else 0)
      in (concat (map (\<lambda>row. map (\<lambda>column. take step (drop (column * step) row)) [0..<columns]) rows), columns))"

subsection \<open>Worker processes fit in the memory that is left\<close>

lemma or_none_Inr: "or_none caught m = Inr (Some x) \<longleftrightarrow> m = Inr (Some x)"
  by (auto simp: or_none_def split: sum.splits)

lemma cgroup_headroom_nonneg:
  assumes "cgroup_headroom fs l u = Inr (Some h)"
  shows "0 \<le> h"
  using assms by (auto simp: cgroup_headroom_def or_none_Inr result_simps Let_def split: if_splits)

text \<open>The control groups a line of the process's file names, with the file of the limit and of the usage.\<close>

definition memory_groups :: "string \<Rightarrow> (path \<times> path) list" where
  "memory_groups line = (case split_cgroup_line line of
     Inl _ \<Rightarrow> []
   | Inr (_, controllers, path) \<Rightarrow>
       if controllers = []
       then map (\<lambda>d. (d @ [''memory.max''], d @ [''memory.current''])) (up_to_root CGROUP_ROOT (path_parts (lstrip_slashes path)))
       else if ''memory'' \<in> set (split_on (CHR '','') controllers)
       then map (\<lambda>d. (d @ [''memory.limit_in_bytes''], d @ [''memory.usage_in_bytes'']))
              (up_to_root (CGROUP_ROOT @ [''memory'']) (path_parts (lstrip_slashes path)))
       else [])"

lemma traverse_headroom:
  assumes "traverse f xs = Inr rooms" and "x \<in> set xs" and "f x = Inr (Some h)"
  shows "h \<in> set (List.map_filter id rooms)"
  using assms
  by (induction xs arbitrary: rooms) (auto simp: result_simps List.map_filter_simps split: option.splits)

lemma line_headrooms:
  assumes "cgroup_line_headrooms fs line = Inr rooms"
  shows "\<exists>all. traverse (\<lambda>(l, u). cgroup_headroom fs l u) (memory_groups line) = Inr all
    \<and> rooms = List.map_filter id all"
  using assms
  by (auto simp: cgroup_line_headrooms_def memory_groups_def result_simps traverse_eq_Inr list_all2_map1
      split: if_splits)

lemma line_headroom_listed:
  assumes "cgroup_line_headrooms fs line = Inr rooms"
    and "(l, u) \<in> set (memory_groups line)" and "cgroup_headroom fs l u = Inr (Some h)"
  shows "h \<in> set rooms"
  using line_headrooms [OF assms(1)] traverse_headroom [OF _ assms(2)] assms(3) by force

text \<open>One process is started whatever the memory; more only when all of them fit at their budget.\<close>

definition workers_fit :: "int \<Rightarrow> int \<Rightarrow> bool" where
  "workers_fit w bytes = (w = 1 \<or> w * REPORT_WORKER_BYTES \<le> bytes)"

lemma workers_fit_limited:
  assumes "w \<le> bytes div REPORT_WORKER_BYTES"
  shows "w * REPORT_WORKER_BYTES \<le> bytes"
  using assms by (simp add: REPORT_WORKER_BYTES_def)

lemma report_workers_fit_known:
  assumes "report_workers fs cpus = Inr w" and "available_memory_bytes fs = Inr available"
    and "cgroup_memory_bytes fs = Inr cgroup" and "Some bytes \<in> {available, cgroup}"
  shows "workers_fit w bytes"
proof -
  have "bytes \<in> set (List.map_filter id [available, cgroup])"
    using assms(4) by (auto simp: List.map_filter_simps split: option.splits)
  then have "List.map_filter id [available, cgroup] \<noteq> []"
    and "Min (set (List.map_filter id [available, cgroup])) \<le> bytes" by auto
  then show ?thesis
    using assms(1-3) workers_fit_limited [of w bytes]
      zdiv_mono1 [of "Min (set (List.map_filter id [available, cgroup]))" bytes REPORT_WORKER_BYTES]
    by (auto simp: report_workers_def Let_def workers_fit_def REPORT_WORKER_BYTES_def max_def split: if_splits)
qed

lemma cgroup_memory_at_most:
  assumes "cgroup_memory_bytes fs = Inr cgroup" and "read_ascii fs PROC_CGROUP = Inr text"
    and "line \<in> set (splitlines text)" and "(l, u) \<in> set (memory_groups line)"
    and "cgroup_headroom fs l u = Inr (Some h)"
  shows "\<exists>m\<le>h. cgroup = Some m"
proof -
  obtain rooms where r: "traverse (cgroup_line_headrooms fs) (splitlines text) = Inr rooms"
    and c: "cgroup = (if concat rooms = [] then None else Some (Min (set (concat rooms))))"
    using assms(1,2) by (auto simp: cgroup_memory_bytes_def result_simps)
  obtain room where "room \<in> set rooms" "cgroup_line_headrooms fs line = Inr room"
    using r assms(3) by (fastforce simp: traverse_eq_Inr list_all2_conv_all_nth in_set_conv_nth)
  then have "h \<in> set (concat rooms)" using line_headroom_listed assms(4,5) by fastforce
  then have "concat rooms \<noteq> []" and "Min (set (concat rooms)) \<le> h" by force+
  with c show ?thesis by simp
qed

lemma report_workers_largest:
  assumes "report_workers fs cpus = Inr w" and "w < cpus" and "w < MAX_REPORT_WORKERS"
  shows "\<exists>m. (available_memory_bytes fs = Inr (Some m) \<or> cgroup_memory_bytes fs = Inr (Some m)) \<and> m < (w + 1) * REPORT_WORKER_BYTES"
proof -
  obtain available cgroup where av: "available_memory_bytes fs = Inr available" and cg: "cgroup_memory_bytes fs = Inr cgroup"
    using assms(1) by (auto simp: report_workers_def result_simps)
  let ?known = "List.map_filter id [available, cgroup]"
  have known: "?known \<noteq> []" and w: "Min (set ?known) div REPORT_WORKER_BYTES \<le> w"
    using assms av cg by (auto simp: report_workers_def Let_def split: if_splits)
  have "Min (set ?known) \<in> set ?known" using known by (intro Min_in) auto
  moreover have "Min (set ?known) < (w + 1) * REPORT_WORKER_BYTES"
    using w by (simp add: REPORT_WORKER_BYTES_def)
  ultimately show ?thesis using av cg by (auto simp: List.map_filter_simps split: option.splits)
qed

text \<open>C18. The pool has at least one and at most eight processes and not more than there are processors. One process is started
  whatever the memory; when there are more than one, all of them at their budget fit into the memory the machine has available and into what
  every limited control group above the process still allows. There are as many as that allows: when there are fewer than eight and than processors,
  one more would not fit into the available memory or into the control groups.\<close>

theorem report_workers_fit:
  assumes "report_workers fs cpus = Inr w" and "1 \<le> cpus"
  shows "1 \<le> w \<and> w \<le> 8 \<and> w \<le> cpus
    \<and> (\<forall>bytes. available_memory_bytes fs = Inr (Some bytes) \<longrightarrow> workers_fit w bytes)
    \<and> (\<forall>content line l u h. read_ascii fs PROC_CGROUP = Inr content \<longrightarrow> line \<in> set (splitlines content)
         \<longrightarrow> (l, u) \<in> set (memory_groups line) \<longrightarrow> cgroup_headroom fs l u = Inr (Some h) \<longrightarrow> workers_fit w h)
    \<and> (w < cpus \<and> w < 8 \<longrightarrow> (\<exists>m. (available_memory_bytes fs = Inr (Some m) \<or> cgroup_memory_bytes fs = Inr (Some m))
         \<and> m < (w + 1) * REPORT_WORKER_BYTES))"
proof -
  obtain available cgroup where av: "available_memory_bytes fs = Inr available"
    and cg: "cgroup_memory_bytes fs = Inr cgroup"
    using assms(1) by (auto simp: report_workers_def result_simps)
  have "1 \<le> w \<and> w \<le> 8 \<and> w \<le> cpus"
    using assms av cg by (auto simp: report_workers_def Let_def MAX_REPORT_WORKERS_def)
  moreover have "workers_fit w bytes" if "available_memory_bytes fs = Inr (Some bytes)" for bytes
    using report_workers_fit_known [OF assms(1) that cg] by simp
  moreover have "workers_fit w h"
    if "read_ascii fs PROC_CGROUP = Inr content" "line \<in> set (splitlines content)"
      "(l, u) \<in> set (memory_groups line)" "cgroup_headroom fs l u = Inr (Some h)" for content line l u h
  proof -
    note listed = that
    obtain m where "m \<le> h" "cgroup = Some m" using cgroup_memory_at_most [OF cg listed] by blast
    then show ?thesis using report_workers_fit_known [OF assms(1) av cg, of m] by (auto simp: workers_fit_def)
  qed
  moreover have "\<exists>m. (available_memory_bytes fs = Inr (Some m) \<or> cgroup_memory_bytes fs = Inr (Some m)) \<and> m < (w + 1) * REPORT_WORKER_BYTES"
    if "w < cpus \<and> w < 8"
    using report_workers_largest [OF assms(1)] that by (simp add: MAX_REPORT_WORKERS_def)
  ultimately show ?thesis by blast
qed

text \<open>Evaluating \<^verbatim>\<open>int(text)\<close> in binary.\<close>

definition undec_int :: "string \<Rightarrow> int" where
  "undec_int s = foldl (\<lambda>a c. 10 * a + (of_char c - 48)) 0 s"

lemma undec_int:
  assumes "list_all is_digit s"
  shows "int (undec s) = undec_int s"
  using assms
proof (induction s rule: rev_induct)
  case (snoc c s)
  then have "48 \<le> code c" by (simp add: is_digit_def)
  moreover have "int (code c) = of_char c" by (rule of_nat_of_char)
  ultimately have "int (code c - 48) = of_char c - 48" by (simp add: of_nat_diff del: of_nat_of_char)
  with snoc show ?case by (simp add: undec_append undec_int_def del: of_nat_of_char)
qed (simp add: undec_def undec_int_def)

lemma py_int_code [code]:
  "py_int s =
     (let t = py_strip s;
          signed = t \<noteq> [] \<and> (hd t = CHR ''-'' \<or> hd t = CHR ''+'');
          groups = split_on (CHR ''_'') (if signed then tl t else t)
      in if list_all (\<lambda>g. g \<noteq> [] \<and> list_all is_digit g) groups
         then Inr (if t \<noteq> [] \<and> hd t = CHR ''-'' then - undec_int (concat groups) else undec_int (concat groups))
         else Inl (ValueError (''invalid literal for int() with base 10: '' @ repr_str s)))"
proof -
  have "int (undec (concat groups)) = undec_int (concat groups)"
    if "list_all (\<lambda>g. g \<noteq> [] \<and> list_all is_digit g) groups" for groups
    using that by (intro undec_int) (induction groups, auto)
  then show ?thesis by (simp add: py_int_def digit_groups_def Let_def)
qed

definition small_host :: fs_view where
  "small_host = regular_files
     [(MEMINFO, ''MemTotal: 9000000 kB'' @ [CHR 0x0A] @ ''MemAvailable: 4000000 kB'' @ [CHR 0x0A]),
      (PROC_CGROUP, ''0::/pod/app'' @ [CHR 0x0A]),
      (CGROUP_ROOT @ [''pod'', ''memory.max''], ''3000000000'' @ [CHR 0x0A]),
      (CGROUP_ROOT @ [''pod'', ''memory.current''], ''1000000000'' @ [CHR 0x0A])]"

lemma small_host_workers: "report_workers small_host 16 = Inr 2"
  by code_simp

theorem report_workers_fit_witness:
  "report_workers small_host 16 = Inr 2 \<and> workers_fit 2 (4000000 * 1024)"
proof -
  have "available_memory_bytes small_host = Inr (Some (4000000 * 1024))" by code_simp
  with report_workers_fit [OF small_host_workers] small_host_workers show ?thesis by simp
qed

subsection \<open>Buckets\<close>

text \<open>Two roundings are off by less than half a sample.\<close>

lemma bucket_product_near:
  assumes "k \<le> b" and "0 < b" and "n < 2 ^ 50"
  shows "\<bar>fl (of_nat k * fl (of_nat n / of_nat b)) - of_nat k * of_nat n / of_nat b\<bar> < 1 / 2"
proof -
  define u :: rat where "u = 1 / 2 ^ 53"
  define S :: rat where "S = of_nat n / of_nat b"
  define K :: rat where "K = of_nat k"
  have near: "\<bar>fl r - r\<bar> \<le> r * u" if "0 \<le> r" for r
    using fl_near [of r] that by (simp add: u_def)
  have u: "0 < u" "u \<le> 1" by (auto simp: u_def)
  have S: "0 \<le> S" "K * S \<le> of_nat n" "0 \<le> K"
    using assms(1,2) by (auto simp: S_def K_def field_simps mult_right_mono)
  have s: "\<bar>fl S - S\<bar> \<le> S * u" using S(1) by (rule near)
  have ks: "\<bar>K * fl S - K * S\<bar> \<le> K * S * u"
  proof -
    have "\<bar>K * fl S - K * S\<bar> = K * \<bar>fl S - S\<bar>" using S(3) by (simp add: abs_mult flip: right_diff_distrib)
    then show ?thesis using mult_left_mono [OF s S(3)] by (simp add: mult.assoc)
  qed
  have x: "\<bar>fl (K * fl S) - K * fl S\<bar> \<le> K * fl S * u" using S fl_nonneg by (intro near) simp
  have "K * S * u \<le> K * S" using u S by (simp add: mult_left_le)
  then have "K * fl S \<le> 2 * (K * S)" using ks by linarith
  then have "K * fl S * u \<le> 2 * (K * S) * u" using u by (intro mult_right_mono) auto
  then have "\<bar>fl (K * fl S) - K * S\<bar> \<le> 3 * (K * S * u)" using x ks by linarith
  also have "\<dots> \<le> 3 * (of_nat n * u)" using S u by (simp add: mult_right_mono)
  also have "\<dots> < 1 / 2"
  proof -
    have "(of_nat n :: rat) < 2 ^ 50" using assms(3) by (metis of_nat_less_iff of_nat_numeral of_nat_power)
    then show ?thesis by (simp add: u_def)
  qed
  finally show ?thesis by (simp add: K_def S_def)
qed

lemma bucket_start_near:
  assumes "k \<le> b" and "0 < b" and "n < 2 ^ 50"
  shows "rat_of_nat k * of_nat n / of_nat b - 3 / 2 < of_nat (bucket_start n b k)
    \<and> of_nat (bucket_start n b k) < rat_of_nat k * of_nat n / of_nat b + 1 / 2"
proof -
  define x where "x = fl (of_nat k * fl (of_nat n / of_nat b))"
  have x: "\<bar>x - of_nat k * of_nat n / of_nat b\<bar> < 1 / 2" unfolding x_def by (rule bucket_product_near [OF assms])
  have "0 \<le> x" unfolding x_def by (intro fl_nonneg mult_nonneg_nonneg) auto
  then have "(of_nat (nat \<lfloor>x\<rfloor>) :: rat) = of_int \<lfloor>x\<rfloor>" by simp
  moreover have "bucket_start n b k = nat \<lfloor>x\<rfloor>" by (simp add: bucket_start_def x_def)
  moreover have "of_int \<lfloor>x\<rfloor> \<le> x" "x < of_int \<lfloor>x\<rfloor> + 1" by linarith+
  ultimately show ?thesis using x by linarith
qed

lemma bucket_start_0 [simp]: "bucket_start n b 0 = 0"
  by (simp add: bucket_start_def)

lemma bucket_start_le:
  assumes "k \<le> b" and "0 < b" and "n < 2 ^ 50"
  shows "bucket_start n b k \<le> n"
proof -
  have "rat_of_nat k * of_nat n / of_nat b \<le> of_nat n" using assms by (simp add: field_simps mult_right_mono)
  then have "rat_of_nat (bucket_start n b k) < of_nat n + 1" using bucket_start_near [OF assms] by linarith
  then show ?thesis by linarith
qed


lemma bucket_start_strict:
  assumes "k < b" and "2 * b < n" and "n < 2 ^ 50"
  shows "bucket_start n b k < bucket_start n b (Suc k)"
proof -
  have b: "0 < b" using assms(1) by simp
  have "2 < rat_of_nat n / of_nat b" using assms by (simp add: field_simps)
  moreover have "rat_of_nat (Suc k) * of_nat n / of_nat b = of_nat k * of_nat n / of_nat b + of_nat n / of_nat b"
    by (simp add: add_divide_distrib distrib_right)
  ultimately have "rat_of_nat k * of_nat n / of_nat b + 2 < of_nat (Suc k) * of_nat n / of_nat b" by simp
  moreover have "rat_of_nat (bucket_start n b k) < of_nat k * of_nat n / of_nat b + 1 / 2"
    using bucket_start_near [of k b n] assms b by simp
  moreover have "rat_of_nat (Suc k) * of_nat n / of_nat b - 3 / 2 < of_nat (bucket_start n b (Suc k))"
    using bucket_start_near [of "Suc k" b n] assms b by simp
  ultimately show ?thesis by linarith
qed

subsection \<open>Decimation\<close>

text \<open>Comparing finite values compares the numbers they denote.\<close>

definition sample_value :: "pyval \<Rightarrow> real" where
  "sample_value v = (case number_of v of None \<Rightarrow> 0 | Some (m, e) \<Rightarrow> real_of_int m * 10 powr real_of_int e)"

lemma scaled_le_value:
  "scaled_le (m, e) (n, f) \<longleftrightarrow> real_of_int m * 10 powr real_of_int e \<le> real_of_int n * 10 powr real_of_int f"
proof -
  define k where "k = min e f"
  have p: "10 powr real_of_int i = 10 ^ nat (i - k) * 10 powr real_of_int k" if "k \<le> i" for i
  proof -
    have "(10::real) ^ nat (i - k) = 10 powr (real_of_int i - real_of_int k)"
      using that powr_realpow [of 10 "nat (i - k)"] by simp
    then show ?thesis by (simp flip: powr_add)
  qed
  have "real_of_int m * 10 powr real_of_int e = real_of_int (m * 10 ^ nat (e - k)) * 10 powr real_of_int k"
    and "real_of_int n * 10 powr real_of_int f = real_of_int (n * 10 ^ nat (f - k)) * 10 powr real_of_int k"
    using p [of e] p [of f] by (simp_all add: k_def)
  then have "real_of_int m * 10 powr real_of_int e \<le> real_of_int n * 10 powr real_of_int f
      \<longleftrightarrow> real_of_int (m * 10 ^ nat (e - k)) * 10 powr real_of_int k \<le> real_of_int (n * 10 ^ nat (f - k)) * 10 powr real_of_int k"
    by (simp only:)
  also have "\<dots> \<longleftrightarrow> real_of_int (m * 10 ^ nat (e - k)) \<le> real_of_int (n * 10 ^ nat (f - k))"
    by (subst mult_le_cancel_right_pos) simp_all
  also have "\<dots> \<longleftrightarrow> scaled_le (m, e) (n, f)" by (simp only: of_int_le_iff) (simp add: scaled_le_def Let_def k_def)
  finally show ?thesis by simp
qed

lemma num_le_value:
  assumes "finite_number v" and "finite_number w"
  shows "num_le v w \<longleftrightarrow> sample_value v \<le> sample_value w"
  using assms
  by (auto simp: finite_number_def finite_float_def num_le_def sample_value_def scaled_le_value number_of_def
      split: pyval.splits option.splits)

definition finite_points :: "(pyval \<times> pyval) list \<Rightarrow> bool" where
  "finite_points points = list_all (\<lambda>(x, y). finite_number x \<and> finite_number y) points"

abbreviation height :: "pyval \<times> pyval \<Rightarrow> real" where
  "height p \<equiv> sample_value (snd p)"

lemma finite_points_le:
  assumes "finite_points points" and "i < length points" and "j < length points"
  shows "num_le (snd (points ! i)) (snd (points ! j)) \<longleftrightarrow> height (points ! i) \<le> height (points ! j)"
  using assms by (intro num_le_value) (fastforce simp: finite_points_def list_all_length)+

text \<open>A fold that replaces the kept index by a better one ends in an index at least as good as all.\<close>

lemma foldl_best:
  fixes f :: "nat \<Rightarrow> real"
  assumes "\<And>a b. a \<in> insert m (set is) \<Longrightarrow> b \<in> set is \<Longrightarrow> g a b = (if f a < f b then b else a)"
  shows "foldl g m is \<in> insert m (set is) \<and> (\<forall>i\<in>insert m (set is). f i \<le> f (foldl g m is))"
  using assms
proof (induction "is" arbitrary: m)
  case (Cons i "is")
  have "g m i = (if f m < f i then i else m)" using Cons.prems by simp
  then have "g m i \<in> {m, i}" and "f m \<le> f (g m i)" "f i \<le> f (g m i)" by auto
  moreover have "foldl g (g m i) is \<in> insert (g m i) (set is)
      \<and> (\<forall>j\<in>insert (g m i) (set is). f j \<le> f (foldl g (g m i) is))"
    using calculation(1) by (intro Cons.IH Cons.prems) auto
  ultimately show ?case by fastforce
qed simp

lemma highest_best:
  assumes "finite_points points" and "chunk \<noteq> []" and "set chunk \<subseteq> {..<length points}"
  shows "highest points chunk \<in> set chunk
    \<and> (\<forall>i\<in>set chunk. height (points ! i) \<le> height (points ! highest points chunk))"
proof -
  obtain m "is" where c: "chunk = m # is" using assms(2) by (cases chunk) auto
  have "foldl (\<lambda>m i. if \<not> num_le (snd (points ! i)) (snd (points ! m)) then i else m) m is \<in> insert m (set is)
      \<and> (\<forall>i\<in>insert m (set is). height (points ! i)
          \<le> height (points ! foldl (\<lambda>m i. if \<not> num_le (snd (points ! i)) (snd (points ! m)) then i else m) m is))"
  proof (rule foldl_best)
    fix a b assume "a \<in> insert m (set is)" "b \<in> set is"
    then have "a < length points" "b < length points" using assms(3) by (auto simp: c)
    then show "(if \<not> num_le (snd (points ! b)) (snd (points ! a)) then b else a)
        = (if height (points ! a) < height (points ! b) then b else a)"
      using finite_points_le [OF assms(1)] by simp
  qed
  then show ?thesis by (simp add: c highest_def)
qed

lemma lowest_best:
  assumes "finite_points points" and "chunk \<noteq> []" and "set chunk \<subseteq> {..<length points}"
  shows "lowest points chunk \<in> set chunk
    \<and> (\<forall>i\<in>set chunk. height (points ! lowest points chunk) \<le> height (points ! i))"
proof -
  obtain m "is" where c: "chunk = m # is" using assms(2) by (cases chunk) auto
  have "foldl (\<lambda>m i. if \<not> num_le (snd (points ! m)) (snd (points ! i)) then i else m) m is \<in> insert m (set is)
      \<and> (\<forall>i\<in>insert m (set is). - height (points ! i)
          \<le> - height (points ! foldl (\<lambda>m i. if \<not> num_le (snd (points ! m)) (snd (points ! i)) then i else m) m is))"
  proof (rule foldl_best)
    fix a b assume "a \<in> insert m (set is)" "b \<in> set is"
    then have "a < length points" "b < length points" using assms(3) by (auto simp: c)
    then show "(if \<not> num_le (snd (points ! a)) (snd (points ! b)) then b else a)
        = (if - height (points ! a) < - height (points ! b) then b else a)"
      using finite_points_le [OF assms(1)] by simp
  qed
  then show ?thesis by (simp add: c lowest_def)
qed


definition bucket_chunk :: "nat \<Rightarrow> nat \<Rightarrow> nat \<Rightarrow> nat list" where
  "bucket_chunk n b k = [bucket_start n b k..<bucket_start n b (Suc k)]"

definition bucket_indices :: "(pyval \<times> pyval) list \<Rightarrow> nat \<Rightarrow> nat \<Rightarrow> nat list" where
  "bucket_indices points b k =
     (let chunk = bucket_chunk (length points) b k in sort (remdups [lowest points chunk, highest points chunk]))"

text \<open>Between one and two samples are kept of every bucket, and they bound all samples of the bucket.\<close>

lemma bucket_indices_bound:
  assumes "finite_points points" and "k < b" and "2 * b < length points" and "length points < 2 ^ 50"
  shows "set (bucket_indices points b k) \<subseteq> set (bucket_chunk (length points) b k)
    \<and> set (bucket_chunk (length points) b k) \<subseteq> {..<length points}
    \<and> (\<forall>i\<in>set (bucket_chunk (length points) b k). \<exists>l\<in>set (bucket_indices points b k). \<exists>h\<in>set (bucket_indices points b k).
        height (points ! l) \<le> height (points ! i) \<and> height (points ! i) \<le> height (points ! h))"
proof -
  let ?c = "bucket_chunk (length points) b k"
  have ne: "?c \<noteq> []" using bucket_start_strict [OF assms(2-4)] by (simp add: bucket_chunk_def)
  have sub: "set ?c \<subseteq> {..<length points}"
    using bucket_start_le [of "Suc k" b "length points"] assms by (auto simp: bucket_chunk_def)
  have "set (bucket_indices points b k) = {lowest points ?c, highest points ?c}"
    by (auto simp: bucket_indices_def Let_def)
  then show ?thesis
    using lowest_best [OF assms(1) ne sub] highest_best [OF assms(1) ne sub] sub by simp
qed

lemma bucket_start_mono:
  assumes "j \<le> k" and "k \<le> b" and "2 * b < n" and "n < 2 ^ 50"
  shows "bucket_start n b j \<le> bucket_start n b k"
  using assms
proof (induction k)
  case (Suc k)
  then show ?case using bucket_start_strict [of k b n] by (cases "j = Suc k") auto
qed simp

lemma kept_indices_sorted:
  assumes "finite_points points" and "m \<le> b" and "2 * b < length points" and "length points < 2 ^ 50"
  shows "sorted_wrt (<) (concat (map (bucket_indices points b) [0..<m]))
    \<and> set (concat (map (bucket_indices points b) [0..<m])) \<subseteq> {..<bucket_start (length points) b m}"
  using assms(2)
proof (induction m)
  case (Suc m)
  let ?k = "concat (map (bucket_indices points b) [0..<m])"
  have ih: "sorted_wrt (<) ?k" "set ?k \<subseteq> {..<bucket_start (length points) b m}" using Suc by auto
  have sub: "set (bucket_indices points b m) \<subseteq> {bucket_start (length points) b m..<bucket_start (length points) b (Suc m)}"
    using bucket_indices_bound [OF assms(1) _ assms(3,4), of m] Suc.prems by (auto simp: bucket_chunk_def)
  have "sorted_wrt (<) (bucket_indices points b m)"
    by (auto simp: bucket_indices_def Let_def strict_sorted_iff)
  moreover have "x < y" if "x \<in> set ?k" "y \<in> set (bucket_indices points b m)" for x y
    using ih(2) sub that by fastforce
  moreover have "bucket_start (length points) b m < bucket_start (length points) b (Suc m)"
    using bucket_start_strict [of m b "length points"] Suc.prems assms by simp
  then have "set ?k \<subseteq> {..<bucket_start (length points) b (Suc m)}" using ih(2) by fastforce
  ultimately show ?case using ih(1) sub by (auto simp: sorted_wrt_append)
qed simp




definition finite_samples :: "pyval list \<Rightarrow> pyval list \<Rightarrow> (pyval \<times> pyval) list" where
  "finite_samples xs ys = filter (\<lambda>(x, y). finite_number x \<and> finite_number y) (zip xs ys)"

lemma finite_samples_finite: "finite_points (finite_samples xs ys)"
  by (simp add: finite_points_def finite_samples_def list_all_iff)

lemma decimate_buckets:
  assumes "2 \<le> limit" and "limit < length (finite_samples xs ys)" and "length (finite_samples xs ys) < 2 ^ 50"
  shows "kept_samples xs ys limit =
    map ((!) (finite_samples xs ys)) (concat (map (bucket_indices (finite_samples xs ys) (limit div 2)) [0..<limit div 2]))"
proof -
  let ?p = "finite_samples xs ys" and ?b = "limit div 2"
  have b: "2 * ?b < length ?p" using assms(2) by linarith
  let ?kept = "\<lambda>k. if bucket_start (length ?p) ?b (Suc k) > bucket_start (length ?p) ?b k
    then bucket_extremes ?p (bucket_start (length ?p) ?b k) (bucket_start (length ?p) ?b (Suc k)) else []"
  have "map ?kept [0..<?b] = map (map ((!) ?p) \<circ> bucket_indices ?p ?b) [0..<?b]"
    using bucket_start_strict [OF _ b assms(3)]
    by (intro map_cong) (simp_all add: bucket_extremes_def bucket_indices_def bucket_chunk_def Let_def del: remdups.simps)
  then have "concat (map ?kept [0..<?b]) = map ((!) ?p) (concat (map (bucket_indices ?p ?b) [0..<?b]))"
    by (simp only: map_concat map_map)
  moreover have "kept_samples xs ys limit = concat (map ?kept [0..<?b])"
    using assms(1,2) by (simp add: kept_samples_def Let_def flip: finite_samples_def)
  ultimately show ?thesis by (simp only:)
qed


subsection \<open>Rounding for display\<close>













lemma decimate_shown:
  "(a, b) \<in> set (decimate_points xs ys limit) \<Longrightarrow> \<exists>x y. (x, y) \<in> set (kept_samples xs ys limit) \<and> sig x = a \<and> sig y = b"
  by (auto simp: decimate_points_def)

text \<open>The last bucket can end before the last sample: a peak in the last of 313 samples is not drawn.\<close>

lemma decimate_loses_last_peak:
  "(Same (PInt 312), Same (PInt 312)) \<notin> set (decimate_points (map (PInt \<circ> int) [0..<313]) (map (PInt \<circ> int) [0..<313]) MAX_POINTS)"
proof -
  let ?s = "map (PInt \<circ> int) [0..<313]"
  have p: "finite_samples ?s ?s = map (\<lambda>i. (PInt (int i), PInt (int i))) [0..<313]"
    by (simp only: finite_samples_def zip_map_map zip_same_conv_map map_map)
      (simp add: filter_map comp_def finite_number_def split_def del: upt_Suc)
  have "bucket_start 313 150 150 = 312" by code_simp
  then have k: "set (concat (map (bucket_indices (finite_samples ?s ?s) 150) [0..<150])) \<subseteq> {..<312}"
    using kept_indices_sorted [OF finite_samples_finite [of ?s ?s], of 150 150] by (simp add: p del: upt_Suc)
  have "kept_samples ?s ?s MAX_POINTS
      = map ((!) (finite_samples ?s ?s)) (concat (map (bucket_indices (finite_samples ?s ?s) 150) [0..<150]))"
    using decimate_buckets [of MAX_POINTS ?s ?s] by (simp add: p MAX_POINTS_def del: upt_Suc)
  moreover have "finite_samples ?s ?s ! i \<noteq> (PInt 312, PInt 312)" if "i < 312" for i
    using that by (simp add: p nth_map_upt del: upt_Suc)
  ultimately have "(PInt 312, PInt 312) \<notin> set (kept_samples ?s ?s MAX_POINTS)" using k by (force simp del: upt_Suc)
  moreover have "sig v = Same (PInt 312) \<Longrightarrow> v = PInt 312" for v
    by (auto simp: sig_def sig_float_def Let_def split: pyval.splits if_splits option.splits)
  ultimately show ?thesis using decimate_shown [of "Same (PInt 312)" "Same (PInt 312)" ?s ?s MAX_POINTS] by metis
qed

subsection \<open>Heat maps\<close>

text \<open>With the step chosen for the longest row a heat map has at most 160 columns, and the windows of a row's
  cells hold every sample of the row, once and in order.\<close>

lemma heatmap_columns_bounded:
  "(intervals + heatmap_step intervals - 1) div heatmap_step intervals \<le> HEATMAP_MAX_COLS"
proof -
  let ?s = "heatmap_step intervals"
  have s: "1 \<le> ?s" "intervals \<le> 160 * ?s" by (auto simp: heatmap_step_def HEATMAP_MAX_COLS_def)
  then have "intervals + ?s - 1 < 161 * ?s" by linarith
  then show ?thesis using s(1) by (simp add: HEATMAP_MAX_COLS_def div_less_iff_less_mult flip: less_Suc_eq_le)
qed

lemma windows_concat:
  "concat (map (\<lambda>column. take step (drop (column * step) row)) [0..<columns]) = take (columns * step) row"
  by (induction columns) (simp_all add: add.commute flip: take_add)

lemma row_windows_complete:
  assumes "length row \<le> intervals" and "0 < step"
  shows "concat (map (\<lambda>column. take step (drop (column * step) row)) [0..<(intervals + step - 1) div step]) = row"
proof -
  have "intervals \<le> (intervals + step - 1) div step * step"
    using assms(2) div_mult_mod_eq [of "intervals + step - 1" step] mod_less_divisor [OF assms(2), of "intervals + step - 1"]
    by linarith
  then show ?thesis using assms(1) by (simp add: windows_concat)
qed

end
