(* ===== verification/PyFloats.thy ===== *)
theory PyFloats
  imports PyDouble PyValues
begin

section \<open>Floats of texts and their statistics\<close>

text \<open>
  \<^verbatim>\<open>float\<close> of a text, rounding to decimal digits, and \<^verbatim>\<open>statistics.mean\<close> and
  \<^verbatim>\<open>statistics.stdev\<close> of finite values: the interpreter (3.12) computes both from exact fractions and rounds once.
\<close>

subsection \<open>Reading a float\<close>

text \<open>\<^verbatim>\<open>float(text)\<close>: digits may be grouped by single underscores, the fraction and the
  exponent are optional, and a value that rounds beyond the largest double is infinite, like the texts that say so.\<close>

definition underscored :: "string \<Rightarrow> string option" where
  "underscored s = (let groups = split_on (CHR ''_'') s in
     if list_all (\<lambda>g. g \<noteq> [] \<and> list_all is_digit g) groups then Some (concat groups) else None)"

definition optional_digits :: "string \<Rightarrow> string option" where
  "optional_digits s = (if s = [] then Some [] else underscored s)"

definition is_exponent_mark :: "char \<Rightarrow> bool" where
  "is_exponent_mark c = (c = CHR ''e'' \<or> c = CHR ''E'')"

definition decimal_value :: "string \<Rightarrow> string \<Rightarrow> int \<Rightarrow> rat" where
  "decimal_value whole fraction e =
     (let m = of_nat (undec (whole @ fraction)); k = e - int (length fraction)
      in if k < 0 then m / 10 ^ nat (- k) else m * 10 ^ nat k)"

definition unsigned_float :: "string \<Rightarrow> rat option" where
  "unsigned_float s =
     (let mantissa = takeWhile (\<lambda>c. \<not> is_exponent_mark c) s;
          exponent = dropWhile (\<lambda>c. \<not> is_exponent_mark c) s;
          dotted = CHR ''.'' \<in> set mantissa;
          whole = optional_digits (takeWhile (\<lambda>c. c \<noteq> CHR ''.'') mantissa);
          fraction = optional_digits (if dotted then tl (dropWhile (\<lambda>c. c \<noteq> CHR ''.'') mantissa) else []);
          e = (if exponent = [] then Some 0
               else if tl exponent = [] \<or> py_space (hd (tl exponent)) then None
               else (case py_int (tl exponent) of Inr n \<Rightarrow> Some n | Inl _ \<Rightarrow> None))
      in case (whole, fraction, e) of
           (Some w, Some f, Some n) \<Rightarrow> if w = [] \<and> f = [] then None else Some (decimal_value w f n)
         | _ \<Rightarrow> None)"

definition MAX_DOUBLE :: rat where "MAX_DOUBLE = (2 - 1 / 2 ^ 52) * 2 ^ 1023"

definition finite_or_none :: "rat \<Rightarrow> rat option" where
  "finite_or_none r = (if \<bar>fl r\<bar> \<le> MAX_DOUBLE then Some (fl r) else None)"

datatype pyfloat = Finite rat | Nonfinite

definition nonfinite_text :: "string \<Rightarrow> bool" where
  "nonfinite_text s = (py_lower s \<in> {''nan'', ''inf'', ''infinity''})"

definition float_of_text :: "string \<Rightarrow> pyfloat option" where
  "float_of_text s = (let t = py_strip s in
     case t of [] \<Rightarrow> None
     | c # r \<Rightarrow>
         (let u = (if c = CHR ''-'' \<or> c = CHR ''+'' then r else t) in
          if nonfinite_text u then Some Nonfinite
          else (case unsigned_float u of
            None \<Rightarrow> None
          | Some x \<Rightarrow> (case finite_or_none (if c = CHR ''-'' then - x else x) of
               None \<Rightarrow> Some Nonfinite | Some y \<Rightarrow> Some (Finite y)))))"

text \<open>The finite ones.\<close>

definition parse_float :: "string \<Rightarrow> rat option" where
  "parse_float s = (case float_of_text s of Some (Finite x) \<Rightarrow> Some x | _ \<Rightarrow> None)"

subsection \<open>Rounding to decimal digits\<close>

text \<open>\<^verbatim>\<open>round(x, n)\<close>: the exact value is rounded to a decimal text, which is read again.\<close>

definition round_digits :: "nat \<Rightarrow> rat \<Rightarrow> rat" where
  "round_digits n x = fl (of_int (py_round (x * 10 ^ n)) / 10 ^ n)"

subsection \<open>Mean and standard deviation\<close>

definition py_mean :: "rat list \<Rightarrow> rat" where
  "py_mean xs = fl (sum_list xs / of_nat (length xs))"

text \<open>\<^verbatim>\<open>math.isqrt\<close>\<close>

function isqrt :: "int \<Rightarrow> int" where
  "isqrt n = (if n \<le> 0 then 0 else let r = 2 * isqrt (n div 4) in if (r + 1) * (r + 1) \<le> n then r + 1 else r)"
  by pat_completeness auto
termination by (relation "measure nat") auto

declare isqrt.simps [simp del]

text \<open>\<^verbatim>\<open>_integer_sqrt_of_frac_rto\<close> and \<^verbatim>\<open>_float_sqrt_of_frac\<close> of the module \<^verbatim>\<open>statistics\<close>\<close>

definition sqrt_to_odd :: "int \<Rightarrow> int \<Rightarrow> int" where
  "sqrt_to_odd n m = (let a = isqrt (n div m) in if a * a * m \<noteq> n \<and> even a then a + 1 else a)"

definition float_sqrt :: "rat \<Rightarrow> rat" where
  "float_sqrt r = (case quotient_of r of (n, m) \<Rightarrow>
     let q = (int (bit_length n) - int (bit_length m) - 109) div 2
     in if q \<ge> 0 then fl (of_int (sqrt_to_odd n (m * 4 ^ nat q) * 2 ^ nat q))
        else fl (of_int (sqrt_to_odd (n * 4 ^ nat (- q)) m) / 2 ^ nat (- q)))"

definition py_stdev :: "rat list \<Rightarrow> rat" where
  "py_stdev xs =
     (let n = of_nat (length xs); sx = sum_list xs; sxx = sum_list (map (\<lambda>x. x * x) xs)
      in float_sqrt ((n * sxx - sx * sx) / n / (n - 1)))"

lemma isqrt_bounds:
  assumes "0 \<le> n"
  shows "0 \<le> isqrt n \<and> isqrt n * isqrt n \<le> n \<and> n < (isqrt n + 1) * (isqrt n + 1)"
  using assms
proof (induction n rule: isqrt.induct)
  case (1 n)
  show ?case
  proof (cases "n = 0")
    case True
    then show ?thesis by (simp add: isqrt.simps)
  next
    case False
    define r where "r = isqrt (n div 4)"
    have r: "0 \<le> r" "r * r \<le> n div 4" "n div 4 < (r + 1) * (r + 1)" using 1 False by (simp_all add: r_def)
    then have "4 * (r * r) \<le> n" "n < 4 * ((r + 1) * (r + 1))" by linarith+
    then have "(2 * r) * (2 * r) \<le> n" "n < (2 * r + 2) * (2 * r + 2)" by (simp_all add: algebra_simps)
    moreover have "isqrt n = (if (2 * r + 1) * (2 * r + 1) \<le> n then 2 * r + 1 else 2 * r)"
      using 1(2) False by (simp add: isqrt.simps [of n] r_def Let_def)
    ultimately show ?thesis using r(1) by (auto simp: algebra_simps)
  qed
qed

end
