(* ===== verification/LiveRows.thy ===== *)
theory LiveRows
  imports PyFloats PyNumbers
begin

section \<open>Live CSV rows and the first pass over them (lib/elbencho\_live\_report.py)\<close>

text \<open>
  The elbencho live CSV has one row per client and interval and one \<^verbatim>\<open>Total\<close> row per interval. Rows are
  parsed, repeated phases are numbered as separate occurrences, and a first streaming pass cuts each
  domain (phase, mix type, occurrence) into intervals, one per run of equal \<^verbatim>\<open>RuntimeMS\<close>, derives rates between
  adjacent intervals and counts what is missing or invalid. The rows a model starts from are the cells the
  CSV reader returns; reading the file is not modelled. Floats are as in PyDouble. The mean and the standard
  deviation of the fleet are left out: the interpreter's \<^verbatim>\<open>sum\<close> of floats and \<^verbatim>\<open>math.sqrt\<close> are not specified
  to the bit, and nothing else depends on them.
\<close>

subsection \<open>Names, keys and columns\<close>

definition MIB :: int where "MIB = 1024 * 1024"
definition TOTAL_RANK :: string where "TOTAL_RANK = ''Total''"
definition SKIPPED_METADATA_PHASES :: "string list" where
  "SKIPPED_METADATA_PHASES = [''MKDIRS'', ''RMDIRS'', ''RMFILES'', ''STAT'', ''STATDIRS'']"
definition OCCURRENCE_RATE_JUMP_MAX_MS :: int where "OCCURRENCE_RATE_JUMP_MAX_MS = 100"
definition OCCURRENCE_RATE_JUMP_FACTOR :: rat where "OCCURRENCE_RATE_JUMP_FACTOR = 4"
definition IO_LATENCY_COLUMN :: string where "IO_LATENCY_COLUMN = ''Lat IO us''"
definition ENTRIES_LATENCY_COLUMN :: string where "ENTRIES_LATENCY_COLUMN = ''Lat Ent us''"
definition MALFORMED_CLIENT_ROWS :: string where "MALFORMED_CLIENT_ROWS = ''malformed_client_rows''"
definition MALFORMED_LINES_REPORTED :: nat where "MALFORMED_LINES_REPORTED = 5"
definition REQUIRED_COLUMNS :: "string list" where
  "REQUIRED_COLUMNS = [''ISO Date'', ''Phase'', ''RuntimeMS'', ''Rank'', ''MixType'', ''DoneBytes'', ''MiB/s'', ''IOPS'', ''Service'']"

record live_domain_key =
  dk_phase :: string
  dk_mix_type :: string
  dk_occurrence :: nat

record live_client_id =
  cl_rank :: string
  cl_service :: string

text \<open>\<^verbatim>\<open>LiveDomainKey.label\<close>, \<^verbatim>\<open>LiveClientId.label\<close>\<close>

definition domain_label :: "live_domain_key \<Rightarrow> string" where
  "domain_label k =
     (let base = (if dk_mix_type k \<noteq> [] then dk_phase k @ '' ('' @ dk_mix_type k @ '')'' else dk_phase k)
      in if dk_occurrence k \<noteq> 0 then base @ '' occurrence '' @ dec (dk_occurrence k + 1) else base)"

definition client_label :: "live_client_id \<Rightarrow> string" where
  "client_label c = (if cl_service c \<noteq> [] then cl_service c @ '' [rank '' @ cl_rank c @ '']'' else ''worker-'' @ cl_rank c)"

record live_csv_columns =
  lc_iso_date :: nat
  lc_phase :: nat
  lc_runtime_ms :: nat
  lc_rank :: nat
  lc_mix_type :: nat
  lc_done_bytes :: nat
  lc_mib_per_sec :: nat
  lc_iops :: nat
  lc_service :: nat
  lc_io_latency :: "nat option"
  lc_entries_latency :: "nat option"

definition header_positions :: "string list \<Rightarrow> (string, nat) dict" where
  "header_positions header = foldl (\<lambda>d (i, name). dict_set name i d) [] (enumerate 0 header)"

definition column_at :: "(string, nat) dict \<Rightarrow> string \<Rightarrow> nat" where
  "column_at positions name = (case dict_get positions name of Some i \<Rightarrow> i | None \<Rightarrow> 0)"

definition columns_from_header :: "string list option \<Rightarrow> string \<Rightarrow> live_csv_columns result" where
  "columns_from_header header path =
     (let positions = header_positions (case header of None \<Rightarrow> [] | Some h \<Rightarrow> h);
          missing = filter (\<lambda>name. dict_get positions name = None) (sort REQUIRED_COLUMNS)
      in if missing \<noteq> [] then Inl (ValueError (''Live CSV '' @ path @ '' is missing required columns: '' @ join '', '' missing))
         else Inr \<lparr> lc_iso_date = column_at positions ''ISO Date'', lc_phase = column_at positions ''Phase'',
           lc_runtime_ms = column_at positions ''RuntimeMS'', lc_rank = column_at positions ''Rank'',
           lc_mix_type = column_at positions ''MixType'', lc_done_bytes = column_at positions ''DoneBytes'',
           lc_mib_per_sec = column_at positions ''MiB/s'', lc_iops = column_at positions ''IOPS'',
           lc_service = column_at positions ''Service'', lc_io_latency = dict_get positions IO_LATENCY_COLUMN,
           lc_entries_latency = dict_get positions ENTRIES_LATENCY_COLUMN \<rparr>)"

subsection \<open>Cells\<close>

definition optional_float_cell :: "string \<Rightarrow> rat option" where
  "optional_float_cell value = (if value = [] then None else parse_float value)"

definition optional_int_cell :: "string \<Rightarrow> int option" where
  "optional_int_cell value = (if value = [] then None else case py_int value of Inr n \<Rightarrow> Some n | Inl _ \<Rightarrow> None)"

definition optional_cell :: "string list \<Rightarrow> nat option \<Rightarrow> rat option" where
  "optional_cell row index = (case index of None \<Rightarrow> None
     | Some i \<Rightarrow> if i \<ge> length row then None else optional_float_cell (row ! i))"

subsection \<open>Rows\<close>

record parsed_row =
  pr_key :: live_domain_key
  pr_runtime_ms :: int
  pr_iso_timestamp :: string
  pr_rank :: string
  pr_client :: "live_client_id option"
  pr_done_bytes :: "int option"
  pr_mib_s :: "rat option"
  pr_iops :: "rat option"
  pr_io_latency_us :: "rat option"
  pr_entries_latency_us :: "rat option"

definition required_cells :: "live_csv_columns \<Rightarrow> nat list" where
  "required_cells c = [lc_phase c, lc_runtime_ms c, lc_rank c, lc_iso_date c, lc_mix_type c, lc_done_bytes c,
     lc_mib_per_sec c, lc_iops c, lc_service c]"

definition parse_row :: "string list \<Rightarrow> live_csv_columns \<Rightarrow> parsed_row option" where
  "parse_row row columns =
     (if list_ex (\<lambda>i. i \<ge> length row) (required_cells columns) then None
      else let phase = py_strip (row ! lc_phase columns); rank = py_strip (row ! lc_rank columns)
      in if phase = [] \<or> upper_ascii phase \<in> set SKIPPED_METADATA_PHASES then None
      else case py_int (row ! lc_runtime_ms columns) of Inl _ \<Rightarrow> None
      | Inr runtime_ms \<Rightarrow>
        let base = \<lparr> pr_key = \<lparr> dk_phase = phase, dk_mix_type = py_strip (row ! lc_mix_type columns), dk_occurrence = 0 \<rparr>,
              pr_runtime_ms = runtime_ms, pr_iso_timestamp = py_strip (row ! lc_iso_date columns), pr_rank = rank,
              pr_client = None, pr_done_bytes = None, pr_mib_s = None, pr_iops = None,
              pr_io_latency_us = None, pr_entries_latency_us = None \<rparr>;
            latencies = base \<lparr> pr_io_latency_us := optional_cell row (lc_io_latency columns),
              pr_entries_latency_us := optional_cell row (lc_entries_latency columns) \<rparr>
        in if rank = TOTAL_RANK then
             Some (latencies \<lparr> pr_done_bytes := optional_int_cell (row ! lc_done_bytes columns),
               pr_mib_s := optional_float_cell (row ! lc_mib_per_sec columns), pr_iops := optional_float_cell (row ! lc_iops columns) \<rparr>)
           else if rank = [] then Some base
           else Some (latencies \<lparr> pr_client := Some \<lparr> cl_rank = rank, cl_service = py_strip (row ! lc_service columns) \<rparr>,
               pr_done_bytes := optional_int_cell (row ! lc_done_bytes columns) \<rparr>))"

subsection \<open>Occurrences\<close>

text \<open>Who a row speaks for: the whole fleet, a client, or nobody when the rank is empty.\<close>

datatype row_identity = Fleet | Client "live_client_id option"

record occurrence_state =
  os_occurrence :: nat
  os_runtime_ms :: "int option"
  os_identities :: "row_identity list"
  os_total_done_bytes :: "int option"

definition new_occurrence_state :: occurrence_state where
  "new_occurrence_state = \<lparr> os_occurrence = 0, os_runtime_ms = None, os_identities = [], os_total_done_bytes = None \<rparr>"

definition total_rate_jump_restarted :: "occurrence_state \<Rightarrow> int \<Rightarrow> int option \<Rightarrow> rat option \<Rightarrow> bool" where
  "total_rate_jump_restarted state runtime_ms done_bytes aggregate_mib_s =
     (case (os_runtime_ms state, os_total_done_bytes state, done_bytes, aggregate_mib_s) of
        (Some before_ms, Some before_bytes, Some bytes, Some mib_s) \<Rightarrow>
          let elapsed_ms = runtime_ms - before_ms; byte_delta = bytes - before_bytes in
          if mib_s \<le> 0 then False
          else if elapsed_ms \<le> 0 \<or> byte_delta \<le> 0 then False
          else if elapsed_ms > OCCURRENCE_RATE_JUMP_MAX_MS then False
          else let implied_mib_s = fl (fl (fl (fl (of_int byte_delta) * 1000) / of_int elapsed_ms) / of_int MIB);
                   restart_threshold = max (fl (mib_s * OCCURRENCE_RATE_JUMP_FACTOR)) (fl (mib_s + 1))
               in implied_mib_s > restart_threshold
      | _ \<Rightarrow> False)"

definition starts_new_occurrence ::
  "occurrence_state \<Rightarrow> int \<Rightarrow> row_identity \<Rightarrow> int option \<Rightarrow> rat option \<Rightarrow> bool" where
  "starts_new_occurrence state runtime_ms identity done_bytes aggregate_mib_s =
     (case os_runtime_ms state of
        None \<Rightarrow> False
      | Some before_ms \<Rightarrow>
          identity = Fleet \<and>
          (runtime_ms < before_ms \<or> runtime_ms = before_ms \<and> identity \<in> set (os_identities state)
           \<or> (case (done_bytes, os_total_done_bytes state) of (Some bytes, Some counted) \<Rightarrow> bytes < counted | _ \<Rightarrow> False)
           \<or> total_rate_jump_restarted state runtime_ms done_bytes aggregate_mib_s))"

definition occurrence_step ::
  "occurrence_state \<Rightarrow> int \<Rightarrow> row_identity \<Rightarrow> int option \<Rightarrow> rat option \<Rightarrow> occurrence_state" where
  "occurrence_step state runtime_ms identity done_bytes aggregate_mib_s =
     (let state1 = (if starts_new_occurrence state runtime_ms identity done_bytes aggregate_mib_s
                    then state \<lparr> os_occurrence := os_occurrence state + 1, os_identities := [], os_total_done_bytes := None \<rparr>
                    else if os_runtime_ms state \<noteq> Some runtime_ms then state \<lparr> os_identities := [] \<rparr> else state);
          state2 = state1 \<lparr> os_runtime_ms := Some runtime_ms, os_identities := identity # os_identities state1 \<rparr>
      in if identity = Fleet \<and> done_bytes \<noteq> None then state2 \<lparr> os_total_done_bytes := done_bytes \<rparr> else state2)"

type_synonym tracker = "(string \<times> string, occurrence_state) dict"

definition row_identity_of :: "parsed_row \<Rightarrow> row_identity" where
  "row_identity_of r = (if pr_rank r = TOTAL_RANK then Fleet else Client (pr_client r))"

definition domain_key :: "parsed_row \<Rightarrow> tracker \<Rightarrow> tracker \<times> live_domain_key" where
  "domain_key r tracker =
     (let base = (dk_phase (pr_key r), dk_mix_type (pr_key r));
          state = (case dict_get tracker base of None \<Rightarrow> new_occurrence_state | Some s \<Rightarrow> s);
          state' = occurrence_step state (pr_runtime_ms r) (row_identity_of r) (pr_done_bytes r) (pr_mib_s r)
      in (dict_set base state' tracker, (pr_key r) \<lparr> dk_occurrence := os_occurrence state' \<rparr>))"

fun track_rows :: "tracker \<Rightarrow> parsed_row list \<Rightarrow> parsed_row list" where
  "track_rows tracker [] = []"
| "track_rows tracker (r # rs) =
     (case domain_key r tracker of (tracker', key) \<Rightarrow> r \<lparr> pr_key := key \<rparr> # track_rows tracker' rs)"

definition iter_parsed_rows :: "string list list \<Rightarrow> live_csv_columns \<Rightarrow> parsed_row list" where
  "iter_parsed_rows rows columns = track_rows [] (List.map_filter (\<lambda>row. parse_row row columns) rows)"

subsection \<open>Percentiles\<close>

definition percentile_from_sorted :: "rat list \<Rightarrow> int \<Rightarrow> rat" where
  "percentile_from_sorted ordered percentile =
     (case ordered of [] \<Rightarrow> 0 | [x] \<Rightarrow> x
      | _ \<Rightarrow>
        let position = fl (of_int ((int (length ordered) - 1) * percentile) / 100);
            lower = \<lfloor>position\<rfloor>; upper = \<lceil>position\<rceil>
        in if lower = upper then ordered ! nat lower
           else let fraction = fl (position - of_int lower)
                in fl (fl (fl (ordered ! nat lower) * fl (1 - fraction)) + fl (fl (ordered ! nat upper) * fraction)))"

text \<open>\<^verbatim>\<open>P2Median\<close>: five markers that follow the minimum, the quartiles and the maximum.\<close>

record p2_median =
  p2_initial :: "rat list"
  p2_heights :: "rat list"
  p2_positions :: "int list"
  p2_desired :: "rat list"

definition new_p2_median :: p2_median where
  "new_p2_median = \<lparr> p2_initial = [], p2_heights = [], p2_positions = [], p2_desired = [] \<rparr>"

definition initialize_markers :: "p2_median \<Rightarrow> p2_median" where
  "initialize_markers m = m \<lparr> p2_initial := sort (p2_initial m), p2_heights := sort (p2_initial m),
     p2_positions := [1, 2, 3, 4, 5], p2_desired := [1, 2, 3, 4, 5] \<rparr>"

definition find_marker :: "p2_median \<Rightarrow> rat \<Rightarrow> p2_median \<times> nat" where
  "find_marker m value =
     (let h = p2_heights m in
      if value < h ! 0 then (m \<lparr> p2_heights := h[0 := value] \<rparr>, 0)
      else if value \<ge> h ! 4 then (m \<lparr> p2_heights := h[4 := value] \<rparr>, 3)
      else (m, (case filter (\<lambda>i. h ! i \<le> value \<and> value < h ! Suc i) [0, 1, 2, 3] of i # _ \<Rightarrow> i | [] \<Rightarrow> 3)))"

definition can_move :: "p2_median \<Rightarrow> nat \<Rightarrow> int \<Rightarrow> bool" where
  "can_move m i direction =
     (let n = p2_positions m in
      direction > 0 \<and> n ! Suc i - n ! i > 1 \<or> direction < 0 \<and> n ! (i - 1) - n ! i < - 1)"

definition parabolic_height :: "p2_median \<Rightarrow> nat \<Rightarrow> int \<Rightarrow> rat" where
  "parabolic_height m i direction =
     (let n = p2_positions m; h = p2_heights m;
          left = fl (fl (of_int (n ! i - n ! (i - 1) + direction) * fl (h ! Suc i - h ! i)) / of_int (n ! Suc i - n ! i));
          right = fl (fl (of_int (n ! Suc i - n ! i - direction) * fl (h ! i - h ! (i - 1))) / of_int (n ! i - n ! (i - 1)))
      in fl (h ! i + fl (fl (of_int direction * fl (left + right)) / of_int (n ! Suc i - n ! (i - 1)))))"

definition linear_height :: "p2_median \<Rightarrow> nat \<Rightarrow> int \<Rightarrow> rat" where
  "linear_height m i direction =
     (let n = p2_positions m; h = p2_heights m; neighbor = nat (int i + direction)
      in fl (h ! i + fl (fl (of_int direction * fl (h ! neighbor - h ! i)) / of_int (n ! neighbor - n ! i))))"

definition adjust_marker :: "p2_median \<Rightarrow> nat \<Rightarrow> p2_median" where
  "adjust_marker m i =
     (let delta = fl (p2_desired m ! i - of_int (p2_positions m ! i));
          direction = (if delta \<ge> 1 then 1 else if delta \<le> - 1 then - 1 else 0)
      in if direction = 0 \<or> \<not> can_move m i direction then m
         else let candidate = parabolic_height m i direction;
                  height = (if p2_heights m ! (i - 1) < candidate \<and> candidate < p2_heights m ! Suc i then candidate
                            else linear_height m i direction)
              in m \<lparr> p2_heights := (p2_heights m)[i := height],
                     p2_positions := (p2_positions m)[i := p2_positions m ! i + direction] \<rparr>)"

definition p2_add :: "rat \<Rightarrow> p2_median \<Rightarrow> p2_median" where
  "p2_add value m =
     (if length (p2_initial m) < 5 then
        let m' = m \<lparr> p2_initial := p2_initial m @ [value] \<rparr>
        in if length (p2_initial m') = 5 then initialize_markers m' else m'
      else case find_marker m value of (m1, marker) \<Rightarrow>
        let m2 = m1 \<lparr> p2_positions := map (\<lambda>(i, n). if marker < i then n + 1 else n) (enumerate 0 (p2_positions m1)),
              p2_desired := map2 (\<lambda>d increment. fl (d + increment)) (p2_desired m1) [0, 1 / 4, 1 / 2, 3 / 4, 1] \<rparr>
        in foldl adjust_marker m2 [1, 2, 3])"

definition p2_value :: "p2_median \<Rightarrow> rat" where
  "p2_value m = (if p2_initial m = [] then 0
     else if length (p2_initial m) < 5 then percentile_from_sorted (sort (p2_initial m)) 50
     else p2_heights m ! 2)"

subsection \<open>The first pass\<close>

record client_summary =
  sm_client :: live_client_id
  sm_sample_count :: nat
  sm_mean_mib_s :: rat
  sm_mean_square_delta :: rat
  sm_median_estimator :: p2_median
  sm_relative_median_sum :: rat
  sm_relative_median_count :: nat
  sm_missing_count :: nat
  sm_invalid_count :: nat
  sm_final_done_bytes :: "int option"
  sm_finish_elapsed_ms :: "int option"
  sm_first_progress_interval :: "nat option"

definition new_summary :: "live_client_id \<Rightarrow> nat \<Rightarrow> client_summary" where
  "new_summary client missing = \<lparr> sm_client = client, sm_sample_count = 0, sm_mean_mib_s = 0, sm_mean_square_delta = 0,
     sm_median_estimator = new_p2_median, sm_relative_median_sum = 0, sm_relative_median_count = 0,
     sm_missing_count = missing, sm_invalid_count = 0, sm_final_done_bytes = None, sm_finish_elapsed_ms = None,
     sm_first_progress_interval = None \<rparr>"

definition observe_done_bytes :: "int \<Rightarrow> int \<Rightarrow> nat \<Rightarrow> client_summary \<Rightarrow> client_summary" where
  "observe_done_bytes done_bytes runtime_ms interval s =
     (let s1 = (if sm_final_done_bytes s \<noteq> Some done_bytes
                then s \<lparr> sm_final_done_bytes := Some done_bytes, sm_finish_elapsed_ms := Some runtime_ms \<rparr> else s)
      in if sm_first_progress_interval s1 = None \<and> done_bytes > 0
         then s1 \<lparr> sm_first_progress_interval := Some interval \<rparr> else s1)"

definition add_rate :: "rat \<Rightarrow> rat \<Rightarrow> client_summary \<Rightarrow> client_summary" where
  "add_rate rate fleet_median s =
     (let n = sm_sample_count s + 1;
          delta = fl (rate - sm_mean_mib_s s);
          mean = fl (sm_mean_mib_s s + fl (delta / of_nat n));
          s1 = s \<lparr> sm_sample_count := n, sm_mean_mib_s := mean,
            sm_mean_square_delta := fl (sm_mean_square_delta s + fl (delta * fl (rate - mean))),
            sm_median_estimator := p2_add rate (sm_median_estimator s) \<rparr>
      in if fleet_median > 0
         then s1 \<lparr> sm_relative_median_sum := fl (sm_relative_median_sum s + fl (rate / fleet_median)),
                sm_relative_median_count := sm_relative_median_count s + 1 \<rparr>
         else s1)"

definition mark_missing :: "client_summary \<Rightarrow> client_summary" where
  "mark_missing s = s \<lparr> sm_missing_count := sm_missing_count s + 1 \<rparr>"

definition mark_invalid :: "client_summary \<Rightarrow> client_summary" where
  "mark_invalid s = s \<lparr> sm_invalid_count := sm_invalid_count s + 1 \<rparr>"

record aggregate_point =
  ap_interval :: nat
  ap_elapsed_sec :: rat
  ap_iso_timestamp :: string
  ap_throughput_mib_s :: "rat option"
  ap_iops :: "rat option"
  ap_io_latency_us :: "rat option"
  ap_entries_latency_us :: "rat option"

record fleet_point =
  fp_interval :: nat
  fp_elapsed_sec :: rat
  fp_iso_timestamp :: string
  fp_p10_mib_s :: rat
  fp_p50_mib_s :: rat
  fp_p90_mib_s :: rat
  fp_client_count :: nat

record domain_analysis =
  da_key :: live_domain_key
  da_aggregate_points :: "aggregate_point list"
  da_fleet_points :: "fleet_point list"
  da_clients :: "(live_client_id, client_summary) dict"
  da_interval_times :: "rat list"
  da_interval_iso_timestamps :: "string list"
  da_runtime_to_interval :: "(int, nat) dict"
  da_diagnostics :: "(string, nat) dict"

definition new_domain_analysis :: "live_domain_key \<Rightarrow> domain_analysis" where
  "new_domain_analysis key = \<lparr> da_key = key, da_aggregate_points = [], da_fleet_points = [], da_clients = [],
     da_interval_times = [], da_interval_iso_timestamps = [], da_runtime_to_interval = [], da_diagnostics = [] \<rparr>"

text \<open>\<^verbatim>\<open>DomainAnalysis.all_started_interval\<close>\<close>

definition all_started_interval :: "domain_analysis \<Rightarrow> nat option" where
  "all_started_interval d =
     (case List.map_filter (sm_first_progress_interval \<circ> snd) (da_clients d) of [] \<Rightarrow> None | i # is \<Rightarrow> Some (foldl max i is))"

record previous_sample =
  ps_done_bytes :: int
  ps_runtime_ms :: int
  ps_interval :: nat

record interval_buffer =
  ib_runtime_ms :: int
  ib_iso_timestamp :: string
  ib_client_rows :: "(live_client_id, int) dict"
  ib_aggregate_mib_s :: "rat option"
  ib_aggregate_iops :: "rat option"
  ib_io_latency_us :: "rat option"
  ib_entries_latency_us :: "rat option"

record domain_state =
  ds_analysis :: domain_analysis
  ds_previous :: "(live_client_id, previous_sample) dict"
  ds_buffer :: "interval_buffer option"

definition new_buffer :: "int \<Rightarrow> string \<Rightarrow> interval_buffer" where
  "new_buffer runtime_ms stamp = \<lparr> ib_runtime_ms = runtime_ms, ib_iso_timestamp = stamp, ib_client_rows = [],
     ib_aggregate_mib_s = None, ib_aggregate_iops = None, ib_io_latency_us = None, ib_entries_latency_us = None \<rparr>"

definition new_domain_state :: "live_domain_key \<Rightarrow> domain_state" where
  "new_domain_state key = \<lparr> ds_analysis = new_domain_analysis key, ds_previous = [], ds_buffer = None \<rparr>"

definition counter_add :: "string \<Rightarrow> nat \<Rightarrow> (string, nat) dict \<Rightarrow> (string, nat) dict" where
  "counter_add k n d = dict_set k ((case dict_get d k of None \<Rightarrow> 0 | Some m \<Rightarrow> m) + n) d"

definition diagnose :: "string \<Rightarrow> nat \<Rightarrow> domain_analysis \<Rightarrow> domain_analysis" where
  "diagnose k n d = d \<lparr> da_diagnostics := counter_add k n (da_diagnostics d) \<rparr>"

definition derive_rate :: "previous_sample option \<Rightarrow> int \<Rightarrow> int \<Rightarrow> nat \<Rightarrow> rat option" where
  "derive_rate prior done_bytes runtime_ms interval =
     (case prior of None \<Rightarrow> None
      | Some p \<Rightarrow>
          if int (ps_interval p) \<noteq> int interval - 1 then None
          else let elapsed_ms = runtime_ms - ps_runtime_ms p; byte_delta = done_bytes - ps_done_bytes p
               in if elapsed_ms \<le> 0 \<or> byte_delta < 0 then None
                  else Some (fl (fl (fl (fl (of_int byte_delta) * 1000) / of_int elapsed_ms) / of_int MIB)))"

definition invalid_rate_reason :: "previous_sample \<Rightarrow> int \<Rightarrow> int \<Rightarrow> nat \<Rightarrow> string" where
  "invalid_rate_reason prior done_bytes runtime_ms interval =
     (if int (ps_interval prior) \<noteq> int interval - 1 then ''non_adjacent_samples''
      else if runtime_ms \<le> ps_runtime_ms prior then ''non_positive_elapsed_time''
      else if done_bytes < ps_done_bytes prior then ''counter_resets''
      else ''invalid_samples'')"

definition record_aggregate :: "interval_buffer \<Rightarrow> nat \<Rightarrow> rat \<Rightarrow> domain_analysis \<Rightarrow> domain_analysis" where
  "record_aggregate buffer interval elapsed_sec d =
     (let io_latency = (if ib_io_latency_us buffer = Some 0 \<and> (ib_aggregate_iops buffer = None \<or> ib_aggregate_iops buffer = Some 0)
                        then None else ib_io_latency_us buffer);
          entries_latency = (if ib_entries_latency_us buffer = Some 0 then None else ib_entries_latency_us buffer)
      in if ib_aggregate_mib_s buffer = None \<and> ib_aggregate_iops buffer = None \<and> io_latency = None then d
         else d \<lparr> da_aggregate_points := da_aggregate_points d @
           [\<lparr> ap_interval = interval, ap_elapsed_sec = elapsed_sec, ap_iso_timestamp = ib_iso_timestamp buffer,
              ap_throughput_mib_s = ib_aggregate_mib_s buffer, ap_iops = ib_aggregate_iops buffer,
              ap_io_latency_us = io_latency, ap_entries_latency_us = entries_latency \<rparr>] \<rparr>)"

definition mark_missing_clients :: "(live_client_id, int) dict \<Rightarrow> domain_analysis \<Rightarrow> domain_analysis" where
  "mark_missing_clients rows d =
     foldl (\<lambda>d client. diagnose ''missing_samples'' 1
              (d \<lparr> da_clients := (case dict_get (da_clients d) client of None \<Rightarrow> da_clients d
                     | Some s \<Rightarrow> dict_set client (mark_missing s) (da_clients d)) \<rparr>))
       d (filter (\<lambda>client. dict_get rows client = None) (dict_keys (da_clients d)))"

text \<open>The body of the loop over the clients of an interval.\<close>

definition derive_client ::
  "int \<Rightarrow> nat \<Rightarrow> domain_state \<times> (live_client_id, rat) dict \<Rightarrow> live_client_id \<times> int
     \<Rightarrow> domain_state \<times> (live_client_id, rat) dict" where
  "derive_client runtime_ms interval acc sample =
     (case (acc, sample) of ((state, rates), (client, done_bytes)) \<Rightarrow>
      let d = ds_analysis state;
          known = dict_get (da_clients d) client;
          d1 = (if known = None then diagnose ''missing_samples'' interval d else d);
          s1 = observe_done_bytes done_bytes runtime_ms interval
                 (case known of None \<Rightarrow> new_summary client interval | Some s \<Rightarrow> s);
          prior = dict_get (ds_previous state) client;
          rate = derive_rate prior done_bytes runtime_ms interval;
          (s2, d2) = (case prior of None \<Rightarrow> (s1, d1)
            | Some p \<Rightarrow> if int (ps_interval p) \<noteq> int interval - 1 then (s1, diagnose ''non_adjacent_samples'' 1 d1)
                else if rate = None then (mark_invalid s1, diagnose (invalid_rate_reason p done_bytes runtime_ms interval) 1 d1)
                else (s1, d1));
          d3 = d2 \<lparr> da_clients := dict_set client s2 (da_clients d2) \<rparr>
      in (\<lparr> ds_analysis = d3,
            ds_previous = dict_set client \<lparr> ps_done_bytes = done_bytes, ps_runtime_ms = runtime_ms, ps_interval = interval \<rparr>
                            (ds_previous state),
            ds_buffer = ds_buffer state \<rparr>,
          (case rate of None \<Rightarrow> rates | Some r \<Rightarrow> dict_set client r rates)))"

definition derive_interval_rates ::
  "interval_buffer \<Rightarrow> nat \<Rightarrow> domain_state \<Rightarrow> domain_state \<times> (live_client_id, rat) dict" where
  "derive_interval_rates buffer interval state =
     foldl (derive_client (ib_runtime_ms buffer) interval) (state, []) (ib_client_rows buffer)"

definition record_fleet_statistics ::
  "(live_client_id, rat) dict \<Rightarrow> nat \<Rightarrow> rat \<Rightarrow> string \<Rightarrow> domain_analysis \<Rightarrow> domain_analysis" where
  "record_fleet_statistics rates interval elapsed_sec stamp d =
     (if rates = [] then d
      else let ordered = sort (map snd rates); median = percentile_from_sorted ordered 50;
               d1 = d \<lparr> da_fleet_points := da_fleet_points d @
                 [\<lparr> fp_interval = interval, fp_elapsed_sec = elapsed_sec, fp_iso_timestamp = stamp,
                    fp_p10_mib_s = percentile_from_sorted ordered 10, fp_p50_mib_s = median,
                    fp_p90_mib_s = percentile_from_sorted ordered 90, fp_client_count = length rates \<rparr>] \<rparr>
           in foldl (\<lambda>d (client, rate). d \<lparr> da_clients := (case dict_get (da_clients d) client of None \<Rightarrow> da_clients d
                       | Some s \<Rightarrow> dict_set client (add_rate rate median s) (da_clients d)) \<rparr>) d1 rates)"

definition flush_interval :: "domain_state \<Rightarrow> domain_state" where
  "flush_interval state = (case ds_buffer state of None \<Rightarrow> state
     | Some buffer \<Rightarrow>
       let d = ds_analysis state;
           interval = length (da_interval_times d);
           elapsed_sec = fl (of_int (ib_runtime_ms buffer) / 1000);
           d1 = d \<lparr> da_interval_times := da_interval_times d @ [elapsed_sec],
                    da_interval_iso_timestamps := da_interval_iso_timestamps d @ [ib_iso_timestamp buffer],
                    da_runtime_to_interval := dict_set (ib_runtime_ms buffer) interval (da_runtime_to_interval d) \<rparr>;
           d2 = mark_missing_clients (ib_client_rows buffer) (record_aggregate buffer interval elapsed_sec d1)
       in (case derive_interval_rates buffer interval (state \<lparr> ds_analysis := d2 \<rparr>) of (state1, rates) \<Rightarrow>
           state1 \<lparr> ds_analysis := record_fleet_statistics rates interval elapsed_sec (ib_iso_timestamp buffer) (ds_analysis state1),
                    ds_buffer := None \<rparr>))"

definition advance_buffer :: "int \<Rightarrow> string \<Rightarrow> domain_state \<Rightarrow> domain_state" where
  "advance_buffer runtime_ms stamp state = (case ds_buffer state of
       None \<Rightarrow> state \<lparr> ds_buffer := Some (new_buffer runtime_ms stamp) \<rparr>
     | Some buffer \<Rightarrow> if ib_runtime_ms buffer \<noteq> runtime_ms
         then (flush_interval state) \<lparr> ds_buffer := Some (new_buffer runtime_ms stamp) \<rparr> else state)"

definition record_malformed :: "nat \<Rightarrow> domain_analysis \<Rightarrow> domain_analysis" where
  "record_malformed line_number d =
     (let d1 = diagnose MALFORMED_CLIENT_ROWS 1 d
      in if the (dict_get (da_diagnostics d1) MALFORMED_CLIENT_ROWS) \<le> MALFORMED_LINES_REPORTED
         then diagnose (''line_'' @ dec line_number @ ''_invalid'') 1 d1 else d1)"

text \<open>What one row does to the state of its domain.\<close>

definition buffer_row :: "nat \<Rightarrow> parsed_row \<Rightarrow> domain_state \<Rightarrow> domain_state" where
  "buffer_row line_number r state0 =
     (let state = advance_buffer (pr_runtime_ms r) (pr_iso_timestamp r) state0
      in case ds_buffer state of None \<Rightarrow> state
      | Some buffer \<Rightarrow>
          if pr_rank r = TOTAL_RANK then
            state \<lparr> ds_buffer := Some (buffer \<lparr> ib_aggregate_mib_s := pr_mib_s r, ib_aggregate_iops := pr_iops r,
              ib_io_latency_us := pr_io_latency_us r, ib_entries_latency_us := pr_entries_latency_us r \<rparr>) \<rparr>
          else (case (pr_client r, pr_done_bytes r) of
              (Some client, Some done_bytes) \<Rightarrow>
                state \<lparr> ds_buffer := Some (buffer \<lparr> ib_client_rows := dict_set client done_bytes (ib_client_rows buffer) \<rparr>) \<rparr>
            | _ \<Rightarrow> state \<lparr> ds_analysis := record_malformed line_number (ds_analysis state) \<rparr>))"

type_synonym domain_states = "(live_domain_key, domain_state) dict"

definition analyze_row :: "domain_states \<Rightarrow> nat \<times> parsed_row \<Rightarrow> domain_states" where
  "analyze_row states numbered = (case numbered of (line_number, r) \<Rightarrow>
     let state = (case dict_get states (pr_key r) of None \<Rightarrow> new_domain_state (pr_key r) | Some s \<Rightarrow> s)
     in dict_set (pr_key r) (buffer_row line_number r state) states)"

definition analyze_live_csv :: "parsed_row list \<Rightarrow> (live_domain_key, domain_analysis) dict" where
  "analyze_live_csv rows =
     map (\<lambda>(key, state). (key, ds_analysis (flush_interval state))) (foldl analyze_row [] (enumerate 2 rows))"

text \<open>\<^verbatim>\<open>client_sort_key\<close>: numeric ranks by value, then the others, then the service.\<close>

definition client_sort_key :: "live_client_id \<Rightarrow> int \<times> int \<times> string \<times> string" where
  "client_sort_key c = (case py_int (cl_rank c) of
     Inr n \<Rightarrow> (0, n, [], cl_service c) | Inl _ \<Rightarrow> (1, 0, cl_rank c, cl_service c))"

subsection \<open>Occurrences keep the counters of a domain monotone\<close>

text \<open>Rows of one phase and mix type only see the state of that pair, so the rows of each pair are numbered
  as if they were alone in the file.\<close>

definition row_base :: "parsed_row \<Rightarrow> string \<times> string" where
  "row_base r = (dk_phase (pr_key r), dk_mix_type (pr_key r))"

definition row_step :: "occurrence_state \<Rightarrow> parsed_row \<Rightarrow> occurrence_state" where
  "row_step state r = occurrence_step state (pr_runtime_ms r) (row_identity_of r) (pr_done_bytes r) (pr_mib_s r)"

fun number_rows :: "occurrence_state \<Rightarrow> parsed_row list \<Rightarrow> parsed_row list" where
  "number_rows state [] = []"
| "number_rows state (r # rs) =
     (let state' = row_step state r
      in r \<lparr> pr_key := (pr_key r) \<lparr> dk_occurrence := os_occurrence state' \<rparr> \<rparr> # number_rows state' rs)"

definition tracked_state :: "tracker \<Rightarrow> string \<times> string \<Rightarrow> occurrence_state" where
  "tracked_state tracker base = (case dict_get tracker base of None \<Rightarrow> new_occurrence_state | Some s \<Rightarrow> s)"

lemma track_rows_by_base:
  "filter (\<lambda>r. row_base r = b) (track_rows tracker rs)
     = number_rows (tracked_state tracker b) (filter (\<lambda>r. row_base r = b) rs)"
proof (induction rs arbitrary: tracker)
  case (Cons r rs)
  let ?t = "fst (domain_key r tracker)"
  have key: "domain_key r tracker = (?t, (pr_key r) \<lparr> dk_occurrence := os_occurrence (row_step (tracked_state tracker (row_base r)) r) \<rparr>)"
    by (simp add: domain_key_def Let_def row_step_def tracked_state_def row_base_def)
  have t: "tracked_state ?t b = (if row_base r = b then row_step (tracked_state tracker b) r else tracked_state tracker b)"
    by (auto simp: domain_key_def Let_def row_step_def tracked_state_def row_base_def)
  have base: "row_base (r \<lparr> pr_key := (pr_key r) \<lparr> dk_occurrence := n \<rparr> \<rparr>) = row_base r" for n by (simp add: row_base_def)
  show ?case by (subst track_rows.simps, subst key) (simp add: Cons.IH t base Let_def)
qed simp

lemma row_step_simps:
  "os_runtime_ms (row_step st r) = Some (pr_runtime_ms r)"
  "os_occurrence (row_step st r) = os_occurrence st
     + of_bool (starts_new_occurrence st (pr_runtime_ms r) (row_identity_of r) (pr_done_bytes r) (pr_mib_s r))"
  by (auto simp: row_step_def occurrence_step_def Let_def)

text \<open>A total row that stays in the occurrence goes neither back in time behind the row before it nor below the
  counter of the last total row.\<close>

definition total_row :: "parsed_row \<Rightarrow> bool" where
  "total_row r \<longleftrightarrow> pr_rank r = TOTAL_RANK"

lemma same_occurrence:
  assumes "os_occurrence (row_step st r) = os_occurrence st" and "total_row r"
  shows "(\<forall>t. os_runtime_ms st = Some t \<longrightarrow> t \<le> pr_runtime_ms r)
    \<and> (\<forall>n m t. os_runtime_ms st = Some t \<longrightarrow> os_total_done_bytes st = Some n \<longrightarrow> pr_done_bytes r = Some m \<longrightarrow> n \<le> m)"
  using assms
  by (auto simp: row_step_simps starts_new_occurrence_def row_identity_of_def total_row_def not_less split: option.splits if_splits)

definition total_counts :: "parsed_row list \<Rightarrow> int list" where
  "total_counts rs = List.map_filter pr_done_bytes (filter total_row rs)"

lemma number_rows_occurrences:
  assumes "r \<in> set (number_rows st rs)"
  shows "os_occurrence st \<le> dk_occurrence (pr_key r)"
  using assms
proof (induction rs arbitrary: st)
  case (Cons q rs)
  then show ?case
    by (auto simp: Let_def row_step_simps) (metis (no_types, opaque_lifting) Cons.IH add_leD1 row_step_simps(2))
qed simp

abbreviation occurrence_of :: "parsed_row \<Rightarrow> nat" where
  "occurrence_of r \<equiv> dk_occurrence (pr_key r)"

text \<open>A row follows another in a phase: the occurrence stays or goes up by one with a total row, and a
  total row of the same occurrence does not go back in time.\<close>

definition occurrence_follows :: "parsed_row \<Rightarrow> parsed_row \<Rightarrow> bool" where
  "occurrence_follows r r' \<longleftrightarrow>
     (occurrence_of r' = occurrence_of r \<and> (total_row r' \<longrightarrow> pr_runtime_ms r \<le> pr_runtime_ms r'))
     \<or> (occurrence_of r' = Suc (occurrence_of r) \<and> total_row r')"

lemma row_step_follows:
  assumes "os_runtime_ms st = Some t" and "n = os_occurrence st" and "n' = os_occurrence (row_step st r)"
  shows "n' = n \<and> (total_row r \<longrightarrow> t \<le> pr_runtime_ms r) \<or> n' = Suc n \<and> total_row r"
  using assms
  by (auto simp: row_step_simps starts_new_occurrence_def row_identity_of_def total_row_def not_less split: option.splits if_splits)

lemma number_rows_follow: "successively occurrence_follows (number_rows st rs)"
proof (induction rs arbitrary: st rule: induct_list012)
  case (3 r r' rs)
  let ?s = "row_step st r"
  have "occurrence_follows (hd (number_rows st (r # r' # rs))) (hd (number_rows ?s (r' # rs)))"
    using row_step_follows [of ?s "pr_runtime_ms r" _ _ r'] 
    by (auto simp: occurrence_follows_def Let_def row_step_simps total_row_def)
  then show ?case using 3(2) [of ?s] by (simp add: Let_def)
qed (simp_all add: Let_def)

lemma total_counts_Cons:
  "total_counts (r # rs) = (if total_row r then (case pr_done_bytes r of None \<Rightarrow> [] | Some n \<Rightarrow> [n]) else []) @ total_counts rs"
  by (simp add: total_counts_def List.map_filter_simps split: option.splits)

lemma row_step_total:
  "os_total_done_bytes (row_step st r) =
     (if total_row r \<and> pr_done_bytes r \<noteq> None then pr_done_bytes r
      else if os_occurrence (row_step st r) = os_occurrence st then os_total_done_bytes st else None)"
  by (auto simp: row_step_def occurrence_step_def Let_def row_identity_of_def total_row_def)

lemma in_head_counts:
  assumes "x \<in> set ((if P \<and> total_row r then (case pr_done_bytes r of None \<Rightarrow> [] | Some m \<Rightarrow> [m]) else []) @ xs)"
  shows "x \<in> set xs \<or> total_row r \<and> pr_done_bytes r = Some x"
proof (cases "P \<and> total_row r")
  case True
  then show ?thesis using assms by (cases "pr_done_bytes r") (simp, simp, blast)
next
  case False
  with assms show ?thesis by (simp only: if_False append_Nil simp_thms)
qed

lemma number_rows_counts:
  "sorted (total_counts (filter (\<lambda>r. occurrence_of r = n) (number_rows st rs)))
   \<and> (\<forall>t m. os_runtime_ms st = Some t \<longrightarrow> os_total_done_bytes st = Some m \<longrightarrow> os_occurrence st = n
        \<longrightarrow> (\<forall>x\<in>set (total_counts (filter (\<lambda>r. occurrence_of r = n) (number_rows st rs))). m \<le> x))"
proof (induction rs arbitrary: st)
  case (Cons r rs)
  let ?s = "row_step st r"
  let ?c = "total_counts (filter (\<lambda>r. occurrence_of r = n) (number_rows ?s rs))"
  have ih: "sorted ?c" "\<And>m. os_total_done_bytes ?s = Some m \<Longrightarrow> os_occurrence ?s = n \<Longrightarrow> \<forall>x\<in>set ?c. m \<le> x"
    using Cons.IH [of ?s] by (auto simp: row_step_simps(1))
  have counts: "total_counts (filter (\<lambda>r. occurrence_of r = n) (number_rows st (r # rs)))
      = (if os_occurrence ?s = n \<and> total_row r then (case pr_done_bytes r of None \<Rightarrow> [] | Some m \<Rightarrow> [m]) else []) @ ?c"
    by (simp add: Let_def total_counts_Cons total_row_def)
  have mono: "os_occurrence st \<le> os_occurrence ?s" by (simp add: row_step_simps)
  have later: "?c = []" if "os_occurrence st = n" "os_occurrence ?s \<noteq> n"
    using number_rows_occurrences [of _ ?s rs] mono that by (fastforce simp: total_counts_def filter_empty_conv List.map_filter_def)
  have "sorted (total_counts (filter (\<lambda>r. occurrence_of r = n) (number_rows st (r # rs))))"
    unfolding counts using ih by (auto simp: row_step_total split: option.splits)
  moreover have "\<forall>x\<in>set (total_counts (filter (\<lambda>r. occurrence_of r = n) (number_rows st (r # rs)))). m \<le> x"
    if st: "os_runtime_ms st = Some t" "os_total_done_bytes st = Some m" "os_occurrence st = n" for t m
  proof (cases "os_occurrence ?s = n")
    case True
    have le: "m \<le> k" if "total_row r" "pr_done_bytes r = Some k" for k
      using same_occurrence [of st r] st True that by auto
    obtain k where k: "os_total_done_bytes ?s = Some k" "m \<le> k"
      using le st True by (cases "total_row r \<and> pr_done_bytes r \<noteq> None") (auto simp: row_step_total)
    then have c: "m \<le> x" if "x \<in> set ?c" for x using ih(2) [OF k(1) True] that by fastforce
    show ?thesis
    proof
      fix x assume "x \<in> set (total_counts (filter (\<lambda>r. occurrence_of r = n) (number_rows st (r # rs))))"
      then have "x \<in> set ?c \<or> total_row r \<and> pr_done_bytes r = Some x"
        unfolding counts by (rule in_head_counts)
      then show "m \<le> x" using le c by blast
    qed
  next
    case False
    then show ?thesis unfolding counts using later st(3) by simp
  qed
  ultimately show ?case by blast
qed (simp add: total_counts_def List.map_filter_simps)

text \<open>C20. The rows of every phase and mix type are cut into occurrences numbered from zero: from one row to the next
  the number stays or a total row raises it by one, a total row of the same occurrence does not go back in time, and
  the byte counter of the total rows never decreases within an occurrence.\<close>

theorem occurrences_are_monotone:
  "let rs = filter (\<lambda>r. row_base r = b) (iter_parsed_rows rows columns)
   in hd (map occurrence_of rs @ [0]) = 0 \<and> successively occurrence_follows rs
      \<and> sorted (total_counts (filter (\<lambda>r. occurrence_of r = n) rs))"
proof -
  let ?p = "filter (\<lambda>r. row_base r = b) (List.map_filter (\<lambda>row. parse_row row columns) rows)"
  have rs: "filter (\<lambda>r. row_base r = b) (iter_parsed_rows rows columns) = number_rows new_occurrence_state ?p"
    by (simp add: iter_parsed_rows_def track_rows_by_base tracked_state_def)
  have "hd (map occurrence_of (number_rows new_occurrence_state ?p) @ [0]) = 0"
    by (cases ?p) (simp_all add: Let_def row_step_simps starts_new_occurrence_def new_occurrence_state_def)
  then show ?thesis unfolding rs using number_rows_follow number_rows_counts by (simp add: Let_def)
qed

end
