(* ===== verification/LivePass.thy ===== *)
theory LivePass
  imports LiveRows
begin

section \<open>What the first pass computes\<close>

text \<open>
  The first pass streams over all rows once and keeps one buffered interval per domain. Here it is compared with
  a reference over the whole file: the rows of a domain are cut into runs of equal \<^verbatim>\<open>RuntimeMS\<close>; a client's
  sample in a run is its last well-formed row there; missing samples, the first interval with progress and
  the final counter are defined over the list of runs.
\<close>

subsection \<open>The reference\<close>

definition add_to_runs :: "parsed_row list list \<Rightarrow> parsed_row \<Rightarrow> parsed_row list list" where
  "add_to_runs rs r =
     (if rs \<noteq> [] \<and> pr_runtime_ms (hd (last rs)) = pr_runtime_ms r then butlast rs @ [last rs @ [r]] else rs @ [[r]])"

definition runs :: "parsed_row list \<Rightarrow> parsed_row list list" where
  "runs rows = foldl add_to_runs [] rows"

definition run_ms :: "parsed_row list \<Rightarrow> int" where
  "run_ms run = pr_runtime_ms (hd run)"

definition client_row :: "live_client_id \<Rightarrow> parsed_row \<Rightarrow> int option" where
  "client_row c r = (if pr_rank r \<noteq> TOTAL_RANK \<and> pr_client r = Some c then pr_done_bytes r else None)"

definition later :: "'a option \<Rightarrow> 'a option \<Rightarrow> 'a option" where
  "later a b = (case b of None \<Rightarrow> a | Some x \<Rightarrow> Some x)"

definition sample :: "live_client_id \<Rightarrow> parsed_row list \<Rightarrow> int option" where
  "sample c run = foldl (\<lambda>s r. later s (client_row c r)) None run"

definition missing_runs :: "live_client_id \<Rightarrow> parsed_row list list \<Rightarrow> nat" where
  "missing_runs c rs = length (filter (\<lambda>run. sample c run = None) rs)"

definition progressed :: "int option \<Rightarrow> bool" where
  "progressed s = (case s of None \<Rightarrow> False | Some n \<Rightarrow> n > 0)"

definition first_progress :: "live_client_id \<Rightarrow> parsed_row list list \<Rightarrow> nat option" where
  "first_progress c rs = find (\<lambda>i. progressed (sample c (rs ! i))) [0..<length rs]"

definition last_sample :: "live_client_id \<Rightarrow> parsed_row list list \<Rightarrow> int option" where
  "last_sample c rs = foldl (\<lambda>s run. later s (sample c run)) None rs"

definition last_index :: "'a list \<Rightarrow> 'a \<Rightarrow> nat option" where
  "last_index xs x = find (\<lambda>i. xs ! i = x) (rev [0..<length xs])"

type_synonym view = "nat \<times> nat option \<times> int option"

definition client_view :: "live_client_id \<Rightarrow> parsed_row list list \<Rightarrow> view option" where
  "client_view c rs = (if list_all (\<lambda>run. sample c run = None) rs then None
     else Some (missing_runs c rs, first_progress c rs, last_sample c rs))"

lemma sample_snoc: "sample c (run @ [r]) = later (sample c run) (client_row c r)"
  by (simp add: sample_def)

lemma find_cong_set: "(\<And>x. x \<in> set xs \<Longrightarrow> P x = Q x) \<Longrightarrow> find P xs = find Q xs"
  by (induction xs) auto

lemma find_append: "find P (xs @ ys) = (case find P xs of None \<Rightarrow> find P ys | Some x \<Rightarrow> Some x)"
  by (induction xs) auto

lemma first_progress_snoc:
  "first_progress c (rs @ [run]) = (case first_progress c rs of
     Some i \<Rightarrow> Some i | None \<Rightarrow> if progressed (sample c run) then Some (length rs) else None)"
proof -
  have "find (\<lambda>i. progressed (sample c ((rs @ [run]) ! i))) [0..<length rs] = first_progress c rs"
    unfolding first_progress_def by (intro find_cong_set) (simp add: nth_append)
  then show ?thesis by (simp add: first_progress_def find_append split: option.splits)
qed

lemma last_index_snoc: "last_index (xs @ [x]) = (last_index xs)(x \<mapsto> length xs)"
proof
  fix y
  have "find (\<lambda>i. (xs @ [x]) ! i = y) (rev [0..<length xs]) = last_index xs y"
    unfolding last_index_def by (intro find_cong_set) (simp add: nth_append)
  then show "last_index (xs @ [x]) y = ((last_index xs)(x \<mapsto> length xs)) y" by (simp add: last_index_def)
qed

lemma client_view_snoc:
  "client_view c (rs @ [run]) = (case (client_view c rs, sample c run) of
     (None, None) \<Rightarrow> None
   | (None, Some n) \<Rightarrow> Some (length rs, (if n > 0 then Some (length rs) else None), Some n)
   | (Some (m, p, l), None) \<Rightarrow> Some (m + 1, p, l)
   | (Some (m, p, l), Some n) \<Rightarrow> Some (m, (if p = None \<and> n > 0 then Some (length rs) else p), Some n))"
proof -
  have none: "first_progress c rs = None \<and> missing_runs c rs = length rs" if "list_all (\<lambda>run. sample c run = None) rs"
  proof -
    have "filter (\<lambda>run. sample c run = None) rs = rs" using that by (simp add: list_all_iff)
    moreover have "first_progress c rs = None"
      using that by (auto simp: first_progress_def find_None_iff progressed_def list_all_length)
    ultimately show ?thesis by (simp add: missing_runs_def)
  qed
  show ?thesis
    using none
    by (cases "sample c run"; cases "list_all (\<lambda>run. sample c run = None) rs")
      (auto simp: client_view_def missing_runs_def first_progress_snoc last_sample_def later_def progressed_def
        split: option.splits)
qed

subsection \<open>Loops that update one entry at a time\<close>

lemma foldl_pointwise:
  assumes "\<And>acc k v. G (g acc (k, v)) = (G acc)(k := F k v (G acc k))" and "distinct (map fst kvs)"
  shows "G (foldl g acc kvs) c = (case map_of kvs c of None \<Rightarrow> G acc c | Some v \<Rightarrow> F c v (G acc c))"
  using assms(2)
proof (induction kvs arbitrary: acc)
  case (Cons kv kvs)
  obtain k v where kv: "kv = (k, v)" by fastforce
  have "map_of kvs k = None" using Cons.prems by (simp add: kv map_of_eq_None_iff)
  then show ?case using Cons by (simp add: kv assms(1) split: option.splits)
qed simp

lemma foldl_pointwise_keys:
  assumes "\<And>acc k. G (g acc k) = (G acc)(k := F k (G acc k))" and "distinct ks"
  shows "G (foldl g acc ks) c = (if c \<in> set ks then F c (G acc c) else G acc c)"
  using assms(2) by (induction ks arbitrary: acc) (auto simp: assms(1))

lemma foldl_invariant:
  assumes "\<And>acc x. h (g acc x) = h acc"
  shows "h (foldl g acc xs) = h acc"
  by (induction xs arbitrary: acc) (simp_all add: assms)

lemma foldl_preserves:
  assumes "\<And>acc x. I acc \<Longrightarrow> I (g acc x)" and "I acc"
  shows "I (foldl g acc xs)"
  using assms(2) by (induction xs arbitrary: acc) (simp_all add: assms(1))

subsection \<open>One interval\<close>

definition view_of :: "client_summary \<Rightarrow> view" where
  "view_of s = (sm_missing_count s, sm_first_progress_interval s, sm_final_done_bytes s)"

definition views :: "domain_analysis \<Rightarrow> live_client_id \<Rightarrow> view option" where
  "views d c = map_option view_of (dict_get (da_clients d) c)"

definition clock :: "domain_analysis \<Rightarrow> rat list \<times> (int, nat) dict" where
  "clock d = (da_interval_times d, da_runtime_to_interval d)"

definition observe_view :: "int \<Rightarrow> nat \<Rightarrow> view option \<Rightarrow> view option" where
  "observe_view n interval v = (case v of
     None \<Rightarrow> Some (interval, (if n > 0 then Some interval else None), Some n)
   | Some (m, p, _) \<Rightarrow> Some (m, (if p = None \<and> n > 0 then Some interval else p), Some n))"

lemma view_of_simps [simp]:
  "view_of (mark_invalid s) = view_of s"
  "view_of (add_rate rate median s) = view_of s"
  "view_of (mark_missing s) = (case view_of s of (m, p, l) \<Rightarrow> (m + 1, p, l))"
  by (simp_all add: view_of_def mark_invalid_def add_rate_def mark_missing_def Let_def)

lemma view_of_observe:
  "Some (view_of (observe_done_bytes n ms i s)) = observe_view n i (Some (view_of s))"
  "observe_view n i (Some (view_of (new_summary c i))) = observe_view n i None"
  by (auto simp: observe_done_bytes_def observe_view_def view_of_def Let_def new_summary_def)

lemma diagnose_simps [simp]:
  "views (diagnose k n d) = views d" "clock (diagnose k n d) = clock d" "da_clients (diagnose k n d) = da_clients d"
  by (simp_all add: diagnose_def views_def clock_def fun_eq_iff)

lemma record_aggregate_simps [simp]:
  "views (record_aggregate b i e d) = views d" "clock (record_aggregate b i e d) = clock d"
  "da_clients (record_aggregate b i e d) = da_clients d"
  by (simp_all add: record_aggregate_def Let_def views_def clock_def fun_eq_iff)

lemma mark_missing_views:
  assumes "dict_wf (da_clients d)"
  shows "views (mark_missing_clients rows d) c =
    (if dict_get rows c = None then map_option (\<lambda>(m, p, l). (m + 1, p, l)) (views d c) else views d c)"
proof -
  let ?g = "\<lambda>d client. diagnose ''missing_samples'' 1
    (d \<lparr> da_clients := (case dict_get (da_clients d) client of None \<Rightarrow> da_clients d
       | Some s \<Rightarrow> dict_set client (mark_missing s) (da_clients d)) \<rparr>)"
  let ?ks = "filter (\<lambda>client. dict_get rows client = None) (dict_keys (da_clients d))"
  have "views (foldl ?g d ?ks) c = (if c \<in> set ?ks then map_option (\<lambda>(m, p, l). (m + 1, p, l)) (views d c) else views d c)"
  proof (rule foldl_pointwise_keys)
    show "views (?g acc k) = (views acc)(k := map_option (\<lambda>(m, p, l). (m + 1, p, l)) (views acc k))" for acc k
      by (auto simp: views_def fun_eq_iff split: option.splits prod.splits)
    show "distinct ?ks" using assms by (simp add: dict_wf_def)
  qed
  moreover have "views d c = None" if "c \<notin> set (dict_keys (da_clients d))"
    using that by (simp add: views_def map_of_eq_None_iff)
  ultimately show ?thesis by (auto simp: mark_missing_clients_def)
qed

lemma mark_missing_clock [simp]: "clock (mark_missing_clients rows d) = clock d"
  unfolding mark_missing_clients_def by (rule foldl_invariant) (simp add: clock_def diagnose_def)

lemma mark_missing_wf [simp]: "dict_wf (da_clients d) \<Longrightarrow> dict_wf (da_clients (mark_missing_clients rows d))"
  unfolding mark_missing_clients_def by (rule foldl_preserves) (auto split: option.splits)

lemma derive_client_views:
  "views (ds_analysis (fst (derive_client ms i acc (k, n))))
     = (views (ds_analysis (fst acc)))(k := observe_view n i (views (ds_analysis (fst acc)) k))"
proof -
  obtain state rates where acc: "acc = (state, rates)" by fastforce
  show ?thesis
    by (rule ext)
      (auto simp: acc derive_client_def Let_def views_def view_of_observe split: option.splits)
qed

lemma derive_client_clock: "clock (ds_analysis (fst (derive_client ms i acc x))) = clock (ds_analysis (fst acc))"
  by (auto simp: derive_client_def Let_def clock_def diagnose_def split: prod.splits option.splits)

lemma derive_client_wf:
  "dict_wf (da_clients (ds_analysis (fst acc))) \<Longrightarrow> dict_wf (da_clients (ds_analysis (fst (derive_client ms i acc x))))"
  by (auto simp: derive_client_def Let_def split: prod.splits option.splits)

lemma derive_interval_simps:
  assumes "derive_interval_rates b i st = (st', rates)" and "dict_wf (ib_client_rows b)"
  shows "views (ds_analysis st') c = (case dict_get (ib_client_rows b) c of
      None \<Rightarrow> views (ds_analysis st) c | Some n \<Rightarrow> observe_view n i (views (ds_analysis st) c))"
    and "clock (ds_analysis st') = clock (ds_analysis st)"
    and "dict_wf (da_clients (ds_analysis st)) \<Longrightarrow> dict_wf (da_clients (ds_analysis st'))"
proof -
  let ?f = "derive_client (ib_runtime_ms b) i"
  have st': "st' = fst (foldl ?f (st, []) (ib_client_rows b))"
    using assms(1) by (simp add: derive_interval_rates_def)
  show "views (ds_analysis st') c = (case dict_get (ib_client_rows b) c of
      None \<Rightarrow> views (ds_analysis st) c | Some n \<Rightarrow> observe_view n i (views (ds_analysis st) c))"
    unfolding st'
    using foldl_pointwise [of "\<lambda>acc. views (ds_analysis (fst acc))" ?f "\<lambda>k n. observe_view n i"
        "ib_client_rows b" "(st, [])" c] assms(2)
    by (simp add: derive_client_views dict_wf_def split: option.splits)
  show "clock (ds_analysis st') = clock (ds_analysis st)"
    unfolding st' using foldl_invariant [of "\<lambda>acc. clock (ds_analysis (fst acc))" ?f "(st, [])"]
    by (simp add: derive_client_clock)
  show "dict_wf (da_clients (ds_analysis st'))" if "dict_wf (da_clients (ds_analysis st))"
    unfolding st'
    using foldl_preserves [of "\<lambda>acc. dict_wf (da_clients (ds_analysis (fst acc)))" ?f "(st, [])"] that
    by (simp add: derive_client_wf)
qed

lemma record_fleet_simps [simp]:
  "views (record_fleet_statistics rates i e stamp d) = views d"
  "clock (record_fleet_statistics rates i e stamp d) = clock d"
  "dict_wf (da_clients d) \<Longrightarrow> dict_wf (da_clients (record_fleet_statistics rates i e stamp d))"
proof -
  let ?g = "\<lambda>m d (client, rate). d \<lparr> da_clients := (case dict_get (da_clients d) client of None \<Rightarrow> da_clients d
    | Some s \<Rightarrow> dict_set client (add_rate rate m s) (da_clients d)) \<rparr>"
  have "views (foldl (?g m) d' rates) = views d'" for m d'
    by (rule foldl_invariant) (auto simp: views_def fun_eq_iff split: prod.splits option.splits)
  then show "views (record_fleet_statistics rates i e stamp d) = views d"
    by (simp add: record_fleet_statistics_def Let_def) (simp add: views_def fun_eq_iff)
  have "clock (foldl (?g m) d' rates) = clock d'" for m d'
    by (rule foldl_invariant) (auto simp: clock_def split: prod.splits)
  then show "clock (record_fleet_statistics rates i e stamp d) = clock d"
    by (simp add: record_fleet_statistics_def Let_def) (simp add: clock_def)
  have keep: "dict_wf (da_clients (foldl (?g m) d' rates))" if "dict_wf (da_clients d')" for m d'
    using that by (rule foldl_preserves [rotated]) (auto split: prod.splits option.splits)
  show "dict_wf (da_clients d) \<Longrightarrow> dict_wf (da_clients (record_fleet_statistics rates i e stamp d))"
    by (simp add: record_fleet_statistics_def Let_def keep)
qed

subsection \<open>The invariant of the pass\<close>

definition pass_inv :: "parsed_row list list \<Rightarrow> domain_analysis \<Rightarrow> bool" where
  "pass_inv rs d \<longleftrightarrow>
     da_interval_times d = map (\<lambda>run. fl (of_int (run_ms run) / 1000)) rs
     \<and> dict_get (da_runtime_to_interval d) = last_index (map run_ms rs)
     \<and> dict_wf (da_clients d) \<and> (\<forall>c. views d c = client_view c rs)"

lemma flush_interval_runs:
  assumes "pass_inv rs (ds_analysis st)" and "ds_buffer st = Some b" and "ib_runtime_ms b = run_ms run"
    and "dict_wf (ib_client_rows b)" and "\<And>c. dict_get (ib_client_rows b) c = sample c run"
  shows "pass_inv (rs @ [run]) (ds_analysis (flush_interval st))"
proof -
  let ?i = "length rs" and ?e = "fl (of_int (run_ms run) / 1000)"
  let ?d = "ds_analysis st"
  let ?d1 = "?d \<lparr> da_interval_times := da_interval_times ?d @ [?e],
      da_interval_iso_timestamps := da_interval_iso_timestamps ?d @ [ib_iso_timestamp b],
      da_runtime_to_interval := dict_set (run_ms run) ?i (da_runtime_to_interval ?d) \<rparr>"
  let ?d2 = "mark_missing_clients (ib_client_rows b) (record_aggregate b ?i ?e ?d1)"
  have inv: "da_interval_times ?d = map (\<lambda>run. fl (of_int (run_ms run) / 1000)) rs"
    "dict_get (da_runtime_to_interval ?d) = last_index (map run_ms rs)" "dict_wf (da_clients ?d)"
    "\<And>c. views ?d c = client_view c rs" using assms(1) by (simp_all add: pass_inv_def)
  obtain st1 rates where dr: "derive_interval_rates b ?i (st \<lparr> ds_analysis := ?d2 \<rparr>) = (st1, rates)" by fastforce
  have flush: "ds_analysis (flush_interval st)
      = record_fleet_statistics rates ?i ?e (ib_iso_timestamp b) (ds_analysis st1)"
    using dr inv(1) assms(2,3) by (simp add: flush_interval_def Let_def)
  note derived = derive_interval_simps [OF dr assms(4)]
  have wf1: "dict_wf (da_clients (record_aggregate b ?i ?e ?d1))" using inv(3) by simp
  have "clock (ds_analysis (flush_interval st)) = clock ?d1" unfolding flush by (simp add: derived(2))
  then have "da_interval_times (ds_analysis (flush_interval st)) = da_interval_times ?d1"
    "da_runtime_to_interval (ds_analysis (flush_interval st)) = da_runtime_to_interval ?d1"
    by (simp_all add: clock_def)
  moreover have "dict_wf (da_clients (ds_analysis (flush_interval st)))"
    unfolding flush using derived(3) wf1 by simp
  moreover have "views (ds_analysis (flush_interval st)) c = client_view c (rs @ [run])" for c
  proof -
    have v: "views ?d1 c = client_view c rs" using inv(4) by (simp add: views_def)
    show ?thesis
      unfolding flush client_view_snoc using derived(1) [of c] mark_missing_views [OF wf1] v
      by (auto simp: assms(5) observe_view_def split: option.splits)
  qed
  ultimately show ?thesis by (simp add: pass_inv_def inv last_index_snoc)
qed

definition state_inv :: "parsed_row list list \<Rightarrow> domain_state \<Rightarrow> bool" where
  "state_inv rs st \<longleftrightarrow> (case ds_buffer st of
     None \<Rightarrow> rs = [] \<and> pass_inv [] (ds_analysis st)
   | Some b \<Rightarrow> rs \<noteq> [] \<and> last rs \<noteq> [] \<and> pass_inv (butlast rs) (ds_analysis st) \<and> ib_runtime_ms b = run_ms (last rs)
       \<and> dict_wf (ib_client_rows b) \<and> (\<forall>c. dict_get (ib_client_rows b) c = sample c (last rs)))"

lemma flush_state:
  assumes "state_inv rs st"
  shows "pass_inv rs (ds_analysis (flush_interval st))"
proof (cases "ds_buffer st")
  case None
  then show ?thesis using assms by (simp add: state_inv_def flush_interval_def)
next
  case (Some b)
  then have "pass_inv (butlast rs @ [last rs]) (ds_analysis (flush_interval st))"
    using assms by (intro flush_interval_runs) (auto simp: state_inv_def)
  then show ?thesis using assms Some by (simp add: state_inv_def)
qed

lemma pass_inv_malformed: "pass_inv rs (record_malformed n d) \<longleftrightarrow> pass_inv rs d"
proof -
  have "clock (record_malformed n d) = clock d" "views (record_malformed n d) = views d"
    "da_clients (record_malformed n d) = da_clients d"
    by (simp_all add: record_malformed_def Let_def)
  then show ?thesis by (simp add: pass_inv_def clock_def)
qed

lemma sample_single: "sample c [r] = client_row c r"
  by (simp add: sample_def later_def split: option.splits)

text \<open>One row keeps the invariant.\<close>

lemma buffer_row_starts:
  assumes "pass_inv rs (ds_analysis st)" and "ds_buffer st = Some (new_buffer (pr_runtime_ms r) stamp)"
  shows "state_inv (rs @ [[r]]) (buffer_row n r st)"
  using assms
  by (auto simp: buffer_row_def advance_buffer_def state_inv_def Let_def new_buffer_def run_ms_def sample_single
      client_row_def pass_inv_malformed dict_wf_def split: option.splits)

lemma buffer_row_continues:
  assumes "state_inv rs st" and "rs \<noteq> []" and "run_ms (last rs) = pr_runtime_ms r"
  shows "state_inv (butlast rs @ [last rs @ [r]]) (buffer_row n r st)"
  using assms
  by (auto simp: buffer_row_def advance_buffer_def state_inv_def Let_def run_ms_def sample_snoc later_def
      client_row_def pass_inv_malformed split: option.splits)

lemma buffer_row_advance:
  assumes "\<not> (\<exists>b. ds_buffer st = Some b \<and> ib_runtime_ms b = pr_runtime_ms r)"
  shows "buffer_row n r st = buffer_row n r ((flush_interval st) \<lparr> ds_buffer := Some (new_buffer (pr_runtime_ms r) (pr_iso_timestamp r)) \<rparr>)"
  using assms
  by (auto simp: buffer_row_def advance_buffer_def new_buffer_def flush_interval_def Let_def split: option.splits)

lemma buffer_row_state:
  assumes "state_inv rs st"
  shows "state_inv (add_to_runs rs r) (buffer_row n r st)"
proof (cases "rs \<noteq> [] \<and> pr_runtime_ms (hd (last rs)) = pr_runtime_ms r")
  case True
  then show ?thesis using assms buffer_row_continues [of rs st r n] by (simp add: add_to_runs_def run_ms_def)
next
  case False
  then have "\<not> (\<exists>b. ds_buffer st = Some b \<and> ib_runtime_ms b = pr_runtime_ms r)"
    using assms by (auto simp: state_inv_def run_ms_def)
  then show ?thesis
    using buffer_row_starts [of rs "(flush_interval st) \<lparr> ds_buffer := Some (new_buffer (pr_runtime_ms r) (pr_iso_timestamp r)) \<rparr>" r
        "pr_iso_timestamp r" n] flush_state [OF assms] buffer_row_advance [of st r n] False
    by (auto simp: add_to_runs_def)
qed

lemma new_domain_state_inv: "state_inv [] (new_domain_state key)"
  by (simp add: state_inv_def new_domain_state_def pass_inv_def new_domain_analysis_def last_index_def views_def
      client_view_def fun_eq_iff)

definition domain_fold :: "live_domain_key \<Rightarrow> (nat \<times> parsed_row) list \<Rightarrow> domain_state" where
  "domain_fold key numbered = foldl (\<lambda>st (n, r). buffer_row n r st) (new_domain_state key) numbered"

lemma domain_fold_state: "state_inv (runs (map snd numbered)) (domain_fold key numbered)"
  by (induction numbered rule: rev_induct)
    (auto simp: runs_def domain_fold_def new_domain_state_inv buffer_row_state split: prod.splits)

subsection \<open>Streaming over all domains\<close>

lemma analyze_rows_by_key:
  "dict_get (foldl analyze_row [] numbered) k =
     (let mine = filter (\<lambda>(n, r). pr_key r = k) numbered in if mine = [] then None else Some (domain_fold k mine))"
proof (induction numbered rule: rev_induct)
  case (snoc nr numbered)
  obtain n r where nr: "nr = (n, r)" by fastforce
  show ?case using snoc by (auto simp: nr analyze_row_def Let_def domain_fold_def)
qed simp

lemma map_snd_filter_enumerate:
  "map snd (filter (\<lambda>(n, x). P x) (enumerate i xs)) = filter P xs"
  by (induction xs arbitrary: i) auto

lemma first_pass_core:
  "case dict_get (analyze_live_csv rows) k of
     None \<Rightarrow> filter (\<lambda>r. pr_key r = k) rows = []
   | Some d \<Rightarrow> filter (\<lambda>r. pr_key r = k) rows \<noteq> [] \<and> pass_inv (runs (filter (\<lambda>r. pr_key r = k) rows)) d"
proof -
  let ?mine = "filter (\<lambda>(n, r). pr_key r = k) (enumerate 2 rows)"
  have mine: "map snd ?mine = filter (\<lambda>r. pr_key r = k) rows" by (rule map_snd_filter_enumerate)
  have "dict_get (analyze_live_csv rows) k
      = map_option (\<lambda>st. ds_analysis (flush_interval st)) (dict_get (foldl analyze_row [] (enumerate 2 rows)) k)"
    by (simp add: analyze_live_csv_def map_of_map)
  then show ?thesis
    using domain_fold_state [of ?mine k] mine analyze_rows_by_key [of "enumerate 2 rows" k]
    by (auto simp: Let_def flush_state split: if_splits)
qed

text \<open>C21. The streaming pass gives every domain of the file the intervals of its own rows: one per run of equal
  \<^verbatim>\<open>RuntimeMS\<close>, with its time, the last interval of every \<^verbatim>\<open>RuntimeMS\<close>, and for every client that has a sample the
  number of intervals without one, the first interval in which its counter was above zero and its last counter.\<close>

theorem first_pass_refines_runs:
  "case dict_get (analyze_live_csv rows) k of
     None \<Rightarrow> filter (\<lambda>r. pr_key r = k) rows = []
   | Some d \<Rightarrow> filter (\<lambda>r. pr_key r = k) rows \<noteq> [] \<and> pass_inv (runs (filter (\<lambda>r. pr_key r = k) rows)) d"
  by (rule first_pass_core)

end
