(* ===== verification/LiveSteady.thy ===== *)
theory LiveSteady
  imports LivePass
begin

section \<open>The steady window and the sliding windows (lib/elbencho\_live\_steady.py)\<close>

text \<open>
  The second pass bounds the steady window of a domain, streams the samples of its clients again interval by
  interval and evaluates sliding windows over a ring of snapshots: Jain's index, the ratio of every client to the
  fleet median, and from these the class of every client. Byte counters are below \<open>2 ^ 53\<close>, where every integer is
  a double, so a quotient of counters is rounded once. Not modelled are the latency summary and its rank correlations,
  which rest on the interpreter's \<^verbatim>\<open>statistics\<close> module and \<^verbatim>\<open>sum\<close> of floats.
\<close>

subsection \<open>Constants and records\<close>

definition WINDOW_INTERVAL :: string where "WINDOW_INTERVAL = ''interval''"
definition WINDOW_5S :: string where "WINDOW_5S = ''5s''"
definition WINDOW_30S :: string where "WINDOW_30S = ''30s''"
definition WINDOW_LABELS :: "string list" where "WINDOW_LABELS = [WINDOW_INTERVAL, WINDOW_5S, WINDOW_30S]"
definition WINDOW_SECONDS :: "(string, rat) dict" where "WINDOW_SECONDS = [(WINDOW_5S, 5), (WINDOW_30S, 30)]"
definition RAMP_FRACTION :: rat where "RAMP_FRACTION = 3 / 4"
definition JAIN_LOW :: rat where "JAIN_LOW = fl (95 / 100)"
definition TRANSIENT_SHARE_FACTOR :: rat where "TRANSIENT_SHARE_FACTOR = 2"
definition DEFAULT_INTERVAL_MS :: int where "DEFAULT_INTERVAL_MS = 1000"

datatype client_class = Persistent | Transient | Ok_class

definition CLASS_ORDER :: "client_class list" where "CLASS_ORDER = [Persistent, Transient, Ok_class]"

datatype steady_reason = No_first_time | Too_short | No_steady_state

record phase_context =
  pc_first_ms :: "int option"
  pc_block_size_bytes :: "int option"

record steady_bounds =
  sw_start_interval :: "nat option"
  sw_end_interval :: "nat option"
  sw_start_ms :: "int option"
  sw_end_ms :: "int option"
  sw_reason :: "steady_reason option"

definition available :: "steady_bounds \<Rightarrow> bool" where
  "available w \<longleftrightarrow> sw_reason w = None \<and> sw_start_ms w \<noteq> None"

record window_series =
  ws_label :: string
  ws_length_intervals :: nat
  ws_window_ms :: int
  ws_end_interval :: "nat list"
  ws_end_ms :: "int list"
  ws_clients :: "nat list"
  ws_jain :: "rat option list"
  ws_median_bytes :: "rat option list"
  ws_min_over_median :: "rat option list"
  ws_floor :: "rat option list"
  ws_in_steady :: "bool list"

definition new_series :: "string \<Rightarrow> nat \<Rightarrow> int \<Rightarrow> window_series" where
  "new_series label length_intervals window_ms = \<lparr> ws_label = label, ws_length_intervals = length_intervals,
     ws_window_ms = window_ms, ws_end_interval = [], ws_end_ms = [], ws_clients = [], ws_jain = [],
     ws_median_bytes = [], ws_min_over_median = [], ws_floor = [], ws_in_steady = [] \<rparr>"

record fleet_band =
  fb_end_ms :: "int list"
  fb_p10_mib_s :: "rat option list"
  fb_p50_mib_s :: "rat option list"
  fb_p90_mib_s :: "rat option list"

record client_steady =
  cs_client :: live_client_id
  cs_steady_bytes :: "int option"
  cs_steady_mean_mib_s :: "rat option"
  cs_steady_ratio :: "rat option"
  cs_worst_5s_ratio :: "rat option"
  cs_worst_5s_ms :: "int option"
  cs_worst_30s_ratio :: "rat option"
  cs_worst_30s_ms :: "int option"
  cs_windows_5s :: nat
  cs_short_5s :: nat
  cs_slow_5s :: nat
  cs_windows_30s :: nat
  cs_short_30s :: nat
  cs_classification :: "client_class option"

definition new_client_steady :: "live_client_id \<Rightarrow> client_steady" where
  "new_client_steady c = \<lparr> cs_client = c, cs_steady_bytes = None, cs_steady_mean_mib_s = None, cs_steady_ratio = None,
     cs_worst_5s_ratio = None, cs_worst_5s_ms = None, cs_worst_30s_ratio = None, cs_worst_30s_ms = None,
     cs_windows_5s = 0, cs_short_5s = 0, cs_slow_5s = 0, cs_windows_30s = 0, cs_short_30s = 0,
     cs_classification = None \<rparr>"

record steady_analysis =
  sa_window :: steady_bounds
  sa_context :: phase_context
  sa_interval_ms :: int
  sa_shortfall_percent :: rat
  sa_min_slow_windows :: int
  sa_series :: "(string, window_series) dict"
  sa_band_5s :: fleet_band
  sa_clients :: "(live_client_id, client_steady) dict"

subsection \<open>Bounds of the steady window\<close>

definition runtimes_ms :: "domain_analysis \<Rightarrow> int list" where
  "runtimes_ms d = map (\<lambda>seconds. py_round (fl (seconds * 1000))) (da_interval_times d)"

definition interval_ms_of_rows :: "domain_analysis \<Rightarrow> int" where
  "interval_ms_of_rows d =
     (let times = da_interval_times d;
          spacings = sort (List.map_filter (\<lambda>(previous, current). if current > previous then Some (fl (current - previous)) else None)
            (zip times (tl times)));
          median_ms = py_round (fl (percentile_from_sorted spacings 50 * 1000))
      in if spacings \<noteq> [] \<and> median_ms > 0 then median_ms else DEFAULT_INTERVAL_MS)"

definition interval_ms_of :: "domain_analysis \<Rightarrow> int option \<Rightarrow> int" where
  "interval_ms_of d configured_ms =
     (case configured_ms of Some n \<Rightarrow> if n > 0 then n else interval_ms_of_rows d | None \<Rightarrow> interval_ms_of_rows d)"

definition window_length_intervals :: "rat \<Rightarrow> int \<Rightarrow> nat" where
  "window_length_intervals seconds interval_ms = nat (max 1 (py_round (fl (fl (seconds * 1000) / of_int interval_ms))))"

definition last_interval_at_or_before :: "int list \<Rightarrow> int option \<Rightarrow> nat option" where
  "last_interval_at_or_before runtimes limit_ms = (case limit_ms of
     None \<Rightarrow> None | Some limit \<Rightarrow> find (\<lambda>i. runtimes ! i \<le> limit) (rev [0..<length runtimes]))"

definition ramp_start :: "domain_analysis \<Rightarrow> nat \<Rightarrow> nat \<Rightarrow> nat" where
  "ramp_start d candidate finish =
     (let rates = List.map_filter (\<lambda>p. if candidate \<le> ap_interval p \<and> ap_interval p \<le> finish
              then map_option (\<lambda>rate. (ap_interval p, rate)) (ap_throughput_mib_s p) else None) (da_aggregate_points d);
          median = percentile_from_sorted (sort (map snd rates)) 50
      in case find (\<lambda>(_, rate). rate \<ge> fl (RAMP_FRACTION * median)) (sort rates) of
           Some (interval, _) \<Rightarrow> interval | None \<Rightarrow> candidate)"

definition steady_window :: "domain_analysis \<Rightarrow> phase_context \<Rightarrow> int \<Rightarrow> steady_bounds" where
  "steady_window d context interval_ms =
     (let runtimes = runtimes_ms d;
          none = \<lparr> sw_start_interval = None, sw_end_interval = None, sw_start_ms = None, sw_end_ms = None, sw_reason = None \<rparr>
      in case last_interval_at_or_before runtimes (pc_first_ms context) of
           None \<Rightarrow> none \<lparr> sw_reason := Some No_first_time \<rparr>
         | Some finish \<Rightarrow>
           let end_ms = runtimes ! finish;
               unsettled = none \<lparr> sw_end_interval := Some finish, sw_end_ms := Some end_ms, sw_reason := Some No_steady_state \<rparr>
           in case (if da_clients d = [] then Some 1 else all_started_interval d) of
                None \<Rightarrow> unsettled
              | Some candidate \<Rightarrow>
                if max 1 candidate > finish then unsettled
                else let start = ramp_start d (max 1 candidate) finish;
                         start_ms = runtimes ! start;
                         min_span_ms = max (fl (fl (2 * 5) * 1000)) (of_int (2 * interval_ms));
                         reason = (if of_int (end_ms - start_ms) < min_span_ms then Some Too_short
                           else if of_int (start_ms - runtimes ! 0) > fl (1 / 2 * of_int (end_ms - runtimes ! 0)) then Some No_steady_state
                           else None)
                     in \<lparr> sw_start_interval = Some start, sw_end_interval = Some finish, sw_start_ms = Some start_ms,
                          sw_end_ms = Some end_ms, sw_reason = reason \<rparr>)"

subsection \<open>Snapshots\<close>

text \<open>The samples of a domain in file order; \<^verbatim>\<open>wanted\<close> limits them to some clients.\<close>

definition domain_client_rows ::
  "parsed_row list \<Rightarrow> domain_analysis \<Rightarrow> live_client_id list option \<Rightarrow> (nat \<times> live_client_id \<times> int) list" where
  "domain_client_rows rows d wanted =
     List.map_filter (\<lambda>r. case (pr_client r, pr_done_bytes r) of
         (Some client, Some done_bytes) \<Rightarrow>
           if pr_key r \<noteq> da_key d then None
           else if (case wanted of None \<Rightarrow> False | Some cs \<Rightarrow> client \<notin> set cs) then None
           else map_option (\<lambda>interval. (interval, client, done_bytes)) (dict_get (da_runtime_to_interval d) (pr_runtime_ms r))
       | _ \<Rightarrow> None) rows"

type_synonym snapshot = "(live_client_id, int) dict"

text \<open>Yielding the current snapshot and then empty ones up to an interval.\<close>

definition yield_until :: "nat \<Rightarrow> snapshot \<Rightarrow> nat \<Rightarrow> (nat \<times> snapshot) list" where
  "yield_until current snap bound = map (\<lambda>i. (i, if i = current then snap else [])) [current..<bound]"

fun snapshot_loop :: "nat \<Rightarrow> snapshot \<Rightarrow> nat \<Rightarrow> (nat \<times> live_client_id \<times> int) list \<Rightarrow> (nat \<times> snapshot) list" where
  "snapshot_loop current snap total_intervals [] = yield_until current snap total_intervals"
| "snapshot_loop current snap total_intervals ((interval, client, done_bytes) # rows) =
     (if interval < current then snapshot_loop current snap total_intervals rows
      else yield_until current snap interval
        @ snapshot_loop interval (dict_set client done_bytes (if interval = current then snap else [])) total_intervals rows)"

definition iter_interval_snapshots ::
  "parsed_row list \<Rightarrow> domain_analysis \<Rightarrow> live_client_id list option \<Rightarrow> (nat \<times> snapshot) list" where
  "iter_interval_snapshots rows d wanted =
     snapshot_loop 0 [] (length (da_interval_times d))
       (if da_clients d \<noteq> [] \<and> wanted \<noteq> Some [] then domain_client_rows rows d wanted else [])"

subsection \<open>The ring of snapshots\<close>

definition window_deltas :: "snapshot \<Rightarrow> snapshot \<Rightarrow> (live_client_id, nat) dict \<Rightarrow> int \<Rightarrow> snapshot" where
  "window_deltas snap previous resets begin_interval =
     List.map_filter (\<lambda>(client, done_bytes). case dict_get previous client of
         None \<Rightarrow> None
       | Some prior \<Rightarrow>
           if done_bytes < prior then None
           else if (case dict_get resets client of None \<Rightarrow> False | Some reset \<Rightarrow> int reset > begin_interval) then None
           else Some (client, done_bytes - prior)) snap"

record snapshot_ring =
  sr_depth :: nat
  sr_snapshots :: "(nat, snapshot) dict"
  sr_last_done :: snapshot
  sr_reset_at :: "(live_client_id, nat) dict"

definition new_ring :: "nat \<Rightarrow> snapshot_ring" where
  "new_ring depth = \<lparr> sr_depth = depth, sr_snapshots = [], sr_last_done = [], sr_reset_at = [] \<rparr>"

definition ring_add :: "nat \<Rightarrow> snapshot \<Rightarrow> snapshot_ring \<Rightarrow> snapshot_ring" where
  "ring_add interval snap ring =
     ring \<lparr> sr_reset_at := foldl (\<lambda>resets (client, done_bytes).
              case dict_get (sr_last_done ring) client of
                Some prior \<Rightarrow> if done_bytes < prior then dict_set client interval resets else resets
              | None \<Rightarrow> resets) (sr_reset_at ring) snap,
            sr_last_done := foldl (\<lambda>d (client, done_bytes). dict_set client done_bytes d) (sr_last_done ring) snap,
            sr_snapshots := filter (\<lambda>(i, _). int i \<noteq> int interval - int (sr_depth ring) - 1)
              (dict_set interval snap (sr_snapshots ring)) \<rparr>"

definition ring_deltas :: "nat \<Rightarrow> int \<Rightarrow> snapshot option \<Rightarrow> snapshot_ring \<Rightarrow> snapshot option" where
  "ring_deltas interval begin_interval previous ring =
     (let baseline = (case previous of Some p \<Rightarrow> Some p
        | None \<Rightarrow> if begin_interval \<ge> 0 then dict_get (sr_snapshots ring) (nat begin_interval) else None)
      in map_option (\<lambda>p. window_deltas (case dict_get (sr_snapshots ring) interval of Some s \<Rightarrow> s | None \<Rightarrow> []) p
           (sr_reset_at ring) begin_interval) baseline)"

subsection \<open>The second pass\<close>

type_synonym last_samples = "(live_client_id, int \<times> int) dict"

record steady_pass =
  sp_steady :: steady_analysis
  sp_runtimes :: "int list"
  sp_ring :: snapshot_ring
  sp_last_seen :: last_samples
  sp_at_start :: "last_samples option"
  sp_at_end :: "last_samples option"
  sp_steady_resets :: "live_client_id list"
  sp_short_below :: rat
  sp_slow_below :: rat
  sp_steady_5s :: "(nat \<times> rat option \<times> int) list"

definition new_pass :: "steady_analysis \<Rightarrow> int list \<Rightarrow> steady_pass" where
  "new_pass steady runtimes =
     (let fraction = fl (sa_shortfall_percent steady / 100)
      in \<lparr> sp_steady = steady, sp_runtimes = runtimes,
           sp_ring = new_ring (foldr max (map (ws_length_intervals \<circ> snd) (sa_series steady)) 0),
           sp_last_seen = [], sp_at_start = None, sp_at_end = None, sp_steady_resets = [],
           sp_short_below = fl (1 - fraction), sp_slow_below = fl (1 - fl (2 * fraction)), sp_steady_5s = [] \<rparr>)"

text \<open>The bounds of an available window are integers; \<open>at_bound\<close> compares with one that may be missing.\<close>

definition at_bound :: "nat option \<Rightarrow> int \<Rightarrow> bool" where
  "at_bound bound completed = (case bound of None \<Rightarrow> False | Some b \<Rightarrow> completed \<ge> int b)"

definition capture_bounds :: "int \<Rightarrow> steady_pass \<Rightarrow> steady_pass" where
  "capture_bounds completed p =
     (let window = sa_window (sp_steady p);
          p1 = (if sp_at_start p = None \<and> at_bound (sw_start_interval window) completed
                then p \<lparr> sp_at_start := Some (sp_last_seen p) \<rparr> else p)
      in if sp_at_end p1 = None \<and> at_bound (sw_end_interval window) completed
         then p1 \<lparr> sp_at_end := Some (sp_last_seen p1),
                sp_steady_resets := map fst (filter (\<lambda>(_, reset). case sw_start_interval window of None \<Rightarrow> False
                  | Some start \<Rightarrow> reset > start) (sr_reset_at (sp_ring p1))) \<rparr>
         else p1)"

definition record_band :: "int \<Rightarrow> int \<Rightarrow> rat list \<Rightarrow> fleet_band \<Rightarrow> fleet_band" where
  "record_band end_ms elapsed_ms values band =
     (let scale = fl (fl (1000 / of_int elapsed_ms) / of_int MIB);
          column = (\<lambda>pct. if values = [] \<or> elapsed_ms \<le> 0 then None else Some (fl (percentile_from_sorted values pct * scale)))
      in band \<lparr> fb_end_ms := fb_end_ms band @ [end_ms], fb_p10_mib_s := fb_p10_mib_s band @ [column 10],
           fb_p50_mib_s := fb_p50_mib_s band @ [column 50], fb_p90_mib_s := fb_p90_mib_s band @ [column 90] \<rparr>)"

definition worse :: "rat \<Rightarrow> rat option \<Rightarrow> bool" where
  "worse ratio worst = (case worst of None \<Rightarrow> True | Some w \<Rightarrow> ratio < w)"

definition count_window :: "string \<Rightarrow> rat \<Rightarrow> rat \<Rightarrow> rat \<Rightarrow> int \<Rightarrow> client_steady \<Rightarrow> client_steady" where
  "count_window label short_below slow_below ratio end_ms stats =
     (if label = WINDOW_5S then
        (let s = stats \<lparr> cs_windows_5s := cs_windows_5s stats + 1,
               cs_short_5s := cs_short_5s stats + of_bool (ratio < short_below),
               cs_slow_5s := cs_slow_5s stats + of_bool (ratio < slow_below) \<rparr>
         in if worse ratio (cs_worst_5s_ratio s)
            then s \<lparr> cs_worst_5s_ratio := Some ratio, cs_worst_5s_ms := Some end_ms \<rparr> else s)
      else
        (let s = stats \<lparr> cs_windows_30s := cs_windows_30s stats + 1,
               cs_short_30s := cs_short_30s stats + of_bool (ratio < short_below) \<rparr>
         in if worse ratio (cs_worst_30s_ratio s)
            then s \<lparr> cs_worst_30s_ratio := Some ratio, cs_worst_30s_ms := Some end_ms \<rparr> else s))"

definition stats_of :: "live_client_id \<Rightarrow> (live_client_id, client_steady) dict \<Rightarrow> client_steady" where
  "stats_of client clients = (case dict_get clients client of None \<Rightarrow> new_client_steady client | Some s \<Rightarrow> s)"

definition record_ratios ::
  "string \<Rightarrow> rat \<Rightarrow> rat \<Rightarrow> snapshot \<Rightarrow> rat \<Rightarrow> int \<Rightarrow> (live_client_id, client_steady) dict \<Rightarrow> (live_client_id, client_steady) dict" where
  "record_ratios label short_below slow_below deltas median end_ms clients =
     foldl (\<lambda>cs (client, window_bytes).
         dict_set client (count_window label short_below slow_below (fl (of_int window_bytes / median)) end_ms (stats_of client cs)) cs)
       clients deltas"

definition jain_of :: "int list \<Rightarrow> rat option" where
  "jain_of values =
     (let squares = sum_list (map (\<lambda>v. v * v) values)
      in if length values \<ge> 2 \<and> squares > 0
         then Some (fl (of_int (sum_list values * sum_list values) / of_int (int (length values) * squares))) else None)"

definition in_steady_window :: "steady_bounds \<Rightarrow> window_series \<Rightarrow> nat \<Rightarrow> bool" where
  "in_steady_window window series interval \<longleftrightarrow>
     available window \<and> at_bound (sw_start_interval window) (int interval - int (ws_length_intervals series))
     \<and> (case sw_end_interval window of None \<Rightarrow> False | Some finish \<Rightarrow> interval \<le> finish)"

definition median_of :: "int list \<Rightarrow> rat option" where
  "median_of values = (if values = [] then None else Some (percentile_from_sorted (map of_int values) 50))"

definition floor_share :: "int option \<Rightarrow> int list \<Rightarrow> rat option" where
  "floor_share block_size values = (case block_size of
      Some block \<Rightarrow> if block \<noteq> 0 \<and> values \<noteq> [] \<and> sum_list values > 0
        then (let per_window = fl (fl (of_int (sum_list values) / of_nat (length values)) / of_int block)
              in Some (fl (per_window / fl (per_window + 1))))
        else None
    | None \<Rightarrow> None)"

definition min_over_median :: "int list \<Rightarrow> rat option" where
  "min_over_median values = (case median_of values of
      Some m \<Rightarrow> if jain_of values \<noteq> None \<and> m > 0 then Some (fl (of_int (hd values) / m)) else None
    | None \<Rightarrow> None)"

text \<open>\<^verbatim>\<open>_record\<close>: the entries one window adds to its series, and what else it changes.\<close>

definition extend_series :: "window_series \<Rightarrow> nat \<Rightarrow> int list \<Rightarrow> steady_pass \<Rightarrow> window_series" where
  "extend_series series interval values p =
     series \<lparr> ws_end_interval := ws_end_interval series @ [interval],
       ws_end_ms := ws_end_ms series @ [sp_runtimes p ! interval],
       ws_clients := ws_clients series @ [length values], ws_jain := ws_jain series @ [jain_of values],
       ws_median_bytes := ws_median_bytes series @ [median_of values],
       ws_min_over_median := ws_min_over_median series @ [min_over_median values],
       ws_floor := ws_floor series @ [floor_share (pc_block_size_bytes (sa_context (sp_steady p))) values],
       ws_in_steady := ws_in_steady series @ [in_steady_window (sa_window (sp_steady p)) series interval] \<rparr>"

definition window_band :: "window_series \<Rightarrow> nat \<Rightarrow> int list \<Rightarrow> steady_pass \<Rightarrow> fleet_band" where
  "window_band series interval values p =
     (let end_ms = sp_runtimes p ! interval; band = sa_band_5s (sp_steady p)
      in if ws_label series = WINDOW_5S
         then record_band end_ms (end_ms - sp_runtimes p ! (interval - ws_length_intervals series)) (map of_int values) band
         else band)"

definition window_ratios :: "window_series \<Rightarrow> nat \<Rightarrow> snapshot \<Rightarrow> steady_pass \<Rightarrow> (live_client_id, client_steady) dict" where
  "window_ratios series interval deltas p =
     (let clients = sa_clients (sp_steady p) in
      case median_of (sort (map snd deltas)) of
        Some m \<Rightarrow> if in_steady_window (sa_window (sp_steady p)) series interval \<and> m \<noteq> 0 \<and> dict_get WINDOW_SECONDS (ws_label series) \<noteq> None
          then record_ratios (ws_label series) (sp_short_below p) (sp_slow_below p) deltas m (sp_runtimes p ! interval) clients
          else clients
      | None \<Rightarrow> clients)"

definition record_window :: "window_series \<Rightarrow> nat \<Rightarrow> snapshot \<Rightarrow> steady_pass \<Rightarrow> steady_pass" where
  "record_window series interval deltas p =
     (let values = sort (map snd deltas) in
      p \<lparr> sp_steady := (sp_steady p) \<lparr>
             sa_series := dict_set (ws_label series) (extend_series series interval values p) (sa_series (sp_steady p)),
             sa_band_5s := window_band series interval values p,
             sa_clients := window_ratios series interval deltas p \<rparr>,
          sp_steady_5s := (if ws_label series = WINDOW_5S \<and> in_steady_window (sa_window (sp_steady p)) series interval
             then sp_steady_5s p @ [(interval, jain_of values, sum_list values)] else sp_steady_5s p) \<rparr>)"

definition evaluate_series :: "nat \<Rightarrow> steady_pass \<Rightarrow> string \<Rightarrow> steady_pass" where
  "evaluate_series interval p label = (case dict_get (sa_series (sp_steady p)) label of
     None \<Rightarrow> p
   | Some series \<Rightarrow> (case ring_deltas interval (int interval - int (ws_length_intervals series)) None (sp_ring p) of
        None \<Rightarrow> p | Some deltas \<Rightarrow> record_window series interval deltas p))"

definition complete :: "nat \<Rightarrow> snapshot \<Rightarrow> steady_pass \<Rightarrow> steady_pass" where
  "complete interval snap p =
     (let settled = available (sa_window (sp_steady p));
          p1 = (if settled then capture_bounds (int interval - 1) p else p);
          runtime_ms = sp_runtimes p ! interval;
          p2 = p1 \<lparr> sp_ring := ring_add interval snap (sp_ring p1),
                sp_last_seen := foldl (\<lambda>seen (client, done_bytes). dict_set client (done_bytes, runtime_ms) seen) (sp_last_seen p1) snap \<rparr>;
          p3 = (if settled then capture_bounds (int interval) p2 else p2)
      in foldl (evaluate_series interval) p3 (dict_keys (sa_series (sp_steady p3))))"

text \<open>\<^verbatim>\<open>_steady_deltas\<close>: bytes of the steady window, scaled when a client's samples straddle its bounds.\<close>

definition steady_deltas :: "steady_bounds \<Rightarrow> steady_pass \<Rightarrow> snapshot" where
  "steady_deltas window p = (case (sp_at_start p, sp_at_end p, sw_start_ms window, sw_end_ms window) of
     (Some at_start, Some at_end, Some start_ms, Some end_ms) \<Rightarrow>
       List.map_filter (\<lambda>(client, end_done, client_end_ms). case dict_get at_start client of
           None \<Rightarrow> None
         | Some (start_done, client_start_ms) \<Rightarrow>
             if client \<in> set (sp_steady_resets p) then None
             else if client_end_ms > client_start_ms \<and> end_done \<ge> start_done
             then Some (client, py_round (fl (of_int ((end_done - start_done) * (end_ms - start_ms)) / of_int (client_end_ms - client_start_ms))))
             else None) at_end
   | _ \<Rightarrow> [])"

definition steady_bytes :: "steady_bounds \<Rightarrow> snapshot \<Rightarrow> (live_client_id, client_steady) dict \<Rightarrow> (live_client_id, client_steady) dict" where
  "steady_bytes window deltas clients =
     (let seconds = (case (sw_start_ms window, sw_end_ms window) of
            (Some start_ms, Some end_ms) \<Rightarrow> fl (of_int (end_ms - start_ms) / 1000) | _ \<Rightarrow> 0);
          median = (if deltas = [] then 0 else percentile_from_sorted (sort (map (of_int \<circ> snd) deltas)) 50)
      in foldl (\<lambda>cs (client, bytes).
           let stats = (stats_of client cs) \<lparr> cs_steady_bytes := Some bytes \<rparr>;
               s1 = (if seconds > 0 then stats \<lparr> cs_steady_mean_mib_s := Some (fl (fl (of_int bytes / seconds) / of_int MIB)) \<rparr> else stats);
               s2 = (if median > 0 then s1 \<lparr> cs_steady_ratio := Some (fl (of_int bytes / median)) \<rparr> else s1)
           in dict_set client s2 cs) clients deltas)"

definition classify :: "rat \<Rightarrow> int \<Rightarrow> rat \<Rightarrow> client_steady \<Rightarrow> client_class option" where
  "classify short_below min_slow_windows fleet_share stats =
     (if cs_steady_ratio stats = None \<and> cs_windows_5s stats = 0 then None
      else if (case cs_steady_ratio stats of None \<Rightarrow> False | Some ratio \<Rightarrow> ratio < short_below)
           \<or> cs_windows_30s stats \<noteq> 0 \<and> of_nat (cs_short_30s stats) \<ge> fl (1 / 2 * of_nat (cs_windows_30s stats))
      then Some Persistent
      else if int (cs_slow_5s stats) \<ge> min_slow_windows
           \<and> of_nat (cs_slow_5s stats) \<ge> fl (fl (TRANSIENT_SHARE_FACTOR * fleet_share) * of_nat (cs_windows_5s stats))
      then Some Transient
      else Some Ok_class)"

definition finish_pass :: "steady_pass \<Rightarrow> steady_analysis" where
  "finish_pass p =
     (let steady = sp_steady p; window = sa_window steady
      in if \<not> available window then steady
         else let clients = steady_bytes window (steady_deltas window p) (sa_clients steady);
                  shares = sort (List.map_filter (\<lambda>(_, stats). if cs_windows_5s stats \<noteq> 0
                    then Some (fl (of_nat (cs_slow_5s stats) / of_nat (cs_windows_5s stats))) else None) clients);
                  fleet_share = (if shares = [] then 0 else percentile_from_sorted shares 50)
              in steady \<lparr> sa_clients := map (\<lambda>(client, stats).
                   (client, stats \<lparr> cs_classification := classify (sp_short_below p) (sa_min_slow_windows steady) fleet_share stats \<rparr>)) clients \<rparr>)"

definition new_steady :: "domain_analysis \<Rightarrow> phase_context \<Rightarrow> int option \<Rightarrow> rat \<Rightarrow> int \<Rightarrow> steady_analysis" where
  "new_steady d context configured_ms shortfall_percent min_slow_windows =
     (let interval_ms = interval_ms_of d configured_ms
      in \<lparr> sa_window = steady_window d context interval_ms, sa_context = context, sa_interval_ms = interval_ms,
           sa_shortfall_percent = shortfall_percent, sa_min_slow_windows = min_slow_windows,
           sa_series = map (\<lambda>label. let n = window_length_intervals (case dict_get WINDOW_SECONDS label of Some x \<Rightarrow> x | None \<Rightarrow> 0) interval_ms
             in (label, new_series label n (int n * interval_ms))) WINDOW_LABELS,
           sa_band_5s = \<lparr> fb_end_ms = [], fb_p10_mib_s = [], fb_p50_mib_s = [], fb_p90_mib_s = [] \<rparr>,
           sa_clients = map (\<lambda>client. (client, new_client_steady client)) (dict_keys (da_clients d)) \<rparr>)"

definition run_pass :: "parsed_row list \<Rightarrow> domain_analysis \<Rightarrow> steady_analysis \<Rightarrow> steady_pass" where
  "run_pass rows d steady =
     foldl (\<lambda>p (interval, snap). complete interval snap p) (new_pass steady (runtimes_ms d)) (iter_interval_snapshots rows d None)"

text \<open>\<^verbatim>\<open>analyze_steady\<close> without the latency summary\<close>

definition analyze_steady ::
  "parsed_row list \<Rightarrow> domain_analysis \<Rightarrow> phase_context \<Rightarrow> int option \<Rightarrow> rat \<Rightarrow> int \<Rightarrow> steady_analysis" where
  "analyze_steady rows d context configured_ms shortfall_percent min_slow_windows =
     (let steady = new_steady d context configured_ms shortfall_percent min_slow_windows
      in if all_started_interval d = None then steady else finish_pass (run_pass rows d steady))"

subsection \<open>Choosing clients\<close>

definition ratio_key :: "rat option \<Rightarrow> bool \<times> rat" where
  "ratio_key ratio = (case ratio of None \<Rightarrow> (True, 0) | Some r \<Rightarrow> (False, r))"

definition classified_clients :: "steady_analysis \<Rightarrow> int \<Rightarrow> live_client_id list" where
  "classified_clients steady limit =
     (if limit \<le> 0 then []
      else let clients = map snd (sa_clients steady);
               persistent = sort_key (\<lambda>stats. (ratio_key (cs_steady_ratio stats), client_sort_key (cs_client stats)))
                 (filter (\<lambda>stats. cs_classification stats = Some Persistent) clients);
               transient = sort_key (\<lambda>stats. (ratio_key (cs_worst_5s_ratio stats), client_sort_key (cs_client stats)))
                 (filter (\<lambda>stats. cs_classification stats = Some Transient) clients)
           in take (nat limit) (map cs_client (persistent @ transient)))"

definition representative_values :: "'a list \<Rightarrow> int \<Rightarrow> 'a list" where
  "representative_values values limit =
     (if limit \<le> 0 \<or> values = [] then []
      else if int (length values) \<le> limit then values
      else if limit = 1 then [values ! (length values div 2)]
      else let final = int (length values) - 1
           in map (\<lambda>i. values ! nat (py_round (fl (of_int (int i * final) / of_int (limit - 1))))) [0..<nat limit])"

definition heatmap_order :: "steady_analysis \<Rightarrow> live_client_id \<Rightarrow> (bool \<times> rat) \<times> int \<times> int \<times> string \<times> string" where
  "heatmap_order steady client =
     (ratio_key (case dict_get (sa_clients steady) client of None \<Rightarrow> None | Some stats \<Rightarrow> cs_steady_ratio stats), client_sort_key client)"

definition select_heatmap_rows :: "steady_analysis \<Rightarrow> int \<Rightarrow> live_client_id list" where
  "select_heatmap_rows steady limit =
     (if limit \<le> 0 then []
      else let chosen = classified_clients steady limit;
               remaining = sort_key (heatmap_order steady) (filter (\<lambda>client. client \<notin> set chosen) (dict_keys (sa_clients steady)))
           in sort_key (heatmap_order steady) (chosen @ representative_values remaining (limit - int (length chosen))))"

definition class_counts :: "steady_analysis \<Rightarrow> (client_class, nat) dict" where
  "class_counts steady = map (\<lambda>name. (name, length (filter (\<lambda>(_, stats). cs_classification stats = Some name) (sa_clients steady)))) CLASS_ORDER"

subsection \<open>The third pass\<close>

definition client_window_deltas ::
  "parsed_row list \<Rightarrow> domain_analysis \<Rightarrow> window_series \<Rightarrow> live_client_id list \<Rightarrow> (nat, snapshot) dict" where
  "client_window_deltas rows d series chosen =
     (if ws_end_interval series = [] \<or> chosen = [] then []
      else snd (foldl (\<lambda>(ring, deltas_by_end) (interval, snap).
          let ring' = ring_add interval snap ring
          in (ring', (case ring_deltas interval (int interval - int (ws_length_intervals series)) None ring' of
                 Some deltas \<Rightarrow> if interval \<in> set (ws_end_interval series) then dict_set interval deltas deltas_by_end else deltas_by_end
               | None \<Rightarrow> deltas_by_end)))
        (new_ring (ws_length_intervals series), []) (iter_interval_snapshots rows d (Some chosen))))"

definition window_scales :: "int list \<Rightarrow> window_series \<Rightarrow> rat option list" where
  "window_scales runtimes series = map (\<lambda>finish.
     let elapsed = runtimes ! finish - runtimes ! (finish - ws_length_intervals series)
     in if elapsed > 0 then Some (fl (fl (1000 / of_int elapsed) / of_int MIB)) else None) (ws_end_interval series)"

text \<open>The rates and the ratios of each chosen client, aligned with the windows of the series.\<close>

definition collect_windowed_client_detail ::
  "parsed_row list \<Rightarrow> domain_analysis \<Rightarrow> window_series \<Rightarrow> live_client_id list
     \<Rightarrow> (live_client_id \<times> rat option list \<times> rat option list) list" where
  "collect_windowed_client_detail rows d series clients =
     (let chosen = rev (remdups (rev clients));
          deltas_by_end = client_window_deltas rows d series chosen;
          scales = window_scales (runtimes_ms d) series
      in map (\<lambda>client.
           let window_bytes = map (\<lambda>finish. case dict_get deltas_by_end finish of None \<Rightarrow> None | Some deltas \<Rightarrow> dict_get deltas client)
                 (ws_end_interval series)
           in (client,
               map2 (\<lambda>value scale. case (value, scale) of (Some v, Some k) \<Rightarrow> Some (fl (of_int v * k)) | _ \<Rightarrow> None) window_bytes scales,
               map2 (\<lambda>value median. case (value, median) of (Some v, Some m) \<Rightarrow> if m \<noteq> 0 then Some (fl (of_int v / m)) else None | _ \<Rightarrow> None)
                 window_bytes (ws_median_bytes series))) chosen)"

end
