(* ===== verification/LiveRing.thy ===== *)
theory LiveRing
  imports LiveSteady
begin

section \<open>The ring of snapshots against the whole history\<close>

text \<open>
  The ring keeps the last snapshots only and, for every client, the last interval in which its counter went back.
  Here it is compared with the history of all snapshots: a window's bytes are the difference of the two
  counters at its ends, for the clients that have both and whose counter never goes back in between.
\<close>

type_synonym history = "snapshot list"

definition count_at :: "history \<Rightarrow> live_client_id \<Rightarrow> nat \<Rightarrow> int option" where
  "count_at h c i = dict_get (h ! i) c"

text \<open>The counters a client has in the intervals from \<open>b\<close> to \<open>e\<close>, and the last one before an interval.\<close>

definition counters :: "history \<Rightarrow> live_client_id \<Rightarrow> nat \<Rightarrow> nat \<Rightarrow> int list" where
  "counters h c b e = List.map_filter (count_at h c) [b..<Suc e]"

definition last_count :: "history \<Rightarrow> live_client_id \<Rightarrow> int option" where
  "last_count h c = foldl (\<lambda>s snap. later s (dict_get snap c)) None h"

definition window_reference :: "history \<Rightarrow> live_client_id \<Rightarrow> nat \<Rightarrow> nat \<Rightarrow> int option" where
  "window_reference h c b e = (case (count_at h c b, count_at h c e) of
     (Some u, Some v) \<Rightarrow> if sorted (counters h c b e) then Some (v - u) else None
   | _ \<Rightarrow> None)"

definition goes_back :: "history \<Rightarrow> live_client_id \<Rightarrow> nat \<Rightarrow> bool" where
  "goes_back h c i = (case (last_count (take i h) c, count_at h c i) of (Some u, Some v) \<Rightarrow> v < u | _ \<Rightarrow> False)"

definition ring_of :: "nat \<Rightarrow> history \<Rightarrow> snapshot_ring" where
  "ring_of depth h = foldl (\<lambda>ring (i, snap). ring_add i snap ring) (new_ring depth) (enumerate 0 h)"

lemma last_count_snoc: "last_count (h @ [snap]) c = later (last_count h c) (dict_get snap c)"
  by (simp add: last_count_def)

lemma ring_of_snoc: "ring_of depth (h @ [snap]) = ring_add (length h) snap (ring_of depth h)"
  by (simp add: ring_of_def enumerate_append_eq)

lemma goes_back_append: "i < length h \<Longrightarrow> goes_back (h @ h') c i = goes_back h c i"
  by (simp add: goes_back_def count_at_def nth_append)

lemma find_rev_snoc:
  "find P (rev [0..<Suc n]) = (if P n then Some n else find P (rev [0..<n]))"
  by simp

subsection \<open>What the ring holds\<close>

definition resets_of :: "history \<Rightarrow> live_client_id \<Rightarrow> nat option" where
  "resets_of h c = find (goes_back h c) (rev [0..<length h])"

definition ring_holds :: "nat \<Rightarrow> history \<Rightarrow> snapshot_ring \<Rightarrow> bool" where
  "ring_holds depth h ring \<longleftrightarrow>
     sr_depth ring = depth
     \<and> dict_wf (sr_snapshots ring)
     \<and> (\<forall>i. dict_get (sr_snapshots ring) i = (if i < length h \<and> length h \<le> i + depth + 1 then Some (h ! i) else None))
     \<and> (\<forall>c. dict_get (sr_last_done ring) c = last_count h c)
     \<and> (\<forall>c. dict_get (sr_reset_at ring) c = resets_of h c)"

lemma map_of_filter_key: "map_of (filter (\<lambda>(k, _). P k) d) k = (if P k then map_of d k else None)"
  by (induction d) auto

lemma dict_wf_filter: "dict_wf d \<Longrightarrow> dict_wf (filter P d)"
  by (simp add: dict_wf_def distinct_map_filter)

lemma update_all:
  assumes "dict_wf snap"
  shows "dict_get (foldl (\<lambda>d (k, v). dict_set k (f v) d) d snap) c = later (dict_get d c) (map_option f (dict_get snap c))"
  using foldl_pointwise [of dict_get "\<lambda>d (k, v). dict_set k (f v) d" "\<lambda>k v o'. Some (f v)" snap d c] assms
  by (auto simp: dict_wf_def later_def split: option.splits)

lemma resets_of_snoc:
  "resets_of (h @ [snap]) c = (if (case (last_count h c, dict_get snap c) of (Some u, Some v) \<Rightarrow> v < u | _ \<Rightarrow> False)
     then Some (length h) else resets_of h c)"
proof -
  have "find (goes_back (h @ [snap]) c) (rev [0..<length h]) = resets_of h c"
    unfolding resets_of_def by (intro find_cong_set) (simp add: goes_back_append)
  then show ?thesis by (simp add: resets_of_def goes_back_def count_at_def)
qed

lemma ring_add_resets:
  assumes "dict_wf snap"
  shows "dict_get (sr_reset_at (ring_add i snap ring)) c =
    (case (dict_get (sr_last_done ring) c, dict_get snap c) of
       (Some u, Some v) \<Rightarrow> if v < u then Some i else dict_get (sr_reset_at ring) c
     | _ \<Rightarrow> dict_get (sr_reset_at ring) c)"
proof -
  let ?g = "\<lambda>resets (client, done_bytes). case dict_get (sr_last_done ring) client of
      Some prior \<Rightarrow> if done_bytes < prior then dict_set client i resets else resets | None \<Rightarrow> resets"
  have "dict_get (foldl ?g (sr_reset_at ring) snap) c = (case map_of snap c of None \<Rightarrow> dict_get (sr_reset_at ring) c
      | Some v \<Rightarrow> (case dict_get (sr_last_done ring) c of Some u \<Rightarrow> if v < u then Some i else dict_get (sr_reset_at ring) c
          | None \<Rightarrow> dict_get (sr_reset_at ring) c))"
    using assms
    by (intro foldl_pointwise [where F = "\<lambda>k v o'. case dict_get (sr_last_done ring) k of
        Some u \<Rightarrow> if v < u then Some i else o' | None \<Rightarrow> o'"]) (auto simp: dict_wf_def fun_eq_iff split: option.splits)
  then show ?thesis by (auto simp: ring_add_def split: option.splits)
qed

lemma ring_of_holds:
  assumes "list_all dict_wf h"
  shows "ring_holds depth h (ring_of depth h)"
  using assms
proof (induction h rule: rev_induct)
  case Nil
  show ?case by (simp add: ring_holds_def ring_of_def new_ring_def last_count_def resets_of_def)
next
  case (snoc snap h)
  let ?r = "ring_of depth h" and ?r' = "ring_add (length h) snap (ring_of depth h)"
  have ih: "ring_holds depth h ?r" and wf: "dict_wf snap" using snoc by auto
  have "sr_depth ?r' = depth" using ih by (simp add: ring_holds_def ring_add_def)
  moreover have "dict_wf (sr_snapshots ?r')"
    using ih by (simp add: ring_holds_def ring_add_def dict_wf_filter)
  moreover have "dict_get (sr_snapshots ?r') i = (if i < length (h @ [snap]) \<and> length (h @ [snap]) \<le> i + depth + 1
      then Some ((h @ [snap]) ! i) else None)" for i
    using ih by (auto simp: ring_holds_def ring_add_def map_of_filter_key nth_append)
  moreover have "dict_get (sr_last_done ?r') c = last_count (h @ [snap]) c" for c
    using ih update_all [OF wf, of "\<lambda>v. v"] by (simp add: ring_holds_def ring_add_def last_count_snoc option.map_ident)
  moreover have "dict_get (sr_reset_at ?r') c = resets_of (h @ [snap]) c" for c
    using ih by (auto simp: ring_add_resets [OF wf] ring_holds_def resets_of_snoc split: option.splits)
  ultimately show ?case by (simp add: ring_of_snoc ring_holds_def)
qed

text \<open>The memory of the ring: never more than its depth and one snapshot.\<close>

lemma ring_holds_bounded:
  assumes "ring_holds depth h ring"
  shows "length (sr_snapshots ring) \<le> depth + 1"
proof -
  have "set (dict_keys (sr_snapshots ring)) \<subseteq> {length h - (depth + 1)..<length h}"
  proof
    fix i assume "i \<in> set (dict_keys (sr_snapshots ring))"
    then have "dict_get (sr_snapshots ring) i \<noteq> None" by (metis map_of_eq_None_iff list.set_map)
    then show "i \<in> {length h - (depth + 1)..<length h}" using assms by (auto simp: ring_holds_def split: if_splits)
  qed
  then have "card (set (dict_keys (sr_snapshots ring))) \<le> card {length h - (depth + 1)..<length h}"
    by (rule card_mono [rotated]) simp
  moreover have "card (set (dict_keys (sr_snapshots ring))) = length (sr_snapshots ring)"
    using assms distinct_card [of "dict_keys (sr_snapshots ring)"] by (simp add: ring_holds_def dict_wf_def)
  ultimately show ?thesis by simp
qed

subsection \<open>Windows over the ring\<close>

lemma counters_Suc: "b \<le> e \<Longrightarrow> counters h c b (Suc e) = counters h c b e @ (case count_at h c (Suc e) of None \<Rightarrow> [] | Some v \<Rightarrow> [v])"
  by (auto simp: counters_def List.map_filter_def split: option.splits)

lemma last_count_take_Suc: "i < length h \<Longrightarrow> last_count (take (Suc i) h) c = later (last_count (take i h) c) (count_at h c i)"
  by (simp add: take_Suc_conv_app_nth last_count_snoc count_at_def)

lemma sorted_snoc:
  assumes "xs \<noteq> []"
  shows "sorted (xs @ [v :: int]) \<longleftrightarrow> sorted xs \<and> last xs \<le> v"
proof -
  have "x \<le> last xs" if "sorted xs" "x \<in> set xs" for x
  proof -
    have "butlast xs @ [last xs] = xs" using assms by simp
    with that have "sorted (butlast xs @ [last xs])" and "x \<in> set (butlast xs @ [last xs])" by simp_all
    then show ?thesis by (auto simp only: sorted_append set_append) auto
  qed
  then show ?thesis using assms by (fastforce simp: sorted_append)
qed

text \<open>From an interval with a sample on, the last counter is the last of the counters since then, and they are
  in order exactly when the counter never went back.\<close>

lemma counters_since:
  assumes "count_at h c b = Some u" and "b \<le> e" and "e < length h"
  shows "counters h c b e \<noteq> [] \<and> hd (counters h c b e) = u
    \<and> last_count (take (Suc e) h) c = Some (last (counters h c b e))
    \<and> (sorted (counters h c b e) \<longleftrightarrow> (\<forall>i. b < i \<and> i \<le> e \<longrightarrow> \<not> goes_back h c i))"
  using assms(2,3)
proof (induction e rule: dec_induct)
  case base
  have "counters h c b b = [u]" using assms(1) by (simp add: counters_def List.map_filter_def)
  then show ?case using base assms(1) by (auto simp: last_count_take_Suc later_def)
next
  case (step e)
  then have ih: "counters h c b e \<noteq> []" "hd (counters h c b e) = u"
    "last_count (take (Suc e) h) c = Some (last (counters h c b e))"
    "sorted (counters h c b e) \<longleftrightarrow> (\<forall>i. b < i \<and> i \<le> e \<longrightarrow> \<not> goes_back h c i)" by auto
  have "(\<forall>i. b < i \<and> i \<le> Suc e \<longrightarrow> \<not> goes_back h c i)
      \<longleftrightarrow> (\<forall>i. b < i \<and> i \<le> e \<longrightarrow> \<not> goes_back h c i) \<and> \<not> goes_back h c (Suc e)"
    using step(1) by (auto simp: le_Suc_eq)
  moreover have "sorted (xs @ [v]) \<longleftrightarrow> sorted xs \<and> last xs \<le> v" if "xs \<noteq> []" for xs :: "int list" and v
    using that by (rule sorted_snoc)
  ultimately show ?case
    using ih step by (cases "count_at h c (Suc e)") (auto simp: counters_Suc goes_back_def last_count_take_Suc later_def)
qed

lemma map_of_map_filter:
  assumes "distinct (map fst d)"
  shows "map_of (List.map_filter (\<lambda>(k, v). map_option (Pair k) (f k v)) d) c = (case map_of d c of None \<Rightarrow> None | Some v \<Rightarrow> f c v)"
  using assms
proof (induction d)
  case (Cons kv d)
  obtain k v where kv: "kv = (k, v)" by fastforce
  have "map_of d k = None" using Cons.prems by (simp add: kv map_of_eq_None_iff)
  then show ?case using Cons by (auto simp: kv List.map_filter_simps split: option.splits)
qed (simp add: List.map_filter_simps)

lemma map_filter_keys:
  "map fst (List.map_filter (\<lambda>(k, v). map_option (Pair k) (f k v)) d) = map fst (filter (\<lambda>(k, v). f k v \<noteq> None) d)"
  by (induction d) (auto simp: List.map_filter_simps split: option.splits)

definition window_delta :: "snapshot \<Rightarrow> (live_client_id, nat) dict \<Rightarrow> int \<Rightarrow> live_client_id \<Rightarrow> int \<Rightarrow> int option" where
  "window_delta previous resets b k v = (case dict_get previous k of None \<Rightarrow> None
    | Some u \<Rightarrow> if v < u \<or> (case dict_get resets k of None \<Rightarrow> False | Some i \<Rightarrow> int i > b) then None else Some (v - u))"

lemma window_deltas_filter:
  "window_deltas snap previous resets b = List.map_filter (\<lambda>(k, v). map_option (Pair k) (window_delta previous resets b k v)) snap"
  unfolding window_deltas_def window_delta_def
  by (rule arg_cong2 [of _ _ _ _ List.map_filter]) (auto simp: fun_eq_iff split: option.splits)

lemma window_deltas_get:
  assumes "dict_wf snap"
  shows "dict_get (window_deltas snap previous resets b) c = (case dict_get snap c of
     None \<Rightarrow> None | Some v \<Rightarrow> window_delta previous resets b c v)"
  using map_of_map_filter [of snap "window_delta previous resets b" c] assms
  by (simp add: window_deltas_filter dict_wf_def)

lemma window_deltas_wf: "dict_wf snap \<Longrightarrow> dict_wf (window_deltas snap previous resets b)"
  by (simp add: dict_wf_def window_deltas_filter map_filter_keys distinct_map_filter)

lemma resets_after:
  "(case resets_of h c of None \<Rightarrow> False | Some i \<Rightarrow> int i > int b) \<longleftrightarrow> (\<exists>i. b < i \<and> i < length h \<and> goes_back h c i)"
proof -
  have "(case find P (rev [0..<n]) of None \<Rightarrow> False | Some i \<Rightarrow> int i > int b) \<longleftrightarrow> (\<exists>i. b < i \<and> i < n \<and> P i)" for P :: "nat \<Rightarrow> bool" and n
    by (induction n) (auto simp: less_Suc_eq split: option.splits)
  then show ?thesis by (simp add: resets_of_def)
qed

text \<open>The ring of snapshots gives for every window no longer than its depth exactly the bytes a reading of the
  whole history gives: for each client with a sample at both ends whose counter never went back in between the
  difference of the two, nothing for the others, no window before the first full one; and it never holds
  more snapshots than its depth and one.\<close>

lemma ring_equals_history:
  assumes "list_all dict_wf (h @ [snap])" and "n \<le> depth"
  shows "length (sr_snapshots (ring_of depth (h @ [snap]))) \<le> depth + 1
    \<and> (case ring_deltas (length h) (int (length h) - int n) None (ring_of depth (h @ [snap])) of
         None \<Rightarrow> length h < n
       | Some deltas \<Rightarrow> n \<le> length h \<and> dict_wf deltas
           \<and> (\<forall>c. dict_get deltas c = window_reference (h @ [snap]) c (length h - n) (length h)))"
proof -
  let ?h = "h @ [snap]" and ?e = "length h" and ?b = "length h - n"
  have holds: "ring_holds depth ?h (ring_of depth ?h)" using assms(1) by (rule ring_of_holds)
  have wf: "dict_wf snap" using assms(1) by simp
  show ?thesis
  proof (cases "n \<le> ?e")
    case False
    then show ?thesis using ring_holds_bounded [OF holds] by (simp add: ring_deltas_def)
  next
    case True
    have base: "dict_get (sr_snapshots (ring_of depth ?h)) ?b = Some (?h ! ?b)"
      and now: "dict_get (sr_snapshots (ring_of depth ?h)) ?e = Some snap"
      using holds assms(2) True by (auto simp: ring_holds_def)
    have i: "int ?e - int n = int ?b" using True by simp
    have deltas: "ring_deltas ?e (int ?e - int n) None (ring_of depth ?h)
        = Some (window_deltas snap (?h ! ?b) (sr_reset_at (ring_of depth ?h)) (int ?b))"
      unfolding i by (simp add: ring_deltas_def base now)
    have "dict_get (window_deltas snap (?h ! ?b) (sr_reset_at (ring_of depth ?h)) (int ?b)) c = window_reference ?h c ?b ?e" for c
    proof (cases "count_at ?h c ?b")
      case None
      then show ?thesis by (simp add: window_deltas_get [OF wf] window_delta_def window_reference_def count_at_def split: option.splits)
    next
      case (Some u)
      show ?thesis
      proof (cases "dict_get snap c")
        case None
        then show ?thesis by (simp add: window_deltas_get [OF wf] window_delta_def window_reference_def count_at_def split: option.splits)
      next
        case v: (Some v)
        note since = counters_since [OF Some, of ?e]
        have reset: "(case dict_get (sr_reset_at (ring_of depth ?h)) c of None \<Rightarrow> False | Some i \<Rightarrow> int i > int ?b)
            \<longleftrightarrow> \<not> sorted (counters ?h c ?b ?e)"
          using since holds resets_after [of ?b ?h c] by (auto simp: ring_holds_def less_Suc_eq_le)
        have "last (counters ?h c ?b ?e) = v"
          using since v by (simp add: last_count_snoc later_def)
        then have "u \<le> v" if "sorted (counters ?h c ?b ?e)"
          using since that by (cases "counters ?h c ?b ?e") auto
        then show ?thesis
          using reset Some v by (auto simp: window_deltas_get [OF wf] window_delta_def window_reference_def count_at_def)
      qed
    qed
    then show ?thesis using ring_holds_bounded [OF holds] True window_deltas_wf [OF wf] by (simp add: deltas)
  qed
qed

end
