(* ===== verification/LiveWindows.thy ===== *)
theory LiveWindows
  imports LiveRing
begin

section \<open>The second pass over the intervals of the first\<close>

text \<open>
  The second pass reads the file again and looks every row's interval up by its \<^verbatim>\<open>RuntimeMS\<close>. When the \<^verbatim>\<open>RuntimeMS\<close>
  of a domain increase from interval to interval, it sees for every interval exactly the samples of the first
  pass, so the windows, the samples at the bounds of the steady window and the resets in it are those of the
  whole history of samples.
\<close>

subsection \<open>Snapshots are the samples of the runs\<close>

definition set_all :: "snapshot \<Rightarrow> (live_client_id \<times> int) list \<Rightarrow> snapshot" where
  "set_all = foldl (\<lambda>d (c, v). dict_set c v d)"

definition samples_at :: "nat \<Rightarrow> (nat \<times> live_client_id \<times> int) list \<Rightarrow> (live_client_id \<times> int) list" where
  "samples_at i rows = map snd (filter (\<lambda>row. fst row = i) rows)"

lemma snapshot_loop_sorted:
  assumes "sorted (map fst rows)" and "\<forall>row\<in>set rows. current \<le> fst row \<and> fst row < n"
  shows "snapshot_loop current snap n rows
    = map (\<lambda>i. (i, set_all (if i = current then snap else []) (samples_at i rows))) [current..<n]"
  using assms
proof (induction rows arbitrary: current snap)
  case Nil
  then show ?case by (simp add: yield_until_def samples_at_def set_all_def)
next
  case (Cons row rows)
  obtain j c v where row: "row = (j, c, v)" by (cases row) auto
  have j: "current \<le> j" "j < n" using Cons.prems by (auto simp: row)
  let ?snap = "dict_set c v (if j = current then snap else [])"
  have later: "samples_at i (row # rows) = []" if "i < j" for i
    using Cons.prems(1) that by (force simp: samples_at_def row filter_empty_conv)
  have "snapshot_loop current snap n (row # rows) = yield_until current snap j @ snapshot_loop j ?snap n rows"
    using j by (simp add: row)
  also have "snapshot_loop j ?snap n rows
      = map (\<lambda>i. (i, set_all (if i = j then ?snap else []) (samples_at i rows))) [j..<n]"
    using Cons.prems by (intro Cons.IH) (auto simp: row)
  also have "\<dots> = map (\<lambda>i. (i, set_all (if i = current then snap else []) (samples_at i (row # rows)))) [j..<n]"
    using j by (auto simp: samples_at_def row set_all_def)
  also have "yield_until current snap j
      = map (\<lambda>i. (i, set_all (if i = current then snap else []) (samples_at i (row # rows)))) [current..<j]"
    by (simp add: yield_until_def later) (simp add: set_all_def)
  finally show ?case using j upt_add_eq_append [of current j "n - j"] by simp
qed

lemma set_all_get:
  "dict_get (set_all d xs) c = foldl (\<lambda>s (k, v). if k = c then Some v else s) (dict_get d c) xs"
  by (induction xs arbitrary: d) (auto simp: set_all_def)

lemma set_all_wf: "dict_wf d \<Longrightarrow> dict_wf (set_all d xs)"
  unfolding set_all_def by (rule foldl_preserves) (auto split: prod.splits)

subsection \<open>Rows of the runs\<close>

lemma concat_runs: "concat (runs rows) = rows"
proof (induction rows rule: rev_induct)
  case (snoc r rows)
  have "concat (add_to_runs rs r) = concat rs @ [r]" for rs
    by (cases rs rule: rev_cases) (auto simp: add_to_runs_def)
  then show ?case using snoc by (simp add: runs_def)
qed (simp add: runs_def)

definition same_ms :: "parsed_row list \<Rightarrow> bool" where
  "same_ms run \<longleftrightarrow> run \<noteq> [] \<and> (\<forall>r\<in>set run. pr_runtime_ms r = run_ms run)"

lemma same_ms_snoc: "same_ms run \<Longrightarrow> run_ms run = pr_runtime_ms r \<Longrightarrow> same_ms (run @ [r])"
  by (cases run) (auto simp: same_ms_def run_ms_def)

lemma runs_same_ms: "list_all same_ms (runs rows)"
proof (induction rows rule: rev_induct)
  case (snoc r rows)
  have "list_all same_ms (add_to_runs rs r)" if "list_all same_ms rs" for rs
  proof (cases rs rule: rev_cases)
    case Nil
    then show ?thesis by (simp add: add_to_runs_def same_ms_def run_ms_def)
  next
    case (snoc ys y)
    have "same_ms [r]" by (simp add: same_ms_def run_ms_def)
    moreover have "add_to_runs rs r = (if run_ms y = pr_runtime_ms r then ys @ [y @ [r]] else rs @ [[r]])"
      by (simp add: snoc add_to_runs_def run_ms_def)
    ultimately show ?thesis using that same_ms_snoc [of y r] by (simp add: snoc)
  qed
  then show ?case using snoc by (simp add: runs_def)
qed (simp add: runs_def)

lemma last_index_distinct:
  assumes "distinct xs" and "i < length xs"
  shows "last_index xs (xs ! i) = Some i"
  using assms
proof (induction xs rule: rev_induct)
  case (snoc x xs)
  then show ?case by (cases "i = length xs") (auto simp: last_index_snoc nth_append)
qed simp

definition row_sample :: "parsed_row \<Rightarrow> (live_client_id \<times> int) option" where
  "row_sample r = (case (pr_client r, pr_done_bytes r) of (Some c, Some n) \<Rightarrow> Some (c, n) | _ \<Rightarrow> None)"

lemma total_rows_without_client:
  assumes "r \<in> set (iter_parsed_rows rows columns)" and "pr_rank r = TOTAL_RANK"
  shows "pr_client r = None"
proof -
  have "pr_client r = None" if "parse_row row columns = Some r" "pr_rank r = TOTAL_RANK" for row r
    using that by (auto simp: parse_row_def Let_def split: if_splits sum.splits)
  moreover have "\<exists>q\<in>set rs. pr_rank r = pr_rank q \<and> pr_client r = pr_client q" if "r \<in> set (track_rows tracker rs)" for tracker rs
    using that by (induction rs arbitrary: tracker) (auto split: prod.splits)
  ultimately show ?thesis
    using assms by (fastforce simp: iter_parsed_rows_def List.map_filter_def)
qed

lemma sample_of_rows:
  assumes "\<And>r. r \<in> set run \<Longrightarrow> pr_rank r = TOTAL_RANK \<Longrightarrow> pr_client r = None"
  shows "foldl (\<lambda>s (k, v). if k = c then Some v else s) None (List.map_filter row_sample run) = sample c run"
  using assms
proof (induction run rule: rev_induct)
  case (snoc r run)
  have split: "List.map_filter row_sample (run @ [r]) = List.map_filter row_sample run @ (case row_sample r of None \<Rightarrow> [] | Some x \<Rightarrow> [x])"
    by (simp add: List.map_filter_def split: option.splits)
  have "client_row c r = (case row_sample r of None \<Rightarrow> None | Some (k, v) \<Rightarrow> if k = c then Some v else None)"
    using snoc.prems [of r] by (auto simp: row_sample_def client_row_def split: option.splits)
  then show ?case
    unfolding split sample_snoc foldl_append using snoc by (cases "row_sample r") (auto simp: later_def)
qed (simp add: sample_def List.map_filter_simps)

subsection \<open>The key of a domain\<close>

lemma da_key_diagnose [simp]: "da_key (diagnose x n d) = da_key d"
  by (simp add: diagnose_def)

lemma da_key_derive: "da_key (ds_analysis (fst (derive_client ms i acc x))) = da_key (ds_analysis (fst acc))"
  by (auto simp: derive_client_def Let_def split: prod.splits option.splits)

lemma da_key_flush: "da_key (ds_analysis (flush_interval st)) = da_key (ds_analysis st)"
proof -
  have missing: "da_key (mark_missing_clients cs d) = da_key d" for cs d
    unfolding mark_missing_clients_def by (rule foldl_invariant) simp
  have fleet: "da_key (record_fleet_statistics rates i e stamp d) = da_key d" for rates i e stamp d
  proof -
    have "da_key (foldl (\<lambda>d (client, rate). d \<lparr> da_clients := (case dict_get (da_clients d) client of None \<Rightarrow> da_clients d
      | Some s \<Rightarrow> dict_set client (add_rate rate m s) (da_clients d)) \<rparr>) d' rates) = da_key d'" for m and d' :: domain_analysis
      by (rule foldl_invariant) (auto split: prod.splits)
    then show ?thesis by (simp add: record_fleet_statistics_def Let_def)
  qed
  have derive: "da_key (ds_analysis st') = da_key (ds_analysis st)" if "derive_interval_rates b i st = (st', rates)" for b i st st' rates
    using foldl_invariant [of "\<lambda>acc. da_key (ds_analysis (fst acc))" "derive_client (ib_runtime_ms b) i" "(st, [])" "ib_client_rows b"] that
    by (simp add: da_key_derive derive_interval_rates_def)
  show ?thesis
    by (auto simp: flush_interval_def Let_def fleet missing record_aggregate_def dest!: derive split: option.splits prod.splits)
qed

lemma da_key_fold: "da_key (ds_analysis (domain_fold k numbered)) = k"
proof -
  have "da_key (ds_analysis (buffer_row n r st)) = da_key (ds_analysis st)" for n r st
    by (auto simp: buffer_row_def advance_buffer_def Let_def da_key_flush record_malformed_def split: option.splits)
  then have "da_key (ds_analysis (domain_fold k numbered)) = da_key (ds_analysis (new_domain_state k))"
    unfolding domain_fold_def by (intro foldl_invariant) (auto split: prod.splits)
  then show ?thesis by (simp add: new_domain_state_def new_domain_analysis_def)
qed

lemma analyzed_domain:
  assumes "dict_get (analyze_live_csv rows) k = Some d"
  shows "da_key d = k \<and> pass_inv (runs (filter (\<lambda>r. pr_key r = k) rows)) d"
proof -
  let ?mine = "filter (\<lambda>(n, r). pr_key r = k) (enumerate 2 rows)"
  have "dict_get (analyze_live_csv rows) k
      = map_option (\<lambda>st. ds_analysis (flush_interval st)) (dict_get (foldl analyze_row [] (enumerate 2 rows)) k)"
    by (simp add: analyze_live_csv_def map_of_map)
  then have "d = ds_analysis (flush_interval (domain_fold k ?mine))"
    using assms by (auto simp: analyze_rows_by_key Let_def split: if_splits)
  then show ?thesis
    using domain_fold_state [of ?mine k] by (simp add: da_key_flush da_key_fold flush_state map_snd_filter_enumerate)
qed

subsection \<open>The snapshots of the second pass\<close>

lemma map_filter_concat: "List.map_filter f (concat xss) = concat (map (List.map_filter f) xss)"
  by (induction xss) (simp_all add: List.map_filter_def)

lemma map_filter_cong_set:
  assumes "\<And>x. x \<in> set xs \<Longrightarrow> f x = g x"
  shows "List.map_filter f xs = List.map_filter g xs"
  using assms by (induction xs) (auto simp: List.map_filter_simps split: option.splits)

lemma map_filter_Pair: "List.map_filter (\<lambda>x. map_option (Pair i) (f x)) xs = map (Pair i) (List.map_filter f xs)"
  by (induction xs) (auto simp: List.map_filter_simps split: option.splits)

lemma domain_client_rows_runs:
  assumes "rs = runs (filter (\<lambda>r. pr_key r = k) rows)" and "distinct (map run_ms rs)" and "da_key d = k"
    and "dict_get (da_runtime_to_interval d) = last_index (map run_ms rs)"
  shows "domain_client_rows rows d None = concat (map (\<lambda>i. map (Pair i) (List.map_filter row_sample (rs ! i))) [0..<length rs])"
proof -
  let ?g = "\<lambda>r. case row_sample r of None \<Rightarrow> None
    | Some (c, n) \<Rightarrow> map_option (\<lambda>i. (i, c, n)) (last_index (map run_ms rs) (pr_runtime_ms r))"
  have "domain_client_rows rows d None = List.map_filter ?g (filter (\<lambda>r. pr_key r = k) rows)"
  proof (induction rows)
    case (Cons r rows)
    then show ?case
      by (auto simp: domain_client_rows_def List.map_filter_simps assms(3,4) row_sample_def split: option.splits)
  qed (simp add: domain_client_rows_def List.map_filter_simps)
  also have "\<dots> = concat (map (List.map_filter ?g) rs)" by (simp add: assms(1) map_filter_concat concat_runs flip: map_filter_concat)
  also have "map (List.map_filter ?g) rs = map (\<lambda>i. List.map_filter ?g (rs ! i)) [0..<length rs]"
    by (rule nth_equalityI) simp_all
  also have "\<dots> = map (\<lambda>i. map (Pair i) (List.map_filter row_sample (rs ! i))) [0..<length rs]"
  proof (rule map_cong)
    fix i assume "i \<in> set [0..<length rs]"
    then have i: "i < length rs" by simp
    have "?g r = map_option (Pair i) (row_sample r)" if "r \<in> set (rs ! i)" for r
    proof -
      have "pr_runtime_ms r = map run_ms rs ! i"
        using runs_same_ms [of "filter (\<lambda>r. pr_key r = k) rows"] i that by (auto simp: assms(1) list_all_length same_ms_def)
      then show ?thesis using last_index_distinct [OF assms(2), of i] i by (auto split: option.splits)
    qed
    then have "List.map_filter ?g (rs ! i) = List.map_filter (\<lambda>r. map_option (Pair i) (row_sample r)) (rs ! i)"
      by (rule map_filter_cong_set)
    then show "List.map_filter ?g (rs ! i) = map (Pair i) (List.map_filter row_sample (rs ! i))"
      by (simp add: map_filter_Pair)
  qed simp
  finally show ?thesis .
qed

lemma samples_at_concat:
  "samples_at i (concat (map (\<lambda>j. map (Pair j) (f j)) [0..<n])) = (if i < n then f i else [])"
  by (induction n) (auto simp: samples_at_def filter_map comp_def less_Suc_eq)

lemma sorted_concat_intervals:
  "sorted (map fst (concat (map (\<lambda>j. map (Pair j) (f j)) [0..<n])))
    \<and> (\<forall>row\<in>set (concat (map (\<lambda>j. map (Pair j) (f j)) [0..<n])). fst row < n)"
proof (induction n)
  case (Suc n)
  have "map fst (map (Pair n) (f n)) = replicate (length (f n)) n" by (simp add: comp_def map_replicate_const)
  then show ?case using Suc by (auto simp: sorted_append less_Suc_eq)
qed simp

definition snapshots_of :: "parsed_row list list \<Rightarrow> history" where
  "snapshots_of rs = map (\<lambda>run. set_all [] (List.map_filter row_sample run)) rs"

lemma second_pass_snapshots:
  assumes "rs = runs (filter (\<lambda>r. pr_key r = k) rows)" and "distinct (map run_ms rs)"
    and "dict_get (analyze_live_csv rows) k = Some d" and "da_clients d \<noteq> []"
  shows "iter_interval_snapshots rows d None = enumerate 0 (snapshots_of rs)"
proof -
  have d: "da_key d = k" "pass_inv rs d" using analyzed_domain [OF assms(3)] assms(1) by simp_all
  have n: "length (da_interval_times d) = length rs"
    and r2i: "dict_get (da_runtime_to_interval d) = last_index (map run_ms rs)"
    using d(2) by (simp_all add: pass_inv_def)
  let ?f = "\<lambda>i. List.map_filter row_sample (rs ! i)"
  have "iter_interval_snapshots rows d None
      = snapshot_loop 0 [] (length rs) (concat (map (\<lambda>i. map (Pair i) (?f i)) [0..<length rs]))"
    using domain_client_rows_runs [OF assms(1,2) d(1) r2i] assms(4) by (simp add: iter_interval_snapshots_def n)
  also have "\<dots> = map (\<lambda>i. (i, set_all [] (?f i))) [0..<length rs]"
    using sorted_concat_intervals [of ?f "length rs"] snapshot_loop_sorted [of "concat (map (\<lambda>i. map (Pair i) (?f i)) [0..<length rs])" 0 "length rs" "[]"]
    by (simp add: samples_at_concat)
  also have "\<dots> = enumerate 0 (snapshots_of rs)"
    by (rule nth_equalityI) (simp_all add: snapshots_of_def nth_enumerate_eq)
  finally show ?thesis .
qed

lemma snapshots_of_wf: "list_all dict_wf (snapshots_of rs)"
  by (simp add: snapshots_of_def list_all_iff set_all_wf)

lemma snapshots_of_sample:
  assumes "i < length rs" and "\<And>r. r \<in> set (rs ! i) \<Longrightarrow> pr_rank r = TOTAL_RANK \<Longrightarrow> pr_client r = None"
  shows "count_at (snapshots_of rs) c i = sample c (rs ! i)"
  using sample_of_rows [OF assms(2)] assms(1) by (simp add: count_at_def snapshots_of_def set_all_get)

subsection \<open>One step of the second pass\<close>

text \<open>What evaluating windows leaves alone.\<close>

definition pass_context :: "steady_pass \<Rightarrow> snapshot_ring \<times> int list \<times> last_samples \<times> last_samples option \<times> last_samples option
    \<times> live_client_id list \<times> steady_bounds \<times> phase_context" where
  "pass_context p = (sp_ring p, sp_runtimes p, sp_last_seen p, sp_at_start p, sp_at_end p, sp_steady_resets p,
     sa_window (sp_steady p), sa_context (sp_steady p))"

definition labelled :: "steady_pass \<Rightarrow> bool" where
  "labelled p \<longleftrightarrow> (\<forall>l s. dict_get (sa_series (sp_steady p)) l = Some s \<longrightarrow> ws_label s = l)"

type_synonym series_view = "nat \<times> nat list \<times> nat list \<times> rat option list \<times> bool list"

definition view_series :: "window_series \<Rightarrow> series_view" where
  "view_series s = (ws_length_intervals s, ws_end_interval s, ws_clients s, ws_jain s, ws_in_steady s)"

definition series_views :: "steady_pass \<Rightarrow> string \<Rightarrow> series_view option" where
  "series_views p l = map_option view_series (dict_get (sa_series (sp_steady p)) l)"

definition inside :: "steady_bounds \<Rightarrow> nat \<Rightarrow> nat \<Rightarrow> bool" where
  "inside window b e \<longleftrightarrow> available window
     \<and> (case sw_start_interval window of None \<Rightarrow> False | Some start \<Rightarrow> start \<le> b)
     \<and> (case sw_end_interval window of None \<Rightarrow> False | Some finish \<Rightarrow> e \<le> finish)"

definition extend_view :: "steady_bounds \<Rightarrow> snapshot_ring \<Rightarrow> nat \<Rightarrow> series_view \<Rightarrow> series_view" where
  "extend_view window ring e v = (case v of (n, ends, windows, jains, steady) \<Rightarrow>
     case ring_deltas e (int e - int n) None ring of
       None \<Rightarrow> v
     | Some deltas \<Rightarrow> (n, ends @ [e], windows @ [length deltas], jains @ [jain_of (sort (map snd deltas))],
         steady @ [n \<le> e \<and> inside window (e - n) e]))"

lemma record_window_context: "pass_context (record_window series e deltas p) = pass_context p"
  by (simp add: record_window_def Let_def pass_context_def)

lemma record_window_series:
  "sa_series (sp_steady (record_window series e deltas p))
     = dict_set (ws_label series) (extend_series series e (sort (map snd deltas)) p) (sa_series (sp_steady p))"
  by (simp add: record_window_def Let_def)

lemma extend_series_simps:
  "ws_label (extend_series series e values p) = ws_label series"
  "view_series (extend_series series e values p) = (ws_length_intervals series, ws_end_interval series @ [e],
     ws_clients series @ [length values], ws_jain series @ [jain_of values],
     ws_in_steady series @ [in_steady_window (sa_window (sp_steady p)) series e])"
  by (simp_all add: extend_series_def view_series_def)

lemma in_steady_inside:
  "in_steady_window w series e \<longleftrightarrow> ws_length_intervals series \<le> e \<and> inside w (e - ws_length_intervals series) e"
  by (auto simp: inside_def in_steady_window_def at_bound_def split: option.splits)

lemma evaluate_series_step:
  assumes "labelled p"
  shows "pass_context (evaluate_series e p l) = pass_context p \<and> labelled (evaluate_series e p l)
    \<and> dict_keys (sa_series (sp_steady (evaluate_series e p l))) = dict_keys (sa_series (sp_steady p))
    \<and> series_views (evaluate_series e p l)
        = (series_views p)(l := map_option (extend_view (sa_window (sp_steady p)) (sp_ring p) e) (series_views p l))"
proof (cases "dict_get (sa_series (sp_steady p)) l")
  case None
  then show ?thesis using assms by (simp add: evaluate_series_def series_views_def fun_eq_iff)
next
  case (Some s)
  then have l: "ws_label s = l" using assms by (simp add: labelled_def)
  show ?thesis
  proof (cases "ring_deltas e (int e - int (ws_length_intervals s)) None (sp_ring p)")
    case None
    then show ?thesis
      using Some assms by (simp add: evaluate_series_def series_views_def fun_eq_iff extend_view_def view_series_def)
  next
    case d: (Some deltas)
    have ev: "evaluate_series e p l = record_window s e deltas p" by (simp add: evaluate_series_def Some d)
    have mem: "l \<in> set (dict_keys (sa_series (sp_steady p)))" using Some by (metis map_of_eq_None_iff list.set_map option.distinct(1))
    have "labelled (record_window s e deltas p)"
      using assms l by (auto simp: labelled_def record_window_series extend_series_simps split: if_splits)
    moreover have "series_views (record_window s e deltas p)
        = (series_views p)(l := map_option (extend_view (sa_window (sp_steady p)) (sp_ring p) e) (series_views p l))"
      using Some d
      by (simp add: series_views_def fun_eq_iff record_window_series l extend_series_simps)
        (simp add: extend_view_def view_series_def in_steady_inside)
    ultimately show ?thesis
      unfolding ev using record_window_context mem by (simp add: dict_keys_set record_window_series l)
  qed
qed

lemma evaluate_all:
  assumes "labelled p" and "distinct ls"
  shows "pass_context (foldl (evaluate_series e) p ls) = pass_context p \<and> labelled (foldl (evaluate_series e) p ls)
    \<and> dict_keys (sa_series (sp_steady (foldl (evaluate_series e) p ls))) = dict_keys (sa_series (sp_steady p))
    \<and> series_views (foldl (evaluate_series e) p ls)
        = (\<lambda>l. if l \<in> set ls then map_option (extend_view (sa_window (sp_steady p)) (sp_ring p) e) (series_views p l) else series_views p l)"
  using assms
proof (induction ls arbitrary: p)
  case (Cons l ls)
  note step = evaluate_series_step [OF Cons.prems(1), of e l]
  have same: "sa_window (sp_steady (evaluate_series e p l)) = sa_window (sp_steady p)" "sp_ring (evaluate_series e p l) = sp_ring p"
    using step by (auto simp: pass_context_def)
  show ?case using Cons.IH [of "evaluate_series e p l"] step Cons.prems by (auto simp: same fun_eq_iff)
qed (simp add: fun_eq_iff)

lemma capture_bounds_rest:
  "sp_steady (capture_bounds i p) = sp_steady p" "sp_runtimes (capture_bounds i p) = sp_runtimes p"
  "sp_ring (capture_bounds i p) = sp_ring p" "sp_last_seen (capture_bounds i p) = sp_last_seen p"
  by (simp_all add: capture_bounds_def Let_def)

definition fresh_keys :: "steady_pass \<Rightarrow> bool" where
  "fresh_keys p \<longleftrightarrow> labelled p \<and> dict_wf (sa_series (sp_steady p))"

lemma complete_step:
  assumes "fresh_keys p"
  shows "fresh_keys (complete e snap p) \<and> sp_ring (complete e snap p) = ring_add e snap (sp_ring p)
    \<and> sp_runtimes (complete e snap p) = sp_runtimes p
    \<and> sa_window (sp_steady (complete e snap p)) = sa_window (sp_steady p)
    \<and> series_views (complete e snap p)
        = (\<lambda>l. map_option (extend_view (sa_window (sp_steady p)) (ring_add e snap (sp_ring p)) e) (series_views p l))"
proof -
  define settled where "settled = available (sa_window (sp_steady p))"
  define p1 where "p1 = (if settled then capture_bounds (int e - 1) p else p)"
  define p2 where "p2 = p1 \<lparr> sp_ring := ring_add e snap (sp_ring p1),
    sp_last_seen := foldl (\<lambda>seen (client, done_bytes). dict_set client (done_bytes, sp_runtimes p ! e) seen) (sp_last_seen p1) snap \<rparr>"
  define p3 where "p3 = (if settled then capture_bounds (int e) p2 else p2)"
  have complete: "complete e snap p = foldl (evaluate_series e) p3 (dict_keys (sa_series (sp_steady p3)))"
    by (simp add: complete_def Let_def settled_def p1_def p2_def p3_def)
  have rest: "sp_steady p3 = sp_steady p" "sp_runtimes p3 = sp_runtimes p" "sp_ring p3 = ring_add e snap (sp_ring p)"
    by (simp_all add: p3_def p2_def p1_def capture_bounds_rest)
  have "labelled p3" "distinct (dict_keys (sa_series (sp_steady p3)))"
    using assms by (simp_all add: fresh_keys_def labelled_def rest dict_wf_def)
  note all = evaluate_all [OF this, of e]
  have outside: "series_views p3 l = None" if "l \<notin> set (dict_keys (sa_series (sp_steady p3)))" for l
    using that by (simp add: series_views_def map_of_eq_None_iff)
  have "series_views (complete e snap p)
      = (\<lambda>l. map_option (extend_view (sa_window (sp_steady p)) (ring_add e snap (sp_ring p)) e) (series_views p3 l))"
    unfolding complete using all outside by (fastforce simp: rest)
  moreover have "series_views p3 = series_views p" by (simp add: series_views_def fun_eq_iff rest)
  ultimately show ?thesis
    using all assms unfolding complete by (simp add: pass_context_def rest fresh_keys_def dict_wf_def)
qed

subsection \<open>The whole second pass\<close>

definition pass_after :: "steady_pass \<Rightarrow> history \<Rightarrow> steady_pass" where
  "pass_after p h = foldl (\<lambda>p (i, snap). complete i snap p) p (enumerate 0 h)"

definition deltas_at :: "nat \<Rightarrow> history \<Rightarrow> nat \<Rightarrow> nat \<Rightarrow> snapshot" where
  "deltas_at depth h n e = the (ring_deltas e (int e - int n) None (ring_of depth (take (Suc e) h)))"

definition full_view :: "steady_bounds \<Rightarrow> nat \<Rightarrow> history \<Rightarrow> nat \<Rightarrow> series_view" where
  "full_view window depth h n =
     (n, [n..<length h], map (\<lambda>e. length (deltas_at depth h n e)) [n..<length h],
      map (\<lambda>e. jain_of (sort (map snd (deltas_at depth h n e)))) [n..<length h],
      map (\<lambda>e. inside window (e - n) e) [n..<length h])"

lemma deltas_at_snoc: "e < length h \<Longrightarrow> deltas_at depth (h @ [snap]) n e = deltas_at depth h n e"
  by (simp add: deltas_at_def)

lemma full_view_snoc:
  assumes "list_all dict_wf (h @ [snap])" and "n \<le> depth"
  shows "extend_view window (ring_of depth (h @ [snap])) (length h) (full_view window depth h n)
    = full_view window depth (h @ [snap]) n"
proof -
  have old: "map (\<lambda>e. f (deltas_at depth (h @ [snap]) n e)) [n..<length h] = map (\<lambda>e. f (deltas_at depth h n e)) [n..<length h]"
    for f :: "snapshot \<Rightarrow> 'b" by (simp add: deltas_at_snoc)
  show ?thesis
  proof (cases "length h < n")
    case True
    then have "ring_deltas (length h) (int (length h) - int n) None (ring_of depth (h @ [snap])) = None"
      by (simp add: ring_deltas_def)
    with True show ?thesis by (simp add: full_view_def extend_view_def)
  next
    case False
    obtain deltas where d: "ring_deltas (length h) (int (length h) - int n) None (ring_of depth (h @ [snap])) = Some deltas"
      using ring_equals_history [OF assms] False by fastforce
    have new: "deltas_at depth (h @ [snap]) n (length h) = deltas" by (simp add: deltas_at_def d)
    show ?thesis using False old [of length] old [of "\<lambda>d. jain_of (sort (map snd d))"]
      by (simp add: full_view_def extend_view_def d new)
  qed
qed

lemma pass_after_snoc: "pass_after p (h @ [snap]) = complete (length h) snap (pass_after p h)"
  by (simp add: pass_after_def enumerate_append_eq)

lemma pass_after_views:
  assumes "list_all dict_wf h" and "fresh_keys p" and "sp_ring p = new_ring depth"
    and "\<And>l v. series_views p l = Some v \<Longrightarrow> \<exists>n\<le>depth. v = (n, [], [], [], [])"
  shows "fresh_keys (pass_after p h) \<and> sp_ring (pass_after p h) = ring_of depth h
    \<and> sp_runtimes (pass_after p h) = sp_runtimes p \<and> sa_window (sp_steady (pass_after p h)) = sa_window (sp_steady p)
    \<and> series_views (pass_after p h) = (\<lambda>l. map_option (\<lambda>v. full_view (sa_window (sp_steady p)) depth h (fst v)) (series_views p l))"
  using assms(1)
proof (induction h rule: rev_induct)
  case Nil
  have "map_option (\<lambda>v. full_view (sa_window (sp_steady p)) depth [] (fst v)) (series_views p l) = series_views p l" for l
    using assms(4) [of l] by (cases "series_views p l") (auto simp: full_view_def)
  then show ?case using assms(2,3) by (simp add: pass_after_def ring_of_def)
next
  case (snoc snap h)
  then have ih: "fresh_keys (pass_after p h)" "sp_ring (pass_after p h) = ring_of depth h"
    "sp_runtimes (pass_after p h) = sp_runtimes p" "sa_window (sp_steady (pass_after p h)) = sa_window (sp_steady p)"
    "series_views (pass_after p h) = (\<lambda>l. map_option (\<lambda>v. full_view (sa_window (sp_steady p)) depth h (fst v)) (series_views p l))"
    by auto
  have "map_option (extend_view (sa_window (sp_steady p)) (ring_of depth (h @ [snap])) (length h))
      (series_views (pass_after p h) l)
      = map_option (\<lambda>v. full_view (sa_window (sp_steady p)) depth (h @ [snap]) (fst v)) (series_views p l)" for l
    using assms(4) [of l] full_view_snoc [OF snoc.prems] ih(5)
    by (cases "series_views p l") auto
  then show ?case
    using complete_step [OF ih(1), of "length h" snap] ih by (simp add: pass_after_snoc ring_of_snoc fun_eq_iff)
qed

lemma map_of_labelled: "map_of (map (\<lambda>x. (x, f x)) xs) l = (if l \<in> set xs then Some (f l) else None)"
  by (induction xs) auto

text \<open>The three series of a new analysis.\<close>

definition series_length :: "domain_analysis \<Rightarrow> int option \<Rightarrow> string \<Rightarrow> nat" where
  "series_length d configured_ms label =
     window_length_intervals (case dict_get WINDOW_SECONDS label of Some x \<Rightarrow> x | None \<Rightarrow> 0) (interval_ms_of d configured_ms)"

lemma new_pass_series:
  assumes "p = new_pass (new_steady d context configured_ms shortfall m) ts"
  shows "fresh_keys p \<and> (\<exists>depth. sp_ring p = new_ring depth
    \<and> (\<forall>l. series_views p l = (if l \<in> set WINDOW_LABELS then Some (series_length d configured_ms l, [], [], [], []) else None))
    \<and> (\<forall>l\<in>set WINDOW_LABELS. series_length d configured_ms l \<le> depth))"
proof -
  let ?n = "series_length d configured_ms"
  let ?s = "\<lambda>label. new_series label (?n label) (int (?n label) * interval_ms_of d configured_ms)"
  have series: "sa_series (sp_steady p) = map (\<lambda>label. (label, ?s label)) WINDOW_LABELS"
    by (simp add: assms new_pass_def new_steady_def Let_def series_length_def)
  then have got: "dict_get (sa_series (sp_steady p)) l = (if l \<in> set WINDOW_LABELS then Some (?s l) else None)" for l
    by (simp add: map_of_labelled)
  have ring: "sp_ring p = new_ring (foldr max (map (ws_length_intervals \<circ> snd) (sa_series (sp_steady p))) 0)"
    by (simp add: assms new_pass_def Let_def)
  have bound: "x \<le> foldr max xs 0" if "x \<in> set xs" for x :: nat and xs
    using that by (induction xs) (auto simp: le_max_iff_disj)
  have "?n l \<le> foldr max (map (ws_length_intervals \<circ> snd) (sa_series (sp_steady p))) 0" if "l \<in> set WINDOW_LABELS" for l
    using that by (intro bound) (force simp: series new_series_def)
  moreover have "series_views p l = (if l \<in> set WINDOW_LABELS then Some (?n l, [], [], [], []) else None)" for l
    by (simp add: series_views_def got view_series_def new_series_def)
  moreover have "fresh_keys p"
    by (auto simp: fresh_keys_def labelled_def got new_series_def dict_wf_def series comp_def WINDOW_LABELS_def
        WINDOW_INTERVAL_def WINDOW_5S_def WINDOW_30S_def split: if_splits)
  ultimately show ?thesis using ring by blast
qed

text \<open>A window's bytes over the runs of the domain.\<close>

definition run_delta :: "parsed_row list list \<Rightarrow> live_client_id \<Rightarrow> nat \<Rightarrow> nat \<Rightarrow> int option" where
  "run_delta rs c b e = (case (sample c (rs ! b), sample c (rs ! e)) of
     (Some u, Some v) \<Rightarrow> if sorted (List.map_filter (\<lambda>i. sample c (rs ! i)) [b..<Suc e]) then Some (v - u) else None
   | _ \<Rightarrow> None)"

lemma window_reference_runs:
  assumes "\<And>i. i \<le> e \<Longrightarrow> count_at h c i = sample c (rs ! i)" and "b \<le> e"
  shows "window_reference h c b e = run_delta rs c b e"
proof -
  have "counters h c b e = List.map_filter (\<lambda>i. sample c (rs ! i)) [b..<Suc e]"
    unfolding counters_def using assms by (intro map_filter_cong_set) auto
  moreover have "count_at h c b = sample c (rs ! b)" "count_at h c e = sample c (rs ! e)" using assms by auto
  ultimately show ?thesis unfolding window_reference_def run_delta_def by (simp only:)
qed

lemma deltas_at_runs:
  assumes "list_all dict_wf h" and "n \<le> depth" and "n \<le> e" and "e < length h"
    and "\<And>c i. i \<le> e \<Longrightarrow> count_at h c i = sample c (rs ! i)"
  shows "dict_wf (deltas_at depth h n e) \<and> (\<forall>c. dict_get (deltas_at depth h n e) c = run_delta rs c (e - n) e)"
proof -
  have t: "take (Suc e) h = take e h @ [h ! e]" and len: "length (take e h) = e"
    using assms(4) by (simp_all add: take_Suc_conv_app_nth)
  have "list_all dict_wf (take e h @ [h ! e])" using assms(1,4) by (auto simp: list_all_iff dest: in_set_takeD)
  note core = ring_equals_history [OF this assms(2), unfolded len]
  obtain deltas where d: "ring_deltas e (int e - int n) None (ring_of depth (take e h @ [h ! e])) = Some deltas"
    using core assms(3) by (cases "ring_deltas e (int e - int n) None (ring_of depth (take e h @ [h ! e]))") auto
  then have "dict_wf deltas" and ref: "\<And>c. dict_get deltas c = window_reference (take e h @ [h ! e]) c (e - n) e"
    using core by auto
  moreover have "window_reference (take e h @ [h ! e]) c (e - n) e = run_delta rs c (e - n) e" for c
  proof (rule window_reference_runs)
    show "count_at (take e h @ [h ! e]) c i = sample c (rs ! i)" if "i \<le> e" for i
      using assms(5) [OF that, of c] that assms(4) by (auto simp: count_at_def nth_append le_less)
  qed simp
  moreover have "deltas_at depth h n e = deltas" using d by (simp add: deltas_at_def t)
  ultimately show ?thesis by simp
qed

lemma all_started_clients: "all_started_interval d \<noteq> None \<Longrightarrow> da_clients d \<noteq> []"
  by (auto simp: all_started_interval_def List.map_filter_simps)

lemma finish_pass_keeps: "sa_series (finish_pass p) = sa_series (sp_steady p)" "sa_window (finish_pass p) = sa_window (sp_steady p)"
  by (simp_all add: finish_pass_def Let_def)

lemma analyzed_series:
  assumes "dict_get (analyze_live_csv rows) k = Some d"
    and "rs = runs (filter (\<lambda>r. pr_key r = k) rows)" and "distinct (map run_ms rs)" and "all_started_interval d \<noteq> None"
    and "steady = analyze_steady rows d context configured_ms shortfall m"
  shows "\<exists>depth. (\<forall>l\<in>set WINDOW_LABELS. series_length d configured_ms l \<le> depth)
    \<and> (\<forall>l. map_option view_series (dict_get (sa_series steady) l) =
        (if l \<in> set WINDOW_LABELS then Some (full_view (sa_window steady) depth (snapshots_of rs) (series_length d configured_ms l)) else None))"
proof -
  let ?h = "snapshots_of rs"
  let ?p = "new_pass (new_steady d context configured_ms shortfall m) (runtimes_ms d)"
  obtain depth where p: "fresh_keys ?p" "sp_ring ?p = new_ring depth"
    "\<And>l. series_views ?p l = (if l \<in> set WINDOW_LABELS then Some (series_length d configured_ms l, [], [], [], []) else None)"
    "\<forall>l\<in>set WINDOW_LABELS. series_length d configured_ms l \<le> depth"
    using new_pass_series [OF refl, of d "context" configured_ms shortfall m "runtimes_ms d"] by blast
  have "run_pass rows d (new_steady d context configured_ms shortfall m) = pass_after ?p ?h"
    using second_pass_snapshots [OF assms(2,3,1) all_started_clients [OF assms(4)]] by (simp add: run_pass_def pass_after_def)
  then have steady: "steady = finish_pass (pass_after ?p ?h)" using assms(4,5) by (auto simp: analyze_steady_def Let_def)
  have "\<exists>n\<le>depth. v = (n, [], [], [], [])" if "series_views ?p l = Some v" for l v
    using that p(3,4) by (auto split: if_splits)
  note after = pass_after_views [OF snapshots_of_wf [of rs] p(1,2) this]
  have "sa_window steady = sa_window (sp_steady ?p)" using after by (simp add: steady finish_pass_keeps)
  moreover have "map_option view_series (dict_get (sa_series steady) l) = series_views (pass_after ?p ?h) l" for l
    by (simp add: series_views_def steady finish_pass_keeps)
  ultimately show ?thesis using after p(3,4) by auto
qed

text \<open>C22. The series of sliding windows that two streaming passes produce with a bounded ring are those of the
  whole file: when the \<^verbatim>\<open>RuntimeMS\<close> of a domain's intervals differ, a series has one window for every interval from
  its length on, over exactly the clients with a sample at both ends whose counter did not go back in between, with
  their number, Jain's index of their bytes, and whether the window lies inside the steady window.\<close>

theorem windows_follow_samples:
  assumes "dict_get (analyze_live_csv (iter_parsed_rows cells columns)) k = Some d"
    and "rs = runs (filter (\<lambda>r. pr_key r = k) (iter_parsed_rows cells columns))" and "distinct (map run_ms rs)"
    and "all_started_interval d \<noteq> None"
    and "steady = analyze_steady (iter_parsed_rows cells columns) d context configured_ms shortfall m"
    and "dict_get (sa_series steady) l = Some s" and "n = ws_length_intervals s"
  shows "ws_end_interval s = [n..<length rs]
    \<and> (\<forall>j<length rs - n. \<exists>deltas. dict_wf deltas \<and> (\<forall>c. dict_get deltas c = run_delta rs c j (j + n))
         \<and> ws_clients s ! j = length deltas \<and> ws_jain s ! j = jain_of (sort (map snd deltas))
         \<and> ws_in_steady s ! j = inside (sa_window steady) j (j + n))"
proof -
  let ?rows = "iter_parsed_rows cells columns" and ?h = "snapshots_of rs"
  obtain depth where views: "map_option view_series (dict_get (sa_series steady) l) =
      (if l \<in> set WINDOW_LABELS then Some (full_view (sa_window steady) depth ?h (series_length d configured_ms l)) else None)"
    and depth: "\<forall>l\<in>set WINDOW_LABELS. series_length d configured_ms l \<le> depth"
    using analyzed_series [OF assms(1-5)] by blast
  then have l: "l \<in> set WINDOW_LABELS" and full: "view_series s = full_view (sa_window steady) depth ?h (series_length d configured_ms l)"
    using assms(6) by (auto split: if_splits)
  then have nl: "series_length d configured_ms l = n" by (simp add: assms(7) full_view_def view_series_def)
  then have n: "n \<le> depth" and view: "view_series s = full_view (sa_window steady) depth ?h n"
    using depth l full by auto
  have len: "length ?h = length rs" by (simp add: snapshots_of_def)
  have total: "pr_client r = None" if "r \<in> set (rs ! i)" "i < length rs" "pr_rank r = TOTAL_RANK" for r i
  proof -
    have "r \<in> set (concat rs)" using that nth_mem [of i rs] by auto
    then have "r \<in> set ?rows" by (simp add: assms(2) concat_runs)
    then show ?thesis using that(3) by (rule total_rows_without_client)
  qed
  have count: "count_at ?h c i = sample c (rs ! i)" if "i < length rs" for c i
    using snapshots_of_sample [OF that] total that by blast
  have "\<exists>deltas. dict_wf deltas \<and> (\<forall>c. dict_get deltas c = run_delta rs c j (j + n))
         \<and> ws_clients s ! j = length deltas \<and> ws_jain s ! j = jain_of (sort (map snd deltas))
         \<and> ws_in_steady s ! j = inside (sa_window steady) j (j + n)" if j: "j < length rs - n" for j
  proof (intro exI conjI)
    note d = deltas_at_runs [OF snapshots_of_wf [of rs] n, of "j + n" rs]
    show "dict_wf (deltas_at depth ?h n (j + n))" using d count j len by simp
    show "\<forall>c. dict_get (deltas_at depth ?h n (j + n)) c = run_delta rs c j (j + n)" using d count j len by simp
    show "ws_clients s ! j = length (deltas_at depth ?h n (j + n))"
      "ws_jain s ! j = jain_of (sort (map snd (deltas_at depth ?h n (j + n))))"
      "ws_in_steady s ! j = inside (sa_window steady) j (j + n)"
      using view j len by (simp_all add: view_series_def full_view_def add.commute)
  qed
  moreover have "ws_end_interval s = [n..<length rs]" using view len by (simp add: view_series_def full_view_def)
  ultimately show ?thesis by blast
qed

text \<open>Clients whose counter is above zero in some run have started.\<close>

lemma started_if_progressed:
  assumes "pass_inv rs d" and "first_progress c rs \<noteq> None"
  shows "all_started_interval d \<noteq> None"
proof -
  obtain i where i: "first_progress c rs = Some i" using assms(2) by auto
  then have "i < length rs" "progressed (sample c (rs ! i))"
    by (auto simp: first_progress_def find_Some_iff)
  then have "\<not> list_all (\<lambda>run. sample c run = None) rs" by (auto simp: list_all_length progressed_def split: option.splits)
  then have "views d c = Some (missing_runs c rs, first_progress c rs, last_sample c rs)"
    using assms(1) by (simp add: pass_inv_def client_view_def)
  then obtain s where "dict_get (da_clients d) c = Some s" "sm_first_progress_interval s = Some i"
    using i by (auto simp: views_def view_of_def)
  then have "i \<in> set (List.map_filter (sm_first_progress_interval \<circ> snd) (da_clients d))"
    by (force simp: List.map_filter_def dest: map_of_SomeD)
  then show ?thesis by (auto simp: all_started_interval_def split: list.splits)
qed

text \<open>A file of two clients and three intervals; the second client's counter goes back in the last one.\<close>

definition sample_row :: "int \<Rightarrow> string \<Rightarrow> string \<Rightarrow> string list" where
  "sample_row ms rank bytes = [[], ''READ'', str_int ms, rank, [], bytes, [], [], []]"

definition sample_columns :: live_csv_columns where
  "sample_columns = (case columns_from_header (Some REQUIRED_COLUMNS) ''x.live.csv'' of Inr c \<Rightarrow> c)"

definition sample_file :: "string list list" where
  "sample_file = concat (map (\<lambda>(ms, a, b). [sample_row ms ''0'' a, sample_row ms ''1'' b])
     [(5, ''1'', ''2''), (6, ''3'', ''4''), (7, ''5'', ''3'')])"

definition sample_key :: live_domain_key where
  "sample_key = \<lparr> dk_phase = ''READ'', dk_mix_type = [], dk_occurrence = 0 \<rparr>"

definition sample_context :: phase_context where
  "sample_context = \<lparr> pc_first_ms = Some 20, pc_block_size_bytes = Some 1 \<rparr>"

definition sample_domain :: domain_analysis where
  "sample_domain = the (dict_get (analyze_live_csv (iter_parsed_rows sample_file sample_columns)) sample_key)"

lemma sample_domain:
  "dict_get (analyze_live_csv (iter_parsed_rows sample_file sample_columns)) sample_key = Some sample_domain"
proof -
  have "filter (\<lambda>r. pr_key r = sample_key) (iter_parsed_rows sample_file sample_columns) \<noteq> []" by code_simp
  then show ?thesis
    using first_pass_core [of sample_key "iter_parsed_rows sample_file sample_columns"]
    by (auto simp: sample_domain_def split: option.splits)
qed

theorem windows_follow_samples_witness:
  "\<exists>s deltas. dict_get (sa_series (analyze_steady (iter_parsed_rows sample_file sample_columns) sample_domain sample_context (Some 5000) 5 3))
        WINDOW_5S = Some s
     \<and> ws_end_interval s = [1, 2] \<and> ws_clients s ! 1 = length deltas
     \<and> dict_get deltas \<lparr> cl_rank = ''0'', cl_service = [] \<rparr> = Some (2 :: int)
     \<and> dict_get deltas \<lparr> cl_rank = ''1'', cl_service = [] \<rparr> = None"
proof -
  let ?rows = "iter_parsed_rows sample_file sample_columns"
  define rs where rs: "rs = runs (filter (\<lambda>r. pr_key r = sample_key) ?rows)"
  let ?steady = "analyze_steady ?rows sample_domain sample_context (Some 5000) 5 3"
  let ?a = "\<lparr> cl_rank = ''0'', cl_service = [] \<rparr>" and ?b = "\<lparr> cl_rank = ''1'', cl_service = [] \<rparr>"
  have "(distinct (map run_ms rs), length rs, first_progress ?a rs, run_delta rs ?a 1 2, run_delta rs ?b 1 2)
      = (True, 3, Some 0, Some 2, None)" unfolding rs by code_simp
  then have distinct: "distinct (map run_ms rs)" and len: "length rs = 3" and progress: "first_progress ?a rs \<noteq> None"
    and delta: "run_delta rs ?a 1 2 = Some 2" "run_delta rs ?b 1 2 = None" by simp_all
  have started: "all_started_interval sample_domain \<noteq> None"
    using started_if_progressed progress analyzed_domain [OF sample_domain] rs by blast
  have "series_length sample_domain (Some 5000) WINDOW_5S = 1"
  proof -
    have "window_length_intervals 5 5000 = 1" by code_simp
    then show ?thesis by (simp add: series_length_def WINDOW_SECONDS_def interval_ms_of_def)
  qed
  moreover have "WINDOW_5S \<in> set WINDOW_LABELS" by (simp add: WINDOW_LABELS_def)
  moreover obtain depth where "map_option view_series (dict_get (sa_series ?steady) WINDOW_5S) =
      (if WINDOW_5S \<in> set WINDOW_LABELS
       then Some (full_view (sa_window ?steady) depth (snapshots_of rs) (series_length sample_domain (Some 5000) WINDOW_5S)) else None)"
    using analyzed_series [OF sample_domain rs distinct started refl, of "Some 5000" sample_context 5 3] by blast
  ultimately obtain s where s: "dict_get (sa_series ?steady) WINDOW_5S = Some s" "ws_length_intervals s = 1"
    by (auto simp: view_series_def full_view_def)
  note windows = windows_follow_samples [OF sample_domain rs distinct started refl s(1) refl, unfolded s(2) len]
  have "ws_end_interval s = [1, 2]" using windows by (simp add: upt_rec)
  moreover obtain deltas where "\<forall>c. dict_get deltas c = run_delta rs c 1 (1 + 1)" "ws_clients s ! 1 = length deltas"
    using windows [THEN conjunct2, THEN spec, of 1] by auto
  ultimately show ?thesis using s(1) delta by (intro exI [of _ s] exI [of _ deltas] conjI) (simp_all add: numeral_2_eq_2)
qed

text \<open>The line a malformed row is reported with counts the rows that were parsed: behind a row of a
  metadata phase, which is skipped, the malformed row on line 3 of the file is reported as line 2.\<close>

lemma malformed_line_number_shifted:
  "map_option da_diagnostics (dict_get (analyze_live_csv (iter_parsed_rows
       [[[], ''STAT'', ''5'', ''0'', [], ''1'', [], [], []], [[], ''READ'', ''5'', ''0'', [], ''x'', [], [], []]] sample_columns)) sample_key)
     = Some [(MALFORMED_CLIENT_ROWS, 1), (''line_2_invalid'', 1)]"
  by code_simp

end
