(* ===== verification/LiveChoice.thy ===== *)
theory LiveChoice
  imports LiveSteady
begin

section \<open>The steady window, bounds of its samples and the choice of clients\<close>

text \<open>
  Properties of single operations of the steady-state analysis: the times of intervals are recovered exactly from
  seconds, an available window has bounds in the phase and is long enough, every client gets at most one
  class, and the rows of a heat map are different clients, at most as many as wanted, with the classified ones
  first in line.
\<close>

subsection \<open>Milliseconds survive the way through seconds\<close>

lemma runtime_round_trip:
  assumes "\<bar>ms\<bar> < 2 ^ 50"
  shows "py_round (fl (fl (of_int ms / 1000) * 1000)) = ms"
proof (rule py_round_unique)
  define u :: rat where "u = 1 / 2 ^ 53"
  define r :: rat where "r = of_int ms / 1000"
  have near: "\<bar>fl x - x\<bar> \<le> \<bar>x\<bar> * u" for x using fl_near [of x] by (simp add: u_def)
  have u: "0 < u" "u \<le> 1" by (auto simp: u_def)
  have r: "\<bar>fl r - r\<bar> \<le> \<bar>r\<bar> * u" by (rule near)
  then have "\<bar>fl r * 1000 - of_int ms\<bar> \<le> \<bar>of_int ms\<bar> * u"
    by (simp add: r_def abs_le_iff field_simps)
  moreover have "\<bar>fl (fl r * 1000) - fl r * 1000\<bar> \<le> \<bar>fl r * 1000\<bar> * u" by (rule near)
  moreover have "\<bar>fl r * 1000\<bar> \<le> 2 * \<bar>of_int ms\<bar>"
  proof -
    have "\<bar>of_int ms\<bar> * u \<le> \<bar>of_int ms\<bar>" using u by (simp add: mult_left_le)
    with calculation(1) show ?thesis by linarith
  qed
  then have "\<bar>fl r * 1000\<bar> * u \<le> 2 * \<bar>of_int ms\<bar> * u" using u by (intro mult_right_mono) auto
  ultimately have "\<bar>fl (fl r * 1000) - of_int ms\<bar> \<le> 3 * (\<bar>of_int ms\<bar> * u)" by linarith
  also have "\<dots> < 1 / 2"
  proof -
    have "\<bar>rat_of_int ms\<bar> < 2 ^ 50" using assms by (metis of_int_abs of_int_less_iff of_int_numeral of_int_power)
    then show ?thesis by (simp add: u_def)
  qed
  finally show "\<bar>of_int ms - fl (fl (of_int ms / 1000) * 1000)\<bar> < 1 / 2" by (simp add: r_def abs_minus_commute)
qed

lemma runtimes_of_runs:
  assumes "pass_inv rs d" and "\<forall>run\<in>set rs. \<bar>run_ms run\<bar> < 2 ^ 50"
  shows "runtimes_ms d = map run_ms rs"
  using assms by (simp add: runtimes_ms_def pass_inv_def runtime_round_trip)

subsection \<open>Bounds of the steady window\<close>

lemma last_interval_sound:
  assumes "last_interval_at_or_before ts (Some limit) = Some i"
  shows "i < length ts \<and> ts ! i \<le> limit \<and> (\<forall>j. i < j \<and> j < length ts \<longrightarrow> limit < ts ! j)"
proof -
  have "find P (rev [0..<n]) = Some i \<Longrightarrow> i < n \<and> P i \<and> (\<forall>j. i < j \<and> j < n \<longrightarrow> \<not> P j)" for P :: "nat \<Rightarrow> bool" and n
    by (induction n) (auto simp: less_Suc_eq split: if_splits)
  then show ?thesis using assms by (fastforce simp: last_interval_at_or_before_def not_le)
qed

lemma find_in_set: "find P xs = Some x \<Longrightarrow> x \<in> set xs"
  by (induction xs) (auto split: if_splits)

lemma ramp_start_range:
  assumes "candidate \<le> finish"
  shows "candidate \<le> ramp_start d candidate finish \<and> ramp_start d candidate finish \<le> finish"
proof -
  let ?rates = "List.map_filter (\<lambda>p. if candidate \<le> ap_interval p \<and> ap_interval p \<le> finish
      then map_option (\<lambda>rate. (ap_interval p, rate)) (ap_throughput_mib_s p) else None) (da_aggregate_points d)"
  have "candidate \<le> fst r \<and> fst r \<le> finish" if "r \<in> set ?rates" for r
    using that by (auto simp: List.map_filter_def split: if_splits)
  then have found: "candidate \<le> fst r \<and> fst r \<le> finish" if "find P (sort ?rates) = Some r" for P r
    using find_in_set [OF that] by (simp only: set_sort)
  show ?thesis
  proof (cases "find (\<lambda>(_, rate). rate \<ge> fl (RAMP_FRACTION * percentile_from_sorted (sort (map snd ?rates)) 50)) (sort ?rates)")
    case None
    then show ?thesis using assms by (simp add: ramp_start_def Let_def)
  next
    case (Some r)
    then show ?thesis using found [OF Some] by (cases r) (simp add: ramp_start_def Let_def)
  qed
qed

lemma last_interval_None: "last_interval_at_or_before ts None = None"
  by (simp add: last_interval_at_or_before_def)

lemma min_span: "fl 10 = 10" "fl 10000 = 10000"
  using fl_of_int [of 10] fl_of_int [of 10000] by simp_all

text \<open>C23. An available steady window lies in the phase: it starts after the first interval, when all clients that ever
  progress have, ends with the last interval not after the first client finished, lasts at least ten seconds and
  two intervals, and starts, up to the rounding of the half, in the first half of the time up to its end.\<close>

theorem steady_window_sound:
  assumes "w = steady_window d context interval_ms" and "available w"
  shows "\<exists>start finish first_ms. sw_start_interval w = Some start \<and> sw_end_interval w = Some finish
    \<and> pc_first_ms context = Some first_ms
    \<and> 1 \<le> start \<and> start \<le> finish \<and> finish < length (runtimes_ms d)
    \<and> sw_start_ms w = Some (runtimes_ms d ! start) \<and> sw_end_ms w = Some (runtimes_ms d ! finish)
    \<and> runtimes_ms d ! finish \<le> first_ms
    \<and> (\<forall>j. finish < j \<and> j < length (runtimes_ms d) \<longrightarrow> first_ms < runtimes_ms d ! j)
    \<and> (da_clients d = [] \<or> (\<exists>s. all_started_interval d = Some s \<and> s \<le> start))
    \<and> runtimes_ms d ! finish - runtimes_ms d ! start \<ge> max 10000 (2 * interval_ms)
    \<and> of_int (runtimes_ms d ! start - runtimes_ms d ! 0) \<le> fl (1 / 2 * of_int (runtimes_ms d ! finish - runtimes_ms d ! 0))"
proof -
  let ?ts = "runtimes_ms d"
  have ok: "sw_reason (steady_window d context interval_ms) = None" using assms by (simp add: available_def)
  then obtain finish where finish: "last_interval_at_or_before ?ts (pc_first_ms context) = Some finish"
    by (cases "last_interval_at_or_before ?ts (pc_first_ms context)") (auto simp: steady_window_def Let_def)
  then obtain first_ms where first: "pc_first_ms context = Some first_ms"
    by (cases "pc_first_ms context") (auto simp: last_interval_None)
  define started where "started = (if da_clients d = [] then Some 1 else all_started_interval d)"
  from ok finish obtain c where c: "started = Some c"
    by (cases started) (auto simp: steady_window_def Let_def started_def)
  let ?start = "ramp_start d (max 1 c) finish"
  have range: "max 1 c \<le> finish"
    using ok finish c by (auto simp: steady_window_def Let_def started_def [symmetric] split: if_splits)
  note start = ramp_start_range [OF range, of d]
  have "w = \<lparr> sw_start_interval = Some ?start, sw_end_interval = Some finish, sw_start_ms = Some (?ts ! ?start),
      sw_end_ms = Some (?ts ! finish), sw_reason = None \<rparr>
    \<and> \<not> of_int (?ts ! finish - ?ts ! ?start) < (max 10000 (of_int (2 * interval_ms)) :: rat)
    \<and> \<not> of_int (?ts ! ?start - ?ts ! 0) > fl (1 / 2 * of_int (?ts ! finish - ?ts ! 0))"
    using ok finish c range
    by (simp add: assms(1) steady_window_def Let_def started_def [symmetric] min_span split: if_splits)
  moreover have "max 10000 (2 * interval_ms) \<le> n" if "\<not> of_int n < (max 10000 (of_int (2 * interval_ms)) :: rat)" for n
  proof -
    have "(of_int (max 10000 (2 * interval_ms)) :: rat) \<le> of_int n" using that by (simp only: of_int_max not_less of_int_numeral)
    then show ?thesis by (simp only: of_int_le_iff)
  qed
  moreover have "da_clients d = [] \<or> (\<exists>s. all_started_interval d = Some s \<and> s \<le> ?start)"
    using c start by (auto simp: started_def split: if_splits)
  ultimately show ?thesis
    using first last_interval_sound [of ?ts first_ms finish] finish start by fastforce
qed

subsection \<open>Clients by their identity\<close>

definition clients_keyed :: "(live_client_id, client_steady) dict \<Rightarrow> bool" where
  "clients_keyed cs \<longleftrightarrow> dict_wf cs \<and> (\<forall>c s. dict_get cs c = Some s \<longrightarrow> cs_client s = c)"

lemma clients_keyed_set: "clients_keyed cs \<Longrightarrow> cs_client s = c \<Longrightarrow> clients_keyed (dict_set c s cs)"
  by (simp add: clients_keyed_def)

lemma stats_of_client: "clients_keyed cs \<Longrightarrow> cs_client (stats_of c cs) = c"
  by (simp add: stats_of_def clients_keyed_def new_client_steady_def split: option.splits)

lemma count_window_client [simp]: "cs_client (count_window label a b ratio t s) = cs_client s"
  by (simp add: count_window_def Let_def)

lemma record_ratios_keyed: "clients_keyed cs \<Longrightarrow> clients_keyed (record_ratios label a b deltas m t cs)"
  unfolding record_ratios_def
  by (induction deltas arbitrary: cs) (auto simp: clients_keyed_set stats_of_client split: prod.split)

lemma steady_bytes_keyed:
  assumes "clients_keyed cs"
  shows "clients_keyed (steady_bytes w deltas cs)"
proof -
  have "clients_keyed (foldl (\<lambda>cs (c, b). dict_set c (f (stats_of c cs) b) cs) cs deltas)"
    if "\<And>s b. cs_client (f s b) = cs_client s" for f :: "client_steady \<Rightarrow> int \<Rightarrow> client_steady"
    using assms that by (induction deltas arbitrary: cs) (auto simp: clients_keyed_set stats_of_client)
  note this [of "\<lambda>s b. let stats = s \<lparr> cs_steady_bytes := Some b \<rparr>;
      s1 = (if seconds > 0 then stats \<lparr> cs_steady_mean_mib_s := Some (fl (fl (of_int b / seconds) / of_int MIB)) \<rparr> else stats)
      in if median > 0 then s1 \<lparr> cs_steady_ratio := Some (fl (of_int b / median)) \<rparr> else s1" for seconds median]
  then show ?thesis by (simp add: steady_bytes_def Let_def)
qed

lemma dict_get_map: "dict_get (map (\<lambda>(k, v). (k, f v)) d) k = map_option f (dict_get d k)"
  by (induction d) auto

lemma finish_pass_keyed:
  assumes "clients_keyed (sa_clients (sp_steady p))"
  shows "clients_keyed (sa_clients (finish_pass p))"
  using steady_bytes_keyed [OF assms, of "sa_window (sp_steady p)" "steady_deltas (sa_window (sp_steady p)) p"] assms
  by (auto simp: finish_pass_def Let_def clients_keyed_def dict_get_map dict_wf_def case_prod_unfold comp_def)

lemma capture_bounds_steady: "sp_steady (capture_bounds i p) = sp_steady p"
  by (simp add: capture_bounds_def Let_def)

lemma evaluate_series_keyed:
  "clients_keyed (sa_clients (sp_steady p)) \<Longrightarrow> clients_keyed (sa_clients (sp_steady (evaluate_series i p label)))"
  by (auto simp: evaluate_series_def record_window_def window_ratios_def Let_def record_ratios_keyed split: option.split)

lemma complete_keyed:
  assumes "clients_keyed (sa_clients (sp_steady p))"
  shows "clients_keyed (sa_clients (sp_steady (complete i snap p)))"
proof -
  have "clients_keyed (sa_clients (sp_steady (foldl (evaluate_series i) q labels)))"
    if "clients_keyed (sa_clients (sp_steady q))" for q labels
    using that by (induction labels arbitrary: q) (simp_all add: evaluate_series_keyed)
  then show ?thesis using assms by (simp add: complete_def Let_def capture_bounds_steady)
qed

lemma analyze_steady_keyed:
  assumes "dict_wf (da_clients d)"
  shows "clients_keyed (sa_clients (analyze_steady rows d context configured_ms shortfall_percent min_slow_windows))"
proof -
  let ?s = "new_steady d context configured_ms shortfall_percent min_slow_windows"
  let ?cs = "map (\<lambda>c. (c, new_client_steady c)) (dict_keys (da_clients d))"
  have "cs_client s = c" if "dict_get ?cs c = Some s" for c s
    using map_of_SomeD [OF that] by (auto simp: new_client_steady_def)
  moreover have "dict_wf ?cs" using assms by (simp add: dict_wf_def comp_def)
  ultimately have "clients_keyed ?cs" unfolding clients_keyed_def by blast
  moreover have "sa_clients ?s = ?cs" by (simp add: new_steady_def Let_def)
  ultimately have new: "clients_keyed (sa_clients ?s)" by (simp only:)
  have "clients_keyed (sa_clients (sp_steady (foldl (\<lambda>p (i, snap). complete i snap p) q snaps)))"
    if "clients_keyed (sa_clients (sp_steady q))" for q snaps
    using that by (induction snaps arbitrary: q) (auto simp: complete_keyed)
  then show ?thesis
    using new by (simp add: analyze_steady_def Let_def finish_pass_keyed run_pass_def new_pass_def)
qed

subsection \<open>Rows of a heat map\<close>

definition representative_index :: "nat \<Rightarrow> int \<Rightarrow> nat \<Rightarrow> nat" where
  "representative_index n limit i = nat (py_round (fl (of_int (int i * (int n - 1)) / of_int (limit - 1))))"

text \<open>The exact positions are more than one apart, by more than the doubles are off.\<close>

lemma representative_index_step:
  assumes "1 < limit" and "limit < int n" and "n < 2 ^ 26" and "i < j" and "j < nat limit"
  shows "representative_index n limit i < representative_index n limit j \<and> representative_index n limit j < n"
proof -
  define step :: rat where "step = of_int (int n - 1) / of_int (limit - 1)"
  define x where "x k = of_nat k * step" for k
  have exact: "of_int (int k * (int n - 1)) / of_int (limit - 1) = x k" for k
    by (simp add: x_def step_def)
  have limit: "0 < (of_int (limit - 1) :: rat)" "(of_int (limit - 1) :: rat) < 2 ^ 26" using assms by simp_all
  have gap: "1 + 1 / of_int (limit - 1) \<le> step"
  proof -
    have "(of_int limit :: rat) \<le> of_int (int n - 1)" using assms(2) by (simp only: of_int_le_iff)
    then have "of_int limit / of_int (limit - 1) \<le> step" using limit(1) unfolding step_def by (intro divide_right_mono) auto
    moreover have "of_int limit / of_int (limit - 1) = 1 + 1 / (of_int (limit - 1) :: rat)" using limit(1) by (simp add: field_simps)
    ultimately show ?thesis by simp
  qed
  define inv where "inv = 1 / (of_int (limit - 1) :: rat)"
  have inv: "0 < inv" "1 + inv \<le> step" using limit(1) gap by (simp_all add: inv_def)
  then have pos: "0 \<le> step" by linarith
  have total: "x k \<le> of_int (int n - 1)" if "k < nat limit" for k
  proof -
    have "rat_of_int (int k) \<le> of_int (limit - 1)" using that assms(1) by (simp only: of_int_le_iff)
    then have "rat_of_nat k \<le> of_int (limit - 1)" by simp
    then have "of_nat k * step \<le> of_int (limit - 1) * step" using pos by (rule mult_right_mono)
    then show ?thesis using limit(1) by (simp add: x_def step_def)
  qed
  define e :: rat where "e = of_int (int n - 1) / 2 ^ 53"
  have e: "0 \<le> e" "e < 1 / 2" "2 * e < inv"
  proof -
    have n: "0 \<le> (of_int (int n - 1) :: rat)" "(of_int (int n - 1) :: rat) < 2 ^ 26"
      using assms(1-3) by simp_all
    then show "0 \<le> e" "e < 1 / 2" by (simp_all add: e_def field_simps)
    have "2 * e < 1 / 2 ^ 26" using n by (simp add: e_def field_simps)
    also have "\<dots> < inv" using limit by (simp add: inv_def field_simps)
    finally show "2 * e < inv" .
  qed
  have near: "\<bar>of_int (py_round (fl (x k))) - fl (x k)\<bar> \<le> 1 / 2" "\<bar>fl (x k) - x k\<bar> \<le> e" if "k < nat limit" for k
  proof -
    have "\<bar>x k\<bar> / 2 ^ 53 \<le> e"
      using total [OF that] pos unfolding e_def by (intro divide_right_mono) (simp_all add: x_def)
    then show "\<bar>fl (x k) - x k\<bar> \<le> e" using fl_near [of "x k"] by (rule order_trans [rotated])
  qed (rule py_round_near)
  note near_i = near [of i] and near_j = near [of j]
  have "x i + step \<le> x j"
  proof -
    have "(of_nat (i + 1) :: rat) \<le> of_nat j" using assms(4) by (simp only: of_nat_le_iff)
    then have "of_nat (i + 1) * step \<le> of_nat j * step" using pos by (rule mult_right_mono)
    then show ?thesis by (simp add: x_def algebra_simps)
  qed
  then have "fl (x i) + 1 < fl (x j)"
    using near_i(2) near_j(2) e(3) inv assms(4,5) by linarith
  then have "rat_of_int (py_round (fl (x i))) < rat_of_int (py_round (fl (x j)))"
    using near_i(1) near_j(1) assms(4,5) by linarith
  then have up: "py_round (fl (x i)) < py_round (fl (x j))" by (simp only: of_int_less_iff)
  have "0 \<le> x i" using pos by (simp add: x_def)
  then have "0 \<le> fl (x i)" by (rule fl_nonneg)
  then have "rat_of_int (- 1) < rat_of_int (py_round (fl (x i)))" using near_i(1) assms(4,5) unfolding of_int_minus of_int_1 by linarith
  then have low: "0 \<le> py_round (fl (x i))" unfolding of_int_less_iff by linarith
  have "rat_of_int (py_round (fl (x j))) < rat_of_int (int n)"
    using near_j total [of j] e(2) assms(5) unfolding of_int_diff of_int_1 by linarith
  then have "py_round (fl (x j)) < int n" by (simp only: of_int_less_iff)
  then show ?thesis using up low unfolding representative_index_def exact by linarith
qed

lemma representative_values_many:
  assumes "1 < limit" and "limit < int (length values)"
  shows "representative_values values limit = map (\<lambda>i. values ! representative_index (length values) limit i) [0..<nat limit]"
  using assms by (auto simp: representative_values_def representative_index_def Let_def)

lemma representative_values_sound:
  assumes "distinct values" and "length values < 2 ^ 26"
  shows "distinct (representative_values values limit) \<and> set (representative_values values limit) \<subseteq> set values
    \<and> length (representative_values values limit) = min (nat limit) (length values)"
proof (cases "1 < limit \<and> limit < int (length values)")
  case True
  let ?n = "length values" and ?at = "representative_index (length values) limit"
  have at: "?at i < ?n" if "i < nat limit" for i
    using representative_index_step [of limit ?n "i - 1" i] representative_index_step [of limit ?n i "i + 1"] True assms(2) that
    by (cases i) auto
  have "inj_on ?at {0..<nat limit}"
    using representative_index_step [of limit ?n] True assms(2)
    by (intro linorder_inj_onI') (metis atLeastLessThan_iff less_irrefl)
  then have "distinct (map (\<lambda>i. values ! ?at i) [0..<nat limit])"
    using assms(1) at by (auto simp: distinct_map inj_on_def nth_eq_iff_index_eq)
  then show ?thesis using True at by (auto simp: representative_values_many)
next
  case False
  then show ?thesis using assms by (auto simp: representative_values_def Let_def min_def)
qed

lemma classified_clients_sound:
  assumes "clients_keyed (sa_clients steady)"
  shows "distinct (classified_clients steady limit) \<and> set (classified_clients steady limit) \<subseteq> set (dict_keys (sa_clients steady))
    \<and> int (length (classified_clients steady limit)) \<le> max 0 limit"
proof -
  let ?cs = "sa_clients steady"
  have keys: "map cs_client (map snd ?cs) = dict_keys ?cs"
    using assms by (auto simp: clients_keyed_def dict_wf_def)
  let ?of = "\<lambda>c. filter (\<lambda>s. cs_classification s = Some c) (map snd ?cs)"
  have inj: "inj_on cs_client (set (map snd ?cs))" and dist: "distinct (map snd ?cs)"
    using assms keys by (metis clients_keyed_def dict_wf_def distinct_map)+
  have "distinct (map cs_client (sort_key f (?of Persistent) @ sort_key g (?of Transient)))" for f :: "client_steady \<Rightarrow> (bool \<times> rat) \<times> int \<times> int \<times> string \<times> string" and g :: "client_steady \<Rightarrow> (bool \<times> rat) \<times> int \<times> int \<times> string \<times> string"
    using distinct_filter [OF dist] inj by (auto simp del: map_map simp: distinct_map [of cs_client] intro: inj_on_subset
        dest: inj_onD [OF inj [unfolded set_map]])
  moreover have "cs_client b \<in> fst ` set ?cs" if "(a, b) \<in> set ?cs" for a b
  proof -
    have "cs_client b \<in> set (map cs_client (map snd ?cs))" using that by force
    then show ?thesis unfolding keys by simp
  qed
  ultimately show ?thesis
    unfolding classified_clients_def Let_def by (auto dest!: in_set_takeD simp del: map_append)
qed

text \<open>The heat map of an analysis shows different clients of it, as many as were asked for or all when there are
  fewer, and every client classified as slow is among them as long as there is room.\<close>

theorem heatmap_rows_sound:
  assumes "dict_wf (da_clients d)"
    and "steady = analyze_steady rows d context configured_ms shortfall_percent min_slow_windows"
    and "length (sa_clients steady) < 2 ^ 26"
  shows "distinct (select_heatmap_rows steady limit)
    \<and> set (select_heatmap_rows steady limit) \<subseteq> set (dict_keys (sa_clients steady))
    \<and> length (select_heatmap_rows steady limit) = min (nat limit) (length (sa_clients steady))
    \<and> set (classified_clients steady limit) \<subseteq> set (select_heatmap_rows steady limit)"
proof (cases "0 < limit")
  case True
  let ?cs = "sa_clients steady" and ?chosen = "classified_clients steady limit"
  have keyed: "clients_keyed ?cs" using analyze_steady_keyed [OF assms(1)] by (simp add: assms(2))
  then have keys: "distinct (dict_keys ?cs)" by (simp add: clients_keyed_def dict_wf_def)
  note chosen = classified_clients_sound [OF keyed, of limit]
  define rest where "rest = sort_key (heatmap_order steady) (filter (\<lambda>c. c \<notin> set ?chosen) (dict_keys ?cs))"
  have rest: "distinct rest" "set rest = set (dict_keys ?cs) - set ?chosen" using keys by (auto simp: rest_def)
  have "length rest + length ?chosen = length ?cs"
    using rest chosen keys distinct_card [of rest] distinct_card [of ?chosen] distinct_card [of "dict_keys ?cs"]
    by (metis List.finite_set card_Diff_subset card_mono le_add_diff_inverse2 length_map)
  moreover have "length rest < 2 ^ 26" using calculation assms(3) by linarith
  note some = representative_values_sound [OF rest(1) this, of "limit - int (length ?chosen)"]
  moreover have rows: "select_heatmap_rows steady limit =
      sort_key (heatmap_order steady) (?chosen @ representative_values rest (limit - int (length ?chosen)))"
    using True by (simp add: select_heatmap_rows_def rest_def Let_def)
  ultimately show ?thesis
    using True chosen rest unfolding rows by (auto simp: min_def)
next
  case False
  then show ?thesis by (simp add: select_heatmap_rows_def classified_clients_def)
qed

subsection \<open>Witnesses\<close>

definition choice_key :: live_domain_key where
  "choice_key = \<lparr> dk_phase = ''WRITE'', dk_mix_type = [], dk_occurrence = 0 \<rparr>"

definition bounded_domain :: domain_analysis where
  "bounded_domain = (new_domain_analysis choice_key) \<lparr> da_interval_times := map (\<lambda>ms. fl (of_int ms / 1000)) [0, 1000, 20000, 25000] \<rparr>"

lemma runtimes_bounded_domain: "runtimes_ms bounded_domain = [0, 1000, 20000, 25000]"
  using runtime_round_trip [of 0] runtime_round_trip [of 1000] runtime_round_trip [of 20000] runtime_round_trip [of 25000]
  by (simp add: runtimes_ms_def bounded_domain_def)

lemma bounded_domain_window:
  "available (steady_window bounded_domain \<lparr> pc_first_ms = Some 21000, pc_block_size_bytes = None \<rparr> 1000)"
proof -
  have "ramp_start bounded_domain (Suc 0) 2 = Suc 0"
    by (simp add: ramp_start_def bounded_domain_def new_domain_analysis_def Let_def List.map_filter_def)
  moreover have "last_interval_at_or_before [0, 1000, 20000, 25000] (Some 21000) = Some 2"
    by (simp add: last_interval_at_or_before_def upt_rec)
  moreover have "da_clients bounded_domain = []" by (simp add: bounded_domain_def new_domain_analysis_def)
  ultimately show ?thesis
    using fl_of_int [of 10000]
    by (simp add: available_def steady_window_def runtimes_bounded_domain Let_def min_span)
qed

theorem steady_window_sound_witness:
  "\<exists>start finish. sw_start_interval (steady_window bounded_domain \<lparr> pc_first_ms = Some 21000, pc_block_size_bytes = None \<rparr> 1000) = Some start
     \<and> 1 \<le> start \<and> runtimes_ms bounded_domain ! start + 10000 \<le> runtimes_ms bounded_domain ! finish
     \<and> runtimes_ms bounded_domain ! finish \<le> 21000"
proof -
  have "max 10000 (2 * 1000) = (10000 :: int)" by simp
  then show ?thesis using steady_window_sound [OF refl bounded_domain_window] by auto
qed

definition quiet_domain :: domain_analysis where
  "quiet_domain = (new_domain_analysis choice_key) \<lparr> da_clients := map (\<lambda>rank.
     let c = \<lparr> cl_rank = rank, cl_service = [] \<rparr> in (c, new_summary c 0)) [''0'', ''1'', ''2''] \<rparr>"

theorem heatmap_rows_sound_witness:
  "length (select_heatmap_rows (analyze_steady [] quiet_domain \<lparr> pc_first_ms = None, pc_block_size_bytes = None \<rparr> None 5 3) 2) = 2"
proof -
  have "dict_wf (da_clients quiet_domain)" by (simp add: dict_wf_def quiet_domain_def Let_def)
  moreover have "all_started_interval quiet_domain = None"
    by (simp add: all_started_interval_def quiet_domain_def Let_def new_summary_def List.map_filter_def)
  then have "length (sa_clients (analyze_steady [] quiet_domain \<lparr> pc_first_ms = None, pc_block_size_bytes = None \<rparr> None 5 3)) = 3"
    by (simp add: analyze_steady_def new_steady_def Let_def quiet_domain_def)
  ultimately show ?thesis
    using heatmap_rows_sound [OF _ refl, of quiet_domain "[]" "\<lparr> pc_first_ms = None, pc_block_size_bytes = None \<rparr>" None 5 3 2] by simp
qed

end
