(* ===== verification/Histograms.thy ===== *)
theory Histograms
  imports PyFloats "HOL-Library.Multiset"
begin

section \<open>Latency histograms (utils/extract-mdtest-elbencho.py, utils/extract-netbench.py, utils/extract-warp.py)\<close>

text \<open>
  A histogram is a dictionary from buckets to counts. The reporters pool the histograms of repeated runs and read percentiles
  off the pool. The specification is a list of samples: a percentile of the pool is an order statistic of all
  samples of all runs.
\<close>

type_synonym histogram = "(rat, int) dict"

text \<open>The buckets are floats, or integers for the network reporter; counting and pooling do not mind.\<close>

definition bucket_count :: "('k, int) dict \<Rightarrow> 'k \<Rightarrow> int" where
  "bucket_count h b = (case dict_get h b of None \<Rightarrow> 0 | Some n \<Rightarrow> n)"

definition add_count :: "'k \<times> int \<Rightarrow> ('k, int) dict \<Rightarrow> ('k, int) dict" where
  "add_count e h = dict_set (fst e) (bucket_count h (fst e) + snd e) h"

definition total_count :: "('k, int) dict \<Rightarrow> int" where
  "total_count h = sum_list (map snd h)"

subsection \<open>Parsing and pooling\<close>

definition latency_entry :: "string \<Rightarrow> (rat \<times> int) option" where
  "latency_entry item =
     (if CHR '':'' \<notin> set item then None
      else case (float_of_text (py_strip (before (CHR '':'') item)), py_int (py_strip (after (CHR '':'') item))) of
             (Some (Finite bucket), Inr n) \<Rightarrow> if bucket \<ge> 0 \<and> n \<ge> 0 then Some (bucket, n) else None
           | _ \<Rightarrow> None)"

definition parse_latency_histogram :: "string \<Rightarrow> histogram" where
  "parse_latency_histogram text = fold add_count (List.map_filter latency_entry (split_on (CHR '','') text)) []"

definition combine_histograms :: "('k, int) dict list \<Rightarrow> ('k, int) dict" where
  "combine_histograms histograms = fold (fold add_count) histograms []"

subsection \<open>Percentiles\<close>

text \<open>The loop over the ascending buckets: the first one whose cumulative count reaches the target.\<close>

fun reaching :: "(rat \<Rightarrow> int) \<Rightarrow> rat \<Rightarrow> int \<Rightarrow> rat list \<Rightarrow> rat option" where
  "reaching counts target cumulative [] = None"
| "reaching counts target cumulative (b # bs) =
     (if of_int (cumulative + counts b) \<ge> target then Some b else reaching counts target (cumulative + counts b) bs)"

text \<open>\<^verbatim>\<open>percentile_from_histogram\<close> of the mdtest reporter, in milliseconds\<close>

definition percentile_from_histogram :: "histogram \<Rightarrow> int \<Rightarrow> rat" where
  "percentile_from_histogram h percentile =
     (let buckets = sort (dict_keys h)
      in if h = [] \<or> total_count h = 0 then 0
         else case reaching (bucket_count h) (fl (fl (of_int (total_count h * percentile)) / 100)) 0 buckets of
                Some b \<Rightarrow> fl (b / 1000) | None \<Rightarrow> fl (last buckets / 1000))"

text \<open>\<^verbatim>\<open>compute_percentile_from_histogram\<close> of the warp reporter: a fraction, in milliseconds\<close>

definition compute_percentile_from_histogram :: "histogram \<Rightarrow> rat \<Rightarrow> rat" where
  "compute_percentile_from_histogram h percentile =
     (let buckets = sort (dict_keys h)
      in if h = [] \<or> total_count h = 0 then 0
         else case reaching (bucket_count h) (fl (of_int (total_count h) * percentile)) 0 buckets of
                Some b \<Rightarrow> b | None \<Rightarrow> last buckets)"

subsection \<open>Samples\<close>

definition samples :: "('k, int) dict \<Rightarrow> 'k list" where
  "samples h = concat (map (\<lambda>(b, n). replicate (nat n) b) h)"

definition ascending_samples :: "histogram \<Rightarrow> rat list" where
  "ascending_samples h = concat (map (\<lambda>b. replicate (nat (bucket_count h b)) b) (sort (dict_keys h)))"

definition counts_ok :: "('k, int) dict \<Rightarrow> bool" where
  "counts_ok h \<longleftrightarrow> dict_wf h \<and> (\<forall>e\<in>set h. 0 \<le> snd e)"

lemma bucket_count_nonneg: "counts_ok h \<Longrightarrow> 0 \<le> bucket_count h b"
  by (force simp: counts_ok_def bucket_count_def split: option.split dest: map_of_SomeD)

lemma dict_set_entries: "e \<in> set (dict_set k v d) \<Longrightarrow> e = (k, v) \<or> e \<in> set d"
  by (induction d) (auto split: if_splits)

lemma counts_ok_add: "counts_ok h \<Longrightarrow> 0 \<le> snd e \<Longrightarrow> counts_ok (add_count e h)"
  using bucket_count_nonneg [of h "fst e"]
  by (auto simp: counts_ok_def add_count_def dest!: dict_set_entries)

lemma dict_set_front: "dict_set k v ((k', v') # d) = (if k = k' then (k, v) # d else (k', v') # dict_set k v d)"
  by simp

lemma mset_samples_add:
  assumes "counts_ok h" and "0 \<le> snd e"
  shows "mset (samples (add_count e h)) = mset (samples h) + replicate_mset (nat (snd e)) (fst e)"
proof -
  have "mset (samples (dict_set b (bucket_count h b + n) h)) = mset (samples h) + replicate_mset (nat n) b"
    if "\<forall>e\<in>set h. 0 \<le> snd e" "0 \<le> n" for b n
    using that
  proof (induction h)
    case Nil
    then show ?case by (simp add: samples_def bucket_count_def)
  next
    case (Cons e h)
    obtain b' n' where e: "e = (b', n')" by force
    show ?case
    proof (cases "b = b'")
      case True
      then show ?thesis using Cons.prems e by (simp add: samples_def bucket_count_def nat_add_distrib replicate_add)
    next
      case False
      then have "bucket_count (e # h) b = bucket_count h b" by (simp add: bucket_count_def e)
      then show ?thesis using Cons False e by (simp add: samples_def)
    qed
  qed
  then show ?thesis using assms by (simp add: counts_ok_def add_count_def)
qed

lemma fold_add_count:
  assumes "counts_ok h" and "\<forall>e\<in>set es. 0 \<le> snd e"
  shows "counts_ok (fold add_count es h)
    \<and> mset (samples (fold add_count es h)) = mset (samples h) + mset (samples es)"
  using assms
proof (induction es arbitrary: h)
  case Nil
  then show ?case by (simp add: samples_def)
next
  case (Cons e es)
  then show ?case
    using counts_ok_add [of h e] mset_samples_add [of h e] by (simp add: samples_def case_prod_unfold)
qed

lemma parse_latency_histogram_ok: "counts_ok (parse_latency_histogram text)"
proof -
  have "\<forall>e\<in>set (List.map_filter latency_entry items). 0 \<le> snd e" for items
    by (auto simp: List.map_filter_def latency_entry_def split: if_splits option.splits pyfloat.splits sum.splits)
  then show ?thesis
    using fold_add_count [of "[]" "List.map_filter latency_entry (split_on CHR '','' text)"]
    unfolding parse_latency_histogram_def by (simp add: counts_ok_def [of "[]"])
qed

lemma combine_histograms_samples:
  assumes "\<forall>h\<in>set hs. counts_ok h"
  shows "counts_ok (combine_histograms hs)
    \<and> mset (samples (combine_histograms hs)) = mset (concat (map samples hs))"
proof -
  have "counts_ok (fold (fold add_count) hs r)
    \<and> mset (samples (fold (fold add_count) hs r)) = mset (samples r) + mset (concat (map samples hs))"
    if "counts_ok r" "\<forall>h\<in>set hs. counts_ok h" for r
    using that
  proof (induction hs arbitrary: r)
    case (Cons h hs)
    have "counts_ok (fold add_count h r) \<and> mset (samples (fold add_count h r)) = mset (samples r) + mset (samples h)"
      using Cons.prems by (intro fold_add_count) (simp_all add: counts_ok_def)
    then show ?case using Cons.IH [of "fold add_count h r"] Cons.prems(2) by (simp add: add.assoc)
  qed simp
  from this [of "[]"] show ?thesis
    using assms by (simp add: combine_histograms_def counts_ok_def samples_def)
qed

text \<open>Whatever the counts are, a bucket of the pool counts what the parts count.\<close>

lemma bucket_count_add: "bucket_count (add_count e h) b = bucket_count h b + (if fst e = b then snd e else 0)"
  by (simp add: bucket_count_def add_count_def)

lemma bucket_count_fold:
  assumes "dict_wf es"
  shows "bucket_count (fold add_count es h) b = bucket_count h b + bucket_count es b"
  using assms
proof (induction es arbitrary: h)
  case Nil
  then show ?case by (simp add: bucket_count_def)
next
  case (Cons e es)
  have "bucket_count (fold add_count es (add_count e h)) b = bucket_count (add_count e h) b + bucket_count es b"
    using Cons by (simp add: dict_wf_def)
  moreover have "bucket_count es b = 0" if "fst e = b"
    using that Cons.prems by (auto simp: bucket_count_def dict_wf_def image_iff split: option.split dest!: map_of_SomeD)
  moreover have "bucket_count (e # es) b = (if fst e = b then snd e else bucket_count es b)"
    by (cases e) (simp add: bucket_count_def)
  ultimately show ?case by (simp add: bucket_count_add)
qed

lemma combine_histograms_counts:
  assumes "\<forall>h\<in>set hs. dict_wf h"
  shows "bucket_count (combine_histograms hs) b = (\<Sum>h\<leftarrow>hs. bucket_count h b)"
proof -
  have "bucket_count (fold (fold add_count) hs r) b = bucket_count r b + (\<Sum>h\<leftarrow>hs. bucket_count h b)" for r
    using assms by (induction hs arbitrary: r) (simp_all add: bucket_count_fold)
  then show ?thesis by (simp add: combine_histograms_def bucket_count_def)
qed

lemma samples_by_bucket:
  assumes "dict_wf h"
  shows "samples h = concat (map (\<lambda>b. replicate (nat (bucket_count h b)) b) (dict_keys h))"
proof -
  have "bucket_count h (fst e) = snd e" if "e \<in> set h" for e
  proof -
    have "dict_get h (fst e) = Some (snd e)" using that assms by (simp add: dict_wf_def)
    then show ?thesis by (simp add: bucket_count_def)
  qed
  then have "map (\<lambda>(b, n). replicate (nat n) b) h = map (\<lambda>e. replicate (nat (bucket_count h (fst e))) (fst e)) h"
    by (intro map_cong) (simp_all add: case_prod_unfold)
  then show ?thesis by (simp only: samples_def map_map comp_def)
qed

lemma sorted_replicates: "sorted bs \<Longrightarrow> sorted (concat (map (\<lambda>b. replicate (f b) b) bs))"
  by (induction bs) (auto simp: sorted_append)

lemma ascending_samples_sort:
  assumes "dict_wf h"
  shows "ascending_samples h = sort (samples h)"
proof -
  have "mset (concat (map f xs)) = sum_mset (image_mset (\<lambda>x. mset (f x)) (mset xs))" for f :: "rat \<Rightarrow> rat list" and xs
    by (induction xs) simp_all
  then have "mset (ascending_samples h) = mset (samples h)"
    by (simp only: samples_by_bucket [OF assms] ascending_samples_def mset_sort)
  moreover have "sorted (ascending_samples h)" by (simp add: ascending_samples_def sorted_replicates)
  ultimately show ?thesis by (metis properties_for_sort)
qed

lemma total_count_samples:
  assumes "counts_ok h"
  shows "total_count h = int (length (samples h))"
proof -
  have "\<forall>e\<in>set h. 0 \<le> snd e \<Longrightarrow> sum_list (map snd h) = int (length (concat (map (\<lambda>(b, n). replicate (nat n) b) h)))"
    by (induction h) auto
  then show ?thesis using assms by (simp add: total_count_def samples_def counts_ok_def)
qed

subsection \<open>Percentiles are order statistics\<close>

text \<open>The sample with the rank \<open>k\<close>, counted from one.\<close>

definition ranked :: "rat list \<Rightarrow> int \<Rightarrow> rat" where
  "ranked xs k = sort xs ! nat (k - 1)"

lemma reaching_rank:
  assumes "of_int c < target" and "\<forall>b\<in>set bs. 0 \<le> counts b" and "target \<le> of_int (c + (\<Sum>b\<leftarrow>bs. counts b))"
  shows "reaching counts target c bs = Some (concat (map (\<lambda>b. replicate (nat (counts b)) b) bs) ! nat (\<lceil>target\<rceil> - c - 1))"
  using assms
proof (induction bs arbitrary: c)
  case Nil
  then show ?case by simp
next
  case (Cons b bs)
  have c: "c < \<lceil>target\<rceil>" using Cons.prems(1) by (simp add: less_ceiling_iff)
  show ?case
  proof (cases "target \<le> of_int (c + counts b)")
    case True
    then have "\<lceil>target\<rceil> \<le> c + counts b" by (simp only: ceiling_le_iff)
    then have "nat (\<lceil>target\<rceil> - c - 1) < nat (counts b)" using c by linarith
    then show ?thesis using True by (simp add: nth_append)
  next
    case False
    then have less: "c + counts b < \<lceil>target\<rceil>" by (simp only: less_ceiling_iff not_le)
    have "reaching counts target (c + counts b) bs
        = Some (concat (map (\<lambda>b. replicate (nat (counts b)) b) bs) ! nat (\<lceil>target\<rceil> - (c + counts b) - 1))"
      using Cons.IH [of "c + counts b"] Cons.prems False by (simp add: ac_simps)
    moreover have "nat (\<lceil>target\<rceil> - c - 1) = nat (counts b) + nat (\<lceil>target\<rceil> - (c + counts b) - 1)"
      using less Cons.prems(2) by (simp add: nat_add_distrib [symmetric])
    ultimately show ?thesis using False by (simp add: nth_append)
  qed
qed

lemma reaching_percentile:
  assumes "counts_ok h" and "0 < target" and "target \<le> of_int (total_count h)"
  shows "reaching (bucket_count h) target 0 (sort (dict_keys h)) = Some (ranked (samples h) \<lceil>target\<rceil>)"
proof -
  have wf: "dict_wf h" using assms(1) by (simp add: counts_ok_def)
  have "(\<Sum>b\<leftarrow>bs. bucket_count h b) = int (length (concat (map (\<lambda>b. replicate (nat (bucket_count h b)) b) bs)))" for bs
    using bucket_count_nonneg [OF assms(1)] by (induction bs) simp_all
  then have "(\<Sum>b\<leftarrow>sort (dict_keys h). bucket_count h b) = int (length (ascending_samples h))"
    by (simp only: ascending_samples_def)
  also have "\<dots> = total_count h" by (simp add: ascending_samples_sort [OF wf] total_count_samples [OF assms(1)])
  finally have "(\<Sum>b\<leftarrow>sort (dict_keys h). bucket_count h b) = total_count h" .
  then have "reaching (bucket_count h) target 0 (sort (dict_keys h)) = Some (ascending_samples h ! nat (\<lceil>target\<rceil> - 0 - 1))"
    using reaching_rank [of 0 target "sort (dict_keys h)" "bucket_count h"] bucket_count_nonneg [OF assms(1)] assms(2,3)
    unfolding ascending_samples_def by simp
  then show ?thesis by (simp add: ranked_def ascending_samples_sort [OF wf])
qed

text \<open>The target is rounded twice, and still means the exact share of the samples.\<close>

lemma rounded_share:
  assumes "0 \<le> n" and "n < 2 ^ 52"
  shows "\<lceil>fl (of_int n / 100)\<rceil> = \<lceil>rat_of_int n / 100\<rceil>"
proof (cases "n mod 100 = 0")
  case True
  then obtain k where k: "n = 100 * k" by (metis mod_0_imp_dvd dvdE)
  have "fl (of_int k) = of_int k" using assms k by (intro fl_of_int) simp
  then show ?thesis by (simp add: k)
next
  case False
  define k where "k = n div 100"
  have k: "100 * k + 1 \<le> n" "n \<le> 100 * k + 99" using False by (simp_all add: k_def) presburger+
  define q where "q = rat_of_int n / 100"
  have "rat_of_int (100 * k + 1) \<le> of_int n" "rat_of_int n \<le> of_int (100 * k + 99)" using k by (simp_all only: of_int_le_iff)
  then have q: "of_int k + 1 / 100 \<le> q" "q \<le> of_int k + 99 / 100" by (simp_all add: q_def field_simps)
  have "rat_of_int n < of_int (2 ^ 52)" using assms(2) by (simp only: of_int_less_iff)
  then have "q / 2 ^ 53 < 1 / 100" by (simp add: q_def)
  moreover have "0 \<le> q" using assms(1) by (simp add: q_def)
  ultimately have "\<bar>fl q - q\<bar> < 1 / 100" using fl_near [of q] by simp
  then have "q - 1 / 100 < fl q" "fl q < q + 1 / 100" by linarith+
  then have "\<lceil>fl q\<rceil> = k + 1" "\<lceil>q\<rceil> = k + 1" using q unfolding ceiling_eq_iff of_int_add of_int_1 by linarith+
  then show ?thesis by (simp add: q_def)
qed

text \<open>C26. A percentile of pooled mdtest histograms is an order statistic of all samples of all iterations: the sample whose
  rank is the exact share of their number, rounded up.\<close>

theorem pooled_percentile_is_ranked:
  assumes "\<forall>h\<in>set hs. counts_ok h" and "xs = concat (map samples hs)" and "xs \<noteq> []"
    and "0 < percentile" and "percentile \<le> 100" and "int (length xs) * percentile < 2 ^ 52"
  shows "percentile_from_histogram (combine_histograms hs) percentile
    = fl (ranked xs \<lceil>rat_of_int (int (length xs) * percentile) / 100\<rceil> / 1000)"
proof -
  let ?h = "combine_histograms hs" and ?n = "int (length xs) * percentile"
  define target where "target = fl (fl (rat_of_int ?n) / 100)"
  have h: "counts_ok ?h" "mset (samples ?h) = mset xs"
    using combine_histograms_samples [OF assms(1)] by (simp_all add: assms(2))
  then have total: "total_count ?h = int (length xs)" by (metis mset_eq_length total_count_samples)
  have "?h \<noteq> []" using h(2) assms(3) by (auto simp: samples_def)
  have n: "0 < ?n" "?n \<le> int (length xs) * 100" using assms(3-5) by simp_all
  have "fl (rat_of_int ?n) = rat_of_int ?n" using n assms(6) by (intro fl_of_int) simp
  then have target: "target = fl (rat_of_int ?n / 100)" by (simp only: target_def)
  have ceil: "\<lceil>target\<rceil> = \<lceil>rat_of_int ?n / 100\<rceil>" unfolding target using n assms(6) by (intro rounded_share) simp_all
  have pos: "0 < target" unfolding target 
  proof (rule fl_pos)
    have "rat_of_int 0 < rat_of_int ?n" using n(1) by (simp only: of_int_less_iff)
    then show "0 < rat_of_int ?n / 100" by simp
  qed
  have "rat_of_int ?n \<le> of_int (int (length xs) * 100)" using n(2) by (simp only: of_int_le_iff)
  then have "rat_of_int ?n / 100 \<le> of_int (int (length xs))" by (simp add: divide_le_eq)
  then have "\<lceil>target\<rceil> \<le> int (length xs)" unfolding ceil by (simp only: ceiling_le_iff)
  then have "target \<le> of_int (total_count ?h)" unfolding total by (simp only: ceiling_le_iff)
  then have "reaching (bucket_count ?h) target 0 (sort (dict_keys ?h)) = Some (ranked (samples ?h) \<lceil>target\<rceil>)"
    using reaching_percentile [OF h(1) pos] by blast
  moreover have "ranked (samples ?h) k = ranked xs k" for k
    
  proof -
    have "sort (samples ?h) = sort xs" using h(2) by (intro properties_for_sort) simp_all
    then show ?thesis by (simp only: ranked_def)
  qed
  ultimately show ?thesis
    using \<open>?h \<noteq> []\<close> assms(3) total ceil by (simp add: percentile_from_histogram_def target_def)
qed

theorem pooled_percentile_is_ranked_witness:
  "percentile_from_histogram (combine_histograms [[(5, 1), (2, 2)], [(2, 1)]]) 99 = fl (5 / 1000)"
proof -
  have "sort [5, 2, 2, 2 :: rat] = [2, 2, 2, 5]" by (simp add: sort_key_def)
  moreover have "\<lceil>99 / 25 :: rat\<rceil> = 4" by (simp add: ceiling_eq_iff)
  moreover have "concat (map samples [[(5, 1), (2, 2)], [(2, 1)]]) = [5, 2, 2, 2 :: rat]"
    by (simp add: samples_def numeral_2_eq_2)
  ultimately show ?thesis
    using pooled_percentile_is_ranked [of "[[(5, 1), (2, 2)], [(2, 1)]]" "[5, 2, 2, 2]" 99]
    by (simp add: ranked_def counts_ok_def dict_wf_def)
qed

end
