(* ===== verification/PyCsv.thy ===== *)
theory PyCsv
  imports PyStrings PyPrelude
begin

section \<open>Reading CSV\<close>

text \<open>
  \<^verbatim>\<open>csv.reader\<close> and \<^verbatim>\<open>csv.DictReader\<close> in their default dialect, over the text of a file whose line ends were
  translated: the automaton of the interpreter, without its limit on the length of a field. A row shorter than the header has
  \<^verbatim>\<open>None\<close> for the cells it lacks; the cells of a longer row that have no name are left out.
\<close>

definition COMMA :: char where "COMMA = CHR '',''"
definition DQUOTE :: char where "DQUOTE = CHR 0x22"

datatype csv_state = Start_record | Start_field | In_field | In_quoted | Quote_in_quoted

text \<open>The field under construction and the record under construction are kept in reverse.\<close>

fun csv_run :: "csv_state \<Rightarrow> string \<Rightarrow> string list \<Rightarrow> string \<Rightarrow> string list list" where
  "csv_run st f r [] = (if st = Start_record then [] else [rev (rev f # r)])"
| "csv_run st f r (c # s) =
     (if st = In_quoted then
        (if c = DQUOTE then csv_run Quote_in_quoted f r s else csv_run In_quoted (c # f) r s)
      else if st = Quote_in_quoted \<and> c = DQUOTE then csv_run In_quoted (c # f) r s
      else if c = LF then (if st = Start_record then [] else rev (rev f # r)) # csv_run Start_record [] [] s
      else if c = COMMA then csv_run Start_field [] (rev f # r) s
      else if c = DQUOTE \<and> (st = Start_record \<or> st = Start_field) then csv_run In_quoted f r s
      else csv_run In_field (c # f) r s)"

definition csv_records :: "string \<Rightarrow> string list list" where
  "csv_records content = csv_run Start_record [] [] content"

type_synonym csv_row = "(string, string option) dict"

definition row_dict :: "string list \<Rightarrow> string list \<Rightarrow> csv_row" where
  "row_dict names row =
     fold (\<lambda>name. dict_set name None) (drop (length row) names)
       (fold (\<lambda>(name, cell). dict_set name (Some cell)) (zip names row) [])"

definition csv_dict_rows :: "string \<Rightarrow> csv_row list" where
  "csv_dict_rows content = (case csv_records content of
     [] \<Rightarrow> [] | names # rows \<Rightarrow> map (row_dict names) (filter (\<lambda>row. row \<noteq> []) rows))"

text \<open>\<^verbatim>\<open>row.get(name, "")\<close>\<close>

definition row_get :: "csv_row \<Rightarrow> string \<Rightarrow> string option" where
  "row_get row name = (case dict_get row name of None \<Rightarrow> Some [] | Some cell \<Rightarrow> cell)"

subsection \<open>Plain cells are read as they were written\<close>

definition plain_cell :: "string \<Rightarrow> bool" where
  "plain_cell cell \<longleftrightarrow> set cell \<inter> {COMMA, DQUOTE, LF} = {}"

lemma csv_run_cell:
  assumes "plain_cell cell" and "st \<in> {Start_record, Start_field, In_field}"
  shows "csv_run st f r (cell @ s) =
    csv_run (if cell = [] then st else In_field) (rev cell @ f) r s"
  using assms by (induction cell arbitrary: st f) (auto simp: plain_cell_def)

lemma csv_run_row:
  assumes "\<forall>cell\<in>set (cells :: string list). plain_cell cell" and "st \<noteq> In_quoted" and "st \<noteq> Quote_in_quoted"
    and "cells \<noteq> []" and "st = Start_record \<Longrightarrow> cells \<noteq> [[]]"
  shows "csv_run st [] r (join [COMMA] cells @ [LF] @ s) = (rev r @ cells) # csv_run Start_record [] [] s"
  using assms
proof (induction cells arbitrary: st r)
  case Nil
  then show ?case by simp
next
  case (Cons cell cells)
  have st: "st \<in> {Start_record, Start_field, In_field}" using Cons.prems by (cases st) auto
  have "COMMA \<noteq> LF" "LF \<noteq> DQUOTE" "COMMA \<noteq> DQUOTE" by (simp_all add: COMMA_def DQUOTE_def)
  then show ?case
  proof (cases "cells = []")
    case True
    then show ?thesis using Cons.prems st \<open>COMMA \<noteq> LF\<close> \<open>LF \<noteq> DQUOTE\<close> by (cases "cell = []") (auto simp: csv_run_cell)
  next
    case False
    then have "csv_run Start_field [] (cell # r) (join [COMMA] cells @ [LF] @ s) = (rev (cell # r) @ cells) # csv_run Start_record [] [] s"
      using Cons.IH [of Start_field "cell # r"] Cons.prems False by simp
    moreover have "csv_run st [] r (join [COMMA] (cell # cells) @ [LF] @ s) =
        csv_run Start_field [] (cell # r) (join [COMMA] cells @ [LF] @ s)"
      using Cons.prems st False \<open>COMMA \<noteq> LF\<close> \<open>COMMA \<noteq> DQUOTE\<close> by (simp add: join_Cons csv_run_cell)
    ultimately show ?thesis by simp
  qed
qed

lemma csv_round_trip:
  assumes "\<forall>row\<in>set rows. row \<noteq> [] \<and> row \<noteq> [[]] \<and> (\<forall>cell\<in>set row. plain_cell cell)"
  shows "csv_records (concat (map (\<lambda>row. join [COMMA] row @ [LF]) rows)) = rows"
  using assms
proof (induction rows)
  case Nil
  then show ?case by (simp add: csv_records_def)
next
  case (Cons row rows)
  then show ?case using csv_run_row [of row Start_record "[]"] by (simp add: csv_records_def)
qed

end
