(* ===== verification/MdtestFiles.thy ===== *)
theory MdtestFiles
  imports Histograms PyCsv Coordinates ReportCommon
begin

section \<open>Result files of metadata runs (utils/extract-mdtest-elbencho.py)\<close>

text \<open>
  One iteration of a metadata execution leaves a CSV file with one row per operation and an OUT file with latency
  histograms. This theory parses both, tells why an iteration is not whole, and groups the files of a directory
  by their names. Exceptions that the reporter does not catch stay exceptions of the model.
\<close>

subsection \<open>Operations of a CSV file\<close>

definition REQUIRED_OPERATIONS :: "string list" where
  "REQUIRED_OPERATIONS = [''WRITE'', ''STAT'', ''RMFILES'']"

record csv_operation =
  co_rate :: pyfloat
  co_elapsed_sec :: pyfloat
  co_lat_min :: pyfloat
  co_lat_avg :: pyfloat
  co_lat_max :: pyfloat
  co_command :: "string option"
  co_rate_valid :: bool
  co_elapsed_valid :: bool
  co_lat_valid :: bool
  co_complete :: bool

definition divided :: "rat \<Rightarrow> pyfloat \<Rightarrow> pyfloat" where
  "divided d x = (case x of Finite r \<Rightarrow> Finite (fl (r / d)) | Nonfinite \<Rightarrow> Nonfinite)"

text \<open>One cell: the converted value, or 0.0 when the cell is empty, missing or no number.\<close>

definition float_cell :: "csv_row \<Rightarrow> string \<Rightarrow> pyfloat option" where
  "float_cell row name = (case row_get row name of
     Some text \<Rightarrow> if text = [] then None else float_of_text text | None \<Rightarrow> None)"

definition or_zero :: "pyfloat option \<Rightarrow> pyfloat" where
  "or_zero x = (case x of None \<Rightarrow> Finite 0 | Some v \<Rightarrow> v)"

definition is_finite :: "pyfloat option \<Rightarrow> bool" where
  "is_finite x = (case x of Some (Finite _) \<Rightarrow> True | _ \<Rightarrow> False)"

definition csv_operation_of :: "csv_row \<Rightarrow> csv_operation" where
  "csv_operation_of row =
     (let rate = float_cell row ''entries/s [first]'';
          elapsed = map_option (divided 1000) (float_cell row ''time ms [last]'');
          lat = (\<lambda>name. map_option (divided 1000000) (float_cell row name));
          command = row_get row ''command'';
          lat_min = lat ''Ent lat us [min]''; lat_avg = lat ''Ent lat us [avg]''; lat_max = lat ''Ent lat us [max]''
      in \<lparr> co_rate = or_zero rate, co_elapsed_sec = or_zero elapsed, co_lat_min = or_zero lat_min,
           co_lat_avg = or_zero lat_avg, co_lat_max = or_zero lat_max, co_command = command,
           co_rate_valid = is_finite rate, co_elapsed_valid = is_finite elapsed,
           co_lat_valid = (lat_min \<noteq> None \<and> lat_avg \<noteq> None \<and> lat_max \<noteq> None),
           co_complete = (is_finite rate \<and> is_finite elapsed \<and> command \<noteq> None \<and> command \<noteq> Some []) \<rparr>)"

text \<open>A row that ends before the column of the operation has \<^verbatim>\<open>None\<close> there, which has no \<^verbatim>\<open>upper\<close>.\<close>

definition csv_row_operation :: "csv_row \<Rightarrow> (string, csv_operation) dict \<Rightarrow> (string, csv_operation) dict result" where
  "csv_row_operation row operations = (case row_get row ''operation'' of
     None \<Rightarrow> Inl AttributeError
   | Some op \<Rightarrow> Inr (if upper_ascii op \<in> set REQUIRED_OPERATIONS
       then dict_set (upper_ascii op) (csv_operation_of row) operations else operations))"

definition parse_csv_file :: "string \<Rightarrow> (string, csv_operation) dict result" where
  "parse_csv_file content = rfold csv_row_operation (csv_dict_rows content) []"

subsection \<open>Histograms of an OUT file\<close>

text \<open>\<^verbatim>\<open>text.split(separator)\<close> for a separator that is not empty\<close>

fun split_text :: "string \<Rightarrow> nat \<Rightarrow> string \<Rightarrow> string \<Rightarrow> string list" where
  "split_text sep skip acc [] = [rev acc]"
| "split_text sep (Suc skip) acc (c # s) = split_text sep skip acc s"
| "split_text sep 0 acc (c # s) =
     (if startswith (c # s) sep then rev acc # split_text sep (length sep - 1) [] s else split_text sep 0 (c # acc) s)"

text \<open>\<^verbatim>\<open>^(WRITE|STAT|RMFILES)\s+Elapsed time\<close> at the beginning of a line\<close>

definition elapsed_at :: "string \<Rightarrow> string option" where
  "elapsed_at s = find (\<lambda>op. case eat op s of
       None \<Rightarrow> False
     | Some r \<Rightarrow> (case eat_run py_space r of None \<Rightarrow> False | Some (_, t) \<Rightarrow> startswith t ''Elapsed time'')) REQUIRED_OPERATIONS"

fun search_operation :: "bool \<Rightarrow> string \<Rightarrow> string option" where
  "search_operation line_start [] = None"
| "search_operation line_start (c # s) = (case (if line_start then elapsed_at (c # s) else None) of
     Some op \<Rightarrow> Some op | None \<Rightarrow> search_operation (c = LF) s)"

text \<open>\<^verbatim>\<open>(?:Files|Dirs) lat hist\s*:\s*\[\s*([^\]]+)\s*\]\<close>: the group is greedy, so only the white
  space before it is skipped, and all but one character of a group of white space.\<close>

definition skip_space :: "string \<Rightarrow> string" where
  "skip_space s = dropWhile py_space s"

definition bracket_group :: "string \<Rightarrow> string option" where
  "bracket_group s =
     (let body = takeWhile (\<lambda>c. c \<noteq> CHR '']'') s; trimmed = skip_space body
      in if dropWhile (\<lambda>c. c \<noteq> CHR '']'') s = [] \<or> body = [] then None
         else Some (if trimmed = [] then [last body] else trimmed))"

definition histogram_at :: "string \<Rightarrow> string option" where
  "histogram_at s = (case (case eat ''Files lat hist'' s of Some r \<Rightarrow> Some r | None \<Rightarrow> eat ''Dirs lat hist'' s) of
     None \<Rightarrow> None
   | Some r \<Rightarrow> (case eat '':'' (skip_space r) of
       None \<Rightarrow> None
     | Some t \<Rightarrow> (case eat ''['' (skip_space t) of None \<Rightarrow> None | Some u \<Rightarrow> bracket_group u)))"

fun search_histogram :: "string \<Rightarrow> string option" where
  "search_histogram [] = None"
| "search_histogram (c # s) = (case histogram_at (c # s) of Some g \<Rightarrow> Some g | None \<Rightarrow> search_histogram s)"

definition out_section :: "string \<Rightarrow> (string, histogram) dict \<Rightarrow> (string, histogram) dict" where
  "out_section section histograms = (case (search_operation True section, search_histogram section) of
     (Some op, Some buckets) \<Rightarrow> dict_set op (parse_latency_histogram buckets) histograms
   | _ \<Rightarrow> histograms)"

definition parse_out_file :: "string \<Rightarrow> (string, histogram) dict" where
  "parse_out_file content =
     fold out_section (split_text ''---'' 0 [] content) (map (\<lambda>op. (op, [])) REQUIRED_OPERATIONS)"

subsection \<open>Why an iteration is not whole\<close>

definition out_histogram :: "(string, histogram) dict \<Rightarrow> string \<Rightarrow> histogram" where
  "out_histogram out_data op = (case dict_get out_data op of None \<Rightarrow> [] | Some h \<Rightarrow> h)"

definition incomplete_result_reason :: "(string, csv_operation) dict \<Rightarrow> (string, histogram) dict \<Rightarrow> string" where
  "incomplete_result_reason csv_data out_data =
     (let missing_csv = filter (\<lambda>op. dict_get csv_data op = None) REQUIRED_OPERATIONS;
          partial_csv = filter (\<lambda>op. case dict_get csv_data op of None \<Rightarrow> False | Some row \<Rightarrow> \<not> co_complete row) REQUIRED_OPERATIONS;
          missing_histograms = filter (\<lambda>op. out_histogram out_data op = []) REQUIRED_OPERATIONS
      in join ''; ''
           ((if missing_csv \<noteq> [] then [''missing CSV operations: '' @ join '', '' missing_csv] else []) @
            (if partial_csv \<noteq> [] then [''partial CSV operations: '' @ join '', '' partial_csv] else []) @
            (if missing_histograms \<noteq> [] then [''missing OUT histograms: '' @ join '', '' missing_histograms] else [])))"

record iteration_files =
  if_datestamp :: string
  if_iteration :: nat
  if_csv_path :: "string option"
  if_out_path :: "string option"

text \<open>What the reporter sees of an input directory: names, texts, versions, digests, and the text of an exception.\<close>

record input_dir =
  dir_path :: string
  dir_names :: "string list"
  dir_ledger :: "(string \<times> string result) list option"
  dir_read :: "string \<Rightarrow> string result"
  dir_is_file :: "string \<Rightarrow> bool"
  dir_version :: "string \<Rightarrow> string option"
  dir_digest :: "string \<Rightarrow> string \<times> nat"
  dir_describe :: "py_error \<Rightarrow> string"

definition is_os_or_value_error :: "py_error \<Rightarrow> bool" where
  "is_os_or_value_error e = (case e of OSError _ \<Rightarrow> True | ValueError _ \<Rightarrow> True | UnicodeDecodeError \<Rightarrow> True | _ \<Rightarrow> False)"

text \<open>A parse in a \<^verbatim>\<open>try\<close>: the data and a reason, or an exception that is not caught.\<close>

definition caught_parse :: "input_dir \<Rightarrow> string \<Rightarrow> 'a result \<Rightarrow> 'a \<Rightarrow> ('a \<times> string list) result" where
  "caught_parse dir reason parsed fallback = (case parsed of
     Inr data \<Rightarrow> Inr (data, [])
   | Inl e \<Rightarrow> if is_os_or_value_error e then Inr (fallback, [reason @ dir_describe dir e]) else Inl e)"

definition load_iteration ::
  "input_dir \<Rightarrow> iteration_files \<Rightarrow> ((string, csv_operation) dict \<times> (string, histogram) dict \<times> string list) result" where
  "load_iteration dir files =
     rbind (case if_csv_path files of
        None \<Rightarrow> Inr ([], [''missing CSV file''])
      | Some p \<Rightarrow> caught_parse dir ''unparseable CSV file: '' (rbind (dir_read dir p) parse_csv_file) [])
     (\<lambda>(csv_data, csv_reasons).
     rbind (case if_out_path files of
        None \<Rightarrow> Inr ([], [''missing OUT file''])
      | Some p \<Rightarrow> caught_parse dir ''unparseable OUT file: '' (rbind (dir_read dir p) (\<lambda>text. Inr (parse_out_file text))) [])
     (\<lambda>(out_data, out_reasons).
       let reasons = csv_reasons @ out_reasons; incomplete = incomplete_result_reason csv_data out_data
       in Inr (csv_data, out_data, if reasons = [] \<and> incomplete \<noteq> [] then [incomplete] else reasons)))"

subsection \<open>Files of a directory\<close>

definition RESULT_PREFIX :: string where "RESULT_PREFIX = ''mdtest-elbencho-c_''"

definition eat_digits :: "nat \<Rightarrow> string \<Rightarrow> (string \<times> string) option" where
  "eat_digits n s = (if length (take n s) = n \<and> list_all is_digit (take n s) then Some (take n s, drop n s) else None)"

record file_name =
  fn_nodes :: nat
  fn_tasks :: nat
  fn_datestamp :: string
  fn_iteration :: nat
  fn_is_csv :: bool

text \<open>\<^verbatim>\<open>FILENAME_PATTERN.fullmatch\<close>\<close>

definition match_file_name :: "string \<Rightarrow> file_name option" where
  "match_file_name s =
     Option.bind (eat RESULT_PREFIX s) (\<lambda>s. Option.bind (eat_run is_digit s) (\<lambda>(nodes, s).
     Option.bind (eat ''-t_'' s) (\<lambda>s. Option.bind (eat_run is_digit s) (\<lambda>(tasks, s).
     Option.bind (eat ''_'' s) (\<lambda>s. Option.bind (eat_digits 8 s) (\<lambda>(day, s). Option.bind (eat ''Z'' s) (\<lambda>s. Option.bind (eat_digits 6 s) (\<lambda>(time, s).
     Option.bind (eat ''_iter'' s) (\<lambda>s. Option.bind (eat_run is_digit s) (\<lambda>(iteration, s).
       if s = ''.csv'' \<or> s = ''.out''
       then Some \<lparr> fn_nodes = undec nodes, fn_tasks = undec tasks, fn_datestamp = day @ ''Z'' @ time,
              fn_iteration = undec iteration, fn_is_csv = (s = ''.csv'') \<rparr>
       else None))))))))))"

type_synonym iteration_id = "nat \<times> nat \<times> nat \<times> string"

definition file_id :: "file_name \<Rightarrow> iteration_id" where
  "file_id f = (fn_nodes f, fn_tasks f, fn_iteration f, fn_datestamp f)"

definition note_result_file ::
  "string \<Rightarrow> (iteration_id, iteration_files) dict \<Rightarrow> (iteration_id, iteration_files) dict" where
  "note_result_file name found = (case match_file_name name of
     None \<Rightarrow> found
   | Some f \<Rightarrow>
     (let files = (case dict_get found (file_id f) of
            Some files \<Rightarrow> files
          | None \<Rightarrow> \<lparr> if_datestamp = fn_datestamp f, if_iteration = fn_iteration f, if_csv_path = None, if_out_path = None \<rparr>)
      in dict_set (file_id f)
           (if fn_is_csv f then files \<lparr> if_csv_path := Some name \<rparr> else files \<lparr> if_out_path := Some name \<rparr>) found))"

type_synonym scanned = "(nat \<times> nat, iteration_files list) dict"

definition scan_result_files :: "string list \<Rightarrow> scanned" where
  "scan_result_files names =
     (let by_iteration = fold note_result_file (sort names) []
      in fold (\<lambda>key. dict_append (fst key, fst (snd key)) (the (dict_get by_iteration key))) (sort (dict_keys by_iteration)) [])"

end
