(* ===== verification/MdtestResults.thy ===== *)
theory MdtestResults
  imports MdtestFiles
begin

section \<open>Results of metadata executions (utils/extract-mdtest-elbencho.py)\<close>

text \<open>
  The fragment of one input directory: a slot for every execution of the ledger and for the files that belong to
  none, an entry for every iteration, the aggregate over the whole ones, and a state that says how much of a slot is there.
  From an assembled document the reporter selects the complete iterations again. JSON objects are
  records here. The helpers are those of \<^verbatim>\<open>lib/filesystem_results.py\<close>.
\<close>

subsection \<open>Numbers and commands of a document\<close>

definition round_ops :: "rat \<Rightarrow> rat" where
  "round_ops v = round_digits 2 v"

definition round_latency_us :: "rat \<Rightarrow> rat" where
  "round_latency_us v = round_digits 1 v"

definition seconds_to_us :: "pyfloat \<Rightarrow> rat option" where
  "seconds_to_us seconds = (case seconds of Finite s \<Rightarrow> Some (round_digits 1 (fl (s * 1000000))) | Nonfinite \<Rightarrow> None)"

record columnar =
  buckets_us :: "rat list"
  counts :: "int list"

definition histogram_columnar :: "histogram \<Rightarrow> columnar" where
  "histogram_columnar h = (let items = sort h
     in \<lparr> buckets_us = map (\<lambda>(key, _). round_digits 1 key) items, counts = map snd items \<rparr>)"

text \<open>\<^verbatim>\<open>shlex.split\<close> and \<^verbatim>\<open>str.split\<close> both need a text: of \<^verbatim>\<open>None\<close>, the first raises an error that is caught,
  the second one that is not.\<close>

definition command_argv :: "string option \<Rightarrow> string list result" where
  "command_argv command = (case command of
     None \<Rightarrow> Inl AttributeError
   | Some text \<Rightarrow> (case shlex_split text of Inr argv \<Rightarrow> Inr argv | Inl _ \<Rightarrow> Inr (ws_words text)))"

subsection \<open>Iterations\<close>

record phase_metrics =
  pm_rate :: rat
  pm_elapsed_sec :: rat
  pm_lat_min :: pyfloat
  pm_lat_avg :: pyfloat
  pm_lat_max :: pyfloat
  pm_histogram :: histogram
  pm_command :: "string option"

record iteration_metrics =
  im_node_count :: nat
  im_thread_count :: nat
  im_datestamp :: string
  im_iteration :: nat
  im_create :: phase_metrics
  im_stat :: phase_metrics
  im_delete :: phase_metrics

text \<open>Metrics are built of complete rows only, whose rate and time are finite.\<close>

definition finite_value :: "pyfloat \<Rightarrow> rat" where
  "finite_value x = (case x of Finite r \<Rightarrow> r | Nonfinite \<Rightarrow> 0)"

definition phase_of_csv :: "csv_operation option \<Rightarrow> histogram \<Rightarrow> phase_metrics" where
  "phase_of_csv row h = (case row of
     None \<Rightarrow> \<lparr> pm_rate = 0, pm_elapsed_sec = 0, pm_lat_min = Finite 0, pm_lat_avg = Finite 0, pm_lat_max = Finite 0,
        pm_histogram = h, pm_command = Some [] \<rparr>
   | Some r \<Rightarrow> \<lparr> pm_rate = finite_value (co_rate r), pm_elapsed_sec = finite_value (co_elapsed_sec r), pm_lat_min = co_lat_min r,
        pm_lat_avg = co_lat_avg r, pm_lat_max = co_lat_max r, pm_histogram = h, pm_command = co_command r \<rparr>)"

definition metrics_from_parsed ::
  "(string, csv_operation) dict \<Rightarrow> (string, histogram) dict \<Rightarrow> nat \<Rightarrow> nat \<Rightarrow> string \<Rightarrow> nat \<Rightarrow> iteration_metrics" where
  "metrics_from_parsed csv_data out_data nodes threads datestamp iteration =
     (let phase = (\<lambda>op. phase_of_csv (dict_get csv_data op) (out_histogram out_data op))
      in \<lparr> im_node_count = nodes, im_thread_count = threads, im_datestamp = datestamp, im_iteration = iteration,
           im_create = phase ''WRITE'', im_stat = phase ''STAT'', im_delete = phase ''RMFILES'' \<rparr>)"

record iteration_phase =
  ip_phase :: string
  ip_ops_per_s :: "rat option"
  ip_elapsed_ms :: "int option"
  ip_latency_us :: "(rat option \<times> rat option \<times> rat option) option"
  ip_histogram_us :: columnar
  ip_command :: "string list option"

definition JSON_PHASES :: "(string \<times> string) list" where
  "JSON_PHASES = [(''create'', ''WRITE''), (''stat'', ''STAT''), (''delete'', ''RMFILES'')]"

definition iteration_phase_of :: "string \<Rightarrow> csv_operation option \<Rightarrow> histogram \<Rightarrow> iteration_phase option result" where
  "iteration_phase_of name csv_row h = (case csv_row of
     None \<Rightarrow> Inr (if h = [] then None else Some \<lparr> ip_phase = name, ip_ops_per_s = None, ip_elapsed_ms = None,
        ip_latency_us = None, ip_histogram_us = histogram_columnar h, ip_command = None \<rparr>)
   | Some row \<Rightarrow> rbind (command_argv (co_command row)) (\<lambda>argv. Inr (Some
        \<lparr> ip_phase = name,
          ip_ops_per_s = (if co_rate_valid row then Some (round_ops (finite_value (co_rate row))) else None),
          ip_elapsed_ms = (if co_elapsed_valid row then Some (py_round (fl (finite_value (co_elapsed_sec row) * 1000))) else None),
          ip_latency_us = (if co_lat_valid row
             then Some (seconds_to_us (co_lat_min row), seconds_to_us (co_lat_avg row), seconds_to_us (co_lat_max row)) else None),
          ip_histogram_us = histogram_columnar h, ip_command = Some argv \<rparr>)))"

datatype problem_code = Iteration_incomplete | Iterations_missing

type_synonym problem = "problem_code \<times> string"

record iteration_entry =
  ie_iteration :: nat
  ie_datestamp :: string
  ie_producer_version :: "string option"
  ie_complete :: bool
  ie_problems :: "problem list"
  ie_phases :: "iteration_phase list"

definition iteration_entry_of ::
  "input_dir \<Rightarrow> iteration_files \<Rightarrow> (string, csv_operation) dict \<Rightarrow> (string, histogram) dict \<Rightarrow> string list \<Rightarrow> iteration_entry result" where
  "iteration_entry_of dir files csv_data out_data reasons =
     rbind (traverse (\<lambda>(name, op). iteration_phase_of name (dict_get csv_data op) (out_histogram out_data op)) JSON_PHASES)
     (\<lambda>phases. Inr \<lparr> ie_iteration = if_iteration files, ie_datestamp = if_datestamp files,
        ie_producer_version = (case if_out_path files of None \<Rightarrow> None | Some p \<Rightarrow> dir_version dir p),
        ie_complete = (reasons = []),
        ie_problems = (if reasons = [] then [] else [(Iteration_incomplete, join ''; '' reasons)]),
        ie_phases = List.map_filter id phases \<rparr>)"

subsection \<open>Aggregates\<close>

record phase_aggregate =
  pa_rate_avg :: rat
  pa_rate_stddev :: rat
  pa_rate_min :: rat
  pa_rate_max :: rat
  pa_elapsed_avg_sec :: rat
  pa_histogram :: histogram
  pa_lat_p0 :: rat
  pa_lat_p50 :: rat
  pa_lat_p90 :: rat
  pa_lat_p99 :: rat
  pa_lat_p100 :: rat
  pa_command :: "string option"

record aggregated_metrics =
  am_node_count :: nat
  am_thread_count :: nat
  am_datestamps :: "string set"
  am_iteration_count :: nat
  am_create :: phase_aggregate
  am_stat :: phase_aggregate
  am_delete :: phase_aggregate

definition calc_stats :: "rat list \<Rightarrow> rat \<times> rat \<times> rat \<times> rat" where
  "calc_stats rates = (case rates of [] \<Rightarrow> (0, 0, 0, 0)
     | r # rs \<Rightarrow> (py_mean rates, if length rates > 1 then py_stdev rates else 0, foldl min r rs, foldl max r rs))"

definition calc_elapsed_avg :: "rat list \<Rightarrow> rat" where
  "calc_elapsed_avg values = (let present = filter (\<lambda>v. v > 0) values in if present = [] then 0 else py_mean present)"

definition aggregate_phase :: "phase_metrics list \<Rightarrow> phase_aggregate" where
  "aggregate_phase phases =
     (let (avg, stddev, low, high) = calc_stats (map pm_rate phases);
          h = combine_histograms (map pm_histogram phases)
      in \<lparr> pa_rate_avg = avg, pa_rate_stddev = stddev, pa_rate_min = low, pa_rate_max = high,
           pa_elapsed_avg_sec = calc_elapsed_avg (map pm_elapsed_sec phases), pa_histogram = h,
           pa_lat_p0 = percentile_from_histogram h 0, pa_lat_p50 = percentile_from_histogram h 50,
           pa_lat_p90 = percentile_from_histogram h 90, pa_lat_p99 = percentile_from_histogram h 99,
           pa_lat_p100 = percentile_from_histogram h 100,
           pa_command = (case phases of [] \<Rightarrow> Some [] | p # _ \<Rightarrow> pm_command p) \<rparr>)"

definition aggregate_metrics :: "iteration_metrics list \<Rightarrow> (nat \<times> nat, aggregated_metrics) dict" where
  "aggregate_metrics iterations =
     map (\<lambda>((nodes, threads), ms). ((nodes, threads),
         \<lparr> am_node_count = nodes, am_thread_count = threads, am_datestamps = set (map im_datestamp ms),
           am_iteration_count = length ms, am_create = aggregate_phase (map im_create ms),
           am_stat = aggregate_phase (map im_stat ms), am_delete = aggregate_phase (map im_delete ms) \<rparr>))
       (fold (\<lambda>m. dict_append (im_node_count m, im_thread_count m) m) iterations [])"

record json_phase_aggregate =
  jp_phase :: string
  jp_mean :: rat
  jp_stddev :: rat
  jp_min :: rat
  jp_max :: rat
  jp_mean_elapsed_ms :: int
  jp_latency_us :: "(int \<times> rat option) list"

definition percentile_us :: "histogram \<Rightarrow> int \<Rightarrow> rat option" where
  "percentile_us h percentile =
     (if h = [] then None else Some (round_latency_us (fl (percentile_from_histogram h percentile * 1000))))"

definition json_phase_aggregate_of :: "string \<Rightarrow> phase_aggregate \<Rightarrow> json_phase_aggregate" where
  "json_phase_aggregate_of name agg =
     \<lparr> jp_phase = name, jp_mean = round_ops (pa_rate_avg agg), jp_stddev = round_ops (pa_rate_stddev agg),
       jp_min = round_ops (pa_rate_min agg), jp_max = round_ops (pa_rate_max agg),
       jp_mean_elapsed_ms = py_round (fl (pa_elapsed_avg_sec agg * 1000)),
       jp_latency_us = map (\<lambda>percent. (percent, percentile_us (pa_histogram agg) percent)) [0, 50, 90, 99, 100] \<rparr>"

record json_aggregate =
  ja_iterations_expected :: "nat option"
  ja_iterations_used :: nat
  ja_phases :: "json_phase_aggregate list"

definition aggregate_json :: "iteration_metrics list \<Rightarrow> nat option \<Rightarrow> json_aggregate" where
  "aggregate_json metrics expected =
     \<lparr> ja_iterations_expected = expected, ja_iterations_used = length metrics,
       ja_phases = (case aggregate_metrics metrics of
          [] \<Rightarrow> []
        | (_, agg) # _ \<Rightarrow> [json_phase_aggregate_of ''create'' (am_create agg), json_phase_aggregate_of ''stat'' (am_stat agg),
            json_phase_aggregate_of ''delete'' (am_delete agg)]) \<rparr>"

subsection \<open>Slots\<close>

record slot =
  sl_execution_id :: "string option"
  sl_definition :: mdtest_definition

definition is_ledger_name :: "string \<Rightarrow> bool" where
  "is_ledger_name name \<longleftrightarrow> (case eat_run is_digit name of None \<Rightarrow> False | Some (_, rest) \<Rightarrow> rest = ''.sh'')"

text \<open>A definition that cannot be opened is left out; one that is not UTF-8 is an error.\<close>

definition ledger_slot :: "settings \<Rightarrow> string \<times> string result \<Rightarrow> slot list \<Rightarrow> slot list result" where
  "ledger_slot env entry slots = (case entry of (name, content) \<Rightarrow>
     if \<not> is_ledger_name name then Inr slots
     else case content of
       Inl (OSError _) \<Rightarrow> Inr slots
     | Inl e \<Rightarrow> Inl e
     | Inr text \<Rightarrow>
         if \<not> is_mdtest_definition text then Inr slots
         else (case parse_mdtest_definition text env of
            None \<Rightarrow> Inr slots
          | Some d \<Rightarrow> Inr (slots @ [\<lparr> sl_execution_id = Some (take (length name - 3) name), sl_definition = d \<rparr>])))"

definition read_mdtest_ledger :: "input_dir \<Rightarrow> settings \<Rightarrow> slot list result" where
  "read_mdtest_ledger dir env = (case dir_ledger dir of
     None \<Rightarrow> Inr [] | Some entries \<Rightarrow> rfold (ledger_slot env) (sort_key fst entries) [])"

definition slot_key :: "slot \<Rightarrow> nat \<times> nat" where
  "slot_key s = (md_nodes (sl_definition s), md_tasks (sl_definition s))"

text \<open>Each slot pops the files of its node and task counts.\<close>

fun take_files :: "slot list \<Rightarrow> scanned \<Rightarrow> (slot \<times> iteration_files list) list \<times> scanned" where
  "take_files [] scanned = ([], scanned)"
| "take_files (s # slots) scanned =
     (let files = (case dict_get scanned (slot_key s) of None \<Rightarrow> [] | Some fs \<Rightarrow> fs);
          (planned, rest) = take_files slots (filter (\<lambda>(k, _). k \<noteq> slot_key s) scanned)
      in ((s, files) # planned, rest))"

definition unlisted_slot :: "settings \<Rightarrow> nat \<times> nat \<Rightarrow> slot" where
  "unlisted_slot env key = \<lparr> sl_execution_id = None, sl_definition =
     \<lparr> md_nodes = fst key, md_tasks = snd key, md_iterations = optional_int (val_get env ''MDTEST_ITERATIONS''),
       md_branch_factor = optional_int (val_get env ''MDTEST_BRANCH_FACTOR''),
       md_items_per_dir = optional_int (val_get env ''MDTEST_ITEMS_PER_DIR'') \<rparr> \<rparr>"

definition planned_of :: "settings \<Rightarrow> slot list \<Rightarrow> scanned \<Rightarrow> (slot \<times> iteration_files list) list" where
  "planned_of env slots scanned =
     (let (planned, rest) = take_files slots scanned
      in planned @ map (\<lambda>(key, files). (unlisted_slot env key, files)) (sort_key fst rest))"

definition planned_slots :: "input_dir \<Rightarrow> settings \<Rightarrow> (slot \<times> iteration_files list) list result" where
  "planned_slots dir env =
     rbind (read_mdtest_ledger dir env) (\<lambda>slots. Inr (planned_of env slots (scan_result_files (dir_names dir))))"

subsection \<open>Entries of a fragment\<close>

datatype result_state = Complete | Partial | Missing | Unparseable | Not_reported

definition result_state_of :: "iteration_entry list \<Rightarrow> nat list \<Rightarrow> bool \<Rightarrow> result_state" where
  "result_state_of iterations missing found =
     (if \<not> found then Missing
      else if \<not> list_ex (\<lambda>e. ie_phases e \<noteq> []) iterations then Unparseable
      else if list_ex (\<lambda>e. \<not> ie_complete e) iterations \<or> missing \<noteq> [] then Partial
      else Complete)"

definition missing_iterations :: "iteration_entry list \<Rightarrow> nat option \<Rightarrow> nat list" where
  "missing_iterations iterations expected = (case expected of
     None \<Rightarrow> [] | Some n \<Rightarrow> filter (\<lambda>k. k \<notin> set (map ie_iteration iterations)) [1..<n + 1])"

definition join_path :: "string \<Rightarrow> string \<Rightarrow> string" where
  "join_path dir name = (if dir = [] \<or> last dir = CHR ''/'' then dir @ name else dir @ ''/'' @ name)"

definition VERSION_SUFFIX :: string where "VERSION_SUFFIX = ''.project-version''"

definition files_of_iteration :: "iteration_files \<Rightarrow> string list" where
  "files_of_iteration f = List.map_filter id
     [if_csv_path f, if_out_path f, map_option (\<lambda>p. p @ VERSION_SUFFIX) (if_out_path f)]"

record file_record =
  fr_path :: string
  fr_sha256 :: string
  fr_size_bytes :: nat

definition result_file_records :: "input_dir \<Rightarrow> iteration_files list \<Rightarrow> file_record list result" where
  "result_file_records dir files =
     rbind (traverse (\<lambda>name. rbind (natural_key (join_path (dir_path dir) name)) (\<lambda>key. Inr (key, name)))
        (filter (dir_is_file dir) (concat (map files_of_iteration files))))
     (\<lambda>keyed. Inr (map (\<lambda>(_, name). case dir_digest dir name of (digest, bytes) \<Rightarrow>
          \<lparr> fr_path = name, fr_sha256 = digest, fr_size_bytes = bytes \<rparr>) (sort_key fst keyed)))"

record execution_entry =
  ee_execution_id :: "string option"
  ee_coordinates :: md_coords
  ee_coordinate_key :: string
  ee_result_state :: result_state
  ee_problems :: "problem list"
  ee_result_files :: "file_record list"
  ee_results :: "(iteration_entry list \<times> json_aggregate) option"

text \<open>One iteration of an execution: its entry, and its metrics when nothing speaks against it.\<close>

definition load_entry :: "input_dir \<Rightarrow> slot \<Rightarrow> iteration_files \<Rightarrow> (iteration_entry \<times> iteration_metrics option) result" where
  "load_entry dir s files =
     rbind (load_iteration dir files) (\<lambda>(csv_data, out_data, reasons).
     rbind (iteration_entry_of dir files csv_data out_data reasons) (\<lambda>entry.
     Inr (entry, if reasons = []
        then Some (metrics_from_parsed csv_data out_data (fst (slot_key s)) (snd (slot_key s)) (if_datestamp files) (if_iteration files))
        else None)))"

definition iteration_problems :: "iteration_entry list \<Rightarrow> problem list" where
  "iteration_problems iterations = concat (map (\<lambda>e. map (\<lambda>(code, detail).
     (code, ''iteration '' @ dec (ie_iteration e) @ '': '' @ detail)) (ie_problems e)) iterations)"

definition execution_entry_of :: "input_dir \<Rightarrow> slot \<Rightarrow> iteration_files list \<Rightarrow> execution_entry result" where
  "execution_entry_of dir s files =
     rbind (traverse (load_entry dir s) files) (\<lambda>loaded.
       let iterations = map fst loaded; metrics = List.map_filter snd loaded;
           expected = md_iterations (sl_definition s); missing = missing_iterations iterations expected;
           (coordinates, key) = mdtest_coordinates (sl_definition s) (length iterations)
       in rbind (result_file_records dir files) (\<lambda>records. Inr
            \<lparr> ee_execution_id = sl_execution_id s, ee_coordinates = coordinates, ee_coordinate_key = key,
              ee_result_state = result_state_of iterations missing (files \<noteq> []),
              ee_problems = iteration_problems iterations @
                (if missing = [] then [] else [(Iterations_missing, ''missing iterations: '' @ join '', '' (map dec missing))]),
              ee_result_files = records,
              ee_results = (if files = [] then None else Some (iterations, aggregate_json metrics expected)) \<rparr>))"

definition not_reported_entry :: "slot \<Rightarrow> execution_entry" where
  "not_reported_entry s = (case mdtest_coordinates (sl_definition s) 0 of (coordinates, key) \<Rightarrow>
     \<lparr> ee_execution_id = sl_execution_id s, ee_coordinates = coordinates, ee_coordinate_key = key,
       ee_result_state = Not_reported, ee_problems = [], ee_result_files = [], ee_results = None \<rparr>)"

type_synonym scale_filters = "nat set option \<times> nat set option"

definition in_scale :: "scale_filters \<Rightarrow> slot \<Rightarrow> bool" where
  "in_scale scale s \<longleftrightarrow>
     (case fst scale of None \<Rightarrow> True | Some ns \<Rightarrow> fst (slot_key s) \<in> ns) \<and>
     (case snd scale of None \<Rightarrow> True | Some ns \<Rightarrow> snd (slot_key s) \<in> ns)"

definition slot_entry :: "input_dir \<Rightarrow> scale_filters \<Rightarrow> slot \<times> iteration_files list \<Rightarrow> execution_entry result" where
  "slot_entry dir scale planned = (case planned of (s, files) \<Rightarrow>
     if in_scale scale s then execution_entry_of dir s files else Inr (not_reported_entry s))"

text \<open>\<^verbatim>\<open>start_results_fragment\<close> and the call it returns: the executions of the fragment. An execution id of the
  ledger is never the empty text.\<close>

definition build_results_fragment :: "input_dir \<Rightarrow> settings \<Rightarrow> scale_filters \<Rightarrow> execution_entry list result" where
  "build_results_fragment dir env scale =
     rbind (planned_slots dir env) (\<lambda>planned.
       let ledger = list_ex (\<lambda>(s, _). sl_execution_id s \<noteq> None) planned
       in traverse (slot_entry dir scale)
            (filter (\<lambda>(s, _). in_scale scale s \<or> sl_execution_id s \<noteq> None \<or> \<not> ledger) planned))"

subsection \<open>Iterations of a document\<close>

record document_group =
  dg_group_id :: string
  dg_target_name :: "string option"

record document_execution =
  dx_group_id :: string
  dx_result_state :: result_state
  dx_nodes :: nat
  dx_tasks_per_node :: nat
  dx_iterations :: "iteration_entry list option"

definition or_0 :: "rat option \<Rightarrow> rat" where
  "or_0 v = (case v of None \<Rightarrow> 0 | Some r \<Rightarrow> r)"

definition phase_fields :: "iteration_phase option \<Rightarrow> phase_metrics" where
  "phase_fields phase = (case phase of
     None \<Rightarrow> \<lparr> pm_rate = 0, pm_elapsed_sec = 0, pm_lat_min = Finite 0, pm_lat_avg = Finite 0, pm_lat_max = Finite 0,
        pm_histogram = [], pm_command = Some [] \<rparr>
   | Some p \<Rightarrow>
     (let (low, avg, high) = (case ip_latency_us p of None \<Rightarrow> (None, None, None) | Some l \<Rightarrow> l);
          seconds = (\<lambda>v. Finite (fl (or_0 v / 1000000)));
          h = ip_histogram_us p
      in \<lparr> pm_rate = or_0 (ip_ops_per_s p),
           pm_elapsed_sec = (case ip_elapsed_ms p of None \<Rightarrow> 0 | Some ms \<Rightarrow> fl (of_int ms / 1000)),
           pm_lat_min = seconds low, pm_lat_avg = seconds avg, pm_lat_max = seconds high,
           pm_histogram = fold (\<lambda>(b, n). dict_set b n) (zip (buckets_us h) (counts h)) [],
           pm_command = Some (case ip_command p of None \<Rightarrow> [] | Some argv \<Rightarrow> if argv = [] then [] else shlex_join argv) \<rparr>))"

definition phase_named :: "iteration_phase list \<Rightarrow> string \<Rightarrow> iteration_phase option" where
  "phase_named phases name = find (\<lambda>p. ip_phase p = name) (rev phases)"

text \<open>\<^verbatim>\<open>iteration_metrics\<close>\<close>

definition document_metrics :: "document_execution \<Rightarrow> iteration_entry \<Rightarrow> iteration_metrics" where
  "document_metrics x e =
     (let phase = (\<lambda>name. phase_fields (phase_named (ie_phases e) name))
      in \<lparr> im_node_count = dx_nodes x, im_thread_count = dx_tasks_per_node x, im_datestamp = ie_datestamp e,
           im_iteration = ie_iteration e, im_create = phase ''create'', im_stat = phase ''stat'', im_delete = phase ''delete'' \<rparr>)"

definition UNKNOWN_VERSION :: string where "UNKNOWN_VERSION = ''unknown''"

text \<open>A group is identified by its id: of two groups with one id, the last is found.\<close>

definition complete_iterations ::
  "document_execution list \<Rightarrow> document_group list \<Rightarrow> (document_group \<times> iteration_metrics \<times> string) list" where
  "complete_iterations executions groups =
     concat (map (\<lambda>x.
       case (find (\<lambda>g. dg_group_id g = dx_group_id x) (rev groups), dx_iterations x) of
         (Some g, Some iterations) \<Rightarrow>
           if dx_result_state x = Not_reported then []
           else map (\<lambda>e. (g, document_metrics x e,
                  case ie_producer_version e of None \<Rightarrow> UNKNOWN_VERSION | Some v \<Rightarrow> if v = [] then UNKNOWN_VERSION else v))
                (filter ie_complete iterations)
       | _ \<Rightarrow> []) executions)"

definition iteration_key :: "bool \<Rightarrow> document_group \<Rightarrow> iteration_metrics \<Rightarrow> string \<times> nat \<times> nat \<times> string \<times> nat" where
  "iteration_key by_target g m =
     (if by_target then (case dg_target_name g of None \<Rightarrow> [] | Some name \<Rightarrow> name) else [],
      im_node_count m, im_thread_count m, im_datestamp m, im_iteration m)"

definition note_iteration ::
  "bool \<Rightarrow> document_group \<times> iteration_metrics \<times> string
     \<Rightarrow> (string \<times> nat \<times> nat \<times> string \<times> nat, document_group) dict \<times> (string \<times> nat \<times> nat \<times> string \<times> nat) set
     \<Rightarrow> (string \<times> nat \<times> nat \<times> string \<times> nat, document_group) dict \<times> (string \<times> nat \<times> nat \<times> string \<times> nat) set" where
  "note_iteration by_target item st =
     (case item of (g, m, _) \<Rightarrow> let key = iteration_key by_target g m in
        case dict_get (fst st) key of
          None \<Rightarrow> (dict_set key g (fst st), snd st)
        | Some seen \<Rightarrow> (fst st, if dg_group_id seen \<noteq> dg_group_id g then insert key (snd st) else snd st))"

definition document_iterations ::
  "document_execution list \<Rightarrow> document_group list \<Rightarrow> bool \<Rightarrow> (iteration_metrics \<times> string) list" where
  "document_iterations executions groups by_target =
     (let found = complete_iterations executions groups;
          ambiguous = snd (fold (note_iteration by_target) found ([], {}))
      in map snd (filter (\<lambda>(g, m, _). iteration_key by_target g m \<notin> ambiguous) found))"

end
