(* ===== verification/MdtestReports.thy ===== *)
theory MdtestReports
  imports MdtestResults
begin

section \<open>What the metadata reporter reports\<close>

text \<open>
  The state of an execution against its files, the error of a truncated row, the slots that own the files, the
  percentiles of an aggregate, and the iterations taken from a document.
\<close>

subsection \<open>Parsing raises only for truncated rows\<close>

lemma csv_row_operation_error: "csv_row_operation row ops = Inl e \<longleftrightarrow> e = AttributeError \<and> row_get row ''operation'' = None"
  by (auto simp: csv_row_operation_def split: option.splits)

lemma parse_csv_file_error:
  "parse_csv_file content = Inl e \<longleftrightarrow> e = AttributeError \<and> (\<exists>row\<in>set (csv_dict_rows content). row_get row ''operation'' = None)"
proof -
  have "rfold csv_row_operation rows ops = Inl e \<longleftrightarrow> e = AttributeError \<and> (\<exists>row\<in>set rows. row_get row ''operation'' = None)" for rows ops
  proof (induction rows arbitrary: ops)
    case (Cons row rows)
    then show ?case by (cases "csv_row_operation row ops") (auto simp: csv_row_operation_error csv_row_operation_def split: option.splits)
  qed simp
  then show ?thesis by (simp add: parse_csv_file_def)
qed

lemma caught_parse_Inl:
  "caught_parse dir reason parsed fallback = Inl e \<longleftrightarrow> parsed = Inl e \<and> \<not> is_os_or_value_error e"
  by (auto simp: caught_parse_def split: sum.splits)

definition truncated_csv :: "input_dir \<Rightarrow> iteration_files \<Rightarrow> bool" where
  "truncated_csv dir files \<longleftrightarrow> (case if_csv_path files of None \<Rightarrow> False
     | Some p \<Rightarrow> (case dir_read dir p of Inl _ \<Rightarrow> False
         | Inr text \<Rightarrow> list_ex (\<lambda>row. row_get row ''operation'' = None) (csv_dict_rows text)))"

definition reads_fail_softly :: "input_dir \<Rightarrow> bool" where
  "reads_fail_softly dir \<longleftrightarrow> (\<forall>p e. dir_read dir p = Inl e \<longrightarrow> is_os_or_value_error e)"

text \<open>A result file that cannot be read or decoded becomes a reason of its iteration. The only exception that
  escapes from loading an iteration is the missing attribute of a missing cell, exactly when some row of the CSV file ends
  before the column of the operation.\<close>

theorem iteration_errors_exact:
  assumes "reads_fail_softly dir"
  shows "load_iteration dir files = Inl e \<longleftrightarrow> e = AttributeError \<and> truncated_csv dir files"
proof -
  have soft: "is_os_or_value_error e" if "dir_read dir p = Inl e" for p e using assms that by (auto simp: reads_fail_softly_def)
  have out: "caught_parse dir r (rbind (dir_read dir p) (\<lambda>text. Inr (parse_out_file text))) [] \<noteq> Inl e" for r p e
    using soft by (auto simp: caught_parse_Inl rbind_eq_Inl)
  have not_caught: "\<not> is_os_or_value_error AttributeError" by (simp add: is_os_or_value_error_def)
  show ?thesis
    using out soft not_caught
    by (cases "if_csv_path files"; cases "if_out_path files")
      (auto simp: load_iteration_def truncated_csv_def rbind_eq_Inl caught_parse_Inl parse_csv_file_error list_ex_iff Let_def
        split: sum.splits)
qed

subsection \<open>Whole iterations\<close>

definition whole :: "input_dir \<Rightarrow> iteration_files \<Rightarrow> bool" where
  "whole dir files \<longleftrightarrow> (case load_iteration dir files of Inr (_, _, reasons) \<Rightarrow> reasons = [] | Inl _ \<Rightarrow> False)"

lemma join_Nil: "join sep ws = [] \<Longrightarrow> \<forall>w\<in>set ws. w \<noteq> [] \<Longrightarrow> ws = []"
  by (cases "(sep, ws)" rule: join.cases) auto

lemma whole_csv_rows:
  assumes "load_iteration dir files = Inr (csv_data, out_data, [])" and "op \<in> set REQUIRED_OPERATIONS"
  shows "\<exists>row. dict_get csv_data op = Some row \<and> co_complete row \<and> out_histogram out_data op \<noteq> []"
proof -
  have reason: "incomplete_result_reason csv_data out_data = []"
    using assms(1) by (auto simp: load_iteration_def rbind_eq_Inr Let_def split: if_splits)
  have "filter (\<lambda>op. dict_get csv_data op = None) REQUIRED_OPERATIONS = []
    \<and> filter (\<lambda>op. case dict_get csv_data op of None \<Rightarrow> False | Some row \<Rightarrow> \<not> co_complete row) REQUIRED_OPERATIONS = []
    \<and> filter (\<lambda>op. out_histogram out_data op = []) REQUIRED_OPERATIONS = []"
    (is "?m = [] \<and> ?p = [] \<and> ?h = []")
  proof -
    have "(if ?m \<noteq> [] then [''missing CSV operations: '' @ join '', '' ?m] else [])
        @ (if ?p \<noteq> [] then [''partial CSV operations: '' @ join '', '' ?p] else [])
        @ (if ?h \<noteq> [] then [''missing OUT histograms: '' @ join '', '' ?h] else []) = []"
      by (rule join_Nil [OF reason [unfolded incomplete_result_reason_def Let_def]]) auto
    then show ?thesis by (simp split: if_splits)
  qed
  then show ?thesis using assms(2) by (fastforce simp: filter_empty_conv split: option.splits)
qed

lemma load_entry_Inr:
  assumes "load_entry dir s files = Inr (e, m)"
  shows "ie_iteration e = if_iteration files \<and> ie_complete e = whole dir files \<and> (m \<noteq> None) = whole dir files
    \<and> (whole dir files \<longrightarrow> ie_phases e \<noteq> [])"
proof -
  obtain csv_data out_data reasons where loaded: "load_iteration dir files = Inr (csv_data, out_data, reasons)"
    and e: "iteration_entry_of dir files csv_data out_data reasons = Inr e" and m: "(m \<noteq> None) = (reasons = [])"
    using assms by (auto simp: load_entry_def rbind_eq_Inr)
  have "ie_phases e \<noteq> []" if none: "reasons = []"
  proof -
    obtain row where "dict_get csv_data ''WRITE'' = Some row"
      using whole_csv_rows [of dir files csv_data out_data "''WRITE''"] loaded none by (auto simp: REQUIRED_OPERATIONS_def)
    then show ?thesis
      using e by (auto simp: iteration_entry_of_def rbind_eq_Inr JSON_PHASES_def iteration_phase_of_def List.map_filter_def)
  qed
  then show ?thesis
    using e m loaded by (auto simp: iteration_entry_of_def rbind_eq_Inr whole_def)
qed

lemma load_entries:
  assumes "traverse (load_entry dir s) files = Inr loaded"
  shows "map (\<lambda>x. (ie_iteration (fst x), ie_complete (fst x), snd x \<noteq> None)) loaded = map (\<lambda>f. (if_iteration f, whole dir f, whole dir f)) files
    \<and> (\<forall>x\<in>set loaded. ie_complete (fst x) \<longrightarrow> ie_phases (fst x) \<noteq> [])"
  using assms unfolding traverse_eq_Inr
proof (induction files loaded rule: list_all2_induct)
  case (Cons f fs x xs)
  then show ?case using load_entry_Inr [of dir s f "fst x" "snd x"] by simp
qed simp

lemma length_map_filter: "length (List.map_filter f xs) = length (filter (\<lambda>x. f x \<noteq> None) xs)"
  by (simp add: List.map_filter_def)

text \<open>C24. The entry of an execution says exactly what is there: it is missing without any result file, complete exactly when
  every iteration with files is whole and every configured iteration has files, and the whole iterations, and only they, are
  counted in the aggregate.\<close>

theorem execution_state_exact:
  assumes "execution_entry_of dir s files = Inr entry"
  shows "(ee_result_state entry = Missing \<longleftrightarrow> files = [])
    \<and> (ee_result_state entry = Complete \<longleftrightarrow> files \<noteq> [] \<and> (\<forall>f\<in>set files. whole dir f)
        \<and> (\<forall>n k. md_iterations (sl_definition s) = Some n \<and> 1 \<le> k \<and> k \<le> n \<longrightarrow> (\<exists>f\<in>set files. if_iteration f = k)))
    \<and> map_option (ja_iterations_used \<circ> snd) (ee_results entry)
        = (if files = [] then None else Some (length (filter (whole dir) files)))"
proof -
  obtain loaded where loaded: "traverse (load_entry dir s) files = Inr loaded"
    and state: "ee_result_state entry = result_state_of (map fst loaded)
        (missing_iterations (map fst loaded) (md_iterations (sl_definition s))) (files \<noteq> [])"
    and results: "map_option (ja_iterations_used \<circ> snd) (ee_results entry)
        = (if files = [] then None else Some (length (List.map_filter snd loaded)))"
    using assms by (auto simp: execution_entry_of_def rbind_eq_Inr Let_def aggregate_json_def case_prod_unfold)
  note facts = load_entries [OF loaded]
  have numbers: "map (ie_iteration \<circ> fst) loaded = map if_iteration files"
    and flags: "map (ie_complete \<circ> fst) loaded = map (whole dir) files"
    and used: "map (\<lambda>x. snd x \<noteq> None) loaded = map (whole dir) files"
    using arg_cong [OF conjunct1 [OF facts], of "map fst"] arg_cong [OF conjunct1 [OF facts], of "map (fst \<circ> snd)"]
      arg_cong [OF conjunct1 [OF facts], of "map (snd \<circ> snd)"] by (simp_all add: comp_def)
  have "length (List.map_filter snd loaded) = length (filter (whole dir) files)"
    using arg_cong [OF used, of "\<lambda>bs. length (filter id bs)"] by (simp add: length_map_filter filter_map comp_def)
  moreover have complete: "list_ex (\<lambda>e. \<not> ie_complete e) (map fst loaded) \<longleftrightarrow> (\<exists>f\<in>set files. \<not> whole dir f)"
    using arg_cong [OF flags, of set] by (auto simp: list_ex_iff image_iff set_eq_iff)
  moreover have "missing_iterations (map fst loaded) expected = [] \<longleftrightarrow>
      (\<forall>n k. expected = Some n \<and> 1 \<le> k \<and> k \<le> n \<longrightarrow> (\<exists>f\<in>set files. if_iteration f = k))" for expected
  proof -
    have "k \<in> set (map ie_iteration (map fst loaded)) \<longleftrightarrow> (\<exists>f\<in>set files. if_iteration f = k)" for k
      unfolding map_map numbers by auto
    then show ?thesis by (cases expected) (auto simp: missing_iterations_def filter_empty_conv less_Suc_eq_le simp del: set_map)
  qed
  moreover have "list_ex (\<lambda>e. ie_phases e \<noteq> []) (map fst loaded)" if some: "files \<noteq> []" and all: "\<forall>f\<in>set files. whole dir f"
  proof -
    obtain x where "x \<in> set loaded" using some numbers by (cases loaded) auto
    moreover have "ie_complete (fst x)" using complete all calculation by (auto simp: list_ex_iff)
    ultimately show ?thesis using facts by (auto simp: list_ex_iff)
  qed
  ultimately show ?thesis using state results by (auto simp: result_state_of_def)
qed

subsection \<open>Every result file has one slot\<close>

text \<open>
  Names that stand for the same nodes, tasks, iteration, date and kind, such as \<^verbatim>\<open>c_2\<close> and \<^verbatim>\<open>c_002\<close>, are in one place; of
  these, the last in sorted order is kept.
\<close>

definition in_place :: "file_name \<Rightarrow> string \<Rightarrow> bool" where
  "in_place f name = (case match_file_name name of
     None \<Rightarrow> False | Some g \<Rightarrow> file_id g = file_id f \<and> fn_is_csv g = fn_is_csv f)"

definition same_place :: "string list \<Rightarrow> file_name \<Rightarrow> string list" where
  "same_place names f = filter (in_place f) (sort names)"

definition place_path :: "file_name \<Rightarrow> iteration_files \<Rightarrow> string option" where
  "place_path f files = (if fn_is_csv f then if_csv_path files else if_out_path files)"

definition owns :: "string list \<Rightarrow> file_name \<Rightarrow> iteration_files \<Rightarrow> bool" where
  "owns names f files \<longleftrightarrow> if_iteration files = fn_iteration f \<and> if_datestamp files = fn_datestamp f
     \<and> place_path f files = Some (last (same_place names f))"

definition ids_match :: "(iteration_id, iteration_files) dict \<Rightarrow> bool" where
  "ids_match d \<longleftrightarrow> (\<forall>id files. dict_get d id = Some files \<longrightarrow> if_iteration files = fst (snd (snd id)) \<and> if_datestamp files = snd (snd (snd id)))"

lemma ids_match_note: "ids_match d \<Longrightarrow> ids_match (note_result_file name d)"
  by (auto simp: ids_match_def note_result_file_def Let_def file_id_def split: option.splits)

lemma ids_match_notes: "ids_match (fold note_result_file names [])"
  by (induction names rule: rev_induct) (simp add: ids_match_def, simp add: ids_match_note)

definition noted_path :: "(iteration_id, iteration_files) dict \<Rightarrow> file_name \<Rightarrow> string option" where
  "noted_path d f = Option.bind (dict_get d (file_id f)) (place_path f)"

lemma noted_path_step: "noted_path (note_result_file name d) f = (if in_place f name then Some name else noted_path d f)"
  by (auto simp: note_result_file_def Let_def noted_path_def place_path_def in_place_def split: option.splits)

lemma noted_place_path:
  "noted_path (fold note_result_file names []) f
     = (if filter (in_place f) names = [] then None else Some (last (filter (in_place f) names)))"
proof (induction names rule: rev_induct)
  case Nil
  show ?case by (simp add: noted_path_def)
next
  case (snoc name names)
  then show ?case by (simp add: noted_path_step)
qed

lemma scan_entries:
  assumes "by_iteration = fold note_result_file (sort names) []"
  shows "scan_result_files names = fold (\<lambda>(k, v). adict.push k v)
      (map (\<lambda>key. ((fst key, fst (snd key)), the (dict_get by_iteration key))) (sort (dict_keys by_iteration))) []"
  by (simp add: scan_result_files_def Let_def assms fold_map dict_append_push comp_def)

lemma scan_wf: "dict_wf (scan_result_files names)"
  unfolding dict_wf_def scan_entries [OF refl] by (rule adict.distinct_keys_fold) simp

lemma scanned_file:
  assumes "name \<in> set names" and "match_file_name name = Some f"
  shows "\<exists>fs files. dict_get (scan_result_files names) (fn_nodes f, fn_tasks f) = Some fs \<and> files \<in> set fs \<and> owns names f files"
proof -
  define d where "d = fold note_result_file (sort names) []"
  have "name \<in> set (same_place names f)" using assms by (simp add: same_place_def in_place_def)
  then have "noted_path d f = Some (last (same_place names f))"
    unfolding d_def noted_place_path same_place_def [symmetric] by auto
  then obtain files where files: "dict_get d (file_id f) = Some files" "owns names f files"
    using ids_match_notes [of "sort names"]
    by (auto simp: noted_path_def bind_eq_Some_conv owns_def ids_match_def file_id_def d_def)
  let ?k = "(fn_nodes f, fn_tasks f)"
  have "file_id f \<in> set (dict_keys d)" using files(1) by (metis domI dom_map_of_conv_image_fst list.set_map)
  then have "files \<in> set (adict.entries (scan_result_files names) ?k)"
    unfolding scan_entries [OF d_def] adict.entries_fold
    using files(1) by (force simp: filter_map comp_def file_id_def adict.entries_def)
  then show ?thesis using files(2) by (cases "dict_get (scan_result_files names) ?k") (auto simp: adict.entries_def)
qed

lemma dict_get_without: "dict_get (filter (\<lambda>(k, _). k \<noteq> key) d) k = (if k = key then None else dict_get d k)"
  by (induction d) auto

lemma take_files_facts:
  assumes "take_files slots scanned = (planned, rest)"
  shows "map fst planned = slots"
    and "dict_get rest k = (if k \<in> set (map slot_key slots) then None else dict_get scanned k)"
    and "dict_wf scanned \<Longrightarrow> dict_wf rest"
    and "(s, fs) \<in> set planned \<Longrightarrow> fs = [] \<or> dict_get scanned (slot_key s) = Some fs"
    and "distinct (map (slot_key \<circ> fst) (filter (\<lambda>p. snd p \<noteq> []) planned))"
    and "dict_get scanned k = Some gs \<Longrightarrow> k \<in> set (map slot_key slots) \<Longrightarrow> \<exists>s. (s, gs) \<in> set planned \<and> slot_key s = k"
proof -
  have "map fst planned = slots
    \<and> (\<forall>k. dict_get rest k = (if k \<in> set (map slot_key slots) then None else dict_get scanned k))
    \<and> (dict_wf scanned \<longrightarrow> dict_wf rest)
    \<and> (\<forall>s fs. (s, fs) \<in> set planned \<longrightarrow> fs = [] \<or> dict_get scanned (slot_key s) = Some fs)
    \<and> distinct (map (slot_key \<circ> fst) (filter (\<lambda>p. snd p \<noteq> []) planned))
    \<and> (\<forall>k gs. dict_get scanned k = Some gs \<longrightarrow> k \<in> set (map slot_key slots) \<longrightarrow> (\<exists>s. (s, gs) \<in> set planned \<and> slot_key s = k))"
    using assms
  proof (induction slots arbitrary: scanned planned rest)
    case Nil
    then show ?case by simp
  next
    case (Cons s slots)
    let ?less = "filter (\<lambda>(k, _). k \<noteq> slot_key s) scanned"
    obtain planned' where taken: "take_files slots ?less = (planned', rest)"
      and planned: "planned = (s, case dict_get scanned (slot_key s) of None \<Rightarrow> [] | Some fs \<Rightarrow> fs) # planned'"
      using Cons.prems by (auto simp: Let_def split: prod.splits)
    note IH = Cons.IH [OF taken, unfolded dict_get_without]
    let ?fs = "case dict_get scanned (slot_key s) of None \<Rightarrow> [] | Some fs \<Rightarrow> fs"
    have wf: "dict_wf scanned \<Longrightarrow> dict_wf ?less" by (simp add: dict_wf_def distinct_map inj_on_def)
    have found: "fs = [] \<or> (slot_key s' \<noteq> slot_key s \<and> dict_get scanned (slot_key s') = Some fs)" if "(s', fs) \<in> set planned'" for s' fs
      using IH that by (metis option.distinct(1))
    show ?case
    proof (intro conjI allI impI)
      show "map fst planned = s # slots" using IH by (simp add: planned)
      show "dict_get rest k = (if k \<in> set (map slot_key (s # slots)) then None else dict_get scanned k)" for k
        using spec [OF conjunct1 [OF conjunct2 [OF IH]], of k] by simp
      show "dict_wf rest" if "dict_wf scanned" using IH wf [OF that] by blast
      show "fs = [] \<or> dict_get scanned (slot_key s') = Some fs" if "(s', fs) \<in> set planned" for s' fs
        using that found [of s' fs] by (cases "dict_get scanned (slot_key s)") (auto simp: planned)
      have "slot_key s \<notin> (slot_key \<circ> fst) ` set (filter (\<lambda>p. snd p \<noteq> []) planned')" using found by fastforce
      moreover have "distinct (map (slot_key \<circ> fst) (filter (\<lambda>p. snd p \<noteq> []) planned'))" using IH by blast
      ultimately show "distinct (map (slot_key \<circ> fst) (filter (\<lambda>p. snd p \<noteq> []) planned))" by (simp add: planned)
      show "\<exists>s'. (s', gs) \<in> set planned \<and> slot_key s' = k"
        if get: "dict_get scanned k = Some gs" and k: "k \<in> set (map slot_key (s # slots))" for k gs
      proof (cases "k = slot_key s")
        case True
        then show ?thesis using get by (intro exI [of _ s]) (simp add: planned)
      next
        case False
        have "\<forall>k gs. (if k = slot_key s then None else dict_get scanned k) = Some gs \<longrightarrow> k \<in> set (map slot_key slots)
            \<longrightarrow> (\<exists>s'. (s', gs) \<in> set planned' \<and> slot_key s' = k)" using IH by blast
        from this [rule_format, of k gs] have "\<exists>s'. (s', gs) \<in> set planned' \<and> slot_key s' = k" using get k False by simp
        then show ?thesis by (auto simp: planned)
      qed
    qed
  qed
  then show "map fst planned = slots"
    and "dict_get rest k = (if k \<in> set (map slot_key slots) then None else dict_get scanned k)"
    and "dict_wf scanned \<Longrightarrow> dict_wf rest"
    and "(s, fs) \<in> set planned \<Longrightarrow> fs = [] \<or> dict_get scanned (slot_key s) = Some fs"
    and "distinct (map (slot_key \<circ> fst) (filter (\<lambda>p. snd p \<noteq> []) planned))"
    and "dict_get scanned k = Some gs \<Longrightarrow> k \<in> set (map slot_key slots) \<Longrightarrow> \<exists>s. (s, gs) \<in> set planned \<and> slot_key s = k"
    by blast+
qed

lemma planned_of_facts:
  assumes "dict_wf scanned"
  shows "distinct (map (slot_key \<circ> fst) (filter (\<lambda>p. snd p \<noteq> []) (planned_of env slots scanned)))
    \<and> (\<forall>k fs. dict_get scanned k = Some fs \<longrightarrow> (\<exists>s. (s, fs) \<in> set (planned_of env slots scanned) \<and> slot_key s = k))
    \<and> (\<forall>s fs. (s, fs) \<in> set (planned_of env slots scanned) \<longrightarrow> fs = [] \<or> dict_get scanned (slot_key s) = Some fs)"
proof -
  obtain planned rest where taken: "take_files slots scanned = (planned, rest)" by force
  note facts = take_files_facts [OF taken]
  define extra where "extra = map (\<lambda>(key, files). (unlisted_slot env key, files)) (sort_key fst rest)"
  have all: "planned_of env slots scanned = planned @ extra" by (simp add: planned_of_def taken extra_def)
  have key: "slot_key (unlisted_slot env k) = k" for k by (simp add: slot_key_def unlisted_slot_def)
  have rest_wf: "distinct (dict_keys rest)" using facts(3) [OF assms] by (simp add: dict_wf_def)
  have keys: "map (slot_key \<circ> fst) extra = map fst (sort_key fst rest)"
    by (simp add: extra_def comp_def case_prod_unfold key)
  have in_extra: "p \<in> set extra \<longleftrightarrow> (\<exists>k fs. p = (unlisted_slot env k, fs) \<and> dict_get rest k = Some fs)" for p
    using rest_wf by (auto simp: extra_def image_iff Bex_def)
  have extra_key: "slot_key s \<notin> set (map slot_key slots) \<and> dict_get scanned (slot_key s) = Some fs" if "(s, fs) \<in> set extra" for s fs
    using that facts(2) by (auto simp: in_extra key split: if_splits)
  have slots_key: "slot_key s \<in> set (map slot_key slots)" if "(s, fs) \<in> set planned" for s fs
    using that facts(1) by force
  have "distinct (map (slot_key \<circ> fst) (filter (\<lambda>p. snd p \<noteq> []) extra))"
    using rest_wf keys by (metis distinct_map_filter distinct_sort mset_map mset_sort mset_eq_imp_distinct_iff)
  then have "distinct (map (slot_key \<circ> fst) (filter (\<lambda>p. snd p \<noteq> []) (planned_of env slots scanned)))"
    (is "distinct (map ?f (filter ?P _))")
  proof -
    have "slot_key (fst p) \<in> set (map slot_key slots)" if "p \<in> set (filter ?P planned)" for p
      using that slots_key [of "fst p" "snd p"] by simp
    moreover have "slot_key (fst p) \<notin> set (map slot_key slots)" if "p \<in> set (filter ?P extra)" for p
      using that extra_key [of "fst p" "snd p"] by simp
    ultimately have "?f ` set (filter ?P planned) \<inter> ?f ` set (filter ?P extra) = {}" by (fastforce simp: comp_def)
    then show ?thesis using facts(5) \<open>distinct (map ?f (filter ?P extra))\<close> unfolding all filter_append map_append distinct_append
      by (simp only: set_map)
  qed
  moreover have "\<exists>s. (s, fs) \<in> set (planned_of env slots scanned) \<and> slot_key s = k" if get: "dict_get scanned k = Some fs" for k fs
  proof (cases "k \<in> set (map slot_key slots)")
    case True
    then show ?thesis using facts(6) [OF get] by (auto simp: all)
  next
    case False
    then have "dict_get rest k = Some fs" using facts(2) [of k] get by simp
    then have "(unlisted_slot env k, fs) \<in> set extra" using in_extra by blast
    then show ?thesis using key by (intro exI [of _ "unlisted_slot env k"]) (simp add: all)
  qed
  moreover have "fs = [] \<or> dict_get scanned (slot_key s) = Some fs" if "(s, fs) \<in> set (planned_of env slots scanned)" for s fs
    using that facts(4) extra_key by (auto simp: all)
  ultimately show ?thesis by blast
qed

lemma distinct_filter_index:
  assumes "distinct (map f (filter P xs))" and "i < j" and "j < length xs" and "P (xs ! i)" and "P (xs ! j)"
  shows "f (xs ! i) \<noteq> f (xs ! j)"
proof -
  have "xs = take j xs @ xs ! j # drop (Suc j) xs" using assms(3) by (rule id_take_nth_drop)
  then have "distinct (map f (filter P (take j xs @ xs ! j # drop (Suc j) xs)))" using assms(1) by simp
  then have "f (xs ! j) \<notin> f ` set (filter P (take j xs))" using assms(5) by simp
  moreover have "xs ! i \<in> set (filter P (take j xs))"
    using assms(2-4) nth_mem [of i "take j xs"] by simp
  ultimately show ?thesis by (metis image_eqI)
qed

text \<open>C25. Every result file of a directory is in the place of exactly one planned slot: the slot has the node and task counts of
  the file's name, and among its iterations is the one of the file, with a path for the file's kind. The path is the file itself when
  no other name stands for the same nodes, tasks, iteration, date and kind, and otherwise the last of these names in sorted order.\<close>

theorem result_file_has_one_slot:
  assumes "planned_slots dir env = Inr planned" and "name \<in> set (dir_names dir)" and "match_file_name name = Some f"
  shows "(\<exists>!i. i < length planned \<and> slot_key (fst (planned ! i)) = (fn_nodes f, fn_tasks f)
      \<and> (\<exists>files\<in>set (snd (planned ! i)). owns (dir_names dir) f files))
    \<and> (set (same_place (dir_names dir) f) = {name} \<longrightarrow> last (same_place (dir_names dir) f) = name)"
proof -
  obtain slots where planned: "planned = planned_of env slots (scan_result_files (dir_names dir))"
    using assms(1) by (auto simp: planned_slots_def rbind_eq_Inr)
  note facts = planned_of_facts [OF scan_wf [of "dir_names dir"], of env slots, folded planned]
  obtain fs files where found: "dict_get (scan_result_files (dir_names dir)) (fn_nodes f, fn_tasks f) = Some fs"
    "files \<in> set fs" "owns (dir_names dir) f files"
    using scanned_file [OF assms(2,3)] by blast
  then obtain s where "(s, fs) \<in> set planned" "slot_key s = (fn_nodes f, fn_tasks f)" using facts by blast
  then obtain i where "i < length planned" "planned ! i = (s, fs)" by (metis in_set_conv_nth)
  then have i: "i < length planned" "slot_key (fst (planned ! i)) = (fn_nodes f, fn_tasks f)" "snd (planned ! i) = fs"
    using \<open>slot_key s = _\<close> by simp_all
  have neq: "slot_key (fst (planned ! a)) \<noteq> slot_key (fst (planned ! b))"
    if "a < b" "b < length planned" "snd (planned ! a) \<noteq> []" "snd (planned ! b) \<noteq> []" for a b
    using distinct_filter_index [OF conjunct1 [OF facts] that] by (simp only: comp_apply not_False_eq_True)
  have "snd (planned ! i) \<noteq> []" using i(3) found(2) by auto
  then have "j = i" if "j < length planned" "slot_key (fst (planned ! j)) = (fn_nodes f, fn_tasks f)" "snd (planned ! j) \<noteq> []" for j
    using neq [of i j] neq [of j i] that i(1,2) by (metis linorder_neqE_nat)
  moreover have "snd (planned ! j) \<noteq> []" if "\<exists>files\<in>set (snd (planned ! j)). owns (dir_names dir) f files" for j using that by auto
  moreover have "\<exists>files\<in>set (snd (planned ! i)). owns (dir_names dir) f files" using i(3) found by blast
  moreover have "last (same_place (dir_names dir) f) = name" if "set (same_place (dir_names dir) f) = {name}"
    using that last_in_set [of "same_place (dir_names dir) f"] by (cases "same_place (dir_names dir) f = []") auto
  ultimately show ?thesis using i(1,2) by blast
qed

subsection \<open>Histograms through a document\<close>

lemma dict_set_fresh: "k \<notin> set (dict_keys d) \<Longrightarrow> dict_set k v d = d @ [(k, v)]"
  by (induction d) auto

lemma fold_dict_set_fresh: "distinct (dict_keys (d @ kvs)) \<Longrightarrow> fold (\<lambda>(k, v). dict_set k v) kvs d = d @ kvs"
proof (induction kvs arbitrary: d)
  case (Cons kv kvs)
  then show ?case using Cons.IH [of "d @ [kv]"] by (auto simp: dict_set_fresh case_prod_unfold)
qed simp

lemma columnar_pairs: "zip (buckets_us (histogram_columnar h)) (counts (histogram_columnar h)) = map (\<lambda>(b, n). (round_digits 1 b, n)) (sort h)"
  by (simp add: histogram_columnar_def Let_def zip_map_map zip_same_conv_map case_prod_unfold)

lemma iteration_phase_histogram:
  "iteration_phase_of name row h = Inr (Some p) \<Longrightarrow> ip_histogram_us p = histogram_columnar h"
  by (auto simp: iteration_phase_of_def rbind_eq_Inr split: option.splits if_splits)

lemma phase_fields_histogram:
  "pm_histogram (phase_fields (Some p)) = fold (\<lambda>(b, n). dict_set b n) (zip (buckets_us (ip_histogram_us p)) (counts (ip_histogram_us p))) []"
  by (simp add: phase_fields_def Let_def case_prod_unfold)

text \<open>C27. A histogram survives the way through the results document up to the rounding of its buckets to a tenth of a
  microsecond, with every sample counted, as long as no two buckets are rounded to the same value.\<close>

theorem histogram_survives_document:
  assumes "iteration_phase_of name row h = Inr (Some p)" and "distinct (map (round_digits 1) (dict_keys h))"
  shows "pm_histogram (phase_fields (Some p)) = map (\<lambda>(b, n). (round_digits 1 b, n)) (sort h)
    \<and> total_count (pm_histogram (phase_fields (Some p))) = total_count h"
proof -
  have "mset (map (\<lambda>e. round_digits 1 (fst e)) (sort h)) = mset (map (round_digits 1) (dict_keys h))"
    by (metis (no_types, lifting) comp_apply list.map_comp map_eq_conv mset_map mset_sort)
  then have "distinct (map (\<lambda>e. round_digits 1 (fst e)) (sort h))" using assms(2) by (metis mset_eq_imp_distinct_iff)
  then have "distinct (dict_keys (map (\<lambda>(b, n). (round_digits 1 b, n)) (sort h)))" by (simp add: case_prod_unfold comp_def)
  then have "fold (\<lambda>(b, n). dict_set b n) (map (\<lambda>(b, n). (round_digits 1 b, n)) (sort h)) [] = map (\<lambda>(b, n). (round_digits 1 b, n)) (sort h)"
    using fold_dict_set_fresh [of "[]" "map (\<lambda>(b, n). (round_digits 1 b, n)) (sort h)"] by simp
  then have same: "pm_histogram (phase_fields (Some p)) = map (\<lambda>(b, n). (round_digits 1 b, n)) (sort h)"
    by (simp only: phase_fields_histogram iteration_phase_histogram [OF assms(1)] columnar_pairs)
  have "sum_list (map snd (sort h)) = sum_list (map snd h)"
    by (metis mset_map mset_sort sum_mset_sum_list)
  then show ?thesis by (simp add: same total_count_def comp_def case_prod_unfold)
qed

text \<open>The buckets of sub-microsecond latencies can be closer: of 0.12 and 0.13 microseconds, the counts of one are lost.\<close>

lemma document_histogram_loses_counts:
  assumes "iteration_phase_of name row [(fl (12 / 100), 3), (fl (13 / 100), 4)] = Inr (Some p)"
  shows "total_count (pm_histogram (phase_fields (Some p))) \<le> 4"
proof -
  have "py_round (fl x * 10) = 1" if "x = 12 / 100 \<or> x = 13 / 100" for x
  proof (rule py_round_unique)
    have "\<bar>fl x - x\<bar> \<le> 1 / 1000" using fl_near [of x] that by (auto simp: abs_le_iff)
    moreover have "12 / 100 \<le> x" "x \<le> 13 / 100" using that by auto
    ultimately have "1 / 10 \<le> fl x" "fl x \<le> 14 / 100" by linarith+
    then show "\<bar>of_int 1 - fl x * 10\<bar> < 1 / 2" unfolding of_int_1 by linarith
  qed
  then have "round_digits 1 (fl (12 / 100)) = fl (1 / 10)" "round_digits 1 (fl (13 / 100)) = fl (1 / 10)"
    by (simp_all add: round_digits_def)
  moreover consider "sort [(fl (12 / 100), 3 :: int), (fl (13 / 100), 4)] = [(fl (12 / 100), 3), (fl (13 / 100), 4)]"
    | "sort [(fl (12 / 100), 3 :: int), (fl (13 / 100), 4)] = [(fl (13 / 100), 4), (fl (12 / 100), 3)]"
    by (cases "(fl (12 / 100), 3 :: int) \<le> (fl (13 / 100), 4)") (simp_all add: sort_key_def)
  ultimately show ?thesis
    by cases (simp_all add: phase_fields_histogram iteration_phase_histogram [OF assms] columnar_pairs total_count_def)
qed

subsection \<open>A row without a command\<close>

text \<open>A row that ends before its command is partial, and yet it stops the report: its iteration is described
  all the same, and the missing command cannot be split.\<close>

lemma missing_command_raises:
  assumes "load_iteration dir files = Inr (csv_data, out_data, reasons)" and "dict_get csv_data ''WRITE'' = Some row"
    and "co_command row = None"
  shows "load_entry dir s files = Inl AttributeError"
  using assms by (simp add: load_entry_def iteration_entry_of_def JSON_PHASES_def iteration_phase_of_def command_argv_def)

subsection \<open>Iterations of a document\<close>

type_synonym found_iteration = "document_group \<times> iteration_metrics \<times> string"

definition found_key :: "bool \<Rightarrow> found_iteration \<Rightarrow> string \<times> nat \<times> nat \<times> string \<times> nat" where
  "found_key by_target x = iteration_key by_target (fst x) (fst (snd x))"

definition found_group :: "found_iteration \<Rightarrow> string" where
  "found_group x = dg_group_id (fst x)"

definition from_one_group :: "bool \<Rightarrow> found_iteration list \<Rightarrow> found_iteration \<Rightarrow> bool" where
  "from_one_group by_target found x \<longleftrightarrow>
     list_all (\<lambda>y. found_key by_target y = found_key by_target x \<longrightarrow> found_group y = found_group x) found"

lemma find_snoc: "find P (xs @ [x]) = (case find P xs of Some y \<Rightarrow> Some y | None \<Rightarrow> if P x then Some x else None)"
  by (induction xs) auto

lemma note_iterations:
  assumes "st = fold (note_iteration t) found ([], {})"
  shows "dict_get (fst st) k = map_option fst (find (\<lambda>x. found_key t x = k) found)
    \<and> (k \<in> snd st \<longleftrightarrow> (\<exists>y\<in>set found. \<exists>x. found_key t y = k \<and> find (\<lambda>x. found_key t x = k) found = Some x \<and> found_group y \<noteq> found_group x))"
  using assms
proof (induction found arbitrary: st k rule: rev_induct)
  case Nil
  then show ?case by simp
next
  case (snoc y found)
  define st' where "st' = fold (note_iteration t) found ([], {})"
  have st: "st = note_iteration t y st'" using snoc.prems by (simp add: st'_def)
  note IH = snoc.IH [OF st'_def]
  show ?case
  proof (cases "find (\<lambda>x. found_key t x = found_key t y) found")
    case None
    then have st_new: "st = (dict_set (found_key t y) (fst y) (fst st'), snd st')"
      using IH [of "found_key t y"] by (simp add: st note_iteration_def found_key_def case_prod_unfold Let_def)
    have "\<forall>z\<in>set found. found_key t z \<noteq> found_key t y" using None unfolding find_None_iff by blast
    then show ?thesis using IH [of k] None st_new by (auto simp: find_snoc split: option.splits)
  next
    case (Some x)
    then have "st = (fst st', if found_group x \<noteq> found_group y then insert (found_key t y) (snd st') else snd st')"
      using IH [of "found_key t y"] by (simp add: st note_iteration_def found_key_def found_group_def case_prod_unfold Let_def)
    then show ?thesis using IH [of k] Some by (auto simp: find_snoc split: option.splits if_splits)
  qed
qed

text \<open>The iterations a report takes from a document are the complete ones of its groups, in order, without those whose key
  occurs in two groups: no iteration that is reported can be mistaken for one of another group.\<close>

theorem document_iterations_unambiguous:
  "document_iterations executions groups by_target =
     (let found = complete_iterations executions groups in map snd (filter (from_one_group by_target found) found))"
proof -
  define found where "found = complete_iterations executions groups"
  define ambiguous where "ambiguous = snd (fold (note_iteration by_target) found ([], {}))"
  have "found_key by_target x \<notin> ambiguous \<longleftrightarrow> from_one_group by_target found x" if x: "x \<in> set found" for x
  proof -
    obtain z where z: "find (\<lambda>y. found_key by_target y = found_key by_target x) found = Some z"
      using x by (metis (mono_tags, lifting) find_None_iff option.exhaust)
    then have "z \<in> set found" "found_key by_target z = found_key by_target x" by (auto simp: find_Some_iff)
    moreover have "found_key by_target x \<in> ambiguous \<longleftrightarrow>
        (\<exists>y\<in>set found. found_key by_target y = found_key by_target x \<and> found_group y \<noteq> found_group z)"
      using note_iterations [OF refl, where t = by_target and found = found and k = "found_key by_target x"] z by (simp add: ambiguous_def)
    ultimately show ?thesis using x unfolding from_one_group_def list_all_iff by metis
  qed
  then show ?thesis
    by (simp add: document_iterations_def Let_def found_def [symmetric] ambiguous_def [symmetric] found_key_def case_prod_unfold
        cong: filter_cong)
qed

subsection \<open>Witnesses\<close>

definition iteration_csv :: string where "iteration_csv = ''mdtest-elbencho-c_002-t_4_20260101Z120000_iter1.csv''"

definition sample_dir :: input_dir where
  "sample_dir = \<lparr> dir_path = ''/batch'', dir_names = [iteration_csv, ''notes.txt''], dir_ledger = None,
     dir_read = (\<lambda>p. if p = iteration_csv then Inr (''ISO date,operation'' @ [LF] @ ''x'' @ [LF]) else Inl (OSError ''No such file'')),
     dir_is_file = (\<lambda>p. p = iteration_csv), dir_version = (\<lambda>_. None), dir_digest = (\<lambda>_. (''00'', 0)), dir_describe = (\<lambda>_. ''error'') \<rparr>"

definition truncated_iteration :: iteration_files where
  "truncated_iteration = \<lparr> if_datestamp = ''20260101Z120000'', if_iteration = 1, if_csv_path = Some iteration_csv, if_out_path = None \<rparr>"

definition absent_iteration :: iteration_files where
  "absent_iteration = truncated_iteration \<lparr> if_csv_path := None \<rparr>"

theorem iteration_errors_exact_witness:
  "load_iteration sample_dir truncated_iteration = Inl AttributeError"
proof -
  have "reads_fail_softly sample_dir"
    by (auto simp: reads_fail_softly_def sample_dir_def is_os_or_value_error_def split: if_splits)
  moreover have "truncated_csv sample_dir truncated_iteration" by code_simp
  ultimately show ?thesis using iteration_errors_exact [of sample_dir truncated_iteration AttributeError] by blast
qed

definition sample_slot :: slot where
  "sample_slot = \<lparr> sl_execution_id = Some ''0001'', sl_definition = \<lparr> md_nodes = 2, md_tasks = 4, md_iterations = Some 1,
     md_branch_factor = None, md_items_per_dir = None \<rparr> \<rparr>"

theorem execution_state_exact_witness:
  "\<exists>entry. execution_entry_of sample_dir sample_slot [absent_iteration] = Inr entry
     \<and> ee_result_state entry \<noteq> Missing \<and> ee_result_state entry \<noteq> Complete"
proof -
  have "\<not> isl (execution_entry_of sample_dir sample_slot [absent_iteration])" by code_simp
  then obtain entry where entry: "execution_entry_of sample_dir sample_slot [absent_iteration] = Inr entry"
    by (cases "execution_entry_of sample_dir sample_slot [absent_iteration]") auto
  have "\<not> whole sample_dir absent_iteration" by code_simp
  then show ?thesis using execution_state_exact [OF entry] entry by simp
qed

definition iteration_name :: file_name where
  "iteration_name = \<lparr> fn_nodes = 2, fn_tasks = 4, fn_datestamp = ''20260101Z120000'', fn_iteration = 1, fn_is_csv = True \<rparr>"

theorem result_file_has_one_slot_witness:
  "\<exists>planned. planned_slots sample_dir [] = Inr planned
     \<and> (\<exists>!i. i < length planned \<and> slot_key (fst (planned ! i)) = (2, 4) \<and> (\<exists>files\<in>set (snd (planned ! i)). owns (dir_names sample_dir) iteration_name files))"
proof -
  obtain planned where planned: "planned_slots sample_dir [] = Inr planned"
    by (simp add: planned_slots_def read_mdtest_ledger_def sample_dir_def)
  have name: "match_file_name iteration_csv = Some iteration_name" by code_simp
  have "iteration_csv \<in> set (dir_names sample_dir)" by (simp add: sample_dir_def)
  from result_file_has_one_slot [OF planned this name] show ?thesis using planned by (simp add: iteration_name_def)
qed

text \<open>Two names of one place: the file with the padded count is in no slot.\<close>

lemma padded_count_hides_file:
  "same_place [''mdtest-elbencho-c_2-t_4_20260101Z120000_iter1.csv'', ''mdtest-elbencho-c_002-t_4_20260101Z120000_iter1.csv''] iteration_name
     = [''mdtest-elbencho-c_002-t_4_20260101Z120000_iter1.csv'', ''mdtest-elbencho-c_2-t_4_20260101Z120000_iter1.csv'']
   \<and> map (\<lambda>(k, files). (k, map if_csv_path files)) (scan_result_files
       [''mdtest-elbencho-c_2-t_4_20260101Z120000_iter1.csv'', ''mdtest-elbencho-c_002-t_4_20260101Z120000_iter1.csv''])
     = [((2, 4), [Some ''mdtest-elbencho-c_2-t_4_20260101Z120000_iter1.csv''])]"
  by (rule conjI) code_simp+

theorem histogram_survives_document_witness:
  "\<exists>p. iteration_phase_of ''stat'' None [(5, 1), (2, 2)] = Inr (Some p)
     \<and> pm_histogram (phase_fields (Some p)) = [(2, 2), (5, 1)]"
proof -
  have "round_digits 1 (of_int n) = of_int n" if "\<bar>n\<bar> < 2 ^ 53" for n
  proof -
    have "py_round (of_int n * 10) = n * 10" by (rule py_round_unique) simp
    then show ?thesis using fl_of_int [OF that] by (simp add: round_digits_def)
  qed
  from this [of 5] this [of 2] have digits: "round_digits 1 5 = 5" "round_digits 1 2 = 2" by simp_all
  obtain p where p: "iteration_phase_of ''stat'' None [(5, 1), (2, 2)] = Inr (Some p)"
    by (simp add: iteration_phase_of_def)
  have "sort [(5, 1), (2, 2)] = [(2, 2), (5 :: rat, 1 :: int)]" by (simp add: sort_key_def)
  then show ?thesis using histogram_survives_document [OF p] p digits by simp
qed

end
