(* ===== verification/ResultsDocument.thy ===== *)
theory ResultsDocument
  imports BatchManifest StorageTarget ReportCommon
begin

section \<open>The results document (lib/filesystem\_results.py)\<close>

text \<open>
  A reporter describes the executions of one group in a fragment; the document merges the fragments with the
  ledgers of their groups. Every committed execution is in the document, with results only where its ledger lets it have them, and
  the outcome says whether the whole batch succeeded. JSON objects are records; the YAML loader and the
  digest function are arguments.
\<close>

subsection \<open>Fragments\<close>

type_synonym doc_problem = "string \<times> string \<times> string option"

text \<open>What the document rewrites of a live object: the path of its source, and of its series when that was saved.\<close>

record live_object =
  lo_source_path :: "string option"
  lo_series_path :: "string option"
  lo_series_saved :: bool
  lo_rest :: pyval

record result_phase =
  rp_live :: "live_object option"
  rp_rest :: pyval

record results =
  re_phases :: "result_phase list"
  re_live_domains :: "live_object list"
  re_rest :: pyval

record result_file =
  rf_path :: string
  rf_sha256 :: string
  rf_size :: nat

record fragment_entry =
  fe_execution_id :: "string option"
  fe_result_state :: string
  fe_problems :: "doc_problem list"
  fe_coordinates :: "coordinates option"
  fe_coordinate_key :: "string option"
  fe_dataset :: pyval
  fe_producer_version :: "string option"
  fe_result_files :: "result_file list"
  fe_results :: "results option"

record fragment =
  fg_kind :: string
  fg_executions :: "fragment_entry list"
  fg_diagnostics :: "doc_problem list"
  fg_unpaired_live :: "live_object list"

record ledger_entry =
  le_execution_id :: "string option"
  le_definition :: "string option"
  le_state :: string
  le_log :: "string option"
  le_definition_path :: "path option"

record group_spec =
  gs_group_id :: string
  gs_kind :: string
  gs_output_relative :: string
  gs_source :: string
  gs_prefix :: string
  gs_settings :: settings
  gs_settings_text :: "string option"
  gs_env_shell_sha256 :: "string option"
  gs_env_yaml_sha256 :: "string option"
  gs_ledger :: "ledger_entry list"
  gs_fragment :: "fragment option"
  gs_selected :: bool
  gs_report_failed :: bool
  gs_has_ledger :: bool

definition LEDGER_SUCCESS :: string where "LEDGER_SUCCESS = ''success''"
definition LEDGER_UNKNOWN :: string where "LEDGER_UNKNOWN = ''unknown''"
definition NOT_REPORTED :: string where "NOT_REPORTED = ''not_reported''"
definition LEDGER_STATES :: "string list" where
  "LEDGER_STATES = [''success'', ''failed'', ''pending'', ''running'', ''cancelled'', ''interrupted'', ''unknown'']"
definition RESULT_STATES :: "string list" where
  "RESULT_STATES = [''complete'', ''partial'', ''missing'', ''unparseable'', ''not_run'', ''not_reported'']"

subsection \<open>Paths below the document\<close>

definition posix_join :: "string \<Rightarrow> string \<Rightarrow> string" where
  "posix_join pre p = (if pre \<noteq> [] \<and> pre \<noteq> ''.'' then pre @ ''/'' @ p else p)"

text \<open>The live directory is given by its name.\<close>

definition rewrite_live :: "string \<Rightarrow> string option \<Rightarrow> live_object \<Rightarrow> live_object" where
  "rewrite_live pre live_dir live =
     live \<lparr> lo_source_path := map_option (posix_join pre) (lo_source_path live),
            lo_series_path := (case (lo_series_path live, live_dir) of
               (Some p, Some name) \<Rightarrow> if lo_series_saved live then Some (name @ ''/'' @ p) else Some p
             | (series, _) \<Rightarrow> series) \<rparr>"

definition rewrite_results :: "string \<Rightarrow> string option \<Rightarrow> results \<Rightarrow> results" where
  "rewrite_results pre live_dir r =
     r \<lparr> re_phases := map (\<lambda>phase. phase \<lparr> rp_live := map_option (rewrite_live pre live_dir) (rp_live phase) \<rparr>) (re_phases r),
         re_live_domains := map (rewrite_live pre live_dir) (re_live_domains r) \<rparr>"

definition rewrite_files :: "string \<Rightarrow> result_file list \<Rightarrow> result_file list" where
  "rewrite_files pre files = map (\<lambda>f. f \<lparr> rf_path := posix_join pre (rf_path f) \<rparr>) files"

subsection \<open>Executions of a document\<close>

record doc_execution =
  de_execution_id :: "string option"
  de_group_id :: string
  de_kind :: string
  de_definition :: "string option"
  de_ledger_state :: string
  de_result_state :: string
  de_problems :: "doc_problem list"
  de_coordinates :: "coordinates option"
  de_coordinate_key :: "string option"
  de_dataset :: pyval
  de_producer_version :: "string option"
  de_result_files :: "result_file list"
  de_log :: "string option"
  de_results :: "results option"

definition execution_record :: "group_spec \<Rightarrow> ledger_entry \<Rightarrow> fragment_entry \<Rightarrow> doc_execution" where
  "execution_record spec ledger entry =
     \<lparr> de_execution_id = le_execution_id ledger, de_group_id = gs_group_id spec, de_kind = gs_kind spec,
       de_definition = le_definition ledger, de_ledger_state = le_state ledger, de_result_state = fe_result_state entry,
       de_problems = fe_problems entry, de_coordinates = fe_coordinates entry, de_coordinate_key = fe_coordinate_key entry,
       de_dataset = fe_dataset entry, de_producer_version = fe_producer_version entry,
       de_result_files = fe_result_files entry, de_log = le_log ledger, de_results = fe_results entry \<rparr>"

definition absent_state :: "group_spec \<Rightarrow> ledger_entry \<Rightarrow> string \<times> doc_problem list" where
  "absent_state spec ledger =
     (if \<not> gs_selected spec then (NOT_REPORTED, [])
      else if le_state ledger \<noteq> LEDGER_SUCCESS then (''not_run'', [])
      else if gs_report_failed spec then (''missing'', [(''report_failed'', ''the group report failed'', None)])
      else (''missing'', []))"

definition text_of :: "string option \<Rightarrow> string" where
  "text_of s = (case s of None \<Rightarrow> ''None'' | Some t \<Rightarrow> t)"

text \<open>The definition is read again: an error of the file system or of the decoding leaves the fields out.\<close>

definition definition_fields ::
  "fs_view \<Rightarrow> group_spec \<Rightarrow> ledger_entry \<Rightarrow> (coordinates \<times> string) option \<times> doc_problem list" where
  "definition_fields fs spec ledger =
     (let derived = (case le_definition_path ledger of
            None \<Rightarrow> None
          | Some p \<Rightarrow> (case read_text fs p of
               Inl _ \<Rightarrow> None | Inr content \<Rightarrow> definition_coordinates (gs_kind spec) content (gs_settings spec)))
      in case derived of
           None \<Rightarrow> (None, [(''definition_unreadable'',
              ''execution '' @ text_of (le_execution_id ledger) @ '': definition cannot be parsed'', None)])
         | Some found \<Rightarrow> (Some found, []))"

definition absent_fragment :: "fs_view \<Rightarrow> group_spec \<Rightarrow> ledger_entry \<Rightarrow> fragment_entry" where
  "absent_fragment fs spec ledger =
     (let (state, problems) = absent_state spec ledger; (found, more) = definition_fields fs spec ledger
      in \<lparr> fe_execution_id = None, fe_result_state = state, fe_problems = problems @ more,
           fe_coordinates = map_option fst found, fe_coordinate_key = map_option snd found, fe_dataset = PNone,
           fe_producer_version = None, fe_result_files = [], fe_results = None \<rparr>)"

definition merge_execution ::
  "fs_view \<Rightarrow> string option \<Rightarrow> group_spec \<Rightarrow> ledger_entry \<Rightarrow> fragment_entry option \<Rightarrow> doc_execution" where
  "merge_execution fs live_dir spec ledger entry = (case entry of
     None \<Rightarrow> execution_record spec ledger (absent_fragment fs spec ledger)
   | Some e \<Rightarrow>
     (let merged = e \<lparr> fe_result_files := rewrite_files (gs_prefix spec) (fe_result_files e),
            fe_results := map_option (rewrite_results (gs_prefix spec) live_dir) (fe_results e) \<rparr>
      in execution_record spec ledger
           (if le_state ledger \<noteq> LEDGER_SUCCESS \<and> le_state ledger \<noteq> LEDGER_UNKNOWN
            then merged \<lparr> fe_result_state := ''not_run'', fe_results := None \<rparr> else merged)))"

definition group_diagnostic :: "group_spec \<Rightarrow> doc_problem \<Rightarrow> doc_problem" where
  "group_diagnostic spec item = (case item of (kind, detail, phase) \<Rightarrow>
     (kind, ''group '' @ gs_group_id spec @ '': '' @ detail, phase))"

definition unmatched_diagnostic :: "group_spec \<Rightarrow> fragment_entry \<Rightarrow> doc_problem" where
  "unmatched_diagnostic spec e = (''execution_unmatched'',
     ''group '' @ gs_group_id spec @ '': result files match no ledger execution: '' @
     join '', '' (map (\<lambda>f. posix_join (gs_prefix spec) (rf_path f)) (fe_result_files e)), None)"

definition has_id :: "fragment_entry \<Rightarrow> bool" where
  "has_id e \<longleftrightarrow> (case fe_execution_id e of None \<Rightarrow> False | Some i \<Rightarrow> i \<noteq> [])"

definition group_entries :: "group_spec \<Rightarrow> fragment_entry list" where
  "group_entries spec = (case gs_fragment spec of None \<Rightarrow> [] | Some f \<Rightarrow> fg_executions f)"

text \<open>Of two entries with one id, the last one counts.\<close>

definition entry_by_id :: "fragment_entry list \<Rightarrow> string option \<Rightarrow> fragment_entry option" where
  "entry_by_id entries i = find (\<lambda>e. has_id e \<and> fe_execution_id e = i) (rev entries)"

definition unlisted_ledger :: ledger_entry where
  "unlisted_ledger = \<lparr> le_execution_id = None, le_definition = None, le_state = LEDGER_UNKNOWN, le_log = None, le_definition_path = None \<rparr>"

definition merge_group :: "fs_view \<Rightarrow> string option \<Rightarrow> group_spec \<Rightarrow> doc_execution list \<times> doc_problem list" where
  "merge_group fs live_dir spec =
     (let entries = group_entries spec;
          unmatched = filter (\<lambda>e. \<not> has_id e) entries;
          executions = map (\<lambda>item. merge_execution fs live_dir spec item (entry_by_id entries (le_execution_id item))) (gs_ledger spec);
          diagnostics = map (group_diagnostic spec) (case gs_fragment spec of None \<Rightarrow> [] | Some f \<Rightarrow> fg_diagnostics f)
      in if \<not> gs_has_ledger spec
         then (executions @ map (\<lambda>e. merge_execution fs live_dir spec unlisted_ledger (Some e)) unmatched,
               diagnostics @ [(''no_execution_ledger'',
                 ''group '' @ gs_group_id spec @ '': no executions/ ledger; ledger state unknown'', None)])
         else (executions, diagnostics @ map (unmatched_diagnostic spec) unmatched))"

subsection \<open>The document\<close>

type_synonym execution_key = "string \<times> bool \<times> string \<times> key_part list \<times> string"

definition execution_sort_key :: "doc_execution \<Rightarrow> execution_key result" where
  "execution_sort_key e =
     rbind (natural_key (case de_coordinate_key e of None \<Rightarrow> [] | Some k \<Rightarrow> k)) (\<lambda>key.
     Inr (de_group_id e, de_execution_id e = None, (case de_execution_id e of None \<Rightarrow> [] | Some i \<Rightarrow> i), key))"

record batch_outcome =
  bo_complete :: bool
  bo_total :: nat
  bo_executions :: "(string, nat) dict"
  bo_results :: "(string, nat) dict"
  bo_groups_reported :: "string list"
  bo_groups_not_reported :: "string list"

definition batch_outcome_of :: "doc_execution list \<Rightarrow> group_spec list \<Rightarrow> batch_outcome" where
  "batch_outcome_of executions specs =
     \<lparr> bo_complete = (executions \<noteq> [] \<and>
          list_all (\<lambda>e. de_ledger_state e = LEDGER_SUCCESS \<and> de_result_state e = ''complete'') executions),
       bo_total = length executions,
       bo_executions = map (\<lambda>state. (state, count_list (map de_ledger_state executions) state)) LEDGER_STATES,
       bo_results = map (\<lambda>state. (state, count_list (map de_result_state executions) state)) RESULT_STATES,
       bo_groups_reported = sort (map gs_group_id (filter (\<lambda>s. gs_fragment s \<noteq> None) specs)),
       bo_groups_not_reported = sort (map gs_group_id (filter (\<lambda>s. gs_fragment s = None) specs)) \<rparr>"

record group_record =
  gp_group_id :: string
  gp_kind :: string
  gp_output_relative :: string
  gp_source :: string
  gp_target :: storage_target
  gp_env_shell_sha256 :: "string option"
  gp_env_yaml_sha256 :: "string option"
  gp_env_override :: pyval
  gp_settings :: settings
  gp_settings_text :: "string option"
  gp_execution_ids :: "string option list"
  gp_unpaired_live :: "live_object list"

definition group_record_of :: "string option \<Rightarrow> group_spec \<Rightarrow> group_record" where
  "group_record_of live_dir spec =
     \<lparr> gp_group_id = gs_group_id spec, gp_kind = gs_kind spec, gp_output_relative = gs_output_relative spec,
       gp_source = gs_source spec, gp_target = storage_target_from_env (Some (gs_settings spec)),
       gp_env_shell_sha256 = gs_env_shell_sha256 spec, gp_env_yaml_sha256 = gs_env_yaml_sha256 spec,
       gp_env_override = val_get (gs_settings spec) ''env_override'', gp_settings = gs_settings spec,
       gp_settings_text = gs_settings_text spec, gp_execution_ids = map le_execution_id (gs_ledger spec),
       gp_unpaired_live = (case gs_fragment spec of None \<Rightarrow> []
          | Some f \<Rightarrow> map (rewrite_live (gs_prefix spec) live_dir) (fg_unpaired_live f)) \<rparr>"

record batch_block =
  bb_root :: string
  bb_datestamp :: "string option"
  bb_manifest_version :: "nat option"
  bb_manifest_sha256 :: "string option"
  bb_sealed :: "bool option"
  bb_substrate :: "string option"

record document =
  do_batch :: batch_block
  do_outcome :: batch_outcome
  do_groups :: "group_record list"
  do_executions :: "doc_execution list"
  do_diagnostics :: "doc_problem list"

definition sort_by_result :: "('a \<Rightarrow> 'k::linorder result) \<Rightarrow> 'a list \<Rightarrow> 'a list result" where
  "sort_by_result key xs =
     rbind (traverse (\<lambda>x. rbind (key x) (\<lambda>k. Inr (k, x))) xs) (\<lambda>keyed. Inr (map snd (sort_key fst keyed)))"

definition compose :: "fs_view \<Rightarrow> batch_block \<Rightarrow> group_spec list \<Rightarrow> string option \<Rightarrow> document result" where
  "compose fs batch specs live_dir =
     (let merged = map (merge_group fs live_dir) specs
      in rbind (sort_by_result execution_sort_key (concat (map fst merged))) (\<lambda>executions.
         Inr \<lparr> do_batch = batch, do_outcome = batch_outcome_of executions specs,
           do_groups = map (group_record_of live_dir) specs, do_executions = executions,
           do_diagnostics = concat (map snd merged) \<rparr>))"

definition document_is_complete :: "document \<Rightarrow> bool" where
  "document_is_complete doc = bo_complete (do_outcome doc)"

subsection \<open>Groups of a prepared batch\<close>

text \<open>The settings of a directory as the YAML loader gives them, a dictionary or nothing.\<close>

type_synonym settings_loader = "path \<Rightarrow> settings"

definition settings_text :: "fs_view \<Rightarrow> path \<Rightarrow> string option" where
  "settings_text fs dir = (case rbind (fs_read fs (dir @ [ENV_YAML])) utf8_decode of Inl _ \<Rightarrow> None | Inr text \<Rightarrow> Some text)"

definition log_relative :: "fs_view \<Rightarrow> path \<Rightarrow> string \<Rightarrow> string \<Rightarrow> string option" where
  "log_relative fs root relative identifier =
     (let log = ''executions/'' @ identifier @ ''.log''
      in find (\<lambda>candidate. fs_file fs (root @ path_parts candidate)) [log, posix_join relative log])"

definition batch_ledger_entry :: "fs_view \<Rightarrow> batch_manifest \<Rightarrow> batch_group \<Rightarrow> batch_execution \<Rightarrow> ledger_entry result" where
  "batch_ledger_entry fs m g item =
     rbind (execution_status fs m item) (\<lambda>status. Inr
       \<lparr> le_execution_id = Some (execution_id item), le_definition = Some (definition_digest item), le_state = py_lower status,
         le_log = log_relative fs (mf_root m) (output_relative g) (execution_id item),
         le_definition_path = Some (mf_root m @ [''executions'', execution_id item @ ''.sh'']) \<rparr>)"

definition batch_spec ::
  "fs_view \<Rightarrow> settings_loader \<Rightarrow> batch_manifest \<Rightarrow> string set \<Rightarrow> (string, fragment option) dict \<Rightarrow> string set \<Rightarrow> batch_group
     \<Rightarrow> group_spec result" where
  "batch_spec fs load m selected fragments report_failed g =
     rbind (traverse (batch_ledger_entry fs m g) (group_executions m (group_id g))) (\<lambda>ledger.
     rbind (group_path fs m g) (\<lambda>dir. Inr
       \<lparr> gs_group_id = group_id g, gs_kind = group_kind g, gs_output_relative = output_relative g, gs_source = path_str dir,
         gs_prefix = output_relative g, gs_settings = load dir, gs_settings_text = settings_text fs dir,
         gs_env_shell_sha256 = Some (shell_digest g), gs_env_yaml_sha256 = Some (yaml_digest g), gs_ledger = ledger,
         gs_fragment = (case dict_get fragments (group_id g) of None \<Rightarrow> None | Some f \<Rightarrow> f),
         gs_selected = (group_id g \<in> selected), gs_report_failed = (group_id g \<in> report_failed), gs_has_ledger = True \<rparr>))"

definition substrate_text :: "pyval \<Rightarrow> string option" where
  "substrate_text v = (if v = PNone then None else Some (py_str v))"

definition assemble_batch_document ::
  "fs_view \<Rightarrow> settings_loader \<Rightarrow> batch_manifest \<Rightarrow> string set \<Rightarrow> (string, fragment option) dict \<Rightarrow> string set
     \<Rightarrow> string option \<Rightarrow> document result" where
  "assemble_batch_document fs load m selected fragments report_failed live_dir =
     rbind (traverse (batch_spec fs load m selected fragments report_failed) (mf_groups m)) (\<lambda>specs.
     compose fs
       \<lparr> bb_root = path_str (mf_root m), bb_datestamp = Some (mf_datestamp m), bb_manifest_version = Some 1,
         bb_manifest_sha256 = Some (mf_digest m), bb_sealed = Some (fs_file fs (mf_root m @ [SEAL_FILENAME])),
         bb_substrate = (case specs of [] \<Rightarrow> None | s # _ \<Rightarrow> substrate_text (val_get (gs_settings s) ''EXECUTION_SUBSTRATE'')) \<rparr>
       specs live_dir)"

subsection \<open>Ordinary result directories\<close>

text \<open>\<^verbatim>\<open>[0-9]*.sh\<close> whose stem is a number, of the names in \<^verbatim>\<open>executions\<close>.\<close>

definition ledger_identifier :: "string \<Rightarrow> string option" where
  "ledger_identifier name =
     (let stem = take (length name - 3) name
      in if name \<noteq> [] \<and> is_digit (hd name) \<and> drop (length name - 3) name = ''.sh'' \<and> isdigit stem then Some stem else None)"

definition optional_sha :: "fs_view \<Rightarrow> (string \<Rightarrow> string) \<Rightarrow> path \<Rightarrow> string option result" where
  "optional_sha fs sha p = (if fs_file fs p then rbind (fs_read fs p) (\<lambda>bytes. Inr (Some (sha bytes))) else Inr None)"

definition ordinary_state :: "fs_view \<Rightarrow> path \<Rightarrow> string \<Rightarrow> string result" where
  "ordinary_state fs dir identifier =
     (let status = dir @ [''executions'', identifier @ ''.status'']
      in if \<not> fs_file fs status then Inr LEDGER_UNKNOWN
         else rbind (read_text fs status) (\<lambda>text.
              let value = py_lower (py_strip text)
              in Inr (if value \<in> set (butlast LEDGER_STATES) then value else LEDGER_UNKNOWN)))"

definition ordinary_ledger_entry :: "fs_view \<Rightarrow> (string \<Rightarrow> string) \<Rightarrow> path \<Rightarrow> string \<Rightarrow> string \<Rightarrow> ledger_entry result" where
  "ordinary_ledger_entry fs sha dir relative identifier =
     (let definition_path = dir @ [''executions'', identifier @ ''.sh'']; log = ''executions/'' @ identifier @ ''.log''
      in rbind (ordinary_state fs dir identifier) (\<lambda>state.
         rbind (optional_sha fs sha definition_path) (\<lambda>digest. Inr
           \<lparr> le_execution_id = Some identifier, le_definition = digest, le_state = state,
             le_log = (if fs_file fs (dir @ path_parts log) then Some (posix_join relative log) else None),
             le_definition_path = Some definition_path \<rparr>)))"

text \<open>The ledger is every definition and every execution the fragment names, once each.\<close>

definition ledger_identifiers :: "string list \<Rightarrow> fragment \<Rightarrow> string list" where
  "ledger_identifiers names f =
     sort (remdups (List.map_filter ledger_identifier names @ List.map_filter (\<lambda>e. if has_id e then fe_execution_id e else None) (fg_executions f)))"

record ordinary_input =
  oi_dir :: path
  oi_execution_names :: "string list"
  oi_fragment :: fragment

definition ordinary_spec ::
  "fs_view \<Rightarrow> (string \<Rightarrow> string) \<Rightarrow> settings_loader \<Rightarrow> ordinary_input \<Rightarrow> string \<Rightarrow> string \<Rightarrow> group_spec result" where
  "ordinary_spec fs sha load i gid relative =
     (let dir = oi_dir i; has_ledger = List.map_filter ledger_identifier (oi_execution_names i) \<noteq> []
      in rbind (optional_sha fs sha (dir @ [ENV_SHELL])) (\<lambda>shell.
         rbind (optional_sha fs sha (dir @ [ENV_YAML])) (\<lambda>yaml.
         rbind (if has_ledger
                then traverse (ordinary_ledger_entry fs sha dir relative) (ledger_identifiers (oi_execution_names i) (oi_fragment i))
                else Inr []) (\<lambda>ledger. Inr
           \<lparr> gs_group_id = gid, gs_kind = fg_kind (oi_fragment i), gs_output_relative = relative, gs_source = path_str dir,
             gs_prefix = relative, gs_settings = load dir, gs_settings_text = settings_text fs dir,
             gs_env_shell_sha256 = shell, gs_env_yaml_sha256 = yaml, gs_ledger = ledger, gs_fragment = Some (oi_fragment i),
             gs_selected = True, gs_report_failed = False, gs_has_ledger = has_ledger \<rparr>))))"

fun common_prefix :: "path \<Rightarrow> path \<Rightarrow> path" where
  "common_prefix (a # p) (b # q) = (if a = b then a # common_prefix p q else [])"
| "common_prefix _ _ = []"

definition common_path :: "path list \<Rightarrow> path" where
  "common_path dirs = foldl common_prefix (hd dirs) (tl dirs)"

text \<open>\<^verbatim>\<open>os.path.relpath\<close> of a directory below the root\<close>

definition relative_to :: "path \<Rightarrow> path \<Rightarrow> string" where
  "relative_to root_dir dir = (let rest = drop (length root_dir) dir in if rest = [] then ''.'' else join ''/'' rest)"

definition shared_value :: "'a list \<Rightarrow> 'a option" where
  "shared_value xs = (case xs of [] \<Rightarrow> None | x # _ \<Rightarrow> if list_all (\<lambda>v. v = x) xs then Some x else None)"

text \<open>\<^verbatim>\<open>([0-9]{8}Z[0-9]{6})$\<close> searched in the name of a directory\<close>

definition datestamp_suffix :: "path \<Rightarrow> string option" where
  "datestamp_suffix dir =
     (let name = (if dir = [] then [] else last dir);
          trimmed = (if name \<noteq> [] \<and> last name = LF then butlast name else name);
          suffix = drop (length trimmed - 15) trimmed
      in if fullmatch datestamp_re suffix then Some suffix else None)"

definition group_ids :: "nat \<Rightarrow> string list" where
  "group_ids n = (if n = 1 then [''0000''] else map (pad0 4) [1..<n + 1])"

definition assemble_inputs_document ::
  "fs_view \<Rightarrow> (string \<Rightarrow> string) \<Rightarrow> settings_loader \<Rightarrow> ordinary_input list \<Rightarrow> string option \<Rightarrow> document result" where
  "assemble_inputs_document fs sha load inputs live_dir =
     (let resolved = map (\<lambda>i. i \<lparr> oi_dir := fs_resolve fs (oi_dir i) \<rparr>) inputs;
          dirs = map oi_dir resolved; root_dir = common_path dirs
      in rbind (traverse (\<lambda>(i, gid). ordinary_spec fs sha load i gid (relative_to root_dir (oi_dir i)))
            (zip resolved (group_ids (length inputs)))) (\<lambda>specs.
         compose fs
           \<lparr> bb_root = path_str root_dir,
             bb_datestamp = (case shared_value (map datestamp_suffix dirs) of None \<Rightarrow> None | Some d \<Rightarrow> d),
             bb_manifest_version = None, bb_manifest_sha256 = None, bb_sealed = None,
             bb_substrate = (case shared_value (map (\<lambda>s. val_get (gs_settings s) ''EXECUTION_SUBSTRATE'') specs) of
                None \<Rightarrow> None | Some v \<Rightarrow> substrate_text v) \<rparr>
           specs live_dir))"

subsection \<open>What a report shows\<close>

record report_selection =
  sel_kinds :: "string set option"
  sel_groups :: "string set option"
  sel_nodes :: "int set option"
  sel_threads :: "int set option"
  sel_sizes :: "string set option"
  sel_iodepths :: "int set option"

definition allows :: "'a set option \<Rightarrow> 'a option \<Rightarrow> bool" where
  "allows allowed v = (case allowed of None \<Rightarrow> True
     | Some s \<Rightarrow> s = {} \<or> (case v of None \<Rightarrow> False | Some x \<Rightarrow> x \<in> s))"

definition keeps :: "report_selection \<Rightarrow> group_record \<Rightarrow> doc_execution \<Rightarrow> bool" where
  "keeps sel g e \<longleftrightarrow>
     (case sel_kinds sel of None \<Rightarrow> True | Some ks \<Rightarrow> ks = {} \<or> gp_kind g \<in> ks) \<and>
     (case sel_groups sel of None \<Rightarrow> True | Some gs \<Rightarrow> gp_group_id g \<in> gs) \<and>
     (if gp_kind g = KIND_MDTEST then
        (let c = (case de_coordinates e of Some (MdCoordinates c) \<Rightarrow> Some c | _ \<Rightarrow> None)
         in allows (sel_nodes sel) (map_option (int \<circ> m_nodes) c) \<and> allows (sel_threads sel) (map_option (int \<circ> m_tasks_per_node) c))
      else
        (let c = (case de_coordinates e of Some (IoCoordinates c) \<Rightarrow> Some c | _ \<Rightarrow> None)
         in allows (sel_nodes sel) (map_option (int \<circ> c_nodes) c) \<and> allows (sel_threads sel) (map_option (int \<circ> c_threads_per_node) c)
          \<and> allows (sel_sizes sel) (map_option c_io_size_spec c) \<and> allows (sel_iodepths sel) (map_option (int \<circ> c_io_depth) c)))"

end
