(* ===== verification/ResultsMerge.thy ===== *)
theory ResultsMerge
  imports ResultsDocument
begin

section \<open>What the results document promises\<close>

text \<open>
  Every committed execution is in the document once, results appear only where the ledger admits them, a document is complete
  exactly when every execution succeeded with complete results, and the counts of the outcome add up.
\<close>

lemma sort_by_result_mset:
  assumes "sort_by_result key xs = Inr ys"
  shows "mset ys = mset xs"
proof -
  obtain keyed where keyed: "traverse (\<lambda>x. rbind (key x) (\<lambda>k. Inr (k, x))) xs = Inr keyed" "ys = map snd (sort_key fst keyed)"
    using assms by (auto simp: sort_by_result_def rbind_eq_Inr)
  have "list_all2 (\<lambda>x y. snd y = x) xs keyed"
    using keyed(1) unfolding traverse_eq_Inr by (rule list_all2_mono) (auto simp: rbind_eq_Inr)
  then have "map snd keyed = xs" by (induction rule: list_all2_induct) auto
  then show ?thesis using keyed(2) by (metis mset_map mset_sort)
qed

subsection \<open>One execution\<close>

lemma execution_record_simps [simp]:
  "de_execution_id (execution_record spec l e) = le_execution_id l"
  "de_group_id (execution_record spec l e) = gs_group_id spec"
  "de_ledger_state (execution_record spec l e) = le_state l"
  "de_result_state (execution_record spec l e) = fe_result_state e"
  "de_results (execution_record spec l e) = fe_results e"
  by (simp_all add: execution_record_def)

lemma absent_fragment_simps [simp]:
  "fe_results (absent_fragment fs spec l) = None"
  "fe_result_state (absent_fragment fs spec l) = fst (absent_state spec l)"
  by (simp_all add: absent_fragment_def Let_def case_prod_unfold)

lemma merge_execution_simps [simp]:
  "de_execution_id (merge_execution fs live spec l e) = le_execution_id l"
  "de_group_id (merge_execution fs live spec l e) = gs_group_id spec"
  "de_ledger_state (merge_execution fs live spec l e) = le_state l"
  by (simp_all add: merge_execution_def Let_def split: option.split)

definition may_have_results :: "string \<Rightarrow> bool" where
  "may_have_results state \<longleftrightarrow> state = LEDGER_SUCCESS \<or> state = LEDGER_UNKNOWN"

lemma merge_execution_guard:
  assumes "\<not> may_have_results (le_state l)"
  shows "de_results (merge_execution fs live spec l e) = None
    \<and> de_result_state (merge_execution fs live spec l e) \<in> {''not_run'', NOT_REPORTED}"
  using assms by (auto simp: merge_execution_def Let_def may_have_results_def absent_state_def split: option.split)

lemma merge_execution_complete:
  "le_state l = LEDGER_SUCCESS \<and> de_result_state (merge_execution fs live spec l e) = ''complete''
    \<longleftrightarrow> le_state l = LEDGER_SUCCESS \<and> (\<exists>f. e = Some f \<and> fe_result_state f = ''complete'')"
  by (auto simp: merge_execution_def Let_def absent_state_def NOT_REPORTED_def split: option.split)

subsection \<open>One group\<close>

definition unlisted_entries :: "group_spec \<Rightarrow> fragment_entry list" where
  "unlisted_entries spec = (if gs_has_ledger spec then [] else filter (\<lambda>e. \<not> has_id e) (group_entries spec))"

lemma merge_group_executions:
  "fst (merge_group fs live spec) =
     map (\<lambda>l. merge_execution fs live spec l (entry_by_id (group_entries spec) (le_execution_id l))) (gs_ledger spec)
     @ map (\<lambda>e. merge_execution fs live spec unlisted_ledger (Some e)) (unlisted_entries spec)"
  by (simp add: merge_group_def Let_def unlisted_entries_def)

lemma compose_Inr:
  assumes "compose fs batch specs live = Inr doc"
  shows "mset (do_executions doc) = mset (concat (map (\<lambda>s. fst (merge_group fs live s)) specs))"
    and "do_outcome doc = batch_outcome_of (do_executions doc) specs"
  using assms sort_by_result_mset by (fastforce simp: compose_def Let_def rbind_eq_Inr comp_def)+

text \<open>C29. The executions of a document are the committed ones of its groups and, for a group without a ledger, the entries of its
  fragment, each exactly as often as it was committed: none is lost and none is invented.\<close>

theorem document_executions_exact:
  assumes "compose fs batch specs live = Inr doc"
  shows "mset (map (\<lambda>e. (de_group_id e, de_execution_id e)) (do_executions doc))
    = mset (concat (map (\<lambda>s. map (\<lambda>l. (gs_group_id s, le_execution_id l)) (gs_ledger s)
        @ map (\<lambda>_. (gs_group_id s, None)) (unlisted_entries s)) specs))"
proof -
  have "map (\<lambda>e. (de_group_id e, de_execution_id e)) (concat (map (\<lambda>s. fst (merge_group fs live s)) specs))
      = concat (map (\<lambda>s. map (\<lambda>l. (gs_group_id s, le_execution_id l)) (gs_ledger s)
          @ map (\<lambda>_. (gs_group_id s, None)) (unlisted_entries s)) specs)"
    by (induction specs) (simp_all add: merge_group_executions unlisted_ledger_def comp_def)
  then show ?thesis using compose_Inr(1) [OF assms] by (metis mset_map)
qed

text \<open>C30. An execution whose ledger says that it failed, or that it has not finished, shows no results and is not run or not
  reported, whatever the fragment says about it.\<close>

theorem results_need_success:
  assumes "compose fs batch specs live = Inr doc" and "e \<in> set (do_executions doc)" and "\<not> may_have_results (de_ledger_state e)"
  shows "de_results e = None \<and> de_result_state e \<in> {''not_run'', NOT_REPORTED}"
proof -
  have "e \<in> set (concat (map (\<lambda>s. fst (merge_group fs live s)) specs))"
    using compose_Inr(1) [OF assms(1)] assms(2) by (metis set_mset_mset)
  then obtain s l x where e: "e = merge_execution fs live s l x" by (auto simp: merge_group_executions)
  then show ?thesis using merge_execution_guard [of l fs live s x] assms(3) by simp
qed

lemma group_complete:
  "(\<forall>e\<in>set (fst (merge_group fs live s)). de_ledger_state e = LEDGER_SUCCESS \<and> de_result_state e = ''complete'') \<longleftrightarrow>
    unlisted_entries s = [] \<and>
    (\<forall>l\<in>set (gs_ledger s). le_state l = LEDGER_SUCCESS \<and>
      (\<exists>f. entry_by_id (group_entries s) (le_execution_id l) = Some f \<and> fe_result_state f = ''complete''))"
proof -
  have "LEDGER_UNKNOWN \<noteq> LEDGER_SUCCESS" by (simp add: LEDGER_UNKNOWN_def LEDGER_SUCCESS_def)
  then have "(\<forall>e\<in>set (unlisted_entries s). le_state unlisted_ledger = LEDGER_SUCCESS \<and> P e) \<longleftrightarrow> unlisted_entries s = []" for P
    by (cases "unlisted_entries s") (auto simp: unlisted_ledger_def)
  then have none: "(\<forall>e\<in>set (unlisted_entries s). le_state unlisted_ledger = LEDGER_SUCCESS
      \<and> (\<exists>f. Some e = Some f \<and> fe_result_state f = ''complete'')) \<longleftrightarrow> unlisted_entries s = []" by blast
  show ?thesis
    unfolding merge_group_executions set_append set_map ball_Un ball_simps merge_execution_simps merge_execution_complete none
    by (rule conj_commute)
qed

text \<open>C28. A document is complete exactly when it has executions, every committed execution succeeded and has an entry with
  complete results, and no group without a ledger has result files. Result files that match no execution of a ledger only become a
  diagnostic of their group: a document with them can be complete.\<close>

theorem document_complete_iff:
  assumes "compose fs batch specs live = Inr doc"
  shows "document_is_complete doc \<longleftrightarrow> do_executions doc \<noteq> [] \<and>
    (\<forall>s\<in>set specs. (gs_has_ledger s \<or> list_all has_id (group_entries s)) \<and>
      (\<forall>l\<in>set (gs_ledger s). le_state l = LEDGER_SUCCESS \<and>
        (\<exists>f. entry_by_id (group_entries s) (le_execution_id l) = Some f \<and> fe_result_state f = ''complete'')))"
proof -
  have "set (do_executions doc) = set (concat (map (\<lambda>s. fst (merge_group fs live s)) specs))"
    using compose_Inr(1) [OF assms] by (metis set_mset_mset)
  then have "(\<forall>e\<in>set (do_executions doc). P e) \<longleftrightarrow> (\<forall>s\<in>set specs. \<forall>e\<in>set (fst (merge_group fs live s)). P e)" for P
    by auto
  moreover have "unlisted_entries s = [] \<longleftrightarrow> gs_has_ledger s \<or> list_all has_id (group_entries s)" for s
    by (simp add: unlisted_entries_def filter_empty_conv list_all_iff)
  ultimately show ?thesis
    by (simp add: document_is_complete_def compose_Inr(2) [OF assms] batch_outcome_of_def list_all_iff group_complete)
qed

subsection \<open>The outcome counts every execution\<close>

lemma counts_sum:
  assumes "distinct states" and "set xs \<subseteq> set states"
  shows "sum_list (map (count_list xs) states) = length xs"
  using assms(2)
proof (induction xs)
  case Nil
  then show ?case by simp
next
  case (Cons x xs)
  have step: "sum_list (map (count_list (x # xs)) ss) = sum_list (map (count_list xs) ss) + (if x \<in> set ss then 1 else 0)"
    if "distinct ss" for ss using that by (induction ss) auto
  show ?case unfolding step [OF assms(1)] using Cons by simp
qed

lemma status_known:
  assumes "execution_status fs m e = Inr status"
  shows "py_lower status \<in> set LEDGER_STATES"
proof -
  have "status \<in> set (''UNKNOWN'' # statuses)"
    using assms by (auto simp: execution_status_def rbind_eq_Inr split: if_splits)
  moreover have "list_all (\<lambda>s. py_lower s \<in> set LEDGER_STATES) (''UNKNOWN'' # statuses)" by code_simp
  ultimately show ?thesis by (auto simp: list_all_iff simp del: set_simps)
qed

lemma ordinary_state_known: "ordinary_state fs dir i = Inr state \<Longrightarrow> state \<in> set LEDGER_STATES"
  by (auto simp: ordinary_state_def Let_def rbind_eq_Inr LEDGER_UNKNOWN_def LEDGER_STATES_def split: if_splits)

definition ledger_known :: "group_spec \<Rightarrow> bool" where
  "ledger_known s \<longleftrightarrow> (\<forall>l\<in>set (gs_ledger s). le_state l \<in> set LEDGER_STATES)"

definition results_known :: "group_spec \<Rightarrow> bool" where
  "results_known s \<longleftrightarrow> (\<forall>e\<in>set (group_entries s). fe_result_state e \<in> set RESULT_STATES)"

lemma traverse_origin: "traverse f xs = Inr ys \<Longrightarrow> y \<in> set ys \<Longrightarrow> \<exists>x\<in>set xs. f x = Inr y"
  by (induction xs arbitrary: ys) (auto simp: rbind_eq_Inr)

lemma batch_spec_known:
  assumes "batch_spec fs load m selected fragments report_failed g = Inr s"
  shows "ledger_known s"
proof -
  obtain ledger where ledger: "traverse (batch_ledger_entry fs m g) (group_executions m (group_id g)) = Inr ledger" "gs_ledger s = ledger"
    using assms by (auto simp: batch_spec_def rbind_eq_Inr)
  have "le_state l \<in> set LEDGER_STATES" if "l \<in> set ledger" for l
  proof -
    obtain item where "batch_ledger_entry fs m g item = Inr l" using traverse_origin [OF ledger(1) \<open>l \<in> set ledger\<close>] by blast
    then show ?thesis using status_known by (auto simp: batch_ledger_entry_def rbind_eq_Inr)
  qed
  then show ?thesis using ledger(2) by (simp add: ledger_known_def)
qed

lemma ordinary_spec_known:
  assumes "ordinary_spec fs sha load i gid relative = Inr s"
  shows "ledger_known s"
proof -
  have state: "le_state l \<in> set LEDGER_STATES" if "ordinary_ledger_entry fs sha dir relative k = Inr l" for dir k l
    using that ordinary_state_known by (auto simp: ordinary_ledger_entry_def Let_def rbind_eq_Inr)
  show ?thesis
  proof (cases "List.map_filter ledger_identifier (oi_execution_names i) = []")
    case True
    then show ?thesis using assms by (auto simp: ordinary_spec_def Let_def rbind_eq_Inr ledger_known_def)
  next
    case False
    then obtain ledger where "traverse (ordinary_ledger_entry fs sha (oi_dir i) relative)
        (ledger_identifiers (oi_execution_names i) (oi_fragment i)) = Inr ledger" "gs_ledger s = ledger"
      using assms by (auto simp: ordinary_spec_def Let_def rbind_eq_Inr)
    then show ?thesis unfolding ledger_known_def using state traverse_origin by metis
  qed
qed

lemma merged_states_known:
  assumes "ledger_known s" and "results_known s" and "e \<in> set (fst (merge_group fs live s))"
  shows "de_ledger_state e \<in> set LEDGER_STATES \<and> de_result_state e \<in> set RESULT_STATES"
proof -
  have known: "f \<in> set (group_entries s)" if "entry_by_id (group_entries s) i = Some f" for i f
    using that unfolding entry_by_id_def find_Some_iff by (metis length_rev nth_mem set_rev)
  have absent: "fst (absent_state s l) \<in> set RESULT_STATES" for l
    by (simp add: absent_state_def RESULT_STATES_def NOT_REPORTED_def)
  have states: "de_result_state (merge_execution fs live s l x) \<in> set RESULT_STATES"
    if "\<And>f. x = Some f \<Longrightarrow> f \<in> set (group_entries s)" for l x
    using that absent assms(2) by (auto simp: merge_execution_def Let_def results_known_def RESULT_STATES_def split: option.split)
  have "le_state unlisted_ledger \<in> set LEDGER_STATES" by (simp add: unlisted_ledger_def LEDGER_UNKNOWN_def LEDGER_STATES_def)
  moreover have "de_result_state (merge_execution fs live s unlisted_ledger (Some f)) \<in> set RESULT_STATES"
    if "f \<in> set (unlisted_entries s)" for f
    using that states [of "Some f"] by (auto simp: unlisted_entries_def split: if_splits)
  ultimately show ?thesis
    using assms(1,3) known states unfolding merge_group_executions ledger_known_def by auto
qed

lemma outcome_counts:
  assumes "compose fs batch specs live = Inr doc" and "\<forall>s\<in>set specs. ledger_known s \<and> results_known s"
  shows "sum_list (map snd (bo_executions (do_outcome doc))) = length (do_executions doc)
    \<and> sum_list (map snd (bo_results (do_outcome doc))) = length (do_executions doc)
    \<and> bo_total (do_outcome doc) = length (do_executions doc)"
proof -
  have "set (do_executions doc) = set (concat (map (\<lambda>s. fst (merge_group fs live s)) specs))"
    using compose_Inr(1) [OF assms(1)] by (metis set_mset_mset)
  then have "\<forall>e\<in>set (do_executions doc). de_ledger_state e \<in> set LEDGER_STATES \<and> de_result_state e \<in> set RESULT_STATES"
    using assms(2) merged_states_known by auto
  then have "set (map de_ledger_state (do_executions doc)) \<subseteq> set LEDGER_STATES"
    "set (map de_result_state (do_executions doc)) \<subseteq> set RESULT_STATES" by auto
  moreover have "distinct LEDGER_STATES" "distinct RESULT_STATES" by (simp_all add: LEDGER_STATES_def RESULT_STATES_def)
  ultimately show ?thesis
    using counts_sum [of LEDGER_STATES "map de_ledger_state (do_executions doc)"]
      counts_sum [of RESULT_STATES "map de_result_state (do_executions doc)"]
    by (simp only: compose_Inr(2) [OF assms(1)] batch_outcome_of_def batch_outcome.simps map_map comp_def snd_conv length_map)
qed

lemma group_ids_distinct: "distinct (group_ids n) \<and> length (group_ids n) = n"
  by (simp add: group_ids_def distinct_map inj_on_def pad0_inj)

subsection \<open>Documents of ordinary directories\<close>

definition input_results_known :: "ordinary_input \<Rightarrow> bool" where
  "input_results_known i \<longleftrightarrow> list_all (\<lambda>e. fe_result_state e \<in> set RESULT_STATES) (fg_executions (oi_fragment i))"

lemma ordinary_spec_fields:
  assumes "ordinary_spec fs sha load i gid relative = Inr s"
  shows "gs_group_id s = gid" and "gs_fragment s = Some (oi_fragment i)"
  using assms by (auto simp: ordinary_spec_def Let_def rbind_eq_Inr split: if_splits)

lemma compose_groups: "compose fs batch specs live = Inr doc \<Longrightarrow> map gp_group_id (do_groups doc) = map gs_group_id specs"
  by (auto simp: compose_def Let_def rbind_eq_Inr group_record_of_def comp_def)

lemma ordinary_specs:
  assumes "traverse (\<lambda>(i, gid). ordinary_spec fs sha load i gid (relative_of i)) (zip inputs gids) = Inr specs"
    and "length gids = length inputs" and "\<forall>i\<in>set inputs. input_results_known i"
  shows "map gs_group_id specs = gids \<and> (\<forall>s\<in>set specs. ledger_known s \<and> results_known s)"
  using assms(2,1,3)
proof (induction gids inputs arbitrary: specs rule: list_induct2)
  case Nil
  then show ?case by simp
next
  case (Cons gid gids i inputs)
  obtain s rest where step: "ordinary_spec fs sha load i gid (relative_of i) = Inr s" "specs = s # rest"
    "traverse (\<lambda>(i, gid). ordinary_spec fs sha load i gid (relative_of i)) (zip inputs gids) = Inr rest"
    using Cons.prems(1) by (auto simp: rbind_eq_Inr)
  have "ledger_known s" using step(1) by (rule ordinary_spec_known)
  moreover have "results_known s"
    using Cons.prems(2) ordinary_spec_fields(2) [OF step(1)]
    by (auto simp: results_known_def group_entries_def input_results_known_def list_all_iff)
  ultimately show ?case using Cons.IH [OF step(3)] Cons.prems(2) ordinary_spec_fields(1) [OF step(1)] step(2) by auto
qed

text \<open>The document of ordinary directories has one group per directory, with distinct ids, and its outcome counts every
  execution once under a ledger state and once under a result state, when the reporters give the result states they document.\<close>

theorem inputs_document_counts:
  assumes "assemble_inputs_document fs sha load inputs live = Inr doc" and "\<forall>i\<in>set inputs. input_results_known i"
  shows "distinct (map gp_group_id (do_groups doc)) \<and> length (do_groups doc) = length inputs
    \<and> sum_list (map snd (bo_executions (do_outcome doc))) = length (do_executions doc)
    \<and> sum_list (map snd (bo_results (do_outcome doc))) = length (do_executions doc)"
proof -
  define resolved where "resolved = map (\<lambda>i. i \<lparr> oi_dir := fs_resolve fs (oi_dir i) \<rparr>) inputs"
  define relative_of where "relative_of i = relative_to (common_path (map oi_dir resolved)) (oi_dir i)" for i :: ordinary_input
  obtain specs batch where specs: "traverse (\<lambda>(i, gid). ordinary_spec fs sha load i gid (relative_of i))
      (zip resolved (group_ids (length inputs))) = Inr specs"
    and composed: "compose fs batch specs live = Inr doc"
    using assms(1) unfolding assemble_inputs_document_def Let_def resolved_def relative_of_def by (auto simp: rbind_eq_Inr)
  have "\<forall>i\<in>set resolved. input_results_known i" using assms(2) by (simp add: resolved_def input_results_known_def)
  then have known: "map gs_group_id specs = group_ids (length inputs) \<and> (\<forall>s\<in>set specs. ledger_known s \<and> results_known s)"
    using ordinary_specs [OF specs] group_ids_distinct by (simp add: resolved_def)
  then have ids: "map gp_group_id (do_groups doc) = group_ids (length inputs)" using compose_groups [OF composed] by simp
  then have "length (do_groups doc) = length inputs" using group_ids_distinct by (metis length_map)
  then show ?thesis using ids known group_ids_distinct outcome_counts [OF composed] by simp
qed

subsection \<open>The theorems at work\<close>

definition example_fs :: fs_view where
  "example_fs = \<lparr> fs_symlink = (\<lambda>_. False), fs_file = (\<lambda>_. False), fs_dir = (\<lambda>_. True), fs_exists = (\<lambda>_. True),
     fs_read = (\<lambda>_. Inl (OSError ''missing'')), fs_resolve = (\<lambda>p. p) \<rparr>"

definition example_entry :: "string option \<Rightarrow> fragment_entry" where
  "example_entry i = \<lparr> fe_execution_id = i, fe_result_state = ''complete'', fe_problems = [], fe_coordinates = None,
     fe_coordinate_key = Some ''1-2'', fe_dataset = PNone, fe_producer_version = None, fe_result_files = [],
     fe_results = Some \<lparr> re_phases = [], re_live_domains = [], re_rest = PNone \<rparr> \<rparr>"

definition example_ledger :: "string \<Rightarrow> string \<Rightarrow> ledger_entry" where
  "example_ledger i state =
     \<lparr> le_execution_id = Some i, le_definition = None, le_state = state, le_log = None, le_definition_path = None \<rparr>"

definition example_spec :: group_spec where
  "example_spec = \<lparr> gs_group_id = ''0000'', gs_kind = KIND_MDTEST, gs_output_relative = ''a'', gs_source = ''/a'', gs_prefix = ''a'',
     gs_settings = [], gs_settings_text = None, gs_env_shell_sha256 = None, gs_env_yaml_sha256 = None,
     gs_ledger = [example_ledger ''2'' ''failed'', example_ledger ''1'' LEDGER_SUCCESS],
     gs_fragment = Some \<lparr> fg_kind = KIND_MDTEST, fg_executions = [example_entry (Some ''1''), example_entry (Some ''2''), example_entry None],
       fg_diagnostics = [], fg_unpaired_live = [] \<rparr>,
     gs_selected = True, gs_report_failed = False, gs_has_ledger = True \<rparr>"

definition example_batch :: batch_block where
  "example_batch = \<lparr> bb_root = ''/'', bb_datestamp = None, bb_manifest_version = None, bb_manifest_sha256 = None,
     bb_sealed = None, bb_substrate = None \<rparr>"

definition example_document :: document where
  "example_document = projr (compose example_fs example_batch [example_spec] None)"

lemma example_composes: "compose example_fs example_batch [example_spec] None = Inr example_document"
  by code_simp

theorem document_executions_exact_witness:
  "mset (map de_execution_id (do_executions example_document)) = {# Some ''1'', Some ''2'' #}"
proof -
  from document_executions_exact [OF example_composes]
  have "image_mset snd (mset (map (\<lambda>e. (de_group_id e, de_execution_id e)) (do_executions example_document)))
    = image_mset snd {# (''0000'', Some ''2''), (''0000'', Some ''1'') #}"
    by (simp add: example_spec_def example_ledger_def unlisted_entries_def)
  then show ?thesis by (simp add: comp_def image_mset.compositionality)
qed

theorem results_need_success_witness:
  "\<exists>e\<in>set (do_executions example_document). de_ledger_state e = ''failed'' \<and> de_results e = None"
proof -
  have "\<exists>e\<in>set (do_executions example_document). de_ledger_state e = ''failed''" by code_simp
  then obtain e where e: "e \<in> set (do_executions example_document)" "de_ledger_state e = ''failed''" by blast
  moreover have "\<not> may_have_results ''failed''" by code_simp
  ultimately show ?thesis using results_need_success [OF example_composes e(1)] by auto
qed

theorem document_complete_iff_witness: "\<not> document_is_complete example_document"
proof -
  have "\<exists>l\<in>set (gs_ledger example_spec). le_state l \<noteq> LEDGER_SUCCESS" by code_simp
  then show ?thesis using document_complete_iff [OF example_composes] by auto
qed

definition example_input :: ordinary_input where
  "example_input = \<lparr> oi_dir = [''a''], oi_execution_names = [],
     oi_fragment = \<lparr> fg_kind = KIND_MDTEST, fg_executions = [example_entry None], fg_diagnostics = [], fg_unpaired_live = [] \<rparr> \<rparr>"

definition example_inputs_document :: document where
  "example_inputs_document = projr (assemble_inputs_document example_fs id (\<lambda>_. []) [example_input] None)"

theorem inputs_document_counts_witness:
  "sum_list (map snd (bo_results (do_outcome example_inputs_document))) = 1"
proof -
  have doc: "assemble_inputs_document example_fs id (\<lambda>_. []) [example_input] None = Inr example_inputs_document" by code_simp
  have "length (do_executions example_inputs_document) = 1" by code_simp
  moreover have "input_results_known example_input" by code_simp
  ultimately show ?thesis using inputs_document_counts [OF doc] by simp
qed

end
