(* ===== verification/Workload.thy ===== *)
theory Workload
  imports ResultsDocument
begin

section \<open>Workload metadata of an execution (utils/extract-elbencho.py)\<close>

text \<open>
  A launcher leaves a table of tab-separated fields beside the definition of an execution: how many files the data set has,
  how each phase ended and how long it took. The reporter uses it only when every field is there once, has a
  value of its domain, and the states of the distributed cleanup agree with their counters. Tables of older
  launchers lack the fields of the cleanup, which then have their defaults.
\<close>

subsection \<open>Fields and their domains\<close>

type_synonym workload = "(string, string) dict"

definition WORKLOAD_KEYS :: "string list" where
  "WORKLOAD_KEYS =
     [''dataset_count_source'', ''treefile_source'', ''treefile_cache_publish_outcome'', ''requested_files_per_node'',
      ''effective_files_per_node'', ''dataset_files_total'', ''dataset_bytes_total'', ''reader_nodes'', ''reader_threads_per_node'',
      ''reader_iodepth'', ''files_per_reader_node'', ''termination_mode'', ''configured_duration_seconds'',
      ''effective_timelimit_seconds'', ''completion_state'', ''failure_cleanup_state'', ''write_expected_files'',
      ''write_expected_bytes'', ''write_completed_files'', ''write_completed_bytes'', ''write_elapsed_time_ms'',
      ''write_completion_state'', ''read_expected_files'', ''read_expected_bytes'', ''read_completed_files'',
      ''read_completed_bytes'', ''read_elapsed_time_ms'', ''read_completion_state'', ''delete_expected_files'',
      ''delete_completed_files'', ''delete_elapsed_time_ms'', ''delete_completion_state'', ''write_delete_elapsed_time_ms'',
      ''lifecycle_elapsed_time_ms'']"

definition CLEANUP_DEFAULTS :: workload where
  "CLEANUP_DEFAULTS =
     [(''write_elapsed_time_ms'', ''null''), (''read_elapsed_time_ms'', ''null''), (''delete_expected_files'', ''null''),
      (''delete_completed_files'', ''null''), (''delete_elapsed_time_ms'', ''null''), (''delete_completion_state'', ''not_applicable''),
      (''write_delete_elapsed_time_ms'', ''null''), (''lifecycle_elapsed_time_ms'', ''null'')]"

definition LEGACY_KEYS :: "string list" where
  "LEGACY_KEYS = filter (\<lambda>k. k \<notin> set (dict_keys CLEANUP_DEFAULTS)) WORKLOAD_KEYS"

definition DECIMAL_OR_NULL_KEYS :: "string list" where
  "DECIMAL_OR_NULL_KEYS =
     [''requested_files_per_node'', ''effective_files_per_node'', ''reader_nodes'', ''reader_threads_per_node'', ''reader_iodepth'',
      ''files_per_reader_node'', ''configured_duration_seconds'', ''effective_timelimit_seconds'', ''write_expected_files'',
      ''write_expected_bytes'', ''write_completed_files'', ''write_completed_bytes'', ''write_elapsed_time_ms'',
      ''read_expected_files'', ''read_expected_bytes'', ''read_completed_files'', ''read_completed_bytes'', ''read_elapsed_time_ms'',
      ''delete_expected_files'', ''delete_completed_files'', ''delete_elapsed_time_ms'', ''write_delete_elapsed_time_ms'',
      ''lifecycle_elapsed_time_ms'']"

definition DATASET_TOTAL_KEYS :: "string list" where
  "DATASET_TOTAL_KEYS = [''dataset_files_total'', ''dataset_bytes_total'']"

definition ENUM_VALUES :: "(string, string list) dict" where
  "ENUM_VALUES =
     [(''dataset_count_source'', [''configuration'', ''treefile'']),
      (''treefile_source'', [''null'', ''cache_hit'', ''cache_miss_scan'', ''cache_unavailable_scan'']),
      (''treefile_cache_publish_outcome'', [''pending'', ''reused'', ''created'', ''already_present'', ''not_created'', ''not_applicable'']),
      (''termination_mode'', [''completion'', ''time_bounded_repeat'', ''single_pass_with_time_ceiling'']),
      (''completion_state'', [''pending'', ''completed'', ''incomplete'', ''not_applicable_time_based'']),
      (''failure_cleanup_state'', [''not_needed'', ''completed'', ''failed'']),
      (''write_completion_state'', [''not_started'', ''completed'', ''incomplete'', ''not_applicable'']),
      (''read_completion_state'', [''not_started'', ''completed'', ''incomplete'', ''not_applicable'', ''not_applicable_time_based'']),
      (''delete_completion_state'', [''not_started'', ''completed'', ''incomplete'', ''not_applicable''])]"

text \<open>\<^verbatim>\<open>^(?:0|[1-9][0-9]*)$\<close> matched in full\<close>

definition canonical_decimal :: "string \<Rightarrow> bool" where
  "canonical_decimal v \<longleftrightarrow> v = ''0'' \<or> v \<noteq> [] \<and> list_all is_digit v \<and> hd v \<noteq> CHR ''0''"

definition workload_value_is_valid :: "string \<Rightarrow> string \<Rightarrow> bool" where
  "workload_value_is_valid key v =
     (if key \<in> set DECIMAL_OR_NULL_KEYS then v = ''null'' \<or> canonical_decimal v
      else if key \<in> set DATASET_TOTAL_KEYS then v = ''pending'' \<or> canonical_decimal v
      else (case dict_get ENUM_VALUES key of None \<Rightarrow> False | Some allowed \<Rightarrow> v \<in> set allowed))"

subsection \<open>Coherent cleanup\<close>

text \<open>Every field is there when the states are compared.\<close>

definition wl_field :: "workload \<Rightarrow> string \<Rightarrow> string" where
  "wl_field m key = (case dict_get m key of None \<Rightarrow> [] | Some v \<Rightarrow> v)"

definition completed_cleanup_is_coherent :: "workload \<Rightarrow> bool" where
  "completed_cleanup_is_coherent m =
     (let required = [''delete_expected_files'', ''delete_completed_files'', ''delete_elapsed_time_ms'', ''write_elapsed_time_ms'',
            ''write_delete_elapsed_time_ms'', ''lifecycle_elapsed_time_ms'']
      in if list_ex (\<lambda>key. wl_field m key = ''null'') required then False
         else if wl_field m ''delete_expected_files'' \<noteq> wl_field m ''delete_completed_files'' then False
         else undec (wl_field m ''write_elapsed_time_ms'') + undec (wl_field m ''delete_elapsed_time_ms'')
            = undec (wl_field m ''write_delete_elapsed_time_ms''))"

definition cleanup_is_coherent :: "workload \<Rightarrow> bool" where
  "cleanup_is_coherent m =
     (let state = wl_field m ''delete_completion_state'';
          nullable = [''delete_expected_files'', ''delete_completed_files'', ''delete_elapsed_time_ms'',
            ''write_delete_elapsed_time_ms'', ''lifecycle_elapsed_time_ms'']
      in if state = ''not_applicable'' then list_all (\<lambda>key. wl_field m key = ''null'') nullable
         else if state = ''not_started''
           then wl_field m ''delete_expected_files'' \<noteq> ''null'' \<and> list_all (\<lambda>key. wl_field m key = ''null'') (tl nullable)
         else if state = ''completed'' then completed_cleanup_is_coherent m
         else if wl_field m ''completion_state'' \<noteq> ''incomplete'' then False
         else wl_field m ''delete_expected_files'' \<noteq> ''null'')"

subsection \<open>Reading the table\<close>

fun workload_records :: "string list \<Rightarrow> workload \<Rightarrow> workload option" where
  "workload_records [] parsed = Some parsed"
| "workload_records (line # rest) parsed = (case split_on TAB line of
     [key, v] \<Rightarrow> if key = [] \<or> dict_get parsed key \<noteq> None then None else workload_records rest (parsed @ [(key, v)])
   | _ \<Rightarrow> None)"

definition with_defaults :: "workload \<Rightarrow> workload option" where
  "with_defaults parsed =
     (if set (dict_keys parsed) = set LEGACY_KEYS then Some (fold (\<lambda>(k, v). dict_set k v) CLEANUP_DEFAULTS parsed)
      else if set (dict_keys parsed) \<noteq> set WORKLOAD_KEYS then None else Some parsed)"

definition parse_workload_text :: "string \<Rightarrow> workload option" where
  "parse_workload_text content =
     Option.bind (workload_records (splitlines content) []) (\<lambda>records. Option.bind (with_defaults records) (\<lambda>parsed.
       if \<not> list_all (\<lambda>(key, v). workload_value_is_valid key v) parsed then None
       else if \<not> cleanup_is_coherent parsed then None else Some parsed))"

text \<open>A table that cannot be opened is left out; one that is not UTF-8 is an error.\<close>

definition or_unreadable :: "'a result \<Rightarrow> ('a \<Rightarrow> 'b option) \<Rightarrow> 'b option result" where
  "or_unreadable m f = (case m of Inl (OSError _) \<Rightarrow> Inr None | Inl e \<Rightarrow> Inl e | Inr x \<Rightarrow> Inr (f x))"

definition parse_workload_metadata :: "fs_view \<Rightarrow> path \<Rightarrow> workload option result" where
  "parse_workload_metadata fs p = or_unreadable (read_text fs p) parse_workload_text"

definition read_io_definition :: "fs_view \<Rightarrow> path \<Rightarrow> io_definition option result" where
  "read_io_definition fs p = or_unreadable (read_text fs p) parse_io_definition"

subsection \<open>Metadata by coordinates\<close>

type_synonym io_key_tuple = "nat \<times> string \<times> nat \<times> nat"

definition execution_coordinate_key :: "io_definition \<Rightarrow> io_key_tuple" where
  "execution_coordinate_key d = (io_nodes d, io_size d, io_threads d, io_depth d)"

definition execution_workload_layout :: "io_definition \<Rightarrow> workload \<Rightarrow> string" where
  "execution_workload_layout d m =
     (if wl_field m ''dataset_count_source'' = ''treefile'' then ''staged-tree'' else io_configured_layout d)"

text \<open>Of two definitions with the same coordinates the first one counts.\<close>

definition add_workload ::
  "io_definition option \<Rightarrow> workload option \<Rightarrow> (io_key_tuple, io_definition \<times> workload) dict
     \<Rightarrow> (io_key_tuple, io_definition \<times> workload) dict" where
  "add_workload coordinates metadata workloads = (case (coordinates, metadata) of
     (Some d, Some m) \<Rightarrow>
       if dict_get workloads (execution_coordinate_key d) \<noteq> None then workloads
       else workloads @ [(execution_coordinate_key d, (d, m))]
   | _ \<Rightarrow> workloads)"

definition note_workload ::
  "fs_view \<Rightarrow> path \<Rightarrow> string \<Rightarrow> (io_key_tuple, io_definition \<times> workload) dict
     \<Rightarrow> (io_key_tuple, io_definition \<times> workload) dict result" where
  "note_workload fs dir identifier workloads =
     (let metadata_path = dir @ [''executions'', identifier @ ''.workload.tsv'']
      in if \<not> fs_file fs metadata_path then Inr workloads
         else rbind (read_io_definition fs (dir @ [''executions'', identifier @ ''.sh''])) (\<lambda>coordinates.
              rbind (parse_workload_metadata fs metadata_path) (\<lambda>metadata.
              Inr (add_workload coordinates metadata workloads))))"

definition load_execution_workloads ::
  "fs_view \<Rightarrow> path \<Rightarrow> string list \<Rightarrow> (io_key_tuple, io_definition \<times> workload) dict result" where
  "load_execution_workloads fs dir names = rfold (note_workload fs dir) (List.map_filter ledger_identifier (sort names)) []"

section \<open>What the reader of the table promises\<close>

subsection \<open>Accepted tables are whole and coherent\<close>

definition workload_ok :: "workload \<Rightarrow> bool" where
  "workload_ok m \<longleftrightarrow> dict_wf m \<and> set (dict_keys m) = set WORKLOAD_KEYS \<and>
     list_all (\<lambda>(key, v). workload_value_is_valid key v) m \<and> cleanup_is_coherent m"

lemma workload_records_wf: "workload_records ls parsed = Some m \<Longrightarrow> dict_wf parsed \<Longrightarrow> dict_wf m"
proof (induction ls parsed rule: workload_records.induct)
  case (2 line rest parsed)
  from 2(2) obtain key v where line: "split_on TAB line = [key, v]" "dict_get parsed key = None" "key \<noteq> []"
    "workload_records rest (parsed @ [(key, v)]) = Some m"
    by (auto split: list.splits if_splits)
  moreover have "dict_wf (parsed @ [(key, v)])" using 2(3) line(2) by (auto simp: dict_wf_def map_of_eq_None_iff)
  ultimately show ?case using 2(1) by auto
qed simp

lemma set_defaults_wf: "dict_wf parsed \<Longrightarrow> dict_wf (fold (\<lambda>(k, v). dict_set k v) ds parsed)"
  by (induction ds arbitrary: parsed) auto

lemma set_defaults_keys:
  "set (dict_keys (fold (\<lambda>(k, v). dict_set k v) ds parsed)) = set (dict_keys parsed) \<union> set (dict_keys ds)"
proof (induction ds arbitrary: parsed)
  case (Cons d ds)
  have "set (dict_keys (dict_set k v parsed)) = insert k (set (dict_keys parsed))" for k v
    by (simp only: dict_keys_set) auto
  then show ?case using Cons [of "dict_set (fst d) (snd d) parsed"] by (cases d) (simp del: set_map)
qed simp

lemma legacy_keys: "set LEGACY_KEYS \<union> set (dict_keys CLEANUP_DEFAULTS) = set WORKLOAD_KEYS"
  and legacy_keys_differ: "set LEGACY_KEYS \<noteq> set WORKLOAD_KEYS"
proof -
  have "list_all (\<lambda>k. k \<in> set WORKLOAD_KEYS) (dict_keys CLEANUP_DEFAULTS)" by code_simp
  then have "set (dict_keys CLEANUP_DEFAULTS) \<subseteq> set WORKLOAD_KEYS" by (simp only: list_all_iff subset_iff) blast
  then show "set LEGACY_KEYS \<union> set (dict_keys CLEANUP_DEFAULTS) = set WORKLOAD_KEYS"
    unfolding LEGACY_KEYS_def by auto
  have "''read_elapsed_time_ms'' \<in> set (dict_keys CLEANUP_DEFAULTS) \<inter> set WORKLOAD_KEYS" by code_simp
  then have "''read_elapsed_time_ms'' \<notin> set LEGACY_KEYS" "''read_elapsed_time_ms'' \<in> set WORKLOAD_KEYS"
    unfolding LEGACY_KEYS_def by auto
  then show "set LEGACY_KEYS \<noteq> set WORKLOAD_KEYS" by blast
qed

lemma with_defaults_ok:
  assumes "with_defaults parsed = Some m" and "dict_wf parsed"
  shows "dict_wf m \<and> set (dict_keys m) = set WORKLOAD_KEYS"
  using assms set_defaults_wf [of parsed] set_defaults_keys [of CLEANUP_DEFAULTS parsed] legacy_keys
  by (auto simp: with_defaults_def split: if_splits)

lemma accepted_workload:
  assumes "parse_workload_text content = Some m"
  shows "workload_ok m"
proof -
  obtain records where records: "workload_records (splitlines content) [] = Some records" "with_defaults records = Some m"
    and checks: "list_all (\<lambda>(key, v). workload_value_is_valid key v) m" "cleanup_is_coherent m"
    using assms by (auto simp: parse_workload_text_def bind_eq_Some_conv split: if_splits)
  have "dict_wf records" using workload_records_wf [OF records(1)] by simp
  then show ?thesis using with_defaults_ok [OF records(2)] checks by (simp add: workload_ok_def)
qed

text \<open>The numbers of a finished cleanup: as many files deleted as expected, and the times add up.\<close>

lemma completed_cleanup:
  assumes "workload_ok m" and "wl_field m ''delete_completion_state'' = ''completed''"
  shows "wl_field m ''delete_expected_files'' = wl_field m ''delete_completed_files''
    \<and> undec (wl_field m ''write_delete_elapsed_time_ms'')
      = undec (wl_field m ''write_elapsed_time_ms'') + undec (wl_field m ''delete_elapsed_time_ms'')"
  using assms by (auto simp: workload_ok_def cleanup_is_coherent_def completed_cleanup_is_coherent_def Let_def split: if_splits)

text \<open>C34. Metadata that the reader accepts has every field exactly once, every value in its domain, and cleanup states that
  agree with their counters: of a finished cleanup, as many files were deleted as expected and the times add up.\<close>

theorem accepted_workload_ok:
  assumes "parse_workload_text content = Some m"
  shows "workload_ok m \<and> (wl_field m ''delete_completion_state'' = ''completed'' \<longrightarrow>
    wl_field m ''delete_expected_files'' = wl_field m ''delete_completed_files''
    \<and> undec (wl_field m ''write_delete_elapsed_time_ms'')
      = undec (wl_field m ''write_elapsed_time_ms'') + undec (wl_field m ''delete_elapsed_time_ms''))"
  using accepted_workload [OF assms] completed_cleanup by blast

subsection \<open>Tables are read back\<close>

definition workload_table :: "workload \<Rightarrow> string" where
  "workload_table m = concat (map (\<lambda>l. l @ [LF]) (map (\<lambda>(k, v). join [TAB] [k, v]) m))"

definition table_row_ok :: "string \<times> string \<Rightarrow> bool" where
  "table_row_ok row \<longleftrightarrow> fst row \<noteq> [] \<and> field_ok (fst row) \<and> field_ok (snd row)"

lemma keys_ok: "key \<in> set WORKLOAD_KEYS \<Longrightarrow> key \<noteq> [] \<and> field_ok key"
proof -
  have "list_all (\<lambda>k. k \<noteq> [] \<and> field_ok k) WORKLOAD_KEYS" by code_simp
  then show "key \<in> set WORKLOAD_KEYS \<Longrightarrow> key \<noteq> [] \<and> field_ok key" by (simp only: list_all_iff) blast
qed

lemma decimal_field_ok: "canonical_decimal v \<Longrightarrow> field_ok v"
  by (auto simp: canonical_decimal_def field_ok_def list_all_iff is_digit_def line_boundary_def)

lemma valid_field_ok: "workload_value_is_valid key v \<Longrightarrow> field_ok v"
proof -
  have "list_all (\<lambda>row. list_all field_ok (snd row)) ENUM_VALUES" by code_simp
  then have enums: "field_ok v" if "dict_get ENUM_VALUES key = Some allowed" "v \<in> set allowed" for allowed
    using that map_of_SomeD [OF that(1)] unfolding list_all_iff by force
  have "field_ok ''null''" "field_ok ''pending''" by code_simp+
  then show "workload_value_is_valid key v \<Longrightarrow> field_ok v"
    using enums decimal_field_ok by (auto simp: workload_value_is_valid_def split: if_splits option.splits)
qed

lemma workload_rows_ok:
  assumes "set (dict_keys m) \<subseteq> set WORKLOAD_KEYS" and "list_all (\<lambda>(key, v). workload_value_is_valid key v) m"
  shows "list_all table_row_ok m"
  unfolding list_all_iff
proof
  fix row assume row: "row \<in> set m"
  then have "fst row \<in> set WORKLOAD_KEYS" using assms(1) by auto
  moreover have "workload_value_is_valid (fst row) (snd row)" using assms(2) row unfolding list_all_iff by auto
  ultimately show "table_row_ok row" using keys_ok valid_field_ok unfolding table_row_ok_def by blast
qed

lemma table_lines: "list_all table_row_ok m \<Longrightarrow> splitlines (workload_table m) = map (\<lambda>(k, v). join [TAB] [k, v]) m"
  unfolding workload_table_def
proof (rule splitlines_lines)
  assume ok: "list_all table_row_ok m"
  show "\<forall>l\<in>set (map (\<lambda>(k, v). join [TAB] [k, v]) m). \<forall>c\<in>set l. \<not> line_boundary c"
  proof (intro ballI)
    fix l c assume "l \<in> set (map (\<lambda>(k, v). join [TAB] [k, v]) m)" and c: "c \<in> set l"
    then obtain k v where "(k, v) \<in> set m" and l: "l = join [TAB] [k, v]" by auto
    then have "\<forall>f\<in>set [k, v]. field_ok f" using ok unfolding list_all_iff table_row_ok_def by auto
    then show "\<not> line_boundary c" using field_ok_join c l by blast
  qed
qed

lemma workload_records_rows:
  assumes "list_all table_row_ok m" and "dict_wf (parsed @ m)"
  shows "workload_records (map (\<lambda>(k, v). join [TAB] [k, v]) m) parsed = Some (parsed @ m)"
  using assms
proof (induction m arbitrary: parsed)
  case (Cons row m)
  obtain k v where row: "row = (k, v)" by (cases row)
  have "split_on TAB (join [TAB] [k, v]) = [k, v]"
    using Cons.prems(1) row by (intro split_fields) (auto simp: table_row_ok_def)
  moreover have "k \<noteq> []" "dict_get parsed k = None"
    using Cons.prems row by (auto simp: table_row_ok_def dict_wf_def map_of_eq_None_iff)
  ultimately show ?case using Cons.IH [of "parsed @ [(k, v)]"] Cons.prems row by simp
qed simp

lemma parse_table:
  assumes "list_all table_row_ok old" and "dict_wf old" and "with_defaults old = Some m" and "workload_ok m"
  shows "parse_workload_text (workload_table old) = Some m"
  using assms workload_records_rows [of old "[]"] by (simp add: parse_workload_text_def table_lines workload_ok_def)

lemma set_fresh:
  "distinct (dict_keys (old @ ds)) \<Longrightarrow> fold (\<lambda>(k, v). dict_set k v) ds old = old @ ds"
proof (induction ds arbitrary: old)
  case (Cons d ds)
  have "dict_set (fst d) (snd d) old = old @ [d]" if "fst d \<notin> set (dict_keys old)" for old
    using that by (induction old) auto
  then show ?case using Cons.IH [of "old @ [d]"] Cons.prems by (cases d) auto
qed simp

text \<open>Metadata written as a table is read back, with the defaults of the cleanup when an older launcher left those
  fields out.\<close>

theorem workload_round_trip:
  assumes "workload_ok m"
  shows "parse_workload_text (workload_table m) = Some m \<and>
    (\<forall>old. m = old @ CLEANUP_DEFAULTS \<longrightarrow> parse_workload_text (workload_table old) = Some m)"
proof (intro conjI allI impI)
  have wf: "dict_wf m" and keys: "set (dict_keys m) = set WORKLOAD_KEYS"
    and valid: "list_all (\<lambda>(key, v). workload_value_is_valid key v) m"
    using assms by (simp_all add: workload_ok_def)
  have rows: "list_all table_row_ok m" using keys valid by (intro workload_rows_ok) auto
  have "with_defaults m = Some m" using keys legacy_keys_differ by (simp add: with_defaults_def)
  then show "parse_workload_text (workload_table m) = Some m" using parse_table rows wf assms by blast
  fix old assume m: "m = old @ CLEANUP_DEFAULTS"
  have "set (dict_keys old) = set WORKLOAD_KEYS - set (dict_keys CLEANUP_DEFAULTS)"
    using wf keys m by (auto simp: dict_wf_def)
  then have "set (dict_keys old) = set LEGACY_KEYS" unfolding LEGACY_KEYS_def by auto
  moreover have "fold (\<lambda>(k, v). dict_set k v) CLEANUP_DEFAULTS old = m"
    using set_fresh wf m by (simp add: dict_wf_def)
  ultimately have "with_defaults old = Some m" by (simp add: with_defaults_def)
  moreover have "list_all table_row_ok old" "dict_wf old" using rows wf m by (simp_all add: dict_wf_def)
  ultimately show "parse_workload_text (workload_table old) = Some m" using parse_table assms by blast
qed

subsection \<open>Metadata of a directory\<close>

definition workloads_ok :: "(io_key_tuple, io_definition \<times> workload) dict \<Rightarrow> bool" where
  "workloads_ok w \<longleftrightarrow> dict_wf w \<and>
     (\<forall>(key, d, m)\<in>set w. workload_ok m \<and> execution_coordinate_key d = key)"

lemma add_workload_ok: "workloads_ok w \<Longrightarrow> (\<And>m. metadata = Some m \<Longrightarrow> workload_ok m) \<Longrightarrow> workloads_ok (add_workload d metadata w)"
  by (auto simp: add_workload_def workloads_ok_def dict_wf_def map_of_eq_None_iff split: option.split)

lemma note_workload_ok:
  assumes "note_workload fs dir i workloads = Inr w" and "workloads_ok workloads"
  shows "workloads_ok w"
proof -
  have "workload_ok m" if "parse_workload_metadata fs p = Inr (Some m)" for p m
    using that accepted_workload by (auto simp: parse_workload_metadata_def or_unreadable_def split: sum.splits py_error.splits)
  then show ?thesis using assms
    by (auto simp: note_workload_def Let_def rbind_eq_Inr split: if_splits intro!: add_workload_ok)
qed

lemma load_workloads_ok:
  assumes "load_execution_workloads fs dir names = Inr w"
  shows "workloads_ok w"
proof -
  have "rfold (note_workload fs dir) ids workloads = Inr w \<Longrightarrow> workloads_ok workloads \<Longrightarrow> workloads_ok w" for ids workloads
    using note_workload_ok by (induction ids arbitrary: workloads) (auto simp: rbind_eq_Inr)
  moreover have "workloads_ok []" by (simp add: workloads_ok_def)
  ultimately show ?thesis using assms unfolding load_execution_workloads_def by blast
qed

text \<open>One table that is not UTF-8 ends the report, although one that cannot be opened is skipped.\<close>

lemma undecodable_workload_raises:
  "fs_read fs p = Inr [CHR 0xFF] \<Longrightarrow> parse_workload_metadata fs p = Inl UnicodeDecodeError"
  by (simp add: parse_workload_metadata_def read_text_def or_unreadable_def)

subsection \<open>The theorems at work\<close>

definition older_workload :: workload where
  "older_workload =
     [(''dataset_count_source'', ''configuration''), (''treefile_source'', ''null''),
      (''treefile_cache_publish_outcome'', ''not_applicable''), (''requested_files_per_node'', ''4''),
      (''effective_files_per_node'', ''4''), (''dataset_files_total'', ''8''), (''dataset_bytes_total'', ''8192''),
      (''reader_nodes'', ''2''), (''reader_threads_per_node'', ''4''), (''reader_iodepth'', ''1''),
      (''files_per_reader_node'', ''4''), (''termination_mode'', ''completion''),
      (''configured_duration_seconds'', ''null''), (''effective_timelimit_seconds'', ''null''),
      (''completion_state'', ''completed''), (''failure_cleanup_state'', ''not_needed''),
      (''write_expected_files'', ''8''), (''write_expected_bytes'', ''8192''), (''write_completed_files'', ''8''),
      (''write_completed_bytes'', ''8192''), (''write_completion_state'', ''completed''),
      (''read_expected_files'', ''8''), (''read_expected_bytes'', ''8192''), (''read_completed_files'', ''8''),
      (''read_completed_bytes'', ''8192''), (''read_completion_state'', ''completed'')]"

lemma older_workload_ok: "workload_ok (older_workload @ CLEANUP_DEFAULTS)"
proof -
  have "list_all (\<lambda>k. k \<in> set (dict_keys (older_workload @ CLEANUP_DEFAULTS))) WORKLOAD_KEYS"
    "list_all (\<lambda>k. k \<in> set WORKLOAD_KEYS) (dict_keys (older_workload @ CLEANUP_DEFAULTS))" by code_simp+
  then have "set (dict_keys (older_workload @ CLEANUP_DEFAULTS)) = set WORKLOAD_KEYS"
    by (simp only: list_all_iff set_eq_iff) blast
  moreover have "dict_wf (older_workload @ CLEANUP_DEFAULTS)" by code_simp
  moreover have "list_all (\<lambda>(key, v). workload_value_is_valid key v) (older_workload @ CLEANUP_DEFAULTS)" by code_simp
  moreover have "cleanup_is_coherent (older_workload @ CLEANUP_DEFAULTS)" by code_simp
  ultimately show ?thesis unfolding workload_ok_def by blast
qed

theorem workload_round_trip_witness:
  "parse_workload_text (workload_table older_workload) = Some (older_workload @ CLEANUP_DEFAULTS)"
  using workload_round_trip [OF older_workload_ok] by blast

theorem accepted_workload_ok_witness:
  "\<exists>m. parse_workload_text (workload_table older_workload) = Some m \<and> workload_ok m"
proof -
  have "parse_workload_text (workload_table older_workload) = Some (older_workload @ CLEANUP_DEFAULTS)" by code_simp
  then show ?thesis using accepted_workload_ok by blast
qed

end
