(* ===== verification/IoCsv.thy ===== *)
theory IoCsv
  imports Workload MdtestResults
begin

section \<open>Rows of a result CSV (utils/extract-elbencho.py)\<close>

text \<open>
  One result pair of the IO benchmark is a CSV file, with or without a header, and an OUT file. Every row of a READ or WRITE
  phase becomes a metric; a run that was resumed has appended rows, of which the latest attempt counts.
  The record holds the fields of the source that come from the pair of files; those that other code derives from them are left out.
\<close>

subsection \<open>Metrics\<close>

record io_metric =
  em_nodes :: nat
  em_io_size :: string
  em_threads :: nat
  em_io_depth :: nat
  em_operation :: string
  em_datestamp :: string
  em_command :: string
  em_file_size_bytes :: int
  em_direct_io :: bool
  em_random_io :: bool
  em_iops :: pyfloat
  em_throughput_mib_s :: pyfloat
  em_throughput_mb_s :: pyfloat
  em_throughput_gbps :: pyfloat
  em_min_lat_sec :: pyfloat
  em_avg_lat_sec :: pyfloat
  em_max_lat_sec :: pyfloat
  em_lat_pct :: "(string, pyfloat) dict"
  em_lat_pct_found :: "string set"
  em_io_duration_sec :: nat
  em_phase_wall_duration_ms :: int
  em_phase_first_duration_ms :: int
  em_iops_first :: "rat option"
  em_throughput_mib_s_first :: "rat option"
  em_time_ms_first :: "int option"
  em_time_ms_last :: "int option"
  em_iops_last :: "rat option"
  em_throughput_mib_s_last :: "rat option"
  em_raw_command :: string
  em_write_only_data_dir :: string
  em_sweep_read_from_path :: string
  em_treescan_size_stats_line :: string
  em_treescan_file_count :: nat
  em_treescan_avg_bytes :: nat
  em_treescan_min_bytes :: nat
  em_treescan_max_bytes :: nat
  em_treescan_first_file_bytes :: nat
  em_histogram :: histogram

subsection \<open>The name of a result\<close>

record benchmark_name =
  bn_io_size :: string
  bn_nodes :: nat
  bn_threads :: nat
  bn_io_depth :: nat
  bn_datestamp :: string

text \<open>The depth is optional, for results of older launchers; the last part also matches before a final line end.\<close>

definition optional_depth :: "string \<Rightarrow> string option \<times> string" where
  "optional_depth s = (case Option.bind (eat ''-d_'' s) (eat_run is_digit) of Some (d, r) \<Rightarrow> (Some d, r) | None \<Rightarrow> (None, s))"

definition parse_benchmark_filename :: "string \<Rightarrow> benchmark_name option" where
  "parse_benchmark_filename name =
     (if startswith name ''elbencho-sweep'' then None
      else
        Option.bind (eat ''elbencho-'' name) (\<lambda>s. Option.bind (eat_run (\<lambda>c. c \<noteq> CHR ''-'') s) (\<lambda>(io_sz, s).
        Option.bind (eat ''-c_'' s) (\<lambda>s. Option.bind (eat_run is_digit s) (\<lambda>(nodes, s).
        Option.bind (eat ''-s_'' s) (\<lambda>s. Option.bind (eat_run is_digit s) (\<lambda>(threads, s).
        let (depth, s) = optional_depth s in
        Option.bind (eat ''_'' s) (\<lambda>s. Option.bind (eat_digits 8 s) (\<lambda>(day, s).
        Option.bind (eat ''Z'' s) (\<lambda>s. Option.bind (eat_digits 6 s) (\<lambda>(time, s).
          if s = [] \<or> s = [LF]
          then Some \<lparr> bn_io_size = io_sz, bn_nodes = undec nodes, bn_threads = undec threads,
                 bn_io_depth = (case depth of None \<Rightarrow> 1 | Some d \<Rightarrow> undec d), bn_datestamp = day @ ''Z'' @ time \<rparr>
          else None)))))))))))"

subsection \<open>Commands\<close>

text \<open>\<^verbatim>\<open>re.search\<close> and \<^verbatim>\<open>re.sub(pattern, "", text)\<close> for a pattern given by what is left after it\<close>

fun first_match :: "(string \<Rightarrow> 'a option) \<Rightarrow> string \<Rightarrow> 'a option" where
  "first_match f [] = f []"
| "first_match f (c # s) = (case f (c # s) of Some x \<Rightarrow> Some x | None \<Rightarrow> first_match f s)"

fun delete_matches :: "(string \<Rightarrow> string option) \<Rightarrow> nat \<Rightarrow> string \<Rightarrow> string" where
  "delete_matches f skip [] = []"
| "delete_matches f (Suc k) (c # s) = delete_matches f k s"
| "delete_matches f 0 (c # s) = (case f (c # s) of
     Some rest \<Rightarrow> delete_matches f (length s - length rest) s | None \<Rightarrow> c # delete_matches f 0 s)"

definition eat_nocase :: "string \<Rightarrow> string \<Rightarrow> string option" where
  "eat_nocase p s = (if startswith (py_lower s) p then Some (drop (length p) s) else None)"

text \<open>\<^verbatim>\<open>\s+\<close>, \<^verbatim>\<open>\d+\<close> and \<^verbatim>\<open>[^"]*"\<close>\<close>

definition eat_spaces :: "string \<Rightarrow> string option" where
  "eat_spaces s = map_option snd (eat_run py_space s)"

definition eat_number :: "string \<Rightarrow> nat option" where
  "eat_number s = map_option (\<lambda>(ds, _). undec ds) (eat_run is_digit s)"

definition eat_quoted_rest :: "string \<Rightarrow> string option" where
  "eat_quoted_rest s = (case dropWhile (\<lambda>c. c \<noteq> dquote) s of [] \<Rightarrow> None | _ # rest \<Rightarrow> Some rest)"

definition timelimit_quoted :: "string \<Rightarrow> nat option" where
  "timelimit_quoted s =
     Option.bind (eat_nocase (''--timelimit'' @ [dquote]) s) (\<lambda>s. Option.bind (eat_spaces s) (\<lambda>s.
     Option.bind (eat [dquote] s) (\<lambda>s. Option.bind (eat_run is_digit s) (\<lambda>(ds, s).
       if startswith s [dquote] then Some (undec ds) else None))))"

definition timelimit_equals :: "string \<Rightarrow> nat option" where
  "timelimit_equals s = Option.bind (eat_nocase ''--timelimit='' s) eat_number"

definition timelimit_spaced :: "string \<Rightarrow> nat option" where
  "timelimit_spaced s = Option.bind (eat_nocase ''--timelimit'' s) (\<lambda>s. Option.bind (eat_spaces s) eat_number)"

definition parse_timelimit_seconds_from_command :: "string \<Rightarrow> nat" where
  "parse_timelimit_seconds_from_command command =
     (if command = [] then 0
      else case first_match timelimit_quoted command of Some n \<Rightarrow> n
        | None \<Rightarrow> (case first_match timelimit_equals command of Some n \<Rightarrow> n
        | None \<Rightarrow> (case first_match timelimit_spaced command of Some n \<Rightarrow> n | None \<Rightarrow> 0)))"

definition hosts_quoted :: "string \<Rightarrow> string option" where
  "hosts_quoted s =
     Option.bind (eat ([dquote] @ ''--hosts'' @ [dquote]) (skip_space s)) (\<lambda>s. Option.bind (eat_spaces s) (\<lambda>s.
     Option.bind (eat [dquote] s) eat_quoted_rest))"

definition hosts_quoted_equals :: "string \<Rightarrow> string option" where
  "hosts_quoted_equals s = Option.bind (eat ([dquote] @ ''--hosts='') (skip_space s)) eat_quoted_rest"

definition hosts_spaced :: "string \<Rightarrow> string option" where
  "hosts_spaced s =
     Option.bind (eat ''--hosts'' (skip_space s)) (\<lambda>s. Option.bind (eat_spaces s) (\<lambda>s.
     map_option snd (eat_run (\<lambda>c. \<not> py_space c) s)))"

definition hosts_equals :: "string \<Rightarrow> string option" where
  "hosts_equals s =
     Option.bind (eat ''--hosts='' (skip_space s)) (\<lambda>s. map_option snd (eat_run (\<lambda>c. \<not> py_space c) s))"

definition strip_hosts_from_command :: "string \<Rightarrow> string" where
  "strip_hosts_from_command command =
     delete_matches hosts_equals 0 (delete_matches hosts_spaced 0
       (delete_matches hosts_quoted_equals 0 (delete_matches hosts_quoted 0 command)))"

subsection \<open>Cells\<close>

text \<open>The sign of a float that is not finite, and \<^verbatim>\<open>int(float(text))\<close>: infinities overflow, \<^verbatim>\<open>nan\<close> is a value error.\<close>

definition nan_text :: "string \<Rightarrow> bool" where
  "nan_text s = (let t = py_strip s in t \<noteq> [] \<and> py_lower (if hd t = CHR ''-'' \<or> hd t = CHR ''+'' then tl t else t) = ''nan'')"

definition positive_float :: "string \<Rightarrow> bool" where
  "positive_float s = (case float_of_text s of
     None \<Rightarrow> False
   | Some (Finite r) \<Rightarrow> r > 0
   | Some Nonfinite \<Rightarrow> \<not> nan_text s \<and> hd (py_strip s) \<noteq> CHR ''-'')"

definition truncated :: "rat \<Rightarrow> int" where
  "truncated r = (if r \<ge> 0 then \<lfloor>r\<rfloor> else - \<lfloor>- r\<rfloor>)"

definition int_of_float :: "string \<Rightarrow> int result" where
  "int_of_float s = (case float_of_text s of
     None \<Rightarrow> Inl (ValueError (''could not convert string to float: '' @ repr_str s))
   | Some (Finite r) \<Rightarrow> Inr (truncated r)
   | Some Nonfinite \<Rightarrow> if nan_text s then Inl (ValueError ''cannot convert float NaN to integer'') else Inl OverflowError)"

definition cell_text :: "csv_row \<Rightarrow> string \<Rightarrow> string" where
  "cell_text row name = (case row_get row name of None \<Rightarrow> [] | Some text \<Rightarrow> text)"

text \<open>A duration counts when it is a positive number; an infinite one raises.\<close>

definition duration_ms :: "string \<Rightarrow> int result" where
  "duration_ms raw =
     (if raw = [] then Inr 0
      else case int_of_float raw of
        Inr n \<Rightarrow> Inr (if n > 0 then n else 0)
      | Inl e \<Rightarrow> if e = OverflowError then Inl e else Inr 0)"

definition phase_wall_duration_ms_from_csv_row :: "csv_row \<Rightarrow> int result" where
  "phase_wall_duration_ms_from_csv_row row = duration_ms (cell_text row ''time ms [last]'')"

definition phase_first_duration_ms_from_csv_row :: "csv_row \<Rightarrow> int result" where
  "phase_first_duration_ms_from_csv_row row = duration_ms (cell_text row ''time ms [first]'')"

definition csv_parse_float_field :: "csv_row \<Rightarrow> string \<Rightarrow> pyfloat" where
  "csv_parse_float_field row key = or_zero (if cell_text row key = [] then None else float_of_text (cell_text row key))"

definition csv_parse_optional_float :: "csv_row \<Rightarrow> string \<Rightarrow> rat option" where
  "csv_parse_optional_float row key =
     (case float_of_text (cell_text row key) of Some (Finite r) \<Rightarrow> Some r | _ \<Rightarrow> None)"

definition csv_parse_optional_ms :: "csv_row \<Rightarrow> string \<Rightarrow> int option" where
  "csv_parse_optional_ms row key =
     (case csv_parse_optional_float row key of Some r \<Rightarrow> if r \<ge> 0 then Some (truncated r) else None | None \<Rightarrow> None)"

definition csv_parse_io_lat_us_to_sec :: "csv_row \<Rightarrow> string \<Rightarrow> pyfloat" where
  "csv_parse_io_lat_us_to_sec row key =
     or_zero (if cell_text row key = [] then None else map_option (divided 1000000) (float_of_text (cell_text row key)))"

definition csv_parse_file_size_bytes :: "csv_row \<Rightarrow> int" where
  "csv_parse_file_size_bytes row = (case py_int (cell_text row ''file size'') of Inr n \<Rightarrow> n | Inl _ \<Rightarrow> 0)"

text \<open>Without the column of direct IO the program ends.\<close>

definition csv_parse_direct_io :: "csv_row \<Rightarrow> bool result" where
  "csv_parse_direct_io row = (case dict_get row ''direct IO'' of
     None \<Rightarrow> Inl (SystemExit 1) | Some cell \<Rightarrow> Inr (cell = Some ''1''))"

definition csv_parse_random_io :: "csv_row \<Rightarrow> bool" where
  "csv_parse_random_io row \<longleftrightarrow> dict_get row ''random'' = Some (Some ''1'')"

definition csv_parse_command :: "csv_row \<Rightarrow> string" where
  "csv_parse_command row = strip_hosts_from_command (cell_text row ''command'')"

definition csv_row_has_numeric_metrics :: "csv_row \<Rightarrow> bool" where
  "csv_row_has_numeric_metrics row \<longleftrightarrow>
     list_ex (\<lambda>key. positive_float (cell_text row key))
       [''IOPS [first]'', ''MiB/s [first]'', ''IO lat us [min]'', ''IO lat us [avg]'', ''IO lat us [max]'']"

definition scaled_float :: "rat \<Rightarrow> pyfloat \<Rightarrow> pyfloat" where
  "scaled_float k x = (case x of Finite r \<Rightarrow> Finite (fl (r * fl k)) | Nonfinite \<Rightarrow> Nonfinite)"

definition normalize_throughput_to_mb :: "pyfloat \<Rightarrow> pyfloat" where
  "normalize_throughput_to_mb x = scaled_float (1048576 / 1000000) x"

definition mib_to_gbps :: "pyfloat \<Rightarrow> pyfloat" where
  "mib_to_gbps x = divided 1000 (scaled_float (8388608 / 1000000) x)"

subsection \<open>One row\<close>

definition metric_of_row :: "benchmark_name \<Rightarrow> csv_row \<Rightarrow> string \<Rightarrow> bool \<Rightarrow> int \<Rightarrow> int \<Rightarrow> io_metric" where
  "metric_of_row name row operation direct wall first =
     (let mib = csv_parse_float_field row ''MiB/s [first]''; command = csv_parse_command row
      in \<lparr> em_nodes = bn_nodes name, em_io_size = bn_io_size name, em_threads = bn_threads name, em_io_depth = bn_io_depth name,
           em_operation = operation, em_datestamp = bn_datestamp name, em_command = command,
           em_file_size_bytes = csv_parse_file_size_bytes row, em_direct_io = direct, em_random_io = csv_parse_random_io row,
           em_iops = csv_parse_float_field row ''IOPS [first]'', em_throughput_mib_s = mib,
           em_throughput_mb_s = normalize_throughput_to_mb mib, em_throughput_gbps = mib_to_gbps mib,
           em_min_lat_sec = csv_parse_io_lat_us_to_sec row ''IO lat us [min]'',
           em_avg_lat_sec = csv_parse_io_lat_us_to_sec row ''IO lat us [avg]'',
           em_max_lat_sec = csv_parse_io_lat_us_to_sec row ''IO lat us [max]'',
           em_lat_pct = [(''1'', Finite 0), (''50'', Finite 0), (''75'', Finite 0), (''99'', Finite 0)], em_lat_pct_found = {},
           em_io_duration_sec = parse_timelimit_seconds_from_command command,
           em_phase_wall_duration_ms = wall, em_phase_first_duration_ms = first,
           em_iops_first = csv_parse_optional_float row ''IOPS [first]'',
           em_throughput_mib_s_first = csv_parse_optional_float row ''MiB/s [first]'',
           em_time_ms_first = csv_parse_optional_ms row ''time ms [first]'',
           em_time_ms_last = csv_parse_optional_ms row ''time ms [last]'',
           em_iops_last = csv_parse_optional_float row ''IOPS [last]'',
           em_throughput_mib_s_last = csv_parse_optional_float row ''MiB/s [last]'',
           em_raw_command = cell_text row ''command'', em_write_only_data_dir = [], em_sweep_read_from_path = [],
           em_treescan_size_stats_line = [], em_treescan_file_count = 0, em_treescan_avg_bytes = 0,
           em_treescan_min_bytes = 0, em_treescan_max_bytes = 0, em_treescan_first_file_bytes = 0, em_histogram = [] \<rparr>)"

definition metric_from_csv_row :: "benchmark_name \<Rightarrow> csv_row \<Rightarrow> io_metric option result" where
  "metric_from_csv_row name row = (case row_get row ''operation'' of
     None \<Rightarrow> Inl AttributeError
   | Some op \<Rightarrow>
     (let operation = upper_ascii op
      in if operation \<noteq> ''READ'' \<and> operation \<noteq> ''WRITE'' then Inr None
         else rbind (csv_parse_direct_io row) (\<lambda>direct.
              rbind (phase_wall_duration_ms_from_csv_row row) (\<lambda>wall.
              rbind (phase_first_duration_ms_from_csv_row row) (\<lambda>first.
              Inr (if csv_row_has_numeric_metrics row then Some (metric_of_row name row operation direct wall first) else None))))))"

subsection \<open>Files without a header\<close>

definition KNOWN_PHASE_OPS :: "string list" where
  "KNOWN_PHASE_OPS = [''READ'', ''WRITE'', ''SYNC'', ''MIGRATE'', ''FSYNC'', ''CREATE'', ''DELETE'', ''STAT'', ''LIST'', ''MKDIR'',
     ''RMDIR'', ''RMFILES'', ''REMOVE'', ''RENAME'', ''SYMLINK'']"

definition OFF_OP_TO_IOPS_FIRST :: nat where "OFF_OP_TO_IOPS_FIRST = 5"
definition OFF_OP_TO_MIBS_FIRST :: nat where "OFF_OP_TO_MIBS_FIRST = 7"
definition OFF_OP_TO_IO_LAT_MIN :: nat where "OFF_OP_TO_IO_LAT_MIN = 18"
definition FILE_SIZE_COLS_BEFORE_OP :: nat where "FILE_SIZE_COLS_BEFORE_OP = 8"

text \<open>\<^verbatim>\<open>^\d{4}-\d{2}-\d{2}T\<close>\<close>

definition iso_date_start :: "string \<Rightarrow> bool" where
  "iso_date_start s \<longleftrightarrow>
     Option.bind (eat_digits 4 s) (\<lambda>(_, s). Option.bind (eat ''-'' s) (\<lambda>s. Option.bind (eat_digits 2 s) (\<lambda>(_, s).
     Option.bind (eat ''-'' s) (\<lambda>s. Option.bind (eat_digits 2 s) (\<lambda>(_, s). eat ''T'' s))))) \<noteq> None"

definition csv_first_line_is_headerless :: "string \<Rightarrow> bool" where
  "csv_first_line_is_headerless line =
     (if py_strip line = [] then False
      else case csv_records line of
        (cell # _) # _ \<Rightarrow> (let first = py_strip cell in first \<noteq> ''ISO date'' \<and> iso_date_start first)
      | _ \<Rightarrow> False)"

definition find_csv_op_index :: "string list \<Rightarrow> nat option" where
  "find_csv_op_index row = find (\<lambda>i. row ! i \<in> set KNOWN_PHASE_OPS) [0..<length row]"

definition contains_text :: "string \<Rightarrow> string \<Rightarrow> bool" where
  "contains_text part s \<longleftrightarrow> first_match (eat part) s \<noteq> None"

definition headerless_row_to_dict :: "string list \<Rightarrow> csv_row option" where
  "headerless_row_to_dict row = (case find_csv_op_index row of
     None \<Rightarrow> None
   | Some op \<Rightarrow>
     (if op < FILE_SIZE_COLS_BEFORE_OP \<or> length row < op + OFF_OP_TO_IO_LAT_MIN + 3 then None
      else let cmd = last row; flag = (\<lambda>b. if b then ''1'' else ''0'')
      in Some (map (\<lambda>(k, v). (k, Some v))
        ([(''operation'', row ! op), (''time ms [first]'', row ! (op + 1)), (''time ms [last]'', row ! (op + 2)),
          (''IOPS [first]'', row ! (op + OFF_OP_TO_IOPS_FIRST)), (''MiB/s [first]'', row ! (op + OFF_OP_TO_MIBS_FIRST)),
          (''IO lat us [min]'', row ! (op + OFF_OP_TO_IO_LAT_MIN)), (''IO lat us [avg]'', row ! (op + OFF_OP_TO_IO_LAT_MIN + 1)),
          (''IO lat us [max]'', row ! (op + OFF_OP_TO_IO_LAT_MIN + 2)), (''direct IO'', flag (contains_text ''--direct'' cmd)),
          (''random'', flag (contains_text ''--rand'' cmd)), (''command'', cmd), (''file size'', row ! (op - FILE_SIZE_COLS_BEFORE_OP))]
         @ (if length row \<ge> op + 9
            then [(''IOPS [last]'', row ! (op + 6)), (''MiB/s [last]'', row ! (op + 8))] else [])))))"

subsection \<open>The file\<close>

text \<open>An exception ends the reading of the rows, but the metrics read before it stay; only the end of the program passes through.\<close>

fun append_metrics :: "benchmark_name \<Rightarrow> csv_row list \<Rightarrow> io_metric list \<Rightarrow> io_metric list result" where
  "append_metrics name [] metrics = Inr metrics"
| "append_metrics name (row # rows) metrics = (case metric_from_csv_row name row of
     Inl (SystemExit n) \<Rightarrow> Inl (SystemExit n)
   | Inl _ \<Rightarrow> Inr metrics
   | Inr None \<Rightarrow> append_metrics name rows metrics
   | Inr (Some m) \<Rightarrow> append_metrics name rows (metrics @ [m]))"

definition csv_file_rows :: "string \<Rightarrow> csv_row list" where
  "csv_file_rows content =
     (let first_line = takeWhile (\<lambda>c. c \<noteq> LF) content @ take 1 (dropWhile (\<lambda>c. c \<noteq> LF) content)
      in if py_strip first_line = [] then []
         else if csv_first_line_is_headerless first_line
           then List.map_filter headerless_row_to_dict (csv_records content)
         else csv_dict_rows content)"

definition operation_rank :: "string \<Rightarrow> nat option" where
  "operation_rank op = (if op = ''WRITE'' then Some 0 else if op = ''READ'' then Some 1 else None)"

definition dedupe_step :: "io_metric \<Rightarrow> io_metric list \<times> int \<Rightarrow> io_metric list \<times> int" where
  "dedupe_step m st = (case st of (latest, last_rank) \<Rightarrow>
     (case operation_rank (upper_ascii (em_operation m)) of
        None \<Rightarrow> st
      | Some rank \<Rightarrow> ((if latest \<noteq> [] \<and> int rank \<le> last_rank then [] else latest) @ [m], int rank)))"

definition dedupe_latest_operation_metrics :: "io_metric list \<Rightarrow> io_metric list" where
  "dedupe_latest_operation_metrics metrics = fst (fold dedupe_step metrics ([], -1))"

text \<open>The reads of a file take over its one size. A file that cannot be read or decoded has no rows.\<close>

definition share_file_size :: "io_metric list \<Rightarrow> io_metric list result" where
  "share_file_size metrics =
     (let sizes = remdups (filter (\<lambda>n. n > 0) (map em_file_size_bytes metrics))
      in if length sizes > 1 then Inl (ValueError ''Multiple non-zero file sizes found in CSV file'')
         else let write_size = (case sizes of [] \<Rightarrow> 0 | n # _ \<Rightarrow> n)
              in Inr (map (\<lambda>m. if em_operation m = ''READ'' \<and> em_file_size_bytes m = 0
                   then m \<lparr> em_file_size_bytes := write_size \<rparr> else m) metrics))"

definition readable_rows :: "string result \<Rightarrow> csv_row list" where
  "readable_rows content = (case content of Inl _ \<Rightarrow> [] | Inr text \<Rightarrow> csv_file_rows text)"

definition parse_elbencho_csv_file :: "string result \<Rightarrow> benchmark_name \<Rightarrow> io_metric list result" where
  "parse_elbencho_csv_file content name =
     rbind (append_metrics name (readable_rows content) []) (\<lambda>metrics.
     rbind (share_file_size metrics) (\<lambda>shared. Inr (dedupe_latest_operation_metrics shared)))"

end
