(* ===== verification/IoOut.thy ===== *)
theory IoOut
  imports IoCsv
begin

section \<open>OUT files of a result (utils/extract-elbencho.py)\<close>

text \<open>
  The OUT file has the percentiles and the histogram of every phase, and lines of the launcher: the duration of the phases,
  where the data is, and the sizes of the files that a tree scan found. A scan may also be in the OUT file of another
  job or in the log of the execution. An exception in the middle leaves the metrics changed so far. Buckets
  that are not finite numbers are left out.
\<close>

subsection \<open>Lines of the launcher\<close>

definition eat_any :: "string list \<Rightarrow> string \<Rightarrow> string option" where
  "eat_any ps s = (case List.map_filter (\<lambda>p. eat p s) ps of [] \<Rightarrow> None | r # _ \<Rightarrow> Some r)"

text \<open>\<^verbatim>\<open>(?:W/R IO Duration|Read IO Duration|Write IO Duration):\s*(\d+)\<close>\<close>

definition io_duration_at :: "string \<Rightarrow> nat option" where
  "io_duration_at s =
     Option.bind (eat_any [''W/R IO Duration:'', ''Read IO Duration:'', ''Write IO Duration:''] s) (\<lambda>s. eat_number (skip_space s))"

definition fill_io_duration :: "string \<Rightarrow> io_metric list \<Rightarrow> io_metric list" where
  "fill_io_duration content metrics = (case first_match io_duration_at content of
     None \<Rightarrow> metrics
   | Some seconds \<Rightarrow> map (\<lambda>m. if em_io_duration_sec m = 0 then m \<lparr> em_io_duration_sec := seconds \<rparr> else m) metrics)"

text \<open>\<^verbatim>\<open>^PREFIX(.+)$\<close> and \<^verbatim>\<open>^PREFIX.*$\<close> in the lines of a text\<close>

definition line_value :: "string \<Rightarrow> string \<Rightarrow> string option" where
  "line_value pre line = (case eat pre line of Some v \<Rightarrow> if v = [] then None else Some v | None \<Rightarrow> None)"

definition line_with :: "string \<Rightarrow> string \<Rightarrow> string option" where
  "line_with pre line = (if startswith line pre then Some line else None)"

text \<open>The white space after \<^verbatim>\<open>Read-from:\<close> may reach into the following lines; when nothing else follows, the value is white space.\<close>

definition read_from_at :: "string \<Rightarrow> string option" where
  "read_from_at s = (case eat ''ELBENCHO_SWEEP_READ_FROM='' s of
     Some r \<Rightarrow> (let v = takeWhile (\<lambda>c. c \<noteq> LF) r in if v = [] then None else Some v)
   | None \<Rightarrow> (case eat ''Read-from:'' s of
       None \<Rightarrow> None
     | Some r \<Rightarrow> (let v = takeWhile (\<lambda>c. c \<noteq> LF) (skip_space r)
         in if v \<noteq> [] then Some v else if list_ex (\<lambda>c. c \<noteq> LF) r then Some '' '' else None)))"

fun search_lines :: "(string \<Rightarrow> 'a option) \<Rightarrow> bool \<Rightarrow> string \<Rightarrow> 'a option" where
  "search_lines f line_start [] = (if line_start then f [] else None)"
| "search_lines f line_start (c # s) = (case (if line_start then f (c # s) else None) of
     Some x \<Rightarrow> Some x | None \<Rightarrow> search_lines f (c = LF) s)"

definition SCAN_SIZES :: string where "SCAN_SIZES = ''Treescan file sizes (bytes):''"
definition SCAN_FIRST :: string where "SCAN_FIRST = ''Treescan first file size (bytes):''"

definition treescan_line :: "string \<Rightarrow> string option" where
  "treescan_line content = map_option py_strip (case first_line (line_with SCAN_SIZES) content of
     Some line \<Rightarrow> Some line | None \<Rightarrow> first_line (line_with SCAN_FIRST) content)"

text \<open>The numbers of a scan: count, average, least and greatest size, or the size of the first file.\<close>

definition scan_numbers :: "string \<Rightarrow> (nat \<times> nat \<times> nat \<times> nat) option" where
  "scan_numbers s =
     Option.bind (eat (SCAN_SIZES @ '' count='') s) (\<lambda>s. Option.bind (eat_run is_digit s) (\<lambda>(n, s).
     Option.bind (eat '' avg='' s) (\<lambda>s. Option.bind (eat_run is_digit s) (\<lambda>(avg, s).
     Option.bind (eat '' min='' s) (\<lambda>s. Option.bind (eat_run is_digit s) (\<lambda>(low, s).
     Option.bind (eat '' max='' s) (\<lambda>s. Option.bind (eat_run is_digit s) (\<lambda>(high, s).
       if skip_space s = [] then Some (undec n, undec avg, undec low, undec high) else None))))))))"

definition scan_first_number :: "string \<Rightarrow> nat option" where
  "scan_first_number s =
     Option.bind (eat (SCAN_FIRST @ '' '') s) (\<lambda>s. Option.bind (eat_run is_digit s) (\<lambda>(n, s).
       if skip_space s = [] then Some (undec n) else None))"

definition apply_treescan_numeric_fields :: "string \<Rightarrow> io_metric \<Rightarrow> io_metric" where
  "apply_treescan_numeric_fields line m = (case scan_numbers (py_strip line) of
     Some (n, avg, low, high) \<Rightarrow>
       m \<lparr> em_treescan_file_count := n, em_treescan_avg_bytes := avg, em_treescan_min_bytes := low, em_treescan_max_bytes := high \<rparr>
   | None \<Rightarrow> (case scan_first_number (py_strip line) of
       Some n \<Rightarrow> m \<lparr> em_treescan_first_file_bytes := n \<rparr> | None \<Rightarrow> m))"

definition apply_scan_line :: "string \<Rightarrow> io_metric \<Rightarrow> io_metric" where
  "apply_scan_line line m = apply_treescan_numeric_fields line (m \<lparr> em_treescan_size_stats_line := line \<rparr>)"

definition apply_sweep_auxiliary_log_lines :: "string \<Rightarrow> io_metric list \<Rightarrow> io_metric list" where
  "apply_sweep_auxiliary_log_lines content metrics =
     (let wo = first_line (line_value ''ELBENCHO_WRITE_ONLY_DATA_DIR='') content;
          rf = search_lines read_from_at True content;
          scan = treescan_line content
      in map (\<lambda>m.
           let m = (case wo of Some v \<Rightarrow> m \<lparr> em_write_only_data_dir := py_strip v \<rparr> | None \<Rightarrow> m);
               m = (case rf of Some v \<Rightarrow> m \<lparr> em_sweep_read_from_path := py_strip v \<rparr> | None \<Rightarrow> m)
           in case scan of Some line \<Rightarrow> apply_scan_line line m | None \<Rightarrow> m) metrics)"

subsection \<open>The section of a phase\<close>

text \<open>The characters up to and including the first three dashes, or all\<close>

fun through_dashes :: "string \<Rightarrow> nat" where
  "through_dashes [] = 0"
| "through_dashes (c # s) = (if startswith (c # s) ''---'' then 3 else Suc (through_dashes s))"

text \<open>\<^verbatim>\<open>OP\s+Elapsed time.*?(?:---|\Z)\<close>: the length of a match\<close>

definition section_at :: "string \<Rightarrow> string \<Rightarrow> nat option" where
  "section_at op s =
     Option.bind (eat op s) (\<lambda>r. Option.bind (eat_spaces r) (\<lambda>r. Option.bind (eat ''Elapsed time'' r) (\<lambda>r.
       Some (length s - length r + through_dashes r))))"

fun all_sections :: "string \<Rightarrow> nat \<Rightarrow> string \<Rightarrow> string list" where
  "all_sections op skip [] = []"
| "all_sections op (Suc k) (c # s) = all_sections op k s"
| "all_sections op 0 (c # s) = (case section_at op (c # s) of
     Some n \<Rightarrow> take n (c # s) # all_sections op (n - 1) s | None \<Rightarrow> all_sections op 0 s)"

definition find_last_operation_section :: "string \<Rightarrow> string \<Rightarrow> string option" where
  "find_last_operation_section content operation =
     (let found = all_sections operation 0 content in if found = [] then None else Some (last found))"

text \<open>\<^verbatim>\<open>NAME\s+:\s+\[ ([^\]]+) \]\<close>: the group ends before the blank and the bracket.\<close>

definition bracketed_at :: "string \<Rightarrow> string \<Rightarrow> string option" where
  "bracketed_at name s =
     Option.bind (eat name s) (\<lambda>s. Option.bind (eat_spaces s) (\<lambda>s. Option.bind (eat '':'' s) (\<lambda>s.
     Option.bind (eat_spaces s) (\<lambda>s. Option.bind (eat ''[ '' s) (\<lambda>s.
       let body = takeWhile (\<lambda>c. c \<noteq> CHR '']'') s
       in if dropWhile (\<lambda>c. c \<noteq> CHR '']'') s \<noteq> [] \<and> length body > 1 \<and> last body = CHR '' '' then Some (butlast body) else None)))))"

text \<open>\<^verbatim>\<open>(?<![0-9])NAME%<=(\d+)\<close>\<close>

fun search_percentile :: "string \<Rightarrow> bool \<Rightarrow> string \<Rightarrow> string option" where
  "search_percentile name after_digit [] = None"
| "search_percentile name after_digit (c # s) =
     (case (if after_digit then None else Option.bind (eat (name @ ''%<='') (c # s)) (eat_run is_digit)) of
        Some (ds, _) \<Rightarrow> Some ds | None \<Rightarrow> search_percentile name (is_digit c) s)"

definition PERCENTILES :: "string list" where "PERCENTILES = [''1'', ''50'', ''75'', ''99'']"

definition microseconds :: "string \<Rightarrow> pyfloat" where
  "microseconds ds = (case float_of_text ds of Some v \<Rightarrow> divided 1000000 v | None \<Rightarrow> Finite 0)"

definition apply_percentiles :: "string \<Rightarrow> io_metric \<Rightarrow> io_metric" where
  "apply_percentiles text m =
     m \<lparr> em_lat_pct := map (\<lambda>name. (name, case search_percentile name False text of Some ds \<Rightarrow> microseconds ds | None \<Rightarrow> Finite 0))
            PERCENTILES,
         em_lat_pct_found := {name \<in> set PERCENTILES. search_percentile name False text \<noteq> None} \<rparr>"

text \<open>One item of a histogram: nothing to add, a bucket with its count, or an exception.\<close>

definition histogram_item :: "string \<Rightarrow> (rat \<times> int) option result" where
  "histogram_item raw =
     (let item = py_strip raw; bucket = py_strip (before (CHR '':'') item); cnt = py_strip (after (CHR '':'') item)
      in if CHR '':'' \<notin> set item \<or> \<not> isdigit cnt then Inr None
         else case float_of_text bucket of
           None \<Rightarrow> Inl (ValueError (''could not convert string to float: '' @ repr_str bucket))
         | Some v \<Rightarrow> rbind (py_int cnt) (\<lambda>n. Inr (case divided 1000000 v of Finite b \<Rightarrow> Some (b, n) | Nonfinite \<Rightarrow> None)))"

text \<open>The histogram so far, and whether the items were read to the end.\<close>

fun apply_histogram_items :: "string list \<Rightarrow> histogram \<Rightarrow> histogram \<times> bool" where
  "apply_histogram_items [] h = (h, True)"
| "apply_histogram_items (item # items) h = (case histogram_item item of
     Inl _ \<Rightarrow> (h, False)
   | Inr None \<Rightarrow> apply_histogram_items items h
   | Inr (Some e) \<Rightarrow> apply_histogram_items items (add_count e h))"

definition apply_out_section :: "string \<Rightarrow> io_metric \<Rightarrow> io_metric \<times> bool" where
  "apply_out_section text m =
     (let m = (case first_match (bracketed_at ''IO lat % us'') text of Some p \<Rightarrow> apply_percentiles p m | None \<Rightarrow> m)
      in case first_match (bracketed_at ''IO lat hist'') text of
           None \<Rightarrow> (m, True)
         | Some items \<Rightarrow> (let (h, ok) = apply_histogram_items (split_on (CHR '','') items) [] in (m \<lparr> em_histogram := h \<rparr>, ok)))"

text \<open>The metrics in their order, until an exception.\<close>

fun apply_out_sections :: "string \<Rightarrow> io_metric list \<Rightarrow> io_metric list" where
  "apply_out_sections content [] = []"
| "apply_out_sections content (m # ms) = (case find_last_operation_section content (em_operation m) of
     None \<Rightarrow> m # apply_out_sections content ms
   | Some text \<Rightarrow> (let (m', ok) = apply_out_section text m in m' # (if ok then apply_out_sections content ms else ms)))"

text \<open>A file that cannot be read or decoded leaves the metrics as they are.\<close>

definition add_elbencho_out_file_metrics :: "string result \<Rightarrow> io_metric list \<Rightarrow> io_metric list" where
  "add_elbencho_out_file_metrics out metrics = (case out of
     Inl _ \<Rightarrow> metrics
   | Inr content \<Rightarrow> apply_out_sections content (apply_sweep_auxiliary_log_lines content (fill_io_duration content metrics)))"

subsection \<open>Scans of other files\<close>

text \<open>The directory of a result: names and texts of its files and of the logs of its executions.\<close>

record result_dir =
  rd_out_names :: "string list"
  rd_log_names :: "string list"
  rd_read_out :: "string \<Rightarrow> string result"
  rd_read_csv :: "string \<Rightarrow> string result"
  rd_read_log :: "string \<Rightarrow> string result"
  rd_exists :: "string \<Rightarrow> bool"

text \<open>\<^verbatim>\<open>^elbencho-(\d{8}Z\d{6})-\d+-\d+-(.+)-\d+\.out$\<close> matched at the start: the last part is the number after the last dash.\<close>

definition eat_datestamp :: "string \<Rightarrow> (string \<times> string) option" where
  "eat_datestamp s =
     Option.bind (eat_digits 8 s) (\<lambda>(day, s). Option.bind (eat ''Z'' s) (\<lambda>s. Option.bind (eat_digits 6 s) (\<lambda>(time, s).
       Some (day @ ''Z'' @ time, s))))"

definition split_last_number :: "string \<Rightarrow> string option" where
  "split_last_number s =
     (let r = rev s; digits = takeWhile is_digit r; rest = dropWhile is_digit r
      in case rest of c # r' \<Rightarrow> if c = CHR ''-'' \<and> digits \<noteq> [] \<and> r' \<noteq> [] \<and> LF \<notin> set r' then Some (rev r') else None
         | [] \<Rightarrow> None)"

definition slurm_job_out :: "string \<Rightarrow> (string \<times> string) option" where
  "slurm_job_out name =
     Option.bind (eat ''elbencho-'' name) (\<lambda>s. Option.bind (eat_datestamp s) (\<lambda>(stamp, s).
     Option.bind (eat ''-'' s) (\<lambda>s. Option.bind (eat_run is_digit s) (\<lambda>(_, s).
     Option.bind (eat ''-'' s) (\<lambda>s. Option.bind (eat_run is_digit s) (\<lambda>(_, s).
     Option.bind (eat ''-'' s) (\<lambda>s.
       let s = (if s \<noteq> [] \<and> last s = LF then butlast s else s)
       in if drop (length s - 4) s = ''.out''
          then map_option (\<lambda>size. (stamp, size)) (split_last_number (take (length s - 4) s)) else None)))))))"

definition out_basename_without_ext :: "string \<Rightarrow> string" where
  "out_basename_without_ext name = (if drop (length name - 4) name = ''.out'' then take (length name - 4) name else name)"

definition treescan_sibling :: "string \<Rightarrow> string \<Rightarrow> string \<Rightarrow> bool" where
  "treescan_sibling target_io target_ds name \<longleftrightarrow>
     (case parse_benchmark_filename (out_basename_without_ext name) of
        Some p \<Rightarrow> bn_io_size p = target_io \<and> bn_datestamp p = target_ds | None \<Rightarrow> False) \<or>
     slurm_job_out name = Some (target_ds, target_io)"

definition treescan_sibling_out_paths :: "string list \<Rightarrow> string \<Rightarrow> string \<Rightarrow> string list" where
  "treescan_sibling_out_paths names target_io target_ds = sort (filter (treescan_sibling target_io target_ds) names)"

text \<open>The scan of one file, when it names the result it is asked for; one that is not UTF-8 is an error.\<close>

definition first_treescan_line :: "string result \<Rightarrow> string \<Rightarrow> string option result" where
  "first_treescan_line out required = or_unreadable out (\<lambda>content.
     if required \<noteq> [] \<and> \<not> contains_text required content then None else treescan_line content)"

fun first_scan :: "(string \<Rightarrow> string result) \<Rightarrow> string \<Rightarrow> string list \<Rightarrow> string option result" where
  "first_scan read required [] = Inr None"
| "first_scan read required (name # names) =
     rbind (first_treescan_line (read name) required) (\<lambda>found. case found of
        Some line \<Rightarrow> Inr (Some line) | None \<Rightarrow> first_scan read required names)"

definition log_identifier :: "string \<Rightarrow> bool" where
  "log_identifier name \<longleftrightarrow> drop (length name - 4) name = ''.log'' \<and> isdigit (take (length name - 4) name)"

definition directory_scan :: "result_dir \<Rightarrow> io_metric \<Rightarrow> string \<Rightarrow> string option result" where
  "directory_scan dir m base =
     (let outs = sort (rd_out_names dir); preferred = treescan_sibling_out_paths outs (em_io_size m) (em_datestamp m)
      in rbind (first_scan (rd_read_out dir) [] preferred) (\<lambda>found. case found of
           Some line \<Rightarrow> Inr (Some line)
         | None \<Rightarrow>
           rbind (if base = [] then Inr None
                  else first_scan (rd_read_log dir) (base @ ''.out'') (filter log_identifier (sort (rd_log_names dir)))) (\<lambda>found.
           case found of
             Some line \<Rightarrow> Inr (Some line)
           | None \<Rightarrow> if preferred = [] then first_scan (rd_read_out dir) [] outs else Inr None)))"

definition apply_treescan_from_directory_scan :: "result_dir \<Rightarrow> io_metric list \<Rightarrow> string \<Rightarrow> io_metric list result" where
  "apply_treescan_from_directory_scan dir metrics base = (case metrics of
     [] \<Rightarrow> Inr []
   | m # _ \<Rightarrow>
     if list_ex (\<lambda>m. em_treescan_avg_bytes m > 0 \<or> em_treescan_first_file_bytes m > 0) metrics then Inr metrics
     else rbind (directory_scan dir m base) (\<lambda>found. Inr (case found of
       Some line \<Rightarrow> map (apply_scan_line line) metrics | None \<Rightarrow> metrics)))"

subsection \<open>A pair of files\<close>

definition parse_elbencho_files :: "result_dir \<Rightarrow> string \<Rightarrow> io_metric list result" where
  "parse_elbencho_files dir base =
     (if \<not> rd_exists dir (base @ ''.out'') \<or> \<not> rd_exists dir (base @ ''.csv'')
      then Inl (OSError (''One or both required files missing: '' @ base @ ''.out or '' @ base @ ''.csv''))
      else case parse_benchmark_filename base of
        None \<Rightarrow> Inl (ValueError (''Cannot parse benchmark parameters from filename: '' @ base))
      | Some name \<Rightarrow> (case parse_elbencho_csv_file (rd_read_csv dir base) name of
          Inl (SystemExit n) \<Rightarrow> Inl (SystemExit n)
        | Inl _ \<Rightarrow> Inr []
        | Inr [] \<Rightarrow> Inr []
        | Inr metrics \<Rightarrow>
            apply_treescan_from_directory_scan dir (add_elbencho_out_file_metrics (rd_read_out dir (base @ ''.out'')) metrics) base))"

definition parse_result_pair :: "result_dir \<Rightarrow> string \<Rightarrow> io_metric list result" where
  "parse_result_pair dir base = (case parse_elbencho_files dir base of
     Inr metrics \<Rightarrow> Inr metrics
   | Inl (SystemExit n) \<Rightarrow> Inl (SystemExit n)
   | Inl _ \<Rightarrow> Inr [])"

end
