(* ===== verification/IoFragment.thy ===== *)
theory IoFragment
  imports IoOut
begin

section \<open>The fragment of an IO directory (utils/extract-elbencho.py)\<close>

text \<open>
  The reporter matches the result pairs of a directory with the definitions of the ledger, parses every pair it needs and describes
  each execution: its coordinates and data set, the phases found, what is missing, and a state. Pairs that
  match no definition are described from their name and the settings. The objects of a live CSV are an argument: they are built by
  \<^verbatim>\<open>lib/elbencho_live_results.py\<close>, of which only the distribution over the phases is here. JSON objects are records.
\<close>

subsection \<open>Filters and the ledger\<close>

record report_filters =
  ft_sizes :: "string set"
  ft_threads :: "nat set"
  ft_nodes :: "nat set"
  ft_iodepths :: "nat set"

text \<open>An empty filter allows everything.\<close>

definition filters_allow :: "report_filters \<Rightarrow> io_key_tuple \<Rightarrow> bool" where
  "filters_allow f key = (case key of (nodes, io_sz, threads, depth) \<Rightarrow>
     (ft_sizes f = {} \<or> io_sz \<in> ft_sizes f) \<and> (ft_threads f = {} \<or> threads \<in> ft_threads f) \<and>
     (ft_nodes f = {} \<or> nodes \<in> ft_nodes f) \<and> (ft_iodepths f = {} \<or> depth \<in> ft_iodepths f))"

type_synonym io_ledger = "(string \<times> io_definition) list"

definition note_definition :: "fs_view \<Rightarrow> path \<Rightarrow> string \<Rightarrow> io_ledger \<Rightarrow> io_ledger result" where
  "note_definition fs dir identifier ledger =
     rbind (read_io_definition fs (dir @ [''executions'', identifier @ ''.sh''])) (\<lambda>found.
       Inr (case found of Some d \<Rightarrow> ledger @ [(identifier, d)] | None \<Rightarrow> ledger))"

definition load_io_ledger :: "fs_view \<Rightarrow> path \<Rightarrow> string list \<Rightarrow> io_ledger result" where
  "load_io_ledger fs dir names = rfold (note_definition fs dir) (List.map_filter ledger_identifier (sort names)) []"

subsection \<open>Matching pairs with definitions\<close>

definition name_key :: "benchmark_name \<Rightarrow> io_key_tuple" where
  "name_key p = (bn_nodes p, bn_io_size p, bn_threads p, bn_io_depth p)"

definition pair_key_from_name :: "string \<Rightarrow> io_key_tuple option" where
  "pair_key_from_name base = map_option name_key (parse_benchmark_filename base)"

definition pair_datestamp :: "string \<Rightarrow> string" where
  "pair_datestamp base = (case parse_benchmark_filename base of Some p \<Rightarrow> bn_datestamp p | None \<Rightarrow> [])"

definition ids_by_key :: "io_ledger \<Rightarrow> (io_key_tuple, string) dict" where
  "ids_by_key ledger = fold (\<lambda>(i, d). dict_set (execution_coordinate_key d) i) ledger []"

definition match_pair ::
  "(io_key_tuple, string) dict \<Rightarrow> string \<Rightarrow> (string, string) dict \<times> string list \<Rightarrow> (string, string) dict \<times> string list" where
  "match_pair by_key base st = (case st of (matched, unmatched) \<Rightarrow>
     (case Option.bind (pair_key_from_name base) (dict_get by_key) of
        None \<Rightarrow> (matched, unmatched @ [base])
      | Some i \<Rightarrow> (dict_set i base matched, case dict_get matched i of Some old \<Rightarrow> unmatched @ [old] | None \<Rightarrow> unmatched)))"

definition match_pairs :: "io_ledger \<Rightarrow> string list \<Rightarrow> (string, string) dict \<times> string list" where
  "match_pairs ledger pairs =
     (let (matched, unmatched) = fold (match_pair (ids_by_key ledger)) (sort_key (\<lambda>b. (pair_datestamp b, b)) pairs) ([], [])
      in (matched, sort unmatched))"

subsection \<open>The plan\<close>

record planned_execution =
  pe_ledger :: "(string \<times> io_definition) option"
  pe_base :: "string option"
  pe_metadata :: "workload option"

definition plan_item ::
  "report_filters \<Rightarrow> (io_key_tuple, io_definition \<times> workload) dict \<Rightarrow> (string, string) dict \<Rightarrow> string \<times> io_definition
     \<Rightarrow> planned_execution" where
  "plan_item f workloads matched item =
     (let key = execution_coordinate_key (snd item)
      in \<lparr> pe_ledger = Some item, pe_base = (if filters_allow f key then dict_get matched (fst item) else None),
           pe_metadata = map_option snd (dict_get workloads key) \<rparr>)"

definition plan_unmatched :: "report_filters \<Rightarrow> io_ledger \<Rightarrow> string \<Rightarrow> bool" where
  "plan_unmatched f ledger base =
     (case pair_key_from_name base of None \<Rightarrow> False | Some key \<Rightarrow> ledger = [] \<or> filters_allow f key)"

definition io_plan_of ::
  "report_filters \<Rightarrow> io_ledger \<Rightarrow> (io_key_tuple, io_definition \<times> workload) dict \<Rightarrow> string list \<Rightarrow> planned_execution list" where
  "io_plan_of f ledger workloads bases =
     (let (matched, unmatched) = match_pairs ledger bases
      in map (plan_item f workloads matched) ledger
         @ map (\<lambda>base. \<lparr> pe_ledger = None, pe_base = Some base, pe_metadata = None \<rparr>) (filter (plan_unmatched f ledger) unmatched))"

definition plan_io_executions ::
  "fs_view \<Rightarrow> path \<Rightarrow> string list \<Rightarrow> report_filters \<Rightarrow> string list \<Rightarrow> planned_execution list result" where
  "plan_io_executions fs dir names f bases =
     rbind (load_io_ledger fs dir names) (\<lambda>ledger.
     rbind (load_execution_workloads fs dir names) (\<lambda>workloads. Inr (io_plan_of f ledger workloads bases)))"

subsection \<open>Numbers of the metadata\<close>

definition workload_int :: "workload option \<Rightarrow> string \<Rightarrow> nat option" where
  "workload_int metadata key =
     (let v = (case metadata of None \<Rightarrow> ''null'' | Some m \<Rightarrow> (case dict_get m key of None \<Rightarrow> ''null'' | Some v \<Rightarrow> v))
      in if canonical_decimal v then Some (undec v) else None)"

definition workload_enum :: "workload option \<Rightarrow> string \<Rightarrow> string option" where
  "workload_enum metadata key = (case metadata of
     None \<Rightarrow> None
   | Some m \<Rightarrow> (let v = (case dict_get m key of None \<Rightarrow> ''null'' | Some v \<Rightarrow> v) in if v = ''null'' then None else Some v))"

record dataset_object =
  ds_source :: string
  ds_read_from :: "string option"
  ds_kubernetes_mapped_read_from :: "string option"
  ds_write_only_data_dir :: "string option"
  ds_layout :: "string option"
  ds_files_total :: "nat option"
  ds_bytes_total :: "nat option"
  ds_treefile_source :: "string option"
  ds_scanned_file_sizes :: "(nat \<times> nat \<times> nat \<times> nat) option"
  ds_first_file_bytes :: "nat option"
  ds_count_source :: "string option"
  ds_files_per_node :: "(nat option \<times> nat option) option"
  ds_reader :: "(nat option \<times> nat option \<times> nat option) option"

definition some_text :: "string \<Rightarrow> string option" where
  "some_text s = (if s = [] then None else Some s)"

definition scanned_file_sizes :: "io_metric option \<Rightarrow> (nat \<times> nat \<times> nat \<times> nat) option" where
  "scanned_file_sizes metric = (case metric of
     None \<Rightarrow> None
   | Some m \<Rightarrow> if em_treescan_file_count m = 0 then None
       else Some (em_treescan_file_count m, em_treescan_avg_bytes m, em_treescan_min_bytes m, em_treescan_max_bytes m))"

definition first_of_list :: "'a list \<Rightarrow> 'a option" where
  "first_of_list xs = (case xs of [] \<Rightarrow> None | x # _ \<Rightarrow> Some x)"

definition dataset_object_of :: "io_definition \<Rightarrow> settings \<Rightarrow> workload option \<Rightarrow> io_metric list \<Rightarrow> dataset_object" where
  "dataset_object_of d env metadata metrics =
     (let mapped = val_get env ''KUBECTL_MAPPED_READ_FROM'';
          layout = (case metadata of None \<Rightarrow> io_configured_layout d | Some m \<Rightarrow> execution_workload_layout d m)
      in \<lparr> ds_source = (if phase_plan (io_exports d) = PLAN_READ_FROM then ''read_from'' else ''generated''),
           ds_read_from = Option.bind (dict_get (io_exports d) ENV_SWEEP_READ_FROM) some_text,
           ds_kubernetes_mapped_read_from = (if truthy mapped then Some (py_str mapped) else None),
           ds_write_only_data_dir = first_of_list (filter (\<lambda>v. v \<noteq> []) (map em_write_only_data_dir metrics)),
           ds_layout = some_text layout,
           ds_files_total = workload_int metadata ''dataset_files_total'',
           ds_bytes_total = workload_int metadata ''dataset_bytes_total'',
           ds_treefile_source = workload_enum metadata ''treefile_source'',
           ds_scanned_file_sizes = scanned_file_sizes (case filter (\<lambda>m. em_treescan_file_count m > 0) metrics of
              m # _ \<Rightarrow> Some m | [] \<Rightarrow> first_of_list metrics),
           ds_first_file_bytes = first_of_list (filter (\<lambda>n. n \<noteq> 0) (map em_treescan_first_file_bytes metrics)),
           ds_count_source = workload_enum metadata ''dataset_count_source'',
           ds_files_per_node = (if metadata = None then None
              else Some (workload_int metadata ''requested_files_per_node'', workload_int metadata ''effective_files_per_node'')),
           ds_reader = (if metadata = None then None
              else Some (workload_int metadata ''reader_nodes'', workload_int metadata ''reader_threads_per_node'',
                workload_int metadata ''reader_iodepth'')) \<rparr>)"

subsection \<open>Live objects\<close>

record live_item =
  li_phase :: string
  li_mix_type :: string
  li_occurrence :: nat
  li_additional :: "nat option"
  li_rest :: pyval

record live_objects =
  lo_by_phase :: "(string, live_item) dict"
  lo_later :: "live_item list"

text \<open>The objects of the phases found, and every other one in the order of the domains.\<close>

definition count_later :: "live_objects \<Rightarrow> string \<Rightarrow> nat" where
  "count_later objects phase = count_list (map li_phase (lo_later objects)) phase"

definition split_live :: "string list \<Rightarrow> live_objects \<Rightarrow> (string, live_item) dict \<times> live_item list" where
  "split_live attached objects =
     (map (\<lambda>(phase, live). (phase, if count_later objects phase > 0 then live \<lparr> li_additional := Some (count_later objects phase) \<rparr> else live))
        (filter (\<lambda>(phase, _). phase \<in> set attached) (lo_by_phase objects)),
      sort_key (\<lambda>live. (li_phase live, li_mix_type live, li_occurrence live))
        (lo_later objects @ map snd (filter (\<lambda>(phase, _). phase \<notin> set attached) (lo_by_phase objects))))"

record live_request =
  lr_level_none :: bool
  lr_build :: "string \<Rightarrow> io_metric list \<Rightarrow> string option \<Rightarrow> string + live_objects"

definition no_live :: live_objects where
  "no_live = \<lparr> lo_by_phase = [], lo_later = [] \<rparr>"

definition live_objects_of ::
  "live_request \<Rightarrow> result_dir \<Rightarrow> string \<Rightarrow> io_metric list \<Rightarrow> string option \<Rightarrow> live_objects \<times> string \<times> doc_problem list" where
  "live_objects_of live dir base metrics ex_id =
     (if lr_level_none live then (no_live, ''not_requested'', [])
      else if \<not> rd_exists dir (base @ ''.live.csv'') then (no_live, ''not_captured'', [])
      else case lr_build live base metrics ex_id of
        Inl detail \<Rightarrow> (no_live, ''unreadable'', [(''live_csv_unreadable'', ''live CSV could not be analyzed: '' @ detail, None)])
      | Inr objects \<Rightarrow> (objects, ''not_captured'', []))"

subsection \<open>Phases\<close>

record rate_object =
  ro_ops_per_s :: "rat option"
  ro_bytes_per_s :: "int option"
  ro_elapsed_ms :: "int option"

definition mib_s_to_bytes_per_s :: "rat option \<Rightarrow> int option" where
  "mib_s_to_bytes_per_s mib = map_option (\<lambda>v. py_round (fl (v * 1048576))) mib"

definition rate_object_of :: "rat option \<Rightarrow> rat option \<Rightarrow> int option \<Rightarrow> rate_object" where
  "rate_object_of ops mib elapsed =
     \<lparr> ro_ops_per_s = map_option round_ops ops, ro_bytes_per_s = mib_s_to_bytes_per_s mib, ro_elapsed_ms = elapsed \<rparr>"

type_synonym phase_work = "nat option \<times> nat option \<times> nat option \<times> nat option"

definition phase_work_of :: "workload option \<Rightarrow> string \<Rightarrow> phase_work option" where
  "phase_work_of metadata phase = (if metadata = None then None
     else Some (workload_int metadata (phase @ ''_expected_files''), workload_int metadata (phase @ ''_completed_files''),
       workload_int metadata (phase @ ''_expected_bytes''), workload_int metadata (phase @ ''_completed_bytes'')))"

text \<open>The phase of a deletion has no rates, latencies and command.\<close>

record io_phase =
  ph_phase :: string
  ph_completion_state :: "string option"
  ph_first :: "rate_object option"
  ph_last :: "rate_object option"
  ph_latency_us :: "(string \<times> rat option) list"
  ph_histogram_us :: "columnar option"
  ph_work :: "phase_work option"
  ph_file_size_bytes :: "int option"
  ph_time_limit_s :: "nat option"
  ph_command :: "string list option"
  ph_elapsed_ms :: "nat option"
  ph_live :: "(string + live_item) option"

definition latency_object :: "io_metric \<Rightarrow> (string \<times> rat option) list" where
  "latency_object m =
     [(''min'', seconds_to_us (em_min_lat_sec m)), (''avg'', seconds_to_us (em_avg_lat_sec m)), (''max'', seconds_to_us (em_max_lat_sec m))]
     @ map (\<lambda>name. (''p'' @ name, if name \<in> em_lat_pct_found m
          then (case dict_get (em_lat_pct m) name of None \<Rightarrow> None | Some v \<Rightarrow> seconds_to_us v) else None)) PERCENTILES"

definition operation_phase :: "io_metric \<Rightarrow> string" where
  "operation_phase m = py_lower (em_operation m)"

definition metric_phase :: "workload option \<Rightarrow> io_metric \<Rightarrow> io_phase" where
  "metric_phase metadata m =
     (let phase = operation_phase m; command = (if em_raw_command m = [] then em_command m else em_raw_command m)
      in \<lparr> ph_phase = phase, ph_completion_state = workload_enum metadata (phase @ ''_completion_state''),
           ph_first = Some (rate_object_of (em_iops_first m) (em_throughput_mib_s_first m) (em_time_ms_first m)),
           ph_last = Some (rate_object_of (em_iops_last m) (em_throughput_mib_s_last m) (em_time_ms_last m)),
           ph_latency_us = latency_object m,
           ph_histogram_us = Some (histogram_columnar (map (\<lambda>(b, n). (fl (b * 1000000), n)) (em_histogram m))),
           ph_work = phase_work_of metadata phase,
           ph_file_size_bytes = (if em_file_size_bytes m = 0 then None else Some (em_file_size_bytes m)),
           ph_time_limit_s = (if em_io_duration_sec m = 0 then None else Some (em_io_duration_sec m)),
           ph_command = (case command_argv (Some command) of Inr argv \<Rightarrow> Some argv | Inl _ \<Rightarrow> None),
           ph_elapsed_ms = None, ph_live = None \<rparr>)"

definition PHASE_DELETE :: string where "PHASE_DELETE = ''delete''"

definition delete_phase :: "workload option \<Rightarrow> io_phase" where
  "delete_phase metadata =
     \<lparr> ph_phase = PHASE_DELETE, ph_completion_state = workload_enum metadata ''delete_completion_state'', ph_first = None, ph_last = None,
       ph_latency_us = [], ph_histogram_us = None,
       ph_work = Some (workload_int metadata ''delete_expected_files'', workload_int metadata ''delete_completed_files'', None, None),
       ph_file_size_bytes = None, ph_time_limit_s = None, ph_command = None,
       ph_elapsed_ms = workload_int metadata ''delete_elapsed_time_ms'', ph_live = None \<rparr>"

definition expected_phases :: "string \<Rightarrow> workload option \<Rightarrow> string list" where
  "expected_phases plan metadata =
     filter (plan_runs_phase plan) [PHASE_WRITE, PHASE_READ]
     @ (case metadata of None \<Rightarrow> []
        | Some m \<Rightarrow> if (case dict_get m ''delete_completion_state'' of None \<Rightarrow> ''not_applicable'' | Some v \<Rightarrow> v) \<noteq> ''not_applicable''
            then [PHASE_DELETE] else [])"

subsection \<open>Problems\<close>

definition rate_problems :: "io_phase \<Rightarrow> doc_problem list" where
  "rate_problems entry = (case ph_first entry of
     None \<Rightarrow> []
   | Some first \<Rightarrow>
     (let missing = (if ro_ops_per_s first = None then [''ops_per_s''] else []) @ (if ro_bytes_per_s first = None then [''bytes_per_s''] else [])
      in if missing = [] then []
         else [(''rates_missing'', ''elbencho_first rates missing from the CSV: '' @ join '', '' missing, Some (ph_phase entry))]))"

definition missing_percentiles :: "io_phase \<Rightarrow> string list" where
  "missing_percentiles entry = map fst (filter (\<lambda>(label, v). startswith label ''p'' \<and> v = None) (ph_latency_us entry))"

definition entry_problems :: "io_phase \<Rightarrow> doc_problem list" where
  "entry_problems entry =
     (if ph_completion_state entry = Some ''incomplete''
      then [(''completion_incomplete'', ph_phase entry @ '' phase did not complete all work'', Some (ph_phase entry))] else [])
     @ rate_problems entry
     @ (if missing_percentiles entry = [] then []
        else [(''percentiles_missing'', ''latency percentiles not found in the .out file: '' @ join '', '' (missing_percentiles entry),
          Some (ph_phase entry))])"

definition phase_problems :: "string \<Rightarrow> workload option \<Rightarrow> io_phase list \<Rightarrow> doc_problem list" where
  "phase_problems plan metadata phases =
     map (\<lambda>phase. (''phase_missing'', phase @ '' phase expected by phase plan '' @ plan @ '' has no result'', Some phase))
       (filter (\<lambda>phase. phase \<notin> set (map ph_phase phases)) (expected_phases plan metadata))
     @ concat (map entry_problems phases)"

definition GATING :: "string list" where
  "GATING = [''phase_missing'', ''completion_incomplete'', ''percentiles_missing'', ''rates_missing'']"

definition entry_state :: "doc_problem list \<Rightarrow> string" where
  "entry_state problems = (if list_ex (\<lambda>p. fst p \<in> set GATING) problems then ''partial'' else ''complete'')"

subsection \<open>Entries\<close>

record workload_object =
  wo_termination_mode :: "string option"
  wo_completion_state :: "string option"
  wo_failure_cleanup_state :: "string option"
  wo_lifecycle_elapsed_ms :: "nat option"
  wo_write_elapsed_ms :: "nat option"
  wo_read_elapsed_ms :: "nat option"
  wo_write_delete_elapsed_ms :: "nat option"

definition workload_object_of :: "workload option \<Rightarrow> workload_object option" where
  "workload_object_of metadata = (if metadata = None then None
     else Some \<lparr> wo_termination_mode = workload_enum metadata ''termination_mode'',
       wo_completion_state = workload_enum metadata ''completion_state'',
       wo_failure_cleanup_state = workload_enum metadata ''failure_cleanup_state'',
       wo_lifecycle_elapsed_ms = workload_int metadata ''lifecycle_elapsed_time_ms'',
       wo_write_elapsed_ms = workload_int metadata ''write_elapsed_time_ms'',
       wo_read_elapsed_ms = workload_int metadata ''read_elapsed_time_ms'',
       wo_write_delete_elapsed_ms = workload_int metadata ''write_delete_elapsed_time_ms'' \<rparr>)"

record io_results =
  ir_datestamp :: "string option"
  ir_phases :: "io_phase list"
  ir_additional_live_domains :: "live_item list"
  ir_workload :: "workload_object option"

text \<open>The phases in their order, \<^verbatim>\<open>PHASE_ORDER.index\<close>\<close>

definition phase_index :: "string \<Rightarrow> nat" where
  "phase_index phase = (if phase = PHASE_WRITE then 0 else if phase = PHASE_READ then 1 else 2)"

definition attach_live :: "(string, live_item) dict \<Rightarrow> string \<Rightarrow> io_phase \<Rightarrow> io_phase" where
  "attach_live attached reason entry =
     entry \<lparr> ph_live := Some (case dict_get attached (ph_phase entry) of Some live \<Rightarrow> Inr live | None \<Rightarrow> Inl reason) \<rparr>"

definition results_object ::
  "result_dir \<Rightarrow> live_request \<Rightarrow> string option \<Rightarrow> io_definition \<Rightarrow> string \<Rightarrow> io_metric list \<Rightarrow> workload option
     \<Rightarrow> io_results \<times> doc_problem list" where
  "results_object dir live ex_id d base metrics metadata =
     (let (objects, reason, live_problems) = live_objects_of live dir base metrics ex_id;
          phases = map (metric_phase metadata) (sort_key (phase_index \<circ> operation_phase) metrics);
          (attached, additional) = split_live (map ph_phase phases) objects;
          plan = phase_plan (io_exports d);
          all_phases = map (attach_live attached reason) phases
            @ (if PHASE_DELETE \<in> set (expected_phases plan metadata) then [delete_phase metadata] else [])
      in (\<lparr> ir_datestamp = some_text (pair_datestamp base), ir_phases = all_phases, ir_additional_live_domains = additional,
            ir_workload = workload_object_of metadata \<rparr>,
          phase_problems plan metadata all_phases @ live_problems))"

record io_entry =
  oe_execution_id :: "string option"
  oe_coordinates :: io_coords
  oe_coordinate_key :: string
  oe_dataset :: dataset_object
  oe_producer_version :: "string option"
  oe_result_state :: string
  oe_problems :: "doc_problem list"
  oe_result_files :: "file_record list"
  oe_results :: "io_results option"

text \<open>What is read beside the texts of a directory: digests, versions, the live CSV files.\<close>

record io_input =
  ii_dir :: result_dir
  ii_env :: settings
  ii_filters :: report_filters
  ii_live :: live_request
  ii_digest :: "string \<Rightarrow> string \<times> nat"
  ii_version :: "string \<Rightarrow> string option"

definition RESULT_EXTENSIONS :: "string list" where
  "RESULT_EXTENSIONS = [''.csv'', ''.out'', ''.out'' @ VERSION_SUFFIX, ''.live.csv'']"

definition io_result_files :: "io_input \<Rightarrow> string \<Rightarrow> file_record list" where
  "io_result_files input base =
     sort_key fr_path (map (\<lambda>name. case ii_digest input name of (digest, bytes) \<Rightarrow>
         \<lparr> fr_path = name, fr_sha256 = digest, fr_size_bytes = bytes \<rparr>)
       (filter (rd_exists (ii_dir input)) (map (\<lambda>ext. base @ ext) RESULT_EXTENSIONS)))"

definition io_execution_entry ::
  "io_input \<Rightarrow> string option \<Rightarrow> io_definition \<Rightarrow> (string \<times> io_metric list) option \<Rightarrow> workload option \<Rightarrow> io_entry" where
  "io_execution_entry input ex_id d pair metadata =
     (let (coordinates, key) = io_coordinates d;
          (base, metrics) = (case pair of None \<Rightarrow> ([], []) | Some p \<Rightarrow> p);
          entry = \<lparr> oe_execution_id = ex_id, oe_coordinates = coordinates, oe_coordinate_key = key,
            oe_dataset = dataset_object_of d (ii_env input) metadata metrics, oe_producer_version = None, oe_result_state = ''missing'',
            oe_problems = [], oe_result_files = [], oe_results = None \<rparr>
      in if \<not> filters_allow (ii_filters input) (execution_coordinate_key d) then entry \<lparr> oe_result_state := ''not_reported'' \<rparr>
         else if pair = None then entry
         else if metrics = [] then entry \<lparr> oe_result_files := io_result_files input base, oe_result_state := ''unparseable'',
           oe_problems := [(''phase_unparseable'', ''result files exist but no phase could be parsed'', None)] \<rparr>
         else (let (results, problems) = results_object (ii_dir input) (ii_live input) ex_id d base metrics metadata
           in entry \<lparr> oe_result_files := io_result_files input base, oe_producer_version := ii_version input (base @ ''.out''),
                oe_results := Some results, oe_problems := problems, oe_result_state := entry_state problems \<rparr>))"

subsection \<open>Pairs without a definition\<close>

definition LEDGER_FLAGS :: "(string \<times> string) list" where
  "LEDGER_FLAGS = [(''ELBENCHO_SINGLE_BIG_FILE'', ''ELBENCHO_SINGLE_BIG_FILE''),
     (''ELBENCHO_ALL_NODES_ACCESS_ALL_DATA'', ''ELBENCHO_ALL_NODES_ACCESS_ALL_DATA''), (''run_to_completion_option'', ''run_to_completion'')]"

definition synthetic_exports :: "io_metric list \<Rightarrow> settings \<Rightarrow> (string, string) dict" where
  "synthetic_exports metrics env =
     (let operations = set (map (upper_ascii \<circ> em_operation) metrics);
          flags = map (\<lambda>(_, export). (export, ''1'')) (filter (\<lambda>(setting, _). py_str (val_get env setting) = ''1'') LEDGER_FLAGS);
          direct = (case metrics of [] \<Rightarrow> ''dio'' | m # _ \<Rightarrow> if em_direct_io m then ''dio'' else ''bio'');
          read_from = (case filter (\<lambda>v. v \<noteq> []) (map em_sweep_read_from_path metrics) of
             v # _ \<Rightarrow> PStr v | [] \<Rightarrow> val_get env ''sweep_read_from'')
      in flags @ [(''dio_or_bio'', direct)]
         @ (if operations = {''WRITE''} then [(''ELBENCHO_SWEEP_WRITE_ONLY'', ''1'')] else [])
         @ (if metrics \<noteq> [] \<and> list_all em_random_io metrics then [(''use_random'', ''1'')] else [])
         @ (if operations = {''READ''} then [(ENV_SWEEP_READ_FROM, if truthy read_from then py_str read_from else ''unknown'')] else []))"

definition synthetic_ledger :: "string \<Rightarrow> io_metric list \<Rightarrow> settings \<Rightarrow> io_definition option" where
  "synthetic_ledger base metrics env = map_option (\<lambda>p.
     let layout = val_get env ''ELBENCHO_FILE_LAYOUT''
     in \<lparr> io_nodes = bn_nodes p, io_size = bn_io_size p, io_threads = bn_threads p, io_depth = bn_io_depth p,
          io_configured_layout = (if truthy layout then py_str layout else []), io_exports = synthetic_exports metrics env \<rparr>)
     (parse_benchmark_filename base)"

subsection \<open>The fragment\<close>

definition execution_task :: "io_input \<Rightarrow> planned_execution \<Rightarrow> io_entry option result" where
  "execution_task input planned =
     rbind (case pe_base planned of None \<Rightarrow> Inr [] | Some base \<Rightarrow> parse_result_pair (ii_dir input) base) (\<lambda>metrics.
       let pair = map_option (\<lambda>base. (base, metrics)) (pe_base planned)
       in Inr (case pe_ledger planned of
            Some (i, d) \<Rightarrow> Some (io_execution_entry input (Some i) d pair (pe_metadata planned))
          | None \<Rightarrow> map_option (\<lambda>d. io_execution_entry input None d pair (pe_metadata planned))
              (synthetic_ledger (case pe_base planned of None \<Rightarrow> [] | Some base \<Rightarrow> base) metrics (ii_env input))))"

definition build_io_entries ::
  "fs_view \<Rightarrow> path \<Rightarrow> string list \<Rightarrow> io_input \<Rightarrow> string list \<Rightarrow> io_entry list result" where
  "build_io_entries fs dir names input bases =
     rbind (plan_io_executions fs dir names (ii_filters input) bases) (\<lambda>planned.
     rbind (traverse (execution_task input) planned) (\<lambda>entries. Inr (List.map_filter id entries)))"

text \<open>Live CSV files without a pair, of the executions that are reported\<close>

definition unpaired_live_path :: "report_filters \<Rightarrow> string list \<Rightarrow> string \<Rightarrow> bool" where
  "unpaired_live_path f bases name =
     (let base = take (length name - 9) name
      in drop (length name - 9) name = ''.live.csv'' \<and> base \<notin> set bases \<and>
         (case pair_key_from_name base of None \<Rightarrow> False | Some key \<Rightarrow> filters_allow f key))"

definition unpaired_live_paths :: "report_filters \<Rightarrow> string list \<Rightarrow> string list \<Rightarrow> string list" where
  "unpaired_live_paths f bases names = filter (unpaired_live_path f bases) (sort names)"

text \<open>The pairs of a directory: every CSV or OUT file with the name of a result\<close>

definition result_base :: "string \<Rightarrow> string option" where
  "result_base name =
     (let ext = drop (length name - 4) name; base = take (length name - 4) name
      in if (ext = ''.csv'' \<or> ext = ''.out'') \<and> parse_benchmark_filename base \<noteq> None then Some base else None)"

definition discover_result_bases :: "string list \<Rightarrow> string list" where
  "discover_result_bases names = sort (remdups (List.map_filter result_base names))"

end
