(* ===== verification/IoReports.thy ===== *)
theory IoReports
  imports IoFragment "HOL-Library.Sublist"
begin

section \<open>What the IO reporter promises\<close>

text \<open>
  The metrics of a pair are one latest attempt, at most one phase each; every result pair is planned exactly once and
  an execution gets its newest pair; and an entry is complete exactly when every phase of its plan is there with rates, percentiles
  and finished work.
\<close>

subsection \<open>The latest attempt\<close>

definition metric_rank :: "io_metric \<Rightarrow> nat option" where
  "metric_rank m = operation_rank (upper_ascii (em_operation m))"

definition known_metrics :: "io_metric list \<Rightarrow> io_metric list" where
  "known_metrics ms = filter (\<lambda>m. metric_rank m \<noteq> None) ms"

definition rank_of :: "io_metric \<Rightarrow> nat" where
  "rank_of m = the (metric_rank m)"

text \<open>The longest suffix of the known metrics in which every phase comes after the one before it.\<close>

definition latest_attempt :: "io_metric list \<Rightarrow> io_metric list \<Rightarrow> bool" where
  "latest_attempt ms latest \<longleftrightarrow>
     (\<exists>older. known_metrics ms = older @ latest \<and> (latest = [] \<longrightarrow> older = []) \<and>
        sorted_wrt (<) (map rank_of latest) \<and> (older \<noteq> [] \<longrightarrow> \<not> rank_of (last older) < rank_of (hd latest)))"

lemma dedupe_invariant:
  "case fold dedupe_step ms ([], -1) of (latest, last_rank) \<Rightarrow>
     latest_attempt ms latest \<and> (latest \<noteq> [] \<longrightarrow> last_rank = int (rank_of (last latest)))"
proof (induction ms rule: rev_induct)
  case Nil
  then show ?case by (simp add: latest_attempt_def known_metrics_def)
next
  case (snoc m ms)
  obtain latest lr where st: "fold dedupe_step ms ([], -1) = (latest, lr)" by force
  have IH: "latest_attempt ms latest" "latest \<noteq> [] \<Longrightarrow> lr = int (rank_of (last latest))" using snoc st by simp_all
  show ?case
  proof (cases "metric_rank m")
    case None
    then have "dedupe_step m (latest, lr) = (latest, lr)" "known_metrics (ms @ [m]) = known_metrics ms"
      by (simp_all add: dedupe_step_def metric_rank_def known_metrics_def)
    then show ?thesis using st IH by (simp add: latest_attempt_def)
  next
    case (Some rank)
    then have step: "dedupe_step m (latest, lr) = ((if latest \<noteq> [] \<and> int rank \<le> lr then [] else latest) @ [m], int rank)"
      and known: "known_metrics (ms @ [m]) = known_metrics ms @ [m]" and rank: "rank_of m = rank"
      by (simp_all add: dedupe_step_def metric_rank_def known_metrics_def rank_of_def)
    obtain older where older: "known_metrics ms = older @ latest" "latest = [] \<longrightarrow> older = []"
      "sorted_wrt (<) (map rank_of latest)" "older \<noteq> [] \<longrightarrow> \<not> rank_of (last older) < rank_of (hd latest)"
      using IH(1) unfolding latest_attempt_def by blast
    show ?thesis
    proof (cases "latest \<noteq> [] \<and> int rank \<le> lr")
      case True
      then have "\<not> rank_of (last (known_metrics ms)) < rank" using older(1) IH(2) by simp
      then have "latest_attempt (ms @ [m]) [m]"
        unfolding latest_attempt_def known using rank by (intro exI [of _ "known_metrics ms"]) simp
      then show ?thesis using st step True rank by simp
    next
      case False
      have "\<forall>x\<in>set latest. rank_of x < rank"
      proof
        fix x assume x: "x \<in> set latest"
        then have "latest \<noteq> []" by auto
        then have below: "rank_of (last latest) < rank" using False IH(2) by auto
        have "x = last latest \<or> rank_of x < rank_of (last latest)"
          using older(3) x by (induction latest) (auto split: if_splits)
        then show "rank_of x < rank" using below by auto
      qed
      then have "sorted_wrt (<) (map rank_of (latest @ [m]))" using older(3) rank by (simp add: sorted_wrt_append)
      then have "latest_attempt (ms @ [m]) (latest @ [m])"
        unfolding latest_attempt_def known using older rank by (intro exI [of _ older]) (cases latest, auto)
      then show ?thesis using st step False rank by auto
    qed
  qed
qed

lemma dedupe_latest: "latest_attempt ms (dedupe_latest_operation_metrics ms)"
  using dedupe_invariant [of ms] unfolding dedupe_latest_operation_metrics_def by (simp add: case_prod_unfold)

subsection \<open>Metrics of a pair\<close>

definition run_of :: "io_metric \<Rightarrow> string \<times> io_key_tuple" where
  "run_of m = (em_operation m, em_nodes m, em_io_size m, em_threads m, em_io_depth m)"

text \<open>
  What a metric has from its row of the CSV file: everything but the histogram, the percentiles, the duration and the lines of the launcher, which
  come from the OUT file and the tree scan, and the file size, which the reads of a file share with its writes.
\<close>

definition measured :: "io_metric \<Rightarrow> io_metric" where
  "measured m = m \<lparr> em_io_duration_sec := 0, em_treescan_size_stats_line := [], em_write_only_data_dir := [], em_sweep_read_from_path := [],
     em_treescan_first_file_bytes := 0, em_file_size_bytes := 0, em_lat_pct := [], em_lat_pct_found := {}, em_histogram := [],
     em_treescan_file_count := 0, em_treescan_avg_bytes := 0, em_treescan_min_bytes := 0, em_treescan_max_bytes := 0 \<rparr>"

lemma run_of_measured: "run_of (measured m) = run_of m"
  by (simp add: run_of_def measured_def)

lemma runs_of_measured: "map measured xs = map measured ys \<Longrightarrow> map run_of xs = map run_of ys"
proof -
  have "map run_of zs = map run_of (map measured zs)" for zs by (simp add: comp_def run_of_measured)
  then show "map measured xs = map measured ys \<Longrightarrow> map run_of xs = map run_of ys" by metis
qed

lemma measured_update [simp]:
  "measured (m \<lparr> em_io_duration_sec := a \<rparr>) = measured m" "measured (m \<lparr> em_treescan_size_stats_line := s \<rparr>) = measured m"
  "measured (m \<lparr> em_write_only_data_dir := s \<rparr>) = measured m" "measured (m \<lparr> em_sweep_read_from_path := s \<rparr>) = measured m"
  "measured (m \<lparr> em_treescan_first_file_bytes := a \<rparr>) = measured m" "measured (m \<lparr> em_file_size_bytes := i \<rparr>) = measured m"
  "measured (m \<lparr> em_lat_pct := p, em_lat_pct_found := f \<rparr>) = measured m" "measured (m \<lparr> em_histogram := h \<rparr>) = measured m"
  "measured (m \<lparr> em_treescan_file_count := a, em_treescan_avg_bytes := b, em_treescan_min_bytes := c, em_treescan_max_bytes := d \<rparr>) = measured m"
  by (simp_all add: measured_def)

lemma measured_scan [simp]: "measured (apply_scan_line line m) = measured m"
  by (simp add: apply_scan_line_def apply_treescan_numeric_fields_def split: option.split prod.split)

lemma measured_section [simp]: "measured (fst (apply_out_section text m)) = measured m"
  by (simp add: apply_out_section_def apply_percentiles_def Let_def case_prod_unfold split: option.split)

lemma measured_sections: "map measured (apply_out_sections content ms) = map measured ms"
proof (induction ms)
  case (Cons m ms)
  show ?case
  proof (cases "find_last_operation_section content (em_operation m)")
    case (Some sec)
    obtain m' ok where "apply_out_section sec m = (m', ok)" by force
    then show ?thesis using Some Cons measured_section [of sec m] by simp
  qed (simp add: Cons)
qed simp

lemma measured_out: "map measured (add_elbencho_out_file_metrics out ms) = map measured ms"
  by (cases out) (simp_all add: add_elbencho_out_file_metrics_def measured_sections apply_sweep_auxiliary_log_lines_def
    fill_io_duration_def Let_def comp_def split: option.split)

lemma measured_treescan: "apply_treescan_from_directory_scan dir ms base = Inr ms' \<Longrightarrow> map measured ms' = map measured ms"
  by (auto simp: apply_treescan_from_directory_scan_def rbind_eq_Inr comp_def split: list.splits if_splits option.splits)

definition of_run :: "benchmark_name \<Rightarrow> io_metric \<Rightarrow> bool" where
  "of_run name m \<longleftrightarrow> run_of m \<in> {(''WRITE'', name_key name), (''READ'', name_key name)}"

lemma of_run_transfer:
  assumes "map run_of ms' = map run_of ms" and "\<forall>m\<in>set ms. of_run name m"
  shows "\<forall>m\<in>set ms'. of_run name m"
proof -
  have "run_of ` set ms' = run_of ` set ms" using assms(1) by (metis list.set_map)
  then have "\<exists>m0\<in>set ms. run_of m = run_of m0" if "m \<in> set ms'" for m using that by (metis imageE imageI)
  then show ?thesis using assms(2) unfolding of_run_def by metis
qed

lemma metric_from_row_run: "metric_from_csv_row name row = Inr (Some m) \<Longrightarrow> of_run name m"
  by (auto simp: metric_from_csv_row_def Let_def rbind_eq_Inr metric_of_row_def of_run_def run_of_def name_key_def
      split: option.splits if_splits)

lemma append_metrics_run:
  "append_metrics name rows ms = Inr ms' \<Longrightarrow> \<forall>m\<in>set ms. of_run name m \<Longrightarrow> \<forall>m\<in>set ms'. of_run name m"
proof (induction name rows ms rule: append_metrics.induct)
  case (2 name row rows ms)
  show ?case
  proof (cases "metric_from_csv_row name row")
    case (Inl e)
    then show ?thesis using 2(3,4) by (cases e) simp_all
  next
    case (Inr found)
    then show ?thesis using 2 metric_from_row_run [of name row] by (cases found) simp_all
  qed
qed simp

lemma share_file_size_map:
  assumes "share_file_size ms = Inr shared"
  shows "\<exists>f. shared = map f ms \<and> (\<forall>m. measured (f m) = measured m)"
proof -
  define write_size where "write_size = (case remdups (filter (\<lambda>n. n > 0) (map em_file_size_bytes ms)) of [] \<Rightarrow> 0 | n # _ \<Rightarrow> n)"
  let ?f = "\<lambda>m. if em_operation m = ''READ'' \<and> em_file_size_bytes m = 0 then m \<lparr> em_file_size_bytes := write_size \<rparr> else m"
  have "shared = map ?f ms"
    using assms unfolding share_file_size_def Let_def write_size_def by (simp split: if_split_asm)
  then show ?thesis by (intro exI [of _ ?f]) simp
qed

lemma share_file_size_runs:
  assumes "share_file_size ms = Inr shared"
  shows "map run_of shared = map run_of ms"
  using share_file_size_map [OF assms] by (intro runs_of_measured) auto

lemma metric_rank_measured: "metric_rank (measured m) = metric_rank m"
  by (simp add: metric_rank_def measured_def)

lemma latest_attempt_map:
  assumes "latest_attempt (map f ms) latest" and f: "\<And>m. measured (f m) = measured m"
  shows "\<exists>attempt. latest_attempt ms attempt \<and> map measured latest = map measured attempt"
proof -
  have rank: "metric_rank (f m) = metric_rank m" for m by (metis f metric_rank_measured)
  then have known: "known_metrics (map f ms) = map f (known_metrics ms)" and rank': "rank_of (f m) = rank_of m" for m
    by (simp_all add: known_metrics_def filter_map comp_def rank_of_def)
  obtain older where older: "map f (known_metrics ms) = older @ latest" "latest = [] \<longrightarrow> older = []"
    "sorted_wrt (<) (map rank_of latest)" "older \<noteq> [] \<longrightarrow> \<not> rank_of (last older) < rank_of (hd latest)"
    using assms(1) unfolding latest_attempt_def known by blast
  obtain old new where split: "known_metrics ms = old @ new" "older = map f old" "latest = map f new"
    using older(1) by (auto simp: map_eq_append_conv)
  have "old \<noteq> [] \<longrightarrow> \<not> rank_of (last old) < rank_of (hd new)"
    using older(2,4) rank' by (cases "new = []") (auto simp: split last_map hd_map)
  then have "latest_attempt ms new"
    unfolding latest_attempt_def using older(2,3) split rank' by (intro exI [of _ old]) (simp add: comp_def)
  then show ?thesis using f split(3) by (intro exI [of _ new]) (simp add: comp_def)
qed

lemma latest_attempt_subset: "latest_attempt ms latest \<Longrightarrow> set latest \<subseteq> set ms"
proof -
  assume "latest_attempt ms latest"
  then obtain older where "known_metrics ms = older @ latest" unfolding latest_attempt_def by (elim exE conjE)
  then have "set latest \<subseteq> set (known_metrics ms)" by simp
  then show "set latest \<subseteq> set ms" by (auto simp: known_metrics_def)
qed

lemma parse_csv_steps:
  assumes "parse_elbencho_csv_file content name = Inr ms"
  shows "\<exists>raw shared. append_metrics name (readable_rows content) [] = Inr raw \<and> share_file_size raw = Inr shared
    \<and> ms = dedupe_latest_operation_metrics shared"
  using assms unfolding parse_elbencho_csv_file_def
  by (cases "append_metrics name (readable_rows content) []"; cases "share_file_size (projr (append_metrics name (readable_rows content) []))")
     simp_all

lemma csv_file_run:
  assumes "parse_elbencho_csv_file content name = Inr ms"
  shows "(\<forall>m\<in>set ms. of_run name m) \<and> sorted_wrt (<) (map rank_of ms)"
proof -
  obtain raw shared where raw: "append_metrics name (readable_rows content) [] = Inr raw"
    and shared: "share_file_size raw = Inr shared" and ms: "ms = dedupe_latest_operation_metrics shared"
    using parse_csv_steps [OF assms] by (elim exE conjE)
  have "\<forall>m\<in>set shared. of_run name m"
    by (rule of_run_transfer [OF share_file_size_runs [OF shared] append_metrics_run [OF raw]]) simp
  moreover have latest: "latest_attempt shared ms" unfolding ms by (rule dedupe_latest)
  ultimately have "\<forall>m\<in>set ms. of_run name m" using latest_attempt_subset [OF latest] by (meson subsetD)
  then show ?thesis using latest unfolding latest_attempt_def by (elim exE conjE) (rule conjI)
qed

lemma attempt_operations:
  assumes "\<forall>m\<in>set ms. of_run name m" and "sorted_wrt (<) (map rank_of ms)"
  shows "map em_operation ms \<in> {[], [''WRITE''], [''READ''], [''WRITE'', ''READ'']}"
proof -
  have rank: "(em_operation m = ''WRITE'' \<and> rank_of m = 0) \<or> (em_operation m = ''READ'' \<and> rank_of m = 1)" if "m \<in> set ms" for m
    using assms(1) that by (auto simp: of_run_def run_of_def rank_of_def metric_rank_def operation_rank_def upper_ascii_def is_lower_def)
  show ?thesis
  proof (cases ms)
    case (Cons a rest)
    then show ?thesis
    proof (cases rest)
      case Nil
      then show ?thesis using Cons rank [of a] by auto
    next
      case (Cons b more)
      have "more = []"
      proof (rule ccontr)
        assume "more \<noteq> []"
        then obtain c where c: "c \<in> set more" by (cases more) auto
        then have "rank_of a < rank_of b" "rank_of b < rank_of c" using assms(2) \<open>ms = a # rest\<close> Cons by auto
        moreover have "rank_of c \<le> 1" using rank [of c] c \<open>ms = a # rest\<close> Cons by auto
        ultimately show False by simp
      qed
      then show ?thesis using rank [of a] rank [of b] assms(2) \<open>ms = a # rest\<close> Cons by auto
    qed
  qed simp
qed

lemma csv_file_attempt:
  assumes "parse_elbencho_csv_file content name = Inr ms"
  shows "\<exists>rows attempt. append_metrics name (readable_rows content) [] = Inr rows \<and> latest_attempt rows attempt
    \<and> map measured ms = map measured attempt"
proof -
  obtain rows shared where rows: "append_metrics name (readable_rows content) [] = Inr rows"
    and shared: "share_file_size rows = Inr shared" and ms: "ms = dedupe_latest_operation_metrics shared"
    using parse_csv_steps [OF assms] by (elim exE conjE)
  obtain f where f: "shared = map f rows" "\<And>m. measured (f m) = measured m" using share_file_size_map [OF shared] by blast
  have "latest_attempt (map f rows) ms" unfolding ms f(1) [symmetric] by (rule dedupe_latest)
  then show ?thesis using latest_attempt_map [OF _ f(2)] rows by blast
qed

text \<open>C33. The metrics of a result pair belong to the execution that the name of the pair says, and they are one attempt: at most
  one write, then at most one read. What they measured is that of the last attempt in the CSV file, the longest run of rows at its end in which no phase
  comes again or before an earlier one, so a phase of an older attempt is never put beside one of the last; the OUT file and the tree scan add
  latencies, durations and sizes only. A pair without metrics may be one that cannot be read.\<close>

theorem result_pair_is_one_attempt:
  assumes "parse_result_pair dir base = Inr ms"
  shows "map em_operation ms \<in> {[], [''WRITE''], [''READ''], [''WRITE'', ''READ'']} \<and>
    (\<forall>m\<in>set ms. pair_key_from_name base = Some (em_nodes m, em_io_size m, em_threads m, em_io_depth m)) \<and>
    (ms = [] \<or> (\<exists>name rows attempt. parse_benchmark_filename base = Some name
        \<and> append_metrics name (readable_rows (rd_read_csv dir base)) [] = Inr rows
        \<and> latest_attempt rows attempt \<and> map measured ms = map measured attempt))"
proof (cases "ms = []")
  case False
  then have files: "parse_elbencho_files dir base = Inr ms"
    using assms by (auto simp: parse_result_pair_def split: sum.splits py_error.splits)
  then obtain name metrics where name: "parse_benchmark_filename base = Some name"
    and csv: "parse_elbencho_csv_file (rd_read_csv dir base) name = Inr metrics"
    and scan: "apply_treescan_from_directory_scan dir (add_elbencho_out_file_metrics (rd_read_out dir (base @ ''.out'')) metrics) base = Inr ms"
    using False by (auto simp: parse_elbencho_files_def split: if_splits option.splits sum.splits py_error.splits list.splits)
  have same: "map measured ms = map measured metrics" using measured_treescan [OF scan] measured_out by simp
  note runs = runs_of_measured [OF same]
  have of_run: "\<forall>m\<in>set ms. of_run name m" using of_run_transfer [OF runs] conjunct1 [OF csv_file_run [OF csv]] by blast
  have "map em_operation metrics \<in> {[], [''WRITE''], [''READ''], [''WRITE'', ''READ'']}"
    using csv_file_run [OF csv] by (elim conjE) (rule attempt_operations)
  moreover have "map em_operation ms = map em_operation metrics"
    using arg_cong [OF runs, of "map fst"] by (simp add: run_of_def comp_def)
  moreover have "pair_key_from_name base = Some (em_nodes m, em_io_size m, em_threads m, em_io_depth m)" if "m \<in> set ms" for m
    using of_run that name by (auto simp: of_run_def run_of_def pair_key_from_name_def)
  moreover have "\<exists>rows attempt. append_metrics name (readable_rows (rd_read_csv dir base)) [] = Inr rows
      \<and> latest_attempt rows attempt \<and> map measured ms = map measured attempt"
    using csv_file_attempt [OF csv] same by simp
  ultimately show ?thesis using name by (intro conjI disjI2 exI [of _ name]) (simp_all only: simp_thms, blast)
qed simp

end
