(* ===== verification/IoPlan.thy ===== *)
theory IoPlan
  imports IoReports "HOL-Library.Multiset"
begin

section \<open>The plan of an IO directory\<close>

text \<open>
  The loop that matches pairs with definitions, as a function of the sorted list of pairs: an id is matched with the last
  pair of its coordinates, and what is not matched is left over.
\<close>

subsection \<open>The matching loop\<close>

definition target_id :: "(io_key_tuple, string) dict \<Rightarrow> string \<Rightarrow> string option" where
  "target_id by_key base = Option.bind (pair_key_from_name base) (dict_get by_key)"

definition last_of :: "'a list \<Rightarrow> 'a option" where
  "last_of xs = (if xs = [] then None else Some (last xs))"

lemma mset_dict_set:
  "dict_wf d \<Longrightarrow> mset (map snd (dict_set k v d)) + (case dict_get d k of None \<Rightarrow> {#} | Some old \<Rightarrow> {#old#}) =
     add_mset v (mset (map snd d))"
proof (induction d)
  case (Cons e d)
  obtain k' v' where e: "e = (k', v')" by (cases e)
  have wf: "dict_wf d" using Cons.prems by (simp add: dict_wf_def)
  show ?case
  proof (cases "k = k'")
    case True
    then have "dict_get d k = None" using Cons.prems e by (auto simp: dict_wf_def map_of_eq_None_iff)
    then show ?thesis using True e by simp
  next
    case False
    then show ?thesis using Cons.IH [OF wf] e by (simp split: option.splits)
  qed
qed simp

lemma matching_loop:
  assumes "fold (match_pair by_key) bases ([], []) = (matched, unmatched)"
  shows "dict_wf matched \<and> mset (map snd matched) + mset unmatched = mset bases
    \<and> (\<forall>i. dict_get matched i = last_of (filter (\<lambda>b. target_id by_key b = Some i) bases))"
  using assms
proof (induction bases arbitrary: matched unmatched rule: rev_induct)
  case Nil
  then show ?case by (simp add: last_of_def)
next
  case (snoc base bases)
  obtain m u where st: "fold (match_pair by_key) bases ([], []) = (m, u)" by force
  note IH = snoc.IH [OF st]
  have step: "match_pair by_key base (m, u) = (matched, unmatched)" using snoc.prems st by simp
  show ?case
  proof (cases "target_id by_key base")
    case None
    then have "matched = m" "unmatched = u @ [base]" using step by (simp_all add: match_pair_def target_id_def)
    then show ?thesis using IH None by simp
  next
    case (Some i)
    then have new: "matched = dict_set i base m" "unmatched = (case dict_get m i of Some old \<Rightarrow> u @ [old] | None \<Rightarrow> u)"
      using step by (simp_all add: match_pair_def target_id_def)
    have "mset unmatched = mset u + (case dict_get m i of None \<Rightarrow> {#} | Some old \<Rightarrow> {#old#})"
      using new(2) by (simp split: option.split)
    then have "mset (map snd matched) + mset unmatched = add_mset base (mset (map snd m)) + mset u"
      using mset_dict_set [of m i base] IH new(1) by (simp add: union_assoc union_commute union_lcomm)
    then have "mset (map snd matched) + mset unmatched = mset (bases @ [base])" using IH by simp
    then show ?thesis using IH Some new(1) by (auto simp: last_of_def)
  qed
qed

lemma last_of_Some: "last_of xs = Some x \<longleftrightarrow> xs \<noteq> [] \<and> last xs = x"
  by (simp add: last_of_def)

lemma ids_by_key_get:
  assumes "dict_get (ids_by_key ledger) key = Some i"
  shows "\<exists>d. (i, d) \<in> set ledger \<and> execution_coordinate_key d = key"
proof -
  have "dict_get (fold (\<lambda>(i, d). dict_set (execution_coordinate_key d) i) ledger found) key = Some i \<Longrightarrow>
      dict_get found key = Some i \<or> (\<exists>d. (i, d) \<in> set ledger \<and> execution_coordinate_key d = key)" for found
    by (induction ledger arbitrary: found) (fastforce split: if_splits)+
  then show ?thesis using assms unfolding ids_by_key_def by fastforce
qed

lemma target_key:
  assumes "target_id (ids_by_key ledger) base = Some i" and "distinct (map fst ledger)" and "(i, d) \<in> set ledger"
  shows "pair_key_from_name base = Some (execution_coordinate_key d)"
proof -
  obtain key where key: "pair_key_from_name base = Some key" "dict_get (ids_by_key ledger) key = Some i"
    using assms(1) by (auto simp: target_id_def bind_eq_Some_conv)
  then obtain d' where "(i, d') \<in> set ledger" "execution_coordinate_key d' = key" using ids_by_key_get by blast
  then show ?thesis using key(1) assms(2,3) by (metis map_of_eq_Some_iff option.inject)
qed

subsection \<open>Sorted pairs\<close>

definition pair_order :: "string \<Rightarrow> string \<times> string" where
  "pair_order b = (pair_datestamp b, b)"

lemma last_is_greatest:
  assumes "last_of (filter P (sort_key f xs)) = Some x"
  shows "x \<in> set xs \<and> P x \<and> (\<forall>y\<in>set xs. P y \<longrightarrow> f y \<le> f x)"
proof -
  let ?ys = "filter P (sort_key f xs)"
  have ys: "?ys \<noteq> []" "last ?ys = x" using assms by (simp_all add: last_of_Some)
  then have "x \<in> set ?ys" using last_in_set by metis
  moreover have "f y \<le> f x" if "y \<in> set ?ys" for y
  proof -
    have "sorted (map f (butlast ?ys @ [last ?ys]))" using ys(1) by (simp add: sorted_filter)
    then have "\<forall>z\<in>set (butlast ?ys). f z \<le> f x" using ys(2) by (simp add: sorted_append)
    moreover have "y \<in> set (butlast ?ys) \<or> y = x" using that ys by (metis append_butlast_last_id rotate1.simps(2) set_ConsD set_rotate1)
    ultimately show ?thesis by auto
  qed
  ultimately show ?thesis by auto
qed

subsection \<open>The plan\<close>

definition planned_bases :: "planned_execution list \<Rightarrow> string list" where
  "planned_bases planned = List.map_filter pe_base planned"

definition listed :: "planned_execution list \<Rightarrow> bool" where
  "listed planned \<longleftrightarrow> list_ex (\<lambda>p. pe_ledger p \<noteq> None) planned"

lemma match_pairs_facts:
  assumes "match_pairs ledger bases = (matched, unmatched)"
  shows "dict_wf matched" and "mset (map snd matched) + mset unmatched = mset bases"
    and "dict_get matched i = last_of (filter (\<lambda>b. target_id (ids_by_key ledger) b = Some i) (sort_key pair_order bases))"
proof -
  obtain u where u: "fold (match_pair (ids_by_key ledger)) (sort_key pair_order bases) ([], []) = (matched, u)" "unmatched = sort u"
    using assms unfolding match_pairs_def pair_order_def by (auto simp: case_prod_unfold Let_def prod_eq_iff)
  show "dict_wf matched" "mset (map snd matched) + mset unmatched = mset bases"
    "dict_get matched i = last_of (filter (\<lambda>b. target_id (ids_by_key ledger) b = Some i) (sort_key pair_order bases))"
    using matching_loop [OF u(1)] u(2) by simp_all
qed

lemma matched_key:
  assumes "match_pairs ledger bases = (matched, unmatched)" and "dict_get matched i = Some base"
  shows "target_id (ids_by_key ledger) base = Some i" and "base \<in> set bases"
    and "\<forall>b\<in>set bases. target_id (ids_by_key ledger) b = Some i \<longrightarrow> pair_order b \<le> pair_order base"
  using last_is_greatest [of _ pair_order bases base] match_pairs_facts(3) [OF assms(1), of i] assms(2) by auto

lemma planned_of_matched:
  "planned_bases (map (plan_item f workloads matched) ledger) =
     List.map_filter (\<lambda>(i, d). if filters_allow f (execution_coordinate_key d) then dict_get matched i else None) ledger"
  by (induction ledger) (auto simp: planned_bases_def plan_item_def Let_def List.map_filter_simps split: option.splits if_splits)

lemma planned_of_unmatched:
  "planned_bases (map (\<lambda>base. \<lparr> pe_ledger = None, pe_base = Some base, pe_metadata = None \<rparr>) bases) = bases"
  by (induction bases) (simp_all add: planned_bases_def List.map_filter_simps)

lemma planned_bases_append [simp]: "planned_bases (ps @ qs) = planned_bases ps @ planned_bases qs"
  by (simp add: planned_bases_def List.map_filter_def)

lemma set_map_filter_iff: "y \<in> set (List.map_filter g xs) \<longleftrightarrow> (\<exists>x\<in>set xs. g x = Some y)"
  by (induction xs) (auto simp: List.map_filter_simps split: option.splits)

lemma distinct_map_filter:
  "distinct xs \<Longrightarrow> (\<And>x x' y. x \<in> set xs \<Longrightarrow> x' \<in> set xs \<Longrightarrow> g x = Some y \<Longrightarrow> g x' = Some y \<Longrightarrow> x = x')
    \<Longrightarrow> distinct (List.map_filter g xs)"
proof (induction xs)
  case (Cons x xs)
  have "distinct (List.map_filter g xs)" using Cons.IH Cons.prems by (meson distinct.simps(2) list.set_intros(2))
  moreover have "y \<notin> set (List.map_filter g xs)" if "g x = Some y" for y
    using Cons.prems that unfolding set_map_filter_iff by (metis distinct.simps(2) list.set_intros)
  ultimately show ?case by (simp add: List.map_filter_simps split: option.split)
qed (simp add: List.map_filter_simps)

lemma target_exists:
  assumes "target_id (ids_by_key ledger) base = Some i" and "distinct (map fst ledger)"
  shows "\<exists>d. (i, d) \<in> set ledger \<and> pair_key_from_name base = Some (execution_coordinate_key d)"
proof -
  obtain key where "dict_get (ids_by_key ledger) key = Some i" using assms(1) by (auto simp: target_id_def bind_eq_Some_conv)
  then obtain d where "(i, d) \<in> set ledger" using ids_by_key_get by blast
  then show ?thesis using target_key [OF assms] by blast
qed

lemma allowed_matched:
  assumes "target_id (ids_by_key ledger) base = Some i" and "distinct (map fst ledger)" and "(i, d) \<in> set ledger"
  shows "plan_unmatched f ledger base \<longleftrightarrow> filters_allow f (execution_coordinate_key d)"
  using target_key [OF assms] assms(3) by (auto simp: plan_unmatched_def)

lemma plan_is_exact:
  assumes "distinct (map fst ledger)" and "distinct bases"
  shows "mset (planned_bases (io_plan_of f ledger workloads bases)) = mset (filter (plan_unmatched f ledger) bases)"
proof -
  obtain matched unmatched where pairs: "match_pairs ledger bases = (matched, unmatched)" by force
  define g where "g = (\<lambda>(i, d). if filters_allow f (execution_coordinate_key d) then dict_get matched i else None)"
  define L where "L = List.map_filter g ledger"
  define U where "U = filter (plan_unmatched f ledger) unmatched"
  have planned: "planned_bases (io_plan_of f ledger workloads bases) = L @ U"
    by (simp add: io_plan_of_def pairs planned_of_matched planned_of_unmatched L_def U_def g_def)
  note facts = match_pairs_facts [OF pairs]
  have all: "distinct (map snd matched @ unmatched)" "set (map snd matched @ unmatched) = set bases"
    using facts(2) assms(2) by (metis mset_append mset_eq_imp_distinct_iff, metis mset_append set_mset_mset)
  have L: "y \<in> set L \<longleftrightarrow> y \<in> set (map snd matched) \<and> plan_unmatched f ledger y" for y
  proof
    assume "y \<in> set L"
    then obtain i d where item: "(i, d) \<in> set ledger" "filters_allow f (execution_coordinate_key d)" "dict_get matched i = Some y"
      unfolding L_def set_map_filter_iff g_def by (auto split: if_splits)
    then have "plan_unmatched f ledger y" using allowed_matched [OF matched_key(1) [OF pairs item(3)] assms(1) item(1)] by blast
    then show "y \<in> set (map snd matched) \<and> plan_unmatched f ledger y" using map_of_SomeD [OF item(3)] by force
  next
    assume y: "y \<in> set (map snd matched) \<and> plan_unmatched f ledger y"
    then obtain i where "(i, y) \<in> set matched" by auto
    then have get: "dict_get matched i = Some y" using facts(1) by (simp add: dict_wf_def)
    then obtain d where d: "(i, d) \<in> set ledger" using target_exists [OF matched_key(1) [OF pairs get] assms(1)] by blast
    then have "filters_allow f (execution_coordinate_key d)" using allowed_matched [OF matched_key(1) [OF pairs get] assms(1) d] y by blast
    then show "y \<in> set L" unfolding L_def set_map_filter_iff g_def using d get by force
  qed
  have "distinct L"
    unfolding L_def
  proof (rule distinct_map_filter)
    show "distinct ledger" using assms(1) by (simp add: distinct_map)
    fix x x' y assume x: "x \<in> set ledger" "x' \<in> set ledger" "g x = Some y" "g x' = Some y"
    then have "dict_get matched (fst x) = Some y" "dict_get matched (fst x') = Some y"
      by (auto simp: g_def case_prod_unfold split: if_splits)
    then have "fst x = fst x'" using matched_key(1) [OF pairs] by (metis option.inject)
    then show "x = x'" using assms(1) x(1,2) by (metis distinct_map inj_onD)
  qed
  then have "distinct (L @ U)" using all(1) L unfolding U_def by auto
  moreover have "set (L @ U) = set (filter (plan_unmatched f ledger) bases)" using all(2) L unfolding U_def by auto
  ultimately show ?thesis unfolding planned using set_eq_iff_mset_eq_distinct assms(2) distinct_filter by metis
qed

subsection \<open>Ids of the ledger\<close>

lemma ledger_identifier_name: "ledger_identifier name = Some i \<Longrightarrow> name = i @ ''.sh''"
  by (auto simp: ledger_identifier_def Let_def split: if_splits) (metis append_take_drop_id)

lemma note_definition_step: "note_definition fs dir i ledger = Inr l \<Longrightarrow> l = ledger \<or> (\<exists>d. l = ledger @ [(i, d)])"
  by (auto simp: note_definition_def rbind_eq_Inr split: option.splits)

lemma note_definition_ids:
  "rfold (note_definition fs dir) ids ledger = Inr l \<Longrightarrow> distinct (map fst ledger @ ids) \<Longrightarrow> distinct (map fst l)"
proof (induction ids arbitrary: ledger)
  case (Cons i ids)
  then obtain l' where l': "note_definition fs dir i ledger = Inr l'" "rfold (note_definition fs dir) ids l' = Inr l"
    by (auto simp: rbind_eq_Inr)
  have "distinct (map fst l' @ ids)" using note_definition_step [OF l'(1)] Cons.prems(2) by (auto simp del: set_map)
  then show ?case using Cons.IH l'(2) by blast
qed simp

lemma load_io_ledger_ids:
  assumes "load_io_ledger fs dir names = Inr ledger" and "distinct names"
  shows "distinct (map fst ledger)"
proof -
  have "distinct (List.map_filter ledger_identifier (sort names))"
    using assms(2) ledger_identifier_name by (intro distinct_map_filter) (auto dest!: ledger_identifier_name)
  then show ?thesis using assms(1) note_definition_ids [of fs dir _ "[]"] unfolding load_io_ledger_def by simp
qed

lemma plan_listed: "listed (io_plan_of f ledger workloads bases) \<longleftrightarrow> ledger \<noteq> []"
proof -
  obtain matched unmatched where "match_pairs ledger bases = (matched, unmatched)" by force
  then show ?thesis by (cases ledger) (auto simp: listed_def io_plan_of_def plan_item_def Let_def list_ex_iff)
qed

text \<open>C31. Every result pair with the name of a result is planned exactly once, as the result of an execution or on its own, unless the
  filters of the report leave out its coordinates; without a ledger it is planned in any case.\<close>

theorem every_pair_planned_once:
  assumes "plan_io_executions fs dir names f bases = Inr planned" and "distinct names" and "distinct bases"
  shows "mset (planned_bases planned) = mset (filter (\<lambda>base. case pair_key_from_name base of None \<Rightarrow> False
    | Some key \<Rightarrow> filters_allow f key \<or> \<not> listed planned) bases)"
proof -
  obtain ledger workloads where load: "load_io_ledger fs dir names = Inr ledger" and planned: "planned = io_plan_of f ledger workloads bases"
    using assms(1) by (auto simp: plan_io_executions_def rbind_eq_Inr)
  have "plan_unmatched f ledger = (\<lambda>base. case pair_key_from_name base of None \<Rightarrow> False
      | Some key \<Rightarrow> filters_allow f key \<or> \<not> listed planned)"
    by (auto simp: plan_unmatched_def planned plan_listed fun_eq_iff split: option.split)
  then show ?thesis using plan_is_exact [OF load_io_ledger_ids [OF load assms(2)] assms(3), of f workloads] planned by simp
qed

text \<open>The pair planned for an execution has the coordinates of its definition, and it is the newest pair of the directory that has
  them; no execution is planned twice.\<close>

theorem newest_pair_is_planned:
  assumes "plan_io_executions fs dir names f bases = Inr planned" and "distinct names"
    and "p \<in> set planned" and "pe_ledger p = Some (i, d)" and "pe_base p = Some base"
  shows "pair_key_from_name base = Some (execution_coordinate_key d) \<and> filters_allow f (execution_coordinate_key d)
    \<and> (\<forall>b\<in>set bases. pair_key_from_name b = Some (execution_coordinate_key d) \<longrightarrow> pair_datestamp b \<le> pair_datestamp base)
    \<and> distinct (List.map_filter pe_ledger planned)"
proof -
  obtain ledger workloads where load: "load_io_ledger fs dir names = Inr ledger" and planned: "planned = io_plan_of f ledger workloads bases"
    using assms(1) by (auto simp: plan_io_executions_def rbind_eq_Inr)
  have ids: "distinct (map fst ledger)" by (rule load_io_ledger_ids [OF load assms(2)])
  obtain matched unmatched where pairs: "match_pairs ledger bases = (matched, unmatched)" by force
  have p: "(i, d) \<in> set ledger" "dict_get matched i = Some base" "filters_allow f (execution_coordinate_key d)"
    using assms(3-5) by (auto simp: planned io_plan_of_def pairs plan_item_def Let_def split: if_splits)
  note target = matched_key(1) [OF pairs p(2)]
  have key: "pair_key_from_name base = Some (execution_coordinate_key d)" by (rule target_key [OF target ids p(1)])
  have "pair_datestamp b \<le> pair_datestamp base" if "b \<in> set bases" "pair_key_from_name b = Some (execution_coordinate_key d)" for b
  proof -
    have "target_id (ids_by_key ledger) b = Some i" using target key that(2) by (simp add: target_id_def)
    then have "pair_order b \<le> pair_order base" using matched_key(3) [OF pairs p(2)] that(1) by blast
    then show ?thesis by (auto simp: pair_order_def)
  qed
  moreover have "List.map_filter pe_ledger planned = ledger"
    by (simp add: planned io_plan_of_def pairs plan_item_def Let_def List.map_filter_def comp_def)
  ultimately show ?thesis using key p(3) ids by (simp add: distinct_map)
qed

end
