(* ===== verification/IoEntries.thy ===== *)
theory IoEntries
  imports IoPlan
begin

section \<open>The state of an execution\<close>

text \<open>
  An entry is complete exactly when nothing its plan and its metadata ask for is missing; what the live CSV lacks never counts.
\<close>

subsection \<open>Problems that count\<close>

definition percentile_found :: "io_metric \<Rightarrow> string \<Rightarrow> bool" where
  "percentile_found m name \<longleftrightarrow> name \<in> em_lat_pct_found m \<and> (\<exists>v. dict_get (em_lat_pct m) name = Some (Finite v))"

definition phase_whole :: "workload option \<Rightarrow> io_metric \<Rightarrow> bool" where
  "phase_whole metadata m \<longleftrightarrow>
     workload_enum metadata (operation_phase m @ ''_completion_state'') \<noteq> Some ''incomplete'' \<and>
     em_iops_first m \<noteq> None \<and> em_throughput_mib_s_first m \<noteq> None \<and> (\<forall>name\<in>set PERCENTILES. percentile_found m name)"

lemma missing_percentiles_none:
  "missing_percentiles (metric_phase metadata m) = [] \<longleftrightarrow> (\<forall>name\<in>set PERCENTILES. percentile_found m name)"
  by (auto simp: missing_percentiles_def metric_phase_def Let_def latency_object_def PERCENTILES_def percentile_found_def
      seconds_to_us_def startswith_def split: option.splits pyfloat.splits)

lemma metric_phase_problems: "entry_problems (metric_phase metadata m) = [] \<longleftrightarrow> phase_whole metadata m"
proof -
  have "rate_problems (metric_phase metadata m) = [] \<longleftrightarrow> em_iops_first m \<noteq> None \<and> em_throughput_mib_s_first m \<noteq> None"
    by (auto simp: rate_problems_def metric_phase_def Let_def rate_object_of_def mib_s_to_bytes_per_s_def)
  moreover have "ph_completion_state (metric_phase metadata m) = workload_enum metadata (operation_phase m @ ''_completion_state'')"
    by (simp add: metric_phase_def Let_def)
  ultimately show ?thesis by (auto simp: entry_problems_def phase_whole_def missing_percentiles_none)
qed

lemma entry_problems_live [simp]: "entry_problems (attach_live attached reason entry) = entry_problems entry"
  by (cases "ph_first entry") (simp_all add: attach_live_def entry_problems_def rate_problems_def missing_percentiles_def)

lemma ph_phase_live [simp]: "ph_phase (attach_live attached reason entry) = ph_phase entry"
  by (simp add: attach_live_def)

lemma ph_phase_metric [simp]: "ph_phase (metric_phase metadata m) = operation_phase m"
  by (simp add: metric_phase_def Let_def)

lemma delete_problems:
  "entry_problems (delete_phase metadata) = [] \<longleftrightarrow> workload_enum metadata ''delete_completion_state'' \<noteq> Some ''incomplete''"
  by (simp add: entry_problems_def delete_phase_def rate_problems_def missing_percentiles_def)

lemma entry_problems_gate: "p \<in> set (entry_problems entry) \<Longrightarrow> fst p \<in> set GATING"
  by (auto simp: entry_problems_def rate_problems_def GATING_def Let_def split: option.splits if_splits)

lemma phase_problems_gate: "p \<in> set (phase_problems plan metadata phases) \<Longrightarrow> fst p \<in> set GATING"
  by (auto simp: phase_problems_def entry_problems_gate) (simp_all add: GATING_def)

lemma entry_state_complete:
  assumes "\<forall>p\<in>set live. fst p \<notin> set GATING"
  shows "entry_state (phase_problems plan metadata phases @ live) = ''complete'' \<longleftrightarrow> phase_problems plan metadata phases = []"
proof (cases "phase_problems plan metadata phases")
  case Nil
  then show ?thesis using assms by (auto simp: entry_state_def list_ex_iff)
next
  case (Cons p ps)
  then have "fst p \<in> set GATING" using phase_problems_gate [of p plan metadata phases] by simp
  then show ?thesis using Cons by (simp add: entry_state_def)
qed

lemma live_problems_pass:
  assumes "live_objects_of live dir base metrics i = (objects, reason, problems)"
  shows "\<forall>p\<in>set problems. fst p \<notin> set GATING"
  using assms by (auto simp: live_objects_of_def GATING_def split: if_splits sum.splits)

subsection \<open>Complete entries\<close>

text \<open>The deletion is described when it is expected, and it is expected when it did not complete.\<close>

lemma delete_expected:
  "workload_enum metadata ''delete_completion_state'' = Some ''incomplete'' \<Longrightarrow> PHASE_DELETE \<in> set (expected_phases plan metadata)"
  by (auto simp: workload_enum_def expected_phases_def Let_def split: option.splits if_splits)

definition phases_present :: "string \<Rightarrow> io_metric list \<Rightarrow> bool" where
  "phases_present plan metrics \<longleftrightarrow>
     (\<forall>phase\<in>{PHASE_WRITE, PHASE_READ}. plan_runs_phase plan phase \<longrightarrow> phase \<in> operation_phase ` set metrics)"

lemma results_state:
  assumes "results_object dir live i d base metrics metadata = (results, problems)"
  shows "entry_state problems = ''complete'' \<longleftrightarrow> phases_present (phase_plan (io_exports d)) metrics \<and>
    (\<forall>m\<in>set metrics. phase_whole metadata m) \<and> workload_enum metadata ''delete_completion_state'' \<noteq> Some ''incomplete''"
proof -
  let ?plan = "phase_plan (io_exports d)"
  obtain objects reason live_problems where live: "live_objects_of live dir base metrics i = (objects, reason, live_problems)"
    by (metis prod_cases3)
  define phases where "phases = map (metric_phase metadata) (sort_key (phase_index \<circ> operation_phase) metrics)"
  obtain attached additional where split: "split_live (map ph_phase phases) objects = (attached, additional)" by force
  define everything where "everything = map (attach_live attached reason) phases
    @ (if PHASE_DELETE \<in> set (expected_phases ?plan metadata) then [delete_phase metadata] else [])"
  have problems: "problems = phase_problems ?plan metadata everything @ live_problems"
    using assms unfolding results_object_def live Let_def by (simp add: split everything_def phases_def [symmetric])
  have present: "set (map ph_phase everything) = operation_phase ` set metrics
      \<union> (if PHASE_DELETE \<in> set (expected_phases ?plan metadata) then {PHASE_DELETE} else {})"
    by (simp add: everything_def phases_def image_image delete_phase_def)
  have "phases_present ?plan metrics \<longleftrightarrow> (\<forall>phase\<in>set (expected_phases ?plan metadata). phase \<in> set (map ph_phase everything))"
    unfolding present phases_present_def expected_phases_def
    by (cases metadata) (auto simp: PHASE_DELETE_def PHASE_WRITE_def PHASE_READ_def)
  moreover have "(\<forall>entry\<in>set everything. entry_problems entry = []) \<longleftrightarrow> (\<forall>m\<in>set metrics. phase_whole metadata m) \<and>
      workload_enum metadata ''delete_completion_state'' \<noteq> Some ''incomplete''"
  proof -
    have "(\<forall>entry\<in>set everything. entry_problems entry = []) \<longleftrightarrow> (\<forall>m\<in>set metrics. phase_whole metadata m) \<and>
        (PHASE_DELETE \<in> set (expected_phases ?plan metadata) \<longrightarrow> workload_enum metadata ''delete_completion_state'' \<noteq> Some ''incomplete'')"
      by (simp add: everything_def phases_def ball_Un metric_phase_problems delete_problems)
    then show ?thesis using delete_expected by blast
  qed
  ultimately have "phase_problems ?plan metadata everything = [] \<longleftrightarrow> phases_present ?plan metrics \<and>
      (\<forall>m\<in>set metrics. phase_whole metadata m) \<and> workload_enum metadata ''delete_completion_state'' \<noteq> Some ''incomplete''"
    by (simp add: phase_problems_def filter_empty_conv)
  then show ?thesis using entry_state_complete [OF live_problems_pass [OF live]] problems by simp
qed

text \<open>C32. The entry of an execution whose pair was parsed is complete exactly when the filters let it be reported, some phase was found,
  every phase of its plan is there, every phase found has its rates and all percentiles and has done its work, and no
  deletion is incomplete.\<close>

theorem entry_complete_iff:
  assumes "execution_task input planned = Inr (Some e)" and "pe_ledger planned = Some (i, d)" and "pe_base planned = Some base"
    and "parse_result_pair (ii_dir input) base = Inr metrics"
  shows "oe_result_state e = ''complete'' \<longleftrightarrow> filters_allow (ii_filters input) (execution_coordinate_key d) \<and> metrics \<noteq> [] \<and>
    phases_present (phase_plan (io_exports d)) metrics \<and> (\<forall>m\<in>set metrics. phase_whole (pe_metadata planned) m) \<and>
    workload_enum (pe_metadata planned) ''delete_completion_state'' \<noteq> Some ''incomplete''"
proof -
  have e: "e = io_execution_entry input (Some i) d (Some (base, metrics)) (pe_metadata planned)"
    using assms by (simp add: execution_task_def)
  obtain results problems where results: "results_object (ii_dir input) (ii_live input) (Some i) d base metrics (pe_metadata planned)
      = (results, problems)" by force
  show ?thesis
    using results_state [OF results] unfolding e io_execution_entry_def Let_def case_prod_unfold by (simp add: results)
qed

subsection \<open>The theorems at work\<close>

definition example_base :: string where
  "example_base = ''elbencho-1M-c_002-s_004-d_8_20260101Z120000''"

definition example_csv :: string where
  "example_csv = ''ISO date,operation,direct IO,IOPS [first],MiB/s [first],command'' @ [LF] @ ''x,write,1,inf,inf,run'' @ [LF]
     @ ''y,write,1,inf,inf,run'' @ [LF]"

definition example_pair_dir :: result_dir where
  "example_pair_dir = \<lparr> rd_out_names = [example_base @ ''.out''], rd_log_names = [], rd_read_out = (\<lambda>_. Inr []),
     rd_read_csv = (\<lambda>_. Inr example_csv), rd_read_log = (\<lambda>_. Inr []), rd_exists = (\<lambda>name. name \<noteq> example_base @ ''.live.csv'') \<rparr>"

definition example_metrics :: "io_metric list" where
  "example_metrics = projr (parse_result_pair example_pair_dir example_base)"

lemma example_pair: "parse_result_pair example_pair_dir example_base = Inr example_metrics"
  by code_simp

theorem result_pair_is_one_attempt_witness: "map em_operation example_metrics = [''WRITE'']"
proof -
  have one: "length example_metrics = 1" "em_operation (hd example_metrics) \<noteq> ''READ''" by code_simp+
  then obtain m where m: "example_metrics = [m]" by (metis One_nat_def length_0_conv length_Suc_conv)
  have "map em_operation [m] \<in> {[], [''WRITE''], [''READ''], [''WRITE'', ''READ'']}"
    using result_pair_is_one_attempt [OF example_pair] unfolding m by (rule conjunct1)
  then show ?thesis using one(2) unfolding m by simp
qed

definition example_definition :: io_definition where
  "example_definition = \<lparr> io_nodes = 2, io_size = ''1M'', io_threads = 4, io_depth = 8, io_configured_layout = [], io_exports = [] \<rparr>"

definition io_example_input :: io_input where
  "io_example_input = \<lparr> ii_dir = example_pair_dir, ii_env = [],
     ii_filters = \<lparr> ft_sizes = {}, ft_threads = {}, ft_nodes = {}, ft_iodepths = {} \<rparr>,
     ii_live = \<lparr> lr_level_none = True, lr_build = (\<lambda>_ _ _. Inl []) \<rparr>, ii_digest = (\<lambda>_. ([], 0)), ii_version = (\<lambda>_. None) \<rparr>"

theorem entry_complete_iff_witness:
  "\<exists>e. execution_task io_example_input \<lparr> pe_ledger = Some (''0001'', example_definition), pe_base = Some example_base, pe_metadata = None \<rparr>
     = Inr (Some e) \<and> oe_result_state e \<noteq> ''complete''"
proof -
  let ?planned = "\<lparr> pe_ledger = Some (''0001'', example_definition), pe_base = Some example_base, pe_metadata = None \<rparr>"
  have pair: "parse_result_pair (ii_dir io_example_input) example_base = Inr example_metrics"
    using example_pair by (simp add: io_example_input_def)
  then obtain e where e: "execution_task io_example_input ?planned = Inr (Some e)" by (simp add: execution_task_def)
  have "list_ex (\<lambda>m. em_iops_first m = None) example_metrics" by code_simp
  then have "\<not> (\<forall>m\<in>set example_metrics. phase_whole None m)" by (auto simp: list_ex_iff phase_whole_def)
  then show ?thesis using entry_complete_iff [OF e _ _ pair] e by auto
qed

definition example_names :: "string list" where
  "example_names = [''0001.sh'']"

definition example_tree :: fs_view where
  "example_tree = regular_files
     [([''r'', ''executions'', ''0001.sh''], ''# Auto-generated; do not edit. Coords: nodes=2 io_size=1M thread_count=4 io_depth=8'')]"

definition example_bases :: "string list" where
  "example_bases = [example_base, ''elbencho-1M-c_002-s_004-d_8_20250101Z120000'', ''elbencho-4K-c_001-s_004_20260101Z120000'']"

definition example_plan :: "planned_execution list" where
  "example_plan = projr (plan_io_executions example_tree [''r''] example_names (ii_filters io_example_input) example_bases)"

lemma example_planned:
  "plan_io_executions example_tree [''r''] example_names (ii_filters io_example_input) example_bases = Inr example_plan"
  by code_simp

theorem every_pair_planned_once_witness: "mset (planned_bases example_plan) = mset example_bases"
proof -
  have "distinct example_names" "distinct example_bases" by code_simp+
  note once = every_pair_planned_once [OF example_planned this]
  have "list_all (\<lambda>base. case pair_key_from_name base of None \<Rightarrow> False
      | Some key \<Rightarrow> filters_allow (ii_filters io_example_input) key \<or> \<not> listed example_plan) example_bases" by code_simp
  then have "filter (\<lambda>base. case pair_key_from_name base of None \<Rightarrow> False
      | Some key \<Rightarrow> filters_allow (ii_filters io_example_input) key \<or> \<not> listed example_plan) example_bases = example_bases"
    by (simp only: filter_id_conv list_all_iff)
  then show ?thesis using once by simp
qed

theorem newest_pair_is_planned_witness:
  "\<exists>p\<in>set example_plan. pe_base p = Some example_base \<and>
     pair_datestamp ''elbencho-1M-c_002-s_004-d_8_20250101Z120000'' \<le> pair_datestamp example_base"
proof -
  define p where "p = hd example_plan"
  have "example_plan \<noteq> []" "pe_ledger (hd example_plan) \<noteq> None" "pe_base (hd example_plan) = Some example_base" by code_simp+
  then obtain i d where p: "p \<in> set example_plan" "pe_ledger p = Some (i, d)" "pe_base p = Some example_base"
    unfolding p_def by (metis hd_in_set not_None_eq surj_pair)
  have "distinct example_names" by code_simp
  note newest = newest_pair_is_planned [OF example_planned this p]
  have "pair_key_from_name ''elbencho-1M-c_002-s_004-d_8_20250101Z120000'' = pair_key_from_name example_base"
    "''elbencho-1M-c_002-s_004-d_8_20250101Z120000'' \<in> set example_bases" by code_simp+
  then show ?thesis using newest p by auto
qed

end
