(* ===== verification/PyFloatValues.thy ===== *)
theory PyFloatValues
  imports PyFloats
begin

section \<open>Floats with their special values, and JSON values\<close>

text \<open>
  Where the code compares and adds floats that may be infinite or no number, \<open>PyFloats.pyfloat\<close> is too coarse. This theory
  keeps infinities and \<^verbatim>\<open>nan\<close> apart; a finite result beyond the largest double is infinite.
\<close>

datatype float_value = Num rat | Infinite bool | NaN

definition num_or_infinite :: "rat \<Rightarrow> float_value" where
  "num_or_infinite x = (if \<bar>fl x\<bar> \<le> MAX_DOUBLE then Num (fl x) else Infinite (x < 0))"

definition float_value_of_text :: "string \<Rightarrow> float_value option" where
  "float_value_of_text s = (case py_strip s of [] \<Rightarrow> None
     | c # r \<Rightarrow>
         (let u = (if c = CHR ''-'' \<or> c = CHR ''+'' then r else c # r); negative = (c = CHR ''-'') in
          if py_lower u = ''nan'' then Some NaN
          else if py_lower u = ''inf'' \<or> py_lower u = ''infinity'' then Some (Infinite negative)
          else map_option (\<lambda>x. num_or_infinite (if negative then - x else x)) (unsigned_float u)))"

fun fv_less :: "float_value \<Rightarrow> float_value \<Rightarrow> bool" where
  "fv_less NaN y = False"
| "fv_less x NaN = False"
| "fv_less (Num a) (Num b) = (a < b)"
| "fv_less (Infinite n) y = (n \<and> y \<noteq> Infinite True)"
| "fv_less (Num a) (Infinite n) = (\<not> n)"

fun fv_add :: "float_value \<Rightarrow> float_value \<Rightarrow> float_value" where
  "fv_add NaN y = NaN"
| "fv_add x NaN = NaN"
| "fv_add (Num a) (Num b) = num_or_infinite (a + b)"
| "fv_add (Infinite n) (Infinite m) = (if n = m then Infinite n else NaN)"
| "fv_add (Infinite n) (Num b) = Infinite n"
| "fv_add (Num a) (Infinite m) = Infinite m"

text \<open>The product with a positive factor\<close>

definition fv_scale :: "rat \<Rightarrow> float_value \<Rightarrow> float_value" where
  "fv_scale k x = (case x of Num a \<Rightarrow> num_or_infinite (a * k) | y \<Rightarrow> y)"

text \<open>\<^verbatim>\<open>min\<close> and \<^verbatim>\<open>max\<close> keep the first value that no later one beats.\<close>

fun fv_min :: "float_value list \<Rightarrow> float_value" where
  "fv_min (x # xs) = foldl (\<lambda>best v. if fv_less v best then v else best) x xs"
| "fv_min [] = Num 0"

fun fv_max :: "float_value list \<Rightarrow> float_value" where
  "fv_max (x # xs) = foldl (\<lambda>best v. if fv_less best v then v else best) x xs"
| "fv_max [] = Num 0"

definition finite_values :: "float_value list \<Rightarrow> rat list option" where
  "finite_values xs = (if list_all (\<lambda>x. case x of Num _ \<Rightarrow> True | _ \<Rightarrow> False) xs
     then Some (List.map_filter (\<lambda>x. case x of Num a \<Rightarrow> Some a | _ \<Rightarrow> None) xs) else None)"

text \<open>\<^verbatim>\<open>statistics.mean\<close>: special values are summed as floats.\<close>

definition fv_mean :: "float_value list \<Rightarrow> float_value" where
  "fv_mean xs = (case finite_values xs of Some rs \<Rightarrow> Num (py_mean rs)
     | None \<Rightarrow> foldl fv_add (Num 0) (filter (\<lambda>x. case x of Num _ \<Rightarrow> False | _ \<Rightarrow> True) xs))"

text \<open>\<^verbatim>\<open>statistics.stdev\<close> (3.11 and 3.12) asks the sum of special values, a float, for its \<^verbatim>\<open>numerator\<close>, which floats do not have.\<close>

definition fv_stdev :: "float_value list \<Rightarrow> float_value result" where
  "fv_stdev xs = (case finite_values xs of None \<Rightarrow> Inl AttributeError
     | Some rs \<Rightarrow> if \<bar>py_stdev rs\<bar> \<le> MAX_DOUBLE then Inr (Num (py_stdev rs)) else Inl OverflowError)"

subsection \<open>JSON values\<close>

text \<open>\<^verbatim>\<open>float(value)\<close> of a JSON value\<close>

definition float_of_value :: "pyval \<Rightarrow> float_value result" where
  "float_of_value v = (case v of
     PInt i \<Rightarrow> (case num_or_infinite (of_int i) of Infinite _ \<Rightarrow> Inl OverflowError | x \<Rightarrow> Inr x)
   | PBool b \<Rightarrow> Inr (Num (if b then 1 else 0))
   | PFloat t \<Rightarrow> (case float_value_of_text t of Some x \<Rightarrow> Inr x | None \<Rightarrow> Inl (ValueError t))
   | PStr t \<Rightarrow> (case float_value_of_text t of Some x \<Rightarrow> Inr x | None \<Rightarrow> Inl (ValueError t))
   | _ \<Rightarrow> Inl TypeError)"

text \<open>\<^verbatim>\<open>value[key]\<close> of a JSON value\<close>

definition item_of :: "pyval \<Rightarrow> string \<Rightarrow> pyval result" where
  "item_of v key = (case v of
     PDict d \<Rightarrow> (case map_of d (PStr key) of Some x \<Rightarrow> Inr x | None \<Rightarrow> Inl (KeyError key))
   | _ \<Rightarrow> Inl TypeError)"

end
