(* ===== verification/ResultPairs.thy ===== *)
theory ResultPairs
  imports ReportCommon
begin

section \<open>Pairing of result files, from the outside (lib/reporting\_common.py)\<close>

text \<open>
  \<open>discover_result_pairs\<close> collects the files of all directories, notes duplicate artifacts, and pairs what is
  left. Seen from the outside it has a short specification: a source is a directory that holds exactly one CSV and one OUT file of a
  key, and a key is paired when it has exactly one source.
\<close>

subsection \<open>The specification\<close>

definition artifacts :: "(string \<Rightarrow> ('k \<times> string) option) \<Rightarrow> string list \<Rightarrow> 'k \<Rightarrow> string \<Rightarrow> string list" where
  "artifacts match_file names key extension = filter (\<lambda>name. match_file name = Some (key, extension)) names"

definition only_artifact :: "string \<Rightarrow> string list \<Rightarrow> string option" where
  "only_artifact dir names = (case names of [name] \<Rightarrow> Some (path_join dir name) | _ \<Rightarrow> None)"

definition source_pair ::
  "(string \<Rightarrow> string list option) \<Rightarrow> (string \<Rightarrow> ('k \<times> string) option) \<Rightarrow> string \<Rightarrow> 'k \<Rightarrow> (string \<times> string) option" where
  "source_pair listdir match_file dir key = Option.bind (listdir dir) (\<lambda>names.
     Option.bind (only_artifact dir (artifacts match_file names key ''csv'')) (\<lambda>csv.
     Option.bind (only_artifact dir (artifacts match_file names key ''out'')) (\<lambda>out. Some (csv, out))))"

subsection \<open>Collecting the files\<close>

definition paths_at :: "'k found \<Rightarrow> string \<times> 'k \<Rightarrow> string \<Rightarrow> string option" where
  "paths_at st source extension = Option.bind (dict_get (fp_pairs st) source) (\<lambda>paths. dict_get paths extension)"

definition first_path :: "string \<Rightarrow> string list \<Rightarrow> string option" where
  "first_path dir names = (case names of [] \<Rightarrow> None | name # _ \<Rightarrow> Some (path_join dir name))"

definition is_duplicate :: "'k found \<Rightarrow> string \<times> 'k \<Rightarrow> bool" where
  "is_duplicate st source \<longleftrightarrow> source \<in> set (fp_duplicates st)"

lemma note_file_unmatched: "match_file name = None \<Longrightarrow> note_file match_file dir name st = st"
  by (simp add: note_file_def)

lemma note_file_known:
  assumes "match_file name = Some (k, e)" and "paths_at st (dir, k) e \<noteq> None"
  shows "paths_at (note_file match_file dir name st) = paths_at st"
    and "is_duplicate (note_file match_file dir name st) source \<longleftrightarrow> source = (dir, k) \<or> is_duplicate st source"
    and "dict_wf (fp_pairs (note_file match_file dir name st)) \<longleftrightarrow> dict_wf (fp_pairs st)"
proof -
  obtain paths where "dict_get (fp_pairs st) (dir, k) = Some paths" "dict_get paths e \<noteq> None"
    using assms(2) by (auto simp: paths_at_def bind_eq_Some_conv)
  then have "note_file match_file dir name st = st \<lparr> fp_warnings := fp_warnings st @ [DuplicateArtifact e k dir],
      fp_duplicates := fp_duplicates st @ [(dir, k)] \<rparr>"
    using assms(1) by (simp add: note_file_def)
  then show "paths_at (note_file match_file dir name st) = paths_at st"
    and "is_duplicate (note_file match_file dir name st) source \<longleftrightarrow> source = (dir, k) \<or> is_duplicate st source"
    and "dict_wf (fp_pairs (note_file match_file dir name st)) \<longleftrightarrow> dict_wf (fp_pairs st)"
    by (auto simp: paths_at_def is_duplicate_def fun_eq_iff)
qed

lemma note_file_new:
  assumes "match_file name = Some (k, e)" and "paths_at st (dir, k) e = None"
  shows "paths_at (note_file match_file dir name st) source x =
      (if source = (dir, k) \<and> x = e then Some (path_join dir name) else paths_at st source x)"
    and "is_duplicate (note_file match_file dir name st) source \<longleftrightarrow> is_duplicate st source"
    and "dict_wf (fp_pairs st) \<Longrightarrow> dict_wf (fp_pairs (note_file match_file dir name st))"
proof -
  define paths where "paths = (case dict_get (fp_pairs st) (dir, k) of None \<Rightarrow> [] | Some d \<Rightarrow> d)"
  have "dict_get paths e = None" using assms(2) by (auto simp: paths_at_def paths_def split: option.splits)
  then have "note_file match_file dir name st =
      st \<lparr> fp_pairs := dict_set (dir, k) (dict_set e (path_join dir name) paths) (fp_pairs st) \<rparr>"
    using assms(1) by (simp add: note_file_def paths_def Let_def)
  then show "paths_at (note_file match_file dir name st) source x =
      (if source = (dir, k) \<and> x = e then Some (path_join dir name) else paths_at st source x)"
    and "is_duplicate (note_file match_file dir name st) source \<longleftrightarrow> is_duplicate st source"
    and "dict_wf (fp_pairs st) \<Longrightarrow> dict_wf (fp_pairs (note_file match_file dir name st))"
    by (auto simp: paths_at_def is_duplicate_def paths_def split: option.splits)
qed

lemma artifacts_Cons:
  "artifacts match_file (name # names) k e
    = (if match_file name = Some (k, e) then name # artifacts match_file names k e else artifacts match_file names k e)"
  by (simp add: artifacts_def)

lemma noted_paths:
  "paths_at (fold (note_file match_file dir) names st) (d, k) e =
     (case paths_at st (d, k) e of Some p \<Rightarrow> Some p
      | None \<Rightarrow> if d = dir then first_path dir (artifacts match_file names k e) else None)"
proof (induction names arbitrary: st)
  case Nil
  then show ?case by (simp add: artifacts_def first_path_def split: option.split)
next
  case (Cons name names)
  show ?case
  proof (cases "match_file name")
    case None
    then show ?thesis using None by (auto simp: Cons.IH note_file_unmatched [of match_file, OF None] artifacts_Cons split: option.split)
  next
    case (Some m)
    obtain k' e' where m: "match_file name = Some (k', e')" using Some by (cases m) auto
    show ?thesis
    proof (cases "paths_at st (dir, k') e'")
      case None
      then show ?thesis
        by (auto simp: Cons.IH note_file_new [of match_file name k' e' st dir, OF m None] artifacts_Cons m first_path_def split: option.splits)
    next
      case (Some p)
      then show ?thesis
        by (auto simp: Cons.IH note_file_known [of match_file name k' e' st dir, OF m] artifacts_Cons m first_path_def split: option.splits)
    qed
  qed
qed

lemma noted_duplicates:
  "is_duplicate (fold (note_file match_file dir) names st) (d, k) \<longleftrightarrow> is_duplicate st (d, k) \<or>
     d = dir \<and> (\<exists>e. artifacts match_file names k e \<noteq> [] \<and>
       (paths_at st (d, k) e \<noteq> None \<or> 2 \<le> length (artifacts match_file names k e)))"
proof (induction names arbitrary: st)
  case Nil
  then show ?case by (simp add: artifacts_def)
next
  case (Cons name names)
  show ?case
  proof (cases "match_file name")
    case None
    then show ?thesis using None by (auto simp: Cons.IH note_file_unmatched [of match_file, OF None] artifacts_Cons split: option.split)
  next
    case (Some m)
    obtain k' e' where m: "match_file name = Some (k', e')" using Some by (cases m) auto
    have len: "Suc 0 \<le> length xs \<longleftrightarrow> xs \<noteq> []" for xs :: "string list" by (cases xs) simp_all
    let ?st = "note_file match_file dir name st"
    show ?thesis
    proof (cases "(d, k) = (dir, k')")
      case False
      have "is_duplicate ?st (d, k) = is_duplicate st (d, k)" "paths_at ?st (d, k) = paths_at st (d, k)"
        using False note_file_new [of match_file name k' e' st dir, OF m] note_file_known [of match_file name k' e' st dir, OF m]
        by (cases "paths_at st (dir, k') e'"; auto simp: fun_eq_iff)+
      moreover have "artifacts match_file (name # names) k = artifacts match_file names k" if "d = dir"
        using False that m by (auto simp: artifacts_Cons fun_eq_iff)
      ultimately show ?thesis by (auto simp: Cons.IH)
    next
      case True
      show ?thesis
      proof (cases "paths_at st (dir, k') e'")
        case None
        note new = note_file_new [of match_file name k' e' st dir, OF m None]
        have eq: "artifacts match_file names k' e \<noteq> [] \<and> (paths_at ?st (dir, k') e \<noteq> None \<or> 2 \<le> length (artifacts match_file names k' e))
          \<longleftrightarrow> artifacts match_file (name # names) k' e \<noteq> [] \<and> (paths_at st (dir, k') e \<noteq> None
            \<or> 2 \<le> length (artifacts match_file (name # names) k' e))" for e
          by (cases "e = e'") (auto simp: new None artifacts_Cons m len)
        have dk: "d = dir" "k = k'" using True by simp_all
        show ?thesis unfolding fold_simps(2) Cons.IH unfolding dk new(2) by (simp only: eq simp_thms)
      next
        case (Some p)
        then have known: "paths_at st (dir, k') e' \<noteq> None" by simp
        have dk: "d = dir" "k = k'" using True by simp_all
        have "is_duplicate (fold (note_file match_file dir) (name # names) st) (d, k)"
          unfolding fold_simps(2) Cons.IH
          using note_file_known(2) [of match_file name k' e' st dir, OF m known] dk by simp
        moreover have "artifacts match_file (name # names) k' e' \<noteq> []" by (simp add: artifacts_Cons m)
        ultimately show ?thesis using dk known by blast
      qed
    qed
  qed
qed

lemma noted_wf: "dict_wf (fp_pairs st) \<Longrightarrow> dict_wf (fp_pairs (fold (note_file match_file dir) names st))"
proof (induction names arbitrary: st)
  case (Cons name names)
  have "dict_wf (fp_pairs (note_file match_file dir name st))"
  proof (cases "match_file name")
    case None
    then show ?thesis using Cons.prems by (simp add: note_file_unmatched)
  next
    case (Some m)
    obtain k e where m: "match_file name = Some (k, e)" using Some by (cases m) auto
    show ?thesis
      using note_file_new(3) [of match_file name k e st dir, OF m] note_file_known(3) [of match_file name k e st dir, OF m] Cons.prems
      by (cases "paths_at st (dir, k) e") auto
  qed
  then show ?case by (simp add: Cons.IH)
qed simp

subsection \<open>All directories\<close>

lemma noted_directories:
  assumes "distinct dirs" and "\<And>d k e. d \<in> set dirs \<Longrightarrow> paths_at st (d, k) e = None \<and> \<not> is_duplicate st (d, k)"
    and "dict_wf (fp_pairs st)"
  shows "dict_wf (fp_pairs (fold (note_directory match_file listdir) dirs st))
    \<and> paths_at (fold (note_directory match_file listdir) dirs st) (d, k) e =
      (if d \<in> set dirs then Option.bind (listdir d) (\<lambda>names. first_path d (artifacts match_file names k e)) else paths_at st (d, k) e)
    \<and> (is_duplicate (fold (note_directory match_file listdir) dirs st) (d, k) \<longleftrightarrow>
      (if d \<in> set dirs then \<exists>names e. listdir d = Some names \<and> 2 \<le> length (artifacts match_file names k e) else is_duplicate st (d, k)))"
  using assms
proof (induction dirs arbitrary: st)
  case Nil
  then show ?case by simp
next
  case (Cons dir dirs)
  define st' where "st' = note_directory match_file listdir dir st"
  have wf: "dict_wf (fp_pairs st')" using Cons.prems(3) by (auto simp: st'_def note_directory_def noted_wf split: option.split)
  have paths: "paths_at st' (d, k) e =
      (if d = dir then Option.bind (listdir d) (\<lambda>names. first_path d (artifacts match_file names k e)) else paths_at st (d, k) e)" for d k e
  proof (cases "listdir dir")
    case None
    then have "paths_at st' = paths_at st" by (auto simp: st'_def note_directory_def paths_at_def fun_eq_iff)
    then show ?thesis using None Cons.prems(2) [of dir] by auto
  next
    case (Some names)
    then show ?thesis using Cons.prems(2) [of dir k e]
      by (auto simp: st'_def note_directory_def noted_paths split: option.split)
  qed
  have dup: "is_duplicate st' (d, k) \<longleftrightarrow>
      (if d = dir then \<exists>names e. listdir d = Some names \<and> 2 \<le> length (artifacts match_file names k e) else is_duplicate st (d, k))" for d k
  proof (cases "listdir dir")
    case None
    then have "is_duplicate st' = is_duplicate st" by (auto simp: st'_def note_directory_def is_duplicate_def fun_eq_iff)
    then show ?thesis using None Cons.prems(2) [of dir] by auto
  next
    case (Some names)
    have "is_duplicate st' (d, k) \<longleftrightarrow> is_duplicate st (d, k) \<or> d = dir \<and> (\<exists>e. artifacts match_file names k e \<noteq> [] \<and>
       (paths_at st (d, k) e \<noteq> None \<or> 2 \<le> length (artifacts match_file names k e)))"
      by (simp add: st'_def note_directory_def Some noted_duplicates)
    moreover have "paths_at st (dir, k) e = None" "\<not> is_duplicate st (dir, k)" for e using Cons.prems(2) [of dir k e] by simp_all
    moreover have "2 \<le> length xs \<Longrightarrow> xs \<noteq> []" for xs :: "string list" by auto
    ultimately show ?thesis using Some by (cases "d = dir") auto
  qed
  have "distinct dirs" "dir \<notin> set dirs" using Cons.prems(1) by simp_all
  moreover have "paths_at st' (d, k) e = None \<and> \<not> is_duplicate st' (d, k)" if "d \<in> set dirs" for d k e
    using that \<open>dir \<notin> set dirs\<close> Cons.prems(2) [of d k e] by (auto simp: paths dup)
  ultimately have IH: "dict_wf (fp_pairs (fold (note_directory match_file listdir) dirs st'))
    \<and> paths_at (fold (note_directory match_file listdir) dirs st') (d, k) e =
      (if d \<in> set dirs then Option.bind (listdir d) (\<lambda>names. first_path d (artifacts match_file names k e)) else paths_at st' (d, k) e)
    \<and> (is_duplicate (fold (note_directory match_file listdir) dirs st') (d, k) \<longleftrightarrow>
      (if d \<in> set dirs then \<exists>names e. listdir d = Some names \<and> 2 \<le> length (artifacts match_file names k e) else is_duplicate st' (d, k)))"
    by (intro Cons.IH wf)
  show ?case
    unfolding fold_simps st'_def [symmetric] using IH \<open>dir \<notin> set dirs\<close> unfolding paths dup by (cases "d = dir") simp_all
qed

subsection \<open>Choosing the pairs\<close>

definition offered :: "(string \<times> 'k) list \<Rightarrow> (string \<times> 'k) \<times> (string, string) dict \<Rightarrow> ('k \<times> (string \<times> string)) option" where
  "offered duplicates entry = (case entry of (source, paths) \<Rightarrow>
     if source \<in> set duplicates then None
     else Option.bind (dict_get paths ''csv'') (\<lambda>csv. Option.bind (dict_get paths ''out'') (\<lambda>out. Some (snd source, (csv, out)))))"

lemma pair_source_cases:
  "pr_result (pair_source duplicates entry st) = (case offered duplicates entry of None \<Rightarrow> pr_result st
     | Some (k, p) \<Rightarrow> if dict_get (pr_result st) k = None then dict_set k p (pr_result st) else pr_result st)"
  "set (pr_ambiguous (pair_source duplicates entry st)) = (case offered duplicates entry of None \<Rightarrow> set (pr_ambiguous st)
     | Some (k, p) \<Rightarrow> if dict_get (pr_result st) k = None then set (pr_ambiguous st) else insert k (set (pr_ambiguous st)))"
  by (auto simp: pair_source_def offered_def split: option.split prod.split)

lemma paired_sources:
  fixes entries :: "((string \<times> 'k) \<times> (string, string) dict) list"
  assumes "dict_wf (pr_result st)"
  shows "dict_wf (pr_result (fold (pair_source duplicates) entries st))
    \<and> dict_get (pr_result (fold (pair_source duplicates) entries st)) key =
      (case dict_get (pr_result st) key of Some p \<Rightarrow> Some p | None \<Rightarrow> map_of (List.map_filter (offered duplicates) entries) key)
    \<and> (key \<in> set (pr_ambiguous (fold (pair_source duplicates) entries st)) \<longleftrightarrow> key \<in> set (pr_ambiguous st) \<or>
      (let more = filter (\<lambda>x. fst x = key) (List.map_filter (offered duplicates) entries)
       in more \<noteq> [] \<and> (dict_get (pr_result st) key \<noteq> None \<or> 2 \<le> length more)))"
  using assms
proof (induction entries arbitrary: st)
  case Nil
  then show ?case by (simp add: List.map_filter_def split: option.split)
next
  case (Cons entry entries)
  define st' where "st' = pair_source duplicates entry st"
  have len: "Suc 0 \<le> length xs \<longleftrightarrow> xs \<noteq> []" for xs :: "('k \<times> (string \<times> string)) list" by (cases xs) simp_all
  have wf: "dict_wf (pr_result st')" using Cons.prems by (auto simp: st'_def pair_source_cases split: option.split prod.split)
  define more where "more = List.map_filter (offered duplicates) entries"
  note IH = Cons.IH [OF wf, folded more_def]
  show ?case
  proof (cases "offered duplicates entry")
    case None
    then have "pr_result st' = pr_result st" "set (pr_ambiguous st') = set (pr_ambiguous st)"
      by (simp_all add: st'_def pair_source_cases)
    moreover have offers: "List.map_filter (offered duplicates) (entry # entries) = more"
      by (simp add: more_def List.map_filter_simps None)
    ultimately show ?thesis using IH unfolding offers fold_simps st'_def [symmetric] by simp
  next
    case (Some o')
    obtain k p where o: "offered duplicates entry = Some (k, p)" using Some by (cases o') auto
    then have offers: "List.map_filter (offered duplicates) (entry # entries) = (k, p) # more"
      by (simp add: more_def List.map_filter_simps)
    show ?thesis
    proof (cases "dict_get (pr_result st) k")
      case None
      then have "pr_result st' = dict_set k p (pr_result st)" "set (pr_ambiguous st') = set (pr_ambiguous st)"
        by (simp_all add: st'_def pair_source_cases o)
      then show ?thesis
        using IH None unfolding offers fold_simps st'_def [symmetric] by (cases "key = k") (auto simp: Let_def len split: option.split)
    next
      case (Some q)
      then have "pr_result st' = pr_result st" "set (pr_ambiguous st') = insert k (set (pr_ambiguous st))"
        by (simp_all add: st'_def pair_source_cases o)
      then show ?thesis
        using IH Some unfolding offers fold_simps st'_def [symmetric] by (cases "key = k") (auto simp: Let_def split: option.split)
    qed
  qed
qed

subsection \<open>Every key with one source\<close>

lemma only_artifact_Some:
  "only_artifact dir names = Some p \<longleftrightarrow> first_path dir names = Some p \<and> length names < 2"
  by (auto simp: only_artifact_def first_path_def split: list.split)

lemma distinct_one: "distinct xs \<Longrightarrow> set xs = {x} \<longleftrightarrow> xs = [x]"
  by (cases xs; cases "tl xs") auto

lemma only_artifact_cases:
  "only_artifact dir names = (if 2 \<le> length names then None else first_path dir names)"
  by (auto simp: only_artifact_def first_path_def split: list.split)

lemma offered_sources:
  fixes match_file :: "string \<Rightarrow> ('k \<times> string) option" and found :: "'k found"
  assumes kinds: "\<And>name k e. match_file name = Some (k, e) \<Longrightarrow> e \<in> {''csv'', ''out''}"
    and paths: "\<And>e. paths_at found (d, k) e =
      (if d \<in> dirs then Option.bind (listdir d) (\<lambda>names. first_path d (artifacts match_file names k e)) else None)"
    and dup: "is_duplicate found (d, k) \<longleftrightarrow>
      d \<in> dirs \<and> (\<exists>names e. listdir d = Some names \<and> 2 \<le> length (artifacts match_file names k e))"
    and entry: "dict_get (fp_pairs found) (d, k) = Some m"
  shows "offered (fp_duplicates found) ((d, k), m)
    = (if d \<in> dirs then map_option (Pair k) (source_pair listdir match_file d k) else None)"
proof (cases "d \<in> dirs \<and> listdir d \<noteq> None")
  case False
  then have "paths_at found (d, k) ''csv'' = None" by (auto simp: paths)
  then have "dict_get m ''csv'' = None" using entry by (simp add: paths_at_def)
  then show ?thesis using False by (auto simp: offered_def source_pair_def)
next
  case True
  then obtain names where names: "d \<in> dirs" "listdir d = Some names" by auto
  have get: "dict_get m e = first_path d (artifacts match_file names k e)" for e
    using paths [of e] entry names by (simp add: paths_at_def)
  have "artifacts match_file names k e = []" if "e \<notin> {''csv'', ''out''}" for e
    unfolding artifacts_def filter_empty_conv using that kinds by blast
  then have "(\<exists>e. 2 \<le> length (artifacts match_file names k e)) \<longleftrightarrow>
      2 \<le> length (artifacts match_file names k ''csv'') \<or> 2 \<le> length (artifacts match_file names k ''out'')"
    by (metis insert_iff length_0_conv not_numeral_le_zero singletonD)
  then have "(d, k) \<in> set (fp_duplicates found) \<longleftrightarrow>
      2 \<le> length (artifacts match_file names k ''csv'') \<or> 2 \<le> length (artifacts match_file names k ''out'')"
    using dup names by (simp add: is_duplicate_def)
  then show ?thesis
    by (cases "first_path d (artifacts match_file names k ''csv'')"; cases "first_path d (artifacts match_file names k ''out'')")
      (simp_all add: offered_def source_pair_def names get only_artifact_cases)
qed

lemma one_offer:
  assumes "dict_wf entries" and "\<And>d k m. ((d, k), m) \<in> set entries \<Longrightarrow> f ((d, k), m) = map_option (Pair k) (g d k)"
    and "\<And>d. g d key \<noteq> None \<Longrightarrow> (d, key) \<in> set (dict_keys entries)"
  shows "filter (\<lambda>x. fst x = key) (List.map_filter f entries) = [(key, p)] \<longleftrightarrow>
    (\<exists>d. {d. g d key \<noteq> None} = {d} \<and> g d key = Some p)"
proof -
  define sources where "sources = map (fst \<circ> fst) (filter (\<lambda>((d, k), m). k = key \<and> g d k \<noteq> None) entries)"
  have "filter (\<lambda>x. fst x = key) (List.map_filter f entries) = map (\<lambda>d. (key, the (g d key))) sources"
    using assms(2) unfolding sources_def by (induction entries) (auto simp: List.map_filter_simps split: option.splits)
  moreover have "distinct sources"
    using assms(1) unfolding sources_def by (induction entries) (auto simp: dict_wf_def image_iff)
  moreover have "set sources = {d. g d key \<noteq> None}"
    using assms(3) by (force simp: sources_def)
  moreover have "g d key = Some (the (g d key))" if "sources = [d]" for d
  proof -
    have "d \<in> {d. g d key \<noteq> None}" using \<open>set sources = {d. g d key \<noteq> None}\<close> that by auto
    then show ?thesis by auto
  qed
  ultimately show ?thesis
    using distinct_one [of sources] by (cases sources; cases "tl sources") auto
qed

lemma distinct_dirs: "distinct (rev (remdups (rev xs)))" "set (rev (remdups (rev xs))) = set xs"
  by simp_all

lemma discovered_pairs:
  fixes match_file :: "string \<Rightarrow> ('k \<times> string) option"
  assumes kinds: "\<And>name k e. match_file name = Some (k, e) \<Longrightarrow> e \<in> {''csv'', ''out''}"
  shows "dict_wf (fst (discover_result_pairs realpath listdir match_file input_dirs))"
    and "(key, paths) \<in> set (fst (discover_result_pairs realpath listdir match_file input_dirs)) \<longleftrightarrow>
      (\<exists>dir. {d \<in> realpath ` set input_dirs. source_pair listdir match_file d key \<noteq> None} = {dir}
        \<and> source_pair listdir match_file dir key = Some paths)"
proof -
  define dirs where "dirs = rev (remdups (rev (map realpath input_dirs)))"
  have dirs: "distinct dirs" "set dirs = realpath ` set input_dirs" using distinct_dirs by (simp_all add: dirs_def)
  define found where "found = fold (note_directory match_file listdir) dirs \<lparr> fp_pairs = [], fp_duplicates = [], fp_warnings = [] \<rparr>"
  define entries where "entries = fp_pairs found"
  define offers where "offers = List.map_filter (offered (fp_duplicates found)) entries"
  define paired where "paired = fold (pair_source (fp_duplicates found)) entries
    \<lparr> pr_result = [], pr_ambiguous = [], pr_warnings = fp_warnings found \<rparr>"
  have result: "fst (discover_result_pairs realpath listdir match_file input_dirs)
      = filter (\<lambda>(key, _). key \<notin> set (pr_ambiguous paired)) (pr_result paired)"
    by (simp add: discover_result_pairs_def Let_def paired_def entries_def found_def dirs_def)
  have noted: "dict_wf entries"
    "paths_at found (d, k) e = (if d \<in> set dirs then Option.bind (listdir d) (\<lambda>names. first_path d (artifacts match_file names k e)) else None)"
    "is_duplicate found (d, k) \<longleftrightarrow> d \<in> set dirs \<and> (\<exists>names e. listdir d = Some names \<and> 2 \<le> length (artifacts match_file names k e))" for d k e
    using noted_directories [OF dirs(1), of "\<lparr> fp_pairs = [], fp_duplicates = [], fp_warnings = [] \<rparr>" match_file listdir d k e]
    by (simp_all add: entries_def found_def paths_at_def is_duplicate_def)
  have paired_facts: "dict_wf (pr_result paired)" "dict_get (pr_result paired) k = map_of offers k"
    "k \<in> set (pr_ambiguous paired) \<longleftrightarrow> 2 \<le> length (filter (\<lambda>x. fst x = k) offers)" for k
    using paired_sources [of "\<lparr> pr_result = [], pr_ambiguous = [], pr_warnings = fp_warnings found \<rparr>" "fp_duplicates found" entries k]
    by (auto simp: paired_def offers_def Let_def)
  show "dict_wf (fst (discover_result_pairs realpath listdir match_file input_dirs))"
    using paired_facts(1) by (simp add: result dict_wf_def distinct_map_filter)
  define g where "g = (\<lambda>d k. if d \<in> set dirs then source_pair listdir match_file d k else None)"
  have offer: "offered (fp_duplicates found) ((d, k), m) = map_option (Pair k) (g d k)" if "((d, k), m) \<in> set entries" for d k m
  proof -
    have "dict_get (fp_pairs found) (d, k) = Some m" using that noted(1) by (simp add: entries_def dict_wf_def)
    have "offered (fp_duplicates found) ((d, k), m)
        = (if d \<in> set dirs then map_option (Pair k) (source_pair listdir match_file d k) else None)"
    proof (rule offered_sources)
      show "e \<in> {''csv'', ''out''}" if "match_file name = Some (k, e)" for name k e using that by (rule kinds)
      show "dict_get (fp_pairs found) (d, k) = Some m" by fact
    qed (rule noted(2), rule noted(3))
    then show ?thesis by (simp add: g_def)
  qed
  have present: "(d, key) \<in> set (dict_keys entries)" if g: "g d key \<noteq> None" for d
  proof -
    have "paths_at found (d, key) ''csv'' \<noteq> None"
      using g by (auto simp: g_def noted(2) source_pair_def only_artifact_Some bind_eq_Some_conv split: if_splits)
    then obtain m where "dict_get entries (d, key) = Some m" by (auto simp: paths_at_def entries_def bind_eq_Some_conv)
    then show ?thesis by (force dest: map_of_SomeD)
  qed
  have "(key, paths) \<in> set (fst (discover_result_pairs realpath listdir match_file input_dirs)) \<longleftrightarrow>
      map_of offers key = Some paths \<and> length (filter (\<lambda>x. fst x = key) offers) < 2"
    using map_of_eq_Some_iff [OF paired_facts(1) [unfolded dict_wf_def], of key paths] paired_facts(2,3)
    by (auto simp: result not_le)
  also have "\<dots> \<longleftrightarrow> filter (\<lambda>x. fst x = key) offers = [(key, paths)]"
  proof -
    have "map_of offers key = map_of (filter (\<lambda>x. fst x = key) offers) key" by (induction offers) auto
    then show ?thesis by (cases "filter (\<lambda>x. fst x = key) offers"; cases "tl (filter (\<lambda>x. fst x = key) offers)") 
      (auto dest: filter_eq_ConsD)
  qed
  also have "\<dots> \<longleftrightarrow> (\<exists>d. {d. g d key \<noteq> None} = {d} \<and> g d key = Some paths)"
    unfolding offers_def by (rule one_offer [OF noted(1) offer present])
  also have "{d. g d key \<noteq> None} = {d \<in> realpath ` set input_dirs. source_pair listdir match_file d key \<noteq> None}"
    by (auto simp: g_def dirs(2))
  finally have found_iff: "(key, paths) \<in> set (fst (discover_result_pairs realpath listdir match_file input_dirs)) \<longleftrightarrow>
      (\<exists>d. {d \<in> realpath ` set input_dirs. source_pair listdir match_file d key \<noteq> None} = {d} \<and> g d key = Some paths)" .
  have same: "g d key = source_pair listdir match_file d key"
    if "{d \<in> realpath ` set input_dirs. source_pair listdir match_file d key \<noteq> None} = {d}" for d
    using that by (auto simp: g_def dirs(2))
  show "(key, paths) \<in> set (fst (discover_result_pairs realpath listdir match_file input_dirs)) \<longleftrightarrow>
      (\<exists>dir. {d \<in> realpath ` set input_dirs. source_pair listdir match_file d key \<noteq> None} = {dir}
        \<and> source_pair listdir match_file dir key = Some paths)"
    unfolding found_iff by (intro ex_cong conj_cong refl) (simp only: same)
qed

end
