(* ===== verification/Netbench.thy ===== *)
theory Netbench
  imports PyFloatValues MdtestFiles ResultPairs
begin

section \<open>Network reports (utils/extract-netbench.py)\<close>

text \<open>
  The reporter of the network benchmark: it pairs the CSV and OUT files of every iteration and direction,
  parses them, groups the iterations by mode, node count and thread count, and prints one row per group. The model
  follows \<^verbatim>\<open>main\<close> from the names of the files to the filtered rows; tables, plots and
  \<^verbatim>\<open>--test-parse\<close> are left out. A row of the report extends the record whose node and thread counts the shared
  filter reads.
\<close>

subsection \<open>Names of result files\<close>

type_synonym netbench_key = "string \<times> nat \<times> nat \<times> string \<times> nat \<times> string"

definition eat_one_of :: "string list \<Rightarrow> string \<Rightarrow> (string \<times> string) option" where
  "eat_one_of words s = map_option (\<lambda>w. (w, drop (length w) s)) (find (startswith s) words)"

text \<open>\<^verbatim>\<open>FILENAME_PATTERN.fullmatch\<close> and \<^verbatim>\<open>key_from_match\<close>: the key and the extension\<close>

definition match_netbench_name :: "string \<Rightarrow> (netbench_key \<times> string) option" where
  "match_netbench_name s =
     Option.bind (eat ''netbench-'' s) (\<lambda>s. Option.bind (eat_one_of [''bidir'', ''half''] s) (\<lambda>(mode, s).
     Option.bind (eat ''-c_'' s) (\<lambda>s. Option.bind (eat_run is_digit s) (\<lambda>(nodes, s).
     Option.bind (eat ''-t_'' s) (\<lambda>s. Option.bind (eat_run is_digit s) (\<lambda>(threads, s).
     Option.bind (eat ''_'' s) (\<lambda>s. Option.bind (eat_digits 8 s) (\<lambda>(day, s). Option.bind (eat ''Z'' s) (\<lambda>s.
     Option.bind (eat_digits 6 s) (\<lambda>(time, s).
     Option.bind (eat ''_iter'' s) (\<lambda>s. Option.bind (eat_run is_digit s) (\<lambda>(iteration, s).
     Option.bind (eat ''_'' s) (\<lambda>s. Option.bind (eat_one_of [''AtoB'', ''BtoA''] s) (\<lambda>(direction, s).
     Option.bind (eat ''.'' s) (\<lambda>s.
       if s = ''csv'' \<or> s = ''out''
       then Some ((mode, undec nodes, undec threads, day @ ''Z'' @ time, undec iteration, direction), s)
       else None)))))))))))))))"

definition discover_files :: "(string \<Rightarrow> string) \<Rightarrow> (string \<Rightarrow> string list option) \<Rightarrow> string list \<Rightarrow>
    (netbench_key, string \<times> string) dict \<times> netbench_key pair_warning list" where
  "discover_files realpath listdir input_dirs = discover_result_pairs realpath listdir match_netbench_name input_dirs"

subsection \<open>One iteration\<close>

record netbench_csv =
  nc_mib_s_write :: float_value
  nc_mib_s_read :: float_value
  nc_lat_min_us :: float_value
  nc_lat_max_us :: float_value
  nc_command :: "string option"

definition no_netbench_csv :: netbench_csv where
  "no_netbench_csv = \<lparr> nc_mib_s_write = Num 0, nc_mib_s_read = Num 0, nc_lat_min_us = Num 0, nc_lat_max_us = Num 0,
     nc_command = Some [] \<rparr>"

text \<open>A cell that is missing, empty or no number leaves the value of an earlier row.\<close>

definition number_cell :: "csv_row \<Rightarrow> string \<Rightarrow> float_value \<Rightarrow> float_value" where
  "number_cell row column earlier = (case row_get row column of None \<Rightarrow> earlier
     | Some cell \<Rightarrow> if cell = [] then earlier else (case float_value_of_text cell of None \<Rightarrow> earlier | Some v \<Rightarrow> v))"

definition net_row :: "csv_row \<Rightarrow> netbench_csv \<Rightarrow> netbench_csv result" where
  "net_row row csv = (case row_get row ''operation'' of
     None \<Rightarrow> Inl AttributeError
   | Some op \<Rightarrow> Inr (if upper_ascii op \<noteq> ''NET'' then csv
       else \<lparr> nc_mib_s_write = number_cell row ''MiB/s [first]'' (nc_mib_s_write csv),
              nc_mib_s_read = number_cell row ''rwmix read MiB/s [first]'' (nc_mib_s_read csv),
              nc_lat_min_us = number_cell row ''IO lat us [min]'' (nc_lat_min_us csv),
              nc_lat_max_us = number_cell row ''IO lat us [max]'' (nc_lat_max_us csv),
              nc_command = row_get row ''command'' \<rparr>))"

definition parse_net_csv :: "string \<Rightarrow> netbench_csv result" where
  "parse_net_csv content = rfold net_row (csv_dict_rows content) no_netbench_csv"

text \<open>\<^verbatim>\<open>IO wr lat hist\s*:\s*\[\s*([^\]]+)\s*\]\<close>\<close>

definition write_histogram_at :: "string \<Rightarrow> string option" where
  "write_histogram_at s =
     Option.bind (eat ''IO wr lat hist'' s) (\<lambda>r. Option.bind (eat '':'' (skip_space r)) (\<lambda>t.
     Option.bind (eat ''['' (skip_space t)) bracket_group))"

fun search_write_histogram :: "string \<Rightarrow> string option" where
  "search_write_histogram [] = None"
| "search_write_histogram (c # s) = (case write_histogram_at (c # s) of Some g \<Rightarrow> Some g | None \<Rightarrow> search_write_histogram s)"

definition parse_net_out :: "string \<Rightarrow> (int, int) dict" where
  "parse_net_out content = (case search_write_histogram content of None \<Rightarrow> [] | Some g \<Rightarrow> parse_integer_histogram g)"

record net_iteration =
  ni_mode :: string
  ni_node_count :: nat
  ni_thread_count :: nat
  ni_datestamp :: string
  ni_iteration :: nat
  ni_direction :: string
  ni_mib_s_write :: float_value
  ni_mib_s_total :: float_value
  ni_lat_min_sec :: float_value
  ni_lat_max_sec :: float_value
  ni_histogram :: "(int, int) dict"
  ni_command :: "string option"

text \<open>\<open>read\<close> is the text of a file with universal newlines, or why it cannot be read. Every exception is caught.\<close>

definition parse_file_pair ::
  "(string \<Rightarrow> string result) \<Rightarrow> netbench_key \<Rightarrow> string \<times> string \<Rightarrow> net_iteration option" where
  "parse_file_pair read key paths =
     (case (key, paths) of ((mode, nodes, threads, datestamp, iteration, direction), csv_path, out_path) \<Rightarrow>
       (case rbind (rbind (read csv_path) parse_net_csv) (\<lambda>csv.
               rbind (read out_path) (\<lambda>out. Inr (csv, parse_net_out out))) of
          Inl e \<Rightarrow> None
        | Inr (csv, histogram) \<Rightarrow>
            Some \<lparr> ni_mode = mode, ni_node_count = nodes, ni_thread_count = threads, ni_datestamp = datestamp,
              ni_iteration = iteration, ni_direction = direction, ni_mib_s_write = nc_mib_s_write csv,
              ni_mib_s_total = fv_add (nc_mib_s_write csv) (nc_mib_s_read csv),
              ni_lat_min_sec = fv_scale (1 / 1000000) (nc_lat_min_us csv),
              ni_lat_max_sec = fv_scale (1 / 1000000) (nc_lat_max_us csv),
              ni_histogram = histogram, ni_command = nc_command csv \<rparr>))"

subsection \<open>Percentiles\<close>

text \<open>The loop over the ascending buckets interpolates in the first one whose cumulative count reaches the target. Buckets and
  counts are integers, which become floats where they meet one; integers beyond the largest float are left out.\<close>

definition within_bucket :: "int \<Rightarrow> int \<Rightarrow> int \<Rightarrow> int \<Rightarrow> rat \<Rightarrow> rat" where
  "within_bucket prev bucket cumulative n target =
     (if 0 < n
      then let fraction = fl (fl (target - fl (of_int cumulative)) / fl (of_int n))
           in fl (fl (of_int prev) + fl (fl (of_int (bucket - prev)) * fraction))
      else of_int prev)"

fun interpolating :: "(int \<Rightarrow> int) \<Rightarrow> rat \<Rightarrow> int \<Rightarrow> int \<Rightarrow> int list \<Rightarrow> rat option" where
  "interpolating counts target cumulative prev [] = None"
| "interpolating counts target cumulative prev (b # bs) =
     (if target \<le> of_int (cumulative + counts b) then Some (within_bucket prev b cumulative (counts b) target)
      else interpolating counts target (cumulative + counts b) b bs)"

definition interpolated_percentile :: "(int, int) dict \<Rightarrow> int \<Rightarrow> rat" where
  "interpolated_percentile h percentile =
     (let buckets = sort (dict_keys h); total_count = total_count h
      in if h = [] \<or> total_count = 0 then 0
         else case interpolating (bucket_count h) (fl (fl (of_int (total_count * percentile)) / 100)) 0 0 buckets of
                Some v \<Rightarrow> v | None \<Rightarrow> of_int (last buckets))"

subsection \<open>Rows\<close>

record aggregated = metric +
  na_mode :: string
  na_datestamps :: "string set"
  na_sample_count :: nat
  na_mib_s_write_avg :: float_value
  na_mib_s_write_stddev :: float_value
  na_mib_s_total_avg :: float_value
  na_mib_s_total_stddev :: float_value
  na_lat_p0_ms :: float_value
  na_lat_p50_ms :: rat
  na_lat_p90_ms :: rat
  na_lat_p99_ms :: rat
  na_lat_p100_ms :: float_value
  na_histogram :: "(int, int) dict"
  na_command :: "string option"

type_synonym group_key = "string \<times> nat \<times> nat"

definition group_key_of :: "net_iteration \<Rightarrow> group_key" where
  "group_key_of m = (ni_mode m, ni_node_count m, ni_thread_count m)"

definition group_iterations :: "net_iteration list \<Rightarrow> (group_key, net_iteration list) dict" where
  "group_iterations ms = fold (\<lambda>m. dict_append (group_key_of m) m) ms []"

definition spread_of :: "float_value list \<Rightarrow> float_value result" where
  "spread_of xs = (if length xs > 1 then fv_stdev xs else Inr (Num 0))"

definition aggregate_group :: "group_key \<times> net_iteration list \<Rightarrow> (group_key \<times> aggregated) result" where
  "aggregate_group entry = (case entry of ((mode, nodes, threads), ms) \<Rightarrow>
     let write_values = map ni_mib_s_write ms; total_values = map ni_mib_s_total ms;
         combined = combine_histograms (map ni_histogram ms)
     in rbind (spread_of write_values) (\<lambda>write_stddev.
        rbind (spread_of total_values) (\<lambda>total_stddev.
        Inr ((mode, nodes, threads),
          \<lparr> node_count = int nodes, thread_count = int threads, na_mode = mode,
            na_datestamps = set (map ni_datestamp ms), na_sample_count = length ms,
            na_mib_s_write_avg = fv_mean write_values, na_mib_s_write_stddev = write_stddev,
            na_mib_s_total_avg = fv_mean total_values, na_mib_s_total_stddev = total_stddev,
            na_lat_p0_ms = fv_scale 1000 (fv_min (map ni_lat_min_sec ms)),
            na_lat_p50_ms = fl (interpolated_percentile combined 50 / 1000),
            na_lat_p90_ms = fl (interpolated_percentile combined 90 / 1000),
            na_lat_p99_ms = fl (interpolated_percentile combined 99 / 1000),
            na_lat_p100_ms = fv_scale 1000 (fv_max (map ni_lat_max_sec ms)),
            na_histogram = combined, na_command = ni_command (hd ms) \<rparr>))))"

definition aggregate_net_metrics :: "net_iteration list \<Rightarrow> (group_key, aggregated) dict result" where
  "aggregate_net_metrics iterations = traverse aggregate_group (group_iterations iterations)"

text \<open>\<^verbatim>\<open>get_throughput_for_mode\<close>\<close>

definition get_throughput_for_mode :: "aggregated \<Rightarrow> float_value \<times> float_value" where
  "get_throughput_for_mode m =
     (if na_mode m = ''half'' then (na_mib_s_write_avg m, na_mib_s_write_stddev m)
      else (na_mib_s_total_avg m, na_mib_s_total_stddev m))"

definition strip_net_command :: "string option \<Rightarrow> string" where
  "strip_net_command cmd = (case cmd of None \<Rightarrow> []
     | Some c \<Rightarrow> strip_command_options c [''--clients'', ''--servers'', ''--resfile'', ''--csvfile''])"

definition get_mode_display_name :: "string \<Rightarrow> string" where
  "get_mode_display_name mode =
     (if mode = ''bidir'' then ''Bidirectional'' else if mode = ''half'' then ''Half-and-Half'' else mode)"

definition filter_net_metrics :: "aggregated list \<Rightarrow> int set \<Rightarrow> int set \<Rightarrow> string option \<Rightarrow> aggregated list" where
  "filter_net_metrics metrics only_nodes only_threads only_mode =
     (let kept = filter_metrics_by_scale metrics only_nodes only_threads
      in case only_mode of None \<Rightarrow> kept | Some mode \<Rightarrow> if mode = [] then kept else filter (\<lambda>m. na_mode m = mode) kept)"

text \<open>The rows of a mode in the order of the tables, and the tables in the order of their modes\<close>

definition table_rows :: "aggregated list \<Rightarrow> (string \<times> aggregated list) list" where
  "table_rows metrics = map (\<lambda>mode.
     (mode, sort_key (\<lambda>m. (node_count m, thread_count m)) (filter (\<lambda>m. na_mode m = mode) metrics)))
     (sort (remdups (map na_mode metrics)))"

subsection \<open>The whole report\<close>

record net_options =
  no_input_dirs :: "string list"
  no_only_nodes :: string
  no_only_threads :: string
  no_only_mode :: "string option"

definition parsed_iterations ::
  "(string \<Rightarrow> string result) \<Rightarrow> (netbench_key, string \<times> string) dict \<Rightarrow> net_iteration list" where
  "parsed_iterations read pairs = List.map_filter (\<lambda>(key, paths). parse_file_pair read key paths) pairs"

text \<open>\<^verbatim>\<open>main\<close> up to the filtered rows; every early exit has the status one.\<close>

definition net_rows ::
  "(string \<Rightarrow> string) \<Rightarrow> (string \<Rightarrow> string list option) \<Rightarrow> (string \<Rightarrow> string result) \<Rightarrow> net_options \<Rightarrow> aggregated list result" where
  "net_rows realpath listdir read args =
     (let pairs = fst (discover_files realpath listdir (no_input_dirs args)); iterations = parsed_iterations read pairs
      in if no_input_dirs args = [] then Inl (SystemExit 2)
         else if pairs = [] then Inl (SystemExit 1)
         else if iterations = [] then Inl (SystemExit 1)
         else rbind (aggregate_net_metrics iterations) (\<lambda>groups.
           let rows = filter_net_metrics (map snd groups)
                 (if no_only_nodes args = [] then {} else fst (parse_int_values_with_ranges (no_only_nodes args)))
                 (if no_only_threads args = [] then {} else fst (parse_int_values_with_ranges (no_only_threads args)))
                 (no_only_mode args)
           in if rows = [] then Inl (SystemExit 1) else Inr rows))"

end
