(* ===== verification/NetReports.thy ===== *)
theory NetReports
  imports Netbench
begin

section \<open>Network reports: what the rows say\<close>

text \<open>
  Which file pairs a report uses, what a row pools, and that the percentiles of a row are ordered. The last rests on the
  monotonicity of rounding: every step of the interpolation is an exact operation followed by a rounding.
\<close>

subsection \<open>Percentiles are ordered\<close>

text \<open>Buckets and counts that doubles hold exactly, with room for the factor 100.\<close>

definition sound_histogram :: "(int, int) dict \<Rightarrow> bool" where
  "sound_histogram h \<longleftrightarrow> dict_wf h \<and> list_all (\<lambda>(b, n). 0 \<le> b \<and> b < 2 ^ 53 \<and> 0 \<le> n) h \<and> 100 * total_count h < 2 ^ 53"

lemma within_bucket_bounds:
  assumes "0 \<le> prev" and "prev \<le> b" and "b < 2 ^ 53" and "0 \<le> n" and "0 \<le> c" and "c + n < 2 ^ 53"
    and "of_int c \<le> t" and "t \<le> of_int (c + n)"
  shows "of_int prev \<le> within_bucket prev b c n t \<and> within_bucket prev b c n t \<le> of_int b"
proof (cases "0 < n")
  case False
  then show ?thesis using assms by (simp add: within_bucket_def)
next
  case True
  have ints: "fl (of_int prev) = of_int prev" "fl (of_int b) = of_int b" "fl (of_int (b - prev)) = of_int (b - prev)"
    "fl (of_int c) = of_int c" "fl (of_int n) = of_int n"
    by (rule fl_of_int, use assms in simp)+
  define share where "share = fl (fl (t - of_int c) / of_int n)"
  have "fl (t - of_int c) \<le> fl (of_int n)" using assms by (intro fl_mono) simp
  then have "fl (t - of_int c) / of_int n \<le> of_int 1" using True by (simp add: ints pos_divide_le_eq)
  then have "share \<le> fl (of_int 1)" unfolding share_def by (rule fl_mono)
  then have share: "0 \<le> share" "share \<le> 1"
    using assms True fl_of_int [of 1] by (simp_all add: share_def fl_nonneg)
  have gap: "0 \<le> (of_int (b - prev) :: rat)" using assms by simp
  have "fl (of_int (b - prev) * share) \<le> fl (of_int (b - prev))"
    using share gap by (intro fl_mono) (rule mult_left_le)
  then have "fl (of_int (b - prev) * share) \<le> of_int (b - prev)" by (simp only: ints)
  then have upper: "of_int prev + fl (of_int (b - prev) * share) \<le> of_int b" by simp
  have lower: "of_int prev \<le> of_int prev + fl (of_int (b - prev) * share)" using share gap by (simp add: fl_nonneg)
  have "within_bucket prev b c n t = fl (of_int prev + fl (of_int (b - prev) * share))"
    using True by (simp only: within_bucket_def ints share_def Let_def if_True)
  then show ?thesis using fl_mono [OF lower] fl_mono [OF upper] by (simp only: ints)
qed

lemma within_bucket_mono:
  assumes "prev \<le> b" and "b < 2 ^ 53" and "0 \<le> prev" and "n < 2 ^ 53" and "t \<le> t'"
  shows "within_bucket prev b c n t \<le> within_bucket prev b c n t'"
proof (cases "0 < n")
  case False
  then show ?thesis by (simp add: within_bucket_def)
next
  case True
  have ints: "fl (of_int (b - prev)) = of_int (b - prev)" "fl (of_int n) = of_int n"
    by (rule fl_of_int, use assms True in simp)+
  have gap: "0 \<le> (of_int (b - prev) :: rat)" using assms by simp
  have "fl (t - fl (of_int c)) / of_int n \<le> fl (t' - fl (of_int c)) / of_int n"
    using assms True by (intro divide_right_mono fl_mono) simp_all
  then have "of_int (b - prev) * fl (fl (t - fl (of_int c)) / of_int n)
      \<le> of_int (b - prev) * fl (fl (t' - fl (of_int c)) / of_int n)"
    by (intro mult_left_mono fl_mono gap)
  then show ?thesis using True unfolding within_bucket_def Let_def ints by (simp add: fl_mono)
qed

text \<open>What the loop has at every bucket.\<close>

definition loop_state :: "(int \<Rightarrow> int) \<Rightarrow> int \<Rightarrow> int \<Rightarrow> int list \<Rightarrow> bool" where
  "loop_state counts c prev bs \<longleftrightarrow> 0 \<le> prev \<and> sorted (prev # bs) \<and> list_all (\<lambda>b. b < 2 ^ 53 \<and> 0 \<le> counts b) bs
     \<and> 0 \<le> c \<and> c + (\<Sum>b\<leftarrow>bs. counts b) < 2 ^ 53"

lemma loop_state_step:
  assumes "loop_state counts c prev (b # bs)"
  shows "loop_state counts (c + counts b) b bs" and "0 \<le> prev" and "prev \<le> b" and "b < 2 ^ 53" and "0 \<le> counts b" and "0 \<le> c"
    and "c + counts b < 2 ^ 53"
proof -
  have "0 \<le> (\<Sum>b\<leftarrow>bs. counts b)" using assms by (intro sum_list_nonneg) (auto simp: loop_state_def list_all_iff)
  then show "loop_state counts (c + counts b) b bs" and "0 \<le> prev" and "prev \<le> b" and "b < 2 ^ 53" and "0 \<le> counts b" and "0 \<le> c"
    and "c + counts b < 2 ^ 53"
    using assms by (auto simp: loop_state_def)
qed

lemma interpolating_bounds:
  assumes "loop_state counts c prev bs" and "of_int c \<le> t" and "t \<le> of_int (c + (\<Sum>b\<leftarrow>bs. counts b))" and "bs \<noteq> []"
  shows "\<exists>v. interpolating counts t c prev bs = Some v \<and> of_int prev \<le> v \<and> v \<le> of_int (last bs)"
  using assms
proof (induction bs arbitrary: c prev)
  case Nil
  then show ?case by simp
next
  case (Cons b bs)
  note step = loop_state_step [OF Cons.prems(1)]
  have last: "b \<le> last (b # bs)" using Cons.prems(1) by (auto simp: loop_state_def)
  show ?case
  proof (cases "t \<le> of_int (c + counts b)")
    case True
    note bounds = within_bucket_bounds [OF step(2-7) Cons.prems(2) True]
    have "(of_int b :: rat) \<le> of_int (last (b # bs))" using last by (simp only: of_int_le_iff)
    then show ?thesis using True bounds by (auto intro: order_trans)
  next
    case False
    then have "bs \<noteq> []" using Cons.prems(3) by auto
    obtain v where "interpolating counts t (c + counts b) b bs = Some v" "of_int b \<le> v" "v \<le> of_int (last bs)"
      using Cons.IH [OF step(1)] False Cons.prems(3) \<open>bs \<noteq> []\<close> by (force simp: add.assoc)
    moreover have "(of_int prev :: rat) \<le> of_int b" using step(3) by simp
    ultimately show ?thesis using False \<open>bs \<noteq> []\<close> by auto
  qed
qed

lemma interpolating_mono:
  assumes "loop_state counts c prev bs" and "of_int c \<le> t" and "t \<le> t'" and "t' \<le> of_int (c + (\<Sum>b\<leftarrow>bs. counts b))"
    and "interpolating counts t c prev bs = Some v" and "interpolating counts t' c prev bs = Some v'"
  shows "v \<le> v'"
  using assms
proof (induction bs arbitrary: c prev)
  case Nil
  then show ?case by simp
next
  case (Cons b bs)
  note step = loop_state_step [OF Cons.prems(1)]
  consider "t' \<le> of_int (c + counts b)" | "t \<le> of_int (c + counts b)" "of_int (c + counts b) < t'"
    | "of_int (c + counts b) < t" using Cons.prems(3) by linarith
  then show ?case
  proof cases
    case 1
    then have "v = within_bucket prev b c (counts b) t" "v' = within_bucket prev b c (counts b) t'"
      using Cons.prems by auto
    then show ?thesis using step Cons.prems(3) by (simp add: within_bucket_mono)
  next
    case 2
    then have v: "v \<le> of_int b"
      using Cons.prems(5) within_bucket_bounds [OF step(2-7) Cons.prems(2) 2(1)] by auto
    have "bs \<noteq> []" using 2(2) Cons.prems(4) by auto
    then obtain w where "interpolating counts t' (c + counts b) b bs = Some w" "of_int b \<le> w"
      using interpolating_bounds [OF step(1), of t'] 2(2) Cons.prems(4) by (auto simp: add.assoc)
    then show ?thesis using v 2(2) Cons.prems(6) by (auto split: if_splits)
  next
    case 3
    then show ?thesis
      using Cons.IH [OF step(1)] Cons.prems(3-6) by (auto simp: add.assoc split: if_splits)
  qed
qed

text \<open>Percentiles of a histogram with counts and buckets a double can hold\<close>

lemma sum_counts_total:
  fixes h :: "(int, int) dict"
  assumes "dict_wf h"
  shows "(\<Sum>b\<leftarrow>sort (dict_keys h). bucket_count h b) = total_count h"
proof -
  have sums: "(\<Sum>b\<leftarrow>xs. f b) = \<Sum>\<^sub># (image_mset f (mset xs))" for xs :: "int list" and f :: "int \<Rightarrow> int"
    by (induction xs) simp_all
  have "(\<Sum>b\<leftarrow>sort (dict_keys h). bucket_count h b) = (\<Sum>b\<leftarrow>dict_keys h. bucket_count h b)" by (simp only: sums mset_sort)
  also have "\<dots> = (\<Sum>e\<leftarrow>h. snd e)"
    using assms by (auto simp: bucket_count_def dict_wf_def comp_def intro!: arg_cong [of _ _ sum_list] map_cong)
  finally show ?thesis by (simp add: total_count_def)
qed

lemma percentile_target:
  assumes "0 \<le> n" and "100 * n < 2 ^ 53" and "0 \<le> p" and "p \<le> q" and "q \<le> 100"
  shows "of_int 0 \<le> fl (fl (of_int (n * p)) / 100)" and "fl (fl (of_int (n * p)) / 100) \<le> fl (fl (of_int (n * q)) / 100)"
    and "fl (fl (of_int (n * q)) / 100) \<le> of_int n"
proof -
  have np: "0 \<le> n * p" "n * p \<le> n * q" "n * q \<le> 100 * n"
    using assms by (auto intro: mult_left_mono simp: mult.commute [of 100])
  have "(0 :: rat) \<le> of_int (n * p)" using np(1) by (simp only: of_int_0_le_iff)
  then show "of_int 0 \<le> fl (fl (of_int (n * p)) / 100)" by (simp only: of_int_0 fl_nonneg divide_nonneg_nonneg zero_le_numeral)
  show "fl (fl (of_int (n * p)) / 100) \<le> fl (fl (of_int (n * q)) / 100)"
    using np by (intro fl_mono divide_right_mono) (simp_all only: of_int_le_iff zero_le_numeral)
  have "fl (of_int (n * q)) = of_int (n * q)" by (rule fl_of_int) (use np assms in simp)
  moreover have "(of_int (n * q) :: rat) \<le> of_int (100 * n)" using np by (simp only: of_int_le_iff)
  ultimately have "fl (of_int (n * q)) / 100 \<le> of_int n" by simp
  then have "fl (fl (of_int (n * q)) / 100) \<le> fl (of_int n)" by (rule fl_mono)
  then show "fl (fl (of_int (n * q)) / 100) \<le> of_int n" using assms by (simp add: fl_of_int)
qed

lemma percentiles_ordered:
  assumes "sound_histogram h" and "0 \<le> p" and "p \<le> q" and "q \<le> 100"
  shows "0 \<le> interpolated_percentile h p" and "interpolated_percentile h p \<le> interpolated_percentile h q"
    and "interpolated_percentile h q \<le> of_int (foldr max (dict_keys h) 0)"
proof -
  define bs n where "bs = sort (dict_keys h)" and "n = total_count h"
  define t where "t = (\<lambda>p. fl (fl (of_int (n * p)) / 100))"
  have wf: "dict_wf h" and entries: "list_all (\<lambda>(b, n). 0 \<le> b \<and> b < 2 ^ 53 \<and> 0 \<le> n) h" and n: "100 * n < 2 ^ 53"
    using assms(1) by (simp_all add: sound_histogram_def n_def)
  have max: "b \<le> foldr max (dict_keys h) 0" if "b \<in> set bs" for b
  proof -
    have "b \<in> set xs \<Longrightarrow> b \<le> foldr max xs 0" for xs :: "int list" by (induction xs) auto
    then show ?thesis using that by (simp add: bs_def)
  qed
  have "0 \<le> foldr max xs (0 :: int)" for xs by (induction xs) auto
  then have max0: "(0 :: rat) \<le> of_int (foldr max (dict_keys h) 0)" by simp
  have "counts_ok h" using wf entries by (auto simp: counts_ok_def list_all_iff)
  then have n0: "0 \<le> n" by (simp add: n_def total_count_samples)
  show "0 \<le> interpolated_percentile h p" and "interpolated_percentile h p \<le> interpolated_percentile h q"
    and "interpolated_percentile h q \<le> of_int (foldr max (dict_keys h) 0)"
  proof (atomize (full), cases "h = [] \<or> n = 0")
    case True
    then show "0 \<le> interpolated_percentile h p \<and> interpolated_percentile h p \<le> interpolated_percentile h q
      \<and> interpolated_percentile h q \<le> of_int (foldr max (dict_keys h) 0)"
      using max0 by (auto simp: interpolated_percentile_def n_def)
  next
    case False
    have sum: "(\<Sum>b\<leftarrow>bs. bucket_count h b) = n" using sum_counts_total [OF wf] by (simp add: bs_def n_def)
    have "list_all (\<lambda>b. b < 2 ^ 53 \<and> 0 \<le> bucket_count h b) bs" and "sorted (0 # bs)"
      using entries bucket_count_nonneg [OF \<open>counts_ok h\<close>] by (auto simp: bs_def list_all_iff)
    then have state: "loop_state (bucket_count h) 0 0 bs" using n n0 by (simp add: loop_state_def sum)
    have ne: "bs \<noteq> []" using False by (simp add: bs_def)
    have target: "0 \<le> t p" "t p \<le> t q" "t q \<le> of_int n"
      using percentile_target [OF n0 n assms(2-4)] by (simp_all add: t_def)
    obtain v where v: "interpolating (bucket_count h) (t p) 0 0 bs = Some v" "0 \<le> v"
      using interpolating_bounds [OF state, of "t p"] target ne by (auto simp: sum)
    obtain w where w: "interpolating (bucket_count h) (t q) 0 0 bs = Some w" "w \<le> of_int (last bs)"
      using interpolating_bounds [OF state, of "t q"] target ne by (auto simp: sum)
    have "v \<le> w" using interpolating_mono [OF state _ target(2) _ v(1) w(1)] target by (simp add: sum)
    moreover have "w \<le> of_int (foldr max (dict_keys h) 0)"
      using w(2) max [of "last bs"] ne by (meson last_in_set of_int_le_iff order_trans)
    ultimately show "0 \<le> interpolated_percentile h p \<and> interpolated_percentile h p \<le> interpolated_percentile h q
      \<and> interpolated_percentile h q \<le> of_int (foldr max (dict_keys h) 0)"
      using v w False by (simp add: interpolated_percentile_def Let_def t_def bs_def n_def)
  qed
qed


subsection \<open>Groups\<close>

lemma group_iterations_push: "group_iterations ms = fold (\<lambda>(k, v). adict.push k v) (map (\<lambda>m. (group_key_of m, m)) ms) []"
proof -
  have "fold (\<lambda>m. dict_append (group_key_of m) m) ms d = fold (\<lambda>(k, v). adict.push k v) (map (\<lambda>m. (group_key_of m, m)) ms) d" for d
    by (induction ms arbitrary: d) (simp_all add: dict_append_push)
  then show ?thesis by (simp add: group_iterations_def)
qed

lemma group_iterations_facts:
  "distinct (dict_keys (group_iterations ms))" "set (dict_keys (group_iterations ms)) = group_key_of ` set ms"
  "(k, g) \<in> set (group_iterations ms) \<Longrightarrow> g = filter (\<lambda>m. group_key_of m = k) ms"
proof -
  let ?kvs = "map (\<lambda>m. (group_key_of m, m)) ms"
  show distinct: "distinct (dict_keys (group_iterations ms))"
    using adict.distinct_keys_fold [of "[]" ?kvs] by (simp add: group_iterations_push)
  show "set (dict_keys (group_iterations ms)) = group_key_of ` set ms"
    using adict.keys_fold [of ?kvs "[]"] by (simp add: group_iterations_push image_image)
  assume "(k, g) \<in> set (group_iterations ms)"
  then have "dict_get (group_iterations ms) k = Some g" using distinct by simp
  then have "g = adict.entries (group_iterations ms) k" by (simp add: adict.entries_def)
  moreover have "adict.entries (group_iterations ms) k = filter (\<lambda>m. group_key_of m = k) ms"
    using adict.entries_fold [of ?kvs "[]" k] unfolding group_iterations_push
    by (simp add: adict.entries_def [of "[]"] filter_map comp_def)
  ultimately show "g = filter (\<lambda>m. group_key_of m = k) ms" by simp
qed

definition net_iteration_key :: "net_iteration \<Rightarrow> string \<times> int \<times> int" where
  "net_iteration_key m = (ni_mode m, int (ni_node_count m), int (ni_thread_count m))"

definition row_key :: "aggregated \<Rightarrow> string \<times> int \<times> int" where
  "row_key r = (na_mode r, node_count r, thread_count r)"

definition as_row_key :: "group_key \<Rightarrow> string \<times> int \<times> int" where
  "as_row_key k = (case k of (mode, nodes, threads) \<Rightarrow> (mode, int nodes, int threads))"

lemma as_row_key_inj: "as_row_key k = as_row_key k' \<longleftrightarrow> k = k'"
  by (auto simp: as_row_key_def split: prod.splits)

lemma as_row_key_of: "as_row_key (group_key_of m) = net_iteration_key m"
  by (simp add: as_row_key_def group_key_of_def net_iteration_key_def)

text \<open>What a row says of the iterations of its group\<close>

definition pools :: "aggregated \<Rightarrow> net_iteration list \<Rightarrow> bool" where
  "pools r ms \<longleftrightarrow> na_sample_count r = length ms \<and> na_datestamps r = ni_datestamp ` set ms
     \<and> (\<forall>b. bucket_count (na_histogram r) b = (\<Sum>m\<leftarrow>ms. bucket_count (ni_histogram m) b))
     \<and> na_mib_s_write_avg r = fv_mean (map ni_mib_s_write ms) \<and> na_mib_s_total_avg r = fv_mean (map ni_mib_s_total ms)"

lemma aggregate_group_row:
  assumes "aggregate_group (k, ms) = Inr (k', r)" and "\<forall>m\<in>set ms. dict_wf (ni_histogram m)"
  shows "row_key r = as_row_key k" and "pools r ms"
proof -
  obtain mode n t where k: "k = (mode, n, t)" by (cases k)
  obtain w s where ws: "spread_of (map ni_mib_s_write ms) = Inr w" "spread_of (map ni_mib_s_total ms) = Inr s"
    using assms(1) by (auto simp: aggregate_group_def k Let_def rbind_eq_Inr)
  have pool: "bucket_count (combine_histograms (map ni_histogram ms)) b = (\<Sum>m\<leftarrow>ms. bucket_count (ni_histogram m) b)" for b
    using combine_histograms_counts [of "map ni_histogram ms" b] assms(2) by (simp add: comp_def)
  have r: "r = snd (projr (aggregate_group (k, ms)))" using assms(1) by simp
  show "row_key r = as_row_key k" unfolding r by (simp add: aggregate_group_def k ws row_key_def as_row_key_def Let_def)
  show "pools r ms" unfolding r by (simp add: aggregate_group_def k ws pools_def pool Let_def)
qed

lemma aggregated_group:
  assumes "aggregate_net_metrics ms = Inr groups" and "g \<in> set groups"
  shows "\<exists>e\<in>set (group_iterations ms). aggregate_group e = Inr g"
proof -
  have all: "list_all2 (\<lambda>e o'. aggregate_group e = Inr o') (group_iterations ms) groups"
    using assms(1) by (simp add: aggregate_net_metrics_def traverse_eq_Inr)
  obtain i where i: "i < length groups" "groups ! i = g" using assms(2) by (auto simp: in_set_conv_nth)
  show ?thesis
  proof
    show "aggregate_group (group_iterations ms ! i) = Inr g" using list_all2_nthD2 [OF all i(1)] i(2) by simp
    show "group_iterations ms ! i \<in> set (group_iterations ms)" using i list_all2_lengthD [OF all] by simp
  qed
qed

lemma aggregated_groups:
  assumes "aggregate_net_metrics ms = Inr groups" and "\<forall>m\<in>set ms. dict_wf (ni_histogram m)"
  shows "map (row_key \<circ> snd) groups = map as_row_key (dict_keys (group_iterations ms))"
    and "\<forall>(k, r)\<in>set groups. pools r (filter (\<lambda>m. net_iteration_key m = row_key r) ms)"
proof -
  have all: "list_all2 (\<lambda>e o'. aggregate_group e = Inr o') (group_iterations ms) groups"
    using assms(1) by (simp add: aggregate_net_metrics_def traverse_eq_Inr)
  have row: "row_key (snd o') = as_row_key (fst e) \<and> pools (snd o') (filter (\<lambda>m. net_iteration_key m = row_key (snd o')) ms)"
    if "e \<in> set (group_iterations ms)" "aggregate_group e = Inr o'" for e o'
  proof -
    obtain k g k' r where e: "e = (k, g)" "o' = (k', r)" by (cases e; cases o') auto
    have g: "g = filter (\<lambda>m. group_key_of m = k) ms" using that(1) group_iterations_facts(3) by (simp add: e)
    then have wf: "\<forall>m\<in>set g. dict_wf (ni_histogram m)" using assms(2) by simp
    note facts = aggregate_group_row [OF that(2) [unfolded e] wf]
    have "filter (\<lambda>m. net_iteration_key m = row_key r) ms = g"
      unfolding facts(1) g by (simp add: as_row_key_inj flip: as_row_key_of)
    then show ?thesis using facts by (simp add: e)
  qed
  have "list_all2 (\<lambda>e o'. as_row_key (fst e) = row_key (snd o')) (group_iterations ms) groups"
    by (rule list.rel_mono_strong [OF all]) (simp add: row)
  then have "list_all2 (=) (map as_row_key (dict_keys (group_iterations ms))) (map (row_key \<circ> snd) groups)"
    by (simp add: list_all2_map1 list_all2_map2)
  then show "map (row_key \<circ> snd) groups = map as_row_key (dict_keys (group_iterations ms))"
    by (simp only: list.rel_eq)
  show "\<forall>(k, r)\<in>set groups. pools r (filter (\<lambda>m. net_iteration_key m = row_key r) ms)"
  proof safe
    fix k r assume "(k, r) \<in> set groups"
    then obtain e where "e \<in> set (group_iterations ms)" "aggregate_group e = Inr (k, r)"
      using aggregated_group [OF assms(1)] by blast
    then show "pools r (filter (\<lambda>m. net_iteration_key m = row_key r) ms)"
      using row [of e "(k, r)"] unfolding snd_conv by blast
  qed
qed

lemma parse_integer_histogram_wf: "dict_wf (parse_integer_histogram s)"
proof -
  have "dict_wf d \<Longrightarrow> dict_wf (fold add_entry es d)" for es d
    by (induction es arbitrary: d) (simp_all add: add_entry_def)
  then show ?thesis by (simp add: parse_integer_histogram_def)
qed

lemma parse_net_out_wf: "dict_wf (parse_net_out content)"
  by (simp add: parse_net_out_def parse_integer_histogram_wf split: option.split)

lemma parsed_histograms: "m \<in> set (parsed_iterations read pairs) \<Longrightarrow> dict_wf (ni_histogram m)"
  by (auto simp: parsed_iterations_def List.map_filter_def parse_file_pair_def parse_net_out_wf rbind_eq_Inr
      split: sum.splits)

subsection \<open>Rows of a report\<close>

text \<open>The number of a filter that selects something, or any number\<close>

definition number_wanted :: "string \<Rightarrow> int \<Rightarrow> bool" where
  "number_wanted text n \<longleftrightarrow> (let numbers = fst (parse_int_values_with_ranges text) in numbers = {} \<or> n \<in> numbers)"

definition key_wanted :: "net_options \<Rightarrow> string \<times> int \<times> int \<Rightarrow> bool" where
  "key_wanted args key = (case key of (mode, nodes, threads) \<Rightarrow>
     number_wanted (no_only_nodes args) nodes \<and> number_wanted (no_only_threads args) threads
     \<and> (case no_only_mode args of None \<Rightarrow> True | Some m \<Rightarrow> m = [] \<or> mode = m))"

lemma no_numbers: "(if text = [] then {} else fst (parse_int_values_with_ranges text)) = fst (parse_int_values_with_ranges text)"
  by (simp add: parse_int_values_with_ranges_def)

lemma filtered_rows:
  "filter_net_metrics metrics (fst (parse_int_values_with_ranges (no_only_nodes args)))
     (fst (parse_int_values_with_ranges (no_only_threads args))) (no_only_mode args)
   = filter (\<lambda>r. key_wanted args (row_key r)) metrics"
  by (auto simp: filter_net_metrics_def filter_metrics_by_scale_def key_wanted_def row_key_def number_wanted_def Let_def
      intro!: filter_cong split: option.split)

lemma net_rows_groups:
  assumes "net_rows realpath listdir read args = Inr rows"
  obtains groups where "aggregate_net_metrics (parsed_iterations read (fst (discover_files realpath listdir (no_input_dirs args)))) = Inr groups"
    and "rows = filter (\<lambda>r. key_wanted args (row_key r)) (map snd groups)"
  using assms by (auto simp: net_rows_def Let_def rbind_eq_Inr no_numbers filtered_rows split: if_splits)

text \<open>C37. The files a network report uses: a key (mode, node count, thread count, datestamp, iteration and direction of a
  file name) is paired with a CSV and an OUT file exactly when one input directory, up to its real path, holds exactly one
  CSV and exactly one OUT file of that key and no other input directory does; the pair are those two files.\<close>

theorem net_pairs_unambiguous:
  "(key, paths) \<in> set (fst (discover_files realpath listdir input_dirs)) \<longleftrightarrow>
     (\<exists>dir. {d \<in> realpath ` set input_dirs. source_pair listdir match_netbench_name d key \<noteq> None} = {dir}
       \<and> source_pair listdir match_netbench_name dir key = Some paths)"
proof -
  have "e \<in> {''csv'', ''out''}" if "match_netbench_name name = Some (k, e)" for name k e
    using that by (auto simp: match_netbench_name_def bind_eq_Some_conv split: if_splits)
  then show ?thesis unfolding discover_files_def by (rule discovered_pairs(2))
qed

text \<open>C35. A network report that is printed has one row for every combination of mode, node count and thread count among the
  iterations that could be parsed and that the filters want, and no other row; the row counts exactly the iterations of its
  combination, names their datestamps, averages their throughput, and every bucket of its histogram counts what the
  histograms of those iterations count together.\<close>

theorem net_rows_exact:
  assumes "net_rows realpath listdir read args = Inr rows"
  shows "distinct (map row_key rows)
    \<and> row_key ` set rows = {k \<in> net_iteration_key ` set (parsed_iterations read (fst (discover_files realpath listdir (no_input_dirs args)))).
        key_wanted args k}
    \<and> (\<forall>r\<in>set rows. pools r (filter (\<lambda>m. net_iteration_key m = row_key r)
        (parsed_iterations read (fst (discover_files realpath listdir (no_input_dirs args))))))"
proof -
  define ms where "ms = parsed_iterations read (fst (discover_files realpath listdir (no_input_dirs args)))"
  obtain groups where groups: "aggregate_net_metrics ms = Inr groups"
    and rows: "rows = filter (\<lambda>r. key_wanted args (row_key r)) (map snd groups)"
    using net_rows_groups [OF assms] unfolding ms_def by blast
  have "\<forall>m\<in>set ms. dict_wf (ni_histogram m)" using parsed_histograms by (auto simp: ms_def)
  note facts = aggregated_groups [OF groups this]
  have keys: "map row_key (map snd groups) = map as_row_key (dict_keys (group_iterations ms))" using facts(1) by (simp add: comp_def)
  have distinct: "distinct (map row_key (map snd groups))"
    unfolding keys using group_iterations_facts(1) by (simp add: distinct_map inj_on_def as_row_key_inj)
  then have unique: "distinct (map row_key rows)" unfolding rows by (rule distinct_map_filter)
  have "row_key ` set (map snd groups) = as_row_key ` set (dict_keys (group_iterations ms))"
    using arg_cong [OF keys, of set] by (simp only: set_map)
  then have "row_key ` set (map snd groups) = net_iteration_key ` set ms"
    unfolding group_iterations_facts(2) by (simp add: image_image as_row_key_of)
  moreover have "row_key ` {r \<in> A. P (row_key r)} = {k \<in> row_key ` A. P k}" for A P by auto
  ultimately have keys_wanted: "row_key ` set rows = {k \<in> net_iteration_key ` set ms. key_wanted args k}" by (simp only: rows set_filter)
  have "\<forall>r\<in>set rows. pools r (filter (\<lambda>m. net_iteration_key m = row_key r) ms)" using facts(2) by (auto simp: rows)
  then show ?thesis using unique keys_wanted by (simp only: ms_def)
qed

text \<open>C36. The latency percentiles of a row are ordered: as long as the buckets and counts of its histogram fit a double,
  the 50th percentile is not negative, the 90th is at least the 50th, the 99th at least the 90th, and none exceeds
  the largest bucket, although every step of the interpolation is rounded.\<close>

theorem row_percentiles_ordered:
  assumes "net_rows realpath listdir read args = Inr rows" and "r \<in> set rows" and "sound_histogram (na_histogram r)"
  shows "0 \<le> na_lat_p50_ms r \<and> na_lat_p50_ms r \<le> na_lat_p90_ms r \<and> na_lat_p90_ms r \<le> na_lat_p99_ms r
    \<and> na_lat_p99_ms r \<le> fl (of_int (foldr max (dict_keys (na_histogram r)) 0) / 1000)"
proof -
  obtain groups where "aggregate_net_metrics (parsed_iterations read (fst (discover_files realpath listdir (no_input_dirs args)))) = Inr groups"
    and "rows = filter (\<lambda>r. key_wanted args (row_key r)) (map snd groups)"
    using net_rows_groups [OF assms(1)] .
  moreover from this obtain k where "(k, r) \<in> set groups" using assms(2) by auto
  ultimately obtain e where "aggregate_group e = Inr (k, r)"
    using aggregated_group by blast
  then have percentiles: "na_lat_p50_ms r = fl (interpolated_percentile (na_histogram r) 50 / 1000)"
    "na_lat_p90_ms r = fl (interpolated_percentile (na_histogram r) 90 / 1000)"
    "na_lat_p99_ms r = fl (interpolated_percentile (na_histogram r) 99 / 1000)"
    by (auto simp: aggregate_group_def Let_def rbind_eq_Inr split: prod.splits)
  note ordered = percentiles_ordered [OF assms(3)]
  show ?thesis
    unfolding percentiles using ordered [of 50 90] ordered [of 90 99]
    by (auto intro!: fl_mono fl_nonneg divide_right_mono)
qed

text \<open>A filter text that selects no number is as good as none: the report silently covers everything.\<close>

theorem empty_filter_is_ignored:
  "parse_int_values_with_ranges ''8-4'' = ({}, [])
   \<and> net_rows realpath listdir read (args \<lparr> no_only_nodes := ''8-4'' \<rparr>) = net_rows realpath listdir read (args \<lparr> no_only_nodes := [] \<rparr>)"
proof -
  have none: "parse_int_values_with_ranges ''8-4'' = ({}, [])" by code_simp
  then show ?thesis by (simp add: net_rows_def Let_def cong: if_cong)
qed

subsection \<open>A report of one iteration\<close>

definition example_stem :: string where
  "example_stem = ''netbench-half-c_2-t_4_20260102Z030405_iter1_AtoB''"

definition example_listdir :: "string \<Rightarrow> string list option" where
  "example_listdir dir = (if dir = ''/r'' then Some [''notes'', example_stem @ ''.out'', example_stem @ ''.csv''] else None)"

definition example_read :: "string \<Rightarrow> string result" where
  "example_read path =
     (if path = ''/r/'' @ example_stem @ ''.csv''
      then Inr (''operation,MiB/s [first],command'' @ [LF] @ ''NET,inf,run'' @ [LF])
      else Inr (''IO wr lat hist  : [ 1: 2, 8: 1 ]'' @ [LF]))"

definition example_args :: net_options where
  "example_args = \<lparr> no_input_dirs = [''/r''], no_only_nodes = ''1-3'', no_only_threads = [], no_only_mode = None \<rparr>"

definition example_row :: aggregated where
  "example_row = snd (hd (projr (aggregate_net_metrics (parsed_iterations example_read
     (fst (discover_files id example_listdir (no_input_dirs example_args)))))))"

lemma example_rows:
  "net_rows id example_listdir example_read example_args = Inr [example_row]"
  "na_histogram example_row = [(1, 2), (8, 1)]"
proof -
  define csv where "csv = \<lparr> nc_mib_s_write = Infinite False, nc_mib_s_read = Num 0, nc_lat_min_us = Num 0, nc_lat_max_us = Num 0,
    nc_command = Some ''run'' \<rparr>"
  define key where "key = ((''half'', 2, 4, ''20260102Z030405'', 1, ''AtoB'') :: netbench_key)"
  define csv_path out_path where "csv_path = ''/r/'' @ example_stem @ ''.csv''" and "out_path = ''/r/'' @ example_stem @ ''.out''"
  have pairs: "fst (discover_files id example_listdir [''/r'']) = [(key, csv_path, out_path)]"
    unfolding key_def csv_path_def out_path_def by code_simp
  have reads: "rbind (example_read csv_path) parse_net_csv = Inr csv" "example_read out_path = Inr (''IO wr lat hist  : [ 1: 2, 8: 1 ]'' @ [LF])"
    unfolding csv_def csv_path_def out_path_def by code_simp+
  have out: "parse_net_out (''IO wr lat hist  : [ 1: 2, 8: 1 ]'' @ [LF]) = [(1, 2), (8, 1)]" by code_simp
  define m where "m = the (parse_file_pair example_read key (csv_path, out_path))"
  have parsed: "parse_file_pair example_read key (csv_path, out_path) = Some m"
    and m: "ni_mode m = ''half''" "ni_node_count m = 2" "ni_thread_count m = 4" "ni_histogram m = [(1, 2), (8, 1)]"
    using reads out by (simp_all add: m_def parse_file_pair_def key_def)
  have one: "parsed_iterations example_read [(key, csv_path, out_path)] = [m]"
    by (simp add: parsed_iterations_def List.map_filter_simps parsed)
  then have ms: "parsed_iterations example_read (fst (discover_files id example_listdir (no_input_dirs example_args))) = [m]"
    by (simp add: example_args_def pairs)
  have "group_iterations [m] = [((''half'', 2, 4), [m])]"
    by (simp add: group_iterations_def dict_append_def group_key_of_def m)
  then obtain r where r: "aggregate_net_metrics [m] = Inr [((''half'', 2, 4), r)]" "na_histogram r = [(1, 2), (8, 1)]"
      "node_count r = 2" "thread_count r = 4"
    by (simp add: aggregate_net_metrics_def aggregate_group_def spread_of_def m combine_histograms_def add_count_def bucket_count_def Let_def)
  have row: "example_row = r" by (simp add: example_row_def ms r)
  have numbers: "parse_int_values_with_ranges ''1-3'' = ({1..<4}, [])" by (simp add: parse_int_values_with_ranges_def) code_simp
  show "net_rows id example_listdir example_read example_args = Inr [example_row]"
    by (simp add: net_rows_def example_args_def r row pairs one numbers filter_net_metrics_def filter_metrics_by_scale_def Let_def)
  show "na_histogram example_row = [(1, 2), (8, 1)]" by (simp add: row r)
qed

theorem net_pairs_unambiguous_example:
  "source_pair example_listdir match_netbench_name ''/r'' (''half'', 2, 4, ''20260102Z030405'', 1, ''AtoB'')
    = Some (''/r/'' @ example_stem @ ''.csv'', ''/r/'' @ example_stem @ ''.out'')"
  by code_simp

theorem net_rows_exact_witness:
  "net_rows id example_listdir example_read example_args = Inr [example_row]
    \<and> {row_key example_row} = {k \<in> net_iteration_key ` set (parsed_iterations example_read
        (fst (discover_files id example_listdir (no_input_dirs example_args)))). key_wanted example_args k}"
  using net_rows_exact [OF example_rows(1)] example_rows(1) by simp

theorem row_percentiles_ordered_witness:
  "0 \<le> na_lat_p50_ms example_row \<and> na_lat_p99_ms example_row \<le> fl (of_int 8 / 1000)"
proof -
  have "sound_histogram (na_histogram example_row)" unfolding example_rows by code_simp
  then show ?thesis
    using row_percentiles_ordered [OF example_rows(1), of example_row] by (simp add: example_rows)
qed

end
