(* ===== verification/Warp.thy ===== *)
theory Warp
  imports PyFloatValues Histograms ReportCommon Coordinates
begin

section \<open>Object storage reports (utils/extract-warp.py)\<close>

text \<open>
  What the warp reporter computes from the numbers of a result document: size and window names, client names, latency
  histograms and their statistics, the choice of scale points, scaling efficiency, and the clients that fall behind. The
  numbers of a document are given; reading the JSON, the text format and the plots are left out. Means, deviations and
  percentiles of numpy are parameters.
\<close>

subsection \<open>Histogram buckets\<close>

definition decode_bucket :: "pyval \<Rightarrow> histogram \<Rightarrow> histogram result" where
  "decode_bucket bucket histogram =
     rbind (item_of bucket ''millis'') (\<lambda>millis.
     rbind (float_of_value millis) (\<lambda>numeric_bucket.
     rbind (item_of bucket ''n'') (\<lambda>n.
       case numeric_bucket of
         Num b \<Rightarrow> if b < 0 then Inl (ValueError ''Invalid histogram bucket'')
           else (case n of
                   PInt i \<Rightarrow> if i < 0 then Inl (ValueError ''Invalid histogram count'') else Inr (add_count (b, i) histogram)
                 | _ \<Rightarrow> Inl (ValueError ''Invalid histogram count''))
       | _ \<Rightarrow> Inl (ValueError ''Invalid histogram bucket''))))"

definition decode_warp_histogram_buckets :: "pyval list \<Rightarrow> histogram result" where
  "decode_warp_histogram_buckets buckets = rfold decode_bucket buckets []"

subsection \<open>Sizes\<close>

definition size_map :: "char \<Rightarrow> int option" where
  "size_map c = map_of [(CHR ''K'', 1024), (CHR ''M'', 1024 ^ 2), (CHR ''G'', 1024 ^ 3), (CHR ''T'', 1024 ^ 4)] c"

text \<open>\<^verbatim>\<open>parse_size\<close>: the pattern need not match the whole text.\<close>

definition parse_object_size :: "string \<Rightarrow> int result" where
  "parse_object_size size_str = (case eat_run is_digit size_str of
     Some (num, c # rest) \<Rightarrow>
       (case size_map c of
          Some scale \<Rightarrow> if startswith rest ''iB'' then Inr (int (undec num) * scale)
            else Inl (ValueError (''Invalid size format: '' @ size_str))
        | None \<Rightarrow> Inl (ValueError (''Invalid size format: '' @ size_str)))
   | _ \<Rightarrow> Inl (ValueError (''Invalid size format: '' @ size_str)))"

definition size_units :: "(string \<times> int) list" where
  "size_units = [(''TiB'', 1024 ^ 4), (''GiB'', 1024 ^ 3), (''MiB'', 1024 ^ 2), (''KiB'', 1024)]"

definition format_size :: "int \<Rightarrow> string" where
  "format_size size_bytes = (case find (\<lambda>(_, unit_size). unit_size \<le> size_bytes) size_units of
     Some (unit_name, unit_size) \<Rightarrow>
       if size_bytes mod unit_size = 0 then str_int (size_bytes div unit_size) @ unit_name
       else str_int (py_round (fl (of_int size_bytes / of_int unit_size))) @ unit_name
   | None \<Rightarrow> str_int size_bytes @ ''B'')"

subsection \<open>Windows\<close>

definition window_unit_ms :: "(string \<times> int) list" where
  "window_unit_ms = [(''ms'', 1), (''s'', 1000), (''m'', 60000), (''h'', 3600000)]"

text \<open>The sort key of \<^verbatim>\<open>window_sizes_text\<close>: sizes with a known unit first, by their length, then the others in natural order\<close>

type_synonym window_key = "nat \<times> int \<times> (key_part list \<times> string)"

definition window_millis :: "string \<Rightarrow> window_key result" where
  "window_millis size_text =
     (case Option.bind (eat_run is_digit size_text) (\<lambda>(digits, unit_name).
             map_option (\<lambda>ms. int (undec digits) * ms) (map_of window_unit_ms unit_name)) of
        Some ms \<Rightarrow> Inr (0, ms, ([], []))
      | None \<Rightarrow> rbind (natural_key size_text) (\<lambda>k. Inr (1, 0, k)))"

text \<open>\<open>sizes\<close> lists the set in the order Python iterates over it.\<close>

definition window_sizes_text :: "string list \<Rightarrow> string result" where
  "window_sizes_text sizes =
     rbind (traverse window_millis sizes) (\<lambda>keys. Inr (join '', '' (map snd (sort_key fst (zip keys sizes)))))"

definition format_window_size_from_millis :: "int \<Rightarrow> string" where
  "format_window_size_from_millis millis =
     (if 1000 \<le> millis \<and> millis mod 1000 = 0 then str_int (millis div 1000) @ ''s'' else str_int millis @ ''ms'')"

subsection \<open>Names and units\<close>

definition extract_client_name :: "string \<Rightarrow> string" where
  "extract_client_name client_str =
     (if \<not> startswith client_str ''Client_'' then client_str
      else let name_part = drop 7 client_str; parts = split_on (CHR ''-'') name_part
           in if 1 < length parts then join ''-'' (butlast parts) else name_part)"

definition warp_mib_to_gbps :: "rat \<Rightarrow> rat" where
  "warp_mib_to_gbps mib_per_sec = fl (fl (fl (fl (mib_per_sec * 8) * 1024) * 1024) / 1000000000)"

definition bytes_per_sec_to_mib_per_sec :: "rat \<Rightarrow> rat" where
  "bytes_per_sec_to_mib_per_sec bytes_per_sec = fl (bytes_per_sec / 1048576)"

definition json_name :: "string \<Rightarrow> bool" where
  "json_name name \<longleftrightarrow> suffix ''.json'' name \<or> suffix ''.json.zst'' name"

text \<open>\<^verbatim>\<open>detect_warp_file_format\<close> on the names of the directory\<close>

definition detect_warp_file_format :: "string list \<Rightarrow> string" where
  "detect_warp_file_format names =
     (if list_ex json_name names then ''json''
      else if list_ex (\<lambda>name. \<not> json_name name \<and> startswith name ''warp-GET'' \<and> suffix ''.out'' name) names then ''text''
      else ''none'')"

subsection \<open>Pooling the requests of several object sizes\<close>

text \<open>A bucket object may lack either number.\<close>

definition aggregate_histograms :: "(rat option \<times> int option) list list \<Rightarrow> histogram" where
  "aggregate_histograms histograms = fold (fold (\<lambda>(millis, n).
     add_count (case millis of None \<Rightarrow> 0 | Some b \<Rightarrow> b, case n of None \<Rightarrow> 0 | Some i \<Rightarrow> i))) histograms []"

record latency_stats =
  ls_median :: rat
  ls_p25 :: rat
  ls_p75 :: rat
  ls_p90 :: rat
  ls_p99 :: rat
  ls_average :: rat
  ls_std_dev :: rat
  ls_fastest :: rat
  ls_slowest :: rat

definition no_stats :: latency_stats where
  "no_stats = \<lparr> ls_median = 0, ls_p25 = 0, ls_p75 = 0, ls_p90 = 0, ls_p99 = 0, ls_average = 0, ls_std_dev = 0, ls_fastest = 0,
     ls_slowest = 0 \<rparr>"

text \<open>\<open>root_of\<close> is \<^verbatim>\<open>variance**0.5\<close>, the power function of the C library. A decimal literal denotes the double next to it.\<close>

definition compute_stats_from_histogram :: "(rat \<Rightarrow> rat) \<Rightarrow> histogram \<Rightarrow> rat \<Rightarrow> rat \<Rightarrow> latency_stats" where
  "compute_stats_from_histogram root_of histogram sum_millis sum_sq_millis =
     (let n = total_count histogram in
      if histogram = [] \<or> n = 0 then no_stats
      else let avg = fl (sum_millis / of_int n);
               variance = fl (fl (sum_sq_millis / of_int n) - fl (avg * avg))
           in \<lparr> ls_median = compute_percentile_from_histogram histogram (1 / 2),
                ls_p25 = compute_percentile_from_histogram histogram (1 / 4),
                ls_p75 = compute_percentile_from_histogram histogram (3 / 4),
                ls_p90 = compute_percentile_from_histogram histogram (fl (9 / 10)),
                ls_p99 = compute_percentile_from_histogram histogram (fl (99 / 100)),
                ls_average = avg, ls_std_dev = (if 0 < variance then root_of variance else 0),
                ls_fastest = Min (set (dict_keys histogram)), ls_slowest = Max (set (dict_keys histogram)) \<rparr>)"

record first_byte =
  fb_sum_millis :: "rat option"
  fb_sum_sq_millis :: "rat option"
  fb_ttfb_hist :: "(rat option \<times> int option) list"

record multi_sized =
  ms_by_size :: "first_byte option list"
  ms_requests :: int

definition add_sum :: "rat option \<Rightarrow> rat \<Rightarrow> rat" where
  "add_sum amount so_far = (case amount of None \<Rightarrow> so_far | Some x \<Rightarrow> fl (so_far + x))"

definition aggregate_multi_sized_first_byte ::
  "(rat \<Rightarrow> rat) \<Rightarrow> multi_sized \<Rightarrow> (latency_stats \<times> (rat \<times> int) list) option \<times> int" where
  "aggregate_multi_sized_first_byte root_of multi =
     (let parts = List.map_filter id (ms_by_size multi);
          histograms = filter (\<lambda>h. h \<noteq> []) (map fb_ttfb_hist parts);
          combined = aggregate_histograms histograms
      in if ms_by_size multi = [] \<or> histograms = [] then (None, 0)
         else (Some (compute_stats_from_histogram root_of combined
                 (fold (add_sum \<circ> fb_sum_millis) parts 0) (fold (add_sum \<circ> fb_sum_sq_millis) parts 0),
               sort combined), ms_requests multi))"

definition extract_histogram_data :: "histogram \<Rightarrow> rat list \<times> int list" where
  "extract_histogram_data histogram = (map fst (sort histogram), map snd (sort histogram))"

subsection \<open>Scale points and efficiency\<close>

fun every :: "nat \<Rightarrow> nat \<Rightarrow> 'a list \<Rightarrow> 'a list" where
  "every n skip [] = []"
| "every n 0 (x # xs) = x # every n (n - 1) xs"
| "every n (Suc skip) (x # xs) = every n skip xs"

text \<open>\<open>values\<close> are the node or the thread counts of the metrics.\<close>

definition select_histogram_subplot_values :: "int list \<Rightarrow> nat \<Rightarrow> int list" where
  "select_histogram_subplot_values values max_subplots =
     (let all_values = sort (remdups values); middle_values = butlast (tl all_values)
      in if length all_values \<le> max_subplots then all_values
         else if middle_values \<noteq> []
           then [hd all_values] @ take 3 (every (max 1 (length middle_values div 3)) 0 middle_values) @ [last all_values]
         else [hd all_values, last all_values])"

definition ratio :: "rat \<Rightarrow> int \<Rightarrow> rat" where
  "ratio bw x = (if x \<noteq> 0 then fl (bw / of_int x) else 0)"

definition calculate_scaling_efficiency :: "rat list \<Rightarrow> int list \<Rightarrow> rat list" where
  "calculate_scaling_efficiency throughput_values scale_values =
     (if scale_values = [] \<or> throughput_values = [] then []
      else let base_efficiency = Max (set (map (\<lambda>(bw, x). ratio bw x) (zip throughput_values scale_values)))
           in if base_efficiency \<noteq> 0
              then map (\<lambda>(bw, x). if x \<noteq> 0 then fl (fl (fl (bw / of_int x) / base_efficiency) * 100) else 0)
                     (zip throughput_values scale_values)
              else replicate (length scale_values) 0)"

record warp_point =
  wp_nodes :: int
  wp_obj_size :: string
  wp_threads :: int

definition filter_warp_metrics :: "warp_point list \<Rightarrow> string set \<Rightarrow> int set \<Rightarrow> warp_point list" where
  "filter_warp_metrics metrics only_sizes only_threads =
     (let kept = (if only_sizes \<noteq> {} then filter (\<lambda>m. wp_obj_size m \<in> only_sizes) metrics else metrics)
      in if only_threads \<noteq> {} then filter (\<lambda>m. wp_threads m \<in> only_threads) kept else kept)"

text \<open>The order of the detailed tables: \<^verbatim>\<open>sorted(metrics, key=lambda x: (x.nodes, parse_size(x.obj_size), x.threads))\<close>\<close>

definition table_order :: "warp_point list \<Rightarrow> warp_point list result" where
  "table_order metrics = rbind (traverse (\<lambda>m. parse_object_size (wp_obj_size m)) metrics) (\<lambda>sizes.
     Inr (map snd (sort_key (\<lambda>(bytes, m). (wp_nodes m, bytes, wp_threads m)) (zip sizes metrics))))"

subsection \<open>Clients that fall behind\<close>

record laggards =
  lg_underperformers :: "(string \<times> rat \<times> rat) list"
  lg_count :: int
  lg_mean :: rat
  lg_median :: rat
  lg_stddev :: rat
  lg_p10 :: rat
  lg_p90 :: rat

record array_functions =
  np_mean :: "rat list \<Rightarrow> rat"
  np_median :: "rat list \<Rightarrow> rat"
  np_std :: "rat list \<Rightarrow> rat"
  np_percentile :: "rat list \<Rightarrow> int \<Rightarrow> rat"

definition z_score :: "array_functions \<Rightarrow> rat list \<Rightarrow> rat \<Rightarrow> rat" where
  "z_score np values v = (if 0 < np_std np values then fl (fl (v - np_mean np values) / np_std np values) else 0)"

definition identify_underperforming_clients ::
  "array_functions \<Rightarrow> (string, rat) dict \<Rightarrow> rat \<Rightarrow> laggards" where
  "identify_underperforming_clients np client_metrics z_threshold =
     (if client_metrics = [] then \<lparr> lg_underperformers = [], lg_count = 0, lg_mean = 0, lg_median = 0, lg_stddev = 0, lg_p10 = 0, lg_p90 = 0 \<rparr>
      else let values = map snd client_metrics;
               scored = map (\<lambda>(client, v). (client, v, z_score np values v)) client_metrics;
               underperformers = sort_key (\<lambda>(_, _, z). z) (filter (\<lambda>(_, _, z). z < - z_threshold) scored)
           in \<lparr> lg_underperformers = underperformers, lg_count = int (length client_metrics) - int (length underperformers),
                lg_mean = np_mean np values, lg_median = np_median np values, lg_stddev = np_std np values,
                lg_p10 = np_percentile np values 10, lg_p90 = np_percentile np values 90 \<rparr>)"

text \<open>\<^verbatim>\<open>_collect_client_avg_throughput\<close>: the metrics give a throughput in MiB/s per client.\<close>

definition collect_client_avg_throughput :: "array_functions \<Rightarrow> (string, rat) dict list \<Rightarrow> (string, rat) dict" where
  "collect_client_avg_throughput np metrics =
     map (\<lambda>(client, values). (client, np_mean np values))
       (fold (fold (\<lambda>(client, mib). dict_append client (warp_mib_to_gbps mib))) metrics [])"

definition build_color_mapping :: "'a list \<Rightarrow> 'c list \<Rightarrow> ('a, 'c) dict result" where
  "build_color_mapping combinations colors =
     (if colors = [] \<and> combinations \<noteq> [] then Inl ZeroDivisionError
      else Inr (fold (\<lambda>(i, combo). dict_set combo (colors ! (i mod length colors))) (enumerate 0 combinations) []))"

end
