(* ===== verification/WarpReports.thy ===== *)
theory WarpReports
  imports Warp
begin

section \<open>Object storage reports: what the numbers mean\<close>

text \<open>
  The statistics of a pooled histogram are ordered, no configuration scales beyond 100 percent, clients are flagged exactly when
  their score is below the threshold, and sizes are read back as they were written, unless they are below one KiB.
\<close>

subsection \<open>Statistics of a histogram\<close>

definition reached :: "(rat \<Rightarrow> int) \<Rightarrow> rat \<Rightarrow> int \<Rightarrow> rat list \<Rightarrow> rat" where
  "reached counts target c bs = (case reaching counts target c bs of Some b \<Rightarrow> b | None \<Rightarrow> last bs)"

lemma reached_Cons:
  "reached counts target c (b # bs) =
     (if target \<le> of_int (c + counts b) \<or> bs = [] then b else reached counts target (c + counts b) bs)"
  by (cases bs) (auto simp: reached_def split: option.split)

lemma reached_in: "bs \<noteq> [] \<Longrightarrow> reached counts target c bs \<in> set bs"
  by (induction bs arbitrary: c) (auto simp: reached_Cons)

lemma reached_mono:
  assumes "sorted bs" and "bs \<noteq> []" and "t \<le> t'"
  shows "reached counts t c bs \<le> reached counts t' c bs"
  using assms
proof (induction bs arbitrary: c)
  case Nil
  then show ?case by simp
next
  case (Cons b bs)
  show ?case
  proof (cases "bs = []")
    case True
    then show ?thesis by (simp add: reached_Cons)
  next
    case False
    then have "b \<le> reached counts t' (c + counts b) bs" using Cons.prems(1) reached_in [OF False] by simp
    then show ?thesis using Cons.IH [of "c + counts b"] Cons.prems False by (auto simp: reached_Cons)
  qed
qed

lemma percentile_reached:
  "h \<noteq> [] \<Longrightarrow> total_count h \<noteq> 0 \<Longrightarrow> compute_percentile_from_histogram h p
    = reached (bucket_count h) (fl (of_int (total_count h) * p)) 0 (sort (dict_keys h))"
  by (simp add: compute_percentile_from_histogram_def reached_def Let_def)

lemma percentile_in: "h \<noteq> [] \<Longrightarrow> total_count h \<noteq> 0 \<Longrightarrow> compute_percentile_from_histogram h p \<in> set (dict_keys h)"
  using reached_in [of "sort (dict_keys h)"] by (simp add: percentile_reached)

lemma percentile_mono:
  assumes "h \<noteq> []" and "0 < total_count h" and "p \<le> q"
  shows "compute_percentile_from_histogram h p \<le> compute_percentile_from_histogram h q"
proof -
  have "fl (of_int (total_count h) * p) \<le> fl (of_int (total_count h) * q)"
    using assms by (intro fl_mono mult_left_mono) simp_all
  then show ?thesis using assms reached_mono [of "sort (dict_keys h)"] by (simp add: percentile_reached)
qed

text \<open>The latency statistics the reporter computes from the pooled histogram of several object sizes are ordered: fastest,
  25th percentile, median, 75th, 90th, 99th percentile, slowest; and every one of them is a bucket of the histogram.\<close>

theorem latency_stats_ordered:
  assumes "0 < total_count h" and "stats = compute_stats_from_histogram root_of h sum_millis sum_sq_millis"
  shows "sorted [ls_fastest stats, ls_p25 stats, ls_median stats, ls_p75 stats, ls_p90 stats, ls_p99 stats, ls_slowest stats]
    \<and> {ls_fastest stats, ls_p25 stats, ls_median stats, ls_p75 stats, ls_p90 stats, ls_p99 stats, ls_slowest stats} \<subseteq> set (dict_keys h)"
proof -
  have h: "h \<noteq> []" "total_count h \<noteq> 0" using assms(1) by (auto simp: total_count_def)
  have literals: "3 / 4 \<le> fl (9 / 10)" "fl (9 / 10) \<le> fl (99 / 100)"
  proof -
    have "fl (3 / 4) = 3 / 4" by code_simp
    then show "3 / 4 \<le> fl (9 / 10)" using fl_mono [of "3 / 4" "9 / 10"] by simp
    show "fl (9 / 10) \<le> fl (99 / 100)" by (rule fl_mono) simp
  qed
  note mono = percentile_mono [OF h(1) assms(1)]
  have keys: "finite (set (dict_keys h))" "set (dict_keys h) \<noteq> {}" using h by simp_all
  show ?thesis
    using mono [of "1/4" "1/2"] mono [of "1/2" "3/4"] mono [OF literals(1)] mono [OF literals(2)]
      percentile_in [OF h] Min_in [OF keys] Max_in [OF keys] Min_le [OF keys(1)] Max_ge [OF keys(1)]
    by (simp add: assms(2) compute_stats_from_histogram_def h Let_def del: set_map)
qed

subsection \<open>Scaling efficiency\<close>

lemma fl_self: "b \<noteq> 0 \<Longrightarrow> fl (b / b) = 1"
  using fl_of_int [of 1] by simp

text \<open>C38. The scaling efficiency of a series is never above 100 percent, and when any of its points has a throughput the best
  one is exactly 100 percent: the two divisions and the multiplication are rounded, but never beyond the bound.\<close>

theorem scaling_efficiency_bounded:
  assumes "list_all (\<lambda>t. 0 \<le> t) throughput" and "list_all (\<lambda>x. 0 < x) scales" and "length throughput = length scales"
  shows "list_all (\<lambda>e. 0 \<le> e \<and> e \<le> 100) (calculate_scaling_efficiency throughput scales)
    \<and> ((\<exists>t\<in>set throughput. 0 < t) \<longleftrightarrow> 100 \<in> set (calculate_scaling_efficiency throughput scales))"
proof (cases "scales = []")
  case True
  then show ?thesis using assms(3) by (simp add: calculate_scaling_efficiency_def)
next
  case False
  define points ratios where "points = zip throughput scales" and "ratios = set (map (\<lambda>(bw, x). ratio bw x) points)"
  define base where "base = Max ratios"
  have base: "Max (set (map (\<lambda>(bw, x). ratio bw x) (zip throughput scales))) = base"
    by (simp only: base_def ratios_def points_def)
  have ne: "points \<noteq> []" "throughput \<noteq> []" using False assms(3) by (auto simp: points_def)
  then have fin: "finite ratios" "ratios \<noteq> {}" by (simp_all add: ratios_def)
  have point: "0 \<le> bw" "0 < x" if "(bw, x) \<in> set points" for bw x
    using that assms(1,2) by (auto simp: points_def list_all_iff dest: set_zip_leftD set_zip_rightD)
  have le: "ratio bw x \<le> base" if "(bw, x) \<in> set points" for bw x
    using that fin by (auto simp: base_def ratios_def intro!: Max_ge)
  have nonneg: "0 \<le> ratio bw x" if "(bw, x) \<in> set points" for bw x
    using point [OF that] by (simp add: ratio_def fl_nonneg)
  obtain bw0 x0 where best: "(bw0, x0) \<in> set points" "ratio bw0 x0 = base"
    using Max_in [OF fin] by (auto simp: base_def ratios_def)
  have base0: "0 \<le> base" using nonneg best by force
  have some: "(\<exists>t\<in>set throughput. 0 < t) \<longleftrightarrow> base \<noteq> 0"
  proof
    assume "\<exists>t\<in>set throughput. 0 < t"
    then obtain t x where tx: "(t, x) \<in> set points" "0 < t"
      using assms(3) by (metis in_set_impl_in_set_zip1 points_def)
    then have "0 < ratio t x" using point [OF tx(1)] by (simp add: ratio_def fl_pos)
    then show "base \<noteq> 0" using le [OF tx(1)] by simp
  next
    assume "base \<noteq> 0"
    then have "bw0 \<noteq> 0" using best(2) by (auto simp: ratio_def split: if_splits)
    then show "\<exists>t\<in>set throughput. 0 < t" using point(1) [OF best(1)] best(1) by (force simp: points_def dest: set_zip_leftD)
  qed
  have hundred: "fl 100 = 100" using fl_of_int [of 100] by simp
  show ?thesis
  proof (cases "base = 0")
    case True
    then have "calculate_scaling_efficiency throughput scales = replicate (length scales) 0"
      using False ne by (simp add: calculate_scaling_efficiency_def Let_def base del: set_map)
    then show ?thesis using some True by (simp add: list_all_iff)
  next
    case nz: False
    then have "0 < base" using base0 by simp
    have scaled: "calculate_scaling_efficiency throughput scales = map (\<lambda>(bw, x). fl (fl (ratio bw x / base) * 100)) points"
    proof -
      have "calculate_scaling_efficiency throughput scales
          = map (\<lambda>(bw, x). if x \<noteq> 0 then fl (fl (fl (bw / of_int x) / base) * 100) else 0) points"
        using False ne nz by (simp add: calculate_scaling_efficiency_def Let_def base points_def del: set_map)
      also have "\<dots> = map (\<lambda>(bw, x). fl (fl (ratio bw x / base) * 100)) points"
        using point(2) by (intro map_cong) (auto simp: ratio_def)
      finally show ?thesis .
    qed
    have range: "0 \<le> fl (fl (ratio bw x / base) * 100) \<and> fl (fl (ratio bw x / base) * 100) \<le> 100" if "(bw, x) \<in> set points" for bw x
    proof -
      have "ratio bw x / base \<le> base / base" using le [OF that] \<open>0 < base\<close> by (intro divide_right_mono) simp_all
      then have "fl (ratio bw x / base) \<le> 1" using fl_mono fl_self [OF nz] by metis
      moreover have "0 \<le> fl (ratio bw x / base)" using nonneg [OF that] \<open>0 < base\<close> by (simp add: fl_nonneg)
      ultimately show ?thesis using fl_mono [of "fl (ratio bw x / base) * 100" 100] by (simp add: hundred fl_nonneg)
    qed
    have "100 \<in> set (calculate_scaling_efficiency throughput scales)"
    proof -
      have "fl (fl (ratio bw0 x0 / base) * 100) = 100" by (simp only: best(2) fl_self [OF nz] mult_1 hundred)
      then show ?thesis unfolding scaled using best(1) by force
    qed
    then show ?thesis using some nz range by (auto simp: scaled list_all_iff)
  qed
qed

text \<open>The clients reported as falling behind are exactly those whose score is below the negative threshold, each with its
  value and its score, worst first; the number of the others is reported beside them.\<close>

theorem underperformers_exact:
  assumes "client_metrics \<noteq> []"
  shows "mset (lg_underperformers (identify_underperforming_clients np client_metrics z)) =
      mset (map (\<lambda>(client, v). (client, v, z_score np (map snd client_metrics) v))
        (filter (\<lambda>(client, v). z_score np (map snd client_metrics) v < - z) client_metrics))
    \<and> sorted (map (\<lambda>(_, _, score). score) (lg_underperformers (identify_underperforming_clients np client_metrics z)))
    \<and> lg_count (identify_underperforming_clients np client_metrics z) =
      int (length (filter (\<lambda>(client, v). \<not> z_score np (map snd client_metrics) v < - z) client_metrics))"
proof -
  define f where "f = (\<lambda>(client :: string, v). (client, v, z_score np (map snd client_metrics) v))"
  have flagged: "(\<lambda>(_, _, score). score < - z) \<circ> f = (\<lambda>(client, v). z_score np (map snd client_metrics) v < - z)"
    by (auto simp: f_def fun_eq_iff)
  moreover have "length (filter P xs) + length (filter (\<lambda>x. \<not> P x) xs) = length xs" for P and xs :: "(string \<times> rat) list"
    by (rule sum_length_filter_compl)
  from this [of "\<lambda>(client, v). z_score np (map snd client_metrics) v < - z" client_metrics]
  have "int (length client_metrics) - int (length (filter (\<lambda>(client, v). z_score np (map snd client_metrics) v < - z) client_metrics))
      = int (length (filter (\<lambda>(client, v). \<not> z_score np (map snd client_metrics) v < - z) client_metrics))"
    by (simp add: case_prod_unfold)
  ultimately show ?thesis
    using assms by (simp add: identify_underperforming_clients_def Let_def filter_map flagged flip: f_def)
qed

subsection \<open>Sizes\<close>

lemma eat_run_dec: "\<not> is_digit c \<Longrightarrow> eat_run is_digit (dec n @ c # s) = Some (dec n, c # s)"
  by (simp add: eat_run_def takeWhile_dec dropWhile_dec)

lemma parse_unit: "size_map c = Some scale \<Longrightarrow> \<not> is_digit c \<Longrightarrow> parse_object_size (dec n @ c # ''iB'') = Inr (int n * scale)"
  by (simp add: parse_object_size_def eat_run_dec startswith_iff)

text \<open>A size that is a multiple of its unit, the largest one not above it\<close>

definition whole_units :: "int \<Rightarrow> bool" where
  "whole_units n \<longleftrightarrow> (case find (\<lambda>(_, unit_size). unit_size \<le> n) size_units of
     None \<Rightarrow> False | Some (_, unit_size) \<Rightarrow> unit_size dvd n)"

text \<open>A size of a whole number of its unit is read back from its name as the same number of bytes.\<close>

theorem size_read_back:
  assumes "whole_units n"
  shows "parse_object_size (format_size n) = Inr n"
proof -
  have name: "format_size n = dec (nat (n div u)) @ c # ''iB''" and again: "int (nat (n div u)) * u = n"
    if "find (\<lambda>(_, unit_size). unit_size \<le> n) size_units = Some (c # ''iB'', u)" "0 < u" "u \<le> n" for c u
  proof -
    have "n mod u = 0" using assms that(1) by (auto simp: whole_units_def)
    then show "int (nat (n div u)) * u = n" using that(2,3) div_mult_mod_eq [of n u] by (simp add: pos_imp_zdiv_nonneg_iff)
    show "format_size n = dec (nat (n div u)) @ c # ''iB''"
      using \<open>n mod u = 0\<close> that by (simp add: format_size_def str_int_def pos_imp_zdiv_neg_iff)
  qed
  consider "1024 ^ 4 \<le> n" | "1024 ^ 3 \<le> n" "n < 1024 ^ 4" | "1024 ^ 2 \<le> n" "n < 1024 ^ 3" | "1024 \<le> n" "n < 1024 ^ 2"
    using assms by (force simp: whole_units_def size_units_def split: if_splits)
  then show ?thesis
  proof cases
    case 1
    then show ?thesis using name [of "CHR ''T''" "1024 ^ 4"] again [of "CHR ''T''" "1024 ^ 4"]
      by (simp add: size_units_def parse_unit size_map_def is_digit_def)
  next
    case 2
    then show ?thesis using name [of "CHR ''G''" "1024 ^ 3"] again [of "CHR ''G''" "1024 ^ 3"]
      by (simp add: size_units_def parse_unit size_map_def is_digit_def)
  next
    case 3
    then show ?thesis using name [of "CHR ''M''" "1024 ^ 2"] again [of "CHR ''M''" "1024 ^ 2"]
      by (simp add: size_units_def parse_unit size_map_def is_digit_def)
  next
    case 4
    then show ?thesis using name [of "CHR ''K''" "1024"] again [of "CHR ''K''" "1024"]
      by (simp add: size_units_def parse_unit size_map_def is_digit_def)
  qed
qed

text \<open>Sizes below one KiB are named in bytes, which is no size for the parser.\<close>

lemma small_size_rejected:
  assumes "0 \<le> n" and "n < 1024"
  shows "parse_object_size (format_size n) = Inl (ValueError (''Invalid size format: '' @ format_size n))"
proof -
  have "format_size n = dec (nat n) @ CHR ''B'' # []" using assms by (simp add: format_size_def size_units_def str_int_def)
  then show ?thesis by (simp add: parse_object_size_def eat_run_dec size_map_def is_digit_def)
qed

lemma traverse_Inl:
  assumes "x \<in> set xs" and "f x = Inl e"
  shows "\<exists>y\<in>set xs. \<exists>e. f y = Inl e \<and> traverse f xs = Inl e"
  using assms
proof (induction xs)
  case (Cons y ys)
  show ?case
  proof (cases "f y")
    case (Inr v)
    then have "x \<in> set ys" using Cons.prems by auto
    then show ?thesis using Cons.IH Cons.prems(2) Inr by auto
  qed auto
qed simp

lemma parse_object_size_errors: "parse_object_size s = Inl e \<Longrightarrow> e = ValueError (''Invalid size format: '' @ s)"
  by (auto simp: parse_object_size_def split: option.splits prod.splits list.splits if_splits)

text \<open>A single result of objects below one KiB keeps the tables from being printed: their order reads the sizes back,
  and the exception is not caught.\<close>

theorem small_objects_stop_the_tables:
  assumes "m \<in> set metrics" and "wp_obj_size m = format_size n" and "0 \<le> n" and "n < 1024"
  shows "\<exists>m'\<in>set metrics. table_order metrics = Inl (ValueError (''Invalid size format: '' @ wp_obj_size m'))"
proof -
  have "parse_object_size (wp_obj_size m) = Inl (ValueError (''Invalid size format: '' @ format_size n))"
    using small_size_rejected assms by simp
  then obtain m' e where "m' \<in> set metrics" "parse_object_size (wp_obj_size m') = Inl e"
      "traverse (\<lambda>m. parse_object_size (wp_obj_size m)) metrics = Inl e"
    using traverse_Inl [OF assms(1), of "\<lambda>m. parse_object_size (wp_obj_size m)"] by blast
  then show ?thesis using parse_object_size_errors by (force simp: table_order_def)
qed

subsection \<open>Names of windows and clients\<close>

theorem window_read_back:
  assumes "0 \<le> n"
  shows "window_millis (format_window_size_from_millis n) = Inr (0, n, ([], []))"
proof (cases "1000 \<le> n \<and> n mod 1000 = 0")
  case True
  then have "format_window_size_from_millis n = dec (nat (n div 1000)) @ CHR ''s'' # []"
    by (simp add: format_window_size_from_millis_def str_int_def pos_imp_zdiv_neg_iff)
  moreover have "int (nat (n div 1000)) * 1000 = n"
    using True div_mult_mod_eq [of n 1000] by (simp add: pos_imp_zdiv_nonneg_iff)
  ultimately show ?thesis by (simp add: window_millis_def eat_run_dec window_unit_ms_def is_digit_def)
next
  case False
  have "format_window_size_from_millis n = dec (nat n) @ CHR ''m'' # ''s''"
    using assms unfolding format_window_size_from_millis_def if_not_P [OF False] by (simp add: str_int_def)
  then show ?thesis using assms by (simp add: window_millis_def eat_run_dec window_unit_ms_def is_digit_def)
qed

text \<open>The host of a client, whatever dashes it has, is what precedes the last one.\<close>

theorem client_name_is_host:
  assumes "CHR ''-'' \<notin> set suffix_text"
  shows "extract_client_name (''Client_'' @ host @ ''-'' @ suffix_text) = host"
proof -
  have "split_on c (s @ c # w) = split_on c s @ split_on c w" for c s w
    by (induction s) (auto split: list.split)
  then have parts: "split_on CHR ''-'' (host @ ''-'' @ suffix_text) = split_on CHR ''-'' host @ [suffix_text]"
    using assms by (simp add: split_on_free)
  then have "butlast (split_on CHR ''-'' (host @ ''-'' @ suffix_text)) = split_on CHR ''-'' host" by simp
  moreover have "1 < length (split_on CHR ''-'' (host @ ''-'' @ suffix_text))"
    unfolding parts using split_on_nonempty [of "CHR ''-''" host] by (cases "split_on CHR ''-'' host") simp_all
  ultimately show ?thesis by (simp add: extract_client_name_def startswith_iff join_split_on)
qed

subsection \<open>Decoded buckets\<close>

text \<open>A bucket that is accepted has a finite latency that is not negative and a whole count that is not negative.\<close>

lemma decode_bucket_Inr:
  assumes "decode_bucket bucket h = Inr h'"
  obtains b n where "0 \<le> b" and "0 \<le> n" and "h' = add_count (b, n) h"
proof -
  obtain x n where "(case x of Num b \<Rightarrow> if b < 0 then Inl (ValueError ''Invalid histogram bucket'')
           else (case n of
                   PInt i \<Rightarrow> if i < 0 then Inl (ValueError ''Invalid histogram count'') else Inr (add_count (b, i) h)
                 | _ \<Rightarrow> Inl (ValueError ''Invalid histogram count''))
       | _ \<Rightarrow> Inl (ValueError ''Invalid histogram bucket'')) = Inr h'"
    using assms unfolding decode_bucket_def rbind_eq_Inr by blast
  then obtain b i where "\<not> b < 0" "\<not> i < 0" "h' = add_count (b, i) h"
    by (auto split: float_value.split_asm pyval.split_asm if_split_asm)
  then show ?thesis using that [of b i] by simp
qed

lemma decoded_buckets_sound:
  assumes "decode_warp_histogram_buckets buckets = Inr h"
  shows "counts_ok h \<and> (\<forall>b\<in>set (dict_keys h). 0 \<le> b)"
proof -
  have "counts_ok h0 \<Longrightarrow> \<forall>b\<in>set (dict_keys h0). 0 \<le> b \<Longrightarrow> rfold decode_bucket buckets h0 = Inr h
      \<Longrightarrow> counts_ok h \<and> (\<forall>b\<in>set (dict_keys h). 0 \<le> b)" for h0
  proof (induction buckets arbitrary: h0)
    case (Cons bucket buckets)
    obtain h1 where h1: "decode_bucket bucket h0 = Inr h1" "rfold decode_bucket buckets h1 = Inr h"
      using Cons.prems(3) unfolding rfold_Cons_Inr by blast
    obtain b n where bn: "0 \<le> b" "0 \<le> n" "h1 = add_count (b, n) h0" using decode_bucket_Inr [OF h1(1)] .
    have "counts_ok h1" using counts_ok_add [OF Cons.prems(1), of "(b, n)"] bn by simp
    moreover have "\<forall>b\<in>set (dict_keys h1). 0 \<le> b" using bn Cons.prems(2) by (auto simp: add_count_def dict_keys_set)
    ultimately show ?case using Cons.IH h1(2) by blast
  qed simp
  from this [of "[]"] show ?thesis
    using assms by (simp add: decode_warp_histogram_buckets_def counts_ok_def)
qed

subsection \<open>Examples\<close>

theorem latency_stats_ordered_witness:
  "ls_p25 (compute_stats_from_histogram id [(4, 1), (1, 2)] 6 18) \<le> ls_p99 (compute_stats_from_histogram id [(4, 1), (1, 2)] 6 18)
    \<and> ls_p99 (compute_stats_from_histogram id [(4, 1), (1, 2)] 6 18) \<in> {1, 4}"
proof -
  have "0 < total_count [(4 :: rat, 1), (1, 2)]" by code_simp
  from latency_stats_ordered [OF this refl, of id 6 18] show ?thesis by auto
qed

theorem scaling_efficiency_bounded_witness: "100 \<in> set (calculate_scaling_efficiency [10, 30, 0] [1, 2, 4])"
proof -
  have "list_all (\<lambda>t. 0 \<le> t) [10, 30, 0 :: rat]" "list_all (\<lambda>x. 0 < x) [1, 2, 4 :: int]"
    "length [10, 30, 0 :: rat] = length [1, 2, 4 :: int]"
    by simp_all
  from scaling_efficiency_bounded [OF this] show ?thesis by auto
qed

definition example_arrays :: array_functions where
  "example_arrays = \<lparr> np_mean = py_mean, np_median = hd, np_std = (\<lambda>_. 2), np_percentile = (\<lambda>xs _. hd xs) \<rparr>"

theorem underperformers_exact_witness:
  "sorted (map (\<lambda>(_, _, score). score)
    (lg_underperformers (identify_underperforming_clients example_arrays [(''a'', 1), (''b'', 20), (''c'', 21)] 2)))"
  using underperformers_exact [of "[(''a'', 1), (''b'', 20), (''c'', 21)]" example_arrays 2] by simp

theorem size_read_back_witness: "parse_object_size (format_size 67108864) = Inr 67108864"
proof -
  have "whole_units 67108864" by code_simp
  then show ?thesis by (rule size_read_back)
qed

theorem small_objects_stop_the_tables_witness:
  "table_order [\<lparr> wp_nodes = 1, wp_obj_size = ''512B'', wp_threads = 8 \<rparr>] = Inl (ValueError ''Invalid size format: 512B'')"
proof -
  have "''512B'' = format_size 512" by code_simp
  then show ?thesis
    using small_objects_stop_the_tables [of "\<lparr> wp_nodes = 1, wp_obj_size = ''512B'', wp_threads = 8 \<rparr>"
        "[\<lparr> wp_nodes = 1, wp_obj_size = ''512B'', wp_threads = 8 \<rparr>]" 512] by simp
qed

end
