(* ===== verification/Provenance.thy ===== *)
theory Provenance
  imports ReportCommon PyRegex
begin

section \<open>Project versions in reports (lib/report\_provenance.py)\<close>

text \<open>
  A benchmark leaves the version of the project beside every result file. A report names the versions that
  produced its results in natural order. The theory shows that this header can always be computed, stays a line of harmless
  characters, and depends on nothing but the set of result files.
\<close>

definition UNKNOWN :: string where "UNKNOWN = ''unknown''"
definition VERSION_FILE_SUFFIX :: string where "VERSION_FILE_SUFFIX = ''.project-version''"
definition JSON_RESULT_SUFFIXES :: "string list" where "JSON_RESULT_SUFFIXES = [''.json.zst'', ''.json'']"

definition version_char :: "char \<Rightarrow> bool" where
  "version_char c \<longleftrightarrow> is_digit c \<or> is_lower c \<or> is_upper c \<or> c \<in> {CHR ''.'', CHR ''+'', CHR ''-''}"

text \<open>\<^verbatim>\<open>_DISPLAYABLE.fullmatch\<close>\<close>

definition displayable :: "string \<Rightarrow> bool" where
  "displayable s \<longleftrightarrow> 1 \<le> length s \<and> length s \<le> 128 \<and> list_all version_char s"

definition version_file :: "string \<Rightarrow> string" where
  "version_file name = (case find (\<lambda>ending. suffix ending name) JSON_RESULT_SUFFIXES of
     Some ending \<Rightarrow> take (length name - length ending) name @ ''.out''
   | None \<Rightarrow> name) @ VERSION_FILE_SUFFIX"

text \<open>\<open>read\<close> gives the text of a file beside the result, or \<open>None\<close> when it cannot be opened or decoded.\<close>

definition result_version :: "(string \<Rightarrow> string option) \<Rightarrow> string \<Rightarrow> string" where
  "result_version read name = (case read (version_file name) of
     None \<Rightarrow> UNKNOWN
   | Some text \<Rightarrow> let v = py_strip (take 256 text) in if displayable v then v else UNKNOWN)"

definition recorded_result_version :: "(string \<Rightarrow> string option) \<Rightarrow> string \<Rightarrow> string option" where
  "recorded_result_version read name = (let version = result_version read name in if version = UNKNOWN then None else Some version)"

text \<open>A metric object is its identity; an entry keeps the object alive, so that an identity is never reused.\<close>

type_synonym result_versions = "(nat, string) dict"

definition add_versions :: "nat list \<Rightarrow> string \<Rightarrow> result_versions \<Rightarrow> result_versions" where
  "add_versions metrics version by_id = fold (\<lambda>metric. dict_set metric version) metrics by_id"

definition versions_of :: "result_versions \<Rightarrow> nat list \<Rightarrow> string list" where
  "versions_of by_id metrics = map (\<lambda>metric. case dict_get by_id metric of Some v \<Rightarrow> v | None \<Rightarrow> UNKNOWN) metrics"

definition selected_versions :: "('a \<times> string) list \<Rightarrow> 'b list \<Rightarrow> ('a \<Rightarrow> 'k) \<Rightarrow> ('b \<Rightarrow> 'k) \<Rightarrow> string list" where
  "selected_versions recorded selected key selected_key =
     map snd (filter (\<lambda>(metric, _). key metric \<in> set (map selected_key selected)) recorded)"

definition keyed_version :: "string \<Rightarrow> ((key_part list \<times> string) \<times> string) result" where
  "keyed_version v = rbind (natural_key v) (\<lambda>k. Inr (k, v))"

definition produced_by :: "string list \<Rightarrow> string result" where
  "produced_by versions = rbind (traverse keyed_version (remdups versions)) (\<lambda>keyed.
     let text = join '', '' (map snd (sort_key fst keyed)) in Inr (if text = [] then UNKNOWN else text))"

definition version_header :: "string list \<Rightarrow> bool \<Rightarrow> string option \<Rightarrow> string \<Rightarrow> string list result" where
  "version_header versions markdown target project_version =
     (let prefix = (if markdown then ''- '' else []) in
      rbind (produced_by versions) (\<lambda>produced. Inr
        ([prefix @ ''Produced by storage-scale-test: '' @ produced,
          prefix @ ''Reported by storage-scale-test: '' @ project_version]
         @ (case target of None \<Rightarrow> [] | Some label \<Rightarrow> [prefix @ ''Storage target: '' @ label]) @ [[]])))"

subsection \<open>Versions that are shown\<close>

lemma result_version_displayable: "displayable (result_version read name)"
  by (simp add: result_version_def Let_def UNKNOWN_def displayable_def version_char_def is_lower_def split: option.split)

lemma py_int_digits:
  assumes "list_all is_digit s" and "s \<noteq> []"
  shows "py_int s = Inr (int (undec s))"
proof -
  have "is_digit (hd s)" "is_digit (last s)" using assms by (simp_all add: list_all_iff)
  then have "py_strip s = s" "hd s \<noteq> CHR ''-''" "hd s \<noteq> CHR ''+''"
    using assms(2) digit_not_space by (auto simp: py_strip_id is_digit_def)
  moreover have "CHR ''_'' \<notin> set s" using assms(1) by (auto simp: list_all_iff is_digit_def)
  ultimately show ?thesis using assms by (simp add: py_int_def digit_groups_def split_on_free)
qed

lemma version_char_plain: "version_char c \<Longrightarrow> unicode_digit c \<Longrightarrow> is_digit c"
  by (auto simp: version_char_def unicode_digit_def is_lower_def is_upper_def)

lemma digit_split_parts: "list_all version_char s \<Longrightarrow> part \<in> set (digit_split s) \<Longrightarrow> list_all version_char part"
proof (induction s rule: digit_split.induct)
  case (1 s)
  define t r where "t = takeWhile (\<lambda>c. \<not> is_digit c) s" and "r = dropWhile (\<lambda>c. \<not> is_digit c) s"
  have split: "digit_split s = (if r = [] then [t] else t # takeWhile is_digit r # digit_split (dropWhile is_digit r))"
    by (subst digit_split.simps) (simp add: t_def r_def Let_def)
  have parts: "list_all version_char t" "list_all version_char r"
    using "1.prems"(1) by (auto simp: t_def r_def list_all_iff dest: set_takeWhileD set_dropWhileD)
  then have rest: "list_all version_char (takeWhile is_digit r)" "list_all version_char (dropWhile is_digit r)"
    by (auto simp: list_all_iff dest: set_takeWhileD set_dropWhileD)
  show ?case
  proof (cases "part = t \<or> part = takeWhile is_digit r")
    case True
    then show ?thesis using parts rest by auto
  next
    case False
    then have "r \<noteq> []" "part \<in> set (digit_split (dropWhile is_digit r))" using "1.prems"(2) by (auto simp: split split: if_splits)
    then show ?thesis using "1.IH" [OF t_def r_def _ rest(2)] by simp
  qed
qed

lemma natural_part_version: "list_all version_char part \<Longrightarrow> \<exists>p. natural_part part = Inr p"
  using py_int_digits [of part] version_char_plain by (auto simp: natural_part_def isdigit_def list_all_iff rbind_def)

lemma natural_key_version:
  assumes "list_all version_char s"
  obtains parts where "natural_key s = Inr (parts, s)"
proof -
  define f where "f = (\<lambda>part. projr (natural_part part))"
  have "natural_part part = Inr (f part)" if "part \<in> set (digit_split s)" for part
    using natural_part_version [OF digit_split_parts [OF assms that]] by (auto simp: f_def)
  then have "traverse natural_part (digit_split s) = Inr (map f (digit_split s))" by (intro traverse_total)
  then show ?thesis using that by (simp add: natural_key_def)
qed

definition sort_text :: "string \<Rightarrow> key_part list \<times> string" where
  "sort_text v = projr (natural_key v)"

lemma keyed_versions:
  assumes "\<forall>v\<in>set vs. list_all version_char v"
  shows "traverse keyed_version vs = Inr (map (\<lambda>v. (sort_text v, v)) vs)"
proof (rule traverse_total)
  fix v assume "v \<in> set vs"
  then obtain parts where "natural_key v = Inr (parts, v)" using natural_key_version assms by blast
  then show "keyed_version v = Inr (sort_text v, v)" by (simp add: keyed_version_def sort_text_def)
qed

text \<open>Sorting by the natural key does not depend on the order in which Python iterates over the set.\<close>

interpretation versions_sorted: deterministic_key sort_text "{v. list_all version_char v}"
proof
  show "inj_on sort_text {v. list_all version_char v}"
  proof (rule inj_onI)
    fix v w assume "v \<in> {v. list_all version_char v}" "w \<in> {v. list_all version_char v}" and same: "sort_text v = sort_text w"
    then obtain p q where "natural_key v = Inr (p, v)" "natural_key w = Inr (q, w)"
      using natural_key_version by (metis mem_Collect_eq)
    then show "v = w" using same by (simp add: sort_text_def)
  qed
qed

lemma sort_key_tagged: "map snd (sort_key fst (map (\<lambda>v. (f v, v)) vs)) = sort_key f vs"
proof -
  have "insort_key fst (f v, v) (map (\<lambda>v. (f v, v)) ws) = map (\<lambda>v. (f v, v)) (insort_key f v ws)" for v ws
    by (induction ws) simp_all
  then have "sort_key fst (map (\<lambda>v. (f v, v)) vs) = map (\<lambda>v. (f v, v)) (sort_key f vs)"
    by (induction vs) simp_all
  then show ?thesis by (simp add: comp_def)
qed

lemma produced_by_sorted:
  assumes "\<forall>v\<in>set vs. list_all version_char v"
  shows "produced_by vs = Inr (let text = join '', '' (sort_key sort_text (remdups vs)) in if text = [] then UNKNOWN else text)"
  using keyed_versions [of "remdups vs"] assms by (simp add: produced_by_def sort_key_tagged Let_def)

text \<open>The version line of a report over any result files can be computed, names the version recorded beside every result,
  each once, and holds nothing but version characters, commas and blanks, so that whatever a version file contains,
  the header stays one line; and it is the same for the same result files in any order and number.\<close>

theorem version_line_depends_on_results:
  assumes "set files = set files'"
  shows "\<exists>versions. produced_by (map (result_version read) files) = Inr (if versions = [] then UNKNOWN else join '', '' versions)
    \<and> produced_by (map (result_version read) files') = Inr (if versions = [] then UNKNOWN else join '', '' versions)
    \<and> set versions = result_version read ` set files \<and> distinct versions
    \<and> list_all (\<lambda>v. displayable v) versions"
proof -
  define vs where "vs = (\<lambda>files. remdups (map (result_version read) files))"
  define versions where "versions = sort_key sort_text (vs files)"
  have shown: "\<forall>v\<in>set (map (result_version read) fs). list_all version_char v" for fs
    using result_version_displayable [of read] by (auto simp: displayable_def)
  have same: "sort_key sort_text (vs files') = versions"
    unfolding versions_def
  proof (rule versions_sorted.sort_key_of_set)
    show "set (vs files') = set (vs files)" using assms by (simp add: vs_def)
    show "set (vs files') \<subseteq> {v. list_all version_char v}" using shown [of files'] by (auto simp: vs_def)
  qed (simp_all add: vs_def)
  have "join '', '' versions \<noteq> []" if "versions \<noteq> []"
  proof -
    have "displayable (hd versions)" using that result_version_displayable hd_in_set [OF that] by (auto simp: versions_def vs_def)
    then show ?thesis using that by (cases versions; cases "tl versions") (auto simp: displayable_def join_Cons)
  qed
  then have shown_text: "(let text = join '', '' versions in if text = [] then UNKNOWN else text) = (if versions = [] then UNKNOWN else join '', '' versions)"
    by auto
  have produced: "produced_by (map (result_version read) fs)
      = Inr (let text = join '', '' (sort_key sort_text (vs fs)) in if text = [] then UNKNOWN else text)" for fs
    using produced_by_sorted [OF shown] by (simp add: vs_def)
  show ?thesis
  proof (intro exI conjI)
    show "produced_by (map (result_version read) files) = Inr (if versions = [] then UNKNOWN else join '', '' versions)"
      unfolding produced versions_def [symmetric] shown_text ..
    show "produced_by (map (result_version read) files') = Inr (if versions = [] then UNKNOWN else join '', '' versions)"
      unfolding produced same shown_text ..
    show "set versions = result_version read ` set files" "distinct versions" by (simp_all add: versions_def vs_def)
    show "list_all (\<lambda>v. displayable v) versions"
      using result_version_displayable by (auto simp: versions_def vs_def list_all_iff)
  qed
qed

theorem version_line_depends_on_results_witness:
  "produced_by (map (result_version (\<lambda>name. if name = ''a.out.project-version'' then Some ''1.10'' else None)) [''a.json'', ''b.out''])
    = produced_by (map (result_version (\<lambda>name. if name = ''a.out.project-version'' then Some ''1.10'' else None)) [''b.out'', ''a.json'', ''b.out''])"
proof -
  have "set [''a.json'', ''b.out''] = set [''b.out'', ''a.json'', ''b.out'']" by auto
  from version_line_depends_on_results [OF this, of "\<lambda>name. if name = ''a.out.project-version'' then Some ''1.10'' else None"]
  show ?thesis by (elim exE conjE) (simp only:)
qed

end
