(* ===== verification/ReleasePublish.thy ===== *)
theory ReleasePublish
  imports PyEffects PyFloatValues "HOL-Library.Sublist"
begin

section \<open>Publication of a release (lib/source\_release.py)\<close>

text \<open>
  \<^verbatim>\<open>publish_release\<close> creates the GitHub release of a tag, or finishes an interrupted publication. It talks to the service through
  the command \<^verbatim>\<open>gh\<close> only. The service is a parameter: a function from the calls made so far and the next call to an answer, so
  every theorem holds for whatever the service answers. The state is the calls made, the bytes of the two local files and the notes
  that were written. Decompression and the digest of a file are parameters too. Building the archive and running
  its commands are not modelled.
\<close>

record answer =
  an_code :: int
  an_out :: string
  an_err :: string
  an_json :: "pyval option"   \<comment> \<open>the output as JSON, when it is JSON\<close>
  an_file :: "string option"  \<comment> \<open>the bytes a download leaves in the directory\<close>

record publication =
  pb_calls :: "string list list"
  pb_archive :: string
  pb_checksum :: string
  pb_notes :: string

type_synonym service = "string list list \<Rightarrow> string list \<Rightarrow> answer"

text \<open>What a publication is about: the names of the two files, their paths, and the temporary directory.\<close>

record release =
  rl_repository :: string
  rl_tag :: string
  rl_commit :: string
  rl_archive_name :: string
  rl_archive_path :: string
  rl_checksum_name :: string
  rl_checksum_path :: string
  rl_notes :: string
  rl_temporary :: string
  rl_decompress :: "string \<Rightarrow> string option"
  rl_sha256 :: "string \<Rightarrow> string"

definition value_error :: "string \<Rightarrow> raised" where
  "value_error message = Raised ''ValueError'' message"

definition raised_of :: "py_error \<Rightarrow> raised" where
  "raised_of e = (case e of ValueError m \<Rightarrow> value_error m | KeyError m \<Rightarrow> Raised ''KeyError'' m | _ \<Rightarrow> Raised ''TypeError'' [])"

definition elift :: "'a result \<Rightarrow> ('s, 'a) eff" where
  "elift r = (case r of Inl e \<Rightarrow> eraise (raised_of e) | Inr x \<Rightarrow> eret x)"

text \<open>The inner function \<^verbatim>\<open>gh\<close>: one call; with \<^verbatim>\<open>check\<close> an exit status other than zero raises.\<close>

definition gh :: "service \<Rightarrow> bool \<Rightarrow> string list \<Rightarrow> (publication, answer) eff" where
  "gh service must arguments = (\<lambda>s.
     let a = service (pb_calls s) arguments; t = s \<lparr> pb_calls := pb_calls s @ [arguments] \<rparr>
     in if must \<and> an_code a \<noteq> 0 then (Inl (Raised ''CalledProcessError'' (join '' '' arguments)), t) else (Inr a, t))"

subsection \<open>The tag\<close>

definition commits_call :: "release \<Rightarrow> string list" where
  "commits_call r = [''api'', ''repos/'' @ rl_repository r @ ''/commits/'' @ rl_tag r, ''--jq'', ''.sha'']"

definition branch_call :: "release \<Rightarrow> string list" where
  "branch_call r = [''api'', ''repos/'' @ rl_repository r, ''--jq'', ''.default_branch'']"

definition compare_call :: "release \<Rightarrow> string \<Rightarrow> string list" where
  "compare_call r branch =
     [''api'', ''repos/'' @ rl_repository r @ ''/compare/'' @ py_strip branch @ ''...'' @ rl_commit r, ''--jq'', ''.status'']"

definition require_merged_tag :: "service \<Rightarrow> release \<Rightarrow> (publication, unit) eff" where
  "require_merged_tag service r =
     ebind (gh service True (commits_call r)) (\<lambda>remote.
     ebind (eguard (py_strip (an_out remote) = rl_commit r)
       (value_error (rl_repository r @ '' tag '' @ rl_tag r @ '' does not identify '' @ rl_commit r))) (\<lambda>_.
     ebind (gh service True (branch_call r)) (\<lambda>branch.
     ebind (gh service True (compare_call r (an_out branch))) (\<lambda>status.
       eguard (py_strip (an_out status) \<in> {''behind'', ''identical''})
         (value_error (rl_tag r @ '' is not on the default branch of '' @ rl_repository r))))))"

subsection \<open>The release, if there is one\<close>

definition view_call :: "release \<Rightarrow> string list" where
  "view_call r = [''release'', ''view'', rl_tag r, ''--repo'', rl_repository r, ''--json'', ''isDraft,assets'']"

definition lookup_call :: "release \<Rightarrow> string list" where
  "lookup_call r = [''api'', ''repos/'' @ rl_repository r @ ''/releases/tags/'' @ rl_tag r]"

definition existing_release :: "service \<Rightarrow> release \<Rightarrow> (publication, pyval option) eff" where
  "existing_release service r =
     ebind (gh service False (view_call r)) (\<lambda>found.
       if an_code found = 0
       then (case an_json found of None \<Rightarrow> eraise (Raised ''JSONDecodeError'' []) | Some v \<Rightarrow> eret (Some v))
       else ebind (gh service False (lookup_call r)) (\<lambda>lookup.
            ebind (eguard (sublist ''HTTP 404'' (an_err lookup))
              (value_error (''cannot determine whether release '' @ rl_tag r @ '' exists''))) (\<lambda>_. eret None)))"

subsection \<open>Assets\<close>

text \<open>\<^verbatim>\<open>/releases/assets/(\d+)$\<close>, searched from the left\<close>

definition asset_id_at :: "string \<Rightarrow> string option" where
  "asset_id_at s = (if startswith s ''/releases/assets/''
     then let rest = drop (length ''/releases/assets/'') s; digits = takeWhile is_digit rest; end_text = dropWhile is_digit rest
          in if digits \<noteq> [] \<and> (end_text = [] \<or> end_text = [LF]) then Some digits else None
     else None)"

fun asset_id :: "string \<Rightarrow> string option" where
  "asset_id [] = None"
| "asset_id (c # s) = (case asset_id_at (c # s) of Some i \<Rightarrow> Some i | None \<Rightarrow> asset_id s)"

definition field_or :: "pyval \<Rightarrow> string \<Rightarrow> pyval \<Rightarrow> pyval" where
  "field_or v key default_value = (case v of
     PDict d \<Rightarrow> (case map_of d (PStr key) of Some x \<Rightarrow> x | None \<Rightarrow> default_value) | _ \<Rightarrow> default_value)"

definition asset_endpoint :: "release \<Rightarrow> pyval \<Rightarrow> string result" where
  "asset_endpoint r remote = (case field_or remote ''apiUrl'' (PStr []) of
     PStr url \<Rightarrow> (case asset_id url of
         Some i \<Rightarrow> Inr (''repos/'' @ rl_repository r @ ''/releases/assets/'' @ i)
       | None \<Rightarrow> rbind (item_of remote ''name'') (\<lambda>name. Inl (ValueError (''cannot identify the asset id of '' @ py_str name))))
   | _ \<Rightarrow> Inl TypeError)"

definition our_names :: "release \<Rightarrow> string list" where
  "our_names r = [rl_archive_name r, rl_checksum_name r]"

definition delete_call :: "string \<Rightarrow> string list" where
  "delete_call endpoint = [''api'', endpoint, ''--method'', ''DELETE'']"

text \<open>One remote asset: its name is added to the published ones, or its failed upload is deleted.\<close>

definition published_asset :: "service \<Rightarrow> release \<Rightarrow> pyval \<Rightarrow> (publication, string list) eff" where
  "published_asset service r remote =
     ebind (elift (item_of remote ''name'')) (\<lambda>name.
       let state = field_or remote ''state'' PNone in
       case name of
         PList _ \<Rightarrow> eraise (Raised ''TypeError'' [])
       | PDict _ \<Rightarrow> eraise (Raised ''TypeError'' [])
       | PStr n \<Rightarrow>
           if n \<notin> set (our_names r) then eret []
           else if state = PStr ''uploaded'' then eret [n]
           else if state = PStr ''starter''
             then ebind (elift (asset_endpoint r remote)) (\<lambda>endpoint.
                  ebind (gh service True (delete_call endpoint)) (\<lambda>_. eret []))
           else eraise (value_error (''published '' @ n @ '' is in unexpected state '' @ py_repr state))
       | _ \<Rightarrow> eret [])"

primrec published_assets :: "service \<Rightarrow> release \<Rightarrow> pyval list \<Rightarrow> (publication, string list) eff" where
  "published_assets service r [] = eret []"
| "published_assets service r (remote # rest) =
     ebind (published_asset service r remote) (\<lambda>names.
     ebind (published_assets service r rest) (\<lambda>more. eret (names @ more)))"

text \<open>What a \<^verbatim>\<open>for\<close> loop iterates over\<close>

definition items_of :: "pyval \<Rightarrow> pyval list result" where
  "items_of v = (case v of PList xs \<Rightarrow> Inr xs | PDict d \<Rightarrow> Inr (map fst d) | PStr s \<Rightarrow> Inr (map (\<lambda>c. PStr [c]) s) | _ \<Rightarrow> Inl TypeError)"

subsection \<open>Bytes that are already published\<close>

definition download_call :: "release \<Rightarrow> string \<Rightarrow> string list" where
  "download_call r name = [''release'', ''download'', rl_tag r, ''--repo'', rl_repository r, ''--pattern'', name, ''--dir'', rl_temporary r]"

definition checksum_text :: "release \<Rightarrow> string \<Rightarrow> string" where
  "checksum_text r bytes = rl_sha256 r bytes @ ''  '' @ rl_archive_name r @ [LF]"

definition downloaded :: "service \<Rightarrow> release \<Rightarrow> string \<Rightarrow> (publication, string) eff" where
  "downloaded service r name =
     ebind (gh service True (download_call r name)) (\<lambda>a.
       case an_file a of None \<Rightarrow> eraise (Raised ''FileNotFoundError'' name) | Some bytes \<Rightarrow> eret bytes)"

definition decompressed :: "release \<Rightarrow> string \<Rightarrow> (publication, string) eff" where
  "decompressed r bytes = (case rl_decompress r bytes of None \<Rightarrow> eraise (Raised ''BadGzipFile'' []) | Some t \<Rightarrow> eret t)"

definition adopt_archive :: "service \<Rightarrow> release \<Rightarrow> (publication, unit) eff" where
  "adopt_archive service r =
     ebind (downloaded service r (rl_archive_name r)) (\<lambda>remote.
     ebind (decompressed r remote) (\<lambda>theirs.
     ebind (eget pb_archive) (\<lambda>local.
     ebind (decompressed r local) (\<lambda>ours.
     ebind (eguard (theirs = ours) (value_error (''published '' @ rl_archive_name r @ '' holds different source''))) (\<lambda>_.
       emodify (\<lambda>s. s \<lparr> pb_archive := remote, pb_checksum := checksum_text r remote \<rparr>))))))"

definition adopt_checksum :: "service \<Rightarrow> release \<Rightarrow> (publication, unit) eff" where
  "adopt_checksum service r =
     ebind (downloaded service r (rl_checksum_name r)) (\<lambda>remote.
     ebind (eget pb_checksum) (\<lambda>local.
       eguard (remote = local) (value_error (''published '' @ rl_checksum_name r @ '' does not match the archive''))))"

definition adopt_published_assets :: "service \<Rightarrow> release \<Rightarrow> string list \<Rightarrow> (publication, unit) eff" where
  "adopt_published_assets service r published =
     ebind (if rl_archive_name r \<in> set published then adopt_archive service r else eret ()) (\<lambda>_.
       if rl_checksum_name r \<in> set published then adopt_checksum service r else eret ())"

subsection \<open>Publishing\<close>

definition ARCHIVE_NOTE :: string where
  "ARCHIVE_NOTE = [LF, LF] @ ''---'' @ [LF, LF] @ ''The attached source archive is stamped with VERSION and SOURCE_SHA256. ''
     @ ''GitHub'' @ [CHR 0x27] @ ''s automatic source archives are not. Benchmark binaries are not included.'' @ [LF]"

definition create_call :: "release \<Rightarrow> string list" where
  "create_call r = [''release'', ''create'', rl_tag r, rl_archive_path r, rl_checksum_path r, ''--repo'', rl_repository r,
     ''--verify-tag'', ''--title'', rl_tag r, ''--notes-file'', rl_temporary r @ ''/notes.md'']"

definition upload_call :: "release \<Rightarrow> string \<Rightarrow> string list" where
  "upload_call r path = [''release'', ''upload'', rl_tag r, path, ''--repo'', rl_repository r]"

definition edit_call :: "release \<Rightarrow> string list" where
  "edit_call r = [''release'', ''edit'', rl_tag r, ''--repo'', rl_repository r, ''--draft=false'']"

definition upload_missing :: "service \<Rightarrow> release \<Rightarrow> string list \<Rightarrow> string \<times> string \<Rightarrow> (publication, unit) eff" where
  "upload_missing service r published asset = (case asset of (name, path) \<Rightarrow>
     if name \<in> set published then eret () else ebind (gh service True (upload_call r path)) (\<lambda>_. eret ()))"

definition publish_draft :: "service \<Rightarrow> release \<Rightarrow> pyval \<Rightarrow> (publication, unit) eff" where
  "publish_draft service r found =
     ebind (elift (item_of found ''isDraft'')) (\<lambda>draft.
       if truthy draft then ebind (gh service True (edit_call r)) (\<lambda>_. eret ()) else eret ())"

definition release_assets :: "release \<Rightarrow> (string \<times> string) list" where
  "release_assets r = [(rl_archive_name r, rl_archive_path r), (rl_checksum_name r, rl_checksum_path r)]"

definition complete_release :: "service \<Rightarrow> release \<Rightarrow> pyval \<Rightarrow> string list \<Rightarrow> (publication, unit) eff" where
  "complete_release service r found published =
     ebind (adopt_published_assets service r published) (\<lambda>_.
     ebind (efor (release_assets r) (upload_missing service r published)) (\<lambda>_. publish_draft service r found))"

definition finish_release :: "service \<Rightarrow> release \<Rightarrow> pyval \<Rightarrow> (publication, unit) eff" where
  "finish_release service r found =
     ebind (elift (item_of found ''assets'')) (\<lambda>assets.
     ebind (elift (items_of assets)) (\<lambda>remote_assets.
     ebind (published_assets service r remote_assets) (complete_release service r found)))"

definition publish_release :: "service \<Rightarrow> release \<Rightarrow> (publication, unit) eff" where
  "publish_release service r =
     ebind (require_merged_tag service r) (\<lambda>_.
     ebind (existing_release service r) (\<lambda>found. case found of
       None \<Rightarrow> ebind (emodify (\<lambda>s. s \<lparr> pb_notes := rl_notes r @ ARCHIVE_NOTE \<rparr>)) (\<lambda>_.
                ebind (gh service True (create_call r)) (\<lambda>_. eret ()))
     | Some v \<Rightarrow> finish_release service r v))"


subsection \<open>What a publication promises\<close>

text \<open>A call that was made, with its answer\<close>

definition said :: "service \<Rightarrow> string list list \<Rightarrow> string list \<Rightarrow> answer \<Rightarrow> bool" where
  "said service calls call a \<longleftrightarrow> (\<exists>k < length calls. calls ! k = call \<and> service (take k calls) call = a)"

definition merged :: "service \<Rightarrow> release \<Rightarrow> string list list \<Rightarrow> bool" where
  "merged service r calls \<longleftrightarrow> (\<exists>tag branch status. said service calls (commits_call r) tag \<and> py_strip (an_out tag) = rl_commit r
     \<and> said service calls (branch_call r) branch \<and> said service calls (compare_call r (an_out branch)) status
     \<and> py_strip (an_out status) \<in> {''behind'', ''identical''})"

definition absent :: "service \<Rightarrow> release \<Rightarrow> string list list \<Rightarrow> bool" where
  "absent service r calls \<longleftrightarrow> (\<exists>view lookup. said service calls (view_call r) view \<and> an_code view \<noteq> 0
     \<and> said service calls (lookup_call r) lookup \<and> sublist ''HTTP 404'' (an_err lookup))"

definition listed :: "service \<Rightarrow> release \<Rightarrow> string list list \<Rightarrow> pyval \<Rightarrow> bool" where
  "listed service r calls v \<longleftrightarrow> (\<exists>view. said service calls (view_call r) view \<and> an_code view = 0 \<and> an_json view = Some v)"

definition listed_assets :: "pyval \<Rightarrow> pyval list \<Rightarrow> bool" where
  "listed_assets v xs \<longleftrightarrow> (\<exists>assets. item_of v ''assets'' = Inr assets \<and> items_of assets = Inr xs)"

definition asset_in :: "release \<Rightarrow> string \<Rightarrow> pyval \<Rightarrow> string \<Rightarrow> bool" where
  "asset_in r state x n \<longleftrightarrow> n \<in> set (our_names r) \<and> item_of x ''name'' = Inr (PStr n) \<and> field_or x ''state'' PNone = PStr state"

definition uploaded :: "release \<Rightarrow> pyval list \<Rightarrow> string \<Rightarrow> bool" where
  "uploaded r xs n \<longleftrightarrow> (\<exists>x \<in> set xs. asset_in r ''uploaded'' x n)"

text \<open>
  The local files after the published ones were taken over: a published archive holds the same source as the local one and
  replaces it, a published checksum is the one of the archive kept.
\<close>

definition kept :: "service \<Rightarrow> release \<Rightarrow> string \<Rightarrow> string \<Rightarrow> pyval list \<Rightarrow> string list list \<Rightarrow> string \<Rightarrow> string \<Rightarrow> bool" where
  "kept service r a0 c0 xs calls archive checksum \<longleftrightarrow>
     (if uploaded r xs (rl_archive_name r)
      then (\<exists>a. said service calls (download_call r (rl_archive_name r)) a \<and> an_file a = Some archive)
        \<and> (\<exists>t. rl_decompress r archive = Some t \<and> rl_decompress r a0 = Some t)
        \<and> checksum = checksum_text r archive
      else archive = a0 \<and> checksum = c0)
   \<and> (uploaded r xs (rl_checksum_name r) \<longrightarrow>
        (\<exists>a. said service calls (download_call r (rl_checksum_name r)) a \<and> an_file a = Some checksum))"

definition all_there :: "service \<Rightarrow> release \<Rightarrow> pyval list \<Rightarrow> string list list \<Rightarrow> bool" where
  "all_there service r xs calls \<longleftrightarrow> (\<forall>(n, p) \<in> set (release_assets r).
     uploaded r xs n \<or> (\<exists>a. said service calls (upload_call r p) a \<and> an_code a = 0))"

definition is_draft :: "pyval \<Rightarrow> bool" where
  "is_draft v \<longleftrightarrow> (\<exists>d. item_of v ''isDraft'' = Inr d \<and> truthy d)"

definition reading :: "release \<Rightarrow> string list \<Rightarrow> bool" where
  "reading r call \<longleftrightarrow> call \<in> {commits_call r, branch_call r, view_call r, lookup_call r}
     \<or> (\<exists>b. call = compare_call r b) \<or> (\<exists>n. call = download_call r n)"

text \<open>Which calls that change the release may follow the calls already made\<close>

inductive changing :: "service \<Rightarrow> release \<Rightarrow> string \<Rightarrow> string \<Rightarrow> string list list \<Rightarrow> string list \<Rightarrow> bool"
  for service r a0 c0 where
  creates: "merged service r calls \<Longrightarrow> absent service r calls \<Longrightarrow> changing service r a0 c0 calls (create_call r)"
| deletes: "merged service r calls \<Longrightarrow> listed service r calls v \<Longrightarrow> listed_assets v xs \<Longrightarrow> x \<in> set xs
    \<Longrightarrow> asset_in r ''starter'' x n \<Longrightarrow> asset_endpoint r x = Inr e \<Longrightarrow> changing service r a0 c0 calls (delete_call e)"
| uploads: "merged service r calls \<Longrightarrow> listed service r calls v \<Longrightarrow> listed_assets v xs
    \<Longrightarrow> (n, p) \<in> set (release_assets r) \<Longrightarrow> \<not> uploaded r xs n \<Longrightarrow> kept service r a0 c0 xs calls archive checksum
    \<Longrightarrow> changing service r a0 c0 calls (upload_call r p)"
| publishes: "merged service r calls \<Longrightarrow> listed service r calls v \<Longrightarrow> listed_assets v xs \<Longrightarrow> is_draft v
    \<Longrightarrow> kept service r a0 c0 xs calls archive checksum \<Longrightarrow> all_there service r xs calls
    \<Longrightarrow> changing service r a0 c0 calls (edit_call r)"

definition permitted :: "service \<Rightarrow> release \<Rightarrow> string \<Rightarrow> string \<Rightarrow> string list list \<Rightarrow> bool" where
  "permitted service r a0 c0 calls \<longleftrightarrow>
     (\<forall>k < length calls. reading r (calls ! k) \<or> changing service r a0 c0 (take k calls) (calls ! k))"

lemma said_more: "said service calls c a \<Longrightarrow> said service (calls @ later) c a"
  by (fastforce simp: said_def nth_append)

lemma said_last: "said service (calls @ [c]) c (service calls c)"
  by (auto simp: said_def intro!: exI [of _ "length calls"])

lemma permitted_last:
  "permitted service r a0 c0 calls \<Longrightarrow> reading r c \<or> changing service r a0 c0 calls c \<Longrightarrow> permitted service r a0 c0 (calls @ [c])"
  by (auto simp: permitted_def nth_append less_Suc_eq)

text \<open>
  The states that satisfy a fact about the calls and the two files. A fact is lasting when more calls keep it.
\<close>

definition lasting :: "(string list list \<Rightarrow> string \<Rightarrow> string \<Rightarrow> bool) \<Rightarrow> bool" where
  "lasting F \<longleftrightarrow> (\<forall>calls later a c. F calls a c \<longrightarrow> F (calls @ later) a c)"

lemma merged_more: "merged service r calls \<Longrightarrow> merged service r (calls @ later)"
  unfolding merged_def by (blast intro: said_more)

lemma absent_more: "absent service r calls \<Longrightarrow> absent service r (calls @ later)"
  unfolding absent_def by (blast intro: said_more)

lemma listed_more: "listed service r calls v \<Longrightarrow> listed service r (calls @ later) v"
  unfolding listed_def by (blast intro: said_more)

lemma kept_more: "kept service r a0 c0 xs calls a c \<Longrightarrow> kept service r a0 c0 xs (calls @ later) a c"
  unfolding kept_def by (auto intro: said_more split: if_splits)

lemma lasting_facts [intro]:
  "lasting (\<lambda>calls a c. said service calls (call a c) (x a c))" "lasting (\<lambda>calls a c. merged service r calls)"
  "lasting (\<lambda>calls a c. absent service r calls)" "lasting (\<lambda>calls a c. listed service r calls v)"
  "lasting (\<lambda>calls a c. kept service r a0 c0 xs calls a c)" "lasting (\<lambda>calls a c. G a c)"
  by (auto simp: lasting_def intro: said_more merged_more absent_more listed_more kept_more)

lemma lasting_conj [intro]: "lasting F \<Longrightarrow> lasting G \<Longrightarrow> lasting (\<lambda>calls a c. F calls a c \<and> G calls a c)"
  by (auto simp: lasting_def)

definition with_fact :: "service \<Rightarrow> release \<Rightarrow> string \<Rightarrow> string \<Rightarrow> (string list list \<Rightarrow> string \<Rightarrow> string \<Rightarrow> bool) \<Rightarrow> publication \<Rightarrow> bool" where
  "with_fact service r a0 c0 F s \<longleftrightarrow> permitted service r a0 c0 (pb_calls s) \<and> F (pb_calls s) (pb_archive s) (pb_checksum s)"

lemma with_factD: "with_fact service r a0 c0 F s \<Longrightarrow> permitted service r a0 c0 (pb_calls s)"
  by (simp add: with_fact_def)

lemma with_fact_mono:
  "with_fact service r a0 c0 F s \<Longrightarrow> (\<And>calls a c. F calls a c \<Longrightarrow> G calls a c) \<Longrightarrow> with_fact service r a0 c0 G s"
  by (simp add: with_fact_def)

text \<open>One call: it must be permitted, and it keeps every lasting fact.\<close>

lemma gh_triple:
  assumes "lasting F" and "\<And>calls a c. F calls a c \<Longrightarrow> reading r args \<or> changing service r a0 c0 calls args"
  shows "triple (with_fact service r a0 c0 F) (gh service must args)
    (\<lambda>x. with_fact service r a0 c0 (\<lambda>calls a c. F calls a c \<and> said service calls args x \<and> (must \<longrightarrow> an_code x = 0)))
    (\<lambda>_ s. permitted service r a0 c0 (pb_calls s))"
proof (rule tripleI)
  fix s assume "with_fact service r a0 c0 F s"
  then have ok: "permitted service r a0 c0 (pb_calls s)" and F: "F (pb_calls s) (pb_archive s) (pb_checksum s)"
    by (simp_all add: with_fact_def)
  let ?x = "service (pb_calls s) args"
  have next_ok: "permitted service r a0 c0 (pb_calls s @ [args])"
    by (rule permitted_last [OF ok assms(2) [OF F]])
  have "F (pb_calls s @ [args]) (pb_archive s) (pb_checksum s)" using assms(1) F by (auto simp: lasting_def)
  with next_ok show "case gh service must args s of
      (Inl e, t) \<Rightarrow> permitted service r a0 c0 (pb_calls t)
    | (Inr x, t) \<Rightarrow> with_fact service r a0 c0 (\<lambda>calls a c. F calls a c \<and> said service calls args x \<and> (must \<longrightarrow> an_code x = 0)) t"
    by (auto simp: gh_def Let_def with_fact_def said_last)
qed

lemma reading_calls [simp]:
  "reading r (commits_call r)" "reading r (branch_call r)" "reading r (view_call r)" "reading r (lookup_call r)"
  "reading r (compare_call r b)" "reading r (download_call r n)"
  by (auto simp: reading_def)

lemma read_bind:
  assumes "lasting F" and "reading r args"
    and "\<And>x. triple (with_fact service r a0 c0 (\<lambda>calls a c. F calls a c \<and> said service calls args x \<and> (must \<longrightarrow> an_code x = 0)))
      (f x) Q (\<lambda>_ s. permitted service r a0 c0 (pb_calls s))"
  shows "triple (with_fact service r a0 c0 F) (ebind (gh service must args) f) Q (\<lambda>_ s. permitted service r a0 c0 (pb_calls s))"
  by (rule triple_bind [OF gh_triple assms(3)]) (use assms(1,2) in auto)

lemma change_bind:
  assumes "lasting F" and "\<And>calls a c. F calls a c \<Longrightarrow> changing service r a0 c0 calls args"
    and "\<And>x. triple (with_fact service r a0 c0 (\<lambda>calls a c. F calls a c \<and> said service calls args x \<and> (must \<longrightarrow> an_code x = 0)))
      (f x) Q (\<lambda>_ s. permitted service r a0 c0 (pb_calls s))"
  shows "triple (with_fact service r a0 c0 F) (ebind (gh service must args) f) Q (\<lambda>_ s. permitted service r a0 c0 (pb_calls s))"
  by (rule triple_bind [OF gh_triple assms(3)]) (use assms(1,2) in auto)

lemma guard_bind:
  assumes "b \<Longrightarrow> triple (with_fact service r a0 c0 F) (f ()) Q (\<lambda>_ s. permitted service r a0 c0 (pb_calls s))"
  shows "triple (with_fact service r a0 c0 F) (ebind (eguard b e) f) Q (\<lambda>_ s. permitted service r a0 c0 (pb_calls s))"
  using assms by (cases b) (auto intro: triple_raise dest: with_factD)

lemma lift_bind:
  assumes "\<And>x. m = Inr x \<Longrightarrow> triple (with_fact service r a0 c0 F) (f x) Q (\<lambda>_ s. permitted service r a0 c0 (pb_calls s))"
  shows "triple (with_fact service r a0 c0 F) (ebind (elift m) f) Q (\<lambda>_ s. permitted service r a0 c0 (pb_calls s))"
  using assms by (cases m) (auto simp: elift_def intro: triple_raise dest: with_factD)

lemma raise_fact: "triple (with_fact service r a0 c0 F) (eraise e) Q (\<lambda>_ s. permitted service r a0 c0 (pb_calls s))"
  by (rule triple_raise) (rule with_factD)

lemma ret_fact:
  assumes "\<And>calls a c. F calls a c \<Longrightarrow> G x calls a c"
  shows "triple (with_fact service r a0 c0 F) (eret x) (\<lambda>x. with_fact service r a0 c0 (G x)) E"
  by (rule triple_ret) (erule with_fact_mono, erule assms)

lemma tag_triple:
  assumes F: "lasting F"
  shows "triple (with_fact service r a0 c0 F) (require_merged_tag service r)
    (\<lambda>_. with_fact service r a0 c0 (\<lambda>calls a c. F calls a c \<and> merged service r calls))
    (\<lambda>_ s. permitted service r a0 c0 (pb_calls s))"
  unfolding require_merged_tag_def
  apply (rule read_bind, (intro lasting_conj lasting_facts F), simp)
  apply (rule guard_bind)
  apply (rule read_bind, (intro lasting_conj lasting_facts F), simp)
  apply (rule read_bind, (intro lasting_conj lasting_facts F), simp)
  apply (rule triple_guard)
   apply (erule with_fact_mono)
   apply (auto simp: merged_def)[1]
  apply (erule with_factD)
  done

lemma existing_triple:
  assumes F: "lasting F"
  shows "triple (with_fact service r a0 c0 F) (existing_release service r)
    (\<lambda>found. with_fact service r a0 c0 (\<lambda>calls a c. F calls a c
       \<and> (case found of None \<Rightarrow> absent service r calls | Some v \<Rightarrow> listed service r calls v)))
    (\<lambda>_ s. permitted service r a0 c0 (pb_calls s))"
  unfolding existing_release_def
  apply (rule read_bind, (intro lasting_conj lasting_facts F), simp)
  subgoal for view
    apply (cases "an_code view = 0"; simp)
     apply (cases "an_json view"; simp add: raise_fact)
     apply (rule ret_fact)
     apply (auto simp: listed_def)[1]
    apply (rule read_bind)
    apply (intro lasting_conj lasting_facts F)
    apply simp
    apply (rule guard_bind)
    apply (rule ret_fact)
    apply (auto simp: absent_def)
    done
  done

text \<open>The loop over the listed assets returns ours that are uploaded, and deletes placeholders only.\<close>

lemma published_asset_triple:
  assumes F: "lasting F" and may: "\<And>calls a c. F calls a c \<Longrightarrow> merged service r calls \<and> listed service r calls v"
    and xs: "listed_assets v xs" "x \<in> set xs"
  shows "triple (with_fact service r a0 c0 F) (published_asset service r x)
    (\<lambda>names. with_fact service r a0 c0 (\<lambda>calls a c. F calls a c \<and> (\<forall>n. n \<in> set names \<longleftrightarrow> asset_in r ''uploaded'' x n)))
    (\<lambda>_ s. permitted service r a0 c0 (pb_calls s))"
proof -
  have may_delete: "changing service r a0 c0 calls (delete_call e)"
    if "F calls a c" and "asset_in r ''starter'' x n" and "asset_endpoint r x = Inr e" for calls a c n e
    using may [OF that(1)] that(2,3) xs by (blast intro: deletes)
  have string_name: "triple (with_fact service r a0 c0 F)
      (if n \<notin> set (our_names r) then eret []
       else if field_or x ''state'' PNone = PStr ''uploaded'' then eret [n]
       else if field_or x ''state'' PNone = PStr ''starter''
         then ebind (elift (asset_endpoint r x)) (\<lambda>endpoint. ebind (gh service True (delete_call endpoint)) (\<lambda>_. eret []))
       else eraise e)
      (\<lambda>names. with_fact service r a0 c0 (\<lambda>calls a c. F calls a c \<and> (\<forall>n. n \<in> set names \<longleftrightarrow> asset_in r ''uploaded'' x n)))
      (\<lambda>_ s. permitted service r a0 c0 (pb_calls s))" (is "triple _ ?m _ _") if n: "item_of x ''name'' = Inr (PStr n)" for n e
  proof -
    consider "n \<notin> set (our_names r)" | "n \<in> set (our_names r)" "field_or x ''state'' PNone = PStr ''uploaded''"
      | "n \<in> set (our_names r)" "field_or x ''state'' PNone = PStr ''starter''"
      | "n \<in> set (our_names r)" "field_or x ''state'' PNone \<noteq> PStr ''uploaded''" "field_or x ''state'' PNone \<noteq> PStr ''starter''"
      by blast
    then show ?thesis
    proof cases
      case 3
      then have starter: "asset_in r ''starter'' x n" using n by (simp add: asset_in_def)
      have "?m = ebind (elift (asset_endpoint r x)) (\<lambda>endpoint. ebind (gh service True (delete_call endpoint)) (\<lambda>_. eret []))"
        using 3 by simp
      moreover have "triple (with_fact service r a0 c0 F) \<dots>
        (\<lambda>names. with_fact service r a0 c0 (\<lambda>calls a c. F calls a c \<and> (\<forall>n. n \<in> set names \<longleftrightarrow> asset_in r ''uploaded'' x n)))
        (\<lambda>_ s. permitted service r a0 c0 (pb_calls s))"
        by (rule lift_bind, rule change_bind [OF F], erule may_delete [OF _ starter], assumption, rule ret_fact)
          (use 3 in \<open>simp add: asset_in_def\<close>)
      ultimately show ?thesis by simp
    qed (use n in \<open>auto simp: asset_in_def intro!: ret_fact raise_fact\<close>)
  qed
  show ?thesis
    unfolding published_asset_def Let_def
  proof (rule lift_bind)
    fix name assume name: "item_of x ''name'' = Inr name"
    show "triple (with_fact service r a0 c0 F)
      (case name of PNone \<Rightarrow> eret [] | PBool b \<Rightarrow> eret [] | PInt i \<Rightarrow> eret [] | PFloat d \<Rightarrow> eret []
       | PStr n \<Rightarrow> (if n \<notin> set (our_names r) then eret []
           else if field_or x ''state'' PNone = PStr ''uploaded'' then eret [n]
           else if field_or x ''state'' PNone = PStr ''starter''
             then ebind (elift (asset_endpoint r x)) (\<lambda>endpoint. ebind (gh service True (delete_call endpoint)) (\<lambda>_. eret []))
           else eraise (value_error (''published '' @ n @ '' is in unexpected state '' @ py_repr (field_or x ''state'' PNone))))
       | PList l \<Rightarrow> eraise (Raised ''TypeError'' []) | PDict d \<Rightarrow> eraise (Raised ''TypeError'' []))
      (\<lambda>names. with_fact service r a0 c0 (\<lambda>calls a c. F calls a c \<and> (\<forall>n. n \<in> set names \<longleftrightarrow> asset_in r ''uploaded'' x n)))
      (\<lambda>_ s. permitted service r a0 c0 (pb_calls s))"
    proof (cases name)
      case (PStr n)
      then show ?thesis using string_name [OF name [unfolded PStr]] by (simp only: pyval.case)
    qed (use name in \<open>auto simp: asset_in_def intro!: raise_fact ret_fact\<close>)
  qed
qed

lemma published_assets_triple:
  assumes all: "listed_assets v all"
  shows "lasting F \<Longrightarrow> (\<And>calls a c. F calls a c \<Longrightarrow> merged service r calls \<and> listed service r calls v) \<Longrightarrow> set xs \<subseteq> set all
    \<Longrightarrow> triple (with_fact service r a0 c0 F) (published_assets service r xs)
    (\<lambda>names. with_fact service r a0 c0 (\<lambda>calls a c. F calls a c \<and> (\<forall>n. n \<in> set names \<longleftrightarrow> uploaded r xs n)))
    (\<lambda>_ s. permitted service r a0 c0 (pb_calls s))"
proof (induction xs arbitrary: F)
  case Nil
  show ?case unfolding published_assets.simps by (rule ret_fact) (simp add: uploaded_def)
next
  case (Cons x xs)
  have x: "x \<in> set all" using Cons.prems(3) by simp
  show ?case unfolding published_assets.simps
  proof (rule triple_bind [OF published_asset_triple [OF Cons.prems(1,2) all x]])
    fix names
    let ?F = "\<lambda>calls a c. F calls a c \<and> (\<forall>n. n \<in> set names \<longleftrightarrow> asset_in r ''uploaded'' x n)"
    have "lasting ?F" using Cons.prems(1) by (simp add: lasting_def)
    then have rest: "triple (with_fact service r a0 c0 ?F) (published_assets service r xs)
      (\<lambda>later. with_fact service r a0 c0 (\<lambda>calls a c. ?F calls a c \<and> (\<forall>n. n \<in> set later \<longleftrightarrow> uploaded r xs n)))
      (\<lambda>_ s. permitted service r a0 c0 (pb_calls s))"
      by (rule Cons.IH) (use Cons.prems(2,3) in auto)
    show "triple (with_fact service r a0 c0 ?F) (ebind (published_assets service r xs) (\<lambda>later. eret (names @ later)))
      (\<lambda>ns. with_fact service r a0 c0 (\<lambda>calls a c. F calls a c \<and> (\<forall>n. n \<in> set ns \<longleftrightarrow> uploaded r (x # xs) n)))
      (\<lambda>_ s. permitted service r a0 c0 (pb_calls s))"
      by (rule triple_bind [OF rest], rule ret_fact) (auto simp: uploaded_def)
  qed
qed

text \<open>Taking over what is published\<close>

lemma downloaded_bind:
  assumes F: "lasting F"
    and "\<And>bytes. triple (with_fact service r a0 c0 (\<lambda>calls a c. F calls a c
        \<and> (\<exists>x. said service calls (download_call r name) x \<and> an_file x = Some bytes))) (f bytes) Q
      (\<lambda>_ s. permitted service r a0 c0 (pb_calls s))"
  shows "triple (with_fact service r a0 c0 F) (ebind (downloaded service r name) f) Q (\<lambda>_ s. permitted service r a0 c0 (pb_calls s))"
proof (rule triple_bind)
  show "triple (with_fact service r a0 c0 F) (downloaded service r name)
     (\<lambda>bytes. with_fact service r a0 c0 (\<lambda>calls a c. F calls a c
        \<and> (\<exists>x. said service calls (download_call r name) x \<and> an_file x = Some bytes)))
     (\<lambda>_ s. permitted service r a0 c0 (pb_calls s))"
    unfolding downloaded_def
    apply (rule read_bind [OF F], simp)
    subgoal for x
      apply (cases "an_file x"; simp add: raise_fact)
      apply (rule ret_fact)
      apply auto
      done
    done
qed (rule assms(2))

lemma decompressed_bind:
  assumes "\<And>t. rl_decompress r bytes = Some t \<Longrightarrow>
    triple (with_fact service r a0 c0 F) (f t) Q (\<lambda>_ s. permitted service r a0 c0 (pb_calls s))"
  shows "triple (with_fact service r a0 c0 F) (ebind (decompressed r bytes) f) Q (\<lambda>_ s. permitted service r a0 c0 (pb_calls s))"
  using assms by (cases "rl_decompress r bytes") (auto simp: decompressed_def intro: raise_fact)

lemma get_bind:
  assumes "\<And>x. triple (with_fact service r a0 c0 (\<lambda>calls a c. F calls a c \<and> x = h a c)) (f x) Q (\<lambda>_ s. permitted service r a0 c0 (pb_calls s))"
    and "\<And>s. g s = h (pb_archive s) (pb_checksum s)"
  shows "triple (with_fact service r a0 c0 F) (ebind (eget g) f) Q (\<lambda>_ s. permitted service r a0 c0 (pb_calls s))"
  by (rule triple_bind [OF triple_get assms(1)]) (simp add: with_fact_def assms(2))

lemma lasting_file [intro]: "lasting (\<lambda>calls a c. \<exists>x. said service calls call x \<and> an_file x = Some (g a c))"
  unfolding lasting_def by (blast intro: said_more)

lemma adopt_archive_triple:
  assumes H: "lasting (\<lambda>calls _ _. H calls)"
  shows "triple (with_fact service r a0 c0 (\<lambda>calls a c. H calls \<and> a = a0 \<and> c = c0)) (adopt_archive service r)
    (\<lambda>_. with_fact service r a0 c0 (\<lambda>calls a c. H calls
       \<and> (\<exists>x. said service calls (download_call r (rl_archive_name r)) x \<and> an_file x = Some a)
       \<and> (\<exists>t. rl_decompress r a = Some t \<and> rl_decompress r a0 = Some t) \<and> c = checksum_text r a))
    (\<lambda>_ s. permitted service r a0 c0 (pb_calls s))"
  unfolding adopt_archive_def
  apply (rule downloaded_bind)
   apply (intro lasting_conj lasting_facts H)
  apply (rule decompressed_bind)
  apply (rule get_bind [where h = "\<lambda>a c. a"])
   apply (rule decompressed_bind)
   apply (rule guard_bind)
   apply (rule triple_modify)
   apply (auto simp: with_fact_def)
  done

lemma adopt_checksum_triple:
  assumes F: "lasting F"
  shows "triple (with_fact service r a0 c0 F) (adopt_checksum service r)
    (\<lambda>_. with_fact service r a0 c0 (\<lambda>calls a c. F calls a c
       \<and> (\<exists>x. said service calls (download_call r (rl_checksum_name r)) x \<and> an_file x = Some c)))
    (\<lambda>_ s. permitted service r a0 c0 (pb_calls s))"
  unfolding adopt_checksum_def
  apply (rule downloaded_bind [OF F])
  apply (rule get_bind [where h = "\<lambda>a c. c"])
   apply (rule triple_guard)
    apply (erule with_fact_mono)
    apply auto[1]
   apply (erule with_factD)
  apply simp
  done

lemma adopt_triple:
  assumes H: "lasting (\<lambda>calls _ _. H calls)" and names: "\<And>n. n \<in> set names \<longleftrightarrow> uploaded r xs n"
  shows "triple (with_fact service r a0 c0 (\<lambda>calls a c. H calls \<and> a = a0 \<and> c = c0)) (adopt_published_assets service r names)
    (\<lambda>_. with_fact service r a0 c0 (\<lambda>calls a c. H calls \<and> kept service r a0 c0 xs calls a c))
    (\<lambda>_ s. permitted service r a0 c0 (pb_calls s))"
proof -
  let ?A = "\<lambda>calls a c. H calls \<and> (if uploaded r xs (rl_archive_name r)
      then (\<exists>x. said service calls (download_call r (rl_archive_name r)) x \<and> an_file x = Some a)
        \<and> (\<exists>t. rl_decompress r a = Some t \<and> rl_decompress r a0 = Some t) \<and> c = checksum_text r a
      else a = a0 \<and> c = c0)"
  have A: "lasting ?A" using H unfolding lasting_def by (auto intro: said_more)
  have first: "triple (with_fact service r a0 c0 (\<lambda>calls a c. H calls \<and> a = a0 \<and> c = c0))
      (if rl_archive_name r \<in> set names then adopt_archive service r else eret ())
      (\<lambda>_. with_fact service r a0 c0 ?A) (\<lambda>_ s. permitted service r a0 c0 (pb_calls s))"
    using adopt_archive_triple [OF H] by (auto simp: names intro: ret_fact)
  show ?thesis
    unfolding adopt_published_assets_def
  proof (rule triple_bind [OF first])
    show "triple (with_fact service r a0 c0 ?A) (if rl_checksum_name r \<in> set names then adopt_checksum service r else eret ())
      (\<lambda>_. with_fact service r a0 c0 (\<lambda>calls a c. H calls \<and> kept service r a0 c0 xs calls a c))
      (\<lambda>_ s. permitted service r a0 c0 (pb_calls s))"
    proof (cases "rl_checksum_name r \<in> set names")
      case True
      then show ?thesis
        by (auto simp: names kept_def intro!: triple_conseq [OF adopt_checksum_triple [OF A]] elim!: with_fact_mono)
    next
      case False
      then show ?thesis by (auto simp: names kept_def intro!: ret_fact)
    qed
  qed
qed

text \<open>Uploading what is missing, and publishing a draft\<close>

lemma upload_triple:
  assumes xs: "listed_assets v xs" and names: "\<And>n. n \<in> set names \<longleftrightarrow> uploaded r xs n"
  shows "lasting F \<Longrightarrow> (\<And>calls a c. F calls a c \<Longrightarrow> merged service r calls \<and> listed service r calls v \<and> kept service r a0 c0 xs calls a c)
    \<Longrightarrow> set ys \<subseteq> set (release_assets r) \<Longrightarrow> triple (with_fact service r a0 c0 F) (efor ys (upload_missing service r names))
    (\<lambda>_. with_fact service r a0 c0 (\<lambda>calls a c. F calls a c \<and> (\<forall>(n, p) \<in> set ys.
        uploaded r xs n \<or> (\<exists>x. said service calls (upload_call r p) x \<and> an_code x = 0))))
    (\<lambda>_ s. permitted service r a0 c0 (pb_calls s))"
proof (induction ys arbitrary: F)
  case Nil
  show ?case unfolding efor.simps by (rule ret_fact) simp
next
  case (Cons y ys)
  obtain n p where y: "y = (n, p)" by (cases y)
  let ?F = "\<lambda>calls a c. F calls a c \<and> (uploaded r xs n \<or> (\<exists>x. said service calls (upload_call r p) x \<and> an_code x = 0))"
  have "triple (with_fact service r a0 c0 F) (upload_missing service r names y) (\<lambda>_. with_fact service r a0 c0 ?F)
    (\<lambda>_ s. permitted service r a0 c0 (pb_calls s))"
  proof (cases "n \<in> set names")
    case True
    then show ?thesis by (auto simp: upload_missing_def y names intro!: ret_fact)
  next
    case False
    have may: "changing service r a0 c0 calls (upload_call r p)" if "F calls a c" for calls a c
      using Cons.prems(2) [OF that] Cons.prems(3) xs False unfolding y names by (auto intro: uploads)
    have "triple (with_fact service r a0 c0 F) (ebind (gh service True (upload_call r p)) (\<lambda>_. eret ()))
      (\<lambda>_. with_fact service r a0 c0 ?F) (\<lambda>_ s. permitted service r a0 c0 (pb_calls s))"
      by (rule change_bind [OF Cons.prems(1) may], assumption, rule ret_fact) auto
    with False show ?thesis by (simp add: upload_missing_def y)
  qed
  moreover have "lasting ?F" using Cons.prems(1) unfolding lasting_def by (blast intro: said_more)
  then have "triple (with_fact service r a0 c0 ?F) (efor ys (upload_missing service r names))
    (\<lambda>_. with_fact service r a0 c0 (\<lambda>calls a c. ?F calls a c \<and> (\<forall>(n, p) \<in> set ys.
        uploaded r xs n \<or> (\<exists>x. said service calls (upload_call r p) x \<and> an_code x = 0))))
    (\<lambda>_ s. permitted service r a0 c0 (pb_calls s))"
    by (rule Cons.IH) (use Cons.prems(2,3) in auto)
  ultimately show ?case unfolding efor.simps
    by (rule triple_bind [OF _ triple_conseq]) (auto simp: y elim!: with_fact_mono)
qed

definition finished :: "service \<Rightarrow> release \<Rightarrow> string \<Rightarrow> string \<Rightarrow> pyval \<Rightarrow> string list list \<Rightarrow> string \<Rightarrow> string \<Rightarrow> bool" where
  "finished service r a0 c0 v calls archive checksum \<longleftrightarrow> listed service r calls v \<and> (\<exists>xs. listed_assets v xs
     \<and> kept service r a0 c0 xs calls archive checksum \<and> all_there service r xs calls
     \<and> (is_draft v \<longrightarrow> (\<exists>x. said service calls (edit_call r) x \<and> an_code x = 0)))"

lemma draft_triple:
  assumes xs: "listed_assets v xs"
  shows "triple (with_fact service r a0 c0 (\<lambda>calls a c. merged service r calls \<and> listed service r calls v
        \<and> kept service r a0 c0 xs calls a c \<and> all_there service r xs calls))
      (publish_draft service r v) (\<lambda>_. with_fact service r a0 c0 (\<lambda>calls a c. merged service r calls \<and> finished service r a0 c0 v calls a c))
      (\<lambda>_ s. permitted service r a0 c0 (pb_calls s))" (is "triple (with_fact _ _ _ _ ?F) _ ?Q ?E")
  unfolding publish_draft_def
proof (rule lift_bind)
  fix draft assume draft: "item_of v ''isDraft'' = Inr draft"
  have all_more: "all_there service r xs calls \<Longrightarrow> all_there service r xs (calls @ later)" for calls later
    unfolding all_there_def by (fastforce intro: said_more)
  have F: "lasting ?F" by (auto simp: lasting_def intro: merged_more listed_more kept_more all_more)
  show "triple (with_fact service r a0 c0 ?F)
    (if truthy draft then ebind (gh service True (edit_call r)) (\<lambda>_. eret ()) else eret ()) ?Q ?E"
  proof (cases "truthy draft")
    case True
    have may: "changing service r a0 c0 calls (edit_call r)" if "?F calls a c" for calls a c
      using that xs draft True by (auto intro!: publishes simp: is_draft_def)
    have "triple (with_fact service r a0 c0 ?F) (ebind (gh service True (edit_call r)) (\<lambda>_. eret ())) ?Q ?E"
      by (rule change_bind [OF F may], assumption, rule ret_fact) (auto simp: finished_def intro: xs)
    with True show ?thesis by simp
  next
    case False
    then have "\<not> is_draft v" using draft by (simp add: is_draft_def)
    with False show ?thesis by (auto simp: finished_def intro: xs intro!: ret_fact)
  qed
qed

lemma complete_triple:
  assumes xs: "listed_assets v xs" and names: "\<And>n. n \<in> set names \<longleftrightarrow> uploaded r xs n"
  shows "triple (with_fact service r a0 c0 (\<lambda>calls a c. (merged service r calls \<and> listed service r calls v) \<and> a = a0 \<and> c = c0))
      (complete_release service r v names)
      (\<lambda>_. with_fact service r a0 c0 (\<lambda>calls a c. merged service r calls \<and> finished service r a0 c0 v calls a c))
      (\<lambda>_ s. permitted service r a0 c0 (pb_calls s))"
proof -
  have H: "lasting (\<lambda>calls a c. merged service r calls \<and> listed service r calls v)" by (intro lasting_conj lasting_facts)
  have F: "lasting (\<lambda>calls a c. (merged service r calls \<and> listed service r calls v) \<and> kept service r a0 c0 xs calls a c)"
    by (intro lasting_conj lasting_facts)
  show ?thesis
    unfolding complete_release_def
    by (rule triple_bind [OF adopt_triple [OF H names]],
        rule triple_bind [OF upload_triple [OF xs names F] triple_pre [OF draft_triple [OF xs]]])
      (auto simp: all_there_def elim!: with_fact_mono)
qed

lemma finish_triple:
  "triple (with_fact service r a0 c0 (\<lambda>calls a c. (merged service r calls \<and> listed service r calls v) \<and> a = a0 \<and> c = c0))
     (finish_release service r v) (\<lambda>_. with_fact service r a0 c0 (\<lambda>calls a c. merged service r calls \<and> finished service r a0 c0 v calls a c))
     (\<lambda>_ s. permitted service r a0 c0 (pb_calls s))" (is "triple (with_fact _ _ _ _ ?F) _ ?Q ?E")
  unfolding finish_release_def
proof (rule lift_bind, rule lift_bind)
  fix assets xs assume "item_of v ''assets'' = Inr assets" and "items_of assets = Inr xs"
  then have xs: "listed_assets v xs" by (auto simp: listed_assets_def)
  have F: "lasting ?F" by (intro lasting_conj lasting_facts)
  show "triple (with_fact service r a0 c0 ?F) (ebind (published_assets service r xs) (complete_release service r v)) ?Q ?E"
  proof (rule triple_bind [OF published_assets_triple [OF xs F]])
    fix names
    show "triple (with_fact service r a0 c0 (\<lambda>calls a c. ?F calls a c \<and> (\<forall>n. n \<in> set names \<longleftrightarrow> uploaded r xs n)))
      (complete_release service r v names) ?Q ?E"
    proof (cases "\<forall>n. n \<in> set names \<longleftrightarrow> uploaded r xs n")
      case True
      then have "\<And>n. n \<in> set names \<longleftrightarrow> uploaded r xs n" by blast
      then show ?thesis by (rule triple_pre [OF complete_triple [OF xs]]) (auto elim!: with_fact_mono)
    qed (auto simp: with_fact_def triple_def)
  qed auto
qed

definition completed :: "service \<Rightarrow> release \<Rightarrow> string \<Rightarrow> string \<Rightarrow> publication \<Rightarrow> bool" where
  "completed service r a0 c0 s \<longleftrightarrow> merged service r (pb_calls s)
     \<and> ((absent service r (pb_calls s) \<and> (\<exists>x. said service (pb_calls s) (create_call r) x \<and> an_code x = 0)
          \<and> pb_notes s = rl_notes r @ ARCHIVE_NOTE \<and> pb_archive s = a0 \<and> pb_checksum s = c0)
      \<or> (\<exists>v. finished service r a0 c0 v (pb_calls s) (pb_archive s) (pb_checksum s)))"

lemma finished_completed:
  "with_fact service r a0 c0 (\<lambda>calls a c. merged service r calls \<and> finished service r a0 c0 v calls a c) s \<Longrightarrow> completed service r a0 c0 s"
  by (auto simp: with_fact_def completed_def)

lemma create_triple:
  "triple (with_fact service r a0 c0 (\<lambda>calls a c. merged service r calls \<and> absent service r calls \<and> a = a0 \<and> c = c0))
     (ebind (emodify (\<lambda>s. s \<lparr> pb_notes := rl_notes r @ ARCHIVE_NOTE \<rparr>)) (\<lambda>_. ebind (gh service True (create_call r)) (\<lambda>_. eret ())))
     (\<lambda>_ s. permitted service r a0 c0 (pb_calls s) \<and> completed service r a0 c0 s)
     (\<lambda>_ s. permitted service r a0 c0 (pb_calls s))"
  by (rule tripleI) (auto simp: ebind_def gh_def Let_def with_fact_def completed_def
      intro!: permitted_last creates merged_more absent_more said_last exI)

lemma publish_triple:
  "triple (\<lambda>s. s = \<lparr> pb_calls = [], pb_archive = a0, pb_checksum = c0, pb_notes = n \<rparr>) (publish_release service r)
     (\<lambda>_ s. permitted service r a0 c0 (pb_calls s) \<and> completed service r a0 c0 s)
     (\<lambda>_ s. permitted service r a0 c0 (pb_calls s))"
proof -
  let ?F = "\<lambda>calls a c. a = a0 \<and> c = c0"
  have F: "lasting ?F" and F': "lasting (\<lambda>calls a c. ?F calls a c \<and> merged service r calls)"
    by (intro lasting_conj lasting_facts)+
  show ?thesis
    unfolding publish_release_def
  proof (rule triple_pre [OF triple_bind [OF tag_triple [OF F] triple_bind [OF existing_triple [OF F']]]])
    fix found :: "pyval option"
    show "triple (with_fact service r a0 c0 (\<lambda>calls a c. (?F calls a c \<and> merged service r calls)
          \<and> (case found of None \<Rightarrow> absent service r calls | Some v \<Rightarrow> listed service r calls v)))
      (case found of None \<Rightarrow> ebind (emodify (\<lambda>s. s \<lparr> pb_notes := rl_notes r @ ARCHIVE_NOTE \<rparr>)) (\<lambda>_.
           ebind (gh service True (create_call r)) (\<lambda>_. eret ())) | Some v \<Rightarrow> finish_release service r v)
      (\<lambda>_ s. permitted service r a0 c0 (pb_calls s) \<and> completed service r a0 c0 s)
      (\<lambda>_ s. permitted service r a0 c0 (pb_calls s))"
      by (cases found) (auto intro!: triple_pre [OF create_triple] triple_conseq [OF finish_triple]
          dest: finished_completed with_factD elim!: with_fact_mono)
  qed (simp add: with_fact_def permitted_def)
qed

definition publication_start :: "string \<Rightarrow> string \<Rightarrow> publication" where
  "publication_start archive checksum = \<lparr> pb_calls = [], pb_archive = archive, pb_checksum = checksum, pb_notes = [] \<rparr>"

text \<open>C39. Whatever the service answers, and wherever the publication stops, every call that changes the release was allowed by the
  answers before it: the tag was confirmed to be the commit and on the default branch; a release is created only after the
  release was not found and the lookup said HTTP 404; an asset is deleted only when it is one of ours in state \<^verbatim>\<open>starter\<close>; one is
  uploaded only when it is not listed as uploaded and published bytes hold the same source; a draft is published only when
  both assets are there.
\<close>

theorem release_calls_permitted:
  "permitted service r archive checksum (pb_calls (snd (publish_release service r (publication_start archive checksum))))"
proof (cases "publish_release service r (publication_start archive checksum)")
  case (Pair result t)
  then show ?thesis
    using triple_returned [OF publish_triple [of archive checksum "[]" service r] refl]
      triple_raised [OF publish_triple [of archive checksum "[]" service r] refl]
    by (cases result) (auto simp: publication_start_def)
qed

text \<open>C40. A publication that returns has finished the release: a new one was created from both files with the notes, or
  the one that exists has both assets, uploaded now or listed as uploaded, and was published when it was a draft. The local archive is then
  the published one, with the same source, and the checksum file is the one of that archive.
\<close>

theorem release_completed:
  assumes "publish_release service r (publication_start archive checksum) = (Inr (), t)"
  shows "completed service r archive checksum t"
  using triple_returned [OF publish_triple refl assms [unfolded publication_start_def]] by simp

text \<open>An interrupted publication: the archive is there, the upload of the checksum had failed, the release is a draft.\<close>

definition sample_release :: release where
  "sample_release = \<lparr> rl_repository = ''o/r'', rl_tag = ''v1'', rl_commit = ''c1'', rl_archive_name = ''a.gz'', rl_archive_path = ''/d/a.gz'',
     rl_checksum_name = ''a.sha'', rl_checksum_path = ''/d/a.sha'', rl_notes = ''n'', rl_temporary = ''/t'',
     rl_decompress = (\<lambda>b. if b = [] then None else Some (tl b)), rl_sha256 = (\<lambda>b. b) \<rparr>"

definition sample_asset :: "string \<Rightarrow> string \<Rightarrow> string \<Rightarrow> pyval" where
  "sample_asset name state url = PDict [(PStr ''name'', PStr name), (PStr ''state'', PStr state), (PStr ''apiUrl'', PStr url)]"

definition sample_found :: pyval where
  "sample_found = PDict [(PStr ''isDraft'', PBool True), (PStr ''assets'', PList [sample_asset ''a.gz'' ''uploaded'' [],
     sample_asset ''a.sha'' ''starter'' ''x/releases/assets/12''])]"

definition sample_answer :: "string \<Rightarrow> answer" where
  "sample_answer out = \<lparr> an_code = 0, an_out = out, an_err = [], an_json = Some sample_found, an_file = Some ''2x'' \<rparr>"

definition sample_service :: service where
  "sample_service calls call = sample_answer (case calls of [] \<Rightarrow> ''c1'' | c # rest \<Rightarrow> if rest = [] then ''main'' else ''behind'')"

theorem release_completed_witness:
  "completed sample_service sample_release ''1x'' [] (snd (publish_release sample_service sample_release (publication_start ''1x'' [])))
   \<and> length (pb_calls (snd (publish_release sample_service sample_release (publication_start ''1x'' [])))) = 8"
proof -
  let ?run = "publish_release sample_service sample_release (publication_start ''1x'' [])"
  have "isl (fst ?run) = False" by code_simp
  then have "?run = (Inr (), snd ?run)" by (cases ?run; cases "fst ?run") auto
  then have "completed sample_service sample_release ''1x'' [] (snd ?run)" by (rule release_completed)
  moreover have "length (pb_calls (snd ?run)) = 8" by code_simp
  ultimately show ?thesis by blast
qed

end
