(* ===== verification/Spec2Isabelle.thy ===== *)
theory Spec2Isabelle
  imports Coordinates StorageTarget Planner PyShlex Shards Bins BatchManifest BatchReports Relevance ReportCommon Pairing SuiteRun FailureInjection ReportLimits LiveWindows LiveChoice MdtestReports ResultsMerge IoEntries NetReports WarpReports Provenance ReleasePublish
begin

text \<open>
  Verification library for storage-scale-test, a suite that runs storage benchmarks (elbencho, mdtest, warp, netbench) over
  SSH, Slurm and Kubernetes and reports their results. The launchers are shell; the Python half prepares and reads
  batches, plans and drives the integration tests and computes the reports. This library models the decisions of the
  Python half; paths below are relative to \<^verbatim>\<open>src/\<close>.

  \<^bold>\<open>Parts and how they interact.\<close> A batch directory is written by the launchers; \<^verbatim>\<open>lib/filesystem_batch.py\<close> reads
  its manifest, checks every digest and stages the executions of each group for a reporter; \<^verbatim>\<open>lib/filesystem_coordinates.py\<close> parses
  the definition of an execution into its coordinates, and \<^verbatim>\<open>lib/storage_target.py\<close> names the storage target and
  refuses to report different targets together. \<^verbatim>\<open>lib/filesystem_report_options.py\<close> distributes the options of one report command over the reporters,
  \<^verbatim>\<open>lib/setting_relevance.py\<close> hides settings that had no effect, \<^verbatim>\<open>lib/report_html/pairing.py\<close> chooses what is compared with what, and
  \<^verbatim>\<open>lib/report_html/reduce.py\<close> and \<^verbatim>\<open>lib/report_pool.py\<close> bound the size of a report and the processes that make it. The live CSV of a run is
  analysed by two streaming passes, \<^verbatim>\<open>lib/elbencho_live_report.py\<close> and \<^verbatim>\<open>lib/elbencho_live_steady.py\<close>. The integration tests plan work items
  (\<^verbatim>\<open>integration-tests/lib/scenario_planner.py\<close>), run them while switching the SSH pool between separate and shared
  homes (\<^verbatim>\<open>ssh_home_transition.py\<close>, driver loop in \<^verbatim>\<open>filesystem_integration.py\<close>), inject failures
  (\<^verbatim>\<open>failure_injection.py\<close>) and record what every shard of a run did (\<^verbatim>\<open>shard_manifest.py\<close>).

  \<^bold>\<open>The language.\<close> The prelude theories model what the source uses of Python.
  \<^item> \<open>PyPrelude\<close>: exceptions as values of a sum type, dictionaries as association lists in insertion order (locale
    \<open>ordered_dict\<close>), stable keyed sorting (locale \<open>deterministic_key\<close>), loops with exceptions.
  \<^item> \<open>PyStrings\<close>, \<open>PyValues\<close>, \<open>PyNumbers\<close>: strings of code points below 256, dynamically typed values, \<^verbatim>\<open>int\<close>
    of a text, comparison of numbers kept as the text Python prints.
  \<^item> \<open>PyDouble\<close>, \<open>PyFloats\<close>: doubles as rational numbers with rounding to nearest even after every operation, shown
    monotone; overflow, subnormal numbers and the sign of zero are left out. Floats of texts, exact mean and standard deviation.
  \<^item> \<open>PyFloatValues\<close>: values of JSON documents with floats, with infinities and NaN as values of their own.
  \<^item> \<open>PyCsv\<close>: the reader of CSV files.
  \<^item> \<open>PyRegex\<close>, \<open>PyShlex\<close>: regular expressions by derivatives, POSIX quoting and splitting.
  \<^item> \<open>PyFiles\<close>: a read-only view of a tree (locale \<open>plain_tree\<close>); \<open>PyEffects\<close>: effects as functions on an explicit
    state with exceptions, and a Hoare logic for them.

  \<^bold>\<open>Components\<close> (theory: source).
  \<^item> \<open>Coordinates\<close>: \<^verbatim>\<open>lib/filesystem_coordinates.py\<close>. The parser reads back what is printed, sizes, access patterns, keys.
  \<^item> \<open>StorageTarget\<close>: \<^verbatim>\<open>lib/storage_target.py\<close>. The guard refines a specification over the set of known names.
  \<^item> \<open>Planner\<close>: \<^verbatim>\<open>scenario_planner.py\<close>. Every selected pair once, home modes, independence of order, shards partition the plan.
  \<^item> \<open>Shards\<close>: \<^verbatim>\<open>shard_manifest.py\<close>. A set of manifests is accepted exactly when it is one complete passing run.
  \<^item> \<open>Bins\<close>: \<^verbatim>\<open>utils/slurm/group_into_bins.py\<close>. The swap loop returns and never makes the bins less balanced.
  \<^item> \<open>BatchManifest\<close>, \<open>BatchReports\<close>: \<^verbatim>\<open>lib/filesystem_batch.py\<close>. Parsing, containment, digests; staging and reporting of groups.
  \<^item> \<open>ReportOptions\<close>, \<open>Relevance\<close>, \<open>ReportCommon\<close>: \<^verbatim>\<open>lib/filesystem_report_options.py\<close>, \<^verbatim>\<open>lib/setting_relevance.py\<close>,
    \<^verbatim>\<open>lib/reporting_common.py\<close>, \<^verbatim>\<open>lib/parse_only_sizes.py\<close>, \<^verbatim>\<open>lib/join_datestamps.py\<close>, \<^verbatim>\<open>lib/results_document.py\<close>.
  \<^item> \<open>Pairing\<close>: \<^verbatim>\<open>lib/report_html/pairing.py\<close>. Automatic sets compare like with like; forced entries show exactly what they name.
  \<^item> \<open>HomeTransition\<close>: \<^verbatim>\<open>ssh_home_transition.py\<close>. The record is written before the pool is changed and read back after any
    failure; a preflight recovers. The pool is a record of hooks over an arbitrary state.
  \<^item> \<open>SuiteRun\<close>: the loop of \<^verbatim>\<open>filesystem_integration.py\<close> and the transitions of \<^verbatim>\<open>integration-test.py\<close>, composed with the plan and the manager.
  \<^item> \<open>FailureInjection\<close>: \<^verbatim>\<open>failure_injection.py\<close>. Plans, the wrapper's text and behaviour, staging that is always cleaned.
  \<^item> \<open>ReportLimits\<close>: \<^verbatim>\<open>lib/report_pool.py\<close>, \<^verbatim>\<open>lib/report_html/reduce.py\<close>. Memory limits of the pool, decimation with its bounds in double precision
    and its rounding to four figures.
  \<^item> \<open>LiveRows\<close>, \<open>LivePass\<close>: \<^verbatim>\<open>lib/elbencho_live_report.py\<close>. Rows, occurrences and the first pass; \<open>LivePass\<close> compares
    the pass with the runs of equal \<^verbatim>\<open>RuntimeMS\<close> of each domain.
  \<^item> \<open>LiveSteady\<close>, \<open>LiveRing\<close>, \<open>LiveWindows\<close>, \<open>LiveChoice\<close>: \<^verbatim>\<open>lib/elbencho_live_steady.py\<close>. The ring of snapshots against the
    history of all samples, the composition of both passes, the bounds of the steady window, the clients of a heat map.
  \<^item> \<open>Histograms\<close>: the percentiles of \<^verbatim>\<open>utils/extract-mdtest-elbencho.py\<close> and the pooling all reporters share; a percentile of pooled
    histograms is an order statistic of all samples.
  \<^item> \<open>ResultPairs\<close>, \<open>Netbench\<close> (definitions), \<open>NetReports\<close>: \<^verbatim>\<open>utils/extract-netbench.py\<close>. The result files of a directory and their
    pairs, the metrics of an iteration, filters, aggregated rows with interpolated percentiles.
  \<^item> \<open>Warp\<close> (definitions), \<open>WarpReports\<close>: the numbers of \<^verbatim>\<open>utils/extract-warp.py\<close>. Sizes, names and windows of an analysis,
    latency statistics, scaling efficiency and the clients that underperform.
  \<^item> \<open>Provenance\<close>: the part of \<^verbatim>\<open>lib/report_provenance.py\<close> that decides which version a report names.
  \<^item> \<open>ReleasePublish\<close>: \<^verbatim>\<open>publish_release\<close> of \<^verbatim>\<open>lib/source_release.py\<close> over an arbitrary service. Every call that changes the release
    is allowed by the answers before it, and a publication that returns has finished the release.
  \<^item> \<open>MdtestFiles\<close>, \<open>MdtestResults\<close>, \<open>MdtestReports\<close>: \<^verbatim>\<open>utils/extract-mdtest-elbencho.py\<close>. Result files, slots, entries and aggregates of a fragment,
    and the iterations taken back from a document.
  \<^item> \<open>ResultsDocument\<close>, \<open>ResultsMerge\<close>: \<^verbatim>\<open>lib/filesystem_results.py\<close>. The merge of ledgers and fragments into the results document: which
    executions it has, which may show results, when it is complete, and that its outcome counts add up.
  \<^item> \<open>Workload\<close>, \<open>IoCsv\<close>, \<open>IoOut\<close>, \<open>IoFragment\<close> (definitions) and \<open>IoReports\<close>, \<open>IoPlan\<close>, \<open>IoEntries\<close> (what they promise): \<^verbatim>\<open>utils/extract-elbencho.py\<close>.
    Workload metadata, the CSV and OUT files of a result pair, the plan that assigns every pair once and gives an execution its newest
    pair, and the entries of the fragment with their states.

  \<^bold>\<open>How the model corresponds to the code.\<close> Definitions keep the names of the source, without a leading underscore and
  with a suffix where a name is taken. A class is a record, an enum a datatype, a method a function from the
  old to the new state. Every early return, raise and guard is a branch. Loops over a list are recursion or folds;
  the swap loop of \<open>Bins\<close> and \<open>digit_split\<close>, \<open>py_words\<close> and their like are functions with a termination proof, so no fuel is used.
  Files, clocks, the pool, the adapters of the scenarios, SHA-256 and the staging operations are arguments or hooks, with what is
  assumed of them as named hypotheses (such as \<open>store_works\<close> and \<open>heals\<close>) that the witnesses discharge on concrete instances.
  Every property with a hypothesis is applied in its witness, whose definitions are evaluated by the simplifier.

  \<^bold>\<open>Not modelled.\<close> The shell launchers and templates; the bodies of the scenarios and the provisioning in
  \<^verbatim>\<open>integration-tests\<close>, which call SSH, Kubernetes and Docker; the objects of a live CSV in \<^verbatim>\<open>lib/elbencho_live_results.py\<close>, the parsing of results and the plots of \<^verbatim>\<open>utils/extract-warp.py\<close>, building a release archive, the tables of all reporters, and the rendering of HTML and
  plots; the bytes of JSON files and the syncing of directories; signals in the failure wrapper; latency statistics, whose sums of
  floats depend on the interpreter. Limits of the models: characters from code point 256 on, the limit of 4300
  digits for \<^verbatim>\<open>int\<close> of a text, buckets of a histogram that are not finite, a CSV file that becomes undecodable after its first rows, YAML dates, keyboard interrupts inside a handler.
\<close>

end
